(* ===== verification/JsValue.thy ===== *)
theory JsValue
  imports AofPrelude
begin

section \<open>JSON values and the JavaScript operators the program applies to them\<close>

text \<open>
  Task metadata, hop results and condition literals are \<open>unknown\<close> JSON data. A missing value
  (\<open>undefined\<close>) is \<open>None\<close>. Numbers are exact rationals: the rounding of IEEE doubles is not
  modelled. \<open>JTime t\<close> is the ISO-8601 string that \<open>new Date(t).toISOString()\<close> produces; the
  program writes such strings and reads them back with \<open>new Date(s).getTime()\<close>, which gives
  \<open>t\<close>. An object has its own keys only (no prototype properties).
\<close>

datatype json =
    JNull
  | JBool bool
  | JNum rat
  | JStr string
  | JTime int
  | JArr "json list"
  | JObj "(string \<times> json) list"

text \<open>Numbers as the relational operators see them: \<open>NaN\<close> compares false with everything.\<close>

datatype js_number = NaN | PosInf | NegInf | Fin rat

fun num_less :: "js_number \<Rightarrow> js_number \<Rightarrow> bool" where
  "num_less (Fin a) (Fin b) = (a < b)"
| "num_less NegInf (Fin b) = True"
| "num_less NegInf PosInf = True"
| "num_less (Fin a) PosInf = True"
| "num_less x y = False"

fun num_eq :: "js_number \<Rightarrow> js_number \<Rightarrow> bool" where
  "num_eq (Fin a) (Fin b) = (a = b)"
| "num_eq PosInf PosInf = True"
| "num_eq NegInf NegInf = True"
| "num_eq x y = False"

definition num_le :: "js_number \<Rightarrow> js_number \<Rightarrow> bool" where
  "num_le x y = (num_less x y \<or> num_eq x y)"

text \<open>
  \<open>Number(s)\<close> for a string: surrounding white space is dropped, the empty string is 0, then a
  signed decimal literal with optional fraction and exponent, \<open>Infinity\<close>, or an unsigned
  hexadecimal, octal or binary literal.
\<close>

definition hex_val :: "char \<Rightarrow> nat option" where
  "hex_val c =
     (let n = of_char c :: nat in
      if 48 \<le> n \<and> n \<le> 57 then Some (n - 48)
      else if 65 \<le> n \<and> n \<le> 70 then Some (n - 55)
      else if 97 \<le> n \<and> n \<le> 102 then Some (n - 87) else None)"

fun radix_val :: "nat \<Rightarrow> nat \<Rightarrow> string \<Rightarrow> nat option" where
  "radix_val b acc [] = Some acc"
| "radix_val b acc (c # cs) =
     (case hex_val c of
        None \<Rightarrow> None
      | Some d \<Rightarrow> (if d < b then radix_val b (acc * b + d) cs else None))"

definition exponent_val :: "string \<Rightarrow> int option" where
  "exponent_val s =
     (let neg = (s \<noteq> [] \<and> hd s = CHR ''-'');
          ds = (if s \<noteq> [] \<and> (hd s = CHR ''-'' \<or> hd s = CHR ''+'') then tl s else s)
      in if ds \<noteq> [] \<and> list_all is_digit ds
         then Some (if neg then - int (digits_val ds) else int (digits_val ds)) else None)"

definition scale10 :: "rat \<Rightarrow> int \<Rightarrow> rat" where
  "scale10 r e = (if 0 \<le> e then r * 10 ^ nat e else r / 10 ^ nat (- e))"

definition unsigned_decimal :: "string \<Rightarrow> rat option" where
  "unsigned_decimal s =
     (let ip = takeWhile is_digit s; r1 = dropWhile is_digit s;
          dot = (r1 \<noteq> [] \<and> hd r1 = CHR ''.'');
          fp = (if dot then takeWhile is_digit (tl r1) else []);
          r2 = (if dot then dropWhile is_digit (tl r1) else r1);
          m = (of_nat (digits_val (ip @ fp)) / 10 ^ length fp :: rat)
      in if ip = [] \<and> fp = [] then None
         else (case r2 of
                 [] \<Rightarrow> Some m
               | c # ex \<Rightarrow>
                   (if c = CHR ''e'' \<or> c = CHR ''E''
                    then map_option (scale10 m) (exponent_val ex) else None)))"

definition string_to_number :: "string \<Rightarrow> js_number" where
  "string_to_number raw =
     (let s = js_trim raw;
          fin = (\<lambda>v. case v of None \<Rightarrow> NaN | Some q \<Rightarrow> Fin q);
          rad = (\<lambda>b ds. if ds = [] then NaN
                        else (case radix_val b 0 ds of None \<Rightarrow> NaN | Some n \<Rightarrow> Fin (of_nat n)));
          dec = (\<lambda>r. if r = ''Infinity'' then PosInf else fin (unsigned_decimal r))
      in if s = [] then Fin 0
         else if hd s = CHR ''-'' then (case dec (tl s) of PosInf \<Rightarrow> NegInf | Fin q \<Rightarrow> Fin (- q) | x \<Rightarrow> x)
         else if hd s = CHR ''+'' then dec (tl s)
         else if take 2 s = ''0x'' \<or> take 2 s = ''0X'' then rad 16 (drop 2 s)
         else if take 2 s = ''0o'' \<or> take 2 s = ''0O'' then rad 8 (drop 2 s)
         else if take 2 s = ''0b'' \<or> take 2 s = ''0B'' then rad 2 (drop 2 s)
         else dec s)"

text \<open>
  \<open>Number(v)\<close> for JSON data. An array converts through its comma-joined text: the empty array is
  0, a one-element array is its element (except that \<open>true\<close> and \<open>false\<close> become the words), a
  longer one has a comma in its text and is \<open>NaN\<close>; an object is \<open>NaN\<close>, and so is an ISO
  timestamp.
\<close>

fun to_number :: "json \<Rightarrow> js_number" where
  "to_number JNull = Fin 0"
| "to_number (JBool b) = Fin (if b then 1 else 0)"
| "to_number (JNum n) = Fin n"
| "to_number (JStr s) = string_to_number s"
| "to_number (JTime t) = NaN"
| "to_number (JArr []) = Fin 0"
| "to_number (JArr [JBool b]) = NaN"
| "to_number (JArr [v]) = to_number v"
| "to_number (JArr (v # w # vs)) = NaN"
| "to_number (JObj kvs) = NaN"

text \<open>
  \<open>===\<close> between a value read from the context and a literal of the definition: primitives by
  value, arrays and objects by identity, and the two sides are never the same object.
\<close>

fun same_primitive :: "json \<Rightarrow> json \<Rightarrow> bool" where
  "same_primitive (JArr vs) w = False"
| "same_primitive (JObj kvs) w = False"
| "same_primitive v w = (v = w)"

definition strict_eq :: "json option \<Rightarrow> json option \<Rightarrow> bool" where
  "strict_eq x y =
     (case x of
        None \<Rightarrow> y = None
      | Some v \<Rightarrow> (case y of None \<Rightarrow> False | Some w \<Rightarrow> same_primitive v w))"

text \<open>Property access \<open>current[part]\<close> on an object or array; \<open>typeof\<close> is \<open>object\<close> for both.\<close>

definition array_index :: "string \<Rightarrow> nat option" where
  "array_index p =
     (if p \<noteq> [] \<and> list_all is_digit p \<and> (p = ''0'' \<or> hd p \<noteq> CHR ''0'') then Some (digits_val p) else None)"

fun js_prop :: "json \<Rightarrow> string \<Rightarrow> json option" where
  "js_prop (JObj kvs) p = map_of kvs p"
| "js_prop (JArr vs) p =
     (case array_index p of
        Some i \<Rightarrow> (if i < length vs then Some (vs ! i) else None)
      | None \<Rightarrow> (if p = ''length'' then Some (JNum (of_nat (length vs))) else None))"
| "js_prop v p = None"

fun walk_path :: "json option \<Rightarrow> string list \<Rightarrow> json option" where
  "walk_path current [] = current"
| "walk_path current (part # parts) =
     (case current of None \<Rightarrow> None | Some v \<Rightarrow> walk_path (js_prop v part) parts)"

definition js_truthy :: "json option \<Rightarrow> bool" where
  "js_truthy v =
     (case v of None \<Rightarrow> False | Some JNull \<Rightarrow> False | Some (JBool b) \<Rightarrow> b | Some (JNum n) \<Rightarrow> n \<noteq> 0
      | Some (JStr s) \<Rightarrow> s \<noteq> [] | _ \<Rightarrow> True)"

subsection \<open>Metadata\<close>

text \<open>
  Metadata is a \<open>Record<string, unknown>\<close>: a map from keys to JSON values. The dispatcher reads
  its own keys with a cast (\<open>as number\<close>, \<open>as string\<close>); the accessors below read a value of the
  type the program writes there and treat any other as missing.
\<close>

type_synonym metadata = "string \<rightharpoonup> json"

definition meta_num :: "metadata \<Rightarrow> string \<Rightarrow> rat option" where
  "meta_num m k = (case m k of Some (JNum n) \<Rightarrow> Some n | _ \<Rightarrow> None)"

definition meta_str :: "metadata \<Rightarrow> string \<Rightarrow> string option" where
  "meta_str m k = (case m k of Some (JStr s) \<Rightarrow> Some s | _ \<Rightarrow> None)"

definition meta_time :: "metadata \<Rightarrow> string \<Rightarrow> int option" where
  "meta_time m k = (case m k of Some (JTime t) \<Rightarrow> Some t | _ \<Rightarrow> None)"

definition meta_num0 :: "metadata \<Rightarrow> string \<Rightarrow> rat" where
  "meta_num0 m k = (case meta_num m k of Some n \<Rightarrow> n | None \<Rightarrow> 0)"

lemma walk_path_None [simp]: "walk_path None ps = None"
  by (cases ps) auto

lemma meta_upd_simps [simp]:
  "meta_num (m(k \<mapsto> v)) k' = (if k' = k then (case v of JNum n \<Rightarrow> Some n | _ \<Rightarrow> None) else meta_num m k')"
  "meta_str (m(k \<mapsto> v)) k' = (if k' = k then (case v of JStr n \<Rightarrow> Some n | _ \<Rightarrow> None) else meta_str m k')"
  "meta_time (m(k \<mapsto> v)) k' = (if k' = k then (case v of JTime n \<Rightarrow> Some n | _ \<Rightarrow> None) else meta_time m k')"
  by (auto simp: meta_num_def meta_str_def meta_time_def split: json.splits)

lemma meta_del_simps [simp]:
  "meta_num (m(k := None)) k' = (if k' = k then None else meta_num m k')"
  "meta_str (m(k := None)) k' = (if k' = k then None else meta_str m k')"
  "meta_time (m(k := None)) k' = (if k' = k then None else meta_time m k')"
  by (auto simp: meta_num_def meta_str_def meta_time_def)

lemma num_less_irrefl [simp]: "\<not> num_less x x"
  by (cases x) auto

lemma num_less_trans: "num_less x y \<Longrightarrow> num_less y z \<Longrightarrow> num_less x z"
  by (cases x; cases y; cases z) auto

lemma num_less_NaN [simp]: "\<not> num_less NaN x" "\<not> num_less x NaN" "\<not> num_le NaN x" "\<not> num_le x NaN"
  by (cases x; simp add: num_le_def)+

lemma strict_eq_None [simp]: "strict_eq None y \<longleftrightarrow> y = None" "strict_eq x None \<longleftrightarrow> x = None"
  by (auto simp: strict_eq_def split: option.splits)

lemma same_primitive_imp_eq: "same_primitive v w \<Longrightarrow> v = w"
  by (cases v) auto

lemma same_primitive_obj [simp]: "\<not> same_primitive v (JObj kvs)" "\<not> same_primitive v (JArr vs)"
  by (cases v; simp)+

end
