(* ===== verification/WorkflowDag.thy ===== *)
theory WorkflowDag
  imports JsValue
begin

section \<open>Workflow DAGs: schema, validation, initial state (schemas/workflow-dag.ts)\<close>

text \<open>
  The Zod objects of \<open>schemas/workflow-dag.ts\<close> as records and datatypes (an optional field is an
  option, ISO timestamps are milliseconds since the epoch, the map \<open>hops\<close> of a state is an
  insertion-ordered association list), then \<open>measureConditionComplexity\<close>,
  \<open>collectHopReferences\<close>, \<open>validateDAG\<close> with its Kahn and breadth-first loops, and
  \<open>initializeWorkflowState\<close>. An error string of \<open>validateDAG\<close> is a constructor that carries the
  values the string shows.
\<close>

subsection \<open>Schema\<close>

datatype cond_expr =
    CEq string "json option"
  | CNeq string "json option"
  | CGt string rat
  | CGte string rat
  | CLt string rat
  | CLte string rat
  | CIn string "json list"
  | CHasTag string
  | CHopStatus string string
  | CAnd "cond_expr list"
  | COr "cond_expr list"
  | CNot cond_expr
  | CTrue
  | CFalse

datatype join_type = JoinAll | JoinAny

datatype rejection_strategy = Origin | Predecessors

record hop =
  h_id :: string
  h_role :: string
  h_dependsOn :: "string list"
  h_joinType :: join_type
  h_autoAdvance :: bool
  h_condition :: "cond_expr option"
  h_description :: "string option"
  h_canReject :: bool
  h_rejectionStrategy :: "rejection_strategy option"
  h_timeout :: "string option"
  h_escalateTo :: "string option"

record workflow_definition =
  wd_name :: string
  wd_hops :: "hop list"

datatype hop_status = HPending | HReady | HDispatched | HComplete | HFailed | HSkipped

record hop_state =
  hs_status :: hop_status
  hs_startedAt :: "int option"
  hs_completedAt :: "int option"
  hs_agent :: "string option"
  hs_correlationId :: "string option"
  hs_result :: "(string \<times> json) list option"
  hs_rejectionCount :: "nat option"
  hs_escalated :: "bool option"

datatype workflow_status = WPending | WRunning | WComplete | WFailed

record workflow_state =
  ws_status :: workflow_status
  ws_hops :: "hop_state js_map"
  ws_startedAt :: "int option"
  ws_completedAt :: "int option"

record task_workflow =
  tw_definition :: workflow_definition
  tw_state :: workflow_state
  tw_templateName :: "string option"

text \<open>The object literal \<open>{ status }\<close>: every other field undefined.\<close>

definition hop_state_of :: "hop_status \<Rightarrow> hop_state" where
  "hop_state_of s =
     \<lparr>hs_status = s, hs_startedAt = None, hs_completedAt = None, hs_agent = None,
      hs_correlationId = None, hs_result = None, hs_rejectionCount = None, hs_escalated = None\<rparr>"

fun hop_status_str :: "hop_status \<Rightarrow> string" where
  "hop_status_str HPending = ''pending''"
| "hop_status_str HReady = ''ready''"
| "hop_status_str HDispatched = ''dispatched''"
| "hop_status_str HComplete = ''complete''"
| "hop_status_str HFailed = ''failed''"
| "hop_status_str HSkipped = ''skipped''"

subsection \<open>Condition complexity and references\<close>

definition MAX_CONDITION_DEPTH :: nat where "MAX_CONDITION_DEPTH = 5"

definition MAX_CONDITION_NODES :: nat where "MAX_CONDITION_NODES = 50"

fun measureConditionComplexity :: "cond_expr \<Rightarrow> nat \<Rightarrow> nat \<times> nat"
and measure_children :: "cond_expr list \<Rightarrow> nat \<Rightarrow> nat \<Rightarrow> nat \<Rightarrow> nat \<times> nat" where
  "measureConditionComplexity (CAnd cs) depth = measure_children cs depth depth 1"
| "measureConditionComplexity (COr cs) depth = measure_children cs depth depth 1"
| "measureConditionComplexity (CNot c) depth =
     (let (maxDepth, totalNodes) = measureConditionComplexity c (depth + 1)
      in (maxDepth, 1 + totalNodes))"
| "measureConditionComplexity _ depth = (depth, 1)"
| "measure_children [] depth maxDepth totalNodes = (maxDepth, totalNodes)"
| "measure_children (child # cs) depth maxDepth totalNodes =
     (let (d, n) = measureConditionComplexity child (depth + 1)
      in measure_children cs depth (if d > maxDepth then d else maxDepth) (totalNodes + n))"

text \<open>The regular expression \<open>/^hops\.([^.]+)/\<close>: the captured hop id.\<close>

definition hops_field_ref :: "string \<Rightarrow> string option" where
  "hops_field_ref s =
     (if str_prefix ''hops.'' s then
        (let r = takeWhile (\<lambda>c. c \<noteq> CHR ''.'') (drop 5 s) in if r = [] then None else Some r)
      else None)"

definition field_refs :: "string \<Rightarrow> string list" where
  "field_refs f = (case hops_field_ref f of None \<Rightarrow> [] | Some h \<Rightarrow> [h])"

fun collectHopReferences :: "cond_expr \<Rightarrow> string list" where
  "collectHopReferences (CHopStatus h s) = [h]"
| "collectHopReferences (CAnd cs) = concat (map collectHopReferences cs)"
| "collectHopReferences (COr cs) = concat (map collectHopReferences cs)"
| "collectHopReferences (CNot c) = collectHopReferences c"
| "collectHopReferences (CEq f v) = field_refs f"
| "collectHopReferences (CNeq f v) = field_refs f"
| "collectHopReferences (CGt f v) = field_refs f"
| "collectHopReferences (CGte f v) = field_refs f"
| "collectHopReferences (CLt f v) = field_refs f"
| "collectHopReferences (CLte f v) = field_refs f"
| "collectHopReferences (CIn f v) = field_refs f"
| "collectHopReferences (CHasTag t) = []"
| "collectHopReferences CTrue = []"
| "collectHopReferences CFalse = []"

subsection \<open>validateDAG\<close>

datatype dag_error =
    DuplicateHopId string
  | MissingDependency string string
  | NoRootHops
  | CycleDetected "string list"
  | UnreachableHops "string list"
  | InvalidTimeout string string
  | EmptyEscalateTo string
  | ConditionTooDeep string nat
  | ConditionTooLarge string nat
  | MissingHopReference string string

text \<open>The regular expression \<open>/^\d+[mhd]$/\<close>.\<close>

definition timeout_regex :: "string \<Rightarrow> bool" where
  "timeout_regex s =
     (2 \<le> length s \<and> list_all is_digit (butlast s) \<and> last s \<in> {CHR ''m'', CHR ''h'', CHR ''d''})"

fun check_duplicates :: "string list \<Rightarrow> hop list \<Rightarrow> dag_error list" where
  "check_duplicates seen [] = []"
| "check_duplicates seen (h # hs) =
     (if h_id h \<in> set seen then [DuplicateHopId (h_id h)] else [])
     @ check_duplicates (h_id h # seen) hs"

definition check_dependencies :: "workflow_definition \<Rightarrow> dag_error list" where
  "check_dependencies defn =
     concat (map (\<lambda>h. map (MissingDependency (h_id h))
                        (filter (\<lambda>d. d \<notin> set (map h_id (wd_hops defn))) (h_dependsOn h)))
                 (wd_hops defn))"

definition root_hops :: "workflow_definition \<Rightarrow> hop list" where
  "root_hops defn = filter (\<lambda>h. length (h_dependsOn h) = 0) (wd_hops defn)"

text \<open>\<open>map.get(k) ?? d\<close>\<close>

definition js_get_or :: "'v js_map \<Rightarrow> string \<Rightarrow> 'v \<Rightarrow> 'v" where
  "js_get_or m k d = (case map_of m k of None \<Rightarrow> d | Some v \<Rightarrow> v)"

definition init_in_degree :: "hop list \<Rightarrow> int js_map" where
  "init_in_degree hops = foldl (\<lambda>m h. AList.update (h_id h) 0 m) [] hops"

definition init_adjacency :: "hop list \<Rightarrow> string list js_map" where
  "init_adjacency hops = foldl (\<lambda>m h. AList.update (h_id h) [] m) [] hops"

fun add_edges :: "string \<Rightarrow> string list \<Rightarrow> int js_map \<times> string list js_map \<Rightarrow> int js_map \<times> string list js_map" where
  "add_edges hid [] (inDegree, adjacency) = (inDegree, adjacency)"
| "add_edges hid (dep # deps) (inDegree, adjacency) =
     (case map_of adjacency dep of
        None \<Rightarrow> add_edges hid deps (inDegree, adjacency)
      | Some ns \<Rightarrow>
          add_edges hid deps
            (AList.update hid (js_get_or inDegree hid 0 + 1) inDegree,
             AList.update dep (ns @ [hid]) adjacency))"

definition build_graph :: "hop list \<Rightarrow> int js_map \<times> string list js_map" where
  "build_graph hops =
     foldl (\<lambda>g h. add_edges (h_id h) (h_dependsOn h) g) (init_in_degree hops, init_adjacency hops) hops"

fun relax :: "string list \<Rightarrow> int js_map \<Rightarrow> string list \<Rightarrow> int js_map \<times> string list" where
  "relax [] inDegree queue = (inDegree, queue)"
| "relax (neighbor # ns) inDegree queue =
     (let newDegree = js_get_or inDegree neighbor 1 - 1
      in relax ns (AList.update neighbor newDegree inDegree)
           (if newDegree = 0 then queue @ [neighbor] else queue))"

text \<open>What bounds the loop: the degrees still to be counted down, twice, and the queue.\<close>

definition degree_weight :: "string list js_map \<Rightarrow> int js_map \<Rightarrow> nat" where
  "degree_weight adjacency inDegree =
     (\<Sum>k \<in> set (concat (map snd adjacency)). nat (js_get_or inDegree k 1))"

lemma relax_weight:
  assumes "finite S" "set ns \<subseteq> S"
  shows "2 * (\<Sum>k\<in>S. nat (js_get_or (fst (relax ns deg q)) k 1)) + length (snd (relax ns deg q))
         \<le> 2 * (\<Sum>k\<in>S. nat (js_get_or deg k 1)) + length q"
  using assms(2)
proof (induction ns deg q rule: relax.induct)
  case (1 deg q)
  then show ?case by simp
next
  case (2 n ns deg q)
  let ?nd = "js_get_or deg n 1 - 1"
  let ?deg = "AList.update n ?nd deg"
  let ?q = "if ?nd = 0 then q @ [n] else q"
  have get: "js_get_or ?deg k 1 = (if k = n then ?nd else js_get_or deg k 1)" for k
    by (simp add: js_get_or_def)
  have "n \<in> S" using 2 by simp
  then have split: "(\<Sum>k\<in>S. nat (f k)) = nat (f n) + (\<Sum>k\<in>S - {n}. nat (f k))" for f :: "string \<Rightarrow> int"
    using assms(1) by (simp add: sum.remove)
  have "(\<Sum>k\<in>S - {n}. nat (js_get_or ?deg k 1)) = (\<Sum>k\<in>S - {n}. nat (js_get_or deg k 1))"
    by (rule sum.cong) (auto simp: get)
  then have "2 * (\<Sum>k\<in>S. nat (js_get_or ?deg k 1)) + length ?q
             \<le> 2 * (\<Sum>k\<in>S. nat (js_get_or deg k 1)) + length q"
    unfolding split by (auto simp: get)
  moreover have "2 * (\<Sum>k\<in>S. nat (js_get_or (fst (relax ns ?deg ?q)) k 1)) + length (snd (relax ns ?deg ?q))
      \<le> 2 * (\<Sum>k\<in>S. nat (js_get_or ?deg k 1)) + length ?q"
    using 2 by (simp add: Let_def)
  ultimately show ?case by (simp add: Let_def)
qed

lemma neighbors_subset: "set (js_get_or adjacency k []) \<subseteq> set (concat (map snd adjacency))"
proof (cases "map_of adjacency k")
  case None
  then show ?thesis by (simp add: js_get_or_def)
next
  case (Some ns)
  then have "(k, ns) \<in> set adjacency" by (rule map_of_SomeD)
  with Some show ?thesis by (force simp: js_get_or_def)
qed

function kahn_loop :: "string list js_map \<Rightarrow> int js_map \<Rightarrow> string list \<Rightarrow> nat \<Rightarrow> int js_map \<times> nat" where
  "kahn_loop adjacency inDegree [] processed = (inDegree, processed)"
| "kahn_loop adjacency inDegree (current # queue) processed =
     (let (inDegree', queue') = relax (js_get_or adjacency current []) inDegree queue
      in kahn_loop adjacency inDegree' queue' (processed + 1))"
  by pat_completeness auto
termination
proof (relation "measure (\<lambda>(adj, deg, q, p). 2 * degree_weight adj deg + length q)")
  fix adj :: "string list js_map" and deg current queue and p :: nat and x deg' queue'
  assume "x = relax (js_get_or adj current []) deg queue" "(deg', queue') = x"
  then have r: "fst (relax (js_get_or adj current []) deg queue) = deg'"
    "snd (relax (js_get_or adj current []) deg queue) = queue'" by (metis fst_conv snd_conv)+
  show "((adj, deg', queue', p + 1), adj, deg, current # queue, p)
        \<in> measure (\<lambda>(adj, deg, q, p). 2 * degree_weight adj deg + length q)"
    using relax_weight [OF finite_set neighbors_subset, of adj current deg queue] r
    by (simp add: degree_weight_def)
qed simp

text \<open>Breadth-first search from the roots; every step visits a hop or shortens the queue.\<close>

function bfs_loop :: "string list js_map \<Rightarrow> string list \<Rightarrow> string list \<Rightarrow> string list" where
  "bfs_loop adjacency [] visited = visited"
| "bfs_loop adjacency (current # queue) visited =
     (if current \<in> set visited then bfs_loop adjacency queue visited
      else bfs_loop adjacency
             (queue @ filter (\<lambda>n. n \<notin> set (visited @ [current])) (js_get_or adjacency current []))
             (visited @ [current]))"
  by pat_completeness auto
termination
proof (relation "measures [\<lambda>(adj, q, v). card ((set (concat (map snd adj)) \<union> set q) - set v), \<lambda>(adj, q, v). length q]")
  fix adj :: "string list js_map" and current queue visited
  let ?N = "set (concat (map snd adj))"
  show "current \<in> set visited \<Longrightarrow> ((adj, queue, visited), adj, current # queue, visited)
    \<in> measures [\<lambda>(adj, q, v). card ((set (concat (map snd adj)) \<union> set q) - set v), \<lambda>(adj, q, v). length q]"
    by (simp add: insert_absorb)
  assume new: "current \<notin> set visited"
  let ?q = "queue @ filter (\<lambda>n. n \<notin> set (visited @ [current])) (js_get_or adj current [])"
  have "(?N \<union> set ?q) - set (visited @ [current]) \<subset> (?N \<union> set (current # queue)) - set visited"
    using new neighbors_subset [of adj current] by auto
  then have "card ((?N \<union> set ?q) - set (visited @ [current])) < card ((?N \<union> set (current # queue)) - set visited)"
    by (intro psubset_card_mono) auto
  then show "((adj, ?q, visited @ [current]), adj, current # queue, visited)
    \<in> measures [\<lambda>(adj, q, v). card ((set (concat (map snd adj)) \<union> set q) - set v), \<lambda>(adj, q, v). length q]"
    by simp
qed simp

definition check_cycles :: "workflow_definition \<Rightarrow> dag_error list" where
  "check_cycles defn =
     (let (inDegree, adjacency) = build_graph (wd_hops defn);
          queue = map fst (filter (\<lambda>(id, deg). deg = 0) inDegree);
          (inDegree', processed) = kahn_loop adjacency inDegree queue 0
      in if processed \<noteq> length (wd_hops defn)
         then [CycleDetected (map fst (filter (\<lambda>(id, deg). deg > 0) inDegree'))] else [])"

definition check_reachable :: "workflow_definition \<Rightarrow> dag_error list" where
  "check_reachable defn =
     (if length (root_hops defn) > 0 then
        (let visited = bfs_loop (snd (build_graph (wd_hops defn))) (map h_id (root_hops defn)) [];
             unreachable = map h_id (filter (\<lambda>h. h_id h \<notin> set visited) (wd_hops defn))
         in if length unreachable > 0 then [UnreachableHops unreachable] else [])
      else [])"

definition check_timeouts :: "workflow_definition \<Rightarrow> dag_error list" where
  "check_timeouts defn =
     concat (map (\<lambda>h. case h_timeout h of
                        None \<Rightarrow> []
                      | Some t \<Rightarrow> (if timeout_regex t then [] else [InvalidTimeout (h_id h) t]))
                 (wd_hops defn))"

definition check_escalation :: "workflow_definition \<Rightarrow> dag_error list" where
  "check_escalation defn =
     concat (map (\<lambda>h. case h_escalateTo h of
                        None \<Rightarrow> []
                      | Some r \<Rightarrow> (if length (js_trim r) = 0 then [EmptyEscalateTo (h_id h)] else []))
                 (wd_hops defn))"

definition check_complexity :: "workflow_definition \<Rightarrow> dag_error list" where
  "check_complexity defn =
     concat (map (\<lambda>h. case h_condition h of
                        None \<Rightarrow> []
                      | Some c \<Rightarrow>
                          (let (maxDepth, totalNodes) = measureConditionComplexity c 0
                           in (if maxDepth > MAX_CONDITION_DEPTH then [ConditionTooDeep (h_id h) maxDepth] else [])
                              @ (if totalNodes > MAX_CONDITION_NODES then [ConditionTooLarge (h_id h) totalNodes] else [])))
                 (wd_hops defn))"

definition check_references :: "workflow_definition \<Rightarrow> dag_error list" where
  "check_references defn =
     concat (map (\<lambda>h. case h_condition h of
                        None \<Rightarrow> []
                      | Some c \<Rightarrow>
                          map (MissingHopReference (h_id h))
                            (filter (\<lambda>r. r \<notin> set (map h_id (wd_hops defn))) (collectHopReferences c)))
                 (wd_hops defn))"

definition validateDAG :: "workflow_definition \<Rightarrow> dag_error list" where
  "validateDAG defn =
     check_duplicates [] (wd_hops defn)
     @ check_dependencies defn
     @ (if length (root_hops defn) = 0 then [NoRootHops] else [])
     @ check_cycles defn
     @ check_reachable defn
     @ check_timeouts defn
     @ check_escalation defn
     @ check_complexity defn
     @ check_references defn"

subsection \<open>initializeWorkflowState\<close>

definition initializeWorkflowState :: "workflow_definition \<Rightarrow> workflow_state" where
  "initializeWorkflowState defn =
     \<lparr>ws_status = WPending,
      ws_hops = foldl (\<lambda>m h. AList.update (h_id h)
                         (hop_state_of (if length (h_dependsOn h) = 0 then HReady else HPending)) m)
                  [] (wd_hops defn),
      ws_startedAt = None, ws_completedAt = None\<rparr>"

end
