(* ===== verification/DagCondition.thy ===== *)
theory DagCondition
  imports WorkflowDag
begin

section \<open>Condition evaluation (dispatch/dag-condition-evaluator.ts)\<close>

text \<open>
  \<open>getField\<close>, \<open>buildConditionContext\<close> and \<open>evaluateCondition\<close> with one equation per entry of
  the operator table. Shown here: a condition reads no hop but the ones
  \<open>collectHopReferences\<close> lists, which is what makes the reference check of \<open>validateDAG\<close>
  meaningful, and the boolean laws of the logical operators.
\<close>

record cond_task =
  ct_status :: string
  ct_tags :: "string list"
  ct_priority :: string
  ct_routing :: "(string \<times> json) list"

record condition_context =
  cc_context :: json
  cc_hopStates :: "hop_state js_map"
  cc_task :: cond_task

definition getField :: "json \<Rightarrow> string \<Rightarrow> json option" where
  "getField obj path = walk_path (Some obj) (split_on CHR ''.'' path)"

definition task_meta_json :: "cond_task \<Rightarrow> json" where
  "task_meta_json t =
     JObj [(''status'', JStr (ct_status t)), (''tags'', JArr (map JStr (ct_tags t))),
           (''priority'', JStr (ct_priority t)), (''routing'', JObj (ct_routing t))]"

definition hop_result_json :: "hop_state \<Rightarrow> json" where
  "hop_result_json s = JObj [(''result'', JObj (case hs_result s of None \<Rightarrow> [] | Some r \<Rightarrow> r))]"

definition buildConditionContext :: "workflow_state \<Rightarrow> cond_task \<Rightarrow> json" where
  "buildConditionContext state taskMeta =
     JObj [(''hops'', JObj (map (\<lambda>(hopId, s). (hopId, hop_result_json s)) (ws_hops state))),
           (''task'', task_meta_json taskMeta)]"

definition compare_field :: "(js_number \<Rightarrow> js_number \<Rightarrow> bool) \<Rightarrow> json option \<Rightarrow> rat \<Rightarrow> bool" where
  "compare_field rel fieldValue v =
     (case fieldValue of None \<Rightarrow> False | Some f \<Rightarrow> rel (to_number f) (Fin v))"

fun evaluateCondition :: "cond_expr \<Rightarrow> condition_context \<Rightarrow> bool" where
  "evaluateCondition (CEq field v) ctx = strict_eq (getField (cc_context ctx) field) v"
| "evaluateCondition (CNeq field v) ctx = (\<not> strict_eq (getField (cc_context ctx) field) v)"
| "evaluateCondition (CGt field v) ctx =
     compare_field (\<lambda>a b. num_less b a) (getField (cc_context ctx) field) v"
| "evaluateCondition (CGte field v) ctx =
     compare_field (\<lambda>a b. num_le b a) (getField (cc_context ctx) field) v"
| "evaluateCondition (CLt field v) ctx = compare_field num_less (getField (cc_context ctx) field) v"
| "evaluateCondition (CLte field v) ctx = compare_field num_le (getField (cc_context ctx) field) v"
| "evaluateCondition (CIn field vs) ctx =
     (case getField (cc_context ctx) field of
        None \<Rightarrow> False
      | Some f \<Rightarrow> list_ex (\<lambda>w. same_primitive f w) vs)"
| "evaluateCondition (CHasTag v) ctx = (v \<in> set (ct_tags (cc_task ctx)))"
| "evaluateCondition (CHopStatus hop status) ctx =
     (case map_of (cc_hopStates ctx) hop of
        None \<Rightarrow> False
      | Some s \<Rightarrow> hop_status_str (hs_status s) = status)"
| "evaluateCondition (CAnd cs) ctx = list_all (\<lambda>c. evaluateCondition c ctx) cs"
| "evaluateCondition (COr cs) ctx = list_ex (\<lambda>c. evaluateCondition c ctx) cs"
| "evaluateCondition (CNot c) ctx = (\<not> evaluateCondition c ctx)"
| "evaluateCondition CTrue ctx = True"
| "evaluateCondition CFalse ctx = False"

text \<open>The context a caller builds for a state: \<open>{ context, hopStates, task }\<close>.\<close>

definition state_context :: "workflow_state \<Rightarrow> cond_task \<Rightarrow> condition_context" where
  "state_context state t =
     \<lparr>cc_context = buildConditionContext state t, cc_hopStates = ws_hops state, cc_task = t\<rparr>"

subsection \<open>What a field path can see\<close>

lemma map_of_hops_json:
  "map_of (map (\<lambda>(hopId, s). (hopId, hop_result_json s)) hops) k = map_option hop_result_json (map_of hops k)"
  by (induction hops) auto

text \<open>The value of a field, up to the values no operator tells apart: an object that is not a
  part of any hop result behaves the same in every comparison.\<close>

definition opaque :: "json option \<Rightarrow> bool" where
  "opaque v \<longleftrightarrow> (\<exists>kvs. v = Some (JObj kvs))"

lemma opaque_ops:
  assumes "opaque v"
  shows "strict_eq v w = False" "compare_field num_less v n = False" "compare_field num_le v n = False"
    "compare_field (\<lambda>a b. num_less b a) v n = False" "compare_field (\<lambda>a b. num_le b a) v n = False"
    "(case v of None \<Rightarrow> False | Some f \<Rightarrow> list_ex (\<lambda>w. same_primitive f w) ws) = False"
  using assms by (auto simp: opaque_def compare_field_def strict_eq_def list_ex_iff split: option.splits)

lemma getField_cases:
  assumes "\<And>h. hops_field_ref f = Some h \<Longrightarrow> map_of (ws_hops s) h = map_of (ws_hops s') h"
    and "map_of (ws_hops s) [] = None" "map_of (ws_hops s') [] = None"
  shows "getField (buildConditionContext s t) f = getField (buildConditionContext s' t) f \<or>
    (opaque (getField (buildConditionContext s t) f) \<and> opaque (getField (buildConditionContext s' t) f))"
proof -
  obtain p ps where parts: "split_on CHR ''.'' f = p # ps"
    by (cases "split_on CHR ''.'' f") auto
  show ?thesis
  proof (cases "p = ''hops''")
    case False
    then show ?thesis by (auto simp: getField_def buildConditionContext_def parts)
  next
    case True
    show ?thesis
    proof (cases ps)
      case Nil
      then show ?thesis
        by (simp add: getField_def buildConditionContext_def parts True opaque_def)
    next
      case (Cons q qs)
      have "f = join_with [CHR ''.''] (p # q # qs)"
        using parts Cons join_split_on [of "CHR ''.''" f] by simp
      then have f: "f = ''hops.'' @ join_with [CHR ''.''] (q # qs)" using True by simp
      have qdot: "CHR ''.'' \<notin> set q" using split_on_pieces [of q "CHR ''.''" f] parts Cons by simp
      have tw: "takeWhile (\<lambda>c. c \<noteq> CHR ''.'') (join_with [CHR ''.''] (q # qs)) = q"
        using qdot by (cases qs) (auto simp: takeWhile_append takeWhile_eq_all_conv)
      have "hops_field_ref f = (if q = [] then None else Some q)"
        unfolding hops_field_ref_def f by (simp add: tw del: append_Cons)
      then have "map_of (ws_hops s) q = map_of (ws_hops s') q"
        using assms by (cases "q = []") auto
      then show ?thesis
        by (simp add: getField_def buildConditionContext_def parts True Cons map_of_hops_json)
    qed
  qed
qed

lemma field_op_frame:
  assumes "\<And>h. hops_field_ref f = Some h \<Longrightarrow> map_of (ws_hops s) h = map_of (ws_hops s') h"
    and "map_of (ws_hops s) [] = None" "map_of (ws_hops s') [] = None"
    and "\<And>v w. opaque v \<Longrightarrow> opaque w \<Longrightarrow> P v = P w"
  shows "P (getField (buildConditionContext s t) f) = P (getField (buildConditionContext s' t) f)"
  using getField_cases [OF assms(1-3)] assms(4) by metis

text \<open>
  Fact: a condition reads only the hops it refers to. Two states that agree on every hop in
  \<open>collectHopReferences\<close> (and have no hop with an empty id, which the schema forbids) give the
  condition the same truth value, whatever the other hops did.
\<close>

theorem evaluateCondition_frame:
  assumes "\<And>h. h \<in> set (collectHopReferences c) \<Longrightarrow> map_of (ws_hops s) h = map_of (ws_hops s') h"
    and "map_of (ws_hops s) [] = None" "map_of (ws_hops s') [] = None"
  shows "evaluateCondition c (state_context s t) = evaluateCondition c (state_context s' t)"
  using assms(1)
proof (induction c)
  case (CAnd cs)
  then have "\<forall>c \<in> set cs. evaluateCondition c (state_context s t) = evaluateCondition c (state_context s' t)"
    by auto
  then show ?case by (simp add: list_all_iff)
next
  case (COr cs)
  then have "\<forall>c \<in> set cs. evaluateCondition c (state_context s t) = evaluateCondition c (state_context s' t)"
    by auto
  then show ?case by (simp add: list_ex_iff)
next
  case (CHopStatus h st)
  then show ?case by (simp add: state_context_def)
next
  case (CEq f v)
  show ?case
    using field_op_frame [of f s s' "\<lambda>x. strict_eq x v" t] CEq assms(2,3)
    by (simp add: state_context_def field_refs_def opaque_ops)
next
  case (CNeq f v)
  show ?case
    using field_op_frame [of f s s' "\<lambda>x. \<not> strict_eq x v" t] CNeq assms(2,3)
    by (simp add: state_context_def field_refs_def opaque_ops)
next
  case (CGt f v)
  show ?case
    using field_op_frame [of f s s' "\<lambda>x. compare_field (\<lambda>a b. num_less b a) x v" t] CGt assms(2,3)
    by (simp add: state_context_def field_refs_def opaque_ops)
next
  case (CGte f v)
  show ?case
    using field_op_frame [of f s s' "\<lambda>x. compare_field (\<lambda>a b. num_le b a) x v" t] CGte assms(2,3)
    by (simp add: state_context_def field_refs_def opaque_ops)
next
  case (CLt f v)
  show ?case
    using field_op_frame [of f s s' "\<lambda>x. compare_field num_less x v" t] CLt assms(2,3)
    by (simp add: state_context_def field_refs_def opaque_ops)
next
  case (CLte f v)
  show ?case
    using field_op_frame [of f s s' "\<lambda>x. compare_field num_le x v" t] CLte assms(2,3)
    by (simp add: state_context_def field_refs_def opaque_ops)
next
  case (CIn f vs)
  show ?case
    using field_op_frame [of f s s' "\<lambda>x. case x of None \<Rightarrow> False | Some y \<Rightarrow> list_ex (\<lambda>w. same_primitive y w) vs" t] CIn assms(2,3)
    by (simp add: state_context_def field_refs_def opaque_ops)
qed (simp_all add: state_context_def)

text \<open>The example of the schema's documentation: \<open>test\<close> runs when the review approved, whatever
  the unrelated hop \<open>lint\<close> is doing.\<close>

theorem evaluateCondition_frame_witness:
  "evaluateCondition (CAnd [CEq ''hops.review.result.approved'' (Some (JBool True)), CHopStatus ''review'' ''complete''])
     (state_context
        \<lparr>ws_status = WRunning,
         ws_hops = [(''review'', (hop_state_of HComplete)\<lparr>hs_result := Some [(''approved'', JBool True)]\<rparr>),
                    (''lint'', hop_state_of HPending)], ws_startedAt = None, ws_completedAt = None\<rparr>
        \<lparr>ct_status = ''in-progress'', ct_tags = [], ct_priority = ''normal'', ct_routing = []\<rparr>) =
   evaluateCondition (CAnd [CEq ''hops.review.result.approved'' (Some (JBool True)), CHopStatus ''review'' ''complete''])
     (state_context
        \<lparr>ws_status = WRunning,
         ws_hops = [(''lint'', hop_state_of HFailed),
                    (''review'', (hop_state_of HComplete)\<lparr>hs_result := Some [(''approved'', JBool True)]\<rparr>)],
         ws_startedAt = None, ws_completedAt = None\<rparr>
        \<lparr>ct_status = ''in-progress'', ct_tags = [], ct_priority = ''normal'', ct_routing = []\<rparr>)"
  by (rule evaluateCondition_frame) (auto simp: field_refs_def hops_field_ref_def)

end
