(* ===== verification/DagEvaluator.thy ===== *)
theory DagEvaluator
  imports DagCondition
begin

section \<open>The DAG evaluator (dispatch/dag-evaluator.ts)\<close>

text \<open>
  \<open>evaluateDAG\<close> and its helpers. The working copy the helpers mutate is the pair of the hop map
  and the list of transitions; each helper returns the updated pair. Reading \<open>dependsOn\<close> or
  \<open>status\<close> of an undefined hop is a \<open>TypeError\<close>, the error of the sum type. The timestamp
  \<open>new Date()\<close> of the call is a parameter.
\<close>

datatype hop_outcome = OComplete | OFailed | OSkipped | ORejected

record hop_event =
  he_hopId :: string
  he_outcome :: hop_outcome
  he_result :: "(string \<times> json) list option"

datatype transition_reason =
    RCascade | RCondition | RCircuitBreaker | ROriginCascade | RPredecessorCascade

record hop_transition =
  tr_hopId :: string
  tr_from :: "hop_status option"
  tr_to :: hop_status
  tr_reason :: "transition_reason option"

record dag_result =
  dr_state :: workflow_state
  dr_changes :: "hop_transition list"
  dr_readyHops :: "string list"
  dr_dagStatus :: "workflow_status option"
  dr_taskStatus :: "string option"

datatype dag_eval_error = TypeErrorHop string

definition DEFAULT_MAX_REJECTIONS :: nat where "DEFAULT_MAX_REJECTIONS = 3"

type_synonym hop_map = "hop_state js_map"
type_synonym eval_state = "hop_map \<times> hop_transition list"

text \<open>\<open>state.hops[id]?.status\<close>\<close>

definition status_of :: "hop_map \<Rightarrow> string \<Rightarrow> hop_status option" where
  "status_of hops hopId = map_option hs_status (map_of hops hopId)"

definition find_hop :: "workflow_definition \<Rightarrow> string \<Rightarrow> hop option" where
  "find_hop defn hopId = List.find (\<lambda>h. h_id h = hopId) (wd_hops defn)"

definition transition :: "string \<Rightarrow> hop_status option \<Rightarrow> hop_status \<Rightarrow> transition_reason option \<Rightarrow> hop_transition" where
  "transition hopId from to reason = \<lparr>tr_hopId = hopId, tr_from = from, tr_to = to, tr_reason = reason\<rparr>"

text \<open>\<open>{ ...state.hops[id]!, status: "skipped", completedAt: timestamp }\<close>\<close>

definition skip_hop :: "int \<Rightarrow> hop_state \<Rightarrow> hop_state" where
  "skip_hop timestamp s = s\<lparr>hs_status := HSkipped, hs_completedAt := Some timestamp\<rparr>"

definition ensure_key :: "string \<Rightarrow> string list js_map \<Rightarrow> string list js_map" where
  "ensure_key k m = (if map_of m k = None then AList.update k [] m else m)"

definition buildDownstreamIndex :: "workflow_definition \<Rightarrow> string list js_map" where
  "buildDownstreamIndex defn =
     foldl (\<lambda>index h.
              foldl (\<lambda>index dep.
                       (let index' = ensure_key dep index
                        in AList.update dep (js_get_or index' dep [] @ [h_id h]) index'))
                    (ensure_key (h_id h) index) (h_dependsOn h))
           [] (wd_hops defn)"

definition all_dead :: "hop_map \<Rightarrow> hop \<Rightarrow> bool" where
  "all_dead hops h =
     list_all (\<lambda>d. status_of hops d = Some HSkipped \<or> status_of hops d = Some HFailed) (h_dependsOn h)"

definition pending_count :: "hop_map \<Rightarrow> nat" where
  "pending_count hops = length (filter (\<lambda>(k, s). hs_status s = HPending) hops)"

text \<open>
  The loop of \<open>cascadeSkips\<close> over the downstream hops; the recursive call for a hop that was just
  skipped runs the loop over that hop's own downstream list, then the loop goes on.
\<close>

function cascade_each ::
  "workflow_definition \<Rightarrow> string list js_map \<Rightarrow> int \<Rightarrow> string list \<Rightarrow> hop_map \<Rightarrow> hop_transition list
    \<Rightarrow> dag_eval_error + eval_state" where
  "cascade_each defn idx ts [] hops changes = Inr (hops, changes)"
| "cascade_each defn idx ts (hopId # rest) hops changes =
     (case map_of hops hopId of
        None \<Rightarrow> cascade_each defn idx ts rest hops changes
      | Some s \<Rightarrow>
          if hs_status s \<noteq> HPending then cascade_each defn idx ts rest hops changes
          else
            (case find_hop defn hopId of
               None \<Rightarrow> Inl (TypeErrorHop hopId)
             | Some h \<Rightarrow>
                 if all_dead hops h then
                   (case cascade_each defn idx ts (js_get_or idx hopId [])
                           (AList.update hopId (skip_hop ts s) hops)
                           (changes @ [transition hopId (Some HPending) HSkipped (Some RCascade)]) of
                      Inl e \<Rightarrow> Inl e
                    | Inr (hops', changes') \<Rightarrow> cascade_each defn idx ts rest hops' changes')
                 else cascade_each defn idx ts rest hops changes))"
  by pat_completeness auto

lemma pending_count_skip:
  "map_of hops k = Some s \<Longrightarrow> hs_status s = HPending \<Longrightarrow>
    pending_count (AList.update k (skip_hop ts s) hops) < pending_count hops"
  by (induction hops) (auto simp: pending_count_def skip_hop_def split: if_splits)

lemma cascade_pending:
  "cascade_each_dom (defn, idx, ts, ids, hops, changes) \<Longrightarrow>
    cascade_each defn idx ts ids hops changes = Inr (hops', changes') \<Longrightarrow> pending_count hops' \<le> pending_count hops"
proof (induction defn idx ts ids hops changes arbitrary: hops' changes' rule: cascade_each.pinduct)
  case (1 defn idx ts hops changes)
  then show ?case by (simp add: cascade_each.psimps)
next
  case (2 defn idx ts hopId rest hops changes)
  show ?case
  proof (cases "map_of hops hopId")
    case None
    with 2 show ?thesis by (simp add: cascade_each.psimps)
  next
    case (Some s)
    show ?thesis
    proof (cases "hs_status s = HPending")
      case False
      with 2 Some show ?thesis by (simp add: cascade_each.psimps)
    next
      case True
      show ?thesis
      proof (cases "find_hop defn hopId")
        case None
        with 2 Some True show ?thesis by (simp add: cascade_each.psimps)
      next
        case h: (Some h)
        show ?thesis
        proof (cases "all_dead hops h")
          case False
          with 2 Some True h show ?thesis by (simp add: cascade_each.psimps)
        next
          case dead: True
          let ?hops = "AList.update hopId (skip_hop ts s) hops"
          let ?ch = "changes @ [transition hopId (Some HPending) HSkipped (Some RCascade)]"
          obtain h1 c1 where inner: "cascade_each defn idx ts (js_get_or idx hopId []) ?hops ?ch = Inr (h1, c1)"
            and outer: "cascade_each defn idx ts rest h1 c1 = Inr (hops', changes')"
            using 2(1,7) Some True h dead
            by (auto simp: cascade_each.psimps split: sum.splits prod.splits)
          have "pending_count h1 \<le> pending_count ?hops"
            using 2(4) [OF Some _ h dead inner] True by simp
          moreover have "pending_count hops' \<le> pending_count h1"
            using 2(5) [OF Some _ h dead inner refl outer] True by simp
          ultimately show ?thesis using pending_count_skip [OF Some True, of ts] by simp
        qed
      qed
    qed
  qed
qed

termination cascade_each
proof (relation "measures [\<lambda>(defn, idx, ts, ids, hops, ch). pending_count hops, \<lambda>(defn, idx, ts, ids, hops, ch). length ids]")
qed (auto simp: pending_count_skip dest!: cascade_pending intro: le_less_trans)

definition cascadeSkips ::
  "workflow_definition \<Rightarrow> string list js_map \<Rightarrow> int \<Rightarrow> string \<Rightarrow> eval_state \<Rightarrow> dag_eval_error + eval_state" where
  "cascadeSkips defn idx ts startHopId st =
     cascade_each defn idx ts (js_get_or idx startHopId []) (fst st) (snd st)"

definition is_terminal_status :: "hop_status option \<Rightarrow> bool" where
  "is_terminal_status s = (s = Some HComplete \<or> s = Some HSkipped \<or> s = Some HFailed)"

definition evaluate_hop_condition :: "json \<Rightarrow> cond_task \<Rightarrow> int \<Rightarrow> eval_state \<Rightarrow> hop \<Rightarrow> eval_state" where
  "evaluate_hop_condition condContext t ts st h =
     (let (hops, changes) = st in
      case map_of hops (h_id h) of
        None \<Rightarrow> st
      | Some s \<Rightarrow>
          if hs_status s \<noteq> HPending then st
          else (case h_condition h of
                  None \<Rightarrow> st
                | Some c \<Rightarrow>
                    if \<not> list_all (\<lambda>d. is_terminal_status (status_of hops d)) (h_dependsOn h) then st
                    else if evaluateCondition c \<lparr>cc_context = condContext, cc_hopStates = hops, cc_task = t\<rparr> then st
                    else (AList.update (h_id h) (skip_hop ts s) hops,
                          changes @ [transition (h_id h) (Some HPending) HSkipped (Some RCondition)])))"

definition evaluateNewlyEligibleConditions ::
  "workflow_definition \<Rightarrow> json \<Rightarrow> cond_task \<Rightarrow> int \<Rightarrow> eval_state \<Rightarrow> eval_state" where
  "evaluateNewlyEligibleConditions defn condContext t ts st =
     foldl (evaluate_hop_condition condContext t ts) st (wd_hops defn)"

definition hop_is_ready :: "hop_map \<Rightarrow> hop \<Rightarrow> bool" where
  "hop_is_ready hops h =
     (status_of hops (h_id h) = Some HPending \<and> length (h_dependsOn h) \<noteq> 0 \<and>
      (case h_joinType h of
         JoinAny \<Rightarrow> list_ex (\<lambda>d. status_of hops d = Some HComplete) (h_dependsOn h)
       | JoinAll \<Rightarrow> list_all (\<lambda>d. status_of hops d = Some HComplete \<or> status_of hops d = Some HSkipped) (h_dependsOn h)))"

definition determineReadyHops :: "workflow_definition \<Rightarrow> hop_map \<Rightarrow> string list" where
  "determineReadyHops defn hops = map h_id (filter (hop_is_ready hops) (wd_hops defn))"

definition checkDAGCompletion :: "hop_map \<Rightarrow> workflow_status option" where
  "checkDAGCompletion hops =
     (let statuses = map (hs_status \<circ> snd) hops in
      if \<not> list_all (\<lambda>s. s = HComplete \<or> s = HSkipped \<or> s = HFailed) statuses then None
      else if list_ex (\<lambda>s. s = HFailed) statuses then Some WFailed
      else Some WComplete)"

subsection \<open>Rejection\<close>

definition reset_status :: "nat option \<Rightarrow> hop_status \<Rightarrow> hop_state" where
  "reset_status count s = (hop_state_of s)\<lparr>hs_rejectionCount := count\<rparr>"

fun resetAllHopsForOrigin :: "hop list \<Rightarrow> string \<Rightarrow> nat \<Rightarrow> eval_state \<Rightarrow> dag_eval_error + eval_state" where
  "resetAllHopsForOrigin [] rejectedHopId currentCount st = Inr st"
| "resetAllHopsForOrigin (h # hs) rejectedHopId currentCount (hops, changes) =
     (case map_of hops (h_id h) of
        None \<Rightarrow> Inl (TypeErrorHop (h_id h))
      | Some prev \<Rightarrow>
          (let newStatus = (if length (h_dependsOn h) = 0 then HReady else HPending);
               count = (if h_id h = rejectedHopId then Some currentCount else None);
               changes' = (if hs_status prev \<noteq> newStatus \<or> h_id h = rejectedHopId
                           then changes @ [transition (h_id h) (Some (hs_status prev)) newStatus (Some ROriginCascade)]
                           else changes)
           in resetAllHopsForOrigin hs rejectedHopId currentCount
                (AList.update (h_id h) (reset_status count newStatus) hops, changes')))"

fun reset_each :: "workflow_definition \<Rightarrow> string list \<Rightarrow> string \<Rightarrow> nat \<Rightarrow> string list \<Rightarrow> eval_state \<Rightarrow> dag_eval_error + eval_state" where
  "reset_each defn resetSet rejectedHopId currentCount [] st = Inr st"
| "reset_each defn resetSet rejectedHopId currentCount (hopId # ids) (hops, changes) =
     (case map_of hops hopId of
        None \<Rightarrow> Inl (TypeErrorHop hopId)
      | Some prev \<Rightarrow>
          (case find_hop defn hopId of
             None \<Rightarrow> Inl (TypeErrorHop hopId)
           | Some h \<Rightarrow>
               (let newStatus =
                      (if length (h_dependsOn h) = 0 then HReady
                       else if list_all (\<lambda>d. d \<notin> set resetSet \<and>
                                   (status_of hops d = Some HComplete \<or> status_of hops d = Some HSkipped)) (h_dependsOn h)
                       then HReady else HPending);
                    count = (if hopId = rejectedHopId then Some currentCount else None)
                in reset_each defn resetSet rejectedHopId currentCount ids
                     (AList.update hopId (reset_status count newStatus) hops,
                      changes @ [transition hopId (Some (hs_status prev)) newStatus (Some RPredecessorCascade)]))))"

definition resetPredecessorHops :: "workflow_definition \<Rightarrow> string \<Rightarrow> nat \<Rightarrow> eval_state \<Rightarrow> dag_eval_error + eval_state" where
  "resetPredecessorHops defn rejectedHopId currentCount st =
     (case find_hop defn rejectedHopId of
        None \<Rightarrow> Inl (TypeErrorHop rejectedHopId)
      | Some rejected \<Rightarrow>
          (let resetSet = rev (remdups (rev (rejectedHopId # h_dependsOn rejected)))
           in reset_each defn resetSet rejectedHopId currentCount resetSet st))"

subsection \<open>evaluateDAG\<close>

text \<open>Steps 6 and 7: the DAG-level status, its time stamp, and the suggested task status.\<close>

definition finish_evaluation ::
  "workflow_state \<Rightarrow> int \<Rightarrow> hop_map \<Rightarrow> hop_transition list \<Rightarrow> string list \<Rightarrow> dag_result" where
  "finish_evaluation state ts hops changes readyHops =
     (let dagStatus = checkDAGCompletion hops
      in \<lparr>dr_state =
            (case dagStatus of
               None \<Rightarrow> state\<lparr>ws_hops := hops\<rparr>
             | Some st \<Rightarrow>
                 state\<lparr>ws_status := st, ws_hops := hops,
                       ws_completedAt :=
                         (if st = WComplete \<or> st = WFailed then Some ts else ws_completedAt state)\<rparr>),
          dr_changes = changes, dr_readyHops = readyHops, dr_dagStatus = dagStatus,
          dr_taskStatus =
            (if dagStatus = Some WComplete then Some ''done''
             else if dagStatus = Some WFailed then Some ''failed'' else None)\<rparr>)"

definition hop_state_or_empty :: "hop_map \<Rightarrow> string \<Rightarrow> hop_status \<Rightarrow> hop_state" where
  "hop_state_or_empty hops hopId s =
     (case map_of hops hopId of None \<Rightarrow> hop_state_of s | Some hs \<Rightarrow> hs\<lparr>hs_status := s\<rparr>)"

definition rejection_count :: "hop_map \<Rightarrow> string \<Rightarrow> nat" where
  "rejection_count hops hopId =
     (case map_of hops hopId of
        None \<Rightarrow> 0
      | Some hs \<Rightarrow> (case hs_rejectionCount hs of None \<Rightarrow> 0 | Some n \<Rightarrow> n))"

definition reject_hop :: "workflow_definition \<Rightarrow> hop_map \<Rightarrow> string \<Rightarrow> int \<Rightarrow> dag_eval_error + eval_state" where
  "reject_hop defn hops hopId ts =
     (let currentCount = rejection_count hops hopId + 1 in
      if currentCount \<ge> DEFAULT_MAX_REJECTIONS then
        cascadeSkips defn (buildDownstreamIndex defn) ts hopId
          (AList.update hopId
             ((hop_state_or_empty hops hopId HFailed)
                \<lparr>hs_completedAt := Some ts, hs_rejectionCount := Some currentCount\<rparr>) hops,
           [transition hopId (status_of hops hopId) HFailed (Some RCircuitBreaker)])
      else
        (case find_hop defn hopId of
           None \<Rightarrow> Inl (TypeErrorHop hopId)
         | Some hopDef \<Rightarrow>
             (case h_rejectionStrategy hopDef of
                Some Predecessors \<Rightarrow> resetPredecessorHops defn hopId currentCount (hops, [])
              | _ \<Rightarrow> resetAllHopsForOrigin (wd_hops defn) hopId currentCount (hops, []))))"

text \<open>Hops that are ready after the reset are appended to the computed ready hops, once each.\<close>

definition add_reset_ready :: "workflow_definition \<Rightarrow> hop_map \<Rightarrow> string list \<Rightarrow> string list" where
  "add_reset_ready defn hops readyHops =
     foldl (\<lambda>r h. if status_of hops (h_id h) = Some HReady \<and> h_id h \<notin> set r then r @ [h_id h] else r)
       readyHops (wd_hops defn)"

definition evaluate_rejection ::
  "workflow_definition \<Rightarrow> workflow_state \<Rightarrow> string \<Rightarrow> int \<Rightarrow> dag_eval_error + dag_result" where
  "evaluate_rejection defn state hopId ts =
     (case reject_hop defn (ws_hops state) hopId ts of
        Inl e \<Rightarrow> Inl e
      | Inr (hops, changes) \<Rightarrow>
          Inr (finish_evaluation state ts hops changes
                 (add_reset_ready defn hops (determineReadyHops defn hops))))"

fun outcome_status :: "hop_outcome \<Rightarrow> hop_status" where
  "outcome_status OComplete = HComplete"
| "outcome_status OFailed = HFailed"
| "outcome_status OSkipped = HSkipped"
| "outcome_status ORejected = HFailed"

definition apply_event :: "hop_map \<Rightarrow> hop_event \<Rightarrow> int \<Rightarrow> eval_state" where
  "apply_event hops ev ts =
     (AList.update (he_hopId ev)
        ((hop_state_or_empty hops (he_hopId ev) (outcome_status (he_outcome ev)))
           \<lparr>hs_completedAt := Some ts, hs_result := he_result ev\<rparr>) hops,
      [transition (he_hopId ev) (status_of hops (he_hopId ev)) (outcome_status (he_outcome ev)) None])"

definition mark_ready :: "eval_state \<Rightarrow> string \<Rightarrow> eval_state" where
  "mark_ready st hopId =
     (let (hops, changes) = st
      in (AList.update hopId (hop_state_or_empty hops hopId HReady) hops,
          changes @ [transition hopId (Some HPending) HReady None]))"

definition evaluateDAG ::
  "workflow_definition \<Rightarrow> workflow_state \<Rightarrow> hop_event \<Rightarrow> cond_task \<Rightarrow> int \<Rightarrow> dag_eval_error + dag_result" where
  "evaluateDAG defn state ev t ts =
     (if he_outcome ev = ORejected then evaluate_rejection defn state (he_hopId ev) ts
      else
        (let st1 = apply_event (ws_hops state) ev ts in
         case (if he_outcome ev \<noteq> OComplete
               then cascadeSkips defn (buildDownstreamIndex defn) ts (he_hopId ev) st1 else Inr st1) of
           Inl e \<Rightarrow> Inl e
         | Inr st2 \<Rightarrow>
             (let condContext = buildConditionContext (state\<lparr>ws_hops := fst st2\<rparr>) t;
                  st3 = evaluateNewlyEligibleConditions defn condContext t ts st2;
                  readyHops = determineReadyHops defn (fst st3);
                  st4 = foldl mark_ready st3 readyHops
              in Inr (finish_evaluation state ts (fst st4) (snd st4) readyHops))))"

end
