(* ===== verification/DagValidation.thy ===== *)
theory DagValidation
  imports WorkflowDag
begin

section \<open>Correctness of validateDAG\<close>

text \<open>
  A declarative description of a valid workflow (\<open>well_formed_dag\<close>), and the lemmas that lead to
  its equivalence with \<open>validateDAG\<close>: what the edge-building loop leaves in the two maps, the
  invariant of Kahn's loop (the processed hops are in topological order and the degrees count the
  predecessors still to come), and that the breadth-first search visits every hop of an acyclic
  graph whose dependencies exist.
\<close>

definition hop_ids :: "workflow_definition \<Rightarrow> string list" where
  "hop_ids defn = map h_id (wd_hops defn)"

definition dep_edges :: "workflow_definition \<Rightarrow> (string \<times> string) set" where
  "dep_edges defn = {(d, h_id h) | h d. h \<in> set (wd_hops defn) \<and> d \<in> set (h_dependsOn h)}"

text \<open>Reference definitions of the depth and the size of a condition tree.\<close>

fun cond_depth :: "cond_expr \<Rightarrow> nat" where
  "cond_depth (CAnd cs) = fold max (map (\<lambda>c. Suc (cond_depth c)) cs) 0"
| "cond_depth (COr cs) = fold max (map (\<lambda>c. Suc (cond_depth c)) cs) 0"
| "cond_depth (CNot c) = Suc (cond_depth c)"
| "cond_depth _ = 0"

fun cond_nodes :: "cond_expr \<Rightarrow> nat" where
  "cond_nodes (CAnd cs) = Suc (sum_list (map cond_nodes cs))"
| "cond_nodes (COr cs) = Suc (sum_list (map cond_nodes cs))"
| "cond_nodes (CNot c) = Suc (cond_nodes c)"
| "cond_nodes _ = 1"

definition well_formed_hop :: "workflow_definition \<Rightarrow> hop \<Rightarrow> bool" where
  "well_formed_hop defn h \<longleftrightarrow>
     set (h_dependsOn h) \<subseteq> set (hop_ids defn) \<and>
     (\<forall>t. h_timeout h = Some t \<longrightarrow> timeout_regex t) \<and>
     (\<forall>r. h_escalateTo h = Some r \<longrightarrow> js_trim r \<noteq> []) \<and>
     (\<forall>c. h_condition h = Some c \<longrightarrow>
        cond_depth c \<le> 5 \<and> cond_nodes c \<le> 50 \<and> set (collectHopReferences c) \<subseteq> set (hop_ids defn))"

definition well_formed_dag :: "workflow_definition \<Rightarrow> bool" where
  "well_formed_dag defn \<longleftrightarrow>
     distinct (hop_ids defn) \<and> (\<exists>h \<in> set (wd_hops defn). h_dependsOn h = []) \<and>
     acyclic (dep_edges defn) \<and> (\<forall>h \<in> set (wd_hops defn). well_formed_hop defn h)"

subsection \<open>Complexity of a condition\<close>

lemma fold_max_ge: "(m :: nat) \<le> fold max xs m"
  by (induction xs arbitrary: m) (auto intro: le_trans [OF max.cobounded2])

lemma fold_max_shift: "fold max (map ((+) d) xs) (d + m) = d + fold max xs (m :: nat)"
  by (induction xs arbitrary: m) (simp_all flip: nat_add_max_right)

lemma measure_complexity_eq:
  "measureConditionComplexity c d = (d + cond_depth c, cond_nodes c)"
  "measure_children cs d m n =
     (fold max (map (\<lambda>c. d + Suc (cond_depth c)) cs) m, n + sum_list (map cond_nodes cs))"
proof (induction c d and cs d m n rule: measureConditionComplexity_measure_children.induct)
  case (1 cs depth)
  then show ?case
    using fold_max_shift [of depth "map (\<lambda>c. Suc (cond_depth c)) cs" 0]
    by (simp add: o_def)
next
  case (2 cs depth)
  then show ?case
    using fold_max_shift [of depth "map (\<lambda>c. Suc (cond_depth c)) cs" 0]
    by (simp add: o_def)
next
  case (6 child cs depth maxDepth totalNodes)
  then show ?case by (simp add: max_def)
qed simp_all

subsection \<open>The graph the loops build\<close>

definition adj_of :: "hop list \<Rightarrow> string \<Rightarrow> string list" where
  "adj_of hops u = concat (map (\<lambda>h. replicate (count_list (h_dependsOn h) u) (h_id h)) hops)"

definition deps_of :: "hop list \<Rightarrow> string \<Rightarrow> string list" where
  "deps_of hops v = concat (map h_dependsOn (filter (\<lambda>h. h_id h = v) hops))"

lemma init_maps:
  "map_of (foldl (\<lambda>m h. AList.update (h_id h) x m) m0 hops) k
     = (if k \<in> h_id ` set hops then Some x else map_of m0 k)"
  by (induction hops arbitrary: m0) auto

lemma init_maps_distinct:
  "distinct (map fst m0) \<Longrightarrow> distinct (map fst (foldl (\<lambda>m h. AList.update (h_id h) x m) m0 hops))"
  by (induction hops arbitrary: m0) (auto intro: distinct_update)

lemma add_edges_spec:
  assumes "add_edges hid deps (deg, adj) = (deg', adj')"
  shows "map_of adj' u = map_option (\<lambda>ns. ns @ replicate (count_list deps u) hid) (map_of adj u)"
    and "js_get_or deg' k 0 = js_get_or deg k 0
           + (if k = hid then int (length (filter (\<lambda>d. map_of adj d \<noteq> None) deps)) else 0)"
    and "map_of deg hid \<noteq> None \<Longrightarrow> map fst deg' = map fst deg"
  using assms
proof (induction deps arbitrary: deg adj)
  case Nil
  {
    case 1 then show ?case by (cases "map_of adj u") auto
  next
    case 2 then show ?case by simp
  next
    case 3 then show ?case by simp
  }
next
  case (Cons d deps)
  {
    case 1
    show ?case
    proof (cases "map_of adj d")
      case None
      with 1 Cons.IH(1) show ?thesis by auto
    next
      case (Some ns)
      with 1 have "add_edges hid deps (AList.update hid (js_get_or deg hid 0 + 1) deg,
          AList.update d (ns @ [hid]) adj) = (deg', adj')" by simp
      from Cons.IH(1) [OF this] Some show ?thesis by auto
    qed
  next
    case 2
    show ?case
    proof (cases "map_of adj d")
      case None
      with 2 Cons.IH(2) show ?thesis by auto
    next
      case (Some ns)
      with 2 have "add_edges hid deps (AList.update hid (js_get_or deg hid 0 + 1) deg,
          AList.update d (ns @ [hid]) adj) = (deg', adj')" by simp
      from Cons.IH(2) [OF this]
      have "js_get_or deg' k 0 = (if k = hid then js_get_or deg hid 0 + 1 else js_get_or deg k 0)
        + (if k = hid then int (length (filter (\<lambda>x. map_of (AList.update d (ns @ [hid]) adj) x \<noteq> None) deps)) else 0)"
        by (simp add: js_get_or_def)
      moreover have "map_of (AList.update d (ns @ [hid]) adj) x \<noteq> None \<longleftrightarrow> map_of adj x \<noteq> None" for x
        using Some by auto
      ultimately show ?thesis using Some by simp
    qed
  next
    case 3
    show ?case
    proof (cases "map_of adj d")
      case None
      with 3 Cons.IH(3) show ?thesis by auto
    next
      case (Some ns)
      with 3 have *: "add_edges hid deps (AList.update hid (js_get_or deg hid 0 + 1) deg,
          AList.update d (ns @ [hid]) adj) = (deg', adj')" by simp
      have "map fst deg' = map fst (AList.update hid (js_get_or deg hid 0 + 1) deg)"
        using Cons.IH(3) [OF _ *] by simp
      also have "\<dots> = map fst deg" using 3 by (intro keys_update_existing) simp
      finally show ?thesis .
    qed
  }
qed

lemma edges_fold_spec:
  assumes "foldl (\<lambda>g h. add_edges (h_id h) (h_dependsOn h) g) (deg, adj) hops = (deg', adj')"
    and "\<forall>h \<in> set hops. map_of deg (h_id h) \<noteq> None"
  shows "map_of adj' u = map_option (\<lambda>ns. ns @ adj_of hops u) (map_of adj u) \<and>
    js_get_or deg' k 0 = js_get_or deg k 0 + int (length (filter (\<lambda>d. map_of adj d \<noteq> None) (deps_of hops k))) \<and>
    map fst deg' = map fst deg"
  using assms
proof (induction hops arbitrary: deg adj)
  case Nil
  then show ?case by (cases "map_of adj u") (auto simp: adj_of_def deps_of_def)
next
  case (Cons h hops)
  obtain deg1 adj1 where step: "add_edges (h_id h) (h_dependsOn h) (deg, adj) = (deg1, adj1)"
    by (cases "add_edges (h_id h) (h_dependsOn h) (deg, adj)")
  note s = add_edges_spec [OF step]
  have keys: "map fst deg1 = map fst deg" using s(3) Cons.prems by simp
  then have dom: "map_of deg1 x \<noteq> None \<longleftrightarrow> map_of deg x \<noteq> None" for x
    by (metis map_of_eq_None_iff list.set_map)
  have adj1: "map_of adj1 x \<noteq> None \<longleftrightarrow> map_of adj x \<noteq> None" for x by (simp add: s(1))
  have "foldl (\<lambda>g h. add_edges (h_id h) (h_dependsOn h) g) (deg1, adj1) hops = (deg', adj')"
    and "\<forall>h \<in> set hops. map_of deg1 (h_id h) \<noteq> None"
    using Cons.prems step dom by auto
  from Cons.IH [OF this] show ?case
    by (auto simp: s adj1 keys adj_of_def deps_of_def option.map_comp o_def)
qed

lemma build_graph_spec:
  assumes "build_graph hops = (deg, adj)"
  shows "js_get_or adj u [] = (if u \<in> h_id ` set hops then adj_of hops u else [])"
    and "v \<in> h_id ` set hops \<Longrightarrow>
           map_of deg v = Some (int (length (filter (\<lambda>d. d \<in> h_id ` set hops) (deps_of hops v))))"
    and "set (map fst deg) = h_id ` set hops" and "distinct (map fst deg)"
proof -
  have fold: "foldl (\<lambda>g h. add_edges (h_id h) (h_dependsOn h) g)
      (init_in_degree hops, init_adjacency hops) hops = (deg, adj)"
    using assms by (simp add: build_graph_def)
  have deg0: "map_of (init_in_degree hops) k = (if k \<in> h_id ` set hops then Some 0 else None)" for k
    by (simp add: init_in_degree_def init_maps)
  have adj0: "map_of (init_adjacency hops) k = (if k \<in> h_id ` set hops then Some [] else None)" for k
    by (simp add: init_adjacency_def init_maps)
  have some: "\<forall>h \<in> set hops. map_of (init_in_degree hops) (h_id h) \<noteq> None" by (simp add: deg0)
  note spec = edges_fold_spec [OF fold some]
  show "js_get_or adj u [] = (if u \<in> h_id ` set hops then adj_of hops u else [])"
    using spec [of u] by (auto simp: js_get_or_def adj0)
  have keys: "map fst deg = map fst (init_in_degree hops)" using spec by blast
  have setkeys: "set (map fst (init_in_degree hops)) = h_id ` set hops"
    using deg0 by (auto simp: dom_map_of_conv_image_fst [symmetric] dom_def)
  then show set: "set (map fst deg) = h_id ` set hops" by (simp only: keys)
  show "distinct (map fst deg)"
    unfolding keys init_in_degree_def by (rule init_maps_distinct) simp
  assume v: "v \<in> h_id ` set hops"
  have "js_get_or deg v 0 = int (length (filter (\<lambda>d. d \<in> h_id ` set hops) (deps_of hops v)))"
    using spec [of _ v] v by (simp add: js_get_or_def deg0 adj0)
  moreover have "map_of deg v \<noteq> None" using set v by (metis map_of_eq_None_iff list.set_map)
  ultimately show "map_of deg v = Some (int (length (filter (\<lambda>d. d \<in> h_id ` set hops) (deps_of hops v))))"
    by (auto simp: js_get_or_def)
qed

lemma count_adj_of:
  assumes "distinct (map h_id hops)" "v \<in> h_id ` set hops"
  shows "count_list (adj_of hops u) v = count_list (deps_of hops v) u"
  using assms(1)
proof (induction hops)
  case Nil
  then show ?case by (simp add: adj_of_def deps_of_def)
next
  case (Cons h hs)
  have rep: "count_list (replicate n x) y = (if x = y then n else 0)" for n and x y :: string
    by (induction n) auto
  show ?case
  proof (cases "h_id h = v")
    case True
    with Cons.prems have "filter (\<lambda>h. h_id h = v) hs = []"
      by (simp add: filter_empty_conv) (metis imageI)
    moreover from True Cons.prems have "v \<notin> set (adj_of hs u)" by (auto simp: adj_of_def)
    ultimately show ?thesis
      using True by (simp add: adj_of_def deps_of_def rep count_list_0_iff)
  next
    case False
    with Cons show ?thesis by (simp add: adj_of_def deps_of_def rep)
  qed
qed

lemma set_adj_of: "set (adj_of hops u) = {h_id h | h. h \<in> set hops \<and> u \<in> set (h_dependsOn h)}"
  by (auto simp: adj_of_def set_replicate_conv_if count_list_0_iff split: if_splits)

lemma deps_of_unique:
  assumes "distinct (map h_id hops)" "h \<in> set hops"
  shows "deps_of hops (h_id h) = h_dependsOn h"
proof -
  have "filter (\<lambda>x. h_id x = h_id h) hops = [h]"
    using assms by (induction hops) (auto simp: filter_empty_conv, metis image_eqI)
  then show ?thesis by (simp add: deps_of_def)
qed

subsection \<open>Kahn's loop\<close>

lemma relax_degree:
  "relax ns deg q = (deg', q') \<Longrightarrow> js_get_or deg' k 1 = js_get_or deg k 1 - int (count_list ns k)"
proof (induction ns arbitrary: deg q)
  case Nil
  then show ?case by simp
next
  case (Cons n ns)
  let ?nd = "js_get_or deg n 1 - 1"
  from Cons.prems have "relax ns (AList.update n ?nd deg) (if ?nd = 0 then q @ [n] else q) = (deg', q')"
    unfolding relax.simps Let_def .
  from Cons.IH [OF this] show ?case by (simp add: js_get_or_def)
qed

lemma relax_queue:
  assumes "relax ns deg q = (deg', q')" "\<forall>v \<in> set ns. int (count_list ns v) \<le> js_get_or deg v 1"
  shows "\<exists>extra. q' = q @ extra \<and> distinct extra \<and>
           set extra = {v \<in> set ns. js_get_or deg v 1 = int (count_list ns v)}"
  using assms
proof (induction ns arbitrary: deg q)
  case Nil
  then show ?case by simp
next
  case (Cons n ns)
  let ?nd = "js_get_or deg n 1 - 1"
  let ?deg = "AList.update n ?nd deg"
  let ?q = "if ?nd = 0 then q @ [n] else q"
  have get: "js_get_or ?deg k 1 = (if k = n then ?nd else js_get_or deg k 1)" for k
    by (simp add: js_get_or_def)
  from Cons.prems(1) have r: "relax ns ?deg ?q = (deg', q')" unfolding relax.simps Let_def .
  have "\<forall>v \<in> set ns. int (count_list ns v) \<le> js_get_or ?deg v 1"
    using Cons.prems(2) by (auto simp: get split: if_splits)
  from Cons.IH [OF r this] obtain extra where
    e: "q' = ?q @ extra" "distinct extra"
      "set extra = {v \<in> set ns. js_get_or ?deg v 1 = int (count_list ns v)}" by blast
  show ?case
  proof (cases "?nd = 0")
    case True
    have "int (count_list (n # ns) n) \<le> js_get_or deg n 1" using Cons.prems(2) by auto
    with True have "count_list ns n = 0" by simp
    then have n: "n \<notin> set ns" by (simp add: count_list_0_iff)
    then have cn: "count_list ns n = 0" and dn: "js_get_or deg n 1 = 1"
      using True by (simp_all add: count_list_0_iff)
    have agree: "js_get_or ?deg v 1 = js_get_or deg v 1" if "v \<in> set ns" for v
    proof -
      have "v \<noteq> n" using that n by blast
      then show ?thesis by (simp add: get)
    qed
    have e3: "set extra = {v \<in> set ns. js_get_or deg v 1 = int (count_list ns v)}"
      unfolding e(3) by (rule Collect_cong) (rule conj_cong [OF refl], simp only: agree)
    have mem: "v \<in> set extra \<longleftrightarrow> v \<in> set ns \<and> js_get_or deg v 1 = int (count_list ns v)" for v
      unfolding e3 by blast
    have "set (n # extra) = {v \<in> set (n # ns). js_get_or deg v 1 = int (count_list (n # ns) v)}"
    proof (rule set_eqI)
      fix v
      show "v \<in> set (n # extra) \<longleftrightarrow> v \<in> {v \<in> set (n # ns). js_get_or deg v 1 = int (count_list (n # ns) v)}"
        using mem [of v] n cn dn by (cases "v = n") auto
    qed
    moreover have "distinct (n # extra)" using mem n e(2) by simp
    moreover have "q' = q @ n # extra" using e(1) True by simp
    ultimately show ?thesis by blast
  next
    case False
    have same: "v \<in> set ns \<and> js_get_or ?deg v 1 = int (count_list ns v) \<longleftrightarrow>
        v \<in> set (n # ns) \<and> js_get_or deg v 1 = int (count_list (n # ns) v)" for v
    proof (cases "v = n")
      case True
      have "n \<in> set ns" if "js_get_or deg n 1 = int (count_list ns n) + 1"
        using that False count_list_0_iff [of ns n] by (cases "n \<in> set ns") auto
      with True show ?thesis by (auto simp: get)
    next
      case False
      then show ?thesis by (simp add: get)
    qed
    have "set extra = {v \<in> set (n # ns). js_get_or deg v 1 = int (count_list (n # ns) v)}"
      unfolding e(3) by (rule Collect_cong) (rule same)
    moreover have "q' = q @ extra" using e(1) False by simp
    ultimately show ?thesis using e(2) by blast
  qed
qed

lemma count_filter_insert:
  "c \<notin> S \<Longrightarrow> length (filter (\<lambda>d. d \<notin> S) xs)
     = count_list xs c + length (filter (\<lambda>d. d \<notin> insert c S) xs)"
  by (induction xs) auto

text \<open>The processed hops, in the order they left the queue, are in topological order.\<close>

definition topological :: "(string \<Rightarrow> string list) \<Rightarrow> string list \<Rightarrow> bool" where
  "topological dep xs \<longleftrightarrow> (\<forall>ys v zs. xs = ys @ v # zs \<longrightarrow> set (dep v) \<subseteq> set ys)"

definition kahn_inv :: "string set \<Rightarrow> (string \<Rightarrow> string list) \<Rightarrow> int js_map \<Rightarrow> string list \<Rightarrow> string list \<Rightarrow> bool" where
  "kahn_inv V dep deg queue processed \<longleftrightarrow>
     distinct (processed @ queue) \<and> set (processed @ queue) \<subseteq> V \<and> topological dep processed \<and>
     (\<forall>v \<in> V. js_get_or deg v 1 = int (length (filter (\<lambda>d. d \<notin> set processed) (dep v)))) \<and>
     (\<forall>v \<in> V. js_get_or deg v 1 = 0 \<longleftrightarrow> v \<in> set (processed @ queue))"

lemma topological_snoc:
  "topological dep xs \<Longrightarrow> set (dep v) \<subseteq> set xs \<Longrightarrow> topological dep (xs @ [v])"
  by (auto simp: topological_def append_eq_append_conv2 append_eq_Cons_conv Cons_eq_append_conv)

lemma kahn_step:
  assumes inv: "kahn_inv V dep deg (c # queue) processed"
    and adj: "\<And>v. count_list (js_get_or adj c []) v = (if v \<in> V then count_list (dep v) c else 0)"
    and r: "relax (js_get_or adj c []) deg queue = (deg', queue')"
  shows "kahn_inv V dep deg' queue' (processed @ [c])"
proof -
  let ?ns = "js_get_or adj c []"
  let ?g = "\<lambda>v. js_get_or deg v 1" and ?g' = "\<lambda>v. js_get_or deg' v 1"
  from inv have cV: "c \<in> V" and cnew: "c \<notin> set processed" and dist: "distinct (processed @ c # queue)"
    and sub: "set (processed @ c # queue) \<subseteq> V"
    and g: "\<And>v. v \<in> V \<Longrightarrow> ?g v = int (length (filter (\<lambda>d. d \<notin> set processed) (dep v)))"
    and z: "\<And>v. v \<in> V \<Longrightarrow> ?g v = 0 \<longleftrightarrow> v \<in> set (processed @ c # queue)"
    and topo: "topological dep processed"
    by (auto simp: kahn_inv_def)
  have nsV: "v \<in> V" if "v \<in> set ?ns" for v
    using adj [of v] that by (auto simp: count_list_0_iff split: if_splits)
  have cnt: "int (count_list ?ns v) + int (length (filter (\<lambda>d. d \<notin> set (processed @ [c])) (dep v))) = ?g v"
    if "v \<in> V" for v
    using count_filter_insert [OF cnew, of "dep v"] g [OF that] adj [of v] that by simp
  have g': "?g' v = int (length (filter (\<lambda>d. d \<notin> set (processed @ [c])) (dep v)))" if "v \<in> V" for v
    using relax_degree [OF r, of v] cnt [OF that] by linarith
  have "int (count_list ?ns v) \<le> ?g v" if "v \<in> set ?ns" for v
    using cnt [OF nsV [OF that]] by linarith
  with relax_queue [OF r] obtain extra where
    extra: "queue' = queue @ extra" "distinct extra" "set extra = {v \<in> set ?ns. ?g v = int (count_list ?ns v)}"
    by blast
  have pos: "?g v > 0" if "v \<in> set extra" for v
  proof -
    have "count_list ?ns v \<noteq> 0" using that extra(3) by (simp add: count_list_0_iff)
    with that extra(3) show ?thesis by simp
  qed
  have fresh: "set extra \<inter> set (processed @ c # queue) = {}"
  proof -
    have "v \<notin> set (processed @ c # queue)" if "v \<in> set extra" for v
    proof -
      have "v \<in> V" using that extra(3) nsV by blast
      with pos [OF that] z show ?thesis by fastforce
    qed
    then show ?thesis by blast
  qed
  have "set (dep c) \<subseteq> set processed"
    using g [OF cV] z [OF cV] by (auto simp: filter_empty_conv)
  then have topo': "topological dep (processed @ [c])" using topo by (rule topological_snoc [rotated])
  have zero': "?g' v = 0 \<longleftrightarrow> v \<in> set ((processed @ [c]) @ queue')" if v: "v \<in> V" for v
  proof
    assume "?g' v = 0"
    then have eq: "?g v = int (count_list ?ns v)" using relax_degree [OF r, of v] by simp
    show "v \<in> set ((processed @ [c]) @ queue')"
    proof (cases "?g v = 0")
      case True
      then show ?thesis using z [OF v] extra(1) by auto
    next
      case False
      with eq have "v \<in> set ?ns" by (metis count_list_0_iff of_nat_0)
      with eq extra show ?thesis by auto
    qed
  next
    assume "v \<in> set ((processed @ [c]) @ queue')"
    then consider "v \<in> set (processed @ c # queue)" | "v \<in> set extra" using extra(1) by auto
    then show "?g' v = 0"
    proof cases
      case 1
      then have "?g v = 0" using z [OF v] by simp
      then show ?thesis using cnt [OF v] g' [OF v] by linarith
    next
      case 2
      then show ?thesis using extra(3) relax_degree [OF r, of v] by auto
    qed
  qed
  show ?thesis
    unfolding kahn_inv_def using dist sub extra fresh nsV topo' g' zero' by auto
qed

lemma kahn_loop_inv:
  assumes "kahn_inv V dep deg queue processed"
    and "\<And>u v. u \<in> V \<Longrightarrow> count_list (js_get_or adj u []) v = (if v \<in> V then count_list (dep v) u else 0)"
  shows "\<exists>dn. kahn_inv V dep (fst (kahn_loop adj deg queue (length processed))) [] dn \<and>
    snd (kahn_loop adj deg queue (length processed)) = length dn"
  using assms
proof (induction adj deg queue "length processed" arbitrary: processed rule: kahn_loop.induct)
  case (1 adj deg)
  then show ?case by auto
next
  case (2 adj deg c queue)
  obtain deg' queue' where r: "relax (js_get_or adj c []) deg queue = (deg', queue')"
    by (cases "relax (js_get_or adj c []) deg queue")
  have "c \<in> V" using 2(2) by (simp add: kahn_inv_def)
  then have "kahn_inv V dep deg' queue' (processed @ [c])"
    using kahn_step [OF 2(2) _ r] 2(3) by blast
  then have "\<exists>dn. kahn_inv V dep (fst (kahn_loop adj deg' queue' (length (processed @ [c])))) [] dn \<and>
    snd (kahn_loop adj deg' queue' (length (processed @ [c]))) = length dn"
    using 2(1) [OF refl r [symmetric], of "processed @ [c]"] 2(3) by simp
  then show ?case by (simp add: r)
qed

text \<open>A topological order rules out cycles, and without cycles the loop gets to every hop.\<close>

lemma topological_acyclic:
  assumes "topological dep xs" "distinct xs"
  shows "acyclic {(d, v). v \<in> set xs \<and> d \<in> set (dep v)}"
proof -
  define pos where "pos v = (THE i. i < length xs \<and> xs ! i = v)" for v
  have pos: "pos (xs ! i) = i" if "i < length xs" for i
    unfolding pos_def using that assms(2) by (intro the_equality) (auto simp: nth_eq_iff_index_eq)
  have "{(d, v). v \<in> set xs \<and> d \<in> set (dep v)} \<subseteq> measure pos"
  proof safe
    fix d v assume "v \<in> set xs" "d \<in> set (dep v)"
    then obtain i where i: "i < length xs" "xs ! i = v" by (auto simp: in_set_conv_nth)
    then have "xs = take i xs @ v # drop (Suc i) xs" by (metis id_take_nth_drop)
    with assms(1) \<open>d \<in> set (dep v)\<close> have "d \<in> set (take i xs)" unfolding topological_def by blast
    then obtain j where "j < i" "j < length xs" "xs ! j = d" by (auto simp: in_set_conv_nth)
    with i show "(d, v) \<in> measure pos" using pos by auto
  qed
  then have "wf {(d, v). v \<in> set xs \<and> d \<in> set (dep v)}" by (rule wf_subset [OF wf_measure])
  then show ?thesis by (rule wf_acyclic)
qed

lemma kahn_done_iff:
  assumes inv: "kahn_inv V dep deg [] dn" and "finite V" and closed: "\<And>v. v \<in> V \<Longrightarrow> set (dep v) \<subseteq> V"
  shows "length dn = card V \<longleftrightarrow> acyclic {(d, v). v \<in> V \<and> d \<in> set (dep v)}"
proof
  from inv have dist: "distinct dn" and sub: "set dn \<subseteq> V" and topo: "topological dep dn"
    and g: "\<And>v. v \<in> V \<Longrightarrow> js_get_or deg v 1 = int (length (filter (\<lambda>d. d \<notin> set dn) (dep v)))"
    and z: "\<And>v. v \<in> V \<Longrightarrow> js_get_or deg v 1 = 0 \<longleftrightarrow> v \<in> set dn"
    by (auto simp: kahn_inv_def)
  {
    assume "length dn = card V"
    then have "set dn = V" using dist sub \<open>finite V\<close> by (metis card_subset_eq distinct_card)
    then show "acyclic {(d, v). v \<in> V \<and> d \<in> set (dep v)}"
      using topological_acyclic [OF topo dist] by simp
  next
    assume acyc: "acyclic {(d, v). v \<in> V \<and> d \<in> set (dep v)}" (is "acyclic ?E")
    have "?E \<subseteq> V \<times> V" using closed by auto
    then have "finite ?E" using \<open>finite V\<close> by (meson finite_SigmaI finite_subset)
    with acyc have wf: "wf ?E" by (simp add: finite_acyclic_wf)
    have "V \<subseteq> set dn"
    proof (rule ccontr)
      assume "\<not> V \<subseteq> set dn"
      then obtain v where "v \<in> V - set dn" by blast
      then obtain m where m: "m \<in> V - set dn" "\<And>d. (d, m) \<in> ?E \<Longrightarrow> d \<notin> V - set dn"
        using wf by (auto simp: wf_iff_ex_minimal elim!: allE [of _ "V - set dn"])
      then have "js_get_or deg m 1 \<noteq> 0" using z by auto
      then obtain d where "d \<in> set (dep m)" "d \<notin> set dn"
        using g m(1) by (auto simp: filter_empty_conv)
      with m closed show False by blast
    qed
    with sub have "set dn = V" by auto
    then show "length dn = card V" using dist by (metis distinct_card)
  }
qed

definition existing_edges :: "workflow_definition \<Rightarrow> (string \<times> string) set" where
  "existing_edges defn = {(d, v) \<in> dep_edges defn. d \<in> set (hop_ids defn)}"

lemma check_cycles_iff:
  assumes dist: "distinct (hop_ids defn)"
  shows "check_cycles defn = [] \<longleftrightarrow> acyclic (existing_edges defn)"
proof -
  let ?hops = "wd_hops defn" and ?V = "h_id ` set (wd_hops defn)"
  let ?dep = "\<lambda>v. filter (\<lambda>d. d \<in> ?V) (deps_of ?hops v)"
  have dist': "distinct (map h_id ?hops)" using dist by (simp add: hop_ids_def)
  obtain deg adj where g: "build_graph ?hops = (deg, adj)" by (cases "build_graph ?hops")
  note spec = build_graph_spec [OF g]
  let ?queue = "map fst (filter (\<lambda>(id, deg). deg = 0) deg)"
  have adj: "count_list (js_get_or adj u []) v = (if v \<in> ?V then count_list (?dep v) u else 0)"
    if "u \<in> ?V" for u v
  proof (cases "v \<in> ?V")
    case True
    have "count_list (filter (\<lambda>d. d \<in> ?V) xs) u = count_list xs u" for xs
      using that by (induction xs) auto
    with True that show ?thesis using spec(1) [of u] count_adj_of [OF dist' True, of u] by simp
  next
    case False
    then have "v \<notin> set (adj_of ?hops u)" by (auto simp: set_adj_of)
    with False that show ?thesis using spec(1) [of u] by (simp add: count_list_0_iff)
  qed
  have deg: "js_get_or deg v 1 = int (length (?dep v))" if "v \<in> ?V" for v
    using spec(2) [OF that] by (simp add: js_get_or_def)
  have "set ?queue = {v \<in> ?V. js_get_or deg v 1 = 0}"
  proof -
    have "set ?queue = {v. map_of deg v = Some 0}"
      using spec(4) by (force simp: map_of_eq_Some_iff)
    also have "\<dots> = {v \<in> ?V. js_get_or deg v 1 = 0}"
    proof -
      have "map_of deg v = Some 0 \<longleftrightarrow> v \<in> ?V \<and> js_get_or deg v 1 = 0" for v
      proof (cases "v \<in> ?V")
        case True
        then show ?thesis using spec(2) [OF True] by (simp add: js_get_or_def)
      next
        case False
        then have "map_of deg v = None" using spec(3) by (simp add: map_of_eq_None_iff)
        with False show ?thesis by simp
      qed
      then show ?thesis by blast
    qed
    finally show ?thesis .
  qed
  moreover have "distinct ?queue"
    using spec(4) by (simp add: distinct_map_filter)
  ultimately have "kahn_inv ?V ?dep deg ?queue []"
    by (auto simp: kahn_inv_def topological_def deg)
  from kahn_loop_inv [OF this adj] obtain dn where
    d: "kahn_inv ?V ?dep (fst (kahn_loop adj deg ?queue 0)) [] dn"
      "snd (kahn_loop adj deg ?queue 0) = length dn" by auto
  have card: "card ?V = length ?hops" using distinct_card [OF dist'] by simp
  have edges: "{(d, v). v \<in> ?V \<and> d \<in> set (?dep v)} = existing_edges defn"
    using deps_of_unique [OF dist'] by (auto simp: existing_edges_def dep_edges_def hop_ids_def)
  have "length dn = card ?V \<longleftrightarrow> acyclic {(d, v). v \<in> ?V \<and> d \<in> set (?dep v)}"
    by (rule kahn_done_iff [OF d(1)]) auto
  then show ?thesis
    using g d(2) card edges by (auto simp: check_cycles_def case_prod_unfold Let_def)
qed

subsection \<open>The breadth-first search\<close>

lemma bfs_loop_closed:
  assumes "\<forall>u \<in> set visited. set (js_get_or adj u []) \<subseteq> set visited \<union> set queue"
  shows "set queue \<union> set visited \<subseteq> set (bfs_loop adj queue visited) \<and>
    (\<forall>u \<in> set (bfs_loop adj queue visited). set (js_get_or adj u []) \<subseteq> set (bfs_loop adj queue visited))"
  using assms
proof (induction adj queue visited rule: bfs_loop.induct)
  case (1 adj visited)
  then show ?case by auto
next
  case (2 adj c queue visited)
  show ?case
  proof (cases "c \<in> set visited")
    case True
    with 2(3) have "\<forall>u \<in> set visited. set (js_get_or adj u []) \<subseteq> set visited \<union> set queue" by auto
    from 2(1) [OF True this] True show ?thesis by auto
  next
    case False
    let ?q = "queue @ filter (\<lambda>n. n \<notin> set (visited @ [c])) (js_get_or adj c [])"
    have "\<forall>u \<in> set (visited @ [c]). set (js_get_or adj u []) \<subseteq> set (visited @ [c]) \<union> set ?q"
      using 2(3) by auto
    from 2(2) [OF False this] False show ?thesis by auto
  qed
qed

lemma check_reachable_ok:
  assumes acyc: "acyclic (dep_edges defn)"
    and deps: "\<And>h. h \<in> set (wd_hops defn) \<Longrightarrow> set (h_dependsOn h) \<subseteq> set (hop_ids defn)"
  shows "check_reachable defn = []"
proof -
  let ?hops = "wd_hops defn"
  obtain deg adj where g: "build_graph ?hops = (deg, adj)" by (cases "build_graph ?hops")
  note adj = build_graph_spec(1) [OF g]
  define R where "R = bfs_loop adj (map h_id (root_hops defn)) []"
  have roots: "h_id ` set (root_hops defn) \<subseteq> set R"
    and closed: "\<And>u. u \<in> set R \<Longrightarrow> set (js_get_or adj u []) \<subseteq> set R"
    using bfs_loop_closed [of "[]" adj "map h_id (root_hops defn)"] by (auto simp: R_def)
  have "dep_edges defn \<subseteq> set (hop_ids defn) \<times> set (hop_ids defn)"
    using deps by (fastforce simp: dep_edges_def hop_ids_def)
  then have "finite (dep_edges defn)" by (meson List.finite_set finite_SigmaI finite_subset)
  with acyc have wf: "wf (dep_edges defn)" by (simp add: finite_acyclic_wf)
  have "\<forall>h \<in> set ?hops. h_id h = v \<longrightarrow> v \<in> set R" for v
    using wf
  proof (induction v rule: wf_induct_rule)
    case (less v)
    show ?case
    proof safe
      fix h assume h: "h \<in> set ?hops" "v = h_id h"
      show "h_id h \<in> set R"
      proof (cases "h_dependsOn h")
        case Nil
        with h roots show ?thesis by (auto simp: root_hops_def)
      next
        case (Cons d ds)
        then have "d \<in> set (hop_ids defn)" using deps [OF h(1)] by auto
        then obtain k where k: "k \<in> set ?hops" "h_id k = d" by (auto simp: hop_ids_def)
        have "(d, v) \<in> dep_edges defn" using h Cons by (auto simp: dep_edges_def)
        with less k have "d \<in> set R" by blast
        then have "set (adj_of ?hops d) \<subseteq> set R"
          using closed [of d] adj [of d] k by auto
        moreover have "h_id h \<in> set (adj_of ?hops d)" using h Cons by (auto simp: set_adj_of)
        ultimately show ?thesis by blast
      qed
    qed
  qed
  then have "filter (\<lambda>h. h_id h \<notin> set R) ?hops = []" by (auto simp: filter_empty_conv)
  then show ?thesis using g by (simp add: check_reachable_def R_def Let_def)
qed

subsection \<open>Each check against its clause\<close>

lemma check_duplicates_iff:
  "check_duplicates seen hs = [] \<longleftrightarrow> distinct (map h_id hs) \<and> h_id ` set hs \<inter> set seen = {}"
  by (induction seen hs rule: check_duplicates.induct) auto

lemma check_dependencies_iff:
  "check_dependencies defn = [] \<longleftrightarrow>
     (\<forall>h \<in> set (wd_hops defn). set (h_dependsOn h) \<subseteq> set (hop_ids defn))"
  by (fastforce simp: check_dependencies_def hop_ids_def filter_empty_conv)

lemma check_timeouts_iff:
  "check_timeouts defn = [] \<longleftrightarrow>
     (\<forall>h \<in> set (wd_hops defn). \<forall>t. h_timeout h = Some t \<longrightarrow> timeout_regex t)"
  by (auto simp: check_timeouts_def split: option.splits)

lemma check_escalation_iff:
  "check_escalation defn = [] \<longleftrightarrow>
     (\<forall>h \<in> set (wd_hops defn). \<forall>r. h_escalateTo h = Some r \<longrightarrow> js_trim r \<noteq> [])"
  by (auto simp: check_escalation_def split: option.splits)

lemma check_complexity_iff:
  "check_complexity defn = [] \<longleftrightarrow>
     (\<forall>h \<in> set (wd_hops defn). \<forall>c. h_condition h = Some c \<longrightarrow> cond_depth c \<le> 5 \<and> cond_nodes c \<le> 50)"
  unfolding check_complexity_def measure_complexity_eq concat_eq_Nil_conv set_map ball_simps
  by (rule ball_cong [OF refl])
    (simp add: MAX_CONDITION_DEPTH_def MAX_CONDITION_NODES_def not_less split: option.split)

lemma check_references_iff:
  "check_references defn = [] \<longleftrightarrow>
     (\<forall>h \<in> set (wd_hops defn). \<forall>c. h_condition h = Some c \<longrightarrow>
        set (collectHopReferences c) \<subseteq> set (hop_ids defn))"
  by (auto simp: check_references_def hop_ids_def filter_empty_conv split: option.splits)

lemma root_hops_empty: "root_hops defn = [] \<longleftrightarrow> (\<forall>h \<in> set (wd_hops defn). h_dependsOn h \<noteq> [])"
  by (simp add: root_hops_def filter_empty_conv)

lemma validateDAG_spec: "validateDAG defn = [] \<longleftrightarrow> well_formed_dag defn"
proof (cases "distinct (hop_ids defn) \<and> check_dependencies defn = []")
  case False
  then show ?thesis
    by (auto simp: validateDAG_def well_formed_dag_def well_formed_hop_def check_duplicates_iff
        check_dependencies_iff hop_ids_def)
next
  case True
  then have deps: "\<And>h. h \<in> set (wd_hops defn) \<Longrightarrow> set (h_dependsOn h) \<subseteq> set (hop_ids defn)"
    by (simp add: check_dependencies_iff)
  then have "existing_edges defn = dep_edges defn"
    by (fastforce simp: existing_edges_def dep_edges_def)
  with True have cyc: "check_cycles defn = [] \<longleftrightarrow> acyclic (dep_edges defn)"
    by (simp add: check_cycles_iff)
  have "check_duplicates [] (wd_hops defn) = []"
    using True by (simp add: check_duplicates_iff hop_ids_def)
  moreover have "check_reachable defn = []" if "acyclic (dep_edges defn)"
    using check_reachable_ok [OF that deps] .
  moreover have "root_hops defn \<noteq> [] \<longleftrightarrow> (\<exists>h \<in> set (wd_hops defn). h_dependsOn h = [])"
    by (simp add: root_hops_empty)
  ultimately have "validateDAG defn = [] \<longleftrightarrow> root_hops defn \<noteq> [] \<and> acyclic (dep_edges defn) \<and>
      check_timeouts defn = [] \<and> check_escalation defn = [] \<and> check_complexity defn = [] \<and>
      check_references defn = []"
    using True cyc by (auto simp: validateDAG_def)
  then show ?thesis
    unfolding check_timeouts_iff check_escalation_iff check_complexity_iff check_references_iff
      root_hops_empty well_formed_dag_def well_formed_hop_def
    using True deps by (simp add: ball_conj_distrib) blast
qed


end
