(* ===== verification/DagEvalProps.thy ===== *)
theory DagEvalProps
  imports DagEvaluator DagValidation
begin

section \<open>Correctness of the DAG evaluator\<close>

text \<open>
  Two relations carry the proofs: \<open>log_step\<close> (the transitions appended by a helper, replayed on
  the old statuses, give the new ones) and \<open>only_skips\<close> (a helper does nothing but skip pending
  hops). Every helper satisfies them, both compose, and the theorems on \<open>evaluateDAG\<close> follow:
  the change log is exact, the cascade skips exactly the hops with no live predecessor, ready
  hops have their join satisfied, and the evaluation of an AND-join workflow without failures
  always leaves a hop to run or a terminal status.
\<close>

lemma status_of_update [simp]:
  "status_of (AList.update k s hops) k' = (if k' = k then Some (hs_status s) else status_of hops k')"
  by (simp add: status_of_def)

lemma status_of_Nil [simp]: "status_of [] k = None"
  by (simp add: status_of_def)

lemma skip_hop_status [simp]: "hs_status (skip_hop ts s) = HSkipped"
  by (simp add: skip_hop_def)

lemma reset_status_status [simp]: "hs_status (reset_status c s) = s"
  by (simp add: reset_status_def hop_state_of_def)

lemma hop_state_or_empty_status [simp]: "hs_status (hop_state_or_empty hops k s) = s"
  by (simp add: hop_state_or_empty_def hop_state_of_def split: option.split)

lemma transition_simps [simp]:
  "tr_hopId (transition k f t r) = k" "tr_from (transition k f t r) = f" "tr_to (transition k f t r) = t"
  "tr_reason (transition k f t r) = r"
  by (simp_all add: transition_def)

lemma find_hop_unique:
  "distinct (hop_ids defn) \<Longrightarrow> h \<in> set (wd_hops defn) \<Longrightarrow> find_hop defn (h_id h) = Some h"
  by (simp add: find_hop_def hop_ids_def find_by_key)

lemma find_hop_Some: "find_hop defn k = Some h \<Longrightarrow> h \<in> set (wd_hops defn) \<and> h_id h = k"
  by (auto simp: find_hop_def dest: find_Some_conv)

lemma find_hop_None: "find_hop defn k = None \<longleftrightarrow> k \<notin> set (hop_ids defn)"
  by (auto simp: find_hop_def find_None_conv hop_ids_def)

subsection \<open>The downstream index\<close>

lemma js_get_or_ensure [simp]: "js_get_or (ensure_key k m) k' [] = js_get_or m k' []"
  by (simp add: ensure_key_def js_get_or_def)

lemma js_get_or_update [simp]:
  "js_get_or (AList.update k v m) k' d = (if k' = k then v else js_get_or m k' d)"
  by (simp add: js_get_or_def)

lemma index_deps:
  "set (js_get_or (foldl (\<lambda>index dep. let index' = ensure_key dep index
       in AList.update dep (js_get_or index' dep [] @ [hid]) index') m deps) k [])
     = set (js_get_or m k []) \<union> (if k \<in> set deps then {hid} else {})"
  by (induction deps arbitrary: m) (auto simp: Let_def)

lemma index_hops:
  "set (js_get_or (foldl (\<lambda>index h. foldl (\<lambda>index dep. let index' = ensure_key dep index
       in AList.update dep (js_get_or index' dep [] @ [h_id h]) index') (ensure_key (h_id h) index) (h_dependsOn h))
       m hops) k []) = set (js_get_or m k []) \<union> {h_id h | h. h \<in> set hops \<and> k \<in> set (h_dependsOn h)}"
proof (induction hops arbitrary: m)
  case Nil
  then show ?case by simp
next
  case (Cons h hops)
  show ?case unfolding foldl.simps Cons.IH index_deps js_get_or_ensure by auto
qed

lemma downstream_index:
  "set (js_get_or (buildDownstreamIndex defn) k []) = {h_id h | h. h \<in> set (wd_hops defn) \<and> k \<in> set (h_dependsOn h)}"
  unfolding buildDownstreamIndex_def index_hops by (simp add: js_get_or_def)

subsection \<open>The change log\<close>

definition replay :: "hop_transition list \<Rightarrow> (string \<Rightarrow> hop_status option) \<Rightarrow> string \<Rightarrow> hop_status option" where
  "replay changes f = foldl (\<lambda>f c. f(tr_hopId c \<mapsto> tr_to c)) f changes"

fun log_from_ok :: "(string \<Rightarrow> hop_status option) \<Rightarrow> hop_transition list \<Rightarrow> bool" where
  "log_from_ok f [] = True"
| "log_from_ok f (c # cs) = (tr_from c = f (tr_hopId c) \<and> log_from_ok (f(tr_hopId c \<mapsto> tr_to c)) cs)"

definition log_step :: "eval_state \<Rightarrow> eval_state \<Rightarrow> bool" where
  "log_step st st' \<longleftrightarrow>
     (\<exists>new. snd st' = snd st @ new \<and> log_from_ok (status_of (fst st)) new \<and>
            status_of (fst st') = replay new (status_of (fst st)))"

lemma replay_simps [simp]:
  "replay [] f = f" "replay (c # cs) f = replay cs (f(tr_hopId c \<mapsto> tr_to c))"
  "replay (xs @ ys) f = replay ys (replay xs f)"
  by (simp_all add: replay_def)

lemma log_from_ok_append [simp]:
  "log_from_ok f (xs @ ys) \<longleftrightarrow> log_from_ok f xs \<and> log_from_ok (replay xs f) ys"
  by (induction xs arbitrary: f) auto

lemma log_step_refl [simp]: "log_step st st"
  by (auto simp: log_step_def)

lemma log_step_trans: "log_step a b \<Longrightarrow> log_step b c \<Longrightarrow> log_step a c"
  by (fastforce simp: log_step_def)

lemma log_step_foldl: "(\<And>st x. x \<in> set xs \<Longrightarrow> log_step st (f st x)) \<Longrightarrow> log_step st (foldl f st xs)"
proof (induction xs arbitrary: st)
  case (Cons x xs)
  have "log_step st (f st x)" using Cons.prems by simp
  moreover have "log_step (f st x) (foldl f (f st x) xs)" using Cons by simp
  ultimately show ?case by (auto intro: log_step_trans)
qed simp

lemma log_step_update:
  "status_of hops k = from \<Longrightarrow>
    log_step (hops, ch) (AList.update k s hops, ch @ [transition k from (hs_status s) r])"
  by (auto simp: log_step_def)

lemma log_step_silent:
  "status_of hops k = Some (hs_status s) \<Longrightarrow> log_step (hops, ch) (AList.update k s hops, ch)"
  by (auto simp: log_step_def)

subsection \<open>Skipping pending hops\<close>

definition only_skips :: "int \<Rightarrow> hop_map \<Rightarrow> hop_map \<Rightarrow> bool" where
  "only_skips ts hops hops' \<longleftrightarrow>
     (\<forall>k. map_of hops' k = map_of hops k \<or>
          (\<exists>s. map_of hops k = Some s \<and> hs_status s = HPending \<and> map_of hops' k = Some (skip_hop ts s)))"

lemma only_skips_refl [simp]: "only_skips ts hops hops"
  by (simp add: only_skips_def)

lemma only_skips_trans:
  assumes "only_skips ts a b" "only_skips ts b c" shows "only_skips ts a c"
  unfolding only_skips_def
proof
  fix k
  let ?P = "\<lambda>m (m' :: hop_map). map_of m' k = map_of m k \<or>
      (\<exists>s. map_of m k = Some s \<and> hs_status s = HPending \<and> map_of m' k = Some (skip_hop ts s))"
  from assms have "?P a b" "?P b c" by (simp_all add: only_skips_def)
  then show "?P a c"
  proof (elim disjE)
    assume "map_of b k = map_of a k" "map_of c k = map_of b k"
    then show ?thesis by simp
  next
    assume ab: "\<exists>s. map_of a k = Some s \<and> hs_status s = HPending \<and> map_of b k = Some (skip_hop ts s)"
      and "\<exists>s. map_of b k = Some s \<and> hs_status s = HPending \<and> map_of c k = Some (skip_hop ts s)"
    then have False by auto
    then show ?thesis ..
  qed simp_all
qed

lemma only_skips_update:
  "map_of hops k = Some s \<Longrightarrow> hs_status s = HPending \<Longrightarrow> only_skips ts hops (AList.update k (skip_hop ts s) hops)"
  by (simp add: only_skips_def)

lemma only_skips_status:
  assumes "only_skips ts hops hops'"
  shows "status_of hops' k = status_of hops k \<or> status_of hops k = Some HPending \<and> status_of hops' k = Some HSkipped"
  using assms [unfolded only_skips_def, rule_format, of k] by (auto simp: status_of_def)

lemma only_skips_pending:
  "only_skips ts hops hops' \<Longrightarrow> status_of hops' k = Some HPending \<Longrightarrow> status_of hops k = Some HPending"
  using only_skips_status [of ts hops hops' k] by auto

lemma only_skips_dead: "only_skips ts hops hops' \<Longrightarrow> all_dead hops h \<Longrightarrow> all_dead hops' h"
  unfolding all_dead_def list_all_iff using only_skips_status by (metis hop_status.distinct(1,7,9) option.inject)

subsection \<open>The cascade\<close>

lemma all_dead_update:
  assumes "k \<notin> set (h_dependsOn h)"
  shows "all_dead (AList.update k s hops) h = all_dead hops h"
proof -
  have "status_of (AList.update k s hops) d = status_of hops d" if "d \<in> set (h_dependsOn h)" for d
    using that assms by auto
  then show ?thesis by (simp add: all_dead_def list_all_iff)
qed

text \<open>The hops a dead hop takes down: every predecessor was dead already or is taken down too, and
  at least one of them is the starting hop or is taken down.\<close>

inductive doomed :: "workflow_definition \<Rightarrow> hop_map \<Rightarrow> string \<Rightarrow> string \<Rightarrow> bool"
  for defn hops start where
  doomedI: "find_hop defn v = Some h \<Longrightarrow> status_of hops v = Some HPending \<Longrightarrow>
    d \<in> set (h_dependsOn h) \<Longrightarrow> d = start \<or> doomed defn hops start d \<Longrightarrow>
    (\<And>e. e \<in> set (h_dependsOn h) \<Longrightarrow>
       status_of hops e \<in> {Some HSkipped, Some HFailed} \<or> doomed defn hops start e) \<Longrightarrow>
    doomed defn hops start v"

lemma cascade_each_cases:
  assumes "cascade_each defn idx ts (k # rest) hops ch = Inr r"
  obtains
    (keep) "cascade_each defn idx ts rest hops ch = Inr r" "status_of hops k \<noteq> Some HPending"
  | (alive) h where "cascade_each defn idx ts rest hops ch = Inr r" "status_of hops k = Some HPending"
      "find_hop defn k = Some h" "\<not> all_dead hops h"
  | (skip) s h h1 c1 where "map_of hops k = Some s" "hs_status s = HPending"
      "find_hop defn k = Some h" "all_dead hops h"
      "cascade_each defn idx ts (js_get_or idx k []) (AList.update k (skip_hop ts s) hops)
         (ch @ [transition k (Some HPending) HSkipped (Some RCascade)]) = Inr (h1, c1)"
      "cascade_each defn idx ts rest h1 c1 = Inr r"
  using assms
  by (cases "map_of hops k"; cases "find_hop defn k")
    (auto simp: status_of_def split: if_splits sum.splits prod.splits)

lemma cascade_each_basic:
  "cascade_each defn idx ts ids hops ch = Inr (hops', ch') \<Longrightarrow>
    only_skips ts hops hops' \<and> log_step (hops, ch) (hops', ch')"
proof (induction defn idx ts ids hops ch arbitrary: hops' ch' rule: cascade_each.induct)
  case (1 defn idx ts hops ch)
  then show ?case by simp
next
  case (2 defn idx ts k rest hops ch)
  from 2(6) show ?case
  proof (cases rule: cascade_each_cases)
    case keep
    then show ?thesis using 2(1,2) by (cases "map_of hops k") (auto simp: status_of_def)
  next
    case (alive h)
    then show ?thesis using 2(5) by (auto simp: status_of_def)
  next
    case (skip s h h1 c1)
    let ?hops = "AList.update k (skip_hop ts s) hops"
    let ?ch = "ch @ [transition k (Some HPending) HSkipped (Some RCascade)]"
    have a: "only_skips ts hops ?hops" using skip(1,2) by (rule only_skips_update)
    have b: "log_step (hops, ch) (?hops, ?ch)"
      using log_step_update [of hops k "Some HPending" ch "skip_hop ts s"] skip(1,2) by (simp add: status_of_def)
    have c: "only_skips ts ?hops h1 \<and> log_step (?hops, ?ch) (h1, c1)"
      using 2(3) [OF skip(1) _ skip(3,4,5)] skip(2) by simp
    have "only_skips ts h1 hops' \<and> log_step (h1, c1) (hops', ch')"
      using 2(4) [OF skip(1) _ skip(3,4,5) refl skip(6)] skip(2) by simp
    with a b c show ?thesis by (meson only_skips_trans log_step_trans)
  qed
qed

text \<open>A hop that is still pending although all its predecessors are dead was left alone: it is not
  among the hops visited, and its predecessors were dead before.\<close>

lemma cascade_each_complete:
  assumes "cascade_each defn idx ts ids hops ch = Inr (hops', ch')"
    and "\<And>u v. v \<in> set (wd_hops defn) \<Longrightarrow> u \<in> set (h_dependsOn v) \<Longrightarrow> h_id v \<in> set (js_get_or idx u [])"
    and "find_hop defn v = Some h" "status_of hops' v = Some HPending" "all_dead hops' h"
  shows "v \<notin> set ids \<and> all_dead hops h"
  using assms
proof (induction defn idx ts ids hops ch arbitrary: hops' ch' rule: cascade_each.induct)
  case (1 defn idx ts hops ch)
  then show ?case by simp
next
  case (2 defn idx ts k rest hops ch)
  have pend: "status_of hops v = Some HPending"
    using cascade_each_basic [OF 2(6)] 2(9) by (meson only_skips_pending)
  from 2(6) show ?case
  proof (cases rule: cascade_each_cases)
    case keep
    then have "v \<notin> set rest \<and> all_dead hops h"
      using 2(1,2) 2(7-10) by (cases "map_of hops k") (auto simp: status_of_def)
    with keep pend show ?thesis by auto
  next
    case (alive g)
    then have "v \<notin> set rest \<and> all_dead hops h"
      using 2(5) 2(7-10) by (auto simp: status_of_def)
    with alive 2(8) show ?thesis by auto
  next
    case (skip s g h1 c1)
    let ?hops = "AList.update k (skip_hop ts s) hops"
    let ?ch = "ch @ [transition k (Some HPending) HSkipped (Some RCascade)]"
    have outer: "v \<notin> set rest \<and> all_dead h1 h"
      using 2(4) [OF skip(1) _ skip(3,4,5) refl skip(6) 2(7-10)] skip(2) by simp
    have p1: "status_of h1 v = Some HPending"
      using cascade_each_basic [OF skip(6)] 2(9) by (meson only_skips_pending)
    then have p0: "status_of ?hops v = Some HPending"
      using cascade_each_basic [OF skip(5)] by (meson only_skips_pending)
    have inner: "v \<notin> set (js_get_or idx k []) \<and> all_dead ?hops h"
      using 2(3) [OF skip(1) _ skip(3,4,5) 2(7,8) p1] outer skip(2) by simp
    from p0 have "v \<noteq> k" by auto
    have "k \<notin> set (h_dependsOn h)"
      using inner 2(7) [of h k] find_hop_Some [OF 2(8)] by auto
    then have "all_dead hops h" using inner by (simp add: all_dead_update)
    with outer \<open>v \<noteq> k\<close> show ?thesis by simp
  qed
qed

lemma doomed_mono:
  "doomed defn hops start v \<Longrightarrow> (\<And>k. status_of hops k = status_of hops' k) \<Longrightarrow> doomed defn hops' start v"
proof (induction rule: doomed.induct)
  case (doomedI v h d)
  show ?case
    by (rule doomed.doomedI [of defn v h hops' d start]) (use doomedI in auto)
qed

lemma doomed_cong:
  "(\<And>k. status_of hops k = status_of hops' k) \<Longrightarrow> doomed defn hops start v = doomed defn hops' start v"
  using doomed_mono [of defn hops start v hops'] doomed_mono [of defn hops' start v hops] by auto

lemma cascade_each_sound:
  assumes "cascade_each defn idx ts ids hops ch = Inr (hops', ch')"
    and "\<And>u v. v \<in> set (js_get_or idx u []) \<Longrightarrow> \<exists>h. find_hop defn v = Some h \<and> u \<in> set (h_dependsOn h)"
    and "\<And>v. v \<in> set ids \<Longrightarrow> \<exists>h d. find_hop defn v = Some h \<and> d \<in> set (h_dependsOn h) \<and> (d = start \<or> doomed defn hops0 start d)"
    and "\<And>v. status_of hops v = status_of hops0 v \<or> status_of hops v = Some HSkipped \<and> doomed defn hops0 start v"
  shows "status_of hops' v = status_of hops0 v \<or> status_of hops' v = Some HSkipped \<and> doomed defn hops0 start v"
  using assms
proof (induction defn idx ts ids hops ch arbitrary: hops' ch' v rule: cascade_each.induct)
  case (1 defn idx ts hops ch)
  then show ?case by simp
next
  case (2 defn idx ts k rest hops ch)
  from 2(6) show ?case
  proof (cases rule: cascade_each_cases)
    case keep
    then show ?thesis using 2(1,2) 2(7-9) by (cases "map_of hops k") (auto simp: status_of_def)
  next
    case (alive g)
    then obtain s where s: "map_of hops k = Some s" "hs_status s = HPending" by (auto simp: status_of_def)
    show ?thesis using 2(5) [OF s(1) _ alive(3,4,1) 2(7) _ 2(9)] 2(8) s(2) by simp
  next
    case (skip s g h1 c1)
    let ?hops = "AList.update k (skip_hop ts s) hops"
    obtain d where d: "d \<in> set (h_dependsOn g)" "d = start \<or> doomed defn hops0 start d"
      using 2(8) [of k] skip(3) by auto
    have pend: "status_of hops0 k = Some HPending"
      using 2(9) [of k] skip(1,2) by (auto simp: status_of_def)
    have "status_of hops0 e \<in> {Some HSkipped, Some HFailed} \<or> doomed defn hops0 start e"
      if "e \<in> set (h_dependsOn g)" for e
      using skip(4) that 2(9) [of e] by (auto simp: all_dead_def list_all_iff)
    then have k: "doomed defn hops0 start k" using doomedI [OF skip(3) pend d] by blast
    have st: "status_of ?hops v = status_of hops0 v \<or> status_of ?hops v = Some HSkipped \<and> doomed defn hops0 start v"
      for v using 2(9) [of v] k by auto
    have down: "\<exists>h d. find_hop defn v = Some h \<and> d \<in> set (h_dependsOn h) \<and> (d = start \<or> doomed defn hops0 start d)"
      if "v \<in> set (js_get_or idx k [])" for v
      using 2(7) [OF that] k by blast
    have inner: "status_of h1 v = status_of hops0 v \<or> status_of h1 v = Some HSkipped \<and> doomed defn hops0 start v" for v
      using 2(3) [OF skip(1) _ skip(3,4,5) 2(7) down st] skip(2) by simp
    show ?thesis
      using 2(4) [OF skip(1) _ skip(3,4,5) refl skip(6) 2(7) _ inner] 2(8) skip(2) by simp
  qed
qed

lemma cascade_each_total:
  assumes "\<And>v. v \<in> set ids \<Longrightarrow> find_hop defn v \<noteq> None"
    and "\<And>u v. v \<in> set (js_get_or idx u []) \<Longrightarrow> find_hop defn v \<noteq> None"
  shows "\<exists>r. cascade_each defn idx ts ids hops ch = Inr r"
  using assms
proof (induction defn idx ts ids hops ch rule: cascade_each.induct)
  case (1 defn idx ts hops ch)
  then show ?case by simp
next
  case (2 defn idx ts k rest hops ch)
  show ?case
  proof (cases "status_of hops k = Some HPending")
    case False
    then show ?thesis using 2(1,2) 2(6,7) by (cases "map_of hops k") (auto simp: status_of_def)
  next
    case True
    then obtain s where s: "map_of hops k = Some s" "hs_status s = HPending" by (auto simp: status_of_def)
    obtain h where h: "find_hop defn k = Some h" using 2(6) [of k] by auto
    show ?thesis
    proof (cases "all_dead hops h")
      case False
      then show ?thesis using 2(5) [OF s(1) _ h] s h 2(6,7) by simp
    next
      case dead: True
      obtain r where r: "cascade_each defn idx ts (js_get_or idx k []) (AList.update k (skip_hop ts s) hops)
          (ch @ [transition k (Some HPending) HSkipped (Some RCascade)]) = Inr r"
        using 2(3) [OF s(1) _ h dead] s 2(7) by auto
      then show ?thesis using 2(4) [OF s(1) _ h dead] s h dead 2(6,7) by (cases r) auto
    qed
  qed
qed

lemma cascadeSkips_total:
  "distinct (hop_ids defn) \<Longrightarrow> \<exists>r. cascadeSkips defn (buildDownstreamIndex defn) ts start st = Inr r"
  unfolding cascadeSkips_def
  by (rule cascade_each_total) (auto simp: downstream_index find_hop_unique)

lemma cascadeSkips_spec:
  assumes dist: "distinct (hop_ids defn)"
    and dead: "status_of hops start \<in> {Some HSkipped, Some HFailed}"
  shows "\<exists>hops' ch'. cascadeSkips defn (buildDownstreamIndex defn) ts start (hops, ch) = Inr (hops', ch') \<and>
    (\<forall>v. status_of hops' v = (if doomed defn hops start v then Some HSkipped else status_of hops v))"
proof -
  let ?idx = "buildDownstreamIndex defn"
  obtain hops' ch' where r: "cascade_each defn ?idx ts (js_get_or ?idx start []) hops ch = Inr (hops', ch')"
    using cascadeSkips_total [OF dist, of ts start "(hops, ch)"] by (auto simp: cascadeSkips_def)
  have idx: "\<exists>h. find_hop defn v = Some h \<and> u \<in> set (h_dependsOn h)" if "v \<in> set (js_get_or ?idx u [])" for u v
    using that dist by (auto simp: downstream_index find_hop_unique)
  have sound: "status_of hops' v = status_of hops v \<or> status_of hops' v = Some HSkipped \<and> doomed defn hops start v" for v
    by (rule cascade_each_sound [OF r idx]) (use idx in blast)+
  note basic = cascade_each_basic [OF r]
  have "status_of hops' v = Some HSkipped" if "doomed defn hops start v" for v
    using that
  proof (induction rule: doomed.induct)
    case (doomedI v h d)
    show ?case
    proof (rule ccontr)
      assume "status_of hops' v \<noteq> Some HSkipped"
      then have pend: "status_of hops' v = Some HPending" using sound [of v] doomedI(2) by auto
      have "status_of hops' e = Some HSkipped \<or> status_of hops' e = Some HFailed" if "e \<in> set (h_dependsOn h)" for e
        using doomedI(5) [OF that] sound [of e] by auto
      then have "all_dead hops' h" by (simp add: all_dead_def list_all_iff)
      then have no: "v \<notin> set (js_get_or ?idx start [])" and ad: "all_dead hops h"
        using cascade_each_complete [OF r _ doomedI(1) pend] by (auto simp: downstream_index)
      have "d \<noteq> start" using no find_hop_Some [OF doomedI(1)] doomedI(3) by (auto simp: downstream_index)
      with doomedI(4) have "status_of hops d = Some HPending" by (auto elim: doomed.cases)
      with ad doomedI(3) show False by (auto simp: all_dead_def list_all_iff)
    qed
  qed
  with sound have "\<forall>v. status_of hops' v = (if doomed defn hops start v then Some HSkipped else status_of hops v)"
    by metis
  with r show ?thesis by (auto simp: cascadeSkips_def)
qed

text \<open>
  C7: the cascade is exact. When a hop has just died, \<open>cascadeSkips\<close> on the index the evaluator
  builds always returns, and afterwards a hop is skipped precisely if it was pending and each of
  its predecessors was dead or is itself taken down by the starting hop; the status of every other
  hop is unchanged.
\<close>

theorem cascadeSkips_exact:
  assumes dist: "distinct (hop_ids defn)"
    and dead: "status_of hops start \<in> {Some HSkipped, Some HFailed}"
  shows "\<exists>hops' ch'. cascadeSkips defn (buildDownstreamIndex defn) ts start (hops, ch) = Inr (hops', ch') \<and>
    (\<forall>v. status_of hops' v = (if doomed defn hops start v then Some HSkipped else status_of hops v))"
  by (rule cascadeSkips_spec [OF assms])

subsection \<open>Conditions and ready hops\<close>

lemma evaluate_hop_condition_step:
  "only_skips ts (fst st) (fst (evaluate_hop_condition cc t ts st h)) \<and>
   log_step st (evaluate_hop_condition cc t ts st h)"
proof -
  obtain hops ch where st: "st = (hops, ch)" by (cases st)
  show ?thesis
  proof (cases "evaluate_hop_condition cc t ts st h = st")
    case False
    then obtain s where s: "map_of hops (h_id h) = Some s" "hs_status s = HPending"
      "evaluate_hop_condition cc t ts st h = (AList.update (h_id h) (skip_hop ts s) hops,
         ch @ [transition (h_id h) (Some HPending) HSkipped (Some RCondition)])"
      by (auto simp: evaluate_hop_condition_def st Let_def split: option.splits if_splits)
    then show ?thesis
      using log_step_update [of hops "h_id h" "Some HPending" ch "skip_hop ts s"]
      by (simp add: st only_skips_update status_of_def)
  qed simp
qed

lemma evaluate_conditions_step:
  "only_skips ts (fst st) (fst (evaluateNewlyEligibleConditions defn cc t ts st)) \<and>
   log_step st (evaluateNewlyEligibleConditions defn cc t ts st)"
proof -
  have "only_skips ts (fst st) (fst (foldl (evaluate_hop_condition cc t ts) st hs))" for hs
  proof (induction hs arbitrary: st)
    case (Cons h hs)
    have "only_skips ts (fst st) (fst (evaluate_hop_condition cc t ts st h))"
      using evaluate_hop_condition_step by blast
    from only_skips_trans [OF this Cons.IH] show ?case unfolding foldl.simps .
  qed simp
  moreover have "log_step st (foldl (evaluate_hop_condition cc t ts) st hs)" for hs
    using evaluate_hop_condition_step by (blast intro: log_step_foldl)
  ultimately show ?thesis by (simp add: evaluateNewlyEligibleConditions_def)
qed

lemma in_determineReadyHops:
  "k \<in> set (determineReadyHops defn hops) \<longleftrightarrow> (\<exists>h \<in> set (wd_hops defn). h_id h = k \<and> hop_is_ready hops h)"
  by (auto simp: determineReadyHops_def)

lemma distinct_determineReadyHops: "distinct (hop_ids defn) \<Longrightarrow> distinct (determineReadyHops defn hops)"
  by (simp add: determineReadyHops_def hop_ids_def distinct_map_filter)

lemma mark_ready_status:
  "status_of (fst (foldl mark_ready st ids)) k = (if k \<in> set ids then Some HReady else status_of (fst st) k)"
  by (induction ids arbitrary: st) (auto simp: mark_ready_def Let_def case_prod_unfold)

lemma mark_ready_other:
  "k \<notin> set ids \<Longrightarrow> map_of (fst (foldl mark_ready st ids)) k = map_of (fst st) k"
  by (induction ids arbitrary: st) (auto simp: mark_ready_def Let_def case_prod_unfold)

lemma mark_ready_log:
  "distinct ids \<Longrightarrow> (\<forall>k \<in> set ids. status_of (fst st) k = Some HPending) \<Longrightarrow> log_step st (foldl mark_ready st ids)"
proof (induction ids arbitrary: st)
  case (Cons k ids)
  obtain hops ch where st: "st = (hops, ch)" by (cases st)
  have "log_step st (mark_ready st k)"
    using Cons.prems log_step_update [of hops k "Some HPending" ch "hop_state_or_empty hops k HReady"]
    by (simp add: st mark_ready_def)
  moreover have "log_step (mark_ready st k) (foldl mark_ready (mark_ready st k) ids)"
    using Cons.prems by (intro Cons.IH) (auto simp: mark_ready_def st)
  ultimately show ?case by (auto intro: log_step_trans)
qed simp

lemma apply_event_log: "log_step (hops, []) (apply_event hops ev ts)"
  using log_step_update [of hops "he_hopId ev" "status_of hops (he_hopId ev)" "[]"
    "(hop_state_or_empty hops (he_hopId ev) (outcome_status (he_outcome ev)))
       \<lparr>hs_completedAt := Some ts, hs_result := he_result ev\<rparr>"]
  by (simp add: apply_event_def)

lemma apply_event_status [simp]:
  "status_of (fst (apply_event hops ev ts)) k =
     (if k = he_hopId ev then Some (outcome_status (he_outcome ev)) else status_of hops k)"
  by (simp add: apply_event_def)

lemma finish_evaluation_simps [simp]:
  "ws_hops (dr_state (finish_evaluation state ts hops ch rh)) = hops"
  "dr_changes (finish_evaluation state ts hops ch rh) = ch"
  "dr_readyHops (finish_evaluation state ts hops ch rh) = rh"
  "dr_dagStatus (finish_evaluation state ts hops ch rh) = checkDAGCompletion hops"
  "ws_status (dr_state (finish_evaluation state ts hops ch rh)) =
     (case checkDAGCompletion hops of None \<Rightarrow> ws_status state | Some s \<Rightarrow> s)"
  "ws_startedAt (dr_state (finish_evaluation state ts hops ch rh)) = ws_startedAt state"
  by (auto simp: finish_evaluation_def Let_def split: option.split)

text \<open>The stages of a normal (not rejecting) evaluation.\<close>

lemma evaluateDAG_stages:
  assumes "evaluateDAG defn state ev t ts = Inr r" "he_outcome ev \<noteq> ORejected"
  obtains st2 st3 where
    "if he_outcome ev = OComplete then st2 = apply_event (ws_hops state) ev ts
     else cascadeSkips defn (buildDownstreamIndex defn) ts (he_hopId ev) (apply_event (ws_hops state) ev ts) = Inr st2"
    "st3 = evaluateNewlyEligibleConditions defn (buildConditionContext (state\<lparr>ws_hops := fst st2\<rparr>) t) t ts st2"
    "r = finish_evaluation state ts (fst (foldl mark_ready st3 (determineReadyHops defn (fst st3))))
           (snd (foldl mark_ready st3 (determineReadyHops defn (fst st3)))) (determineReadyHops defn (fst st3))"
    "only_skips ts (fst (apply_event (ws_hops state) ev ts)) (fst st3)"
    "log_step (ws_hops state, []) st3"
proof -
  let ?st1 = "apply_event (ws_hops state) ev ts"
  obtain st2 where st2: "(if he_outcome ev \<noteq> OComplete
      then cascadeSkips defn (buildDownstreamIndex defn) ts (he_hopId ev) ?st1 else Inr ?st1) = Inr st2"
    and r: "r = (let condContext = buildConditionContext (state\<lparr>ws_hops := fst st2\<rparr>) t;
                  st3 = evaluateNewlyEligibleConditions defn condContext t ts st2;
                  readyHops = determineReadyHops defn (fst st3);
                  st4 = foldl mark_ready st3 readyHops
              in finish_evaluation state ts (fst st4) (snd st4) readyHops)"
    using assms by (auto simp: evaluateDAG_def Let_def split: sum.splits if_splits)
  have s2: "only_skips ts (fst ?st1) (fst st2) \<and> log_step ?st1 st2"
  proof (cases "he_outcome ev = OComplete")
    case False
    with st2 show ?thesis
      using cascade_each_basic by (cases st2) (fastforce simp: cascadeSkips_def)
  qed (use st2 in simp)
  let ?st3 = "evaluateNewlyEligibleConditions defn (buildConditionContext (state\<lparr>ws_hops := fst st2\<rparr>) t) t ts st2"
  have s3: "only_skips ts (fst st2) (fst ?st3) \<and> log_step st2 ?st3" by (rule evaluate_conditions_step)
  show thesis
  proof (rule that)
    show "if he_outcome ev = OComplete then st2 = ?st1
      else cascadeSkips defn (buildDownstreamIndex defn) ts (he_hopId ev) ?st1 = Inr st2"
      using st2 by (auto split: if_splits)
    show "only_skips ts (fst ?st1) (fst ?st3)" using s2 s3 by (blast intro: only_skips_trans)
    show "log_step (ws_hops state, []) ?st3"
      using s2 s3 apply_event_log by (blast intro: log_step_trans)
  qed (use r in \<open>simp_all add: Let_def\<close>)
qed

subsection \<open>The keys of the hop map stay distinct\<close>

definition keys_ok :: "hop_map \<Rightarrow> bool" where
  "keys_ok hops = distinct (map fst hops)"

lemma keys_ok_update [simp, intro]: "keys_ok hops \<Longrightarrow> keys_ok (AList.update k s hops)"
  by (simp add: keys_ok_def distinct_update)

lemma cascade_keys:
  "cascade_each defn idx ts ids hops ch = Inr (hops', ch') \<Longrightarrow> keys_ok hops \<Longrightarrow> keys_ok hops'"
proof (induction defn idx ts ids hops ch arbitrary: hops' ch' rule: cascade_each.induct)
  case (2 defn idx ts k rest hops ch)
  from 2(6) show ?case
  proof (cases rule: cascade_each_cases)
    case keep
    then show ?thesis using 2(1,2,7) by (cases "map_of hops k") (auto simp: status_of_def)
  next
    case (alive h)
    then obtain s where s: "map_of hops k = Some s" "hs_status s = HPending" by (auto simp: status_of_def)
    show ?thesis using 2(5) [OF s(1) _ alive(3,4,1)] 2(7) s(2) by simp
  next
    case (skip s h h1 c1)
    have "keys_ok h1" using 2(3) [OF skip(1) _ skip(3,4,5)] 2(7) skip(2) by simp
    then show ?thesis using 2(4) [OF skip(1) _ skip(3,4,5) refl skip(6)] skip(2) by simp
  qed
qed simp

lemma evaluate_conditions_keys:
  "keys_ok (fst st) \<Longrightarrow> keys_ok (fst (evaluateNewlyEligibleConditions defn cc t ts st))"
proof -
  have step: "keys_ok (fst st) \<Longrightarrow> keys_ok (fst (evaluate_hop_condition cc t ts st h))" for st h
    by (auto simp: evaluate_hop_condition_def Let_def split: prod.splits option.splits)
  have "keys_ok (fst st) \<Longrightarrow> keys_ok (fst (foldl (evaluate_hop_condition cc t ts) st hs))" for st hs
  proof (induction hs arbitrary: st)
    case (Cons h hs)
    then show ?case using step [of st h] by simp
  qed simp
  then show "keys_ok (fst st) \<Longrightarrow> ?thesis" by (simp add: evaluateNewlyEligibleConditions_def)
qed

lemma mark_ready_keys: "keys_ok (fst st) \<Longrightarrow> keys_ok (fst (foldl mark_ready st ids))"
  by (induction ids arbitrary: st) (auto simp: mark_ready_def Let_def case_prod_unfold)

lemma resetAll_keys:
  "resetAllHopsForOrigin hs k n st = Inr st' \<Longrightarrow> keys_ok (fst st) \<Longrightarrow> keys_ok (fst st')"
  by (induction hs k n st rule: resetAllHopsForOrigin.induct) (auto simp: Let_def split: option.splits)

lemma reset_each_keys:
  "reset_each defn rs k n ids st = Inr st' \<Longrightarrow> keys_ok (fst st) \<Longrightarrow> keys_ok (fst st')"
  by (induction defn rs k n ids st rule: reset_each.induct) (auto simp: Let_def split: option.splits)

lemma reject_hop_keys: "reject_hop defn hops k ts = Inr st \<Longrightarrow> keys_ok hops \<Longrightarrow> keys_ok (fst st)"
  by (cases st) (auto simp: reject_hop_def Let_def cascadeSkips_def resetPredecessorHops_def
      dest!: resetAll_keys reset_each_keys intro: cascade_keys
      split: if_splits option.splits rejection_strategy.splits)

lemma evaluateDAG_keys:
  assumes "evaluateDAG defn state ev t ts = Inr r" "keys_ok (ws_hops state)"
  shows "keys_ok (ws_hops (dr_state r))"
proof (cases "he_outcome ev = ORejected")
  case True
  with assms show ?thesis
    by (auto simp: evaluateDAG_def evaluate_rejection_def split: sum.splits dest: reject_hop_keys)
next
  case False
  from assms(1) False obtain st2 st3 where
    st2: "if he_outcome ev = OComplete then st2 = apply_event (ws_hops state) ev ts
     else cascadeSkips defn (buildDownstreamIndex defn) ts (he_hopId ev) (apply_event (ws_hops state) ev ts) = Inr st2"
    and st3: "st3 = evaluateNewlyEligibleConditions defn (buildConditionContext (state\<lparr>ws_hops := fst st2\<rparr>) t) t ts st2"
    and r: "r = finish_evaluation state ts (fst (foldl mark_ready st3 (determineReadyHops defn (fst st3))))
           (snd (foldl mark_ready st3 (determineReadyHops defn (fst st3)))) (determineReadyHops defn (fst st3))"
    by (rule evaluateDAG_stages)
  have "keys_ok (fst (apply_event (ws_hops state) ev ts))"
    using assms(2) by (simp add: apply_event_def)
  then have "keys_ok (fst st2)"
    using st2 by (cases st2) (auto simp: cascadeSkips_def split: if_splits dest: cascade_keys)
  then show ?thesis using r st3 by (simp add: mark_ready_keys evaluate_conditions_keys)
qed

subsection \<open>Completion\<close>

lemma completion_cases:
  assumes "keys_ok hops"
  shows "checkDAGCompletion hops = None \<longleftrightarrow> (\<exists>k. \<not> is_terminal_status (status_of hops k) \<and> status_of hops k \<noteq> None)"
    and "checkDAGCompletion hops = Some WComplete \<longleftrightarrow> (\<forall>k. status_of hops k \<in> {None, Some HComplete, Some HSkipped})"
    and "checkDAGCompletion hops = Some WFailed \<longleftrightarrow>
      (\<forall>k. status_of hops k = None \<or> is_terminal_status (status_of hops k)) \<and> (\<exists>k. status_of hops k = Some HFailed)"
    and "checkDAGCompletion hops \<in> {None, Some WComplete, Some WFailed}"
proof -
  have mem: "(k, s) \<in> set hops \<longleftrightarrow> map_of hops k = Some s" for k s
    using assms by (simp add: keys_ok_def)
  have all: "list_all P (map (hs_status \<circ> snd) hops) \<longleftrightarrow> (\<forall>k s. status_of hops k = Some s \<longrightarrow> P s)"
    and ex: "list_ex P (map (hs_status \<circ> snd) hops) \<longleftrightarrow> (\<exists>k s. status_of hops k = Some s \<and> P s)" for P
    by (force simp: list_all_iff list_ex_iff status_of_def mem [symmetric])+
  show "checkDAGCompletion hops = None \<longleftrightarrow> (\<exists>k. \<not> is_terminal_status (status_of hops k) \<and> status_of hops k \<noteq> None)"
    unfolding checkDAGCompletion_def Let_def all ex is_terminal_status_def by (auto; metis option.inject)
  show "checkDAGCompletion hops = Some WComplete \<longleftrightarrow> (\<forall>k. status_of hops k \<in> {None, Some HComplete, Some HSkipped})"
    unfolding checkDAGCompletion_def Let_def all ex by (auto; metis hop_status.exhaust option.exhaust)
  show "checkDAGCompletion hops = Some WFailed \<longleftrightarrow>
      (\<forall>k. status_of hops k = None \<or> is_terminal_status (status_of hops k)) \<and> (\<exists>k. status_of hops k = Some HFailed)"
    unfolding checkDAGCompletion_def Let_def all ex is_terminal_status_def by (auto; metis option.exhaust)
  show "checkDAGCompletion hops \<in> {None, Some WComplete, Some WFailed}"
    by (simp add: checkDAGCompletion_def Let_def)
qed

subsection \<open>Theorems\<close>

lemma resetAll_log: "resetAllHopsForOrigin hs k n st = Inr st' \<Longrightarrow> log_step st st'"
proof (induction hs k n st rule: resetAllHopsForOrigin.induct)
  case (2 h hs k n hops ch)
  then obtain prev where prev: "map_of hops (h_id h) = Some prev" by (auto split: option.splits)
  let ?new = "if length (h_dependsOn h) = 0 then HReady else HPending"
  let ?s = "reset_status (if h_id h = k then Some n else None) ?new"
  let ?log = "hs_status prev \<noteq> ?new \<or> h_id h = k"
  let ?ch = "if ?log then ch @ [transition (h_id h) (Some (hs_status prev)) ?new (Some ROriginCascade)] else ch"
  have "log_step (hops, ch) (AList.update (h_id h) ?s hops, ?ch)"
  proof (cases ?log)
    case True
    then show ?thesis
      using log_step_update [of hops "h_id h" "Some (hs_status prev)" ch ?s] prev by (simp add: status_of_def)
  next
    case False
    then show ?thesis using log_step_silent [of hops "h_id h" ?s ch] prev by (simp add: status_of_def)
  qed
  moreover have "log_step (AList.update (h_id h) ?s hops, ?ch) st'"
    using 2(2) unfolding resetAllHopsForOrigin.simps(2) prev option.case Let_def
    by (rule 2(1) [OF prev refl refl refl])
  ultimately show ?case by (rule log_step_trans)
qed simp

lemma reset_each_log: "reset_each defn rs k n ids st = Inr st' \<Longrightarrow> log_step st st'"
proof (induction defn rs k n ids st rule: reset_each.induct)
  case (2 defn rs k n i ids hops ch)
  then obtain prev h where prev: "map_of hops i = Some prev" "find_hop defn i = Some h"
    by (auto split: option.splits)
  let ?new = "if length (h_dependsOn h) = 0 then HReady
     else if list_all (\<lambda>d. d \<notin> set rs \<and> (status_of hops d = Some HComplete \<or> status_of hops d = Some HSkipped)) (h_dependsOn h)
     then HReady else HPending"
  let ?s = "reset_status (if i = k then Some n else None) ?new"
  let ?ch = "ch @ [transition i (Some (hs_status prev)) ?new (Some RPredecessorCascade)]"
  have "log_step (hops, ch) (AList.update i ?s hops, ?ch)"
    using log_step_update [of hops i "Some (hs_status prev)" ch ?s] prev by (simp add: status_of_def)
  moreover have "log_step (AList.update i ?s hops, ?ch) st'"
    using 2(2) unfolding reset_each.simps(2) prev option.case Let_def
    by (rule 2(1) [OF prev refl refl])
  ultimately show ?case by (rule log_step_trans)
qed simp

lemma reject_hop_log: "reject_hop defn hops k ts = Inr st \<Longrightarrow> log_step (hops, []) st"
proof -
  assume r: "reject_hop defn hops k ts = Inr st"
  let ?n = "rejection_count hops k + 1"
  show ?thesis
  proof (cases "?n \<ge> DEFAULT_MAX_REJECTIONS")
    case True
    let ?s = "(hop_state_or_empty hops k HFailed)\<lparr>hs_completedAt := Some ts, hs_rejectionCount := Some ?n\<rparr>"
    let ?st = "(AList.update k ?s hops, [transition k (status_of hops k) HFailed (Some RCircuitBreaker)])"
    have "log_step (hops, []) ?st"
      using log_step_update [of hops k "status_of hops k" "[]" ?s] by simp
    moreover have "cascadeSkips defn (buildDownstreamIndex defn) ts k ?st = Inr st"
      using r True by (simp add: reject_hop_def Let_def)
    then have "log_step ?st st" using cascade_each_basic by (cases st) (fastforce simp: cascadeSkips_def)
    ultimately show ?thesis by (rule log_step_trans)
  next
    case False
    with r show ?thesis
      by (auto simp: reject_hop_def Let_def resetPredecessorHops_def intro: resetAll_log reset_each_log
          split: option.splits rejection_strategy.splits)
  qed
qed

text \<open>
  Fact: the change log of \<open>evaluateDAG\<close> is exact. Each transition's \<open>from\<close> is the status the hop had
  at that point, and replaying the transitions on the old statuses gives the statuses of the
  returned state; this covers every event, rejections and cascades included.
\<close>

theorem evaluateDAG_log_exact:
  assumes "distinct (hop_ids defn)" "evaluateDAG defn state ev t ts = Inr r"
  shows "log_from_ok (status_of (ws_hops state)) (dr_changes r) \<and>
    replay (dr_changes r) (status_of (ws_hops state)) = status_of (ws_hops (dr_state r))"
proof (cases "he_outcome ev = ORejected")
  case True
  then obtain hops ch where "reject_hop defn (ws_hops state) (he_hopId ev) ts = Inr (hops, ch)"
    "dr_changes r = ch" "ws_hops (dr_state r) = hops"
    using assms(2) by (auto simp: evaluateDAG_def evaluate_rejection_def split: sum.splits)
  then show ?thesis using reject_hop_log by (fastforce simp: log_step_def)
next
  case False
  from assms(2) False obtain st3 where
    r: "r = finish_evaluation state ts (fst (foldl mark_ready st3 (determineReadyHops defn (fst st3))))
           (snd (foldl mark_ready st3 (determineReadyHops defn (fst st3)))) (determineReadyHops defn (fst st3))"
    and log: "log_step (ws_hops state, []) st3"
    by (rule evaluateDAG_stages)
  have "log_step st3 (foldl mark_ready st3 (determineReadyHops defn (fst st3)))"
    using assms(1) by (intro mark_ready_log distinct_determineReadyHops)
      (auto simp: in_determineReadyHops hop_is_ready_def)
  from log_step_trans [OF log this] show ?thesis using r by (auto simp: log_step_def)
qed

text \<open>
  Fact: readiness. After a completed, failed or skipped hop, the hops reported as ready are exactly
  those that were pending and are now \<open>ready\<close>, and each of them has its join satisfied: with an
  AND-join every predecessor is complete or skipped, with an OR-join some predecessor is complete.
\<close>

theorem evaluateDAG_ready_sound:
  assumes r: "evaluateDAG defn state ev t ts = Inr r" and normal: "he_outcome ev \<noteq> ORejected"
  shows "(\<forall>k. k \<in> set (dr_readyHops r) \<longleftrightarrow>
      status_of (ws_hops (dr_state r)) k = Some HReady \<and> status_of (ws_hops state) k = Some HPending) \<and>
    (\<forall>k \<in> set (dr_readyHops r). \<exists>h \<in> set (wd_hops defn). h_id h = k \<and> h_dependsOn h \<noteq> [] \<and>
      (case h_joinType h of
         JoinAll \<Rightarrow> \<forall>d \<in> set (h_dependsOn h). status_of (ws_hops (dr_state r)) d \<in> {Some HComplete, Some HSkipped}
       | JoinAny \<Rightarrow> \<exists>d \<in> set (h_dependsOn h). status_of (ws_hops (dr_state r)) d = Some HComplete))"
proof -
  from r normal obtain st3 where
    fin: "r = finish_evaluation state ts (fst (foldl mark_ready st3 (determineReadyHops defn (fst st3))))
           (snd (foldl mark_ready st3 (determineReadyHops defn (fst st3)))) (determineReadyHops defn (fst st3))"
    and skips: "only_skips ts (fst (apply_event (ws_hops state) ev ts)) (fst st3)"
    by (rule evaluateDAG_stages)
  have new: "status_of (ws_hops (dr_state r)) k =
      (if k \<in> set (dr_readyHops r) then Some HReady else status_of (fst st3) k)" for k
    by (simp add: fin mark_ready_status)
  have ready: "k \<in> set (dr_readyHops r) \<longleftrightarrow> (\<exists>h \<in> set (wd_hops defn). h_id h = k \<and> hop_is_ready (fst st3) h)" for k
    by (simp add: fin in_determineReadyHops)
  have pend: "status_of (fst st3) k = Some HPending" if "k \<in> set (dr_readyHops r)" for k
    using that by (auto simp: ready hop_is_ready_def)
  have old: "status_of (fst st3) k = status_of (ws_hops state) k" if "status_of (fst st3) k = Some HPending" for k
    using only_skips_pending [OF skips that] normal by (cases "he_outcome ev") (auto simp: that split: if_splits)
  have not_new: "status_of (ws_hops state) k \<noteq> Some HPending"
    if "status_of (fst st3) k = Some HReady" for k
    using only_skips_status [OF skips, of k] that normal by (cases "he_outcome ev") (auto split: if_splits)
  have "k \<in> set (dr_readyHops r) \<longleftrightarrow>
      status_of (ws_hops (dr_state r)) k = Some HReady \<and> status_of (ws_hops state) k = Some HPending" for k
    using new [of k] pend [of k] old [of k] not_new [of k] by (auto split: if_splits)
  moreover have "\<exists>h \<in> set (wd_hops defn). h_id h = k \<and> h_dependsOn h \<noteq> [] \<and>
      (case h_joinType h of
         JoinAll \<Rightarrow> \<forall>d \<in> set (h_dependsOn h). status_of (ws_hops (dr_state r)) d \<in> {Some HComplete, Some HSkipped}
       | JoinAny \<Rightarrow> \<exists>d \<in> set (h_dependsOn h). status_of (ws_hops (dr_state r)) d = Some HComplete)"
    if k: "k \<in> set (dr_readyHops r)" for k
  proof -
    from k obtain h where h: "h \<in> set (wd_hops defn)" "h_id h = k" "hop_is_ready (fst st3) h"
      by (auto simp: ready)
    have same: "status_of (ws_hops (dr_state r)) d = status_of (fst st3) d"
      if "status_of (fst st3) d \<noteq> Some HPending" for d
      using new [of d] pend [of d] that by auto
    have "case h_joinType h of
         JoinAll \<Rightarrow> \<forall>d \<in> set (h_dependsOn h). status_of (ws_hops (dr_state r)) d \<in> {Some HComplete, Some HSkipped}
       | JoinAny \<Rightarrow> \<exists>d \<in> set (h_dependsOn h). status_of (ws_hops (dr_state r)) d = Some HComplete"
    proof (cases "h_joinType h")
      case JoinAll
      with h(3) have st3: "status_of (fst st3) d \<in> {Some HComplete, Some HSkipped}" if "d \<in> set (h_dependsOn h)" for d
        using that by (auto simp: hop_is_ready_def list_all_iff)
      have "status_of (ws_hops (dr_state r)) d \<in> {Some HComplete, Some HSkipped}" if "d \<in> set (h_dependsOn h)" for d
        using same [of d] st3 [OF that] by auto
      with JoinAll show ?thesis by simp
    next
      case JoinAny
      with h(3) obtain d where "d \<in> set (h_dependsOn h)" "status_of (fst st3) d = Some HComplete"
        by (auto simp: hop_is_ready_def list_ex_iff)
      then have "\<exists>d \<in> set (h_dependsOn h). status_of (ws_hops (dr_state r)) d = Some HComplete"
        using same [of d] by auto
      with JoinAny show ?thesis by simp
    qed
    moreover have "h_dependsOn h \<noteq> []" using h(3) by (auto simp: hop_is_ready_def)
    ultimately show ?thesis using h by blast
  qed
  ultimately show ?thesis by blast
qed

text \<open>
  Fact: completion. The evaluation reports \<open>complete\<close> exactly when every hop of the new state is
  complete or skipped, \<open>failed\<close> exactly when all are terminal and one has failed, and nothing
  otherwise; the suggested task status and the status of the state follow it.
\<close>

theorem evaluateDAG_completion:
  assumes r: "evaluateDAG defn state ev t ts = Inr r" and keys: "distinct (map fst (ws_hops state))"
  shows "(dr_dagStatus r = Some WComplete \<longleftrightarrow>
           (\<forall>k. status_of (ws_hops (dr_state r)) k \<in> {None, Some HComplete, Some HSkipped})) \<and>
    (dr_dagStatus r = Some WFailed \<longleftrightarrow>
       (\<forall>k. status_of (ws_hops (dr_state r)) k = None \<or> is_terminal_status (status_of (ws_hops (dr_state r)) k)) \<and>
       (\<exists>k. status_of (ws_hops (dr_state r)) k = Some HFailed)) \<and>
    dr_taskStatus r = (case dr_dagStatus r of None \<Rightarrow> None | Some WComplete \<Rightarrow> Some ''done'' | Some _ \<Rightarrow> Some ''failed'') \<and>
    ws_status (dr_state r) = (case dr_dagStatus r of None \<Rightarrow> ws_status state | Some s \<Rightarrow> s)"
proof -
  from r obtain hops ch rh where fin: "r = finish_evaluation state ts hops ch rh"
    by (auto simp: evaluateDAG_def evaluate_rejection_def Let_def split: if_splits sum.splits)
  have "keys_ok hops"
    using evaluateDAG_keys [OF r] keys by (simp add: keys_ok_def fin)
  note cc = completion_cases [OF this]
  have "dr_taskStatus r =
      (case dr_dagStatus r of None \<Rightarrow> None | Some WComplete \<Rightarrow> Some ''done'' | Some _ \<Rightarrow> Some ''failed'')"
    using cc(4) by (auto simp: fin finish_evaluation_def Let_def)
  then show ?thesis unfolding fin finish_evaluation_simps cc(2,3) by simp
qed

subsection \<open>Runs\<close>

text \<open>
  A step of a run: a ready hop is dispatched, or a dispatched hop reports an outcome of \<open>outs\<close> and
  the evaluator computes the next state.
\<close>

inductive dag_step :: "hop_outcome set \<Rightarrow> workflow_definition \<Rightarrow> workflow_state \<Rightarrow> workflow_state \<Rightarrow> bool"
  for outs defn where
  dispatch: "map_of (ws_hops s) k = Some hs \<Longrightarrow> hs_status hs = HReady \<Longrightarrow>
    dag_step outs defn s (s\<lparr>ws_hops := AList.update k (hs\<lparr>hs_status := HDispatched\<rparr>) (ws_hops s)\<rparr>)"
| event: "status_of (ws_hops s) (he_hopId ev) = Some HDispatched \<Longrightarrow> he_outcome ev \<in> outs \<Longrightarrow>
    evaluateDAG defn s ev t ts = Inr r \<Longrightarrow> dag_step outs defn s (dr_state r)"

inductive_cases dag_stepE [consumes 1, case_names dispatch event]: "dag_step outs defn s s'"

definition dag_run :: "hop_outcome set \<Rightarrow> workflow_definition \<Rightarrow> workflow_state \<Rightarrow> bool" where
  "dag_run outs defn s = (dag_step outs defn)\<^sup>*\<^sup>* (initializeWorkflowState defn) s"

lemma initial_status:
  assumes "distinct (hop_ids defn)"
  shows "status_of (ws_hops (initializeWorkflowState defn)) k =
    (case find_hop defn k of None \<Rightarrow> None | Some h \<Rightarrow> Some (if h_dependsOn h = [] then HReady else HPending))"
proof -
  let ?f = "\<lambda>m h. AList.update (h_id h) (hop_state_of (if length (h_dependsOn h) = 0 then HReady else HPending)) m"
  have "distinct (map h_id hs) \<Longrightarrow> status_of (foldl ?f m hs) k =
      (case List.find (\<lambda>h. h_id h = k) hs of None \<Rightarrow> status_of m k
       | Some h \<Rightarrow> Some (if h_dependsOn h = [] then HReady else HPending))" for hs m
  proof (induction hs arbitrary: m)
    case (Cons h hs)
    have "List.find (\<lambda>x. h_id x = k) hs = None" if "h_id h = k"
      using Cons.prems that unfolding find_None_conv by auto (metis imageI)
    with Cons show ?case by (auto simp: hop_state_of_def split: option.splits)
  qed simp
  from this [of "wd_hops defn" "[]"] assms show ?thesis
    by (simp add: initializeWorkflowState_def hop_ids_def find_hop_def split: option.split)
qed

lemma initial_keys: "keys_ok (ws_hops (initializeWorkflowState defn))"
proof -
  have "keys_ok m \<Longrightarrow> keys_ok (foldl (\<lambda>m h. AList.update (h_id h) (f h) m) m hs)" for f m hs
    by (induction hs arbitrary: m) auto
  from this [of "[]"] show ?thesis
    unfolding initializeWorkflowState_def workflow_state.simps by (simp add: keys_ok_def)
qed

lemma evaluateDAG_normal_status:
  assumes "evaluateDAG defn s ev t ts = Inr r" "he_outcome ev \<noteq> ORejected"
  shows "status_of (ws_hops (dr_state r)) k =
      (if k = he_hopId ev then Some (outcome_status (he_outcome ev)) else status_of (ws_hops s) k) \<or>
    k \<noteq> he_hopId ev \<and> status_of (ws_hops s) k = Some HPending \<and>
      status_of (ws_hops (dr_state r)) k \<in> {Some HSkipped, Some HReady}"
proof -
  from assms obtain st3 where
    fin: "r = finish_evaluation s ts (fst (foldl mark_ready st3 (determineReadyHops defn (fst st3))))
           (snd (foldl mark_ready st3 (determineReadyHops defn (fst st3)))) (determineReadyHops defn (fst st3))"
    and skips: "only_skips ts (fst (apply_event (ws_hops s) ev ts)) (fst st3)"
    by (rule evaluateDAG_stages)
  have "status_of (fst st3) k = Some HPending" if "k \<in> set (determineReadyHops defn (fst st3))"
    using that by (auto simp: in_determineReadyHops hop_is_ready_def)
  then show ?thesis
    using only_skips_status [OF skips, of k] assms(2)
    by (cases "he_outcome ev") (auto simp: fin mark_ready_status split: if_splits)
qed

text \<open>What a run without failures and rejections keeps.\<close>

definition run_inv :: "workflow_definition \<Rightarrow> workflow_state \<Rightarrow> bool" where
  "run_inv defn s \<longleftrightarrow>
     keys_ok (ws_hops s) \<and>
     (\<forall>k. status_of (ws_hops s) k = None \<longleftrightarrow> k \<notin> set (hop_ids defn)) \<and>
     (\<forall>k. status_of (ws_hops s) k \<noteq> Some HFailed) \<and>
     (\<forall>h \<in> set (wd_hops defn). h_dependsOn h = [] \<longrightarrow> status_of (ws_hops s) (h_id h) \<noteq> Some HPending) \<and>
     (\<forall>h \<in> set (wd_hops defn). \<not> hop_is_ready (ws_hops s) h)"

lemma hop_is_ready_mark:
  assumes "h \<in> set (wd_hops defn)"
  shows "\<not> hop_is_ready (fst (foldl mark_ready st (determineReadyHops defn (fst st)))) h"
proof
  let ?ids = "determineReadyHops defn (fst st)"
  let ?new = "fst (foldl mark_ready st ?ids)"
  assume ready: "hop_is_ready ?new h"
  then have "h_id h \<notin> set ?ids" by (auto simp: hop_is_ready_def mark_ready_status split: if_splits)
  then have no: "\<not> hop_is_ready (fst st) h" using assms by (auto simp: in_determineReadyHops)
  have "status_of ?new d = Some HComplete \<Longrightarrow> status_of (fst st) d = Some HComplete"
    "status_of ?new d = Some HSkipped \<Longrightarrow> status_of (fst st) d = Some HSkipped"
    "status_of ?new d = Some HPending \<Longrightarrow> status_of (fst st) d = Some HPending" for d
    by (auto simp: mark_ready_status split: if_splits)
  then have "hop_is_ready (fst st) h"
    using ready by (auto simp: hop_is_ready_def list_all_iff list_ex_iff split: join_type.splits)
  with no show False ..
qed

lemma run_inv_initial:
  assumes "distinct (hop_ids defn)"
  shows "run_inv defn (initializeWorkflowState defn)"
proof -
  note st = initial_status [OF assms]
  have none: "status_of (ws_hops (initializeWorkflowState defn)) k \<in> {None, Some HReady, Some HPending}" for k
    by (simp add: st split: option.split)
  have "\<not> hop_is_ready (ws_hops (initializeWorkflowState defn)) h" for h
  proof
    assume "hop_is_ready (ws_hops (initializeWorkflowState defn)) h"
    then obtain d where "status_of (ws_hops (initializeWorkflowState defn)) d \<in> {Some HComplete, Some HSkipped}"
      by (cases "h_dependsOn h") (auto simp: hop_is_ready_def list_ex_iff split: join_type.splits)
    with none [of d] show False by auto
  qed
  moreover have "status_of (ws_hops (initializeWorkflowState defn)) k \<noteq> Some HFailed" for k
    using none [of k] by auto
  moreover have "status_of (ws_hops (initializeWorkflowState defn)) (h_id h) \<noteq> Some HPending"
    if "h \<in> set (wd_hops defn)" "h_dependsOn h = []" for h
    using that assms by (simp add: st find_hop_unique)
  moreover have "status_of (ws_hops (initializeWorkflowState defn)) k = None \<longleftrightarrow> k \<notin> set (hop_ids defn)" for k
    using find_hop_None [of defn k] by (cases "find_hop defn k") (simp_all add: st)
  ultimately show ?thesis by (simp add: run_inv_def initial_keys)
qed

lemma run_inv_step:
  assumes step: "dag_step {OComplete, OSkipped} defn s s'" and inv: "run_inv defn s"
  shows "run_inv defn s'"
  using step
proof (cases rule: dag_stepE)
  case (dispatch k hs)
  let ?new = "AList.update k (hs\<lparr>hs_status := HDispatched\<rparr>) (ws_hops s)"
  have k: "status_of (ws_hops s) k = Some HReady" using dispatch by (simp add: status_of_def)
  have "\<not> hop_is_ready ?new h" if "h \<in> set (wd_hops defn)" for h
  proof
    assume "hop_is_ready ?new h"
    then have "hop_is_ready (ws_hops s) h"
      using k by (auto simp: hop_is_ready_def list_all_iff list_ex_iff split: join_type.splits if_splits)
    with inv that show False by (simp add: run_inv_def)
  qed
  moreover have "k \<in> set (hop_ids defn)" using k inv unfolding run_inv_def by (metis option.distinct(1))
  ultimately show ?thesis using inv k unfolding dispatch(1) by (auto simp: run_inv_def split: if_splits)
next
  case (event ev t ts r)
  then have normal: "he_outcome ev \<noteq> ORejected" by auto
  from event(4) normal obtain st3 where
    fin: "r = finish_evaluation s ts (fst (foldl mark_ready st3 (determineReadyHops defn (fst st3))))
           (snd (foldl mark_ready st3 (determineReadyHops defn (fst st3)))) (determineReadyHops defn (fst st3))"
    by (rule evaluateDAG_stages)
  have notready: "\<not> hop_is_ready (ws_hops (dr_state r)) h" if "h \<in> set (wd_hops defn)" for h
    using hop_is_ready_mark [OF that, of st3] by (simp add: fin)
  note new = evaluateDAG_normal_status [OF event(4) normal]
  have keys: "keys_ok (ws_hops (dr_state r))"
    using evaluateDAG_keys [OF event(4)] inv by (simp add: run_inv_def)
  have "status_of (ws_hops (dr_state r)) k = None \<longleftrightarrow> status_of (ws_hops s) k = None" for k
    using new [of k] event(2) by (auto split: if_splits)
  moreover have "status_of (ws_hops (dr_state r)) k \<noteq> Some HFailed" for k
    using new [of k] inv event(3) by (auto simp: run_inv_def split: if_splits)
  moreover have "status_of (ws_hops (dr_state r)) (h_id h) \<noteq> Some HPending"
    if "h \<in> set (wd_hops defn)" "h_dependsOn h = []" for h
    using new [of "h_id h"] inv that event(3) by (auto simp: run_inv_def split: if_splits)
  ultimately show ?thesis
    using inv notready keys unfolding event(1) by (simp add: run_inv_def)
qed

lemma run_inv_run:
  assumes "distinct (hop_ids defn)" "dag_run {OComplete, OSkipped} defn s"
  shows "run_inv defn s"
  using assms(2) unfolding dag_run_def
  by (induction rule: rtranclp_induct) (auto intro: run_inv_initial [OF assms(1)] run_inv_step)

text \<open>
  C2: no deadlock. In a validated workflow whose joins are all AND-joins, every state a run reaches
  by dispatching ready hops and completing or skipping dispatched ones either has a hop that is
  ready or dispatched, or all its hops are complete or skipped, which the evaluator reports as
  completion.
\<close>

theorem dag_run_progress:
  assumes valid: "validateDAG defn = []"
    and joins: "\<forall>h \<in> set (wd_hops defn). h_joinType h = JoinAll"
    and run: "dag_run {OComplete, OSkipped} defn s"
  shows "(\<exists>k. status_of (ws_hops s) k \<in> {Some HReady, Some HDispatched}) \<or>
    checkDAGCompletion (ws_hops s) = Some WComplete"
proof (rule disjCI)
  assume "checkDAGCompletion (ws_hops s) \<noteq> Some WComplete"
  from valid have wfd: "well_formed_dag defn" by (simp add: validateDAG_spec)
  then have dist: "distinct (hop_ids defn)" by (simp add: well_formed_dag_def)
  from dist run have inv: "run_inv defn s" by (rule run_inv_run)
  let ?st = "status_of (ws_hops s)"
  show "\<exists>k. ?st k \<in> {Some HReady, Some HDispatched}"
  proof (rule ccontr)
    assume none: "\<nexists>k. ?st k \<in> {Some HReady, Some HDispatched}"
    have cases: "?st k \<in> {None, Some HPending, Some HComplete, Some HSkipped}" for k
    proof (cases "?st k")
      case (Some x)
      then show ?thesis using none inv by (cases x) (auto simp: run_inv_def)
    qed simp
    from \<open>checkDAGCompletion (ws_hops s) \<noteq> Some WComplete\<close> obtain p where "?st p = Some HPending"
      using completion_cases(2) [of "ws_hops s"] cases inv unfolding run_inv_def by blast
    have deps: "h \<in> set (wd_hops defn) \<Longrightarrow> set (h_dependsOn h) \<subseteq> set (hop_ids defn)" for h
      using wfd by (simp add: well_formed_dag_def well_formed_hop_def)
    have "dep_edges defn \<subseteq> set (hop_ids defn) \<times> set (hop_ids defn)"
      using deps by (fastforce simp: dep_edges_def hop_ids_def)
    then have "finite (dep_edges defn)" by (meson List.finite_set finite_SigmaI finite_subset)
    then have "wf (dep_edges defn)" using wfd by (simp add: well_formed_dag_def finite_acyclic_wf)
    then obtain m where m: "?st m = Some HPending" "\<And>d. (d, m) \<in> dep_edges defn \<Longrightarrow> ?st d \<noteq> Some HPending"
      using \<open>?st p = Some HPending\<close> wfE_min [of "dep_edges defn" p "{k. ?st k = Some HPending}"] by auto
    then have "m \<in> set (hop_ids defn)" using inv by (force simp: run_inv_def)
    then obtain h where h: "h \<in> set (wd_hops defn)" "h_id h = m" by (auto simp: hop_ids_def)
    have "?st d \<in> {Some HComplete, Some HSkipped}" if "d \<in> set (h_dependsOn h)" for d
    proof -
      have "(d, m) \<in> dep_edges defn" using h that by (auto simp: dep_edges_def)
      with m(2) have "?st d \<noteq> Some HPending" by blast
      moreover have "?st d \<noteq> None" using deps [OF h(1)] that inv by (auto simp: run_inv_def)
      ultimately show ?thesis using cases [of d] by auto
    qed
    moreover have "h_dependsOn h \<noteq> []" using inv h m(1) by (auto simp: run_inv_def)
    ultimately have "hop_is_ready (ws_hops s) h"
      using h m(1) joins by (auto simp: hop_is_ready_def list_all_iff)
    with inv h show False by (simp add: run_inv_def)
  qed
qed

subsection \<open>A join with a failed and a completed predecessor\<close>

definition mixed_join :: "workflow_definition \<Rightarrow> workflow_state \<Rightarrow> hop \<Rightarrow> bool" where
  "mixed_join defn s h \<longleftrightarrow>
     distinct (hop_ids defn) \<and> distinct (map fst (ws_hops s)) \<and> h \<in> set (wd_hops defn) \<and>
     h_joinType h = JoinAll \<and> h_condition h = None \<and>
     status_of (ws_hops s) (h_id h) = Some HPending \<and>
     (\<exists>d \<in> set (h_dependsOn h). status_of (ws_hops s) d = Some HComplete) \<and>
     (\<exists>d \<in> set (h_dependsOn h). status_of (ws_hops s) d = Some HFailed)"

lemma evaluate_conditions_none:
  assumes "\<And>g. g \<in> set (wd_hops defn) \<Longrightarrow> h_id g = k \<Longrightarrow> h_condition g = None"
  shows "status_of (fst (evaluateNewlyEligibleConditions defn cc t ts st)) k = status_of (fst st) k"
proof -
  have "set hs \<subseteq> set (wd_hops defn) \<Longrightarrow>
      status_of (fst (foldl (evaluate_hop_condition cc t ts) st hs)) k = status_of (fst st) k" for hs
  proof (induction hs arbitrary: st)
    case (Cons g hs)
    have "status_of (fst (evaluate_hop_condition cc t ts st g)) k = status_of (fst st) k"
    proof (cases "h_id g = k")
      case True
      with assms [of g] Cons.prems show ?thesis
        by (auto simp: evaluate_hop_condition_def Let_def split: prod.split option.split)
    next
      case False
      then show ?thesis
        by (auto simp: evaluate_hop_condition_def Let_def split: prod.split option.split)
    qed
    with Cons show ?case by simp
  qed simp
  then show ?thesis by (simp add: evaluateNewlyEligibleConditions_def)
qed

lemma mixed_join_step:
  assumes step: "dag_step {OComplete, OFailed, OSkipped} defn s s'" and mixed: "mixed_join defn s h"
  shows "mixed_join defn s' h"
proof -
  from mixed obtain d1 d2 where d: "d1 \<in> set (h_dependsOn h)" "status_of (ws_hops s) d1 = Some HComplete"
    "d2 \<in> set (h_dependsOn h)" "status_of (ws_hops s) d2 = Some HFailed"
    by (auto simp: mixed_join_def)
  from mixed have dist: "distinct (hop_ids defn)" and h: "h \<in> set (wd_hops defn)" "h_joinType h = JoinAll"
    "h_condition h = None" "status_of (ws_hops s) (h_id h) = Some HPending" and keys: "keys_ok (ws_hops s)"
    by (simp_all add: mixed_join_def keys_ok_def)
  from step show ?thesis
  proof (cases rule: dag_stepE)
    case (dispatch k hs)
    then have "status_of (ws_hops s) k = Some HReady" by (simp add: status_of_def)
    then have "d1 \<noteq> k" "d2 \<noteq> k" "h_id h \<noteq> k" using d h(4) by auto
    then show ?thesis
      using mixed d unfolding mixed_join_def dispatch(1)
      by (intro conjI bexI [of _ d1] bexI [of _ d2]) (simp_all add: distinct_update)
  next
    case (event ev t ts r)
    then have normal: "he_outcome ev \<noteq> ORejected" by auto
    note new = evaluateDAG_normal_status [OF event(4) normal]
    have "status_of (ws_hops (dr_state r)) d1 = Some HComplete" "status_of (ws_hops (dr_state r)) d2 = Some HFailed"
      using new [of d1] new [of d2] d event(2) by (auto split: if_splits)
    note deps = this
    from event(4) normal obtain st2 st3 where
      st2: "if he_outcome ev = OComplete then st2 = apply_event (ws_hops s) ev ts
        else cascadeSkips defn (buildDownstreamIndex defn) ts (he_hopId ev) (apply_event (ws_hops s) ev ts) = Inr st2"
      and st3: "st3 = evaluateNewlyEligibleConditions defn (buildConditionContext (s\<lparr>ws_hops := fst st2\<rparr>) t) t ts st2"
      and fin: "r = finish_evaluation s ts (fst (foldl mark_ready st3 (determineReadyHops defn (fst st3))))
           (snd (foldl mark_ready st3 (determineReadyHops defn (fst st3)))) (determineReadyHops defn (fst st3))"
      by (rule evaluateDAG_stages)
    have "h_id h \<noteq> he_hopId ev" using h(4) event(2) by auto
    then have p1: "status_of (fst (apply_event (ws_hops s) ev ts)) (h_id h) = Some HPending"
      using h(4) by simp
    have "status_of (fst st2) (h_id h) = Some HPending"
    proof (cases "he_outcome ev = OComplete")
      case False
      have "\<not> doomed defn (fst (apply_event (ws_hops s) ev ts)) (he_hopId ev) (h_id h)"
      proof
        assume "doomed defn (fst (apply_event (ws_hops s) ev ts)) (he_hopId ev) (h_id h)"
        then show False
        proof (cases rule: doomed.cases)
          case (doomedI g x)
          then have "g = h" using find_hop_unique [OF dist h(1)] by simp
          with doomedI(5) [of d1] d have "doomed defn (fst (apply_event (ws_hops s) ev ts)) (he_hopId ev) d1"
            using event(2) by (auto split: if_splits)
          then show False using d(2) event(2) normal
            by (cases rule: doomed.cases) (cases "he_outcome ev"; auto split: if_splits)
        qed
      qed
      moreover have "status_of (fst (apply_event (ws_hops s) ev ts)) (he_hopId ev) \<in> {Some HSkipped, Some HFailed}"
        using False normal by (cases "he_outcome ev") simp_all
      ultimately show ?thesis
        using cascadeSkips_spec [OF dist, of "fst (apply_event (ws_hops s) ev ts)" "he_hopId ev" ts
            "snd (apply_event (ws_hops s) ev ts)"] False st2 p1 by auto
    qed (use st2 p1 in simp)
    then have p3: "status_of (fst st3) (h_id h) = Some HPending"
      unfolding st3 using evaluate_conditions_none h dist find_hop_unique
      by (metis option.inject)
    have "h_id h \<notin> set (determineReadyHops defn (fst st3))"
    proof
      assume "h_id h \<in> set (determineReadyHops defn (fst st3))"
      then obtain g where "g \<in> set (wd_hops defn)" "h_id g = h_id h" "hop_is_ready (fst st3) g"
        by (auto simp: in_determineReadyHops)
      then have "hop_is_ready (fst st3) h" using find_hop_unique [OF dist] h(1) by (metis option.inject)
      then have "status_of (fst st3) d2 \<in> {Some HComplete, Some HSkipped}"
        using h(2) d(3) by (auto simp: hop_is_ready_def list_all_iff)
      with deps(2) show False by (auto simp: fin mark_ready_status split: if_splits)
    qed
    then have "status_of (ws_hops (dr_state r)) (h_id h) = Some HPending"
      using p3 by (simp add: fin mark_ready_status)
    moreover have "keys_ok (ws_hops (dr_state r))" using evaluateDAG_keys [OF event(4) keys] .
    ultimately show ?thesis
      unfolding event(1) mixed_join_def using dist h d deps by (auto simp: keys_ok_def)
  qed
qed

text \<open>
  Fact: a hop with an AND-join, no condition, one completed and one failed predecessor is never
  resolved: whatever the other hops report (short of a rejection), it stays pending and the
  workflow never reaches \<open>complete\<close> or \<open>failed\<close>. The evaluator's cascade and its ready rule leave
  this case uncovered.
\<close>

theorem mixed_join_stuck:
  assumes "mixed_join defn s h" "(dag_step {OComplete, OFailed, OSkipped} defn)\<^sup>*\<^sup>* s s'"
  shows "status_of (ws_hops s') (h_id h) = Some HPending \<and> checkDAGCompletion (ws_hops s') = None"
proof -
  from assms(2,1) have "mixed_join defn s' h"
    by (induction rule: rtranclp_induct) (auto intro: mixed_join_step)
  then have p: "status_of (ws_hops s') (h_id h) = Some HPending" and k: "keys_ok (ws_hops s')"
    by (simp_all add: mixed_join_def keys_ok_def)
  have "\<not> is_terminal_status (status_of (ws_hops s') (h_id h))" using p by (simp add: is_terminal_status_def)
  with p show ?thesis unfolding completion_cases(1) [OF k] by (metis option.distinct(1))
qed

subsection \<open>Rejection\<close>

lemma resetAll_spec:
  assumes "\<forall>g \<in> set hs. map_of (fst st) (h_id g) \<noteq> None" "distinct (map h_id hs)"
  shows "\<exists>st'. resetAllHopsForOrigin hs k n st = Inr st' \<and>
    (\<forall>g \<in> set hs. map_of (fst st') (h_id g) =
       Some (reset_status (if h_id g = k then Some n else None) (if h_dependsOn g = [] then HReady else HPending))) \<and>
    (\<forall>i. i \<notin> h_id ` set hs \<longrightarrow> map_of (fst st') i = map_of (fst st) i)"
  using assms
proof (induction hs k n st rule: resetAllHopsForOrigin.induct)
  case (2 h hs k n hops ch)
  then obtain prev where prev: "map_of hops (h_id h) = Some prev" by auto
  let ?new = "if length (h_dependsOn h) = 0 then HReady else HPending"
  let ?s = "reset_status (if h_id h = k then Some n else None) ?new"
  let ?ch = "if hs_status prev \<noteq> ?new \<or> h_id h = k
    then ch @ [transition (h_id h) (Some (hs_status prev)) ?new (Some ROriginCascade)] else ch"
  let ?st = "(AList.update (h_id h) ?s hops, ?ch)"
  have "\<forall>g \<in> set hs. map_of (fst ?st) (h_id g) \<noteq> None" "distinct (map h_id hs)" using 2(2,3) by auto
  from 2(1) [OF prev refl refl refl this] obtain st' where
    st': "resetAllHopsForOrigin hs k n ?st = Inr st'"
    "\<forall>g \<in> set hs. map_of (fst st') (h_id g) =
       Some (reset_status (if h_id g = k then Some n else None) (if h_dependsOn g = [] then HReady else HPending))"
    "\<forall>i. i \<notin> h_id ` set hs \<longrightarrow> map_of (fst st') i = map_of (fst ?st) i" by blast
  have "resetAllHopsForOrigin (h # hs) k n (hops, ch) = Inr st'"
    unfolding resetAllHopsForOrigin.simps(2) prev option.case Let_def by (rule st'(1))
  moreover have "map_of (fst st') (h_id h) = Some ?s" using st'(3) 2(3) by simp
  ultimately show ?case using st'(2,3) by (intro exI [of _ st']) simp
qed simp

lemma evaluate_rejected:
  assumes "he_outcome ev = ORejected" "reject_hop defn (ws_hops s) (he_hopId ev) ts = Inr (hops, ch)"
  shows "evaluateDAG defn s ev t ts =
    Inr (finish_evaluation s ts hops ch (add_reset_ready defn hops (determineReadyHops defn hops)))"
  using assms by (simp add: evaluateDAG_def evaluate_rejection_def)

lemma set_add_reset_ready:
  "set (add_reset_ready defn hops rh) =
     set rh \<union> {h_id h | h. h \<in> set (wd_hops defn) \<and> status_of hops (h_id h) = Some HReady}"
proof -
  let ?f = "\<lambda>r h. if status_of hops (h_id h) = Some HReady \<and> h_id h \<notin> set r then r @ [h_id h] else r"
  have "set (foldl ?f rh hs) = set rh \<union> {h_id h | h. h \<in> set hs \<and> status_of hops (h_id h) = Some HReady}" for hs
  proof (induction hs arbitrary: rh)
    case (Cons h hs)
    show ?case unfolding foldl.simps Cons.IH by auto
  qed simp
  then show ?thesis by (simp add: add_reset_ready_def)
qed

text \<open>
  Fact: a rejection below the limit restarts a workflow with the origin strategy. It never fails with
  a \<open>TypeError\<close>, every hop is reset (roots to ready, the others to pending, results, agents and
  times cleared), the rejected hop carries the increased count, every other hop loses its own
  count, and the hops reported as ready are the roots.
\<close>

theorem rejection_restarts:
  assumes wfd: "well_formed_dag defn"
    and state: "\<forall>g \<in> set (wd_hops defn). map_of (ws_hops s) (h_id g) \<noteq> None"
    and ev: "he_outcome ev = ORejected" "h \<in> set (wd_hops defn)" "he_hopId ev = h_id h"
    and origin: "h_rejectionStrategy h \<noteq> Some Predecessors"
    and below: "rejection_count (ws_hops s) (h_id h) + 1 < 3"
  shows "\<exists>r. evaluateDAG defn s ev t ts = Inr r \<and>
    (\<forall>g \<in> set (wd_hops defn). map_of (ws_hops (dr_state r)) (h_id g) =
       Some ((hop_state_of (if h_dependsOn g = [] then HReady else HPending))
         \<lparr>hs_rejectionCount := if g = h then Some (rejection_count (ws_hops s) (h_id h) + 1) else None\<rparr>)) \<and>
    set (dr_readyHops r) = {h_id g | g. g \<in> set (wd_hops defn) \<and> h_dependsOn g = []}"
proof -
  let ?n = "rejection_count (ws_hops s) (h_id h) + 1"
  from wfd have dist: "distinct (hop_ids defn)" by (simp add: well_formed_dag_def)
  from state dist obtain st where st: "resetAllHopsForOrigin (wd_hops defn) (h_id h) ?n (ws_hops s, []) = Inr st"
    "\<And>g. g \<in> set (wd_hops defn) \<Longrightarrow> map_of (fst st) (h_id g) =
       Some (reset_status (if h_id g = h_id h then Some ?n else None) (if h_dependsOn g = [] then HReady else HPending))"
    using resetAll_spec [of "wd_hops defn" "(ws_hops s, [])" "h_id h" ?n] by (auto simp: hop_ids_def)
  obtain hops ch where hc: "st = (hops, ch)" by (cases st)
  have "reject_hop defn (ws_hops s) (he_hopId ev) ts = Inr (hops, ch)"
  proof -
    have "\<not> rejection_count (ws_hops s) (h_id h) + 1 \<ge> DEFAULT_MAX_REJECTIONS"
      using below by (simp add: DEFAULT_MAX_REJECTIONS_def)
    then show ?thesis
      unfolding reject_hop_def Let_def ev(3) find_hop_unique [OF dist ev(2)] option.case hc [symmetric]
      using origin st(1) by (cases "h_rejectionStrategy h"; cases "the (h_rejectionStrategy h)") simp_all
  qed
  note eval = evaluate_rejected [OF ev(1) this, of t]
  have same: "h_id g = h_id h \<longleftrightarrow> g = h" if "g \<in> set (wd_hops defn)" for g
    using find_hop_unique [OF dist that] find_hop_unique [OF dist ev(2)] by (metis option.inject)
  have status: "status_of hops (h_id g) = Some (if h_dependsOn g = [] then HReady else HPending)"
    if "g \<in> set (wd_hops defn)" for g
    using st(2) [OF that] by (simp add: hc status_of_def)
  have "\<not> hop_is_ready hops g" if g: "g \<in> set (wd_hops defn)" for g
  proof
    assume r: "hop_is_ready hops g"
    then obtain d where d: "d \<in> set (h_dependsOn g)" "status_of hops d \<in> {Some HComplete, Some HSkipped}"
      by (cases "h_dependsOn g") (auto simp: hop_is_ready_def list_ex_iff split: join_type.splits)
    then have "d \<in> set (hop_ids defn)"
      using wfd g unfolding well_formed_dag_def well_formed_hop_def by blast
    then obtain g' where "g' \<in> set (wd_hops defn)" "h_id g' = d" by (auto simp: hop_ids_def)
    with d(2) status [of g'] show False by (auto split: if_splits)
  qed
  then have "determineReadyHops defn hops = []"
    by (simp add: determineReadyHops_def filter_empty_conv)
  then have "set (add_reset_ready defn hops (determineReadyHops defn hops)) =
      {h_id g | g. g \<in> set (wd_hops defn) \<and> h_dependsOn g = []}"
    using status by (auto simp: set_add_reset_ready split: if_splits)
  moreover have "map_of hops (h_id g) =
       Some ((hop_state_of (if h_dependsOn g = [] then HReady else HPending))
         \<lparr>hs_rejectionCount := if g = h then Some ?n else None\<rparr>)" if "g \<in> set (wd_hops defn)" for g
    using st(2) [OF that] same [OF that] by (simp add: hc reset_status_def)
  ultimately show ?thesis unfolding eval by simp
qed

text \<open>
  Fact: the circuit breaker. The third rejection of a hop fails it for good and records the count;
  the hops that depend on it are skipped as far as they have no other live predecessor, and no
  other hop changes.
\<close>

theorem rejection_circuit_breaker:
  assumes dist: "distinct (hop_ids defn)"
    and ev: "he_outcome ev = ORejected" "he_hopId ev = k"
    and limit: "rejection_count (ws_hops s) k + 1 = 3"
  shows "\<exists>r hs. evaluateDAG defn s ev t ts = Inr r \<and>
    map_of (ws_hops (dr_state r)) k = Some hs \<and> hs_status hs = HFailed \<and> hs_rejectionCount hs = Some 3 \<and>
    (\<forall>v. v \<noteq> k \<longrightarrow> status_of (ws_hops (dr_state r)) v =
       (if doomed defn (AList.update k (hop_state_of HFailed) (ws_hops s)) k v
        then Some HSkipped else status_of (ws_hops s) v))"
proof -
  let ?s = "(hop_state_or_empty (ws_hops s) k HFailed)\<lparr>hs_completedAt := Some ts, hs_rejectionCount := Some 3\<rparr>"
  let ?hops = "AList.update k ?s (ws_hops s)"
  let ?ch = "[transition k (status_of (ws_hops s) k) HFailed (Some RCircuitBreaker)]"
  have "status_of ?hops k \<in> {Some HSkipped, Some HFailed}" by simp
  from cascadeSkips_spec [OF dist this, of ts ?ch] obtain hops' ch' where
    c: "cascadeSkips defn (buildDownstreamIndex defn) ts k (?hops, ?ch) = Inr (hops', ch')"
    and st: "\<And>v. status_of hops' v = (if doomed defn ?hops k v then Some HSkipped else status_of ?hops v)"
    by blast
  have "reject_hop defn (ws_hops s) (he_hopId ev) ts = Inr (hops', ch')"
    unfolding reject_hop_def Let_def ev(2) limit using c by (simp add: DEFAULT_MAX_REJECTIONS_def)
  note eval = evaluate_rejected [OF ev(1) this, of t]
  have cong: "doomed defn ?hops k v = doomed defn (AList.update k (hop_state_of HFailed) (ws_hops s)) k v" for v
    by (rule doomed_cong) (simp add: hop_state_of_def)
  have "map_of hops' k = Some ?s"
  proof -
    have "only_skips ts ?hops hops'" using c cascade_each_basic by (fastforce simp: cascadeSkips_def)
    then show ?thesis unfolding only_skips_def by (auto dest: spec [of _ k])
  qed
  then show ?thesis unfolding eval by (simp add: st cong)
qed

subsection \<open>Concrete workflows\<close>

text \<open>Two roots joined by \<open>c\<close>; \<open>review\<close> after \<open>build\<close>.\<close>

definition plain_hop :: "string \<Rightarrow> string list \<Rightarrow> hop" where
  "plain_hop i deps =
     \<lparr>h_id = i, h_role = ''dev'', h_dependsOn = deps, h_joinType = JoinAll, h_autoAdvance = True,
      h_condition = None, h_description = None, h_canReject = True, h_rejectionStrategy = None,
      h_timeout = None, h_escalateTo = None\<rparr>"

definition join_workflow :: workflow_definition where
  "join_workflow = \<lparr>wd_name = ''join'', wd_hops = [plain_hop ''a'' [], plain_hop ''b'' [], plain_hop ''c'' [''a'', ''b'']]\<rparr>"

definition review_workflow :: workflow_definition where
  "review_workflow = \<lparr>wd_name = ''review'', wd_hops = [plain_hop ''build'' [], plain_hop ''review'' [''build'']]\<rparr>"

definition no_meta :: cond_task where
  "no_meta = \<lparr>ct_status = ''in-progress'', ct_tags = [], ct_priority = ''normal'', ct_routing = []\<rparr>"

definition join_state :: "hop_status \<Rightarrow> hop_status \<Rightarrow> hop_status \<Rightarrow> workflow_state" where
  "join_state a b c =
     \<lparr>ws_status = WRunning, ws_hops = [(''a'', hop_state_of a), (''b'', hop_state_of b), (''c'', hop_state_of c)],
      ws_startedAt = None, ws_completedAt = None\<rparr>"

lemmas example_defs = plain_hop_def join_workflow_def review_workflow_def no_meta_def join_state_def
  hop_state_of_def hop_ids_def status_of_def

theorem cascadeSkips_exact_witness:
  "\<exists>hops' ch'. cascadeSkips join_workflow (buildDownstreamIndex join_workflow) 7 ''a''
      (ws_hops (join_state HFailed HDispatched HPending), []) = Inr (hops', ch') \<and>
    (\<forall>v. status_of hops' v = (if doomed join_workflow (ws_hops (join_state HFailed HDispatched HPending)) ''a'' v
       then Some HSkipped else status_of (ws_hops (join_state HFailed HDispatched HPending)) v))"
  by (rule cascadeSkips_exact) (simp_all add: example_defs)

definition done_event :: "string \<Rightarrow> hop_event" where
  "done_event k = \<lparr>he_hopId = k, he_outcome = OComplete, he_result = None\<rparr>"

definition reject_event :: "string \<Rightarrow> hop_event" where
  "reject_event k = \<lparr>he_hopId = k, he_outcome = ORejected, he_result = None\<rparr>"

definition both_done :: "dag_eval_error + dag_result" where
  "both_done = evaluateDAG join_workflow (join_state HComplete HDispatched HPending) (done_event ''b'') no_meta 7"

lemma both_done_ok: "evaluateDAG join_workflow (join_state HComplete HDispatched HPending) (done_event ''b'') no_meta 7
    = Inr (projr both_done)"
  by code_simp

lemma join_workflow_distinct: "distinct (hop_ids join_workflow)"
  by code_simp

theorem evaluateDAG_log_exact_witness:
  "log_from_ok (status_of (ws_hops (join_state HComplete HDispatched HPending))) (dr_changes (projr both_done)) \<and>
   replay (dr_changes (projr both_done)) (status_of (ws_hops (join_state HComplete HDispatched HPending)))
     = status_of (ws_hops (dr_state (projr both_done)))"
  by (rule evaluateDAG_log_exact [OF join_workflow_distinct both_done_ok])

theorem evaluateDAG_ready_sound_witness:
  "status_of (ws_hops (dr_state (projr both_done))) ''c'' = Some HReady \<and> ''c'' \<in> set (dr_readyHops (projr both_done))"
proof -
  have "''c'' \<in> set (dr_readyHops (projr both_done))" by code_simp
  moreover have "he_outcome (done_event ''b'') \<noteq> ORejected" by code_simp
  ultimately show ?thesis using evaluateDAG_ready_sound [OF both_done_ok] by blast
qed

theorem evaluateDAG_completion_witness:
  "dr_dagStatus (projr both_done) \<noteq> Some WComplete \<and>
   (\<exists>k. status_of (ws_hops (dr_state (projr both_done))) k \<notin> {None, Some HComplete, Some HSkipped})"
proof -
  have "distinct (map fst (ws_hops (join_state HComplete HDispatched HPending)))" by code_simp
  note c = evaluateDAG_completion [OF both_done_ok this]
  have "dr_dagStatus (projr both_done) \<noteq> Some WComplete" by code_simp
  with c show ?thesis by blast
qed

theorem dag_run_progress_witness:
  "(\<exists>k. status_of (ws_hops (initializeWorkflowState join_workflow)) k \<in> {Some HReady, Some HDispatched}) \<or>
    checkDAGCompletion (ws_hops (initializeWorkflowState join_workflow)) = Some WComplete"
proof (rule dag_run_progress)
  show "validateDAG join_workflow = []" by code_simp
  show "\<forall>h \<in> set (wd_hops join_workflow). h_joinType h = JoinAll"
    by (simp add: join_workflow_def plain_hop_def)
  show "dag_run {OComplete, OSkipped} join_workflow (initializeWorkflowState join_workflow)"
    by (simp add: dag_run_def)
qed

text \<open>The stuck state is reached from the start: both roots are dispatched, one completes, one fails.\<close>

definition stuck_result :: dag_result where
  "stuck_result = projr (evaluateDAG join_workflow (join_state HComplete HDispatched HPending)
     \<lparr>he_hopId = ''b'', he_outcome = OFailed, he_result = None\<rparr> no_meta 7)"

lemma stuck_result_ok:
  "evaluateDAG join_workflow (join_state HComplete HDispatched HPending)
     \<lparr>he_hopId = ''b'', he_outcome = OFailed, he_result = None\<rparr> no_meta 7 = Inr stuck_result"
  by code_simp

theorem mixed_join_stuck_witness:
  "dag_step {OComplete, OFailed, OSkipped} join_workflow (join_state HComplete HDispatched HPending) (dr_state stuck_result) \<and>
   dr_readyHops stuck_result = [] \<and>
   status_of (ws_hops (dr_state stuck_result)) (h_id (plain_hop ''c'' [''a'', ''b''])) = Some HPending \<and>
   checkDAGCompletion (ws_hops (dr_state stuck_result)) = None"
proof (intro conjI)
  show "dag_step {OComplete, OFailed, OSkipped} join_workflow (join_state HComplete HDispatched HPending) (dr_state stuck_result)"
    by (rule dag_step.event [OF _ _ stuck_result_ok]) (simp_all add: example_defs)
  show "dr_readyHops stuck_result = []" by code_simp
  have "status_of (ws_hops (dr_state stuck_result)) ''a'' = Some HComplete"
    "status_of (ws_hops (dr_state stuck_result)) ''b'' = Some HFailed"
    "status_of (ws_hops (dr_state stuck_result)) ''c'' = Some HPending"
    "distinct (map fst (ws_hops (dr_state stuck_result)))" by code_simp+
  then have "mixed_join join_workflow (dr_state stuck_result) (plain_hop ''c'' [''a'', ''b''])"
    using join_workflow_distinct unfolding mixed_join_def by (simp add: plain_hop_def join_workflow_def)
  from mixed_join_stuck [OF this rtranclp.rtrancl_refl]
  show "status_of (ws_hops (dr_state stuck_result)) (h_id (plain_hop ''c'' [''a'', ''b''])) = Some HPending"
    and "checkDAGCompletion (ws_hops (dr_state stuck_result)) = None" by simp_all
qed

definition review_state :: "nat option \<Rightarrow> workflow_state" where
  "review_state n =
     \<lparr>ws_status = WRunning,
      ws_hops = [(''build'', hop_state_of HComplete),
                 (''review'', (hop_state_of HDispatched)\<lparr>hs_rejectionCount := n\<rparr>)],
      ws_startedAt = None, ws_completedAt = None\<rparr>"

theorem rejection_restarts_witness:
  "\<exists>r. evaluateDAG review_workflow (review_state (Some 1)) (reject_event ''review'') no_meta 7 = Inr r \<and>
    map_of (ws_hops (dr_state r)) ''build'' = Some (hop_state_of HReady) \<and>
    map_of (ws_hops (dr_state r)) ''review'' = Some ((hop_state_of HPending)\<lparr>hs_rejectionCount := Some 2\<rparr>)"
proof -
  have "validateDAG review_workflow = []" by code_simp
  then have "well_formed_dag review_workflow" by (simp add: validateDAG_spec)
  note r = rejection_restarts [OF this, of "review_state (Some 1)" "reject_event ''review''" "plain_hop ''review'' [''build'']"]
  have hops: "wd_hops review_workflow = [plain_hop ''build'' [], plain_hop ''review'' [''build'']]"
    by (simp add: review_workflow_def)
  have "\<exists>r. evaluateDAG review_workflow (review_state (Some 1)) (reject_event ''review'') no_meta 7 = Inr r \<and>
    (\<forall>g \<in> set (wd_hops review_workflow). map_of (ws_hops (dr_state r)) (h_id g) =
       Some ((hop_state_of (if h_dependsOn g = [] then HReady else HPending))
         \<lparr>hs_rejectionCount := if g = plain_hop ''review'' [''build'']
            then Some (rejection_count (ws_hops (review_state (Some 1))) (h_id (plain_hop ''review'' [''build''])) + 1) else None\<rparr>)) \<and>
    set (dr_readyHops r) = {h_id g | g. g \<in> set (wd_hops review_workflow) \<and> h_dependsOn g = []}"
    by (rule r) (simp_all add: hops plain_hop_def review_state_def reject_event_def rejection_count_def hop_state_of_def)
  then show ?thesis
    by (auto simp: hops plain_hop_def review_state_def rejection_count_def hop_state_of_def)
qed

theorem rejection_circuit_breaker_witness:
  "\<exists>r hs. evaluateDAG review_workflow (review_state (Some 2)) (reject_event ''review'') no_meta 7 = Inr r \<and>
    map_of (ws_hops (dr_state r)) ''review'' = Some hs \<and> hs_status hs = HFailed \<and> hs_rejectionCount hs = Some 3 \<and>
    (\<forall>v. v \<noteq> ''review'' \<longrightarrow> status_of (ws_hops (dr_state r)) v =
       (if doomed review_workflow (AList.update ''review'' (hop_state_of HFailed) (ws_hops (review_state (Some 2)))) ''review'' v
        then Some HSkipped else status_of (ws_hops (review_state (Some 2))) v))"
  by (rule rejection_circuit_breaker)
    (simp_all add: review_workflow_def plain_hop_def review_state_def reject_event_def rejection_count_def hop_state_of_def hop_ids_def)

end
