(* ===== verification/TaskSchema.thy ===== *)
theory TaskSchema
  imports WorkflowDag
begin

section \<open>Tasks (schemas/task.ts)\<close>

text \<open>
  The Zod objects of a task as records, with every field of the source, and the status machine
  \<open>VALID_TRANSITIONS\<close>. Shown here: which statuses can be reached from which by any number of
  transitions, in particular that \<open>done\<close> and \<open>cancelled\<close> are final, that a task can be finished
  from everywhere but \<open>cancelled\<close>, and that nothing returns to \<open>backlog\<close>.
\<close>

datatype task_status =
    Backlog | Ready | InProgress | Blocked | Review | Done | Cancelled | Deadletter

datatype task_priority = PCritical | PHigh | PNormal | PLow

datatype gate_outcome = GComplete | GNeedsReview | GBlocked

record gate_history_entry =
  gh_gate :: string
  gh_role :: string
  gh_agent :: "string option"
  gh_entered :: int
  gh_exited :: "int option"
  gh_outcome :: "gate_outcome option"
  gh_summary :: "string option"
  gh_blockers :: "string list"
  gh_rejectionNotes :: "string option"
  gh_duration :: "nat option"

record review_context =
  rc_fromGate :: string
  rc_fromAgent :: "string option"
  rc_fromRole :: string
  rc_timestamp :: int
  rc_blockers :: "string list"
  rc_notes :: "string option"

record test_spec =
  ts_given :: string
  ts_when :: string
  ts_thenStatus :: "int option"
  ts_thenBodyContains :: "string list option"

record task_lease =
  tl_agent :: string
  tl_acquiredAt :: int
  tl_expiresAt :: int
  tl_renewCount :: nat

record gate_state =
  gs_current :: string
  gs_entered :: int

record task_routing =
  rt_role :: "string option"
  rt_team :: "string option"
  rt_agent :: "string option"
  rt_tags :: "string list"
  rt_workflow :: "string option"

datatype sla_violation_policy = PolicyAlert | PolicyBlock | PolicyDeadletter

record task_sla =
  sl_maxInProgressMs :: "int option"
  sl_onViolation :: "sla_violation_policy option"

datatype context_tier = Seed | Full

record frontmatter =
  fm_schemaVersion :: nat
  fm_id :: string
  fm_project :: "string option"
  fm_title :: string
  fm_status :: task_status
  fm_priority :: task_priority
  fm_routing :: task_routing
  fm_sla :: "task_sla option"
  fm_lease :: "task_lease option"
  fm_createdAt :: int
  fm_updatedAt :: int
  fm_lastTransitionAt :: int
  fm_createdBy :: string
  fm_parentId :: "string option"
  fm_dependsOn :: "string list"
  fm_contentHash :: "string option"
  fm_metadata :: metadata
  fm_contextTier :: "context_tier option"
  fm_requiredRunbook :: "string option"
  fm_instructionsRef :: "string option"
  fm_guidanceRef :: "string option"
  fm_resource :: "string option"
  fm_callbackDepth :: "nat option"
  fm_gate :: "gate_state option"
  fm_gateHistory :: "gate_history_entry list"
  fm_reviewContext :: "review_context option"
  fm_tests :: "test_spec list"
  fm_testsFile :: "string option"
  fm_workflow :: "task_workflow option"

text \<open>\<open>path\<close> is a status directory and a file stem: \<open>tasks/<status>/<stem>.md\<close>.\<close>

type_synonym task_path = "task_status \<times> string"

record task =
  t_fm :: frontmatter
  t_body :: string
  t_path :: "task_path option"

fun status_str :: "task_status \<Rightarrow> string" where
  "status_str Backlog = ''backlog''"
| "status_str Ready = ''ready''"
| "status_str InProgress = ''in-progress''"
| "status_str Blocked = ''blocked''"
| "status_str Review = ''review''"
| "status_str Done = ''done''"
| "status_str Cancelled = ''cancelled''"
| "status_str Deadletter = ''deadletter''"

fun priority_str :: "task_priority \<Rightarrow> string" where
  "priority_str PCritical = ''critical''"
| "priority_str PHigh = ''high''"
| "priority_str PNormal = ''normal''"
| "priority_str PLow = ''low''"

definition STATUS_DIRS :: "task_status list" where
  "STATUS_DIRS = [Backlog, Ready, InProgress, Blocked, Review, Done, Cancelled, Deadletter]"

text \<open>The \<open>superRefine\<close> of the schema: gate and workflow exclude each other.\<close>

definition gate_workflow_exclusive :: "frontmatter \<Rightarrow> bool" where
  "gate_workflow_exclusive fm = (\<not> (fm_gate fm \<noteq> None \<and> fm_workflow fm \<noteq> None))"

subsection \<open>Task ids\<close>

definition ID_ALPHABET :: string where
  "ID_ALPHABET = ''23456789ABCDEFGHJKLMNPQRSTUVWXYZabcdefghijkmnopqrstuvwxyz''"

definition date_part :: "string \<Rightarrow> bool" where
  "date_part s =
     (length s = 10 \<and> list_all is_digit (take 4 s) \<and> s ! 4 = CHR ''-'' \<and>
      list_all is_digit (take 2 (drop 5 s)) \<and> s ! 7 = CHR ''-'' \<and> list_all is_digit (drop 8 s))"

definition id_suffix :: "string \<Rightarrow> bool" where
  "id_suffix s =
     (length s = 3 \<and> list_all is_digit s \<or>
      length s = 6 \<and> list_all is_digit (take 3 s) \<and> s ! 3 = CHR ''-'' \<and> list_all is_digit (drop 4 s) \<or>
      length s = 8 \<and> list_all (\<lambda>c. c \<in> set ID_ALPHABET) s)"

definition valid_task_id :: "string \<Rightarrow> bool" where
  "valid_task_id s =
     (take 5 s = ''TASK-'' \<and> date_part (take 10 (drop 5 s)) \<and>
      take 1 (drop 15 s) = ''-'' \<and> id_suffix (drop 16 s))"

subsection \<open>The status machine\<close>

fun VALID_TRANSITIONS :: "task_status \<Rightarrow> task_status list" where
  "VALID_TRANSITIONS Backlog = [Ready, Blocked, Cancelled]"
| "VALID_TRANSITIONS Ready = [InProgress, Blocked, Deadletter, Cancelled]"
| "VALID_TRANSITIONS InProgress = [Review, Ready, Blocked, Deadletter, Cancelled]"
| "VALID_TRANSITIONS Blocked = [Ready, Deadletter, Cancelled]"
| "VALID_TRANSITIONS Review = [Done, InProgress, Blocked, Cancelled]"
| "VALID_TRANSITIONS Done = []"
| "VALID_TRANSITIONS Cancelled = []"
| "VALID_TRANSITIONS Deadletter = [Ready]"

definition isValidTransition :: "task_status \<Rightarrow> task_status \<Rightarrow> bool" where
  "isValidTransition from to = (to \<in> set (VALID_TRANSITIONS from))"

lemma not_valid_self [simp]: "\<not> isValidTransition s s"
  by (cases s) (simp_all add: isValidTransition_def)

lemma valid_from_final [simp]: "\<not> isValidTransition Done s" "\<not> isValidTransition Cancelled s"
  by (simp_all add: isValidTransition_def)

lemma valid_to_backlog [simp]: "\<not> isValidTransition s Backlog"
  by (cases s) (simp_all add: isValidTransition_def)

definition reachable_status :: "task_status \<Rightarrow> task_status \<Rightarrow> bool" where
  "reachable_status = isValidTransition\<^sup>*\<^sup>*"

lemma reach_step: "isValidTransition a b \<Longrightarrow> reachable_status b c \<Longrightarrow> reachable_status a c"
  by (simp add: reachable_status_def converse_rtranclp_into_rtranclp)

lemma reach_refl [simp]: "reachable_status a a"
  by (simp add: reachable_status_def)

lemma reach1: "isValidTransition a b \<Longrightarrow> reachable_status a b"
  by (erule reach_step) simp

lemma valid_ready: "s \<notin> {Done, Cancelled, Review, Ready} \<Longrightarrow> isValidTransition s Ready"
  by (cases s) (simp_all add: isValidTransition_def)

lemma reach_ready:
  assumes "s \<notin> {Done, Cancelled}" shows "reachable_status s Ready"
proof -
  consider "s = Ready" | "s = Review" | "s \<notin> {Done, Cancelled, Review, Ready}" using assms by blast
  then show ?thesis
  proof cases
    case 2
    have "isValidTransition Review InProgress" by (simp add: isValidTransition_def)
    moreover have "reachable_status InProgress Ready" by (rule reach1 [OF valid_ready]) simp
    ultimately show ?thesis unfolding 2 by (rule reach_step)
  qed (simp, rule reach1 [OF valid_ready])
qed

lemma valid_from_ready: "s \<notin> {Backlog, Ready, Review, Done} \<Longrightarrow> isValidTransition Ready s"
  by (cases s) (simp_all add: isValidTransition_def)

lemma reach_from_ready:
  assumes "s \<noteq> Backlog" shows "reachable_status Ready s"
proof -
  have a: "isValidTransition Ready InProgress" "isValidTransition InProgress Review" "isValidTransition Review Done"
    by (simp_all add: isValidTransition_def)
  have rv: "reachable_status Ready Review" using a by (blast intro: reach_step reach1)
  have dn: "reachable_status Ready Done" using a by (blast intro: reach_step reach1)
  consider "s = Ready" | "s = Review" | "s = Done" | "s \<notin> {Backlog, Ready, Review, Done}" using assms by blast
  then show ?thesis
  proof cases
    case 4
    then show ?thesis by (rule reach1 [OF valid_from_ready])
  qed (simp_all add: rv dn)
qed

lemma reach_to_backlog: "reachable_status s t \<Longrightarrow> t = Backlog \<Longrightarrow> s = Backlog"
  unfolding reachable_status_def by (induction rule: rtranclp_induct) auto

lemma reach_from_final:
  "reachable_status s t \<Longrightarrow> s \<in> {Done, Cancelled} \<Longrightarrow> t = s"
  unfolding reachable_status_def by (induction rule: rtranclp_induct) auto

text \<open>
  Fact: reachability in the status machine. From a status \<open>s\<close> a task can get to \<open>t\<close> by valid
  transitions exactly if \<open>t\<close> is \<open>s\<close>, or \<open>s\<close> is not final (\<open>done\<close>, \<open>cancelled\<close>) and \<open>t\<close> is not
  \<open>backlog\<close>. So final statuses are really final, every other task can still be finished or
  cancelled (also from \<open>deadletter\<close>), and no task returns to the backlog.
\<close>

theorem status_reachability:
  "reachable_status s t \<longleftrightarrow> t = s \<or> s \<notin> {Done, Cancelled} \<and> t \<noteq> Backlog"
proof
  assume r: "reachable_status s t"
  show "t = s \<or> s \<notin> {Done, Cancelled} \<and> t \<noteq> Backlog"
    using reach_from_final [OF r] reach_to_backlog r by auto
next
  assume "t = s \<or> s \<notin> {Done, Cancelled} \<and> t \<noteq> Backlog"
  then show "reachable_status s t"
    using reach_ready [of s] reach_from_ready [of t]
    by (auto simp: reachable_status_def intro: rtranclp_trans)
qed

end
