(* ===== verification/World.thy ===== *)
theory World
  imports TaskSchema DagEvaluator
begin

section \<open>The state the program runs on, and effects\<close>

text \<open>
  One record holds everything the modelled operations read or change: the clock, the task files
  and companion directories under \<open>tasks/<status>/\<close>, the run artifacts under \<open>state/runs/\<close>, the
  event log and the module-level variables of the dispatcher. An operation is a function from a
  world to a result and a world; a result is an error or a value. What was done before an error
  stays done, as in the program.

  A task file is what \<open>parseTaskFile\<close> makes of its text: either a task or text it rejects. Its
  modification time is the clock of the last write; a rename keeps it.
\<close>

subsection \<open>Errors\<close>

datatype error =
    TaskNotFound string
  | BlockerNotFound string
  | InvalidTransition task_status task_status string
  | AlreadyBlocked string
  | TerminalState string task_status
  | NotBlocked string task_status
  | SelfDependency string
  | CircularDependency string string
  | AmbiguousPrefix string "string list"
  | WorkflowInvalid "dag_error list"
  | IdsExhausted
  | ENOENT
  | ENOTEMPTY
  | EEXIST
  | LeaseStatus string task_status
  | LeasedTo string string int
  | NoActiveLease string
  | LeaseNotHeld string string string
  | RenewalsExhausted string nat
  | RunResultMismatch string string
  | NoPath string
  | HopNotFound string string "string list"
  | EvaluationError dag_eval_error
  | OtherError string

subsection \<open>State\<close>

datatype file_content = Parsed frontmatter string | Malformed string

record task_file =
  fi_content :: file_content
  fi_mtime :: int

text \<open>Subscriptions of agents to the status changes of a task (schemas/subscription.ts). The payload of a
  delivery other than its kind belongs to plugins.\<close>

datatype sub_granularity = OnCompletion | OnAll

datatype sub_status = SubActive | SubDelivered | SubFailed | SubCancelled

record sub_delivery =
  sd_kind :: string
  sd_payload :: "(string \<times> json) list"

record sub_attempt =
  sa_attemptedAt :: int
  sa_success :: bool
  sa_toStatus :: "string option"
  sa_error :: "(string option \<times> string) option"

record subscription =
  sb_id :: string
  sb_subscriberId :: string
  sb_granularity :: sub_granularity
  sb_delivery :: "sub_delivery option"
  sb_status :: sub_status
  sb_createdAt :: int
  sb_updatedAt :: int
  sb_deliveredAt :: "int option"
  sb_failureReason :: "string option"
  sb_deliveryAttempts :: nat
  sb_lastAttemptAt :: "int option"
  sb_lastDeliveredAt :: "int option"
  sb_notifiedStatuses :: "string list"
  sb_attempts :: "sub_attempt list"

text \<open>The companion directory of a task: inputs, outputs and \<open>subscriptions.json\<close>.\<close>

record companion =
  co_inputs :: "string js_map"
  co_outputs :: "string js_map"
  co_subs :: "subscription list option"

definition empty_companion :: companion where
  "empty_companion = \<lparr>co_inputs = [], co_outputs = [], co_subs = None\<rparr>"

text \<open>The state file of a team's reviews, \<open>.murmur/<team>.json\<close>; text the loader rejects is \<open>MurmurCorrupt\<close>.\<close>

record murmur_state =
  mu_teamId :: string
  mu_lastReviewAt :: "int option"
  mu_completions :: nat
  mu_failures :: nat
  mu_currentReviewTaskId :: "string option"
  mu_reviewStartedAt :: "int option"
  mu_lastTriggeredBy :: "string option"

datatype murmur_file = MurmurSaved murmur_state | MurmurCorrupt

datatype run_status = RunRunning | RunCompleted | RunFailed | RunAbandoned

record run_artifact =
  ra_taskId :: string
  ra_agentId :: string
  ra_startedAt :: int
  ra_status :: run_status
  ra_metadata :: metadata

record run_heartbeat =
  hb_taskId :: string
  hb_agentId :: string
  hb_lastHeartbeat :: int
  hb_beatCount :: nat
  hb_expiresAt :: "int option"

datatype completion_outcome = CDone | CPartial | CNeedsReview | CBlocked

record test_report =
  tp_total :: nat
  tp_passed :: nat
  tp_failed :: nat

record run_result =
  rr_taskId :: string
  rr_agentId :: string
  rr_completedAt :: int
  rr_outcome :: completion_outcome
  rr_summaryRef :: string
  rr_handoffRef :: string
  rr_deliverables :: "string list"
  rr_tests :: test_report
  rr_blockers :: "string list"
  rr_notes :: string

text \<open>The artifact directory \<open>tasks/<status>/work/<hop>\<close> of a workflow hop.\<close>

type_synonym work_dir = "task_status \<times> string"

record run_dir =
  rd_run :: "run_artifact option"
  rd_heartbeat :: "run_heartbeat option"
  rd_result :: "run_result option"

record event =
  ev_type :: string
  ev_actor :: string
  ev_taskId :: "string option"
  ev_timestamp :: int
  ev_payload :: "(string \<times> json) list"

record world =
  w_now :: int
  w_files :: "(task_path \<times> task_file) list"
  w_dirs :: "(task_path \<times> companion) list"
  w_runs :: "run_dir js_map"
  w_events :: "event list"
  w_lastDispatchAt :: int
  w_lastDispatchByTeam :: "int js_map"
  w_renewals :: "string list"
  w_slaAlerts :: "int list js_map"
  w_workDirs :: "work_dir list"
  w_murmur :: "murmur_file js_map"

subsection \<open>Operations with effects\<close>

type_synonym 'a m = "world \<Rightarrow> (error + 'a) \<times> world"

definition ret :: "'a \<Rightarrow> 'a m" where
  "ret x w = (Inr x, w)"

definition throw :: "error \<Rightarrow> 'a m" where
  "throw e w = (Inl e, w)"

definition bind :: "'a m \<Rightarrow> ('a \<Rightarrow> 'b m) \<Rightarrow> 'b m" where
  "bind f g w = (case f w of (Inl e, w') \<Rightarrow> (Inl e, w') | (Inr x, w') \<Rightarrow> g x w')"

definition andThen :: "'a m \<Rightarrow> 'b m \<Rightarrow> 'b m" where
  "andThen f g = bind f (\<lambda>_. g)"

text \<open>\<open>try { f } catch (e) { h(e) }\<close>\<close>

definition catch :: "'a m \<Rightarrow> (error \<Rightarrow> 'a m) \<Rightarrow> 'a m" where
  "catch f h w = (case f w of (Inl e, w') \<Rightarrow> h e w' | (Inr x, w') \<Rightarrow> (Inr x, w'))"

definition gets :: "(world \<Rightarrow> 'a) \<Rightarrow> 'a m" where
  "gets f w = (Inr (f w), w)"

definition modify :: "(world \<Rightarrow> world) \<Rightarrow> unit m" where
  "modify f w = (Inr (), f w)"

definition from_option :: "error \<Rightarrow> 'a option \<Rightarrow> 'a m" where
  "from_option e x = (case x of None \<Rightarrow> throw e | Some v \<Rightarrow> ret v)"

definition when_m :: "bool \<Rightarrow> unit m \<Rightarrow> unit m" where
  "when_m b f = (if b then f else ret ())"

text \<open>A loop over a list that threads an accumulator.\<close>

fun fold_m :: "('a \<Rightarrow> 'b \<Rightarrow> 'b m) \<Rightarrow> 'a list \<Rightarrow> 'b \<Rightarrow> 'b m" where
  "fold_m f [] acc = ret acc"
| "fold_m f (x # xs) acc = bind (f x acc) (fold_m f xs)"

definition now :: "int m" where
  "now = gets w_now"

definition log_event :: "string \<Rightarrow> string \<Rightarrow> string option \<Rightarrow> (string \<times> json) list \<Rightarrow> unit m" where
  "log_event ty actor taskId payload =
     modify (\<lambda>w. w\<lparr>w_events := w_events w @
       [\<lparr>ev_type = ty, ev_actor = actor, ev_taskId = taskId, ev_timestamp = w_now w, ev_payload = payload\<rparr>]\<rparr>)"

definition opt_str :: "string \<Rightarrow> string option \<Rightarrow> (string \<times> json) list" where
  "opt_str k v = (case v of None \<Rightarrow> [] | Some s \<Rightarrow> [(k, JStr s)])"

subsection \<open>Calculating with effects\<close>

lemma bind_simps [simp]:
  "bind (ret x) g = g x"
  "bind (throw e) g = throw e"
  "bind (gets f) g w = g (f w) w"
  "bind (modify h) k w = k () (h w)"
  "andThen (modify h) k' w = k' (h w)"
  "andThen (ret x) k' = k'"
  "andThen (throw e) k' = throw e"
  by (simp_all add: fun_eq_iff bind_def ret_def throw_def gets_def modify_def andThen_def)

lemma bind_assoc: "bind (bind f g) h = bind f (\<lambda>x. bind (g x) h)"
  by (simp add: fun_eq_iff bind_def split: prod.split sum.split)

lemma bind_andThen [simp]: "bind (andThen f g) h = andThen f (bind g h)"
  by (simp add: andThen_def bind_assoc)

lemma andThen_assoc [simp]: "andThen (andThen f g) h = andThen f (andThen g h)"
  "andThen (bind f k) h = bind f (\<lambda>x. andThen (k x) h)"
  by (simp_all add: andThen_def bind_assoc)

lemma catch_simps [simp]:
  "catch (ret x) h = ret x" "catch (throw e) h = h e"
  by (simp_all add: fun_eq_iff catch_def ret_def throw_def)

lemma run_simps:
  "ret x w = (Inr x, w)" "throw e w = (Inl e, w)" "gets f w = (Inr (f w), w)" "modify h w = (Inr (), h w)"
  by (simp_all add: ret_def throw_def gets_def modify_def)

lemma bind_run: "f w = (Inr x, w') \<Longrightarrow> bind f g w = g x w'" "f w = (Inl e, w') \<Longrightarrow> bind f g w = (Inl e, w')"
  "f w = (Inr x, w') \<Longrightarrow> andThen f k w = k w'"
  by (simp_all add: bind_def andThen_def)

lemma catch_run: "f w = (Inr x, w') \<Longrightarrow> catch f h w = (Inr x, w')" "f w = (Inl e, w') \<Longrightarrow> catch f h w = h e w'"
  by (simp_all add: catch_def)

lemma bind_Inr_cases:
  assumes "bind f g w = (Inr y, w')"
  obtains x w1 where "f w = (Inr x, w1)" "g x w1 = (Inr y, w')"
  using assms by (auto simp: bind_def split: prod.splits sum.splits)

text \<open>An operation preserves a property of the world, whether it succeeds or throws.\<close>

definition preserves :: "(world \<Rightarrow> bool) \<Rightarrow> 'a m \<Rightarrow> bool" where
  "preserves P f \<longleftrightarrow> (\<forall>w. P w \<longrightarrow> P (snd (f w)))"

lemma preservesD: "preserves P f \<Longrightarrow> P w \<Longrightarrow> P (snd (f w))"
  by (simp add: preserves_def)

lemma preserves_ret [wf_intros]: "preserves P (ret x)"
  by (simp add: preserves_def ret_def)

lemma preserves_throw [wf_intros]: "preserves P (throw e)"
  by (simp add: preserves_def throw_def)

lemma preserves_gets [wf_intros]: "preserves P (gets f)"
  by (simp add: preserves_def gets_def)

lemma preserves_now [wf_intros]: "preserves P now"
  by (simp add: now_def preserves_gets)

lemma preserves_from_option [wf_intros]: "preserves P (from_option e x)"
  by (simp add: from_option_def preserves_ret preserves_throw split: option.split)

lemma preserves_bind [wf_intros]:
  "preserves P f \<Longrightarrow> (\<And>x. preserves P (g x)) \<Longrightarrow> preserves P (bind f g)"
  unfolding preserves_def bind_def by (fastforce split: prod.splits sum.splits)

lemma preserves_andThen [wf_intros]: "preserves P f \<Longrightarrow> preserves P g \<Longrightarrow> preserves P (andThen f g)"
  by (simp add: andThen_def preserves_bind)

lemma preserves_catch [wf_intros]:
  "preserves P f \<Longrightarrow> (\<And>e. preserves P (h e)) \<Longrightarrow> preserves P (catch f h)"
  unfolding preserves_def catch_def by (fastforce split: prod.splits sum.splits)

lemma preserves_when [wf_intros]: "preserves P f \<Longrightarrow> preserves P (when_m b f)"
  by (simp add: when_m_def preserves_ret)

lemma preserves_fold_m [wf_intros]: "(\<And>x acc. preserves P (f x acc)) \<Longrightarrow> preserves P (fold_m f xs acc)"
  by (induction xs arbitrary: acc) (auto intro: wf_intros)

lemma preserves_if [wf_intros]:
  "(b \<Longrightarrow> preserves P f) \<Longrightarrow> (\<not> b \<Longrightarrow> preserves P g) \<Longrightarrow> preserves P (if b then f else g)"
  by simp

lemma preserves_case_option [wf_intros]:
  "(x = None \<Longrightarrow> preserves P f) \<Longrightarrow> (\<And>v. x = Some v \<Longrightarrow> preserves P (g v)) \<Longrightarrow>
    preserves P (case x of None \<Rightarrow> f | Some v \<Rightarrow> g v)"
  by (cases x) auto

lemma preserves_case_prod [wf_intros]:
  "(\<And>a b. x = (a, b) \<Longrightarrow> preserves P (f a b)) \<Longrightarrow> preserves P (case x of (a, b) \<Rightarrow> f a b)"
  by (cases x) auto

lemma preserves_case_sum [wf_intros]:
  "(\<And>a. x = Inl a \<Longrightarrow> preserves P (f a)) \<Longrightarrow> (\<And>b. x = Inr b \<Longrightarrow> preserves P (g b)) \<Longrightarrow>
    preserves P (case x of Inl a \<Rightarrow> f a | Inr b \<Rightarrow> g b)"
  by (cases x) auto

lemma preserves_let [wf_intros]: "preserves P (f x) \<Longrightarrow> preserves P (let y = x in f y)"
  by simp

lemma preserves_modify: "(\<And>w. P w \<Longrightarrow> P (h w)) \<Longrightarrow> preserves P (modify h)"
  by (simp add: preserves_def modify_def)

end
