(* ===== verification/TaskStore.thy ===== *)
theory TaskStore
  imports World
begin

section \<open>The task store (store/task-store.ts, task-mutations.ts, task-lifecycle.ts, task-validation.ts, task-file-ops.ts)\<close>

text \<open>
  The filesystem-backed store, operation by operation. A path is a status directory and a file
  stem, so \<open>taskPath\<close> and \<open>taskDir\<close> are pairs. Each operation is the code's sequence of reads,
  writes, renames and removals with its guards; the optional \<open>afterTransition\<close> hook, which the
  store calls after its own work, is not part of the model. The per-task mutex is in \<open>TaskLock\<close>.
\<close>

subsection \<open>Files\<close>

definition file_at :: "world \<Rightarrow> task_path \<Rightarrow> task_file option" where
  "file_at w p = map_of (w_files w) p"

definition taskPath :: "string \<Rightarrow> task_status \<Rightarrow> task_path" where
  "taskPath i s = (s, i)"

definition path_or :: "task \<Rightarrow> task_path \<Rightarrow> task_path" where
  "path_or t p = (case t_path t of None \<Rightarrow> p | Some q \<Rightarrow> q)"

definition taskFilename :: "string \<Rightarrow> string" where
  "taskFilename i = i @ ''.md''"

text \<open>\<open>writeFileAtomic(path, serializeTask(task))\<close>: reading the file back gives the frontmatter and
  the trimmed body.\<close>

definition put_file :: "task_path \<Rightarrow> task \<Rightarrow> world \<Rightarrow> world" where
  "put_file p t w =
     w\<lparr>w_files := AList.update p
         \<lparr>fi_content = Parsed (t_fm t) (js_trim (t_body t)), fi_mtime = w_now w\<rparr> (w_files w)\<rparr>"

definition remove_file :: "task_path \<Rightarrow> world \<Rightarrow> world" where
  "remove_file p w = w\<lparr>w_files := AList.delete p (w_files w)\<rparr>"

definition write_task :: "task_path \<Rightarrow> task \<Rightarrow> unit m" where
  "write_task p t = modify (put_file p t)"

definition unlink :: "task_path \<Rightarrow> unit m" where
  "unlink p = bind (gets (\<lambda>w. file_at w p)) (\<lambda>f.
     case f of None \<Rightarrow> throw ENOENT | Some _ \<Rightarrow> modify (remove_file p))"

definition move_file :: "task_path \<Rightarrow> task_path \<Rightarrow> task_file \<Rightarrow> world \<Rightarrow> world" where
  "move_file p q f w =
     (if p = q then w else w\<lparr>w_files := AList.update q f (AList.delete p (w_files w))\<rparr>)"

definition rename_file :: "task_path \<Rightarrow> task_path \<Rightarrow> unit m" where
  "rename_file p q = bind (gets (\<lambda>w. file_at w p)) (\<lambda>f.
     case f of None \<Rightarrow> throw ENOENT | Some f \<Rightarrow> modify (move_file p q f))"

text \<open>Renaming a companion directory onto an existing one fails: companion directories are never
  empty.\<close>

definition rename_dir :: "task_path \<Rightarrow> task_path \<Rightarrow> unit m" where
  "rename_dir p q = bind (gets (\<lambda>w. (map_of (w_dirs w) p, map_of (w_dirs w) q))) (\<lambda>(d, e).
     case d of
       None \<Rightarrow> throw ENOENT
     | Some c \<Rightarrow>
         if p = q then ret ()
         else if e \<noteq> None then throw ENOTEMPTY
         else modify (\<lambda>w. w\<lparr>w_dirs := AList.update q c (AList.delete p (w_dirs w))\<rparr>))"

definition log_validation_failed :: "string \<Rightarrow> string \<Rightarrow> unit m" where
  "log_validation_failed filename errors =
     log_event ''task.validation.failed'' ''system'' None
       [(''filename'', JStr filename), (''errors'', JStr errors)]"

definition read_task_at :: "task_path \<Rightarrow> task option m" where
  "read_task_at p = bind (gets (\<lambda>w. file_at w p)) (\<lambda>f.
     case f of
       None \<Rightarrow> ret None
     | Some f \<Rightarrow>
         (case fi_content f of
            Parsed fm body \<Rightarrow> ret (Some \<lparr>t_fm = fm, t_body = body, t_path = Some p\<rparr>)
          | Malformed msg \<Rightarrow> andThen (log_validation_failed (taskFilename (snd p)) msg) (ret None)))"

subsection \<open>get, getByPrefix, list, countByStatus\<close>

type_synonym task_match = "task \<times> int"

definition collect_match :: "string \<Rightarrow> task_status \<Rightarrow> task_match list \<Rightarrow> task_match list m" where
  "collect_match i s acc = bind (read_task_at (taskPath i s)) (\<lambda>t.
     case t of
       None \<Rightarrow> ret acc
     | Some t \<Rightarrow> bind (gets (\<lambda>w. case file_at w (taskPath i s) of None \<Rightarrow> 0 | Some f \<Rightarrow> fi_mtime f))
                   (\<lambda>mtime. ret (acc @ [(t, mtime)])))"

definition remove_stale :: "task_match \<Rightarrow> unit \<Rightarrow> unit m" where
  "remove_stale m u =
     (case t_path (fst m) of None \<Rightarrow> ret () | Some p \<Rightarrow> modify (remove_file p))"

definition get_task :: "string \<Rightarrow> task option m" where
  "get_task i = bind (fold_m (collect_match i) STATUS_DIRS []) (\<lambda>matches.
     if length matches \<le> 1 then ret (case matches of [] \<Rightarrow> None | (t, _) # _ \<Rightarrow> Some t)
     else
       (case sort_key (\<lambda>m. - snd m) matches of
          [] \<Rightarrow> ret None
        | winner # stale \<Rightarrow> andThen (fold_m remove_stale stale ()) (ret (Some (fst winner)))))"

definition stems_in :: "world \<Rightarrow> task_status \<Rightarrow> string list" where
  "stems_in w s = map (snd \<circ> fst) (filter (\<lambda>(p, f). fst p = s) (w_files w))"

definition collect_prefix :: "string \<Rightarrow> task_status \<Rightarrow> task list \<Rightarrow> task list m" where
  "collect_prefix prefix s acc = bind (gets (\<lambda>w. stems_in w s)) (\<lambda>entries.
     fold_m (\<lambda>e acc. if \<not> str_prefix prefix (taskFilename e) then ret acc
                     else bind (read_task_at (s, e)) (\<lambda>t.
                            case t of None \<Rightarrow> ret acc | Some t \<Rightarrow> ret (acc @ [t])))
       entries acc)"

definition getByPrefix :: "string \<Rightarrow> task option m" where
  "getByPrefix prefix = bind (fold_m (collect_prefix prefix) STATUS_DIRS []) (\<lambda>matches.
     if length matches > 1 then throw (AmbiguousPrefix prefix (map (\<lambda>t. fm_id (t_fm t)) matches))
     else ret (case matches of [] \<Rightarrow> None | t # _ \<Rightarrow> Some t))"

record list_filters =
  lf_status :: "task_status option"
  lf_agent :: "string option"
  lf_team :: "string option"

definition no_filters :: list_filters where
  "no_filters = \<lparr>lf_status = None, lf_agent = None, lf_team = None\<rparr>"

definition status_filter :: "task_status \<Rightarrow> list_filters" where
  "status_filter s = no_filters\<lparr>lf_status := Some s\<rparr>"

text \<open>An empty filter string is falsy and filters nothing.\<close>

definition filter_matches :: "list_filters \<Rightarrow> frontmatter \<Rightarrow> bool" where
  "filter_matches lf fm =
     ((case lf_agent lf of None \<Rightarrow> True | Some a \<Rightarrow> a = [] \<or> map_option tl_agent (fm_lease fm) = Some a) \<and>
      (case lf_team lf of None \<Rightarrow> True | Some t \<Rightarrow> t = [] \<or> rt_team (fm_routing fm) = Some t))"

definition collect_listed :: "list_filters \<Rightarrow> task_status \<Rightarrow> task list \<Rightarrow> task list m" where
  "collect_listed lf s acc = bind (gets (\<lambda>w. stems_in w s)) (\<lambda>entries.
     fold_m (\<lambda>e acc. bind (read_task_at (s, e)) (\<lambda>t.
               case t of
                 None \<Rightarrow> ret acc
               | Some t \<Rightarrow> ret (if filter_matches lf (t_fm t) then acc @ [t] else acc)))
       entries acc)"

definition list_tasks :: "list_filters \<Rightarrow> task list m" where
  "list_tasks lf =
     fold_m (collect_listed lf) (case lf_status lf of None \<Rightarrow> STATUS_DIRS | Some s \<Rightarrow> [s]) []"

definition countByStatus :: "world \<Rightarrow> (task_status \<times> nat) list" where
  "countByStatus w = map (\<lambda>s. (s, length (stems_in w s))) STATUS_DIRS"

subsection \<open>transition\<close>

record transition_opts =
  to_reason :: "string option"
  to_agent :: "string option"
  to_metadataPatch :: "metadata option"

definition no_opts :: transition_opts where
  "no_opts = \<lparr>to_reason = None, to_agent = None, to_metadataPatch = None\<rparr>"

definition reason_opts :: "string \<Rightarrow> transition_opts" where
  "reason_opts r = no_opts\<lparr>to_reason := Some r\<rparr>"

text \<open>The frontmatter a transition writes.\<close>

definition transition_fm :: "frontmatter \<Rightarrow> task_status \<Rightarrow> metadata option \<Rightarrow> int \<Rightarrow> frontmatter" where
  "transition_fm fm newStatus patch t =
     (let fm1 = fm\<lparr>fm_status := newStatus, fm_updatedAt := t, fm_lastTransitionAt := t\<rparr>;
          fm2 = (case patch of None \<Rightarrow> fm1 | Some p \<Rightarrow> fm1\<lparr>fm_metadata := fm_metadata fm1 ++ p\<rparr>)
      in if newStatus = Done \<or> newStatus = Ready \<or> newStatus = Backlog then fm2\<lparr>fm_lease := None\<rparr> else fm2)"

text \<open>The write-new-first sequence between two different paths.\<close>

definition move_task :: "string \<Rightarrow> task_status \<Rightarrow> task_status \<Rightarrow> task_path \<Rightarrow> task_path \<Rightarrow> task \<Rightarrow> unit m" where
  "move_task i currentStatus newStatus oldPath newPath t =
     andThen (write_task newPath t)
     (andThen
        (catch (rename_dir (taskPath i currentStatus) (taskPath i newStatus))
           (\<lambda>e. if e = ENOENT then ret ()
                else andThen (catch (unlink newPath) (\<lambda>_. ret ())) (throw e)))
        (bind (gets (\<lambda>w. file_at w newPath)) (\<lambda>f.
           case f of
             None \<Rightarrow> ret ()
           | Some _ \<Rightarrow> catch (unlink oldPath) (\<lambda>_. ret ()))))"

definition log_transition_events :: "string \<Rightarrow> task_status \<Rightarrow> task_status \<Rightarrow> transition_opts \<Rightarrow> unit m" where
  "log_transition_events i from to opts =
     andThen
       (log_event ''task.transitioned'' (case to_agent opts of None \<Rightarrow> ''system'' | Some a \<Rightarrow> a) (Some i)
          ([(''from'', JStr (status_str from)), (''to'', JStr (status_str to))] @ opt_str ''reason'' (to_reason opts)))
       (case to_agent opts of
          None \<Rightarrow> ret ()
        | Some a \<Rightarrow> when_m (to = InProgress \<and> a \<noteq> [])
                      (log_event ''task.assigned'' a (Some i) [(''agent'', JStr a)]))"

definition transition_task :: "string \<Rightarrow> task_status \<Rightarrow> transition_opts \<Rightarrow> task m" where
  "transition_task i newStatus opts = bind (get_task i) (\<lambda>t.
     case t of
       None \<Rightarrow> throw (TaskNotFound i)
     | Some task \<Rightarrow>
         (let currentStatus = fm_status (t_fm task) in
          if currentStatus = newStatus then ret task
          else if \<not> isValidTransition currentStatus newStatus then throw (InvalidTransition currentStatus newStatus i)
          else bind now (\<lambda>ts.
            let task1 = task\<lparr>t_fm := transition_fm (t_fm task) newStatus (to_metadataPatch opts) ts\<rparr>;
                oldPath = path_or task (taskPath i currentStatus);
                newPath = taskPath i newStatus
            in andThen
                 (if oldPath \<noteq> newPath then move_task i currentStatus newStatus oldPath newPath task1
                  else write_task newPath task1)
                 (andThen (log_transition_events i currentStatus newStatus opts)
                    (ret (task1\<lparr>t_path := Some newPath\<rparr>))))))"

end
