(* ===== verification/TaskOps.thy ===== *)
theory TaskOps
  imports TaskStore
begin

section \<open>The other operations of the store\<close>

text \<open>
  Cancel, block and unblock (task-lifecycle.ts), update (task-mutations.ts), creation, body
  updates, deletion, linting and the reconciliation pass of \<open>init\<close> (task-store.ts,
  task-validation.ts), and the input and output files of a task (task-file-ops.ts). The content
  hash (SHA-256 of a Node library) and the generator of id suffixes (nanoid) are parameters.
\<close>

subsection \<open>Cancel, block, unblock\<close>

definition cancelled_fm :: "frontmatter \<Rightarrow> string option \<Rightarrow> int \<Rightarrow> frontmatter" where
  "cancelled_fm fm reason ts =
     (let fm1 = (case reason of
                   None \<Rightarrow> fm
                 | Some r \<Rightarrow> if r = [] then fm
                             else fm\<lparr>fm_metadata := (fm_metadata fm)(''cancellationReason'' \<mapsto> JStr r)\<rparr>)
      in fm1\<lparr>fm_status := Cancelled, fm_updatedAt := ts, fm_lastTransitionAt := ts, fm_lease := None\<rparr>)"

definition cancel_task :: "string \<Rightarrow> string option \<Rightarrow> task m" where
  "cancel_task i reason = bind (get_task i) (\<lambda>t.
     case t of
       None \<Rightarrow> throw (TaskNotFound i)
     | Some task \<Rightarrow>
         (let currentStatus = fm_status (t_fm task) in
          if currentStatus = Done \<or> currentStatus = Cancelled then throw (TerminalState i currentStatus)
          else bind now (\<lambda>ts.
            let task1 = task\<lparr>t_fm := cancelled_fm (t_fm task) reason ts\<rparr>;
                oldPath = path_or task (taskPath i currentStatus);
                newPath = taskPath i Cancelled
            in andThen
                 (if oldPath \<noteq> newPath then
                    andThen (write_task oldPath task1)
                    (andThen (rename_file oldPath newPath)
                       (catch (rename_dir (taskPath i currentStatus) (taskPath i Cancelled)) (\<lambda>_. ret ())))
                  else write_task newPath task1)
                 (andThen
                    (log_event ''task.cancelled'' ''system'' (Some i)
                       (opt_str ''reason'' reason @ [(''from'', JStr (status_str currentStatus))]))
                    (ret (task1\<lparr>t_path := Some newPath\<rparr>))))))"

definition with_metadata :: "(metadata \<Rightarrow> metadata) \<Rightarrow> task \<Rightarrow> task" where
  "with_metadata f t = t\<lparr>t_fm := (t_fm t)\<lparr>fm_metadata := f (fm_metadata (t_fm t))\<rparr>\<rparr>"

definition block_task :: "string \<Rightarrow> string \<Rightarrow> task m" where
  "block_task i reason = bind (get_task i) (\<lambda>t.
     case t of
       None \<Rightarrow> throw (TaskNotFound i)
     | Some task \<Rightarrow>
         (let currentStatus = fm_status (t_fm task) in
          if currentStatus = Blocked then throw (AlreadyBlocked i)
          else if currentStatus \<in> {Done, Cancelled, Deadletter} then throw (TerminalState i currentStatus)
          else
            andThen (write_task (path_or task (taskPath i currentStatus))
                       (with_metadata (\<lambda>m. m(''blockReason'' \<mapsto> JStr reason)) task))
              (bind (transition_task i Blocked no_opts) (\<lambda>blocked.
                 andThen (log_event ''task.blocked'' ''system'' (Some i) [(''reason'', JStr reason)])
                   (ret blocked)))))"

definition unblock_task :: "string \<Rightarrow> task m" where
  "unblock_task i = bind (get_task i) (\<lambda>t.
     case t of
       None \<Rightarrow> throw (TaskNotFound i)
     | Some task \<Rightarrow>
         (let currentStatus = fm_status (t_fm task) in
          if currentStatus \<noteq> Blocked then throw (NotBlocked i currentStatus)
          else
            andThen (write_task (path_or task (taskPath i currentStatus))
                       (with_metadata (\<lambda>m. m(''blockReason'' := None, ''retryCount'' := None)) task))
              (bind (transition_task i Ready no_opts) (\<lambda>r.
                 andThen (log_event ''task.unblocked'' ''system'' (Some i) []) (ret r)))))"

subsection \<open>update, updateBody, save, delete\<close>

record update_patch =
  up_title :: "string option"
  up_description :: "string option"
  up_priority :: "task_priority option"
  up_routing :: "(string option \<times> string option \<times> string option \<times> string list option) option"

definition or_else :: "'a option \<Rightarrow> 'a \<Rightarrow> 'a" where
  "or_else x y = (case x of None \<Rightarrow> y | Some v \<Rightarrow> v)"

definition patch_routing ::
  "string option \<times> string option \<times> string option \<times> string list option \<Rightarrow> task_routing \<Rightarrow> task_routing" where
  "patch_routing p r =
     (case p of (role, team, agent, tags) \<Rightarrow>
        r\<lparr>rt_role := (if role \<noteq> None then role else rt_role r),
          rt_team := (if team \<noteq> None then team else rt_team r),
          rt_agent := (if agent \<noteq> None then agent else rt_agent r),
          rt_tags := or_else tags (rt_tags r)\<rparr>)"

definition apply_patch :: "(string \<Rightarrow> string) \<Rightarrow> update_patch \<Rightarrow> int \<Rightarrow> task \<Rightarrow> task" where
  "apply_patch hash p ts t =
     (let fm = t_fm t;
          fm1 = fm\<lparr>fm_title := or_else (up_title p) (fm_title fm)\<rparr>;
          fm2 = (case up_description p of None \<Rightarrow> fm1 | Some d \<Rightarrow> fm1\<lparr>fm_contentHash := Some (hash d)\<rparr>);
          fm3 = fm2\<lparr>fm_priority := or_else (up_priority p) (fm_priority fm2)\<rparr>;
          fm4 = (case up_routing p of None \<Rightarrow> fm3 | Some r \<Rightarrow> fm3\<lparr>fm_routing := patch_routing r (fm_routing fm3)\<rparr>)
      in t\<lparr>t_fm := fm4\<lparr>fm_updatedAt := ts\<rparr>, t_body := or_else (up_description p) (t_body t)\<rparr>)"

definition routing_json :: "task_routing \<Rightarrow> json" where
  "routing_json r =
     JObj (opt_str ''role'' (rt_role r) @ opt_str ''team'' (rt_team r) @ opt_str ''agent'' (rt_agent r)
           @ [(''tags'', JArr (map JStr (rt_tags r)))] @ opt_str ''workflow'' (rt_workflow r))"

definition change_json :: "json \<Rightarrow> json \<Rightarrow> json" where
  "change_json a b = JObj [(''from'', a), (''to'', b)]"

text \<open>The \<open>changes\<close> object of the event: old and new value of every patched field.\<close>

definition patch_changes :: "update_patch \<Rightarrow> task \<Rightarrow> (string \<times> json) list" where
  "patch_changes p t =
     (case up_title p of None \<Rightarrow> []
      | Some x \<Rightarrow> [(''title'', change_json (JStr (fm_title (t_fm t))) (JStr x))])
     @ (case up_description p of None \<Rightarrow> []
        | Some x \<Rightarrow> [(''description'', change_json (JStr (t_body t)) (JStr x))])
     @ (case up_priority p of None \<Rightarrow> []
        | Some x \<Rightarrow> [(''priority'', change_json (JStr (priority_str (fm_priority (t_fm t)))) (JStr (priority_str x)))])
     @ (case up_routing p of None \<Rightarrow> []
        | Some x \<Rightarrow> [(''routing'', change_json (routing_json (fm_routing (t_fm t)))
                        (routing_json (patch_routing x (fm_routing (t_fm t)))))])"

definition update_task :: "(string \<Rightarrow> string) \<Rightarrow> string \<Rightarrow> update_patch \<Rightarrow> task m" where
  "update_task hash i p = bind (get_task i) (\<lambda>t.
     case t of
       None \<Rightarrow> throw (TaskNotFound i)
     | Some task \<Rightarrow>
         if fm_status (t_fm task) = Done then throw (TerminalState i Done)
         else bind now (\<lambda>ts.
           let task1 = apply_patch hash p ts task
           in andThen (write_task (path_or task (taskPath i (fm_status (t_fm task1)))) task1)
                (andThen
                   (when_m (length (patch_changes p task) > 0)
                      (log_event ''task.updated'' ''system'' (Some i) [(''changes'', JObj (patch_changes p task))]))
                   (ret task1))))"

definition update_body :: "(string \<Rightarrow> string) \<Rightarrow> string \<Rightarrow> string \<Rightarrow> task m" where
  "update_body hash i body = bind (get_task i) (\<lambda>t.
     case t of
       None \<Rightarrow> throw (TaskNotFound i)
     | Some task \<Rightarrow> bind now (\<lambda>ts.
         let task1 = task\<lparr>t_body := body,
               t_fm := (t_fm task)\<lparr>fm_contentHash := Some (hash body), fm_updatedAt := ts\<rparr>\<rparr>
         in andThen (write_task (path_or task1 (taskPath i (fm_status (t_fm task1)))) task1) (ret task1)))"

definition save_task :: "task \<Rightarrow> unit m" where
  "save_task t = write_task (path_or t (taskPath (fm_id (t_fm t)) (fm_status (t_fm t)))) t"

definition delete_task :: "string \<Rightarrow> bool m" where
  "delete_task i = bind (get_task i) (\<lambda>t.
     case t of
       None \<Rightarrow> ret False
     | Some task \<Rightarrow>
         catch (andThen (unlink (path_or task (taskPath i (fm_status (t_fm task))))) (ret True))
           (\<lambda>_. ret False))"

subsection \<open>create\<close>

record create_opts =
  cr_title :: string
  cr_body :: "string option"
  cr_priority :: "task_priority option"
  cr_routing :: "(string option \<times> string option \<times> string option \<times> string list option) option"
  cr_sla :: "task_sla option"
  cr_metadata :: "metadata option"
  cr_createdBy :: string
  cr_parentId :: "string option"
  cr_dependsOn :: "string list option"
  cr_workflow :: "(workflow_definition \<times> string option) option"
  cr_contextTier :: "context_tier option"
  cr_callbackDepth :: "nat option"
  cr_initialStatus :: "task_status option"

definition create_routing ::
  "(string option \<times> string option \<times> string option \<times> string list option) option \<Rightarrow> task_routing" where
  "create_routing r =
     (case r of
        None \<Rightarrow> \<lparr>rt_role = None, rt_team = None, rt_agent = None, rt_tags = [], rt_workflow = None\<rparr>
      | Some (role, team, agent, tags) \<Rightarrow>
          \<lparr>rt_role = role, rt_team = team, rt_agent = agent, rt_tags = or_else tags [], rt_workflow = None\<rparr>)"

definition resolve_workflow ::
  "(workflow_definition \<times> string option) option \<Rightarrow> error + task_workflow option" where
  "resolve_workflow wfl =
     (case wfl of
        None \<Rightarrow> Inr None
      | Some (defn, templateName) \<Rightarrow>
          (let errs = validateDAG defn in
           if length errs > 0 then Inl (WorkflowInvalid errs)
           else Inr (Some \<lparr>tw_definition = defn, tw_state = initializeWorkflowState defn,
                           tw_templateName = (if templateName = Some [] then None else templateName)\<rparr>)))"

definition new_frontmatter ::
  "(string \<Rightarrow> string) \<Rightarrow> string option \<Rightarrow> create_opts \<Rightarrow> task_workflow option \<Rightarrow> string \<Rightarrow> int \<Rightarrow> frontmatter" where
  "new_frontmatter hash projectId opts wfl i ts =
     \<lparr>fm_schemaVersion = 1, fm_id = i, fm_project = (if projectId = Some [] then None else projectId),
      fm_title = cr_title opts,
      fm_status = or_else (cr_initialStatus opts) Backlog, fm_priority = or_else (cr_priority opts) PNormal,
      fm_routing = create_routing (cr_routing opts), fm_sla = cr_sla opts, fm_lease = None,
      fm_createdAt = ts, fm_updatedAt = ts, fm_lastTransitionAt = ts, fm_createdBy = cr_createdBy opts,
      fm_parentId = cr_parentId opts, fm_dependsOn = or_else (cr_dependsOn opts) [],
      fm_contentHash = Some (hash (or_else (cr_body opts) [])),
      fm_metadata = or_else (cr_metadata opts) Map.empty, fm_contextTier = cr_contextTier opts,
      fm_requiredRunbook = None, fm_instructionsRef = None, fm_guidanceRef = None, fm_resource = None,
      fm_callbackDepth = cr_callbackDepth opts, fm_gate = None, fm_gateHistory = [], fm_reviewContext = None,
      fm_tests = [], fm_testsFile = None, fm_workflow = wfl\<rparr>"

text \<open>The constraints of the schema that do not follow from the types.\<close>

definition schema_ok :: "frontmatter \<Rightarrow> bool" where
  "schema_ok fm =
     (valid_task_id (fm_id fm) \<and> fm_project fm \<noteq> Some [] \<and> fm_title fm \<noteq> [] \<and>
      (case fm_sla fm of None \<Rightarrow> True
       | Some s \<Rightarrow> (case sl_maxInProgressMs s of None \<Rightarrow> True | Some n \<Rightarrow> 0 < n)) \<and>
      (case fm_parentId fm of None \<Rightarrow> True | Some p \<Rightarrow> valid_task_id p) \<and>
      list_all valid_task_id (fm_dependsOn fm) \<and>
      fm_instructionsRef fm \<noteq> Some [] \<and> fm_guidanceRef fm \<noteq> Some [] \<and>
      (case fm_gate fm of None \<Rightarrow> True | Some g \<Rightarrow> gs_current g \<noteq> []) \<and> gate_workflow_exclusive fm)"

definition ensureTaskDirs :: "string \<Rightarrow> task_status \<Rightarrow> unit m" where
  "ensureTaskDirs i s = modify (\<lambda>w.
     if map_of (w_dirs w) (taskPath i s) = None
     then w\<lparr>w_dirs := AList.update (taskPath i s) empty_companion (w_dirs w)\<rparr> else w)"

text \<open>\<open>attempts\<close> counts down from 1000; \<open>suffix n\<close> is the suffix nanoid gives at the n-th attempt,
  \<open>day\<close> the date part of the current time.\<close>

definition nextTaskId :: "(int \<Rightarrow> string) \<Rightarrow> string \<Rightarrow> int \<Rightarrow> string" where
  "nextTaskId day suffix ts = ''TASK-'' @ day ts @ ''-'' @ suffix"

fun create_loop ::
  "(string \<Rightarrow> string) \<Rightarrow> string option \<Rightarrow> (int \<Rightarrow> string) \<Rightarrow> (nat \<Rightarrow> string) \<Rightarrow> create_opts \<Rightarrow> task_workflow option
    \<Rightarrow> nat \<Rightarrow> task m" where
  "create_loop hash projectId day suffix opts wfl 0 = throw IdsExhausted"
| "create_loop hash projectId day suffix opts wfl (Suc n) = bind now (\<lambda>ts.
     let i = nextTaskId day (suffix n) ts;
         fm = new_frontmatter hash projectId opts wfl i ts;
         t = \<lparr>t_fm = fm, t_body = or_else (cr_body opts) [], t_path = None\<rparr>;
         p = taskPath i (or_else (cr_initialStatus opts) Backlog)
     in if \<not> schema_ok fm then throw (OtherError ''ZodError'')
        else bind (gets (\<lambda>w. file_at w p)) (\<lambda>f.
          case f of
            Some _ \<Rightarrow> create_loop hash projectId day suffix opts wfl n
          | None \<Rightarrow>
              andThen (write_task p t)
                (andThen (ensureTaskDirs i (or_else (cr_initialStatus opts) Backlog))
                   (ret (t\<lparr>t_path := Some p\<rparr>)))))"

definition create_task ::
  "(string \<Rightarrow> string) \<Rightarrow> string option \<Rightarrow> (int \<Rightarrow> string) \<Rightarrow> (nat \<Rightarrow> string) \<Rightarrow> create_opts \<Rightarrow> task m" where
  "create_task hash projectId day suffix opts =
     (case resolve_workflow (cr_workflow opts) of
        Inl e \<Rightarrow> throw e
      | Inr wfl \<Rightarrow> create_loop hash projectId day suffix opts wfl 1000)"

subsection \<open>lint and the reconciliation pass of init\<close>

text \<open>An issue that \<open>lintTasks\<close> reports about a file. Directories outside the eight standard ones
  are not part of the state.\<close>

datatype lint_issue =
    StatusMismatch task task_status
  | LeaseWithoutProgress task
  | ParseError task_path string

definition lint_file :: "task_path \<times> task_file \<Rightarrow> lint_issue list" where
  "lint_file pf =
     (case pf of (p, f) \<Rightarrow>
        (case fi_content f of
           Malformed msg \<Rightarrow> [ParseError p msg]
         | Parsed fm body \<Rightarrow>
             (let t = \<lparr>t_fm = fm, t_body = body, t_path = Some p\<rparr> in
              (if fm_status fm \<noteq> fst p then [StatusMismatch t (fst p)] else [])
              @ (if fm_lease fm \<noteq> None \<and> fm_status fm \<noteq> InProgress then [LeaseWithoutProgress t] else []))))"

definition lintTasks :: "world \<Rightarrow> lint_issue list" where
  "lintTasks w = concat (map (\<lambda>s. concat (map lint_file (filter (\<lambda>(p, f). fst p = s) (w_files w)))) STATUS_DIRS)"

definition reconcile_issue :: "lint_issue \<Rightarrow> unit \<Rightarrow> unit m" where
  "reconcile_issue issue u =
     (case issue of
        StatusMismatch t currentStatus \<Rightarrow>
          (case t_path t of
             None \<Rightarrow> ret ()
           | Some oldPath \<Rightarrow>
               (let i = fm_id (t_fm t); target = fm_status (t_fm t)
                in catch
                     (andThen (rename_file oldPath (taskPath i target))
                        (catch (rename_dir (taskPath i currentStatus) (taskPath i target)) (\<lambda>_. ret ())))
                     (\<lambda>_. ret ())))
      | _ \<Rightarrow> ret ())"

definition reconcileDrift :: "unit m" where
  "reconcileDrift = bind (gets lintTasks) (\<lambda>issues. fold_m reconcile_issue issues ())"

definition init_store :: "unit m" where
  "init_store = reconcileDrift"

subsection \<open>Input and output files\<close>

definition task_files :: "(companion \<Rightarrow> string js_map) \<Rightarrow> string \<Rightarrow> string list m" where
  "task_files sel i = bind (get_task i) (\<lambda>t.
     case t of
       None \<Rightarrow> throw (TaskNotFound i)
     | Some task \<Rightarrow> gets (\<lambda>w.
         case map_of (w_dirs w) (taskPath i (fm_status (t_fm task))) of
           None \<Rightarrow> []
         | Some c \<Rightarrow> map fst (sel c)))"

definition getTaskInputs :: "string \<Rightarrow> string list m" where
  "getTaskInputs = task_files co_inputs"

definition getTaskOutputs :: "string \<Rightarrow> string list m" where
  "getTaskOutputs = task_files co_outputs"

definition writeTaskOutput :: "string \<Rightarrow> string \<Rightarrow> string \<Rightarrow> unit m" where
  "writeTaskOutput i filename content = bind (get_task i) (\<lambda>t.
     case t of
       None \<Rightarrow> throw (TaskNotFound i)
     | Some task \<Rightarrow> modify (\<lambda>w.
         let p = taskPath i (fm_status (t_fm task));
             c = or_else (map_of (w_dirs w) p) empty_companion
         in w\<lparr>w_dirs := AList.update p (c\<lparr>co_outputs := AList.update filename content (co_outputs c)\<rparr>) (w_dirs w)\<rparr>))"

end
