(* ===== verification/StoreProps.thy ===== *)
theory StoreProps
  imports TaskOps
begin

section \<open>Correctness of the store\<close>

text \<open>
  The abstract store is a partial map from ids to frontmatter and body (\<open>abs_store\<close>). A world is
  \<open>consistent\<close> when every file parses, lies in the directory of its status under its id, and no id
  has two files. On consistent worlds every operation is a map update and keeps consistency; on
  worlds with duplicates \<open>get\<close> picks the copy written last and removes the others.
\<close>

definition file_task :: "task_path \<Rightarrow> task_file \<Rightarrow> task option" where
  "file_task p f =
     (case fi_content f of Parsed fm b \<Rightarrow> Some \<lparr>t_fm = fm, t_body = b, t_path = Some p\<rparr> | Malformed msg \<Rightarrow> None)"

definition parses :: "world \<Rightarrow> bool" where
  "parses w \<longleftrightarrow> distinct (map fst (w_files w)) \<and>
     (\<forall>i s f. file_at w (taskPath i s) = Some f \<longrightarrow> (\<exists>fm b. fi_content f = Parsed fm b))"

definition consistent :: "world \<Rightarrow> bool" where
  "consistent w \<longleftrightarrow> distinct (map fst (w_files w)) \<and>
     (\<forall>i s f. file_at w (taskPath i s) = Some f \<longrightarrow>
        (\<exists>fm b. fi_content f = Parsed fm b \<and> fm_id fm = i \<and> fm_status fm = s)) \<and>
     (\<forall>i s s'. file_at w (taskPath i s) \<noteq> None \<longrightarrow> file_at w (taskPath i s') \<noteq> None \<longrightarrow> s = s')"

definition found :: "world \<Rightarrow> string \<Rightarrow> task_status \<Rightarrow> task_match list" where
  "found w i s =
     (case file_at w (taskPath i s) of
        None \<Rightarrow> []
      | Some f \<Rightarrow> (case file_task (taskPath i s) f of None \<Rightarrow> [] | Some t \<Rightarrow> [(t, fi_mtime f)]))"

definition copies :: "world \<Rightarrow> string \<Rightarrow> task_match list" where
  "copies w i = concat (map (found w i) STATUS_DIRS)"

definition abs_store :: "world \<Rightarrow> string \<Rightarrow> (frontmatter \<times> string) option" where
  "abs_store w i =
     (case copies w i of [] \<Rightarrow> None | (t, _) # _ \<Rightarrow> Some (t_fm t, t_body t))"

lemma STATUS_DIRS_all [simp]: "s \<in> set STATUS_DIRS"
  by (cases s) (simp_all add: STATUS_DIRS_def)

lemma STATUS_DIRS_distinct [simp]: "distinct STATUS_DIRS"
  by (simp add: STATUS_DIRS_def)

lemma taskPath_inject [simp]: "taskPath i s = taskPath j t \<longleftrightarrow> i = j \<and> s = t"
  by (auto simp: taskPath_def)

lemma path_or_Some [simp]: "t_path t = Some p \<Longrightarrow> path_or t q = p"
  by (simp add: path_or_def)

subsection \<open>What file operations do to a lookup\<close>

lemma file_at_put [simp]:
  "file_at (put_file p t w) q =
     (if q = p then Some \<lparr>fi_content = Parsed (t_fm t) (js_trim (t_body t)), fi_mtime = w_now w\<rparr> else file_at w q)"
  by (simp add: file_at_def put_file_def)

lemma file_at_remove [simp]: "file_at (remove_file p w) q = (if q = p then None else file_at w q)"
  by (simp add: file_at_def remove_file_def delete_conv')

lemma file_at_move [simp]:
  "p \<noteq> q \<Longrightarrow> file_at (move_file p q f w) r = (if r = q then Some f else if r = p then None else file_at w r)"
  by (auto simp: file_at_def move_file_def delete_conv')

lemma file_at_cong [simp]:
  "file_at (w\<lparr>w_dirs := d\<rparr>) p = file_at w p" "file_at (w\<lparr>w_events := e\<rparr>) p = file_at w p"
  "file_at (w\<lparr>w_runs := r\<rparr>) p = file_at w p" "file_at (w\<lparr>w_now := n\<rparr>) p = file_at w p"
  "file_at (w\<lparr>w_lastDispatchAt := n\<rparr>) p = file_at w p" "file_at (w\<lparr>w_lastDispatchByTeam := m\<rparr>) p = file_at w p"
  "file_at (w\<lparr>w_renewals := l\<rparr>) p = file_at w p" "file_at (w\<lparr>w_slaAlerts := l'\<rparr>) p = file_at w p"
  by (simp_all add: file_at_def)

lemma distinct_files [simp]:
  "distinct (map fst (w_files w)) \<Longrightarrow> distinct (map fst (w_files (put_file p t w)))"
  "distinct (map fst (w_files w)) \<Longrightarrow> distinct (map fst (w_files (remove_file p w)))"
  "distinct (map fst (w_files w)) \<Longrightarrow> distinct (map fst (w_files (move_file p q f w)))"
  by (simp_all add: put_file_def remove_file_def move_file_def distinct_update distinct_delete)

subsection \<open>get\<close>

lemma read_task_at_parses:
  assumes "parses w"
  shows "read_task_at (taskPath i s) w =
    (Inr (case file_at w (taskPath i s) of None \<Rightarrow> None | Some f \<Rightarrow> file_task (taskPath i s) f), w)"
proof (cases "file_at w (taskPath i s)")
  case (Some f)
  with assms obtain fm b where "fi_content f = Parsed fm b" unfolding parses_def by blast
  with Some show ?thesis by (simp add: read_task_at_def file_task_def run_simps)
qed (simp add: read_task_at_def run_simps)

lemma collect_match_parses:
  assumes "parses w"
  shows "collect_match i s acc w = (Inr (acc @ found w i s), w)"
  using read_task_at_parses [OF assms, of i s]
  by (auto simp: collect_match_def bind_def found_def run_simps split: option.split)

lemma collect_all_parses:
  assumes "parses w"
  shows "fold_m (collect_match i) ss acc w = (Inr (acc @ concat (map (found w i) ss)), w)"
  by (induction ss arbitrary: acc) (simp_all add: run_simps bind_def collect_match_parses [OF assms])

lemma collect_copies: "parses w \<Longrightarrow> fold_m (collect_match i) STATUS_DIRS [] w = (Inr (copies w i), w)"
  by (simp add: collect_all_parses copies_def)

lemma found_Some:
  "file_at w (taskPath i s) = Some f \<Longrightarrow> fi_content f = Parsed fm b \<Longrightarrow>
    found w i s = [(\<lparr>t_fm = fm, t_body = b, t_path = Some (taskPath i s)\<rparr>, fi_mtime f)]"
  by (simp add: found_def file_task_def)

lemma found_None: "file_at w (taskPath i s) = None \<Longrightarrow> found w i s = []"
  by (simp add: found_def)

lemma consistent_parses: "consistent w \<Longrightarrow> parses w"
  unfolding consistent_def parses_def by blast

lemma copies_single:
  assumes "\<And>s'. s' \<noteq> s \<Longrightarrow> found w i s' = []"
  shows "copies w i = found w i s"
  unfolding copies_def by (cases s) (simp_all add: STATUS_DIRS_def assms)

lemma copies_none: "(\<And>s. file_at w (taskPath i s) = None) \<Longrightarrow> copies w i = []"
  by (simp add: copies_def found_None)

lemma consistent_copies:
  assumes "consistent w" "file_at w (taskPath i s) = Some f"
  shows "\<exists>fm b. fi_content f = Parsed fm b \<and> fm_id fm = i \<and> fm_status fm = s \<and>
    copies w i = [(\<lparr>t_fm = fm, t_body = b, t_path = Some (taskPath i s)\<rparr>, fi_mtime f)]"
proof -
  from assms obtain fm b where c: "fi_content f = Parsed fm b" "fm_id fm = i" "fm_status fm = s"
    unfolding consistent_def by blast
  have "found w i s' = []" if "s' \<noteq> s" for s'
  proof -
    have "file_at w (taskPath i s') = None"
      using assms that unfolding consistent_def by (metis option.distinct(1))
    then show ?thesis by (rule found_None)
  qed
  then have "copies w i = found w i s" by (rule copies_single)
  then show ?thesis using c found_Some [OF assms(2) c(1)] by auto
qed

lemma abs_store_Some:
  assumes "consistent w"
  shows "abs_store w i = Some (fm, b) \<longleftrightarrow>
    (\<exists>f. file_at w (taskPath i (fm_status fm)) = Some f \<and> fi_content f = Parsed fm b) \<and> fm_id fm = i"
proof
  assume a: "abs_store w i = Some (fm, b)"
  then have "copies w i \<noteq> []" by (auto simp: abs_store_def)
  then obtain s f where f: "file_at w (taskPath i s) = Some f"
    using copies_none [of w i] by (metis not_None_eq)
  from consistent_copies [OF assms f] a f
  show "(\<exists>f. file_at w (taskPath i (fm_status fm)) = Some f \<and> fi_content f = Parsed fm b) \<and> fm_id fm = i"
    by (auto simp: abs_store_def)
next
  assume "(\<exists>f. file_at w (taskPath i (fm_status fm)) = Some f \<and> fi_content f = Parsed fm b) \<and> fm_id fm = i"
  then obtain f where "file_at w (taskPath i (fm_status fm)) = Some f" "fi_content f = Parsed fm b" by blast
  with consistent_copies [OF assms this(1)] show "abs_store w i = Some (fm, b)"
    by (auto simp: abs_store_def)
qed

lemma abs_store_None:
  assumes "consistent w"
  shows "abs_store w i = None \<longleftrightarrow> (\<forall>s. file_at w (taskPath i s) = None)"
proof
  assume a: "abs_store w i = None"
  show "\<forall>s. file_at w (taskPath i s) = None"
  proof (rule ccontr)
    assume "\<not> ?thesis"
    then obtain s f where "file_at w (taskPath i s) = Some f" by auto
    from consistent_copies [OF assms this] a show False by (auto simp: abs_store_def)
  qed
qed (simp add: abs_store_def copies_none)

definition loaded :: "string \<Rightarrow> frontmatter \<times> string \<Rightarrow> task" where
  "loaded i fb = \<lparr>t_fm = fst fb, t_body = snd fb, t_path = Some (taskPath i (fm_status (fst fb)))\<rparr>"

lemma loaded_simps [simp]:
  "t_fm (loaded i fb) = fst fb" "t_body (loaded i fb) = snd fb"
  "t_path (loaded i fb) = Some (taskPath i (fm_status (fst fb)))"
  by (simp_all add: loaded_def)

lemma get_task_consistent:
  assumes "consistent w"
  shows "get_task i w = (Inr (map_option (loaded i) (abs_store w i)), w)"
proof -
  note all = collect_copies [OF consistent_parses [OF assms], of i]
  show ?thesis
  proof (cases "abs_store w i")
    case None
    then have "copies w i = []" using abs_store_None [OF assms] by (simp add: copies_none)
    then show ?thesis using all None by (simp add: get_task_def bind_def run_simps)
  next
    case (Some fb)
    then obtain f where "file_at w (taskPath i (fm_status (fst fb))) = Some f"
      using abs_store_Some [OF assms] by (cases fb) auto
    from consistent_copies [OF assms this] obtain fm b where
      c: "fm_id fm = i" "fm_status fm = fm_status (fst fb)"
      "copies w i = [(\<lparr>t_fm = fm, t_body = b, t_path = Some (taskPath i (fm_status (fst fb)))\<rparr>, fi_mtime f)]"
      by blast
    then have fb: "fb = (fm, b)" using Some by (simp add: abs_store_def)
    show ?thesis
      using all c(3) Some unfolding fb by (simp add: get_task_def bind_def run_simps loaded_def)
  qed
qed

subsection \<open>One id at a time\<close>

lemma abs_store_cong:
  "(\<And>s. file_at w' (taskPath i s) = file_at w (taskPath i s)) \<Longrightarrow> abs_store w' i = abs_store w i"
  by (simp add: abs_store_def copies_def found_def cong: list.map_cong)

lemma consistent_cong:
  assumes "consistent w" "\<And>p. file_at w' p = file_at w p" "distinct (map fst (w_files w'))"
  shows "consistent w' \<and> abs_store w' = abs_store w"
proof
  show "consistent w'" using assms unfolding consistent_def by simp
  show "abs_store w' = abs_store w" using assms(2) by (intro ext abs_store_cong) simp
qed

text \<open>The files of one id are replaced by a single file in the directory of its status.\<close>

lemma consistent_replace:
  assumes cons: "consistent w" and dist: "distinct (map fst (w_files w'))"
    and at: "\<And>j s. file_at w' (taskPath j s) =
      (if j = i then (if s = fm_status fm then Some f else None) else file_at w (taskPath j s))"
    and f: "fi_content f = Parsed fm b" "fm_id fm = i"
  shows "consistent w' \<and> abs_store w' = (abs_store w)(i \<mapsto> (fm, b))"
proof
  show c: "consistent w'"
    unfolding consistent_def
  proof (intro conjI allI impI)
    fix j s g assume "file_at w' (taskPath j s) = Some g"
    then show "\<exists>fm b. fi_content g = Parsed fm b \<and> fm_id fm = j \<and> fm_status fm = s"
      using cons f unfolding consistent_def at by (auto split: if_splits)
  next
    fix j s s' assume "file_at w' (taskPath j s) \<noteq> None" "file_at w' (taskPath j s') \<noteq> None"
    then show "s = s'" using cons unfolding consistent_def at by (auto split: if_splits)
  qed (rule dist)
  show "abs_store w' = (abs_store w)(i \<mapsto> (fm, b))"
  proof
    fix j show "abs_store w' j = ((abs_store w)(i \<mapsto> (fm, b))) j"
    proof (cases "j = i")
      case True
      then show ?thesis using abs_store_Some [OF c, of i fm b] at f by simp
    next
      case False
      then show ?thesis using abs_store_cong [of w' j w] at by simp
    qed
  qed
qed

lemma consistent_delete:
  assumes cons: "consistent w" and dist: "distinct (map fst (w_files w'))"
    and at: "\<And>j s. file_at w' (taskPath j s) = (if j = i then None else file_at w (taskPath j s))"
  shows "consistent w' \<and> abs_store w' = (abs_store w)(i := None)"
proof
  show c: "consistent w'"
    using cons dist unfolding consistent_def at by (auto split: if_splits)
  show "abs_store w' = (abs_store w)(i := None)"
  proof
    fix j show "abs_store w' j = ((abs_store w)(i := None)) j"
    proof (cases "j = i")
      case True
      then show ?thesis using abs_store_None [OF c, of i] at by simp
    next
      case False
      then show ?thesis using abs_store_cong [of w' j w] at by simp
    qed
  qed
qed

text \<open>In a consistent world the files of an id are where its abstract value says.\<close>

lemma consistent_files:
  assumes "consistent w" "abs_store w i = Some (fm, b)"
  shows "fm_id fm = i" "\<exists>f. file_at w (taskPath i s) = (if s = fm_status fm then Some f else None)"
    "file_at w (taskPath i (fm_status fm)) \<noteq> None" "s \<noteq> fm_status fm \<Longrightarrow> file_at w (taskPath i s) = None"
proof -
  from assms(2) abs_store_Some [OF assms(1)] obtain f where
    f: "file_at w (taskPath i (fm_status fm)) = Some f" "fm_id fm = i" by blast
  have none: "s \<noteq> fm_status fm \<Longrightarrow> file_at w (taskPath i s) = None" for s
    using f(1) assms(1) unfolding consistent_def by (metis option.distinct(1))
  show "fm_id fm = i" by (rule f(2))
  show "\<exists>f. file_at w (taskPath i s) = (if s = fm_status fm then Some f else None)"
    using f(1) none by auto
  show "file_at w (taskPath i (fm_status fm)) \<noteq> None" using f(1) by simp
  show "s \<noteq> fm_status fm \<Longrightarrow> file_at w (taskPath i s) = None" by (rule none)
qed

lemma put_same_status:
  assumes "consistent w" "abs_store w i = Some (fm, b)" "fm_id (t_fm t) = i" "fm_status (t_fm t) = fm_status fm"
  shows "consistent (put_file (taskPath i (fm_status fm)) t w) \<and>
    abs_store (put_file (taskPath i (fm_status fm)) t w) = (abs_store w)(i \<mapsto> (t_fm t, js_trim (t_body t)))"
  by (rule consistent_replace [OF assms(1), where f = "\<lparr>fi_content = Parsed (t_fm t) (js_trim (t_body t)), fi_mtime = w_now w\<rparr>"])
    (use assms consistent_files(4) [OF assms(1,2)] in \<open>auto simp: consistent_def\<close>)

subsection \<open>transition\<close>

lemma transition_fm_simps [simp]:
  "fm_status (transition_fm fm s p ts) = s" "fm_id (transition_fm fm s p ts) = fm_id fm"
  "fm_dependsOn (transition_fm fm s p ts) = fm_dependsOn fm"
  "fm_workflow (transition_fm fm s p ts) = fm_workflow fm"
  "fm_lease (transition_fm fm s p ts) = (if s = Done \<or> s = Ready \<or> s = Backlog then None else fm_lease fm)"
  "fm_metadata (transition_fm fm s p ts) = (case p of None \<Rightarrow> fm_metadata fm | Some q \<Rightarrow> fm_metadata fm ++ q)"
  by (simp_all add: transition_fm_def Let_def split: option.split)

definition moved :: "string \<Rightarrow> task_status \<Rightarrow> task_status \<Rightarrow> task \<Rightarrow> world \<Rightarrow> world" where
  "moved i s s' t w =
     remove_file (taskPath i s)
       (case map_of (w_dirs w) (taskPath i s) of
          None \<Rightarrow> put_file (taskPath i s') t w
        | Some c \<Rightarrow> (put_file (taskPath i s') t w)
            \<lparr>w_dirs := AList.update (taskPath i s') c (AList.delete (taskPath i s) (w_dirs w))\<rparr>)"

lemma w_dirs_files [simp]:
  "w_dirs (put_file p t w) = w_dirs w" "w_dirs (remove_file p w) = w_dirs w"
  "w_events (put_file p t w) = w_events w" "w_now (put_file p t w) = w_now w" "w_now (remove_file p w) = w_now w"
  by (simp_all add: put_file_def remove_file_def)

lemma move_task_ok:
  assumes "s \<noteq> s'" "file_at w (taskPath i s) \<noteq> None" "map_of (w_dirs w) (taskPath i s') = None"
  shows "move_task i s s' (taskPath i s) (taskPath i s') t w = (Inr (), moved i s s' t w)"
proof (cases "map_of (w_dirs w) (taskPath i s)")
  case None
  then show ?thesis
    using assms by (auto simp: move_task_def write_task_def rename_dir_def bind_def andThen_def catch_def
        unlink_def moved_def run_simps)
next
  case (Some c)
  then show ?thesis
    using assms by (auto simp: move_task_def write_task_def rename_dir_def bind_def andThen_def catch_def
        unlink_def moved_def run_simps)
qed

lemma move_task_conflict:
  assumes "s \<noteq> s'" "map_of (w_dirs w) (taskPath i s) \<noteq> None" "map_of (w_dirs w) (taskPath i s') \<noteq> None"
  shows "move_task i s s' (taskPath i s) (taskPath i s') t w =
    (Inl ENOTEMPTY, remove_file (taskPath i s') (put_file (taskPath i s') t w))"
  using assms by (auto simp: move_task_def write_task_def rename_dir_def bind_def andThen_def catch_def
      unlink_def run_simps)

lemma moved_consistent:
  assumes "consistent w" "abs_store w i = Some (fm, b)" "fm_id (t_fm t) = i" "fm_status (t_fm t) = s'" "s' \<noteq> fm_status fm"
  shows "consistent (moved i (fm_status fm) s' t w) \<and>
    abs_store (moved i (fm_status fm) s' t w) = (abs_store w)(i \<mapsto> (t_fm t, js_trim (t_body t)))"
  by (rule consistent_replace [OF assms(1), where f = "\<lparr>fi_content = Parsed (t_fm t) (js_trim (t_body t)), fi_mtime = w_now w\<rparr>"])
    (use assms consistent_files(4) [OF assms(1,2)] in \<open>auto simp: consistent_def moved_def split: option.split\<close>)

lemma found_frame [simp]:
  "found (w\<lparr>w_events := e\<rparr>) = found w" "found (w\<lparr>w_dirs := d\<rparr>) = found w"
  "found (w\<lparr>w_runs := r\<rparr>) = found w" "found (w\<lparr>w_renewals := l\<rparr>) = found w"
  by (simp_all add: found_def fun_eq_iff)

lemma consistent_frame [simp]:
  "consistent (w\<lparr>w_events := e\<rparr>) = consistent w" "abs_store (w\<lparr>w_events := e\<rparr>) = abs_store w"
  "consistent (w\<lparr>w_dirs := d\<rparr>) = consistent w" "abs_store (w\<lparr>w_dirs := d\<rparr>) = abs_store w"
  "consistent (w\<lparr>w_runs := r\<rparr>) = consistent w" "abs_store (w\<lparr>w_runs := r\<rparr>) = abs_store w"
  "consistent (w\<lparr>w_renewals := l\<rparr>) = consistent w" "abs_store (w\<lparr>w_renewals := l\<rparr>) = abs_store w"
  by (simp_all add: consistent_def abs_store_def copies_def fun_eq_iff)

lemma log_event_run: "log_event ty a i pl w = (Inr (), w\<lparr>w_events := w_events w @
    [\<lparr>ev_type = ty, ev_actor = a, ev_taskId = i, ev_timestamp = w_now w, ev_payload = pl\<rparr>]\<rparr>)"
  by (simp add: log_event_def run_simps)

lemma log_transition_run: "\<exists>e. log_transition_events i s s' opts w = (Inr (), w\<lparr>w_events := e\<rparr>)"
  by (auto simp: log_transition_events_def andThen_def bind_def log_event_run when_m_def run_simps split: option.split)

definition transition_result :: "string \<Rightarrow> task_status \<Rightarrow> transition_opts \<Rightarrow> int \<Rightarrow> frontmatter \<times> string \<Rightarrow> task" where
  "transition_result i s' opts ts fb =
     \<lparr>t_fm = transition_fm (fst fb) s' (to_metadataPatch opts) ts, t_body = snd fb, t_path = Some (taskPath i s')\<rparr>"

lemma transition_task_cases:
  assumes "consistent w"
  shows "abs_store w i = None \<Longrightarrow> transition_task i s' opts w = (Inl (TaskNotFound i), w)"
    and "abs_store w i = Some fb \<Longrightarrow> fm_status (fst fb) = s' \<Longrightarrow>
           transition_task i s' opts w = (Inr (loaded i fb), w)"
    and "abs_store w i = Some fb \<Longrightarrow> fm_status (fst fb) \<noteq> s' \<Longrightarrow> \<not> isValidTransition (fm_status (fst fb)) s' \<Longrightarrow>
           transition_task i s' opts w = (Inl (InvalidTransition (fm_status (fst fb)) s' i), w)"
    and "abs_store w i = Some fb \<Longrightarrow> isValidTransition (fm_status (fst fb)) s' \<Longrightarrow>
           transition_task i s' opts w =
             andThen (move_task i (fm_status (fst fb)) s' (taskPath i (fm_status (fst fb))) (taskPath i s')
                        ((loaded i fb)\<lparr>t_fm := transition_fm (fst fb) s' (to_metadataPatch opts) (w_now w)\<rparr>))
               (andThen (log_transition_events i (fm_status (fst fb)) s' opts)
                  (ret (transition_result i s' opts (w_now w) fb))) w"
  using get_task_consistent [OF assms, of i]
  by (auto simp: transition_task_def bind_def run_simps Let_def now_def path_or_def transition_result_def loaded_def
      split: prod.splits)

text \<open>A transition on the abstract store: it succeeds unless both companion directories exist.\<close>

lemma transition_moved:
  assumes cons: "consistent w" and abs: "abs_store w i = Some fb" and valid: "isValidTransition (fm_status (fst fb)) s'"
    and free: "\<not> (map_of (w_dirs w) (taskPath i (fm_status (fst fb))) \<noteq> None \<and> map_of (w_dirs w) (taskPath i s') \<noteq> None)"
  shows "\<exists>w'. transition_task i s' opts w = (Inr (transition_result i s' opts (w_now w) fb), w') \<and>
    consistent w' \<and>
    abs_store w' = (abs_store w)(i \<mapsto> (transition_fm (fst fb) s' (to_metadataPatch opts) (w_now w), js_trim (snd fb)))"
proof -
  obtain fm b where fb: "fb = (fm, b)" by (cases fb)
  let ?t = "(loaded i fb)\<lparr>t_fm := transition_fm fm s' (to_metadataPatch opts) (w_now w)\<rparr>"
  have ne: "fm_status fm \<noteq> s'" using valid fb by auto
  note files = consistent_files [OF cons, of i fm b, OF abs [unfolded fb]]
  have move: "move_task i (fm_status fm) s' (taskPath i (fm_status fm)) (taskPath i s') ?t w
      = (Inr (), moved i (fm_status fm) s' ?t w)"
    using ne files(3) free fb
    by (auto simp: move_task_def write_task_def rename_dir_def bind_def andThen_def catch_def
        unlink_def moved_def run_simps split: option.splits)
  obtain e where e: "log_transition_events i (fm_status fm) s' opts (moved i (fm_status fm) s' ?t w)
      = (Inr (), (moved i (fm_status fm) s' ?t w)\<lparr>w_events := e\<rparr>)"
    using log_transition_run by blast
  have "consistent (moved i (fm_status fm) s' ?t w) \<and>
      abs_store (moved i (fm_status fm) s' ?t w) = (abs_store w)(i \<mapsto> (t_fm ?t, js_trim (t_body ?t)))"
    by (rule moved_consistent [OF cons abs [unfolded fb]]) (use files(1) ne in auto)
  then show ?thesis
    using transition_task_cases(4) [OF cons abs valid, of opts] move e
    by (simp add: fb andThen_def bind_def run_simps)
qed

text \<open>
  C3: \<open>transition\<close> implements the status machine on the abstract store. An unknown id is refused,
  the current status is a no-op, a step outside \<open>VALID_TRANSITIONS\<close> is refused, all with the store
  untouched; a valid step replaces the task's entry (status, times, merged metadata, lease cleared
  on \<open>done\<close>, \<open>ready\<close> and \<open>backlog\<close>), leaves every other task alone and leaves the directory
  layout consistent.
\<close>

theorem transition_refines:
  assumes "consistent w" and "map_of (w_dirs w) (taskPath i s') = None"
  shows "case abs_store w i of
      None \<Rightarrow> transition_task i s' opts w = (Inl (TaskNotFound i), w)
    | Some (fm, b) \<Rightarrow>
        (if fm_status fm = s' then transition_task i s' opts w = (Inr (loaded i (fm, b)), w)
         else if \<not> isValidTransition (fm_status fm) s'
         then transition_task i s' opts w = (Inl (InvalidTransition (fm_status fm) s' i), w)
         else \<exists>w'. transition_task i s' opts w = (Inr (transition_result i s' opts (w_now w) (fm, b)), w') \<and>
           consistent w' \<and>
           abs_store w' = (abs_store w)(i \<mapsto> (transition_fm fm s' (to_metadataPatch opts) (w_now w), js_trim b)))"
proof (cases "abs_store w i")
  case (Some fb)
  then show ?thesis
    using transition_task_cases(2,3) [OF assms(1) Some] transition_moved [OF assms(1) Some, of s' opts] assms(2)
    by (cases fb) auto
qed (simp add: transition_task_cases(1) [OF assms(1)])

lemma transition_conflict:
  assumes cons: "consistent w" and abs: "abs_store w i = Some fb" and valid: "isValidTransition (fm_status (fst fb)) s'"
    and dirs: "map_of (w_dirs w) (taskPath i (fm_status (fst fb))) \<noteq> None" "map_of (w_dirs w) (taskPath i s') \<noteq> None"
  shows "\<exists>w'. transition_task i s' opts w = (Inl ENOTEMPTY, w') \<and> consistent w' \<and> abs_store w' = abs_store w"
proof -
  obtain fm b where fb: "fb = (fm, b)" by (cases fb)
  let ?t = "(loaded i fb)\<lparr>t_fm := transition_fm fm s' (to_metadataPatch opts) (w_now w)\<rparr>"
  let ?w = "remove_file (taskPath i s') (put_file (taskPath i s') ?t w)"
  have ne: "fm_status fm \<noteq> s'" using valid fb by auto
  have none: "file_at w (taskPath i s') = None"
    using consistent_files(4) [OF cons abs [unfolded fb]] ne by simp
  have "consistent ?w \<and> abs_store ?w = abs_store w"
    by (rule consistent_cong [OF cons]) (use none cons in \<open>auto simp: consistent_def\<close>)
  moreover have "move_task i (fm_status fm) s' (taskPath i (fm_status fm)) (taskPath i s') ?t w = (Inl ENOTEMPTY, ?w)"
    by (rule move_task_conflict) (use ne dirs fb in auto)
  ultimately show ?thesis
    using transition_task_cases(4) [OF cons abs valid, of opts] by (simp add: fb andThen_def bind_def)
qed

text \<open>
  Fact: a transition is all or nothing. On a consistent store, whatever the companion directories
  are, a transition either succeeds as above or throws and leaves every task as it was; the store
  is consistent afterwards in both cases.
\<close>

theorem transition_atomic:
  assumes cons: "consistent w" and run: "transition_task i s' opts w = (r, w')"
  shows "consistent w' \<and>
    (case r of
       Inl e \<Rightarrow> abs_store w' = abs_store w
     | Inr t \<Rightarrow> abs_store w' = (abs_store w)(i \<mapsto> (t_fm t, snd (the (abs_store w' i)))) \<and> fm_status (t_fm t) = s')"
proof (cases "abs_store w i")
  case None
  then show ?thesis using run transition_task_cases(1) [OF cons] cons by auto
next
  case (Some fb)
  show ?thesis
  proof (cases "isValidTransition (fm_status (fst fb)) s'")
    case False
    then show ?thesis
      using run transition_task_cases(2,3) [OF cons Some, of s' opts] cons Some
      by (cases "fm_status (fst fb) = s'") (auto simp: fun_eq_iff)
  next
    case valid: True
    let ?old = "map_of (w_dirs w) (taskPath i (fm_status (fst fb)))"
    show ?thesis
    proof (cases "?old \<noteq> None \<and> map_of (w_dirs w) (taskPath i s') \<noteq> None")
      case True
      then show ?thesis using transition_conflict [OF cons Some valid, of opts] run by auto
    next
      case False
      then show ?thesis
        using transition_moved [OF cons Some valid, of opts] run by (auto simp: transition_result_def)
    qed
  qed
qed

end
