(* ===== verification/StoreOpsProps.thy ===== *)
theory StoreOpsProps
  imports StoreProps
begin

section \<open>Specifications of the other store operations\<close>

text \<open>
  Cancel, block, unblock, update, updateBody, delete and create on the abstract store, and the
  invariant that all operations keep the store consistent, whether they succeed or throw.
\<close>

lemma with_task:
  assumes "consistent w"
  shows "bind (get_task i) (\<lambda>t. case t of None \<Rightarrow> throw e | Some t \<Rightarrow> k t) w =
    (case abs_store w i of None \<Rightarrow> (Inl e, w) | Some fb \<Rightarrow> k (loaded i fb) w)"
  using get_task_consistent [OF assms, of i]
  by (cases "abs_store w i") (simp_all add: bind_run run_simps)

lemma rename_file_run: "file_at w p = Some f \<Longrightarrow> rename_file p q w = (Inr (), move_file p q f w)"
  by (simp add: rename_file_def run_simps)

lemma catch_rename_dir: "\<exists>d. catch (rename_dir p q) (\<lambda>_. ret ()) w = (Inr (), w\<lparr>w_dirs := d\<rparr>)"
proof -
  have same: "\<exists>d. w = w\<lparr>w_dirs := d\<rparr>" by (rule exI [of _ "w_dirs w"]) simp
  show ?thesis
    by (auto simp: rename_dir_def catch_def bind_def run_simps same split: option.split)
qed

lemma unlink_run: "file_at w p \<noteq> None \<Longrightarrow> unlink p w = (Inr (), remove_file p w)"
  by (auto simp: unlink_def run_simps)

lemma cancelled_fm_simps [simp]:
  "fm_status (cancelled_fm fm r ts) = Cancelled" "fm_id (cancelled_fm fm r ts) = fm_id fm"
  "fm_lease (cancelled_fm fm r ts) = None"
  by (simp_all add: cancelled_fm_def Let_def split: option.split)

lemma cancel_spec:
  assumes cons: "consistent w" and abs: "abs_store w i = Some (fm, b)" and st: "fm_status fm \<notin> {Done, Cancelled}"
  shows "\<exists>w'. cancel_task i reason w =
      (Inr \<lparr>t_fm = cancelled_fm fm reason (w_now w), t_body = b, t_path = Some (taskPath i Cancelled)\<rparr>, w') \<and>
    consistent w' \<and> abs_store w' = (abs_store w)(i \<mapsto> (cancelled_fm fm reason (w_now w), js_trim b))"
proof -
  let ?fm = "cancelled_fm fm reason (w_now w)"
  let ?t = "(loaded i (fm, b))\<lparr>t_fm := ?fm\<rparr>"
  let ?p = "taskPath i (fm_status fm)" and ?q = "taskPath i Cancelled"
  let ?f = "\<lparr>fi_content = Parsed ?fm (js_trim b), fi_mtime = w_now w\<rparr>"
  let ?w1 = "put_file ?p ?t w" and ?w2 = "move_file ?p ?q ?f (put_file ?p ?t w)"
  note files = consistent_files [OF cons abs]
  obtain d where d: "catch (rename_dir ?p ?q) (\<lambda>_. ret ()) ?w2 = (Inr (), ?w2\<lparr>w_dirs := d\<rparr>)"
    using catch_rename_dir by blast
  have r: "rename_file ?p ?q ?w1 = (Inr (), ?w2)" by (rule rename_file_run) simp
  obtain e where e: "log_event ''task.cancelled'' ''system'' (Some i)
      (opt_str ''reason'' reason @ [(''from'', JStr (status_str (fm_status fm)))]) (?w2\<lparr>w_dirs := d\<rparr>)
      = (Inr (), ?w2\<lparr>w_dirs := d, w_events := e\<rparr>)"
    by (auto simp: log_event_run)
  have "cancel_task i reason w = (Inr (?t\<lparr>t_path := Some ?q\<rparr>), ?w2\<lparr>w_dirs := d, w_events := e\<rparr>)"
    unfolding cancel_task_def with_task [OF cons] abs
    using st by (auto simp: Let_def now_def path_or_def write_task_def run_simps
        bind_run(3) [where f = "rename_file ?p ?q", OF r] 
        bind_run(3) [where f = "catch (rename_dir ?p ?q) (\<lambda>_. ret ())", OF d]
        bind_run(3) [where f = "log_event ''task.cancelled'' ''system'' (Some i)
          (opt_str ''reason'' reason @ [(''from'', JStr (status_str (fm_status fm)))])", OF e])
  moreover have "consistent ?w2 \<and> abs_store ?w2 = (abs_store w)(i \<mapsto> (?fm, js_trim b))"
    by (rule consistent_replace [OF cons, where f = ?f])
      (use cons st files(1) files(4) in \<open>auto simp: consistent_def\<close>)
  ultimately show ?thesis by (intro exI [of _ "?w2\<lparr>w_dirs := d, w_events := e\<rparr>"]) simp
qed

text \<open>
  Fact: \<open>cancel\<close> takes any task that is not \<open>done\<close> or \<open>cancelled\<close> to \<open>cancelled\<close>, without a lease and
  with the reason recorded; from \<open>done\<close> and \<open>cancelled\<close> it is refused with the store unchanged. This
  includes \<open>deadletter\<close>, from where \<open>VALID_TRANSITIONS\<close> allows no step to \<open>cancelled\<close>.
\<close>

theorem cancel_refines:
  assumes "consistent w" "abs_store w i = Some (fm, b)"
  shows "if fm_status fm \<in> {Done, Cancelled}
    then cancel_task i reason w = (Inl (TerminalState i (fm_status fm)), w)
    else \<exists>t w'. cancel_task i reason w = (Inr t, w') \<and> consistent w' \<and>
      abs_store w' = (abs_store w)(i \<mapsto> (cancelled_fm fm reason (w_now w), js_trim b)) \<and> fm_lease (t_fm t) = None"
proof (cases "fm_status fm \<in> {Done, Cancelled}")
  case True
  then show ?thesis
    unfolding cancel_task_def with_task [OF assms(1)] assms(2) by (auto simp: Let_def run_simps)
next
  case False
  from cancel_spec [OF assms False, of reason] obtain w' where
    w': "cancel_task i reason w =
      (Inr \<lparr>t_fm = cancelled_fm fm reason (w_now w), t_body = b, t_path = Some (taskPath i Cancelled)\<rparr>, w')"
    "consistent w'" "abs_store w' = (abs_store w)(i \<mapsto> (cancelled_fm fm reason (w_now w), js_trim b))" by blast
  then have "\<exists>t w'. cancel_task i reason w = (Inr t, w') \<and> consistent w' \<and>
      abs_store w' = (abs_store w)(i \<mapsto> (cancelled_fm fm reason (w_now w), js_trim b)) \<and> fm_lease (t_fm t) = None"
    by (intro exI conjI) (rule w'(1), rule w'(2), rule w'(3), simp)
  then show ?thesis unfolding if_not_P [OF False] .
qed

subsection \<open>Consistency is an invariant\<close>

lemma log_keeps: "consistent w \<Longrightarrow> consistent (snd (log_event ty a i p w))"
  by (simp add: log_event_run)

lemma preserves_log [wf_intros]: "preserves consistent (log_event ty a i p)"
  by (simp add: preserves_def log_keeps)

lemma transition_task_keeps:
  assumes "consistent w" shows "consistent (snd (transition_task i s opts w))"
proof (cases "abs_store w i")
  case None
  then show ?thesis using transition_task_cases(1) [OF assms] assms by simp
next
  case (Some fb)
  obtain fm b where fb: "fb = (fm, b)" by (cases fb)
  show ?thesis
  proof (cases "isValidTransition (fm_status fm) s")
    case False
    then show ?thesis
      using transition_task_cases(2,3) [OF assms Some, of s opts] assms
      by (cases "fm_status fm = s") (auto simp: fb)
  next
    case valid: True
    show ?thesis
    proof (cases "map_of (w_dirs w) (taskPath i (fm_status fm)) \<noteq> None \<and> map_of (w_dirs w) (taskPath i s) \<noteq> None")
      case True
      then show ?thesis using transition_conflict [OF assms Some, of s opts] valid by (auto simp: fb)
    next
      case False
      then show ?thesis using transition_moved [OF assms Some, of s opts] valid by (auto simp: fb)
    qed
  qed
qed

lemma preserves_transition [wf_intros]: "preserves consistent (transition_task i s opts)"
  by (simp add: preserves_def transition_task_keeps)

lemma preserves_get [wf_intros]: "preserves consistent (get_task i)"
  by (simp add: preserves_def get_task_consistent)

text \<open>An operation that reads a task and goes on with it.\<close>

lemma preserves_with_task:
  assumes "\<And>w fb. consistent w \<Longrightarrow> abs_store w i = Some fb \<Longrightarrow> consistent (snd (k (loaded i fb) w))"
  shows "preserves consistent (bind (get_task i) (\<lambda>t. case t of None \<Rightarrow> throw e | Some t \<Rightarrow> k t))"
  unfolding preserves_def
proof (intro allI impI)
  fix w assume "consistent w"
  then show "consistent (snd (bind (get_task i) (\<lambda>t. case t of None \<Rightarrow> throw e | Some t \<Rightarrow> k t) w))"
    unfolding with_task [OF \<open>consistent w\<close>] using assms [of w]
    by (auto split: option.split)
qed

lemma write_then_keeps:
  assumes "consistent w" "abs_store w i = Some fb" "fm_id (t_fm t) = fm_id (fst fb)" "fm_status (t_fm t) = fm_status (fst fb)"
    and "preserves consistent f"
  shows "consistent (snd (andThen (write_task (taskPath i (fm_status (fst fb))) t) f w))"
proof -
  obtain fm b where fb: "fb = (fm, b)" by (cases fb)
  have "consistent (put_file (taskPath i (fm_status fm)) t w)"
    using put_same_status [OF assms(1) assms(2) [unfolded fb], of t] assms(3,4)
      consistent_files(1) [OF assms(1) assms(2) [unfolded fb]] by (simp add: fb)
  then show ?thesis using assms(5) by (simp add: write_task_def fb preserves_def)
qed

lemma preserves_cancel: "preserves consistent (cancel_task i reason)"
proof -
  have "consistent (snd (cancel_task i reason w))" if "consistent w" for w
  proof (cases "abs_store w i")
    case None
    then show ?thesis unfolding cancel_task_def with_task [OF that] using that by simp
  next
    case (Some fb)
    obtain fm b where fb: "fb = (fm, b)" by (cases fb)
    show ?thesis
    proof (cases "fm_status fm \<in> {Done, Cancelled}")
      case True
      then show ?thesis
        unfolding cancel_task_def with_task [OF that] Some fb using that by (auto simp: Let_def run_simps)
    next
      case False
      then show ?thesis using cancel_spec [OF that Some [unfolded fb] False, of reason] by auto
    qed
  qed
  then show ?thesis by (simp add: preserves_def)
qed

lemma preserves_block: "preserves consistent (block_task i reason)"
  unfolding block_task_def
proof (rule preserves_with_task)
  fix w fb assume w: "consistent w" "abs_store w i = Some fb"
  show "consistent (snd ((let currentStatus = fm_status (t_fm (loaded i fb)) in
          if currentStatus = Blocked then throw (AlreadyBlocked i)
          else if currentStatus \<in> {Done, Cancelled, Deadletter} then throw (TerminalState i currentStatus)
          else
            andThen (write_task (path_or (loaded i fb) (taskPath i currentStatus))
                       (with_metadata (\<lambda>m. m(''blockReason'' \<mapsto> JStr reason)) (loaded i fb)))
              (bind (transition_task i Blocked no_opts) (\<lambda>blocked.
                 andThen (log_event ''task.blocked'' ''system'' (Some i) [(''reason'', JStr reason)])
                   (ret blocked)))) w))"
    using w by (auto simp: Let_def run_simps path_or_def with_metadata_def intro!: write_then_keeps wf_intros)
qed

lemma preserves_unblock: "preserves consistent (unblock_task i)"
  unfolding unblock_task_def
proof (rule preserves_with_task)
  fix w fb assume w: "consistent w" "abs_store w i = Some fb"
  let ?t = "with_metadata (\<lambda>m. m(''blockReason'' := None, ''retryCount'' := None)) (loaded i fb)"
  let ?rest = "bind (transition_task i Ready no_opts) (\<lambda>r.
      andThen (log_event ''task.unblocked'' ''system'' (Some i) []) (ret r))"
  have "consistent (snd (andThen (write_task (taskPath i (fm_status (fst fb))) ?t) ?rest w))"
    by (rule write_then_keeps [OF w]) (auto simp: with_metadata_def intro!: wf_intros)
  then show "consistent (snd ((let currentStatus = fm_status (t_fm (loaded i fb)) in
          if currentStatus \<noteq> Blocked then throw (NotBlocked i currentStatus)
          else andThen (write_task (path_or (loaded i fb) (taskPath i currentStatus)) ?t) ?rest) w))"
    using w(1) by (cases "fm_status (fst fb) = Blocked") (auto simp: Let_def run_simps)
qed

lemma apply_patch_simps [simp]:
  "fm_id (t_fm (apply_patch h p ts t)) = fm_id (t_fm t)"
  "fm_status (t_fm (apply_patch h p ts t)) = fm_status (t_fm t)"
  by (auto simp: apply_patch_def Let_def split: option.split)

lemma preserves_update: "preserves consistent (update_task h i p)"
  unfolding update_task_def
proof (rule preserves_with_task)
  fix w fb assume w: "consistent w" "abs_store w i = Some fb"
  let ?t1 = "apply_patch h p (w_now w) (loaded i fb)"
  let ?rest = "andThen (when_m (length (patch_changes p (loaded i fb)) > 0)
      (log_event ''task.updated'' ''system'' (Some i) [(''changes'', JObj (patch_changes p (loaded i fb)))])) (ret ?t1)"
  have "consistent (snd (andThen (write_task (taskPath i (fm_status (fst fb))) ?t1) ?rest w))"
    by (rule write_then_keeps [OF w]) (auto intro!: wf_intros)
  then show "consistent (snd ((if fm_status (t_fm (loaded i fb)) = Done then throw (TerminalState i Done)
         else bind now (\<lambda>ts.
           let task1 = apply_patch h p ts (loaded i fb)
           in andThen (write_task (path_or (loaded i fb) (taskPath i (fm_status (t_fm task1)))) task1)
                (andThen
                   (when_m (length (patch_changes p (loaded i fb)) > 0)
                      (log_event ''task.updated'' ''system'' (Some i) [(''changes'', JObj (patch_changes p (loaded i fb)))]))
                   (ret task1)))) w))"
    using w(1) by (simp add: run_simps now_def Let_def)
qed

lemma preserves_update_body: "preserves consistent (update_body h i body)"
  unfolding update_body_def
proof (rule preserves_with_task)
  fix w fb assume w: "consistent w" "abs_store w i = Some fb"
  let ?t1 = "(loaded i fb)\<lparr>t_body := body,
               t_fm := (fst fb)\<lparr>fm_contentHash := Some (h body), fm_updatedAt := w_now w\<rparr>\<rparr>"
  have "consistent (snd (andThen (write_task (taskPath i (fm_status (fst fb))) ?t1) (ret ?t1) w))"
    by (rule write_then_keeps [OF w]) (auto intro!: wf_intros)
  then show "consistent (snd (bind now (\<lambda>ts.
         let task1 = (loaded i fb)\<lparr>t_body := body,
               t_fm := (t_fm (loaded i fb))\<lparr>fm_contentHash := Some (h body), fm_updatedAt := ts\<rparr>\<rparr>
         in andThen (write_task (path_or task1 (taskPath i (fm_status (t_fm task1)))) task1) (ret task1)) w))"
    by (simp add: now_def Let_def path_or_def)
qed

lemma delete_spec:
  assumes "consistent w"
  shows "case abs_store w i of
      None \<Rightarrow> delete_task i w = (Inr False, w)
    | Some fb \<Rightarrow> \<exists>w'. delete_task i w = (Inr True, w') \<and> consistent w' \<and> abs_store w' = (abs_store w)(i := None)"
proof (cases "abs_store w i")
  case None
  then show ?thesis using get_task_consistent [OF assms, of i] by (simp add: delete_task_def bind_run run_simps)
next
  case (Some fb)
  obtain fm b where fb: "fb = (fm, b)" by (cases fb)
  let ?p = "taskPath i (fm_status fm)"
  note files = consistent_files [OF assms, of i fm b, OF Some [unfolded fb]]
  have "unlink ?p w = (Inr (), remove_file ?p w)" using files(3) by (rule unlink_run)
  then have "delete_task i w = (Inr True, remove_file ?p w)"
    using get_task_consistent [OF assms, of i] Some
    by (simp add: delete_task_def bind_run path_or_def fb catch_def andThen_def bind_def run_simps)
  moreover have "consistent (remove_file ?p w) \<and> abs_store (remove_file ?p w) = (abs_store w)(i := None)"
    by (rule consistent_delete [OF assms]) (use assms files(4) in \<open>auto simp: consistent_def\<close>)
  ultimately show ?thesis using Some by auto
qed

lemma preserves_delete: "preserves consistent (delete_task i)"
  unfolding preserves_def
proof (intro allI impI)
  fix w assume w: "consistent w"
  show "consistent (snd (delete_task i w))"
    using delete_spec [OF w, of i] w by (cases "abs_store w i") auto
qed

lemma new_frontmatter_simps [simp]:
  "fm_id (new_frontmatter h pr opts wfl i ts) = i"
  "fm_status (new_frontmatter h pr opts wfl i ts) = or_else (cr_initialStatus opts) Backlog"
  "fm_workflow (new_frontmatter h pr opts wfl i ts) = wfl"
  by (simp_all add: new_frontmatter_def)

lemma ensure_dirs_run: "\<exists>d. ensureTaskDirs i s w = (Inr (), w\<lparr>w_dirs := d\<rparr>)"
proof -
  have same: "\<exists>d. w = w\<lparr>w_dirs := d\<rparr>" by (rule exI [of _ "w_dirs w"]) simp
  show ?thesis by (auto simp: ensureTaskDirs_def run_simps same)
qed

lemma create_loop_spec:
  assumes cons: "consistent w" and fresh: "\<And>k. abs_store w (nextTaskId day (suffix k) (w_now w)) = None"
  shows "case create_loop h pr day suffix opts wfl (Suc n) w of
      (Inl e, w') \<Rightarrow> w' = w
    | (Inr t, w') \<Rightarrow> consistent w' \<and> abs_store w (fm_id (t_fm t)) = None \<and> schema_ok (t_fm t) \<and>
        fm_status (t_fm t) = or_else (cr_initialStatus opts) Backlog \<and> fm_workflow (t_fm t) = wfl \<and>
        abs_store w' = (abs_store w)(fm_id (t_fm t) \<mapsto> (t_fm t, js_trim (t_body t)))"
proof -
  let ?i = "nextTaskId day (suffix n) (w_now w)"
  let ?s = "or_else (cr_initialStatus opts) Backlog"
  let ?fm = "new_frontmatter h pr opts wfl ?i (w_now w)"
  let ?t = "\<lparr>t_fm = ?fm, t_body = or_else (cr_body opts) [], t_path = None\<rparr>"
  let ?p = "taskPath ?i ?s"
  show ?thesis
  proof (cases "schema_ok ?fm")
    case False
    then show ?thesis by (simp add: Let_def now_def run_simps)
  next
    case True
    have none: "file_at w (taskPath ?i s) = None" for s
      using fresh [of n] abs_store_None [OF cons] by blast
    obtain d where d: "ensureTaskDirs ?i ?s (put_file ?p ?t w) = (Inr (), (put_file ?p ?t w)\<lparr>w_dirs := d\<rparr>)"
      using ensure_dirs_run by blast
    have run: "create_loop h pr day suffix opts wfl (Suc n) w =
        (Inr (?t\<lparr>t_path := Some ?p\<rparr>), (put_file ?p ?t w)\<lparr>w_dirs := d\<rparr>)"
      using True none [of ?s] d
      by (simp add: Let_def now_def write_task_def run_simps andThen_def bind_def)
    have "consistent (put_file ?p ?t w) \<and> abs_store (put_file ?p ?t w) = (abs_store w)(?i \<mapsto> (?fm, js_trim (t_body ?t)))"
      by (rule consistent_replace [OF cons, where f = "\<lparr>fi_content = Parsed ?fm (js_trim (t_body ?t)), fi_mtime = w_now w\<rparr>"])
        (use cons none in \<open>auto simp: consistent_def\<close>)
    then show ?thesis using True fresh [of n] unfolding run by simp
  qed
qed

text \<open>
  Fact: \<open>create\<close> adds exactly one task. When the generated ids are new to the store, creation either
  throws and changes nothing (an invalid workflow, a schema violation) or returns a task that
  satisfies the schema, has the requested initial status and, if a workflow was given, a validated
  definition with its initial state; the store gains that entry and keeps the others.
\<close>

theorem create_refines:
  assumes "consistent w" and "\<And>k. abs_store w (nextTaskId day (suffix k) (w_now w)) = None"
  shows "case create_task hash projectId day suffix opts w of
      (Inl e, w') \<Rightarrow> w' = w
    | (Inr t, w') \<Rightarrow> consistent w' \<and> schema_ok (t_fm t) \<and> abs_store w (fm_id (t_fm t)) = None \<and>
        fm_status (t_fm t) = or_else (cr_initialStatus opts) Backlog \<and>
        (case cr_workflow opts of
           None \<Rightarrow> fm_workflow (t_fm t) = None
         | Some (defn, n) \<Rightarrow> validateDAG defn = [] \<and>
             (\<exists>wf. fm_workflow (t_fm t) = Some wf \<and> tw_definition wf = defn \<and> tw_state wf = initializeWorkflowState defn)) \<and>
        abs_store w' = (abs_store w)(fm_id (t_fm t) \<mapsto> (t_fm t, js_trim (t_body t)))"
proof (cases "resolve_workflow (cr_workflow opts)")
  case (Inl e)
  then show ?thesis by (simp add: create_task_def run_simps)
next
  case (Inr wfl)
  have wf: "case cr_workflow opts of None \<Rightarrow> wfl = None
      | Some (defn, n) \<Rightarrow> validateDAG defn = [] \<and>
          (\<exists>wf. wfl = Some wf \<and> tw_definition wf = defn \<and> tw_state wf = initializeWorkflowState defn)"
    using Inr by (auto simp: resolve_workflow_def Let_def split: option.splits if_splits)
  have "create_task hash projectId day suffix opts = create_loop hash projectId day suffix opts wfl (Suc 999)"
    by (simp add: create_task_def Inr eval_nat_numeral)
  then show ?thesis
    using create_loop_spec [where day = day and suffix = suffix and h = hash and pr = projectId and opts = opts and wfl = wfl and n = 999, OF assms] wf
    by (auto split: prod.splits sum.splits option.splits)
qed

end
