(* ===== verification/StoreInterface.thy ===== *)
theory StoreInterface
  imports StoreOpsProps
begin

section \<open>The store as its clients see it (ITaskStore)\<close>

text \<open>
  The contract of \<open>ITaskStore\<close> the dispatcher relies on, as a locale: \<open>get\<close> reads the view of the
  store, \<open>transition\<close> changes at most the entry it names and moves its status along
  \<open>VALID_TRANSITIONS\<close>, and both keep the store well formed. The lemmas of the locale are what
  clients use; the interpretation at the end proves the contract for the filesystem store.
\<close>

locale task_store =
  fixes get :: "string \<Rightarrow> 'w \<Rightarrow> (error + task option) \<times> 'w"
    and trans :: "string \<Rightarrow> task_status \<Rightarrow> 'o \<Rightarrow> 'w \<Rightarrow> (error + task) \<times> 'w"
    and ok :: "'w \<Rightarrow> bool"
    and view :: "'w \<Rightarrow> string \<Rightarrow> (frontmatter \<times> string) option"
  assumes get_view: "ok w \<Longrightarrow> get i w = (Inr (map_option (loaded i) (view w i)), w)"
    and trans_ok: "ok w \<Longrightarrow> ok (snd (trans i s opts w))"
    and trans_other: "ok w \<Longrightarrow> j \<noteq> i \<Longrightarrow> view (snd (trans i s opts w)) j = view w j"
    and trans_none: "ok w \<Longrightarrow> view w i = None \<Longrightarrow> view (snd (trans i s opts w)) i = None"
    and trans_some: "ok w \<Longrightarrow> view w i = Some fb \<Longrightarrow>
      \<exists>fb'. view (snd (trans i s opts w)) i = Some fb' \<and>
        (fm_status (fst fb') = fm_status (fst fb) \<or>
         isValidTransition (fm_status (fst fb)) s \<and> fm_status (fst fb') = s)"
    and trans_returns: "ok w \<Longrightarrow> trans i s opts w = (Inr t, w') \<Longrightarrow>
      \<exists>fb'. view w' i = Some fb' \<and> fm_status (fst fb') = s \<and> fm_status (t_fm t) = s"
begin

lemma trans_status:
  assumes "ok w" "view w i = Some fb"
  shows "\<exists>fb'. view (snd (trans j s opts w)) i = Some fb' \<and>
    reachable_status (fm_status (fst fb)) (fm_status (fst fb'))"
proof (cases "j = i")
  case True
  from trans_some [OF assms, of s opts] show ?thesis
    unfolding True by (auto intro: reach1)
next
  case False
  then show ?thesis using trans_other [OF assms(1), of i j s opts] assms(2) by auto
qed

text \<open>Carrying out a list of transition requests, refused ones included.\<close>

lemma requests_ok: "ok w \<Longrightarrow> ok (fold (\<lambda>(i, s, opts) w. snd (trans i s opts w)) reqs w)"
  by (induction reqs arbitrary: w) (auto intro: trans_ok)

lemma requests_status:
  assumes "ok w" "view w i = Some fb"
  shows "\<exists>fb'. view (fold (\<lambda>(i, s, opts) w. snd (trans i s opts w)) reqs w) i = Some fb' \<and>
    reachable_status (fm_status (fst fb)) (fm_status (fst fb'))"
  using assms
proof (induction reqs arbitrary: w fb)
  case Nil
  then show ?case by simp
next
  case (Cons req reqs)
  obtain j s opts where req: "req = (j, s, opts)" by (cases req)
  from trans_status [OF Cons.prems] obtain fb1 where
    b: "view (snd (trans j s opts w)) i = Some fb1" "reachable_status (fm_status (fst fb)) (fm_status (fst fb1))"
    by blast
  from Cons.IH [OF trans_ok [OF Cons.prems(1)] b(1)] b(2) show ?case
    unfolding req fold.simps o_apply prod.case reachable_status_def by (metis rtranclp_trans)
qed

lemma get_after_trans:
  assumes "ok w" "trans i s opts w = (Inr t, w')"
  shows "\<exists>t'. get i w' = (Inr (Some t'), w') \<and> fm_status (t_fm t') = s"
proof -
  from trans_returns [OF assms] obtain fb' where "view w' i = Some fb'" "fm_status (fst fb') = s" by blast
  moreover have "ok w'" using trans_ok [OF assms(1), of i s opts] assms(2) by simp
  ultimately show ?thesis using get_view [of w' i] by simp
qed

end

lemma transition_view:
  assumes cons: "consistent w"
  shows "abs_store w i = Some fb \<Longrightarrow> \<exists>fb'. abs_store (snd (transition_task i s opts w)) i = Some fb' \<and>
      (fm_status (fst fb') = fm_status (fst fb) \<or> isValidTransition (fm_status (fst fb)) s \<and> fm_status (fst fb') = s)"
    and "j \<noteq> i \<Longrightarrow> abs_store (snd (transition_task i s opts w)) j = abs_store w j"
    and "abs_store w i = None \<Longrightarrow> abs_store (snd (transition_task i s opts w)) i = None"
    and "transition_task i s opts w = (Inr t, w') \<Longrightarrow>
      \<exists>fb'. abs_store w' i = Some fb' \<and> fm_status (fst fb') = s \<and> fm_status (t_fm t) = s"
proof -
  have some: "(\<exists>fb'. abs_store (snd (transition_task i s opts w)) i = Some fb' \<and>
      (fm_status (fst fb') = fm_status (fst fb) \<or> isValidTransition (fm_status (fst fb)) s \<and> fm_status (fst fb') = s)) \<and>
    (\<forall>j. j \<noteq> i \<longrightarrow> abs_store (snd (transition_task i s opts w)) j = abs_store w j) \<and>
    (\<forall>t w'. transition_task i s opts w = (Inr t, w') \<longrightarrow>
      (\<exists>fb'. abs_store w' i = Some fb' \<and> fm_status (fst fb') = s \<and> fm_status (t_fm t) = s))"
    if abs: "abs_store w i = Some fb" for fb
  proof (cases "isValidTransition (fm_status (fst fb)) s")
    case False
    then show ?thesis
      using transition_task_cases(2,3) [OF cons abs, of s opts] abs
      by (cases fb; cases "fm_status (fst fb) = s") auto
  next
    case True
    show ?thesis
    proof (cases "map_of (w_dirs w) (taskPath i (fm_status (fst fb))) \<noteq> None \<and> map_of (w_dirs w) (taskPath i s) \<noteq> None")
      case conflict: True
      then show ?thesis using transition_conflict [OF cons abs True, of opts] abs by (cases fb) auto
    next
      case False
      then show ?thesis using transition_moved [OF cons abs True, of opts] True by (auto simp: transition_result_def)
    qed
  qed
  show "abs_store w i = Some fb \<Longrightarrow> \<exists>fb'. abs_store (snd (transition_task i s opts w)) i = Some fb' \<and>
      (fm_status (fst fb') = fm_status (fst fb) \<or> isValidTransition (fm_status (fst fb)) s \<and> fm_status (fst fb') = s)"
    using some by blast
  show "j \<noteq> i \<Longrightarrow> abs_store (snd (transition_task i s opts w)) j = abs_store w j"
    using some transition_task_cases(1) [OF cons, of i s opts] by (cases "abs_store w i") auto
  show "abs_store w i = None \<Longrightarrow> abs_store (snd (transition_task i s opts w)) i = None"
    using transition_task_cases(1) [OF cons, of i s opts] by simp
  show "transition_task i s opts w = (Inr t, w') \<Longrightarrow>
      \<exists>fb'. abs_store w' i = Some fb' \<and> fm_status (fst fb') = s \<and> fm_status (t_fm t) = s"
    using some transition_task_cases(1) [OF cons, of i s opts] by (cases "abs_store w i") auto
qed

interpretation fs: task_store get_task transition_task consistent abs_store
  by unfold_locales
    (fact get_task_consistent transition_task_keeps transition_view(2) transition_view(3)
      transition_view(1) transition_view(4))+

definition run_requests :: "(string \<times> task_status \<times> transition_opts) list \<Rightarrow> world \<Rightarrow> world" where
  "run_requests = fold (\<lambda>(i, s, opts) w. snd (transition_task i s opts w))"

text \<open>
  C11: no sequence of \<open>transition\<close> requests, accepted or refused, on any tasks, takes a task's
  status off the status machine: the final status is reachable from the first by valid
  transitions, so a finished or cancelled task stays so, and no request loses a task.
\<close>

theorem transition_requests_safe:
  assumes "consistent w" "abs_store w i = Some (fm, b)"
  shows "\<exists>fm' b'. abs_store (run_requests reqs w) i = Some (fm', b') \<and>
    reachable_status (fm_status fm) (fm_status fm') \<and> consistent (run_requests reqs w)"
  using fs.requests_status [OF assms, of reqs] fs.requests_ok [OF assms(1), of reqs]
  by (auto simp: run_requests_def)

end
