(* ===== verification/StoreRecovery.thy ===== *)
theory StoreRecovery
  imports StoreProps "HOL-Library.Multiset"
begin

section \<open>Duplicates, crashes and reconciliation\<close>

text \<open>
  What the store makes of a directory tree that an interrupted operation left behind: \<open>get\<close> on an
  id with several files keeps the one written last and removes the others; any prefix of the file
  operations of a transition leaves a readable copy of the task; the reconciliation pass of
  \<open>init\<close> moves every file to the directory of its status.
\<close>

subsection \<open>Removing stale copies\<close>

lemma remove_stale_run:
  "\<exists>w'. fold_m remove_stale ms u w = (Inr u', w') \<and> w_dirs w' = w_dirs w \<and>
    (distinct (map fst (w_files w)) \<longrightarrow> distinct (map fst (w_files w'))) \<and>
    (\<forall>p. file_at w' p = (if Some p \<in> (t_path \<circ> fst) ` set ms then None else file_at w p))"
  for u u' :: unit
proof (induction ms arbitrary: u w)
  case Nil
  then show ?case by (auto simp: run_simps)
next
  case (Cons m ms)
  show ?case
  proof (cases "t_path (fst m)")
    case None
    then show ?thesis using Cons.IH [of _ w] by (auto simp: remove_stale_def)
  next
    case (Some q)
    from Cons.IH [of "()" "remove_file q w"] obtain w' where
      w': "fold_m remove_stale ms () (remove_file q w) = (Inr u', w')" "w_dirs w' = w_dirs w"
      "distinct (map fst (w_files (remove_file q w))) \<longrightarrow> distinct (map fst (w_files w'))"
      "\<And>p. file_at w' p = (if Some p \<in> (t_path \<circ> fst) ` set ms then None else file_at (remove_file q w) p)"
      by auto
    have "remove_stale m u w = (Inr (), remove_file q w)" by (simp add: remove_stale_def Some run_simps)
    then have "fold_m remove_stale (m # ms) u w = (Inr u', w')" using w'(1) by (simp add: bind_run)
    then show ?thesis
      by (rule_tac exI [of _ w']) (use w'(2-4) Some in auto)
  qed
qed

lemma found_path: "m \<in> set (found w i s) \<Longrightarrow> t_path (fst m) = Some (taskPath i s)"
  by (cases "file_at w (taskPath i s)")
    (auto simp: found_def file_task_def split: option.splits file_content.splits)

lemma found_memE:
  assumes "(t, n) \<in> set (found w i s)"
  obtains f where "file_at w (taskPath i s) = Some f" "file_task (taskPath i s) f = Some t"
  using assms by (cases "file_at w (taskPath i s)"; cases "file_task (taskPath i s) (the (file_at w (taskPath i s)))")
    (auto simp: found_def)

lemma copies_paths: "distinct (map (t_path \<circ> fst) (copies w i))"
proof -
  have one: "found w i s = [] \<or> (\<exists>m. found w i s = [m])" for s
    by (simp add: found_def split: option.split)
  have "distinct ss \<Longrightarrow> distinct (map (t_path \<circ> fst) (concat (map (found w i) ss)))" for ss
  proof (induction ss)
    case (Cons s ss)
    have "t_path (fst m) \<noteq> t_path (fst m')"
      if "m \<in> set (found w i s)" "s' \<in> set ss" "m' \<in> set (found w i s')" for m m' s'
      using found_path [OF that(1)] found_path [OF that(3)] that(2) Cons.prems by auto
    then have "(t_path \<circ> fst) ` set (found w i s) \<inter> (t_path \<circ> fst) ` set (concat (map (found w i) ss)) = {}"
      by fastforce
    moreover have "distinct (map (t_path \<circ> fst) (found w i s))" using one [of s] by auto
    ultimately show ?case using Cons by (simp add: o_def)
  qed simp
  then show ?thesis by (simp add: copies_def)
qed

lemma copies_filter:
  assumes "\<And>p. file_at w' p = (if Some p \<in> P then None else file_at w p)"
  shows "copies w' i = filter (\<lambda>m. t_path (fst m) \<notin> P) (copies w i)"
proof -
  have "found w' i s = filter (\<lambda>m. t_path (fst m) \<notin> P) (found w i s)" for s
    by (auto simp: found_def assms file_task_def split: option.split file_content.split)
  then show ?thesis unfolding copies_def filter_concat map_map o_def by presburger
qed

lemma copies_in_paths: "m \<in> set (copies w i) \<Longrightarrow> \<exists>s. t_path (fst m) = Some (taskPath i s)"
  unfolding copies_def using found_path by fastforce

lemma get_task_heals_aux:
  assumes "parses w" "copies w i \<noteq> []"
  shows "\<exists>t n w'. get_task i w = (Inr (Some t), w') \<and> (t, n) \<in> set (copies w i) \<and>
    (\<forall>m \<in> set (copies w i). snd m \<le> n) \<and> copies w' i = [(t, n)] \<and> (\<forall>j. j \<noteq> i \<longrightarrow> copies w' j = copies w j) \<and>
    w_dirs w' = w_dirs w \<and> distinct (map fst (w_files w')) \<and>
    (\<forall>p. file_at w' p \<noteq> None \<longrightarrow> file_at w' p = file_at w p)"
proof (cases "length (copies w i) \<le> 1")
  case True
  then obtain t n where c: "copies w i = [(t, n)]" using assms(2) by (cases "copies w i") auto
  have "get_task i w = (Inr (Some t), w)"
    using collect_copies [OF assms(1), of i] c by (simp add: get_task_def bind_def run_simps)
  then show ?thesis using c assms(1) by (auto simp: parses_def)
next
  case False
  obtain winner stale where sorted: "sort_key (\<lambda>m. - snd m) (copies w i) = winner # stale"
    using assms(2) by (cases "sort_key (\<lambda>m. - snd m) (copies w i)")
      (auto dest: arg_cong [where f = length])
  have perm: "mset (winner # stale) = mset (copies w i)" by (metis mset_sort sorted)
  then have set: "set (winner # stale) = set (copies w i)" by (metis set_mset_mset)
  have max: "snd m \<le> snd winner" if "m \<in> set (copies w i)" for m
  proof -
    have "sorted (map (\<lambda>m. - snd m) (winner # stale))" by (metis sorted sorted_sort_key)
    then show ?thesis using that set by auto
  qed
  have dist: "distinct (map (t_path \<circ> fst) (winner # stale))"
    using copies_paths [of w i] perm by (metis mset_eq_imp_distinct_iff mset_map)
  obtain w' where w': "fold_m remove_stale stale () w = (Inr (), w')" "w_dirs w' = w_dirs w"
    "distinct (map fst (w_files w')) "
    "\<And>p. file_at w' p = (if Some p \<in> (t_path \<circ> fst) ` set stale then None else file_at w p)"
    using remove_stale_run [of stale "()" w "()"] assms(1) by (auto simp: parses_def)
  note flt = copies_filter [of w' "(t_path \<circ> fst) ` set stale" w, OF w'(4)]
  have "get_task i w = (Inr (Some (fst winner)), w')"
    using collect_copies [OF assms(1), of i] False sorted w'(1)
    by (simp add: get_task_def bind_def andThen_def run_simps)
  moreover have "copies w' i = [winner]"
  proof -
    let ?P = "\<lambda>m. t_path (fst m) \<notin> (t_path \<circ> fst) ` set stale"
    have one: "filter ?P (winner # stale) = [winner]" using dist by (auto simp: filter_empty_conv)
    have "mset (copies w' i) = mset (filter ?P (winner # stale))"
      by (simp only: flt mset_filter perm)
    also have "\<dots> = {#winner#}" by (simp only: one) simp
    finally show ?thesis by simp
  qed
  moreover have "copies w' j = copies w j" if "j \<noteq> i" for j
  proof -
    have "t_path (fst m) \<notin> (t_path \<circ> fst) ` set stale" if "m \<in> set (copies w j)" for m
      using copies_in_paths [OF that] set \<open>j \<noteq> i\<close> copies_in_paths [of _ w i] by fastforce
    then show ?thesis by (simp add: flt filter_id_conv)
  qed
  ultimately show ?thesis
    using max set w' by (intro exI [of _ "fst winner"] exI [of _ "snd winner"] exI [of _ w']) auto
qed

lemma parses_sub:
  assumes "parses w" "distinct (map fst (w_files w'))"
    and "\<And>p. file_at w' p \<noteq> None \<Longrightarrow> file_at w' p = file_at w p"
  shows "parses w'"
  using assms unfolding parses_def by (metis option.distinct(1))

text \<open>
  Fact: \<open>get\<close> heals duplicates. If an id has files in several status directories, \<open>get\<close> returns the
  copy with the latest modification time and removes the others, without touching other ids or
  the companion directories; asking again returns the same task and changes nothing.
\<close>

theorem get_self_heals:
  assumes "parses w" "copies w i \<noteq> []"
  shows "\<exists>t n w'. get_task i w = (Inr (Some t), w') \<and> (t, n) \<in> set (copies w i) \<and>
    (\<forall>m \<in> set (copies w i). snd m \<le> n) \<and> copies w' i = [(t, n)] \<and>
    (\<forall>j. j \<noteq> i \<longrightarrow> copies w' j = copies w j) \<and> w_dirs w' = w_dirs w \<and> get_task i w' = (Inr (Some t), w')"
proof -
  from get_task_heals_aux [OF assms] obtain t n w' where
    h: "get_task i w = (Inr (Some t), w')" "(t, n) \<in> set (copies w i)" "\<forall>m \<in> set (copies w i). snd m \<le> n"
    "copies w' i = [(t, n)]" "\<forall>j. j \<noteq> i \<longrightarrow> copies w' j = copies w j" "w_dirs w' = w_dirs w"
    "distinct (map fst (w_files w'))" "\<And>p. file_at w' p \<noteq> None \<Longrightarrow> file_at w' p = file_at w p" by blast
  have "parses w'" using parses_sub [OF assms(1) h(7,8)] .
  then have "get_task i w' = (Inr (Some t), w')"
    using collect_copies [of w' i] h(4) by (simp add: get_task_def bind_def run_simps)
  with h show ?thesis by blast
qed

subsection \<open>A transition that is interrupted\<close>

text \<open>The file operations of \<open>move_task\<close>, in order.\<close>

definition move_companion :: "string \<Rightarrow> task_status \<Rightarrow> task_status \<Rightarrow> world \<Rightarrow> world" where
  "move_companion i s s' w =
     (case map_of (w_dirs w) (taskPath i s) of
        None \<Rightarrow> w
      | Some c \<Rightarrow> w\<lparr>w_dirs := AList.update (taskPath i s') c (AList.delete (taskPath i s) (w_dirs w))\<rparr>)"

definition move_steps :: "string \<Rightarrow> task_status \<Rightarrow> task_status \<Rightarrow> task \<Rightarrow> (world \<Rightarrow> world) list" where
  "move_steps i s s' t =
     [put_file (taskPath i s') t, move_companion i s s', remove_file (taskPath i s)]"

lemma moved_steps: "moved i s s' t w = fold id (move_steps i s s' t) w"
  by (simp add: moved_def move_steps_def move_companion_def split: option.split)

lemma file_at_companion [simp]: "file_at (move_companion i s s' w) p = file_at w p"
  "w_files (move_companion i s s' w) = w_files w"
  by (simp_all add: move_companion_def split: option.split)

lemma prefix_files:
  assumes "n \<le> 3"
  shows "file_at (fold id (take n (move_steps i s s' t)) w) p =
    (if n = 3 \<and> p = taskPath i s then None
     else if n \<ge> 1 \<and> p = taskPath i s' then Some \<lparr>fi_content = Parsed (t_fm t) (js_trim (t_body t)), fi_mtime = w_now w\<rparr>
     else file_at w p)"
    and "distinct (map fst (w_files w)) \<Longrightarrow> distinct (map fst (w_files (fold id (take n (move_steps i s s' t)) w)))"
proof -
  from assms consider "n = 0" | "n = 1" | "n = 2" | "n = 3" by linarith
  note cases = this
  show "file_at (fold id (take n (move_steps i s s' t)) w) p =
    (if n = 3 \<and> p = taskPath i s then None
     else if n \<ge> 1 \<and> p = taskPath i s' then Some \<lparr>fi_content = Parsed (t_fm t) (js_trim (t_body t)), fi_mtime = w_now w\<rparr>
     else file_at w p)"
    by (rule cases) (simp_all add: move_steps_def numeral_2_eq_2 numeral_3_eq_3)
  show "distinct (map fst (w_files w)) \<Longrightarrow> distinct (map fst (w_files (fold id (take n (move_steps i s s' t)) w)))"
    by (rule cases) (simp_all add: move_steps_def numeral_2_eq_2 numeral_3_eq_3)
qed


subsection \<open>Reconciliation\<close>

text \<open>Every file parses, is named after its id, and no id has two files; the directories may be
  wrong.\<close>

definition named_right :: "world \<Rightarrow> bool" where
  "named_right w \<longleftrightarrow> distinct (map fst (w_files w)) \<and>
     (\<forall>i s f. file_at w (taskPath i s) = Some f \<longrightarrow> (\<exists>fm b. fi_content f = Parsed fm b \<and> fm_id fm = i)) \<and>
     (\<forall>i s s'. file_at w (taskPath i s) \<noteq> None \<longrightarrow> file_at w (taskPath i s') \<noteq> None \<longrightarrow> s = s')"

definition misplaced :: "world \<Rightarrow> string \<Rightarrow> bool" where
  "misplaced w i \<longleftrightarrow> (\<exists>s f fm b. file_at w (taskPath i s) = Some f \<and> fi_content f = Parsed fm b \<and> fm_status fm \<noteq> s)"

lemma rename_dir_dirs:
  "\<exists>d. catch (rename_dir p q) (\<lambda>_. ret ()) w = (Inr (), w\<lparr>w_dirs := d\<rparr>)"
proof -
  have same: "\<exists>d. w = w\<lparr>w_dirs := d\<rparr>" by (rule exI [of _ "w_dirs w"]) simp
  show ?thesis
    by (auto simp: rename_dir_def catch_def bind_def run_simps same split: option.split)
qed

lemma copies_frame [simp]: "copies (w\<lparr>w_dirs := d\<rparr>) = copies w"
  by (simp add: copies_def fun_eq_iff)

lemma reconcile_issue_run:
  assumes named: "named_right w" and at: "file_at w (taskPath i s) = Some f" "fi_content f = Parsed fm b"
    and ne: "fm_status fm \<noteq> s"
  shows "\<exists>w'. reconcile_issue (StatusMismatch \<lparr>t_fm = fm, t_body = b, t_path = Some (taskPath i s)\<rparr> s) u w = (Inr (), w') \<and>
    named_right w' \<and> abs_store w' = abs_store w \<and> \<not> misplaced w' i \<and>
    (\<forall>j s'. j \<noteq> i \<longrightarrow> file_at w' (taskPath j s') = file_at w (taskPath j s'))"
proof -
  let ?p = "taskPath i s" and ?q = "taskPath i (fm_status fm)"
  let ?w = "move_file ?p ?q f w"
  have i: "fm_id fm = i" using named at unfolding named_right_def by (metis file_content.inject(1))
  have free: "file_at w (taskPath i s') = None" if "s' \<noteq> s" for s'
    using named at(1) that unfolding named_right_def by (metis option.distinct(1))
  obtain d where d: "catch (rename_dir ?p ?q) (\<lambda>_. ret ()) ?w = (Inr (), ?w\<lparr>w_dirs := d\<rparr>)"
    using rename_dir_dirs by blast
  let ?w' = "?w\<lparr>w_dirs := d\<rparr>"
  have run: "reconcile_issue (StatusMismatch \<lparr>t_fm = fm, t_body = b, t_path = Some ?p\<rparr> s) u w = (Inr (), ?w')"
  proof -
    have "rename_file ?p ?q w = (Inr (), ?w)" using at(1) by (simp add: rename_file_def run_simps)
    then have "andThen (rename_file ?p ?q) (catch (rename_dir ?p ?q) (\<lambda>_. ret ())) w = (Inr (), ?w')"
      by (simp add: bind_run(3) d)
    then show ?thesis by (simp add: reconcile_issue_def Let_def i catch_run(1))
  qed
  have at': "file_at ?w' (taskPath j s') =
      (if j = i then (if s' = fm_status fm then Some f else None) else file_at w (taskPath j s'))" for j s'
    using ne free [of s'] by (cases "s' = s") auto
  have "named_right ?w'"
    using named i at(2) unfolding named_right_def at' by (auto split: if_splits)
  moreover have "\<not> misplaced ?w' i" using at(2) unfolding misplaced_def at' by (auto split: if_splits)
  moreover have "abs_store ?w' j = abs_store w j" for j
  proof (cases "j = i")
    case True
    have "found ?w' i s' = []" if "s' \<noteq> fm_status fm" for s' using that at' [of i s'] by (simp add: found_def)
    then have "copies ?w' i = found ?w' i (fm_status fm)" by (rule copies_single)
    moreover have "copies w i = found w i s" by (rule copies_single) (simp add: found_None free)
    ultimately show ?thesis
      using True at at' [of i "fm_status fm"] by (simp add: abs_store_def found_def file_task_def)
  qed (intro abs_store_cong, simp only: at', simp)
  ultimately show ?thesis using run at' by (intro exI [of _ ?w']) (simp add: fun_eq_iff)
qed

fun mismatch_id :: "lint_issue \<Rightarrow> string list" where
  "mismatch_id (StatusMismatch t s) = [fm_id (t_fm t)]"
| "mismatch_id _ = []"

definition issue_true :: "world \<Rightarrow> lint_issue \<Rightarrow> bool" where
  "issue_true w x \<longleftrightarrow>
     (\<forall>t s. x = StatusMismatch t s \<longrightarrow>
        (\<exists>f fm b. file_at w (taskPath (fm_id fm) s) = Some f \<and> fi_content f = Parsed fm b \<and>
           t = \<lparr>t_fm = fm, t_body = b, t_path = Some (taskPath (fm_id fm) s)\<rparr> \<and> fm_status fm \<noteq> s))"

lemma reconcile_fold:
  fixes u u' :: unit
  assumes "named_right w" "distinct (concat (map mismatch_id issues))" "\<forall>x \<in> set issues. issue_true w x"
  shows "\<exists>w'. fold_m reconcile_issue issues u w = (Inr u', w') \<and> named_right w' \<and> abs_store w' = abs_store w \<and>
    (\<forall>i. misplaced w' i \<longrightarrow> misplaced w i \<and> i \<notin> set (concat (map mismatch_id issues)))"
  using assms
proof (induction issues arbitrary: w u)
  case Nil
  then show ?case by (auto simp: run_simps)
next
  case (Cons x issues)
  show ?case
  proof (cases "\<exists>t s. x = StatusMismatch t s")
    case True
    with Cons.prems(3) obtain s f fm b where x: "x = StatusMismatch \<lparr>t_fm = fm, t_body = b, t_path = Some (taskPath (fm_id fm) s)\<rparr> s"
      "file_at w (taskPath (fm_id fm) s) = Some f" "fi_content f = Parsed fm b" "fm_status fm \<noteq> s"
      by (auto simp: issue_true_def)
    from reconcile_issue_run [OF Cons.prems(1) x(2-4), of u] obtain w1 where
      w1: "reconcile_issue x u w = (Inr (), w1)" "named_right w1" "abs_store w1 = abs_store w" "\<not> misplaced w1 (fm_id fm)"
      "\<And>j s'. j \<noteq> fm_id fm \<Longrightarrow> file_at w1 (taskPath j s') = file_at w (taskPath j s')" unfolding x(1) by blast
    have notin: "fm_id fm \<notin> set (concat (map mismatch_id issues))" and dist: "distinct (concat (map mismatch_id issues))"
      using Cons.prems(2) by (auto simp: x(1))
    have mis: "misplaced w1 j \<longleftrightarrow> misplaced w j" if "j \<noteq> fm_id fm" for j
      using w1(5) [OF that] by (simp add: misplaced_def)
    have "issue_true w1 y" if y: "y \<in> set issues" for y
      unfolding issue_true_def
    proof (intro allI impI)
      fix t' s' assume yt: "y = StatusMismatch t' s'"
      with Cons.prems(3) y obtain f' fm' b' where
        y': "file_at w (taskPath (fm_id fm') s') = Some f'" "fi_content f' = Parsed fm' b'"
        "t' = \<lparr>t_fm = fm', t_body = b', t_path = Some (taskPath (fm_id fm') s')\<rparr>" "fm_status fm' \<noteq> s'"
      proof -
        have "issue_true w (StatusMismatch t' s')" using Cons.prems(3) y yt by simp
        then show thesis unfolding issue_true_def using that by blast
      qed
      have "fm_id fm' \<in> set (concat (map mismatch_id issues))" using y yt y'(3) by force
      then have "fm_id fm' \<noteq> fm_id fm" using notin by metis
      with w1(5) y' show "\<exists>f fm b. file_at w1 (taskPath (fm_id fm) s') = Some f \<and> fi_content f = Parsed fm b \<and>
           t' = \<lparr>t_fm = fm, t_body = b, t_path = Some (taskPath (fm_id fm) s')\<rparr> \<and> fm_status fm \<noteq> s'" by auto
    qed
    with Cons.IH [OF w1(2) dist, of "()"] obtain w' where
      w': "fold_m reconcile_issue issues () w1 = (Inr u', w')" "named_right w'" "abs_store w' = abs_store w1"
      "\<And>i. misplaced w' i \<Longrightarrow> misplaced w1 i \<and> i \<notin> set (concat (map mismatch_id issues))" by blast
    have "fold_m reconcile_issue (x # issues) u w = (Inr u', w')" using w1(1) w'(1) by (simp add: bind_run)
    moreover have "misplaced w i \<and> i \<notin> set (concat (map mismatch_id (x # issues)))" if "misplaced w' i" for i
    proof -
      from w'(4) [OF that] w1(4) have "i \<noteq> fm_id fm" by auto
      with w'(4) [OF that] mis show ?thesis by (simp add: x(1))
    qed
    ultimately show ?thesis using w'(2,3) w1(3) by (intro exI [of _ w']) auto
  next
    case False
    then have "reconcile_issue x u w = (Inr (), w)" "mismatch_id x = []"
      by (cases x; simp add: reconcile_issue_def run_simps)+
    with Cons.IH [of w "()"] Cons.prems show ?thesis by (simp add: bind_run)
  qed
qed

lemma lint_mismatches:
  assumes "named_right w"
  shows "distinct (concat (map mismatch_id (lintTasks w)))" "\<forall>x \<in> set (lintTasks w). issue_true w x"
    "misplaced w i \<Longrightarrow> i \<in> set (concat (map mismatch_id (lintTasks w)))"
proof -
  define L where "L = concat (map (\<lambda>s. filter (\<lambda>(p, f). fst p = s) (w_files w)) STATUS_DIRS)"
  have lint: "lintTasks w = concat (map lint_file L)"
  proof -
    have "concat (map (\<lambda>s. concat (map lint_file (g s))) ss) = concat (map lint_file (concat (map g ss)))" for g and ss :: "task_status list"
      by (induction ss) auto
    then show ?thesis by (simp add: lintTasks_def L_def)
  qed
  have setL: "set L = set (w_files w)" by (auto simp: L_def)
  have dist: "distinct (map fst (w_files w))" using assms by (simp add: named_right_def)
  then have distL: "distinct L"
    by (auto simp: L_def STATUS_DIRS_def distinct_map)
  have at: "file_at w p = Some f" if "(p, f) \<in> set L" for p f
    using that dist setL by (simp add: file_at_def)
  have inj: "inj_on (snd \<circ> fst) (set L)"
  proof (rule inj_onI)
    fix a b assume ab: "a \<in> set L" "b \<in> set L" "(snd \<circ> fst) a = (snd \<circ> fst) b"
    obtain s i f where a: "a = (taskPath i s, f)" by (cases a) (auto simp: taskPath_def)
    obtain s' f' where b: "b = (taskPath i s', f')" using ab(3) a by (cases b) (auto simp: taskPath_def)
    have "file_at w (taskPath i s) = Some f" "file_at w (taskPath i s') = Some f'" using at ab(1,2) a b by auto
    moreover from this have "s = s'" using assms unfolding named_right_def by (metis option.distinct(1))
    ultimately show "a = b" using a b by simp
  qed
  have ids: "concat (map mismatch_id (lint_file a)) = (case fi_content (snd a) of
      Parsed fm b \<Rightarrow> if fm_status fm \<noteq> fst (fst a) then [snd (fst a)] else [] | Malformed m \<Rightarrow> [])"
    if "a \<in> set L" for a
  proof -
    obtain s i f where a: "a = (taskPath i s, f)" by (cases a) (auto simp: taskPath_def)
    with at that assms obtain fm b where "fi_content f = Parsed fm b" "fm_id fm = i" unfolding named_right_def by blast
    then show ?thesis by (simp add: a lint_file_def taskPath_def Let_def)
  qed
  let ?bad = "\<lambda>a. case fi_content (snd a) of Parsed fm b \<Rightarrow> fm_status fm \<noteq> fst (fst a) | Malformed m \<Rightarrow> False"
  have "set M \<subseteq> set L \<Longrightarrow> concat (map mismatch_id (concat (map lint_file M))) = map (snd \<circ> fst) (filter ?bad M)" for M
    by (induction M) (auto simp: ids split: file_content.split)
  then have mm: "concat (map mismatch_id (lintTasks w)) = map (snd \<circ> fst) (filter ?bad L)"
    by (simp add: lint)
  show "distinct (concat (map mismatch_id (lintTasks w)))"
    unfolding mm using distL inj by (simp add: distinct_map inj_on_def)
  show "\<forall>x \<in> set (lintTasks w). issue_true w x"
  proof
    fix x assume "x \<in> set (lintTasks w)"
    then obtain a where a: "a \<in> set L" "x \<in> set (lint_file a)" by (auto simp: lint)
    obtain s i f where a': "a = (taskPath i s, f)" by (cases a) (auto simp: taskPath_def)
    with at a(1) assms obtain fm b where fm: "file_at w (taskPath i s) = Some f" "fi_content f = Parsed fm b" "fm_id fm = i"
      unfolding named_right_def by blast
    with a(2) a' show "issue_true w x"
      by (auto simp: issue_true_def lint_file_def Let_def taskPath_def split: if_splits)
  qed
  assume "misplaced w i"
  then obtain s f fm b where m: "file_at w (taskPath i s) = Some f" "fi_content f = Parsed fm b" "fm_status fm \<noteq> s"
    by (auto simp: misplaced_def)
  then have "(taskPath i s, f) \<in> set L" using setL by (auto simp: file_at_def dest: map_of_SomeD)
  then show "i \<in> set (concat (map mismatch_id (lintTasks w)))"
    unfolding mm using m(2,3) by (force simp: taskPath_def)
qed

text \<open>
  Fact: the reconciliation pass of \<open>init\<close> repairs a directory tree in which files lie in the wrong
  status directory (what a \<open>cancel\<close> interrupted between its write and its rename leaves): it never
  fails, every file ends up in the directory its frontmatter names, and no task is lost or changed.
\<close>

theorem init_reconciles:
  assumes "named_right w"
  shows "\<exists>w'. init_store w = (Inr (), w') \<and> consistent w' \<and> abs_store w' = abs_store w"
proof -
  note lint = lint_mismatches [OF assms]
  obtain w' where w': "fold_m reconcile_issue (lintTasks w) () w = (Inr (), w')" "named_right w'"
    "abs_store w' = abs_store w" "\<And>i. misplaced w' i \<Longrightarrow> misplaced w i \<and> i \<notin> set (concat (map mismatch_id (lintTasks w)))"
    using reconcile_fold [OF assms lint(1,2), of "()" "()"] by blast
  have "\<not> misplaced w' i" for i using w'(4) lint(3) by blast
  then have "consistent w'"
    using w'(2) unfolding consistent_def named_right_def misplaced_def by (smt (verit, del_insts))
  with w' show ?thesis
    by (intro exI [of _ w']) (simp add: init_store_def reconcileDrift_def bind_run run_simps)
qed

end
