(* ===== verification/StoreExamples.thy ===== *)
theory StoreExamples
  imports StoreInterface StoreRecovery StoreOpsProps
begin

section \<open>The store on concrete worlds\<close>

text \<open>
  A store with one task in \<open>ready\<close>, the same store with a stale second copy of the task in
  \<open>backlog\<close>, and one whose task lies in the wrong directory; the properties of the store applied
  to them.
\<close>

definition sample_id :: string where
  "sample_id = ''TASK-2026-02-03-001''"

definition sample_routing :: task_routing where
  "sample_routing = \<lparr>rt_role = None, rt_team = None, rt_agent = Some ''dev'', rt_tags = [], rt_workflow = None\<rparr>"

definition sample_fm :: "string \<Rightarrow> task_status \<Rightarrow> frontmatter" where
  "sample_fm i s =
     \<lparr>fm_schemaVersion = 1, fm_id = i, fm_project = None, fm_title = ''sample'', fm_status = s,
      fm_priority = PNormal, fm_routing = sample_routing, fm_sla = None, fm_lease = None, fm_createdAt = 0,
      fm_updatedAt = 0, fm_lastTransitionAt = 0, fm_createdBy = ''system'', fm_parentId = None,
      fm_dependsOn = [], fm_contentHash = None, fm_metadata = Map.empty, fm_contextTier = None,
      fm_requiredRunbook = None, fm_instructionsRef = None, fm_guidanceRef = None, fm_resource = None,
      fm_callbackDepth = None, fm_gate = None, fm_gateHistory = [], fm_reviewContext = None,
      fm_tests = [], fm_testsFile = None, fm_workflow = None\<rparr>"

definition sample_file :: "string \<Rightarrow> task_status \<Rightarrow> int \<Rightarrow> task_file" where
  "sample_file i s mtime = \<lparr>fi_content = Parsed (sample_fm i s) ''body'', fi_mtime = mtime\<rparr>"

definition world_of :: "(task_path \<times> task_file) list \<Rightarrow> world" where
  "world_of fs = \<lparr>w_now = 100, w_files = fs, w_dirs = [], w_runs = [], w_events = [], w_lastDispatchAt = 0,
     w_lastDispatchByTeam = [], w_renewals = [], w_slaAlerts = [], w_workDirs = [], w_murmur = []\<rparr>"

definition one_task :: "task_status \<Rightarrow> world" where
  "one_task s = world_of [(taskPath sample_id s, sample_file sample_id s 10)]"

definition two_copies :: world where
  "two_copies = world_of [(taskPath sample_id Ready, sample_file sample_id Ready 20),
     (taskPath sample_id Backlog, sample_file sample_id Backlog 10)]"

definition wrong_dir :: world where
  "wrong_dir = world_of [(taskPath sample_id Ready, sample_file sample_id Backlog 10)]"

lemma world_of_simps [simp]:
  "w_now (world_of fs) = 100" "w_dirs (world_of fs) = []" "w_files (world_of fs) = fs"
  "file_at (world_of fs) p = map_of fs p" "w_runs (world_of fs) = []" "w_events (world_of fs) = []"
  by (simp_all add: world_of_def file_at_def)

lemma sample_fm_simps [simp]:
  "fm_id (sample_fm i s) = i" "fm_status (sample_fm i s) = s" "fm_lease (sample_fm i s) = None"
  "fm_dependsOn (sample_fm i s) = []" "fm_workflow (sample_fm i s) = None"
  "fi_content (sample_file i s n) = Parsed (sample_fm i s) ''body''" "fi_mtime (sample_file i s n) = n"
  by (simp_all add: sample_fm_def sample_file_def)

lemma one_task_consistent [simp]: "consistent (one_task s)"
  by (auto simp: consistent_def one_task_def split: if_splits)

lemma one_task_abs [simp]:
  "abs_store (one_task s) i = (if i = sample_id then Some (sample_fm sample_id s, ''body'') else None)"
proof (cases "i = sample_id")
  case True
  then show ?thesis
    using abs_store_Some [OF one_task_consistent, of s i "sample_fm sample_id s" "''body''"]
    by (auto simp: one_task_def)
next
  case False
  then show ?thesis
    using abs_store_None [OF one_task_consistent, of s i] by (auto simp: one_task_def)
qed

lemma one_task_dirs [simp]: "w_dirs (one_task s) = []" "w_now (one_task s) = 100"
  by (simp_all add: one_task_def)

theorem transition_refines_witness:
  "\<exists>w'. transition_task sample_id InProgress no_opts (one_task Ready)
      = (Inr (transition_result sample_id InProgress no_opts 100 (sample_fm sample_id Ready, ''body'')), w') \<and>
    consistent w' \<and> abs_store w' sample_id \<noteq> None"
proof -
  have "map_of (w_dirs (one_task Ready)) (taskPath sample_id InProgress) = None" by simp
  from transition_refines [OF one_task_consistent this, of no_opts] show ?thesis
    by (auto simp: isValidTransition_def)
qed

theorem transition_atomic_witness:
  "consistent (snd (transition_task sample_id Done no_opts (one_task Cancelled)))"
proof -
  obtain r w' where r: "transition_task sample_id Done no_opts (one_task Cancelled) = (r, w')" by fastforce
  show ?thesis using transition_atomic [OF one_task_consistent r] r by simp
qed

lemma two_copies_facts: "parses two_copies" "copies two_copies sample_id \<noteq> []"
  by (auto simp: parses_def two_copies_def copies_def found_def file_task_def STATUS_DIRS_def split: if_splits)

theorem get_self_heals_witness:
  "\<exists>t n w'. get_task sample_id two_copies = (Inr (Some t), w') \<and> copies w' sample_id = [(t, n)]"
  using get_self_heals [OF two_copies_facts] by blast


lemma wrong_dir_named: "named_right wrong_dir"
  by (auto simp: named_right_def wrong_dir_def split: if_splits)

theorem init_reconciles_witness: "\<exists>w'. init_store wrong_dir = (Inr (), w') \<and> consistent w'"
  using init_reconciles [OF wrong_dir_named] by blast

theorem cancel_refines_witness:
  "\<exists>t w'. cancel_task sample_id (Some ''obsolete'') (one_task Deadletter) = (Inr t, w') \<and> consistent w' \<and>
    fm_lease (t_fm t) = None"
proof -
  have "abs_store (one_task Deadletter) sample_id = Some (sample_fm sample_id Deadletter, ''body'')" by simp
  from cancel_refines [OF one_task_consistent this, of "Some ''obsolete''"] show ?thesis by auto
qed

theorem create_refines_witness:
  "case create_task (\<lambda>s. ''h'') None (\<lambda>t. ''2026-02-04'') (\<lambda>n. ''aBcDeFgH'')
      \<lparr>cr_title = ''new'', cr_body = None, cr_priority = None, cr_routing = None, cr_sla = None,
       cr_metadata = None, cr_createdBy = ''system'', cr_parentId = None, cr_dependsOn = None,
       cr_workflow = None, cr_contextTier = None, cr_callbackDepth = None, cr_initialStatus = None\<rparr> (one_task Ready) of
      (Inl e, w') \<Rightarrow> w' = one_task Ready
    | (Inr t, w') \<Rightarrow> consistent w' \<and> schema_ok (t_fm t)"
proof -
  have "\<And>k. abs_store (one_task Ready) (nextTaskId (\<lambda>t. ''2026-02-04'') ''aBcDeFgH'' (w_now (one_task Ready))) = None"
    by (simp add: nextTaskId_def sample_id_def)
  from create_refines [OF one_task_consistent this] show ?thesis
    by (fastforce split: prod.splits sum.splits)
qed

theorem transition_requests_safe_witness:
  "\<exists>fm' b'. abs_store (run_requests [(sample_id, InProgress, no_opts), (sample_id, Backlog, no_opts),
       (sample_id, Done, no_opts)] (one_task Ready)) sample_id = Some (fm', b') \<and>
     reachable_status Ready (fm_status fm')"
proof -
  have "abs_store (one_task Ready) sample_id = Some (sample_fm sample_id Ready, ''body'')" by simp
  from transition_requests_safe [OF one_task_consistent this] show ?thesis by fastforce
qed

end
