(* ===== verification/TaskDeps.thy ===== *)
theory TaskDeps
  imports StoreExamples
begin

section \<open>Dependencies between tasks (store/task-deps.ts)\<close>

text \<open>
  \<open>hasCycle\<close>, \<open>addDependency\<close> and \<open>removeDependency\<close> with the store's own \<open>get\<close>. The depth-first
  search is \<open>dfs_deps\<close>: its list holds the ids still to be searched from one \<open>for\<close> loop, its
  result is the answer and the visited set. It terminates on every store because an id enters the
  visited set at most once and only ids with a file lead further. Shown: on a consistent store
  the search decides reachability, and \<open>addDependency\<close> keeps the dependency graph acyclic.
\<close>

subsection \<open>Frame facts about get\<close>

definition file_ids :: "world \<Rightarrow> string set" where
  "file_ids w = snd ` set (map fst (w_files w))"

lemma finite_file_ids [simp]: "finite (file_ids w)"
  by (simp add: file_ids_def)

lemma file_ids_taskPath: "file_at w (taskPath i s) \<noteq> None \<Longrightarrow> i \<in> file_ids w"
  by (force simp: file_at_def taskPath_def file_ids_def dest: map_of_SomeD)

lemma file_ids_frame [simp]: "file_ids (w\<lparr>w_events := e\<rparr>) = file_ids w"
  by (simp add: file_ids_def)

lemma file_ids_remove: "file_ids (remove_file p w) \<subseteq> file_ids w"
  unfolding file_ids_def remove_file_def AList.delete_eq by auto

lemma read_task_at_keeps: "snd (read_task_at p w) = w \<or> (\<exists>e. snd (read_task_at p w) = w\<lparr>w_events := e\<rparr>)"
  by (auto simp: read_task_at_def log_validation_failed_def log_event_run run_simps andThen_def bind_def
      split: option.split file_content.split)

lemma preserves_file_ids_read: "preserves (\<lambda>w. file_ids w \<subseteq> S) (read_task_at p)"
  unfolding preserves_def using read_task_at_keeps by (metis file_ids_frame)

lemma get_task_file_ids: "file_ids (snd (get_task i w)) \<subseteq> file_ids w"
proof -
  have "preserves (\<lambda>w'. file_ids w' \<subseteq> file_ids w) (get_task i)"
    unfolding get_task_def collect_match_def remove_stale_def
    by (intro wf_intros preserves_file_ids_read)
      (auto intro!: wf_intros preserves_file_ids_read preserves_modify split: list.split prod.split
        dest: subsetD [OF file_ids_remove])
  then show ?thesis by (simp add: preserves_def)
qed


lemma get_task_absent:
  assumes "i \<notin> file_ids w"
  shows "get_task i w = (Inr None, w)"
proof -
  have none: "file_at w (taskPath i s) = None" for s
    using assms file_ids_taskPath by blast
  have "fold_m (collect_match i) ss acc w = (Inr acc, w)" for ss acc
    by (induction ss) (simp_all add: run_simps bind_def collect_match_def read_task_at_def none)
  then show ?thesis by (simp add: get_task_def bind_def run_simps)
qed

subsection \<open>hasCycle\<close>

function (sequential) dfs_deps :: "string \<Rightarrow> string list \<Rightarrow> string list \<Rightarrow> world \<Rightarrow> (error + bool \<times> string list) \<times> world" where
  "dfs_deps taskId [] visited w = (Inr (False, visited), w)"
| "dfs_deps taskId (currentId # rest) visited w =
     (if currentId = taskId then (Inr (True, visited), w)
      else if currentId \<in> set visited then dfs_deps taskId rest visited w
      else
        (case get_task currentId w of
           (Inl e, w1) \<Rightarrow> (Inl e, w1)
         | (Inr None, w1) \<Rightarrow> dfs_deps taskId rest (currentId # visited) w1
         | (Inr (Some task), w1) \<Rightarrow>
             (case dfs_deps taskId (fm_dependsOn (t_fm task)) (currentId # visited) w1 of
                (Inl e, w2) \<Rightarrow> (Inl e, w2)
              | (Inr (True, visited2), w2) \<Rightarrow> (Inr (True, visited2), w2)
              | (Inr (False, visited2), w2) \<Rightarrow> dfs_deps taskId rest visited2 w2)))"
  by pat_completeness auto

lemma dfs_deps_shrinks:
  assumes "dfs_deps_dom (taskId, ids, visited, w)" "dfs_deps taskId ids visited w = (Inr (b, visited'), w')"
  shows "file_ids w' - set visited' \<subseteq> file_ids w - set visited"
  using assms
proof (induction arbitrary: b visited' w' rule: dfs_deps.pinduct)
  case (1 taskId visited w)
  then show ?case by (simp add: dfs_deps.psimps)
next
  case (2 taskId c rest visited w)
  note simp = dfs_deps.psimps(2) [OF 2(1)]
  show ?case
  proof (cases "c = taskId \<or> c \<in> set visited")
    case True
    then show ?thesis using 2 simp by (auto split: if_splits)
  next
    case False
    obtain r w1 where g: "get_task c w = (r, w1)" by fastforce
    have sub: "file_ids w1 \<subseteq> file_ids w" using get_task_file_ids [of c w] g by simp
    show ?thesis
    proof (cases r)
      case (Inl e)
      then show ?thesis using 2(6) simp False g by simp
    next
      case (Inr t)
      show ?thesis
      proof (cases t)
        case None
        then show ?thesis using 2(3) [OF _ _ g [symmetric] Inr None] 2(6) simp False g Inr sub by auto
      next
        case (Some task)
        obtain r2 w2 where d: "dfs_deps taskId (fm_dependsOn (t_fm task)) (c # visited) w1 = (r2, w2)" by fastforce
        show ?thesis
        proof (cases r2)
          case (Inl e)
          then show ?thesis using 2(6) simp False g Inr Some d by simp
        next
          case r2: (Inr bv)
          obtain b2 v2 where bv: "bv = (b2, v2)" by (cases bv)
          have one: "file_ids w2 - set v2 \<subseteq> file_ids w1 - set (c # visited)"
            using 2(4) [OF _ _ g [symmetric] Inr Some d [unfolded r2 bv]] False by blast
          show ?thesis
          proof (cases b2)
            case True
            then show ?thesis using 2(6) simp False g Inr Some d r2 bv one sub by auto
          next
            case b2: False
            then have "file_ids w' - set visited' \<subseteq> file_ids w2 - set v2"
              using 2(5) 2(6) simp False g Inr Some d r2 bv by auto
            with one sub show ?thesis by auto
          qed
        qed
      qed
    qed
  qed
qed

termination dfs_deps
proof (relation "measures [\<lambda>(taskId, ids, visited, w). card (file_ids w - set visited),
    \<lambda>(taskId, ids, visited, w). length ids]", goal_cases)
  case 1
  then show ?case by simp
next
  case 2
  then show ?case by simp
next
  case (3 taskId c rest visited w r w1 t)
  then have "file_ids w1 \<subseteq> file_ids w" using get_task_file_ids [of c w] by (metis snd_conv)
  then have "card (file_ids w1 - set (c # visited)) \<le> card (file_ids w - set visited)"
    by (intro card_mono) auto
  then show ?case by auto
next
  case (4 taskId c rest visited w r w1 t task)
  then have sub: "file_ids w1 \<subseteq> file_ids w" using get_task_file_ids [of c w] by (metis snd_conv)
  have "c \<in> file_ids w" using 4 get_task_absent [of c w] by fastforce
  then have "file_ids w1 - set (c # visited) \<subset> file_ids w - set visited" using sub 4(2) by auto
  then have "card (file_ids w1 - set (c # visited)) < card (file_ids w - set visited)"
    by (intro psubset_card_mono) auto
  then show ?case by simp
next
  case (5 taskId c rest visited w r w1 t task r2 w2 bv b2 v2)
  then have sub: "file_ids w1 \<subseteq> file_ids w" using get_task_file_ids [of c w] by (metis snd_conv)
  have "c \<in> file_ids w" using 5 get_task_absent [of c w] by fastforce
  then have "file_ids w1 - set (c # visited) \<subset> file_ids w - set visited" using sub 5(2) by auto
  moreover have "file_ids w2 - set v2 \<subseteq> file_ids w1 - set (c # visited)"
    using dfs_deps_shrinks 5 by metis
  ultimately have "card (file_ids w2 - set v2) < card (file_ids w - set visited)"
    by (intro psubset_card_mono) auto
  then show ?case by simp
qed

declare dfs_deps.simps [simp del]

definition hasCycle :: "string \<Rightarrow> string \<Rightarrow> bool m" where
  "hasCycle taskId blockerId = bind (dfs_deps taskId [blockerId] []) (\<lambda>(found, visited). ret found)"

subsection \<open>addDependency, removeDependency\<close>

definition add_dependency :: "string \<Rightarrow> string \<Rightarrow> task m" where
  "add_dependency taskId blockerId = bind (get_task taskId) (\<lambda>t. case t of None \<Rightarrow> throw (TaskNotFound taskId) | Some task \<Rightarrow>
     bind (get_task blockerId) (\<lambda>b. case b of None \<Rightarrow> throw (BlockerNotFound blockerId) | Some blocker \<Rightarrow>
       if fm_status (t_fm task) \<in> {Done, Cancelled} then throw (TerminalState taskId (fm_status (t_fm task)))
       else if taskId = blockerId then throw (SelfDependency taskId)
       else if blockerId \<in> set (fm_dependsOn (t_fm task)) then ret task
       else bind (hasCycle taskId blockerId) (\<lambda>cycle.
         if cycle then throw (CircularDependency taskId blockerId)
         else bind now (\<lambda>ts.
           let task1 = task\<lparr>t_fm := (t_fm task)\<lparr>fm_dependsOn := fm_dependsOn (t_fm task) @ [blockerId],
                                                 fm_updatedAt := ts\<rparr>\<rparr>
           in andThen (write_task (path_or task (taskPath taskId (fm_status (t_fm task)))) task1)
                (andThen
                   (log_event ''task.dep.added'' ''system'' (Some taskId)
                      [(''taskId'', JStr taskId), (''blockerId'', JStr blockerId)])
                   (ret task1))))))"

text \<open>\<open>splice(index, 1)\<close> at the first occurrence is \<^const>\<open>remove1\<close>.\<close>

definition remove_dependency :: "string \<Rightarrow> string \<Rightarrow> task m" where
  "remove_dependency taskId blockerId = bind (get_task taskId) (\<lambda>t. case t of None \<Rightarrow> throw (TaskNotFound taskId) | Some task \<Rightarrow>
     if fm_status (t_fm task) \<in> {Done, Cancelled} then throw (TerminalState taskId (fm_status (t_fm task)))
     else if blockerId \<notin> set (fm_dependsOn (t_fm task)) then ret task
     else bind now (\<lambda>ts.
       let task1 = task\<lparr>t_fm := (t_fm task)\<lparr>fm_dependsOn := remove1 blockerId (fm_dependsOn (t_fm task)),
                                             fm_updatedAt := ts\<rparr>\<rparr>
       in andThen (write_task (path_or task (taskPath taskId (fm_status (t_fm task)))) task1)
            (andThen
               (log_event ''task.dep.removed'' ''system'' (Some taskId)
                  [(''taskId'', JStr taskId), (''blockerId'', JStr blockerId)])
               (ret task1))))"

subsection \<open>The search decides reachability\<close>

text \<open>The dependency graph of the abstract store.\<close>

definition dep_edges :: "world \<Rightarrow> (string \<times> string) set" where
  "dep_edges w = {(a, b). \<exists>fm body. abs_store w a = Some (fm, body) \<and> b \<in> set (fm_dependsOn fm)}"

lemma dep_edges_frame [simp]: "dep_edges (w\<lparr>w_events := e\<rparr>) = dep_edges w"
  by (simp add: dep_edges_def)

lemma dfs_deps_spec:
  assumes "consistent w"
  shows "\<exists>b v. dfs_deps taskId ids visited w = (Inr (b, v), w) \<and> set visited \<subseteq> set v \<and>
    (b \<longrightarrow> (\<exists>c \<in> set ids. (c, taskId) \<in> (dep_edges w)\<^sup>*)) \<and>
    (\<not> b \<longrightarrow> set ids \<subseteq> set v \<and> (\<forall>x \<in> set v - set visited. x \<noteq> taskId \<and> (\<forall>y. (x, y) \<in> dep_edges w \<longrightarrow> y \<in> set v)))"
    (is "?P ids visited")
  using assms
proof (induction taskId ids visited w rule: dfs_deps.induct)
  case (1 taskId visited w)
  show ?case by (rule exI [of _ False]) (simp add: dfs_deps.simps)
next
  case (2 taskId c rest visited w)
  consider "c = taskId" | "c \<noteq> taskId" "c \<in> set visited" | "c \<noteq> taskId" "c \<notin> set visited" by blast
  then show ?case
  proof cases
    case 1
    then show ?thesis by (auto simp: dfs_deps.simps)
  next
    case 2
    with "2.IH"(1) \<open>consistent w\<close> obtain b v where
      "dfs_deps taskId rest visited w = (Inr (b, v), w)" "set visited \<subseteq> set v"
      "b \<longrightarrow> (\<exists>c \<in> set rest. (c, taskId) \<in> (dep_edges w)\<^sup>*)"
      "\<not> b \<longrightarrow> set rest \<subseteq> set v \<and> (\<forall>x \<in> set v - set visited. x \<noteq> taskId \<and> (\<forall>y. (x, y) \<in> dep_edges w \<longrightarrow> y \<in> set v))"
      by blast
    moreover have "dfs_deps taskId (c # rest) visited w = dfs_deps taskId rest visited w"
      using 2 by (simp add: dfs_deps.simps)
    ultimately show ?thesis using 2 by auto
  next
    case 3
    note get = get_task_consistent [OF \<open>consistent w\<close>, of c]
    show ?thesis
    proof (cases "abs_store w c")
      case None
      then have g: "get_task c w = (Inr None, w)" using get by simp
      have no: "(c, y) \<notin> dep_edges w" for y using None by (simp add: dep_edges_def)
      from "2.IH"(2) [OF 3 g [symmetric] refl refl \<open>consistent w\<close>] obtain b v where
        d: "dfs_deps taskId rest (c # visited) w = (Inr (b, v), w)" "set (c # visited) \<subseteq> set v"
        "b \<longrightarrow> (\<exists>c \<in> set rest. (c, taskId) \<in> (dep_edges w)\<^sup>*)"
        "\<not> b \<longrightarrow> set rest \<subseteq> set v \<and> (\<forall>x \<in> set v - set (c # visited). x \<noteq> taskId \<and> (\<forall>y. (x, y) \<in> dep_edges w \<longrightarrow> y \<in> set v))"
        by blast
      have run: "dfs_deps taskId (c # rest) visited w = (Inr (b, v), w)" using 3 g d(1) by (simp add: dfs_deps.simps)
      have ext: "x \<noteq> taskId \<and> (\<forall>y. (x, y) \<in> dep_edges w \<longrightarrow> y \<in> set v)"
        if "\<not> b" "x \<in> set v" "x \<notin> set visited" for x
      proof (cases "x = c")
        case True
        then show ?thesis using 3 no by blast
      next
        case False
        with that have "x \<in> set v - set (c # visited)" by simp
        then show ?thesis using d(4) that(1) by blast
      qed
      have "set rest \<subseteq> set v" if "\<not> b" using d(4) that by blast
      then have "set (c # rest) \<subseteq> set v" if "\<not> b" using d(2) that by simp
      moreover have "set visited \<subseteq> set v" using d(2) by simp
      moreover have "\<exists>c \<in> set (c # rest). (c, taskId) \<in> (dep_edges w)\<^sup>*" if b using d(3) that by simp
      ultimately show ?thesis using run ext by (intro exI [of _ b] exI [of _ v]) blast
    next
      case (Some fb)
      then have g: "get_task c w = (Inr (Some (loaded c fb)), w)" using get by simp
      have succ: "(c, y) \<in> dep_edges w \<longleftrightarrow> y \<in> set (fm_dependsOn (fst fb))" for y
        using Some by (cases fb) (simp add: dep_edges_def)
      from "2.IH"(3) [OF 3 g [symmetric] refl refl \<open>consistent w\<close>, unfolded loaded_simps] obtain b1 v1 where
        d1: "dfs_deps taskId (fm_dependsOn (fst fb)) (c # visited) w = (Inr (b1, v1), w)" "set (c # visited) \<subseteq> set v1"
        "b1 \<longrightarrow> (\<exists>c \<in> set (fm_dependsOn (fst fb)). (c, taskId) \<in> (dep_edges w)\<^sup>*)"
        "\<not> b1 \<longrightarrow> set (fm_dependsOn (fst fb)) \<subseteq> set v1 \<and>
          (\<forall>x \<in> set v1 - set (c # visited). x \<noteq> taskId \<and> (\<forall>y. (x, y) \<in> dep_edges w \<longrightarrow> y \<in> set v1))"
        by blast
      show ?thesis
      proof (cases b1)
        case True
        have "(c, taskId) \<in> (dep_edges w)\<^sup>*"
          using d1(3) True succ by (meson converse_rtrancl_into_rtrancl)
        moreover have "dfs_deps taskId (c # rest) visited w = (Inr (True, v1), w)"
          using 3 g d1(1) True by (simp add: dfs_deps.simps)
        ultimately show ?thesis using d1(2) by auto
      next
        case False
        from "2.IH"(4) [OF 3 g [symmetric] refl refl, unfolded loaded_simps, OF d1(1) [symmetric] refl refl] False
          \<open>consistent w\<close> obtain b v where
          d2: "dfs_deps taskId rest v1 w = (Inr (b, v), w)" "set v1 \<subseteq> set v"
          "b \<longrightarrow> (\<exists>c \<in> set rest. (c, taskId) \<in> (dep_edges w)\<^sup>*)"
          "\<not> b \<longrightarrow> set rest \<subseteq> set v \<and> (\<forall>x \<in> set v - set v1. x \<noteq> taskId \<and> (\<forall>y. (x, y) \<in> dep_edges w \<longrightarrow> y \<in> set v))"
          by blast
        have run: "dfs_deps taskId (c # rest) visited w = (Inr (b, v), w)"
          using 3 g d1(1) d2(1) False by (simp add: dfs_deps.simps)
        have ext: "x \<noteq> taskId \<and> (\<forall>y. (x, y) \<in> dep_edges w \<longrightarrow> y \<in> set v)"
          if asm: "\<not> b" "x \<in> set v" "x \<notin> set visited" for x
        proof -
          consider "x = c" | "x \<in> set v1 - set (c # visited)" | "x \<in> set v - set v1" using asm by auto
          then show ?thesis
          proof cases
            case 1
            then show ?thesis using d1(4) d2(2) False succ 3 by blast
          next
            case 2
            then show ?thesis using d1(4) d2(2) False by blast
          next
            case 3
            then show ?thesis using d2(4) asm(1) by blast
          qed
        qed
        have "set rest \<subseteq> set v" if "\<not> b" using d2(4) that by blast
        then have "set (c # rest) \<subseteq> set v" if "\<not> b" using d1(2) d2(2) that by auto
        moreover have "set visited \<subseteq> set v" using d1(2) d2(2) by auto
        moreover have "\<exists>c \<in> set (c # rest). (c, taskId) \<in> (dep_edges w)\<^sup>*" if b using d2(3) that by simp
        ultimately show ?thesis using run ext by (intro exI [of _ b] exI [of _ v]) blast
      qed
    qed
  qed
qed

lemma hasCycle_spec:
  assumes "consistent w"
  shows "hasCycle taskId blockerId w = (Inr ((blockerId, taskId) \<in> (dep_edges w)\<^sup>*), w)"
proof -
  from dfs_deps_spec [OF assms, of taskId "[blockerId]" "[]"] obtain b v where
    d: "dfs_deps taskId [blockerId] [] w = (Inr (b, v), w)" "b \<longrightarrow> (blockerId, taskId) \<in> (dep_edges w)\<^sup>*"
    "\<not> b \<longrightarrow> blockerId \<in> set v \<and> (\<forall>x \<in> set v. x \<noteq> taskId \<and> (\<forall>y. (x, y) \<in> dep_edges w \<longrightarrow> y \<in> set v))" by auto
  have "(blockerId, taskId) \<notin> (dep_edges w)\<^sup>*" if "\<not> b"
  proof
    assume "(blockerId, taskId) \<in> (dep_edges w)\<^sup>*"
    then have "taskId \<in> set v"
      by (induction rule: rtrancl_induct) (use d(3) that in auto)
    then show False using d(3) that by auto
  qed
  with d show ?thesis by (auto simp: hasCycle_def bind_def run_simps)
qed

text \<open>
  C14: \<open>hasCycle\<close> is exact. On every consistent store, whatever cycles the dependency graph
  already has, the search returns, leaves the store alone and answers true exactly when the
  blocker reaches the task along dependencies.
\<close>

theorem hasCycle_exact:
  assumes "consistent w"
  shows "hasCycle taskId blockerId w = (Inr ((blockerId, taskId) \<in> (dep_edges w)\<^sup>*), w)"
  by (rule hasCycle_spec [OF assms])

subsection \<open>Adding and removing dependencies\<close>

lemma add_dependency_run:
  assumes cons: "consistent w"
  shows "add_dependency a b w =
    (case abs_store w a of None \<Rightarrow> (Inl (TaskNotFound a), w) | Some fb \<Rightarrow>
     (case abs_store w b of None \<Rightarrow> (Inl (BlockerNotFound b), w) | Some _ \<Rightarrow>
       let fm = fst fb; p = taskPath a (fm_status fm);
           t = \<lparr>t_fm = fm\<lparr>fm_dependsOn := fm_dependsOn fm @ [b], fm_updatedAt := w_now w\<rparr>,
                t_body = snd fb, t_path = Some p\<rparr>
       in if fm_status fm \<in> {Done, Cancelled} then (Inl (TerminalState a (fm_status fm)), w)
          else if a = b then (Inl (SelfDependency a), w)
          else if b \<in> set (fm_dependsOn fm) then (Inr (loaded a fb), w)
          else if (b, a) \<in> (dep_edges w)\<^sup>* then (Inl (CircularDependency a b), w)
          else (Inr t, (put_file p t w)\<lparr>w_events := w_events w @
            [\<lparr>ev_type = ''task.dep.added'', ev_actor = ''system'', ev_taskId = Some a, ev_timestamp = w_now w,
              ev_payload = [(''taskId'', JStr a), (''blockerId'', JStr b)]\<rparr>]\<rparr>)))"
  unfolding add_dependency_def with_task [OF cons]
  using hasCycle_spec [OF cons, of a b]
  by (auto simp: bind_def now_def run_simps Let_def write_task_def andThen_def log_event_run loaded_def path_or_def
      split: option.split)

lemma add_dependency_spec:
  assumes cons: "consistent w"
  shows "consistent (snd (add_dependency a b w)) \<and>
    (case fst (add_dependency a b w) of
       Inl e \<Rightarrow> abs_store (snd (add_dependency a b w)) = abs_store w
     | Inr t \<Rightarrow> b \<in> set (fm_dependsOn (t_fm t)) \<and> abs_store w b \<noteq> None \<and>
         dep_edges (snd (add_dependency a b w)) = insert (a, b) (dep_edges w) \<and>
         ((a, b) \<in> dep_edges w \<or> (b, a) \<notin> (dep_edges w)\<^sup>*))"
proof (cases "abs_store w a")
  case None
  then show ?thesis
    using cons by (simp add: add_dependency_run)
next
  case (Some fb)
  obtain fm bd where fb: "fb = (fm, bd)" by (cases fb)
  let ?t = "\<lparr>t_fm = fm\<lparr>fm_dependsOn := fm_dependsOn fm @ [b], fm_updatedAt := w_now w\<rparr>, t_body = bd,
     t_path = Some (taskPath a (fm_status fm))\<rparr>"
  let ?w = "put_file (taskPath a (fm_status fm)) ?t w"
  have edge: "(a, b) \<in> dep_edges w" if "b \<in> set (fm_dependsOn fm)"
    using that Some fb by (auto simp: dep_edges_def)
  have put: "consistent ?w \<and> abs_store ?w = (abs_store w)(a \<mapsto> (t_fm ?t, js_trim (t_body ?t)))"
    by (rule put_same_status [OF cons Some [unfolded fb]])
      (use consistent_files(1) [OF cons Some [unfolded fb]] in auto)
  have edges: "dep_edges ?w = insert (a, b) (dep_edges w)"
    using put Some fb by (auto simp: dep_edges_def split: if_splits)
  show ?thesis
    unfolding add_dependency_run [OF cons] Some fb
    using put edges edge cons by (auto simp: Let_def insert_absorb split: option.split)
qed

text \<open>
  Fact: \<open>addDependency\<close> keeps the dependency graph acyclic: whatever it returns or throws, an acyclic
  graph stays acyclic and the store consistent; when it returns, the graph has gained exactly the
  edge asked for, and when it throws, nothing has changed.
\<close>

theorem add_dependency_acyclic:
  assumes "consistent w" "acyclic (dep_edges w)"
  shows "acyclic (dep_edges (snd (add_dependency a b w))) \<and> consistent (snd (add_dependency a b w)) \<and>
    (case fst (add_dependency a b w) of
       Inl e \<Rightarrow> abs_store (snd (add_dependency a b w)) = abs_store w
     | Inr t \<Rightarrow> dep_edges (snd (add_dependency a b w)) = insert (a, b) (dep_edges w))"
proof (cases "fst (add_dependency a b w)")
  case (Inl e)
  then show ?thesis using add_dependency_spec [OF assms(1), of a b] assms(2) by (simp add: dep_edges_def)
next
  case (Inr t)
  note spec = add_dependency_spec [OF assms(1), of a b]
  show ?thesis
  proof (cases "(a, b) \<in> dep_edges w")
    case True
    then show ?thesis using spec Inr assms(2) by (simp add: insert_absorb)
  next
    case False
    then show ?thesis using spec Inr assms(2) by (simp add: acyclic_insert)
  qed
qed

subsection \<open>Examples\<close>

text \<open>Three tasks where \<open>a\<close> waits for \<open>b\<close> and \<open>b\<close> for \<open>c\<close>: \<open>c\<close> must not wait for \<open>a\<close>.\<close>

definition dep_file :: "string \<Rightarrow> string list \<Rightarrow> task_path \<times> task_file" where
  "dep_file i deps = (taskPath i Backlog,
     \<lparr>fi_content = Parsed ((sample_fm i Backlog)\<lparr>fm_dependsOn := deps\<rparr>) [], fi_mtime = 0\<rparr>)"

definition dep_world :: world where
  "dep_world = world_of [dep_file ''a'' [''b''], dep_file ''b'' [''c''], dep_file ''c'' []]"

lemma dep_world_consistent: "consistent dep_world"
  by (auto simp: consistent_def dep_world_def dep_file_def split: if_splits)

lemma dep_world_abs: "abs_store dep_world i =
    (if i = ''a'' then Some ((sample_fm i Backlog)\<lparr>fm_dependsOn := [''b'']\<rparr>, [])
     else if i = ''b'' then Some ((sample_fm i Backlog)\<lparr>fm_dependsOn := [''c'']\<rparr>, [])
     else if i = ''c'' then Some ((sample_fm i Backlog)\<lparr>fm_dependsOn := []\<rparr>, []) else None)"
proof (cases "i \<in> {''a'', ''b'', ''c''}")
  case True
  then show ?thesis
    using abs_store_Some [OF dep_world_consistent, of i] by (auto simp: dep_world_def dep_file_def)
next
  case False
  then show ?thesis
    using abs_store_None [OF dep_world_consistent, of i] by (auto simp: dep_world_def dep_file_def)
qed

lemma dep_world_edges: "dep_edges dep_world = {(''a'', ''b''), (''b'', ''c'')}"
  by (auto simp: dep_edges_def dep_world_abs split: if_splits)

theorem hasCycle_exact_witness: "hasCycle ''c'' ''a'' dep_world = (Inr True, dep_world)"
proof -
  have "(''a'', ''c'') \<in> (dep_edges dep_world)\<^sup>*"
    by (rule rtrancl_into_rtrancl [of _ "''b''"]) (auto simp: dep_world_edges)
  then show ?thesis using hasCycle_exact [OF dep_world_consistent, of "''c''" "''a''"] by simp
qed

theorem add_dependency_acyclic_witness:
  "acyclic (dep_edges (snd (add_dependency ''c'' ''a'' dep_world)))"
proof -
  have "acyclic (dep_edges dep_world)"
    unfolding dep_world_edges
    by (simp only: acyclic_insert) (auto simp: acyclic_def elim: converse_rtranclE)
  then show ?thesis using add_dependency_acyclic [OF dep_world_consistent] by blast
qed

end
