(* ===== verification/TaskLock.thy ===== *)
theory TaskLock
  imports AofPrelude
begin

section \<open>The per-task mutexes (store/task-lock.ts, protocol/task-lock.ts)\<close>

text \<open>
  Both lock managers chain promises per task id: a call registers itself as the latest operation
  of its id, waits for the previous latest one to settle, runs, settles, and clears its slot if it
  is still the latest. The event loop may interleave these steps of different calls in any order,
  so the model is a step relation on the list of all calls made so far and the map of the latest
  call per id. In \<open>TaskLocks.run\<close> the slot is cleared after the promise the next call waits for
  has settled; in \<open>InMemoryTaskLockManager.withLock\<close> that promise settles only after the clearing
  (\<open>strict\<close>). A failing operation settles like a succeeding one.

  Shown for both: at most one operation per id runs at any time and operations of an id run in
  the order of their calls; a waiting operation is never stuck; no slot is leaked.
\<close>

datatype phase = Waiting | Running | Settled | Cleaned

record lock_op =
  op_id :: string
  op_prior :: "nat option"
  op_phase :: phase

record lock_state =
  lk_ops :: "lock_op list"
  lk_inflight :: "string \<rightharpoonup> nat"

definition no_locks :: lock_state where
  "no_locks = \<lparr>lk_ops = [], lk_inflight = Map.empty\<rparr>"

definition lock_call :: "string \<Rightarrow> lock_state \<Rightarrow> lock_state" where
  "lock_call i s =
     \<lparr>lk_ops = lk_ops s @ [\<lparr>op_id = i, op_prior = lk_inflight s i, op_phase = Waiting\<rparr>],
      lk_inflight = (lk_inflight s)(i \<mapsto> length (lk_ops s))\<rparr>"

definition set_phase :: "nat \<Rightarrow> phase \<Rightarrow> lock_state \<Rightarrow> lock_state" where
  "set_phase n p s = s\<lparr>lk_ops := (lk_ops s)[n := (lk_ops s ! n)\<lparr>op_phase := p\<rparr>]\<rparr>"

text \<open>The \<open>finally\<close> block.\<close>

definition lock_cleanup :: "nat \<Rightarrow> lock_state \<Rightarrow> lock_state" where
  "lock_cleanup n s =
     (let i = op_id (lk_ops s ! n); s' = set_phase n Cleaned s
      in if lk_inflight s i = Some n then s'\<lparr>lk_inflight := (lk_inflight s)(i := None)\<rparr> else s')"

definition phase_of :: "lock_state \<Rightarrow> nat \<Rightarrow> phase" where
  "phase_of s n = op_phase (lk_ops s ! n)"

definition prior_settled :: "bool \<Rightarrow> lock_state \<Rightarrow> nat \<Rightarrow> bool" where
  "prior_settled strict s n =
     (case op_prior (lk_ops s ! n) of
        None \<Rightarrow> True
      | Some p \<Rightarrow> phase_of s p = Cleaned \<or> (\<not> strict \<and> phase_of s p = Settled))"

definition lock_size :: "lock_state \<Rightarrow> nat" where
  "lock_size s = card (dom (lk_inflight s))"

inductive lock_step :: "bool \<Rightarrow> lock_state \<Rightarrow> lock_state \<Rightarrow> bool" for strict where
  call: "lock_step strict s (lock_call i s)"
| start: "n < length (lk_ops s) \<Longrightarrow> phase_of s n = Waiting \<Longrightarrow> prior_settled strict s n \<Longrightarrow>
    lock_step strict s (set_phase n Running s)"
| settle: "n < length (lk_ops s) \<Longrightarrow> phase_of s n = Running \<Longrightarrow> lock_step strict s (set_phase n Settled s)"
| cleanup: "n < length (lk_ops s) \<Longrightarrow> phase_of s n = Settled \<Longrightarrow> lock_step strict s (lock_cleanup n s)"

inductive_cases lock_stepE: "lock_step strict s t"

subsection \<open>The invariant\<close>

definition over :: "lock_state \<Rightarrow> nat \<Rightarrow> bool" where
  "over s n \<longleftrightarrow> phase_of s n = Settled \<or> phase_of s n = Cleaned"

text \<open>The operations of an id before position \<open>n\<close> are over.\<close>

definition before_over :: "lock_state \<Rightarrow> string \<Rightarrow> nat \<Rightarrow> bool" where
  "before_over s i n \<longleftrightarrow> (\<forall>m < n. m < length (lk_ops s) \<longrightarrow> op_id (lk_ops s ! m) = i \<longrightarrow> over s m)"

definition prior_ok :: "lock_state \<Rightarrow> nat \<Rightarrow> bool" where
  "prior_ok s n \<longleftrightarrow>
     (case op_prior (lk_ops s ! n) of
        None \<Rightarrow> before_over s (op_id (lk_ops s ! n)) n
      | Some p \<Rightarrow> p < n \<and> op_id (lk_ops s ! p) = op_id (lk_ops s ! n) \<and>
          (\<forall>m < n. op_id (lk_ops s ! m) = op_id (lk_ops s ! n) \<longrightarrow> m \<le> p))"

definition slot_ok :: "lock_state \<Rightarrow> string \<Rightarrow> bool" where
  "slot_ok s i \<longleftrightarrow>
     (case lk_inflight s i of
        None \<Rightarrow> before_over s i (length (lk_ops s))
      | Some n \<Rightarrow> n < length (lk_ops s) \<and> op_id (lk_ops s ! n) = i \<and> phase_of s n \<noteq> Cleaned \<and>
          (\<forall>m < length (lk_ops s). op_id (lk_ops s ! m) = i \<longrightarrow> m \<le> n))"

definition lock_inv :: "lock_state \<Rightarrow> bool" where
  "lock_inv s \<longleftrightarrow>
     (\<forall>n < length (lk_ops s). prior_ok s n \<and>
        (phase_of s n \<noteq> Waiting \<longrightarrow> before_over s (op_id (lk_ops s ! n)) n)) \<and>
     (\<forall>i. slot_ok s i)"

lemma call_simps [simp]:
  "length (lk_ops (lock_call i s)) = Suc (length (lk_ops s))"
  "n < length (lk_ops s) \<Longrightarrow> lk_ops (lock_call i s) ! n = lk_ops s ! n"
  "lk_ops (lock_call i s) ! length (lk_ops s) = \<lparr>op_id = i, op_prior = lk_inflight s i, op_phase = Waiting\<rparr>"
  "lk_inflight (lock_call i s) = (lk_inflight s)(i \<mapsto> length (lk_ops s))"
  by (simp_all add: lock_call_def nth_append)

lemma set_phase_ops: "lk_ops (set_phase n p s) ! m = (if m = n \<and> n < length (lk_ops s) then (lk_ops s ! n)\<lparr>op_phase := p\<rparr> else lk_ops s ! m)"
  by (cases "n < length (lk_ops s)") (auto simp: set_phase_def nth_list_update list_update_beyond)

lemma set_phase_simps [simp]:
  "length (lk_ops (set_phase n p s)) = length (lk_ops s)"
  "lk_inflight (set_phase n p s) = lk_inflight s"
  "op_id (lk_ops (set_phase n p s) ! m) = op_id (lk_ops s ! m)"
  "op_prior (lk_ops (set_phase n p s) ! m) = op_prior (lk_ops s ! m)"
  by (simp_all add: set_phase_ops) (simp_all add: set_phase_def)

lemma phase_of_set [simp]:
  "n < length (lk_ops s) \<Longrightarrow> phase_of (set_phase n p s) m = (if m = n then p else phase_of s m)"
  by (simp add: phase_of_def set_phase_def)

lemma phase_of_slot [simp]: "phase_of (s\<lparr>lk_inflight := f\<rparr>) n = phase_of s n"
  by (simp add: phase_of_def)

lemma phase_of_call:
  "n < length (lk_ops s) \<Longrightarrow> phase_of (lock_call i s) n = phase_of s n"
  "phase_of (lock_call i s) (length (lk_ops s)) = Waiting"
  by (simp_all add: phase_of_def)

lemma over_call [simp]: "n < length (lk_ops s) \<Longrightarrow> over (lock_call i s) n = over s n"
  by (simp add: over_def phase_of_call)

lemma before_over_call: "n \<le> length (lk_ops s) \<Longrightarrow> before_over (lock_call i s) j n = before_over s j n"
  by (auto simp: before_over_def)

lemma before_over_phase:
  "before_over s i n \<Longrightarrow> k < length (lk_ops s) \<Longrightarrow> \<not> over s k \<or> p \<in> {Settled, Cleaned} \<Longrightarrow> before_over (set_phase k p s) i n"
  by (auto simp: before_over_def over_def)

lemma slot_ok_phase:
  "slot_ok s i \<Longrightarrow> k < length (lk_ops s) \<Longrightarrow> \<not> over s k \<or> p \<in> {Settled, Cleaned} \<Longrightarrow>
    (p = Cleaned \<Longrightarrow> lk_inflight s i \<noteq> Some k) \<Longrightarrow> slot_ok (set_phase k p s) i"
  by (auto simp: slot_ok_def before_over_phase split: option.splits)

lemma prior_ok_phase:
  "prior_ok s n \<Longrightarrow> k < length (lk_ops s) \<Longrightarrow> \<not> over s k \<or> p \<in> {Settled, Cleaned} \<Longrightarrow> prior_ok (set_phase k p s) n"
  by (auto simp: prior_ok_def before_over_phase split: option.splits)

lemma lock_inv_phase:
  assumes inv: "lock_inv s" and k: "k < length (lk_ops s)" and p: "\<not> over s k \<or> p \<in> {Settled, Cleaned}" "p \<noteq> Cleaned"
    and ord: "before_over s (op_id (lk_ops s ! k)) k"
  shows "lock_inv (set_phase k p s)"
  using inv unfolding lock_inv_def
  by (auto intro!: prior_ok_phase slot_ok_phase before_over_phase k p(1) simp: p(2) k ord split: if_splits)

lemma prior_ok_call: "n < length (lk_ops s) \<Longrightarrow> prior_ok s n \<Longrightarrow> prior_ok (lock_call i s) n"
  by (auto simp: prior_ok_def before_over_call split: option.splits)

lemma lock_inv_call:
  assumes inv: "lock_inv s"
  shows "lock_inv (lock_call i s)"
  unfolding lock_inv_def
proof (intro conjI allI impI)
  fix n assume n: "n < length (lk_ops (lock_call i s))"
  show "prior_ok (lock_call i s) n"
  proof (cases "n = length (lk_ops s)")
    case True
    have slot: "slot_ok s i" using inv by (simp add: lock_inv_def)
    show ?thesis
    proof (cases "lk_inflight s i")
      case None
      then show ?thesis using slot True by (simp add: prior_ok_def slot_ok_def before_over_call)
    next
      case (Some p)
      then show ?thesis using slot True by (simp add: prior_ok_def slot_ok_def)
    qed
  next
    case False
    then show ?thesis using n inv by (simp add: lock_inv_def prior_ok_call)
  qed
  assume "phase_of (lock_call i s) n \<noteq> Waiting"
  then have "n < length (lk_ops s)" using n phase_of_call(2) by (metis call_simps(1) less_Suc_eq)
  then show "before_over (lock_call i s) (op_id (lk_ops (lock_call i s) ! n)) n"
    using inv \<open>phase_of (lock_call i s) n \<noteq> Waiting\<close> unfolding lock_inv_def
    by (simp add: before_over_call phase_of_call)
next
  fix j show "slot_ok (lock_call i s) j"
  proof (cases "j = i")
    case True
    then show ?thesis by (auto simp: slot_ok_def phase_of_call)
  next
    case False
    have "slot_ok s j" using inv by (simp add: lock_inv_def)
    then show ?thesis using False
      by (auto simp: slot_ok_def before_over_def phase_of_call less_Suc_eq split: option.splits)
  qed
qed

lemma slot_id: "lock_inv s \<Longrightarrow> lk_inflight s j = Some k \<Longrightarrow> op_id (lk_ops s ! k) = j"
  by (auto simp: lock_inv_def slot_ok_def dest!: spec [of _ j])

lemma lock_inv_cleanup:
  assumes inv: "lock_inv s" and k: "k < length (lk_ops s)" and p: "phase_of s k = Settled"
  shows "lock_inv (lock_cleanup k s)"
proof -
  let ?i = "op_id (lk_ops s ! k)"
  let ?s = "set_phase k Cleaned s"
  have ord: "before_over s ?i k" using inv k p unfolding lock_inv_def by simp
  have rest: "prior_ok ?s n \<and> (phase_of ?s n \<noteq> Waiting \<longrightarrow> before_over ?s (op_id (lk_ops ?s ! n)) n)"
    if "n < length (lk_ops s)" for n
    using inv that k p unfolding lock_inv_def by (auto intro!: prior_ok_phase before_over_phase)
  have other: "slot_ok ?s j" if "lk_inflight s j \<noteq> Some k" for j
    using inv that k unfolding lock_inv_def by (auto intro: slot_ok_phase)
  show ?thesis
  proof (cases "lk_inflight s ?i = Some k")
    case False
    have "lk_inflight s j \<noteq> Some k" for j
      using slot_id [OF inv, of j k] False by auto
    with rest other False show ?thesis by (simp add: lock_cleanup_def lock_inv_def)
  next
    case True
    let ?t = "?s\<lparr>lk_inflight := (lk_inflight s)(?i := None)\<rparr>"
    have same: "before_over ?t j n = before_over ?s j n" "prior_ok ?t n = prior_ok ?s n" "phase_of ?t n = phase_of ?s n" for j n
      by (simp_all add: before_over_def over_def phase_of_def prior_ok_def split: option.split)
    have "slot_ok s ?i" using inv by (simp add: lock_inv_def)
    then have last: "\<forall>m < length (lk_ops s). op_id (lk_ops s ! m) = ?i \<longrightarrow> m \<le> k" by (simp add: slot_ok_def True)
    have "before_over ?s ?i (length (lk_ops s))"
      using last ord k by (auto simp: before_over_def over_def) (metis le_neq_implies_less)
    moreover have "slot_ok ?t j" if "j \<noteq> ?i" for j
    proof -
      have "lk_inflight s j \<noteq> Some k" using slot_id [OF inv, of j k] that by auto
      from other [OF this] that show ?thesis by (simp add: slot_ok_def same split: option.splits)
    qed
    ultimately have "\<forall>j. slot_ok ?t j" by (auto simp: slot_ok_def same)
    with rest True show ?thesis by (simp add: lock_cleanup_def lock_inv_def same)
  qed
qed

lemma lock_inv_step: "lock_inv s \<Longrightarrow> lock_step strict s t \<Longrightarrow> lock_inv t"
proof (erule lock_stepE)
  fix n assume inv: "lock_inv s" and t: "t = set_phase n Running s" "n < length (lk_ops s)" "phase_of s n = Waiting" "prior_settled strict s n"
  have "before_over s (op_id (lk_ops s ! n)) n"
  proof (cases "op_prior (lk_ops s ! n)")
    case None
    then show ?thesis using inv t(2) by (auto simp: lock_inv_def prior_ok_def)
  next
    case (Some p)
    have p: "p < n" "op_id (lk_ops s ! p) = op_id (lk_ops s ! n)" "\<forall>m < n. op_id (lk_ops s ! m) = op_id (lk_ops s ! n) \<longrightarrow> m \<le> p"
      using inv t(2) Some by (auto simp: lock_inv_def prior_ok_def)
    have ov: "over s p" using t(4) Some by (auto simp: prior_settled_def over_def)
    then have "before_over s (op_id (lk_ops s ! p)) p" using inv p(1) t(2) by (auto simp: lock_inv_def over_def)
    then show ?thesis using p ov unfolding before_over_def by (metis le_neq_implies_less)
  qed
  then show "lock_inv t" using inv t by (auto intro!: lock_inv_phase simp: over_def)
next
  fix n assume inv: "lock_inv s" and t: "t = set_phase n Settled s" "n < length (lk_ops s)" "phase_of s n = Running"
  then have "before_over s (op_id (lk_ops s ! n)) n" by (simp add: lock_inv_def)
  then show "lock_inv t" using inv t by (auto intro!: lock_inv_phase)
qed (auto intro: lock_inv_call lock_inv_cleanup)

interpretation locks: invariant_system "\<lambda>s. s = no_locks" "lock_step strict" lock_inv for strict
proof
  show "lock_inv s" if "s = no_locks" for s
    using that by (simp add: no_locks_def lock_inv_def slot_ok_def before_over_def)
qed (rule lock_inv_step)

subsection \<open>Exclusion, order, progress\<close>

text \<open>
  C10: mutual exclusion and order. However the steps of any calls interleave, when an operation on an
  id has started, every earlier operation on the same id has settled; so two operations on the
  same id never run at the same time and they run in the order they were requested.
\<close>

theorem lock_fifo:
  assumes "(lock_step strict)\<^sup>*\<^sup>* no_locks s" "m < n" "n < length (lk_ops s)"
    "op_id (lk_ops s ! m) = op_id (lk_ops s ! n)" "phase_of s n \<noteq> Waiting"
  shows "phase_of s m = Settled \<or> phase_of s m = Cleaned"
proof -
  have "lock_inv s" using locks.reachable_inv [OF refl assms(1)] .
  then have "before_over s (op_id (lk_ops s ! n)) n" using assms(3,5) by (simp add: lock_inv_def)
  then show ?thesis using assms(2-4) by (simp add: before_over_def over_def)
qed

definition fires :: "bool \<Rightarrow> lock_state \<Rightarrow> nat \<Rightarrow> bool" where
  "fires strict s n \<longleftrightarrow> n < length (lk_ops s) \<and>
     (phase_of s n = Running \<or> phase_of s n = Settled \<or> (phase_of s n = Waiting \<and> prior_settled strict s n))"

text \<open>
  Fact: progress. While an operation waits, some operation on the same id is running, is about to
  clear its slot or may start: no set of waiting operations blocks itself. Once every operation on an
  id is cleaned up, the id has no slot left.
\<close>

theorem lock_progress:
  assumes "(lock_step strict)\<^sup>*\<^sup>* no_locks s"
  shows "(w < length (lk_ops s) \<longrightarrow> phase_of s w = Waiting \<longrightarrow>
      (\<exists>n. op_id (lk_ops s ! n) = op_id (lk_ops s ! w) \<and> fires strict s n)) \<and>
    ((\<forall>n < length (lk_ops s). op_id (lk_ops s ! n) = i \<longrightarrow> phase_of s n = Cleaned) \<longrightarrow> lk_inflight s i = None)"
proof (intro conjI impI)
  have inv: "lock_inv s" using locks.reachable_inv [OF refl assms] .
  show "lk_inflight s i = None" if "\<forall>n < length (lk_ops s). op_id (lk_ops s ! n) = i \<longrightarrow> phase_of s n = Cleaned"
  proof (rule ccontr)
    assume "lk_inflight s i \<noteq> None"
    moreover have "slot_ok s i" using inv by (simp add: lock_inv_def)
    ultimately show False using that by (auto simp: slot_ok_def)
  qed
  assume w: "w < length (lk_ops s)" "phase_of s w = Waiting"
  let ?Q = "\<lambda>n. n < length (lk_ops s) \<and> op_id (lk_ops s ! n) = op_id (lk_ops s ! w) \<and> \<not> over s n"
  define n where "n = Least ?Q"
  have "?Q w" using w by (simp add: over_def)
  then have n: "?Q n" unfolding n_def by (rule LeastI)
  have least: "n \<le> m" if "?Q m" for m unfolding n_def using that by (rule Least_le)
  show "\<exists>n. op_id (lk_ops s ! n) = op_id (lk_ops s ! w) \<and> fires strict s n"
  proof (cases "phase_of s n = Waiting \<and> \<not> prior_settled strict s n")
    case False
    have "phase_of s n = Waiting \<or> phase_of s n = Running" using n by (cases "phase_of s n") (simp_all add: over_def)
    with False n show ?thesis unfolding fires_def by blast
  next
    case True
    then obtain p where p: "op_prior (lk_ops s ! n) = Some p" by (auto simp: prior_settled_def split: option.splits)
    have "prior_ok s n" using inv n by (simp add: lock_inv_def)
    then have q: "p < n" "op_id (lk_ops s ! p) = op_id (lk_ops s ! n)" by (simp_all add: prior_ok_def p)
    then have "over s p" using least [of p] n by force
    then have "phase_of s p = Settled" using True p by (auto simp: prior_settled_def over_def)
    then show ?thesis using q n unfolding fires_def by (intro exI [of _ p]) simp
  qed
qed

subsection \<open>Example\<close>

text \<open>Two calls on one id: the first is running, the second waits.\<close>

definition two_calls :: lock_state where
  "two_calls = lock_call ''t'' (set_phase 0 Running (lock_call ''t'' no_locks))"

lemma two_calls_reachable: "(lock_step strict)\<^sup>*\<^sup>* no_locks two_calls"
proof -
  have "lock_step strict no_locks (lock_call ''t'' no_locks)" by (rule lock_step.call)
  moreover have "lock_step strict (lock_call ''t'' no_locks) (set_phase 0 Running (lock_call ''t'' no_locks))"
    by (rule lock_step.start) (simp_all add: no_locks_def lock_call_def phase_of_def prior_settled_def)
  moreover have "lock_step strict (set_phase 0 Running (lock_call ''t'' no_locks)) two_calls"
    unfolding two_calls_def by (rule lock_step.call)
  ultimately show ?thesis by (meson rtranclp.rtrancl_into_rtrancl rtranclp.rtrancl_refl)
qed

lemma two_calls_phases: "length (lk_ops two_calls) = 2" "phase_of two_calls (Suc 0) = Waiting" "phase_of two_calls 0 = Running"
  "op_id (lk_ops two_calls ! 0) = ''t''" "op_id (lk_ops two_calls ! Suc 0) = ''t''" "op_prior (lk_ops two_calls ! Suc 0) = Some 0"
  "lk_inflight two_calls ''t'' = Some 1"
  by (simp_all add: two_calls_def no_locks_def lock_call_def phase_of_def set_phase_def)

definition both_called :: lock_state where
  "both_called = set_phase 1 Running (lock_cleanup 0 (set_phase 0 Settled two_calls))"

theorem lock_fifo_witness: "phase_of both_called 0 = Settled \<or> phase_of both_called 0 = Cleaned"
proof -
  have "lock_step False two_calls (set_phase 0 Settled two_calls)"
    by (rule lock_step.settle) (simp_all add: two_calls_phases)
  moreover have "lock_step False (set_phase 0 Settled two_calls) (lock_cleanup 0 (set_phase 0 Settled two_calls))"
    by (rule lock_step.cleanup) (simp_all add: two_calls_phases)
  moreover have "lock_step False (lock_cleanup 0 (set_phase 0 Settled two_calls)) both_called"
    unfolding both_called_def
    by (rule lock_step.start) (simp_all add: lock_cleanup_def two_calls_phases prior_settled_def Let_def)
  ultimately have "(lock_step False)\<^sup>*\<^sup>* no_locks both_called"
    using two_calls_reachable [of False] by (meson rtranclp.rtrancl_into_rtrancl)
  then show ?thesis
    by (rule lock_fifo [where n = 1])
      (simp_all add: both_called_def lock_cleanup_def two_calls_phases Let_def)
qed

theorem lock_progress_witness:
  "\<exists>n. op_id (lk_ops two_calls ! n) = op_id (lk_ops two_calls ! 1) \<and> fires True two_calls n"
  using lock_progress [OF two_calls_reachable [of True], of 1 "''t''"] two_calls_phases by simp

end
