(* ===== verification/TaskParser.thy ===== *)
theory TaskParser
  imports StoreExamples
begin

section \<open>Task files (store/task-parser.ts)\<close>

text \<open>
  The text format of a task: YAML frontmatter between fences, then the body. The YAML library and
  the schema check (\<open>parseYaml\<close>, \<open>TaskFrontmatter.parse\<close>, \<open>stringifyYaml\<close>) are the parameters
  \<open>parse_fm\<close> and \<open>to_yaml\<close>. Shown: writing a task and reading it back gives the same frontmatter
  and the trimmed body, whatever the body contains, and what a file must look like to be read.
\<close>

definition nl :: char where
  "nl = CHR 0x0A"

definition FENCE :: string where
  "FENCE = ''---''"

datatype parse_error = MissingFence | UnterminatedFrontmatter | BadFrontmatter string

definition parseTaskFile ::
  "(string \<Rightarrow> string + frontmatter) \<Rightarrow> string \<Rightarrow> task_path option \<Rightarrow> parse_error + task" where
  "parseTaskFile parse_fm raw path =
     (case split_on nl raw of
        [] \<Rightarrow> Inl MissingFence
      | l0 # rest \<Rightarrow>
          if js_trim l0 \<noteq> FENCE then Inl MissingFence
          else (case dropWhile (\<lambda>l. l \<noteq> FENCE) rest of
                  [] \<Rightarrow> Inl UnterminatedFrontmatter
                | _ # bodyLines \<Rightarrow>
                    (case parse_fm (join_with [nl] (takeWhile (\<lambda>l. l \<noteq> FENCE) rest)) of
                       Inl e \<Rightarrow> Inl (BadFrontmatter e)
                     | Inr fm \<Rightarrow> Inr \<lparr>t_fm = fm, t_body = js_trim (join_with [nl] bodyLines), t_path = path\<rparr>)))"

definition serializeTask :: "(frontmatter \<Rightarrow> string) \<Rightarrow> task \<Rightarrow> string" where
  "serializeTask to_yaml t = FENCE @ [nl] @ to_yaml (t_fm t) @ FENCE @ [nl, nl] @ t_body t @ [nl]"

text \<open>\<open>/^##\s+(.+?)\s*$/i\<close> on one line: at least one white space after the hashes, then a shortest
  non-empty text without line breaks before trailing white space. On a line of white space only,
  the greedy \<open>\s+\<close> leaves the last character that \<open>.\<close> can match.\<close>

definition cr :: char where
  "cr = CHR 0x0D"

definition match_section :: "string \<Rightarrow> string option" where
  "match_section line =
     (if \<not> str_prefix ''##'' line then None
      else let r = drop 2 line; ws = takeWhile is_ws r; rest = dropWhile is_ws r
           in if ws = [] then None
              else if rest = [] then
                (let dots = filter (\<lambda>c. c \<noteq> cr) (drop 1 ws) in if dots = [] then None else Some [last dots])
              else if cr \<in> set (js_trim rest) then None
              else Some (js_trim rest))"

fun split_sections :: "string list \<Rightarrow> (string \<times> string list) list" where
  "split_sections [] = []"
| "split_sections (l # ls) =
     (case match_section l of
        None \<Rightarrow> split_sections ls
      | Some n \<Rightarrow> (to_lower n, takeWhile (\<lambda>k. match_section k = None) ls) # split_sections ls)"

record task_sections =
  sec_instructions :: "string option"
  sec_guidance :: "string option"

definition add_section :: "task_sections \<Rightarrow> string \<times> string list \<Rightarrow> task_sections" where
  "add_section r s =
     (let content = js_trim (join_with [nl] (snd s))
      in if fst s = ''instructions'' then r\<lparr>sec_instructions := Some content\<rparr>
         else if fst s = ''guidance'' then r\<lparr>sec_guidance := Some content\<rparr> else r)"

definition extractTaskSections :: "string \<Rightarrow> task_sections" where
  "extractTaskSections body =
     foldl add_section \<lparr>sec_instructions = None, sec_guidance = None\<rparr> (split_sections (split_on nl body))"

subsection \<open>Lines\<close>

lemma split_on_at: "split_on c (a @ c # b) = split_on c a @ split_on c b"
  by (induction a) (auto split: list.split)

lemma nl_ws [simp]: "is_ws nl"
  by (simp add: is_ws_def nl_def)

lemma js_trim_Cons [simp]: "is_ws c \<Longrightarrow> js_trim (c # s) = js_trim s"
  by (simp add: js_trim_def)

lemma js_trim_snoc [simp]: "is_ws c \<Longrightarrow> js_trim (s @ [c]) = js_trim s"
  by (cases "\<forall>x \<in> set s. is_ws x") (auto simp: js_trim_def dropWhile_append dest: set_dropWhileD)

lemma fence_lines [simp]: "split_on nl FENCE = [FENCE]" "js_trim FENCE = FENCE" "FENCE \<noteq> []"
  by (simp_all add: FENCE_def nl_def js_trim_def is_ws_def)

lemma takeWhile_fence:
  "FENCE \<notin> set xs \<Longrightarrow> takeWhile (\<lambda>l. l \<noteq> FENCE) (xs @ FENCE # ys) = xs"
  "FENCE \<notin> set xs \<Longrightarrow> dropWhile (\<lambda>l. l \<noteq> FENCE) (xs @ FENCE # ys) = FENCE # ys"
  by (induction xs) auto

lemma serialize_lines:
  assumes "to_yaml (t_fm t) = block @ [nl]"
  shows "split_on nl (serializeTask to_yaml t) =
    FENCE # split_on nl block @ FENCE # split_on nl (nl # t_body t @ [nl])"
proof -
  have "serializeTask to_yaml t = FENCE @ nl # (block @ nl # (FENCE @ nl # (nl # t_body t @ [nl])))"
    by (simp add: serializeTask_def assms)
  then show ?thesis by (simp only: split_on_at fence_lines append.simps)
qed

text \<open>
  C18: round trip. If the YAML writer ends its output with a line break, never writes a line
  \<open>---\<close>, and the YAML reader with the schema check inverts it, then reading back a serialised task
  gives its frontmatter and its body without surrounding white space, also when the body has
  fences or frontmatter of its own.
\<close>

theorem parse_serialize:
  assumes "to_yaml (t_fm t) = block @ [nl]" "FENCE \<notin> set (split_on nl block)" "parse_fm block = Inr (t_fm t)"
  shows "parseTaskFile parse_fm (serializeTask to_yaml t) path =
    Inr \<lparr>t_fm = t_fm t, t_body = js_trim (t_body t), t_path = path\<rparr>"
proof -
  have "js_trim (join_with [nl] (split_on nl (nl # t_body t @ [nl]))) = js_trim (t_body t)"
    unfolding join_split_on by simp
  then show ?thesis
    using assms(2,3) by (simp add: parseTaskFile_def serialize_lines [of to_yaml t block, OF assms(1)] takeWhile_fence del: split_on.simps(2))
qed

text \<open>A toy YAML: the id on one line.\<close>

definition id_yaml :: "frontmatter \<Rightarrow> string" where
  "id_yaml fm = ''id: '' @ fm_id fm @ [nl]"

theorem parse_serialize_witness:
  "parseTaskFile (\<lambda>y. if y = ''id: '' @ sample_id then Inr (sample_fm sample_id Ready) else Inl ''bad'')
     (serializeTask id_yaml \<lparr>t_fm = sample_fm sample_id Ready, t_body = ''--- twice'', t_path = None\<rparr>) None
   = Inr \<lparr>t_fm = sample_fm sample_id Ready, t_body = js_trim ''--- twice'', t_path = None\<rparr>"
  using parse_serialize [of id_yaml "\<lparr>t_fm = sample_fm sample_id Ready, t_body = ''--- twice'', t_path = None\<rparr>"
      "''id: '' @ sample_id" "\<lambda>y. if y = ''id: '' @ sample_id then Inr (sample_fm sample_id Ready) else Inl ''bad''" None]
  by (simp add: id_yaml_def FENCE_def sample_id_def nl_def)

text \<open>
  Fact: sections. In a body of lines where only the two given lines are section headers, the text
  after each header up to the next one, trimmed, is extracted.
\<close>

theorem extract_sections:
  assumes "\<forall>l \<in> set (pre @ a @ b). nl \<notin> set l \<and> match_section l = None"
  shows "extractTaskSections (join_with [nl] (pre @ [''## Instructions''] @ a @ [''## Guidance''] @ b)) =
    \<lparr>sec_instructions = Some (js_trim (join_with [nl] a)), sec_guidance = Some (js_trim (join_with [nl] b))\<rparr>"
proof -
  let ?ls = "pre @ [''## Instructions''] @ a @ [''## Guidance''] @ b"
  have h: "match_section ''## Instructions'' = Some ''Instructions''" "match_section ''## Guidance'' = Some ''Guidance''"
    by code_simp+
  have low: "to_lower ''Instructions'' = ''instructions''" "to_lower ''Guidance'' = ''guidance''" by code_simp+
  have "\<forall>l \<in> set ?ls. nl \<notin> set l" using assms by (auto simp: nl_def)
  then have lines: "split_on nl (join_with [nl] ?ls) = ?ls" by (intro split_join) auto
  have skip: "split_sections (xs @ ys) = split_sections ys" if "\<forall>l \<in> set xs. match_section l = None" for xs ys
    using that by (induction xs) auto
  have "split_sections b = []" using skip [of b "[]"] assms by simp
  moreover have "takeWhile (\<lambda>k. match_section k = None) (a @ ''## Guidance'' # b) = a"
    "takeWhile (\<lambda>k. match_section k = None) b = b"
    using assms h by (simp_all add: takeWhile_eq_all_conv takeWhile_append2)
  ultimately have "split_sections ?ls = [(''instructions'', a), (''guidance'', b)]"
    using skip [of pre] skip [of a "''## Guidance'' # b"] assms h low by simp
  then show ?thesis unfolding extractTaskSections_def lines by (simp add: add_section_def)
qed

theorem extract_sections_witness:
  "extractTaskSections (join_with [nl] ([''intro''] @ [''## Instructions''] @ [''do it ''] @ [''## Guidance''] @ []))
    = \<lparr>sec_instructions = Some (js_trim (join_with [nl] [''do it ''])), sec_guidance = Some (js_trim (join_with [nl] []))\<rparr>"
  by (rule extract_sections) (simp add: match_section_def nl_def)

end
