(* ===== verification/RunArtifacts.thy ===== *)
theory RunArtifacts
  imports TaskDeps
begin

section \<open>Run artifacts and recovery (recovery/run-artifacts.ts)\<close>

text \<open>
  The files \<open>run.json\<close>, \<open>run_heartbeat.json\<close> and \<open>run_result.json\<close> of a task live in
  \<open>state/runs/<id>/\<close>, here an entry of \<open>w_runs\<close> whose presence is the existence of the directory.
  Every operation first looks the task up in the store, as the code does. Shown: what is written
  is read back, the other files and tasks keep theirs, and the resume decision of
  \<open>getResumeInfo\<close>.
\<close>

definition empty_run :: run_dir where
  "empty_run = \<lparr>rd_run = None, rd_heartbeat = None, rd_result = None\<rparr>"

definition resolveTaskDir :: "string \<Rightarrow> string option m" where
  "resolveTaskDir i = bind (get_task i) (\<lambda>t. ret (case t of None \<Rightarrow> None | Some _ \<Rightarrow> Some i))"

definition run_dir_of :: "world \<Rightarrow> string \<Rightarrow> run_dir" where
  "run_dir_of w d = or_else (map_of (w_runs w) d) empty_run"

text \<open>\<open>mkdir(taskDir, { recursive: true })\<close> and a write into the directory.\<close>

definition change_run :: "string \<Rightarrow> (run_dir \<Rightarrow> run_dir) \<Rightarrow> unit m" where
  "change_run d f = modify (\<lambda>w. w\<lparr>w_runs := AList.update d (f (run_dir_of w d)) (w_runs w)\<rparr>)"

definition mkdir_run :: "string \<Rightarrow> unit m" where
  "mkdir_run d = change_run d id"

definition with_dir :: "string \<Rightarrow> (string \<Rightarrow> 'a m) \<Rightarrow> 'a m" where
  "with_dir i k = bind (resolveTaskDir i) (\<lambda>d. case d of None \<Rightarrow> throw (TaskNotFound i) | Some d \<Rightarrow> k d)"

definition read_run_file :: "(run_dir \<Rightarrow> 'a option) \<Rightarrow> string \<Rightarrow> 'a option m" where
  "read_run_file sel i = bind (resolveTaskDir i) (\<lambda>d. case d of
     None \<Rightarrow> ret None
   | Some d \<Rightarrow> gets (\<lambda>w. case map_of (w_runs w) d of None \<Rightarrow> None | Some r \<Rightarrow> sel r))"

definition writeRunArtifact :: "string \<Rightarrow> string \<Rightarrow> metadata \<Rightarrow> run_artifact m" where
  "writeRunArtifact i agentId meta = with_dir i (\<lambda>d. andThen (mkdir_run d) (bind now (\<lambda>ts.
     let artifact = \<lparr>ra_taskId = i, ra_agentId = agentId, ra_startedAt = ts, ra_status = RunRunning, ra_metadata = meta\<rparr>
     in andThen (change_run d (\<lambda>r. r\<lparr>rd_run := Some artifact\<rparr>)) (ret artifact))))"

definition readRunArtifact :: "string \<Rightarrow> run_artifact option m" where
  "readRunArtifact = read_run_file rd_run"

definition writeRunResult :: "string \<Rightarrow> run_result \<Rightarrow> run_result m" where
  "writeRunResult i result = with_dir i (\<lambda>d. andThen (mkdir_run d)
     (if \<not> valid_task_id (rr_taskId result) \<or> tp_passed (rr_tests result) + tp_failed (rr_tests result) > tp_total (rr_tests result)
      then throw (OtherError ''ZodError'')
      else if rr_taskId result \<noteq> i then throw (RunResultMismatch i (rr_taskId result))
      else andThen (change_run d (\<lambda>r. r\<lparr>rd_result := Some result\<rparr>)) (ret result)))"

definition readRunResult :: "string \<Rightarrow> run_result option m" where
  "readRunResult = read_run_file rd_result"

definition change_artifact :: "string \<Rightarrow> (int \<Rightarrow> run_artifact \<Rightarrow> run_artifact) \<Rightarrow> unit m" where
  "change_artifact i f = bind (readRunArtifact i) (\<lambda>existing. case existing of
     None \<Rightarrow> ret ()
   | Some a \<Rightarrow> bind (resolveTaskDir i) (\<lambda>d. case d of
       None \<Rightarrow> ret ()
     | Some d \<Rightarrow> bind now (\<lambda>ts. change_run d (\<lambda>r. r\<lparr>rd_run := Some (f ts a)\<rparr>))))"

definition markRunArtifactExpired :: "string \<Rightarrow> string \<Rightarrow> unit m" where
  "markRunArtifactExpired i reason = change_artifact i (\<lambda>ts a.
     a\<lparr>ra_status := RunFailed,
       ra_metadata := (ra_metadata a)(''expiredAt'' \<mapsto> JTime ts, ''expiredReason'' \<mapsto> JStr reason)\<rparr>)"

definition completeRunArtifact :: "string \<Rightarrow> unit m" where
  "completeRunArtifact i = change_artifact i (\<lambda>ts a.
     a\<lparr>ra_status := RunCompleted, ra_metadata := (ra_metadata a)(''completedAt'' \<mapsto> JTime ts)\<rparr>)"

definition writeHeartbeat :: "string \<Rightarrow> string \<Rightarrow> int \<Rightarrow> run_heartbeat m" where
  "writeHeartbeat i agentId ttlMs = with_dir i (\<lambda>d. andThen (mkdir_run d)
     (bind (gets (\<lambda>w. rd_heartbeat (run_dir_of w d))) (\<lambda>existing. bind now (\<lambda>ts.
        let heartbeat = \<lparr>hb_taskId = i, hb_agentId = agentId, hb_lastHeartbeat = ts,
              hb_beatCount = (case existing of None \<Rightarrow> 0 | Some h \<Rightarrow> hb_beatCount h + 1), hb_expiresAt = Some (ts + ttlMs)\<rparr>
        in andThen (change_run d (\<lambda>r. r\<lparr>rd_heartbeat := Some heartbeat\<rparr>)) (ret heartbeat)))))"

definition readHeartbeat :: "string \<Rightarrow> run_heartbeat option m" where
  "readHeartbeat = read_run_file rd_heartbeat"

text \<open>\<open>expiresAt > 0 && expiresAt <= now\<close>, with 0 for a missing field.\<close>

definition heartbeat_stale :: "run_heartbeat \<Rightarrow> int \<Rightarrow> bool" where
  "heartbeat_stale h ts = (let expiresAt = or_else (hb_expiresAt h) 0 in expiresAt > 0 \<and> expiresAt \<le> ts)"

definition checkStaleHeartbeats :: "run_heartbeat list m" where
  "checkStaleHeartbeats = bind (list_tasks (status_filter InProgress)) (\<lambda>inProgress. bind now (\<lambda>ts.
     fold_m (\<lambda>t acc. bind (readHeartbeat (fm_id (t_fm t))) (\<lambda>h. case h of
               None \<Rightarrow> ret acc
             | Some h \<Rightarrow> ret (if heartbeat_stale h ts then acc @ [h] else acc)))
       inProgress []))"

datatype resume_status = Resumable | Stale | ResumeCompleted

record resume_info =
  ri_taskId :: string
  ri_agentId :: string
  ri_status :: resume_status
  ri_runArtifact :: "run_artifact option"
  ri_heartbeat :: "run_heartbeat option"

definition getResumeInfo :: "string \<Rightarrow> resume_info m" where
  "getResumeInfo i = bind (get_task i) (\<lambda>t. case t of
     None \<Rightarrow> ret \<lparr>ri_taskId = i, ri_agentId = ''unknown'', ri_status = Stale, ri_runArtifact = None, ri_heartbeat = None\<rparr>
   | Some task \<Rightarrow>
       (let leaseAgent = map_option tl_agent (fm_lease (t_fm task)) in
        if fm_status (t_fm task) = Done
        then ret \<lparr>ri_taskId = i, ri_agentId = or_else leaseAgent ''unknown'', ri_status = ResumeCompleted,
                  ri_runArtifact = None, ri_heartbeat = None\<rparr>
        else bind (readRunArtifact i) (\<lambda>run. bind (readHeartbeat i) (\<lambda>heartbeat.
          if run = None \<and> heartbeat = None
          then ret \<lparr>ri_taskId = i,
                    ri_agentId = or_else leaseAgent (or_else (rt_agent (fm_routing (t_fm task))) ''unknown''),
                    ri_status = Resumable, ri_runArtifact = None, ri_heartbeat = None\<rparr>
          else bind now (\<lambda>ts.
            case heartbeat of
              Some h \<Rightarrow>
                if heartbeat_stale h ts
                then ret \<lparr>ri_taskId = i, ri_agentId = hb_agentId h, ri_status = Stale,
                          ri_runArtifact = run, ri_heartbeat = heartbeat\<rparr>
                else ret \<lparr>ri_taskId = i,
                          ri_agentId = or_else (map_option ra_agentId run) (hb_agentId h),
                          ri_status = Resumable, ri_runArtifact = run, ri_heartbeat = heartbeat\<rparr>
            | None \<Rightarrow> ret \<lparr>ri_taskId = i, ri_agentId = or_else (map_option ra_agentId run) ''unknown'',
                          ri_status = Resumable, ri_runArtifact = run, ri_heartbeat = None\<rparr>)))))"

subsection \<open>Reading back\<close>

lemma resolveTaskDir_run:
  "consistent w \<Longrightarrow> resolveTaskDir i w = (Inr (case abs_store w i of None \<Rightarrow> None | Some _ \<Rightarrow> Some i), w)"
  by (simp add: resolveTaskDir_def get_task_consistent bind_def run_simps split: option.split)

lemma with_dir_run:
  "consistent w \<Longrightarrow> with_dir i k w = (case abs_store w i of None \<Rightarrow> (Inl (TaskNotFound i), w) | Some _ \<Rightarrow> k i w)"
  by (simp add: with_dir_def resolveTaskDir_run bind_def run_simps split: option.split)

lemma read_run_file_run:
  "consistent w \<Longrightarrow> read_run_file sel i w =
     (Inr (case abs_store w i of None \<Rightarrow> None | Some _ \<Rightarrow> (case map_of (w_runs w) i of None \<Rightarrow> None | Some r \<Rightarrow> sel r)), w)"
  by (simp add: read_run_file_def resolveTaskDir_run bind_def run_simps split: option.split)

lemma change_run_run: "change_run d f w = (Inr (), w\<lparr>w_runs := AList.update d (f (run_dir_of w d)) (w_runs w)\<rparr>)"
  by (simp add: change_run_def run_simps)

lemma run_dir_of_update [simp]:
  "run_dir_of (w\<lparr>w_runs := AList.update d r (w_runs w')\<rparr>) e = (if e = d then r else or_else (map_of (w_runs w') e) empty_run)"
  by (simp add: run_dir_of_def or_else_def)

lemma preserves_change_run [wf_intros]: "preserves consistent (change_run d f)"
  by (simp add: preserves_def change_run_run)

lemma change_run_abs [simp]: "abs_store (snd (change_run d f w)) = abs_store w"
  by (simp add: change_run_run)

lemma found_clock [simp]: "found (w\<lparr>w_now := t\<rparr>) = found w"
  by (simp add: found_def file_at_def fun_eq_iff)

lemma clock_frame [simp]:
  "consistent (w\<lparr>w_now := t\<rparr>) = consistent w" "abs_store (w\<lparr>w_now := t\<rparr>) = abs_store w"
  "run_dir_of (w\<lparr>w_now := t\<rparr>) = run_dir_of w"
  by (simp_all add: consistent_def abs_store_def copies_def file_at_def run_dir_of_def fun_eq_iff)

text \<open>What the resume protocol of lease acquisition writes: \<open>run.json\<close> and a heartbeat.\<close>

definition start_run :: "string \<Rightarrow> string \<Rightarrow> int \<Rightarrow> run_heartbeat m" where
  "start_run i agentId ttlMs = andThen (writeRunArtifact i agentId Map.empty) (writeHeartbeat i agentId ttlMs)"

lemma start_run_run:
  assumes "consistent w" "abs_store w i = Some fb"
  shows "\<exists>h w'. start_run i a ttl w = (Inr h, w') \<and> consistent w' \<and> abs_store w' = abs_store w \<and>
    rd_run (run_dir_of w' i) = Some \<lparr>ra_taskId = i, ra_agentId = a, ra_startedAt = w_now w, ra_status = RunRunning, ra_metadata = Map.empty\<rparr> \<and>
    rd_heartbeat (run_dir_of w' i) = Some h \<and> hb_agentId h = a \<and> hb_expiresAt h = Some (w_now w + ttl) \<and>
    map_of (w_runs w') i \<noteq> None \<and> w_files w' = w_files w \<and> (\<forall>j. j \<noteq> i \<longrightarrow> map_of (w_runs w') j = map_of (w_runs w) j)"
  using assms
  by (auto simp: start_run_def writeRunArtifact_def writeHeartbeat_def with_dir_run andThen_def bind_def mkdir_run_def
      change_run_run run_simps now_def Let_def)

lemma getResumeInfo_run:
  assumes "consistent w" "abs_store w i = Some fb" "fm_status (fst fb) \<noteq> Done"
    and "rd_run (run_dir_of w i) = Some a" "rd_heartbeat (run_dir_of w i) = Some h" "map_of (w_runs w) i \<noteq> None"
  shows "getResumeInfo i w = (Inr \<lparr>ri_taskId = i,
      ri_agentId = (if heartbeat_stale h (w_now w) then hb_agentId h else ra_agentId a),
      ri_status = (if heartbeat_stale h (w_now w) then Stale else Resumable),
      ri_runArtifact = Some a, ri_heartbeat = Some h\<rparr>, w)"
  using assms
  by (auto simp: getResumeInfo_def get_task_consistent readRunArtifact_def readHeartbeat_def read_run_file_run bind_def
      run_simps now_def run_dir_of_def or_else_def split: option.splits)

text \<open>
  Fact: crash recovery. Once the run artifact and the heartbeat of a task are written, a resume
  query at any later time names the agent that started it and says \<open>stale\<close> exactly from the
  heartbeat's expiry on and \<open>resumable\<close> before, as long as the task is not done.
\<close>

theorem resume_after_crash:
  assumes "consistent w" "abs_store w i = Some (fm, b)" "fm_status fm \<noteq> Done" "0 < w_now w + ttl"
  shows "\<exists>h w' info. start_run i a ttl w = (Inr h, w') \<and>
    getResumeInfo i (w'\<lparr>w_now := t\<rparr>) = (Inr info, w'\<lparr>w_now := t\<rparr>) \<and> ri_agentId info = a \<and>
    ri_status info = (if w_now w + ttl \<le> t then Stale else Resumable)"
proof -
  from start_run_run [OF assms(1,2), of a ttl] obtain h w' where
    r: "start_run i a ttl w = (Inr h, w')" "consistent w'" "abs_store w' = abs_store w"
    "rd_run (run_dir_of w' i) = Some \<lparr>ra_taskId = i, ra_agentId = a, ra_startedAt = w_now w, ra_status = RunRunning, ra_metadata = Map.empty\<rparr>"
    "rd_heartbeat (run_dir_of w' i) = Some h" "hb_agentId h = a" "hb_expiresAt h = Some (w_now w + ttl)"
    "map_of (w_runs w') i \<noteq> None" by blast
  have "heartbeat_stale h t = (w_now w + ttl \<le> t)" using r(7) assms(4) by (simp add: heartbeat_stale_def or_else_def)
  moreover note getResumeInfo_run [of "w'\<lparr>w_now := t\<rparr>" i "(fm, b)"]
  ultimately show ?thesis using r assms(2,3) by simp
qed

theorem resume_after_crash_witness:
  "\<exists>h w' info. start_run sample_id ''dev'' 5 (one_task InProgress) = (Inr h, w') \<and>
    getResumeInfo sample_id (w'\<lparr>w_now := 105\<rparr>) = (Inr info, w'\<lparr>w_now := 105\<rparr>) \<and> ri_agentId info = ''dev'' \<and>
    ri_status info = Stale"
proof -
  have "abs_store (one_task InProgress) sample_id = Some (sample_fm sample_id InProgress, ''body'')" by simp
  from resume_after_crash [OF one_task_consistent this, of 5 "''dev''" 105] show ?thesis by simp
qed

end
