(* ===== verification/StoreFrame.thy ===== *)
theory StoreFrame
  imports RunArtifacts
begin

section \<open>What an operation may touch, and what list returns\<close>

text \<open>
  \<open>local_to J f\<close>: on a consistent store, the operation \<open>f\<close> leaves the store consistent, the clock
  alone and every task outside \<open>J\<close> as it was, whether it succeeds or throws. The rules below
  compose it along the code's control flow; the store's operations are local to the id they are
  given. \<open>list\<close> on a consistent store returns each matching task exactly once and changes nothing.
\<close>

definition local_at :: "string set \<Rightarrow> world \<Rightarrow> 'a m \<Rightarrow> bool" where
  "local_at J w f \<longleftrightarrow> consistent (snd (f w)) \<and> w_now (snd (f w)) = w_now w \<and>
     (\<forall>i. i \<notin> J \<longrightarrow> abs_store (snd (f w)) i = abs_store w i)"

definition local_to :: "string set \<Rightarrow> 'a m \<Rightarrow> bool" where
  "local_to J f \<longleftrightarrow> (\<forall>w. consistent w \<longrightarrow> local_at J w f)"

named_theorems local_intros \<open>an operation touches only the given tasks\<close>

lemma local_toD: "local_to J f \<Longrightarrow> consistent w \<Longrightarrow> local_at J w f"
  by (simp add: local_to_def)

lemma local_atD:
  "local_at J w f \<Longrightarrow> consistent (snd (f w))" "local_at J w f \<Longrightarrow> w_now (snd (f w)) = w_now w"
  "local_at J w f \<Longrightarrow> i \<notin> J \<Longrightarrow> abs_store (snd (f w)) i = abs_store w i"
  by (simp_all add: local_at_def)

lemma local_at_mono: "local_at J w f \<Longrightarrow> J \<subseteq> K \<Longrightarrow> local_at K w f"
  by (auto simp: local_at_def)

lemma local_at_run:
  "f w = (r, w') \<Longrightarrow> consistent w' \<Longrightarrow> w_now w' = w_now w \<Longrightarrow> (\<And>i. i \<notin> J \<Longrightarrow> abs_store w' i = abs_store w i) \<Longrightarrow>
    local_at J w f"
  by (simp add: local_at_def)

lemma local_at_pure:
  "consistent w \<Longrightarrow> local_at J w (ret x)" "consistent w \<Longrightarrow> local_at J w (throw e)" "consistent w \<Longrightarrow> local_at J w (gets f)"
  by (simp_all add: local_at_def run_simps)

lemma local_to_mono: "local_to J f \<Longrightarrow> J \<subseteq> K \<Longrightarrow> local_to K f"
  by (auto simp: local_to_def local_at_def)

lemma local_at_bind:
  assumes f: "local_at J w f" and g: "\<And>x w'. f w = (Inr x, w') \<Longrightarrow> consistent w' \<Longrightarrow> local_at J w' (g x)"
  shows "local_at J w (bind f g)"
proof (cases "f w")
  case (Pair r w')
  show ?thesis
  proof (cases r)
    case (Inl e)
    then show ?thesis using f Pair by (simp add: local_at_def bind_run(2))
  next
    case (Inr x)
    from f Pair have w': "consistent w'" "w_now w' = w_now w" "\<And>i. i \<notin> J \<Longrightarrow> abs_store w' i = abs_store w i"
      by (auto simp: local_at_def)
    from g [OF Pair [unfolded Inr] w'(1)] w' show ?thesis
      by (simp add: local_at_def bind_run(1) [of f, OF Pair [unfolded Inr]])
  qed
qed

lemma local_at_andThen:
  "local_at J w f \<Longrightarrow> (\<And>x w'. f w = (Inr x, w') \<Longrightarrow> consistent w' \<Longrightarrow> local_at J w' g) \<Longrightarrow> local_at J w (andThen f g)"
  unfolding andThen_def by (rule local_at_bind)

lemma local_at_catch:
  assumes f: "local_at J w f" and h: "\<And>e w'. f w = (Inl e, w') \<Longrightarrow> consistent w' \<Longrightarrow> local_at J w' (h e)"
  shows "local_at J w (catch f h)"
proof (cases "f w")
  case (Pair r w')
  show ?thesis
  proof (cases r)
    case (Inr x)
    then show ?thesis using f Pair by (simp add: local_at_def catch_run(1))
  next
    case (Inl e)
    from f Pair have w': "consistent w'" "w_now w' = w_now w" "\<And>i. i \<notin> J \<Longrightarrow> abs_store w' i = abs_store w i"
      by (auto simp: local_at_def)
    from h [OF Pair [unfolded Inl] w'(1)] w' show ?thesis
      by (simp add: local_at_def catch_run(2) [of f, OF Pair [unfolded Inl]])
  qed
qed

lemma local_to_ret [local_intros]: "local_to J (ret x)"
  and local_to_throw [local_intros]: "local_to J (throw e)"
  and local_to_gets [local_intros]: "local_to J (gets f)"
  and local_to_now [local_intros]: "local_to J now"
  by (simp_all add: local_to_def local_at_pure now_def)

lemma local_to_bind [local_intros]: "local_to J f \<Longrightarrow> (\<And>x. local_to J (g x)) \<Longrightarrow> local_to J (bind f g)"
  by (simp add: local_to_def local_at_bind)

lemma local_to_andThen [local_intros]: "local_to J f \<Longrightarrow> local_to J g \<Longrightarrow> local_to J (andThen f g)"
  by (simp add: local_to_def local_at_andThen)

lemma local_to_catch [local_intros]: "local_to J f \<Longrightarrow> (\<And>e. local_to J (h e)) \<Longrightarrow> local_to J (catch f h)"
  by (simp add: local_to_def local_at_catch)

lemma local_to_when [local_intros]: "local_to J f \<Longrightarrow> local_to J (when_m b f)"
  by (simp add: when_m_def local_to_ret)

lemma local_to_fold [local_intros]: "(\<And>x acc. x \<in> set xs \<Longrightarrow> local_to J (f x acc)) \<Longrightarrow> local_to J (fold_m f xs acc)"
  by (induction xs arbitrary: acc) (auto intro: local_intros)

lemma local_to_if [local_intros]:
  "(b \<Longrightarrow> local_to J f) \<Longrightarrow> (\<not> b \<Longrightarrow> local_to J g) \<Longrightarrow> local_to J (if b then f else g)"
  by simp

lemma local_to_option [local_intros]:
  "(x = None \<Longrightarrow> local_to J f) \<Longrightarrow> (\<And>v. x = Some v \<Longrightarrow> local_to J (g v)) \<Longrightarrow>
    local_to J (case x of None \<Rightarrow> f | Some v \<Rightarrow> g v)"
  by (cases x) auto

lemma local_to_prod [local_intros]:
  "(\<And>a b. x = (a, b) \<Longrightarrow> local_to J (f a b)) \<Longrightarrow> local_to J (case x of (a, b) \<Rightarrow> f a b)"
  by (cases x) auto

lemma local_to_let [local_intros]: "local_to J (f x) \<Longrightarrow> local_to J (let y = x in f y)"
  by simp

lemma local_to_from_option [local_intros]: "local_to J (from_option e x)"
  by (auto simp: from_option_def intro: local_intros split: option.split)

text \<open>Changes of the world outside the task files and the clock.\<close>

lemma local_to_modify:
  "(\<And>w. w_files (f w) = w_files w \<and> w_now (f w) = w_now w) \<Longrightarrow> local_to J (modify f)"
proof -
  assume f: "\<And>w. w_files (f w) = w_files w \<and> w_now (f w) = w_now w"
  have fa: "file_at (f w) = file_at w" for w by (rule ext) (simp add: file_at_def f)
  have "found (f w) = found w" for w by (intro ext) (simp add: found_def fa)
  then have "abs_store (f w) = abs_store w" for w by (intro ext) (simp add: abs_store_def copies_def)
  moreover have "consistent (f w) = consistent w" for w using f [of w] fa [of w] by (simp add: consistent_def)
  ultimately show ?thesis using f by (simp add: local_to_def local_at_def run_simps)
qed

lemma local_to_log [local_intros]: "local_to J (log_event ty a i p)"
  unfolding log_event_def by (rule local_to_modify) simp

lemma local_to_change_run [local_intros]: "local_to J (change_run d f)"
  unfolding change_run_def by (rule local_to_modify) simp

subsection \<open>The store\<close>

lemma local_to_get [local_intros]: "local_to J (get_task i)"
  by (simp add: local_to_def local_at_def get_task_consistent)

lemma preserves_now_file_ops [wf_intros]:
  "preserves (\<lambda>w. w_now w = n) (write_task p t)" "preserves (\<lambda>w. w_now w = n) (unlink p)"
  "preserves (\<lambda>w. w_now w = n) (rename_dir p q)" "preserves (\<lambda>w. w_now w = n) (rename_file p q)"
  "preserves (\<lambda>w. w_now w = n) (log_event ty a k pl)" "preserves (\<lambda>w. w_now w = n) (get_task i)"
  by (auto simp: write_task_def unlink_def rename_dir_def rename_file_def log_event_def move_file_def
      get_task_def collect_match_def remove_stale_def read_task_at_def log_validation_failed_def
      intro!: wf_intros preserves_modify split: option.split file_content.split list.split prod.split)

lemma transition_now: "w_now (snd (transition_task i s opts w)) = w_now w"
proof -
  have "preserves (\<lambda>w'. w_now w' = w_now w) (transition_task i s opts)"
    unfolding transition_task_def move_task_def log_transition_events_def
    by (auto intro!: wf_intros split: option.split simp: Let_def)
  then show ?thesis by (simp add: preserves_def)
qed

lemma local_to_transition [local_intros]: "i \<in> J \<Longrightarrow> local_to J (transition_task i s opts)"
  by (auto simp: local_to_def local_at_def transition_task_keeps transition_now)
    (metis transition_view(2))

lemma local_at_with_task:
  assumes "consistent w" "\<And>fb. abs_store w i = Some fb \<Longrightarrow> local_at J w (k (Some (loaded i fb)))" "local_at J w (k None)"
  shows "local_at J w (bind (get_task i) k)"
  using assms get_task_consistent [OF assms(1), of i]
  by (cases "abs_store w i") (simp_all add: local_at_def bind_def)

text \<open>Reads that change nothing disappear from a locality goal.\<close>

lemma local_at_reads [simp]:
  "local_at J w (bind now f) = local_at J w (f (w_now w))" "local_at J w (bind (gets g) f) = local_at J w (f (g w))"
  by (simp_all add: local_at_def now_def)

lemma local_at_get: "consistent w \<Longrightarrow> local_at J w (bind (get_task i) k) = local_at J w (k (map_option (loaded i) (abs_store w i)))"
  by (simp add: local_at_def get_task_consistent bind_def)

lemma local_at_bind_pure: "f w = (Inr x, w) \<Longrightarrow> local_at J w (bind f g) = local_at J w (g x)"
  by (simp add: local_at_def bind_def)

text \<open>Writing a task back where it was read.\<close>

lemma local_at_write:
  assumes "consistent w" "abs_store w i = Some fb" "fm_id (t_fm t) = fm_id (fst fb)"
    "fm_status (t_fm t) = fm_status (fst fb)" "i \<in> J" "p = taskPath i (fm_status (fst fb))"
  shows "local_at J w (write_task p t)"
proof -
  obtain fm b where fb: "fb = (fm, b)" by (cases fb)
  have "consistent (put_file (taskPath i (fm_status fm)) t w) \<and>
    abs_store (put_file (taskPath i (fm_status fm)) t w) = (abs_store w)(i \<mapsto> (t_fm t, js_trim (t_body t)))"
    by (rule put_same_status [OF assms(1) assms(2) [unfolded fb]])
      (use assms consistent_files(1) [OF assms(1) assms(2) [unfolded fb]] in \<open>auto simp: fb\<close>)
  then show ?thesis using assms(5,6) by (auto simp: local_at_def write_task_def run_simps fb)
qed

lemma write_task_run:
  assumes "consistent w" "abs_store w i = Some fb" "fm_id (t_fm t) = fm_id (fst fb)"
    "fm_status (t_fm t) = fm_status (fst fb)"
  shows "\<exists>w'. write_task (taskPath i (fm_status (fst fb))) t w = (Inr (), w') \<and> consistent w' \<and> w_now w' = w_now w \<and>
    w_dirs w' = w_dirs w \<and> w_runs w' = w_runs w \<and>
    abs_store w' = (abs_store w)(i \<mapsto> (t_fm t, js_trim (t_body t)))"
proof -
  obtain fm b where fb: "fb = (fm, b)" by (cases fb)
  have "consistent (put_file (taskPath i (fm_status fm)) t w) \<and>
    abs_store (put_file (taskPath i (fm_status fm)) t w) = (abs_store w)(i \<mapsto> (t_fm t, js_trim (t_body t)))"
    by (rule put_same_status [OF assms(1) assms(2) [unfolded fb]])
      (use assms consistent_files(1) [OF assms(1) assms(2) [unfolded fb]] in \<open>auto simp: fb\<close>)
  then show ?thesis by (simp add: write_task_def run_simps fb) (simp add: put_file_def)
qed

subsection \<open>Tidy stores\<close>

text \<open>Every companion directory lies with its task: then no transition can find a directory in its way.\<close>

definition dirs_follow :: "world \<Rightarrow> bool" where
  "dirs_follow w \<longleftrightarrow> (\<forall>i s. map_of (w_dirs w) (taskPath i s) \<noteq> None \<longrightarrow>
     (\<exists>fb. abs_store w i = Some fb \<and> fm_status (fst fb) = s))"

definition tidy :: "world \<Rightarrow> bool" where
  "tidy w \<longleftrightarrow> consistent w \<and> dirs_follow w"

lemma tidy_consistent: "tidy w \<Longrightarrow> consistent w"
  by (simp add: tidy_def)

lemma moved_frame [simp]:
  "w_now (moved i s s' t w) = w_now w" "w_runs (moved i s s' t w) = w_runs w"
  by (simp_all add: moved_def remove_file_def put_file_def split: option.split)

lemma moved_dirs:
  "s \<noteq> s' \<Longrightarrow> map_of (w_dirs (moved i s s' t w)) =
     (if map_of (w_dirs w) (taskPath i s) = None then map_of (w_dirs w)
      else (map_of (w_dirs w))(taskPath i s := None, taskPath i s' := map_of (w_dirs w) (taskPath i s)))"
  by (auto simp: moved_def update_conv' delete_conv' fun_eq_iff split: option.split)

lemma dirs_follow_same:
  assumes "dirs_follow w" "map_of (w_dirs w') = map_of (w_dirs w)"
    "\<And>i. map_option (fm_status \<circ> fst) (abs_store w' i) = map_option (fm_status \<circ> fst) (abs_store w i)"
  shows "dirs_follow w'"
  unfolding dirs_follow_def
proof (intro allI impI)
  fix i s assume "map_of (w_dirs w') (taskPath i s) \<noteq> None"
  then have "map_of (w_dirs w) (taskPath i s) \<noteq> None" unfolding assms(2) .
  then obtain fb where "abs_store w i = Some fb" "fm_status (fst fb) = s" using assms(1) unfolding dirs_follow_def by blast
  then have "map_option (fm_status \<circ> fst) (abs_store w' i) = Some s" unfolding assms(3) by simp
  then show "\<exists>fb. abs_store w' i = Some fb \<and> fm_status (fst fb) = s" by auto
qed

lemma transition_tidy:
  assumes t: "tidy w" and abs: "abs_store w i = Some fb" and valid: "isValidTransition (fm_status (fst fb)) s'"
  shows "\<exists>w'. transition_task i s' opts w = (Inr (transition_result i s' opts (w_now w) fb), w') \<and> tidy w' \<and>
    w_now w' = w_now w \<and> w_runs w' = w_runs w \<and>
    abs_store w' = (abs_store w)(i \<mapsto> (transition_fm (fst fb) s' (to_metadataPatch opts) (w_now w), js_trim (snd fb)))"
proof -
  obtain fm b where fb: "fb = (fm, b)" by (cases fb)
  let ?t = "(loaded i fb)\<lparr>t_fm := transition_fm fm s' (to_metadataPatch opts) (w_now w)\<rparr>"
  let ?w = "moved i (fm_status fm) s' ?t w"
  have cons: "consistent w" and df: "dirs_follow w" using t by (simp_all add: tidy_def)
  have ne: "fm_status fm \<noteq> s'" using valid fb by auto
  note files = consistent_files [OF cons, of i fm b, OF abs [unfolded fb]]
  have free: "map_of (w_dirs w) (taskPath i s') = None" using df abs ne fb by (fastforce simp: dirs_follow_def)
  note move = move_task_ok [OF ne files(3) free, of ?t]
  obtain e where e: "log_transition_events i (fm_status fm) s' opts ?w = (Inr (), ?w\<lparr>w_events := e\<rparr>)"
    using log_transition_run by blast
  have spec: "consistent ?w \<and> abs_store ?w = (abs_store w)(i \<mapsto> (t_fm ?t, js_trim (t_body ?t)))"
    by (rule moved_consistent [OF cons abs [unfolded fb]]) (use files(1) ne in auto)
  have "dirs_follow ?w"
    unfolding dirs_follow_def
  proof (intro allI impI)
    fix j s assume d: "map_of (w_dirs ?w) (taskPath j s) \<noteq> None"
    show "\<exists>fb. abs_store ?w j = Some fb \<and> fm_status (fst fb) = s"
    proof (cases "j = i")
      case True
      then have "s = s'" using d df abs free fb unfolding moved_dirs [OF ne] dirs_follow_def
        by (fastforce split: if_splits)
      then show ?thesis using True spec by simp
    next
      case False
      then have "map_of (w_dirs w) (taskPath j s) \<noteq> None" using d unfolding moved_dirs [OF ne] by (auto split: if_splits)
      then show ?thesis using df False spec unfolding dirs_follow_def by auto
    qed
  qed
  then have "tidy (?w\<lparr>w_events := e\<rparr>)" using spec by (simp add: tidy_def dirs_follow_def)
  then show ?thesis
    using transition_task_cases(4) [OF cons abs valid, of opts] move e spec
    by (simp add: fb andThen_def bind_def run_simps)
qed

lemma write_task_tidy:
  assumes t: "tidy w" and abs: "abs_store w i = Some fb" and "fm_id (t_fm u) = fm_id (fst fb)"
    "fm_status (t_fm u) = fm_status (fst fb)"
  shows "\<exists>w'. write_task (taskPath i (fm_status (fst fb))) u w = (Inr (), w') \<and> tidy w' \<and> w_now w' = w_now w \<and>
    w_runs w' = w_runs w \<and> abs_store w' = (abs_store w)(i \<mapsto> (t_fm u, js_trim (t_body u)))"
proof -
  from write_task_run [OF tidy_consistent [OF t] abs assms(3,4)] obtain w' where
    w': "write_task (taskPath i (fm_status (fst fb))) u w = (Inr (), w')" "consistent w'" "w_now w' = w_now w"
    "w_dirs w' = w_dirs w" "w_runs w' = w_runs w" "abs_store w' = (abs_store w)(i \<mapsto> (t_fm u, js_trim (t_body u)))" by blast
  have "dirs_follow w'"
  proof (rule dirs_follow_same [of w])
    show "dirs_follow w" using t by (simp add: tidy_def)
    show "map_of (w_dirs w') = map_of (w_dirs w)" by (simp only: w'(4))
  qed (simp add: w'(6) abs assms(4))
  then have "tidy w'" using w'(2) by (simp add: tidy_def)
  with w' show ?thesis by blast
qed

subsection \<open>list\<close>

definition task_at :: "world \<Rightarrow> task_status \<Rightarrow> string \<Rightarrow> task" where
  "task_at w s e = (case file_at w (taskPath e s) of
     None \<Rightarrow> undefined | Some f \<Rightarrow> the (file_task (taskPath e s) f))"

definition listed :: "world \<Rightarrow> list_filters \<Rightarrow> task_status \<Rightarrow> task list" where
  "listed w lf s = filter (\<lambda>t. filter_matches lf (t_fm t)) (map (task_at w s) (stems_in w s))"

lemma stem_in: "distinct (map fst (w_files w)) \<Longrightarrow> e \<in> set (stems_in w s) \<longleftrightarrow> file_at w (taskPath e s) \<noteq> None"
  by (force simp: stems_in_def file_at_def taskPath_def map_of_eq_None_iff image_iff split: prod.splits)

lemma distinct_stems: "distinct (map fst (w_files w)) \<Longrightarrow> distinct (stems_in w s)"
proof -
  have "distinct (map fst fs) \<Longrightarrow> distinct (map (snd \<circ> fst) (filter (\<lambda>(p, f). fst p = s) fs))" for fs :: "(task_path \<times> task_file) list"
    by (induction fs) force+
  then show "distinct (map fst (w_files w)) \<Longrightarrow> distinct (stems_in w s)" by (simp add: stems_in_def)
qed

lemma task_at_consistent:
  assumes "consistent w" "e \<in> set (stems_in w s)"
  shows "\<exists>fb. abs_store w e = Some fb \<and> fm_status (fst fb) = s \<and> fm_id (fst fb) = e \<and> task_at w s e = loaded e fb \<and>
    read_task_at (s, e) w = (Inr (Some (loaded e fb)), w)"
proof -
  have d: "distinct (map fst (w_files w))" using assms(1) by (simp add: consistent_def)
  from assms(2) obtain f where f: "file_at w (taskPath e s) = Some f" using stem_in [OF d] by auto
  with assms(1) obtain fm b where c: "fi_content f = Parsed fm b" "fm_id fm = e" "fm_status fm = s"
    unfolding consistent_def by blast
  then have "abs_store w e = Some (fm, b)" using f abs_store_Some [OF assms(1)] by auto
  with c f show ?thesis
    by (auto simp: task_at_def file_task_def loaded_def read_task_at_def taskPath_def run_simps)
qed

lemma collect_listed_run:
  assumes "consistent w"
  shows "collect_listed lf s acc w = (Inr (acc @ listed w lf s), w)"
proof -
  have "fold_m (\<lambda>e acc. bind (read_task_at (s, e)) (\<lambda>t. case t of None \<Rightarrow> ret acc
         | Some t \<Rightarrow> ret (if filter_matches lf (t_fm t) then acc @ [t] else acc))) es acc w
      = (Inr (acc @ filter (\<lambda>t. filter_matches lf (t_fm t)) (map (task_at w s) es)), w)"
    if "set es \<subseteq> set (stems_in w s)" for es
    using that
  proof (induction es arbitrary: acc)
    case (Cons e es)
    from Cons.prems task_at_consistent [OF assms, of e s] obtain fb where
      "task_at w s e = loaded e fb" "read_task_at (s, e) w = (Inr (Some (loaded e fb)), w)" by auto
    with Cons show ?case by (simp add: bind_def run_simps)
  qed (simp add: run_simps)
  then show ?thesis by (simp add: collect_listed_def listed_def)
qed

definition list_statuses :: "list_filters \<Rightarrow> task_status list" where
  "list_statuses lf = (case lf_status lf of None \<Rightarrow> STATUS_DIRS | Some s \<Rightarrow> [s])"

lemma list_tasks_run:
  assumes "consistent w"
  shows "list_tasks lf w = (Inr (concat (map (listed w lf) (list_statuses lf))), w)"
proof -
  have "fold_m (collect_listed lf) ss acc w = (Inr (acc @ concat (map (listed w lf) ss)), w)" for ss acc
    by (induction ss arbitrary: acc) (simp_all add: bind_def run_simps collect_listed_run [OF assms])
  then show ?thesis by (simp add: list_tasks_def list_statuses_def split: option.split)
qed

lemma local_to_list [local_intros]: "local_to J (list_tasks lf)"
  by (simp add: local_to_def local_at_def list_tasks_run)

lemma in_listed:
  assumes "consistent w"
  shows "t \<in> set (listed w lf s) \<longleftrightarrow>
    (\<exists>i fb. abs_store w i = Some fb \<and> fm_status (fst fb) = s \<and> filter_matches lf (fst fb) \<and> t = loaded i fb)"
proof
  assume "t \<in> set (listed w lf s)"
  then obtain e where "e \<in> set (stems_in w s)" "t = task_at w s e" "filter_matches lf (t_fm t)"
    by (auto simp: listed_def)
  then show "\<exists>i fb. abs_store w i = Some fb \<and> fm_status (fst fb) = s \<and> filter_matches lf (fst fb) \<and> t = loaded i fb"
    using task_at_consistent [OF assms, of e s] by (metis loaded_simps(1))
next
  assume "\<exists>i fb. abs_store w i = Some fb \<and> fm_status (fst fb) = s \<and> filter_matches lf (fst fb) \<and> t = loaded i fb"
  then obtain i fb where t: "abs_store w i = Some fb" "fm_status (fst fb) = s" "filter_matches lf (fst fb)" "t = loaded i fb"
    by blast
  obtain fm b where fb: "fb = (fm, b)" by (cases fb)
  have "i \<in> set (stems_in w s)"
    using t abs_store_Some [OF assms, of i fm b] assms fb by (auto simp: stem_in consistent_def)
  with task_at_consistent [OF assms this] t show "t \<in> set (listed w lf s)"
    by (auto simp: listed_def intro!: image_eqI [of _ _ i])
qed

lemma listed_ids:
  assumes "consistent w"
  shows "distinct (map (\<lambda>t. fm_id (t_fm t)) (listed w lf s))"
proof -
  have "map (\<lambda>t. fm_id (t_fm t)) (map (task_at w s) (stems_in w s)) = stems_in w s"
    using task_at_consistent [OF assms, of _ s] by (fastforce intro: map_idI simp: o_def)
  moreover have "distinct (stems_in w s)" using assms by (simp add: consistent_def distinct_stems)
  ultimately show ?thesis unfolding listed_def by (metis distinct_map_filter)
qed

lemma list_ids_distinct:
  assumes cons: "consistent w" and "distinct ss"
  shows "distinct (map (\<lambda>t. fm_id (t_fm t)) (concat (map (listed w lf) ss)))"
  using assms(2)
proof (induction ss)
  case (Cons s ss)
  have *: "abs_store w (fm_id (t_fm t)) \<noteq> None \<and> fm_status (fst (the (abs_store w (fm_id (t_fm t))))) = s'"
    if "t \<in> set (listed w lf s')" for t s'
  proof -
    from that obtain i fb where "abs_store w i = Some fb" "fm_status (fst fb) = s'" "t = loaded i fb"
      using in_listed [OF cons] by blast
    moreover from this have "fm_id (fst fb) = i" using consistent_files(1) [OF cons, of i "fst fb" "snd fb"] by simp
    ultimately show ?thesis by simp
  qed
  have "fm_id (t_fm t) \<noteq> fm_id (t_fm u)" if "t \<in> set (listed w lf s)" "u \<in> set (listed w lf s')" "s' \<in> set ss" for t u s'
    using * [OF that(1)] * [OF that(2)] Cons.prems that(3) by auto
  then have "fm_id ` t_fm ` set (listed w lf s) \<inter> fm_id ` t_fm ` set (concat (map (listed w lf) ss)) = {}"
    by (simp only: set_concat set_map) blast
  with Cons listed_ids [OF cons, of lf s] show ?case by (simp add: image_image)
qed simp

end
