(* ===== verification/Lease.thy ===== *)
theory Lease
  imports StoreFrame
begin

section \<open>Leases (store/lease.ts, dispatch/lease-manager.ts)\<close>

text \<open>
  A lease is a field of the task file. Acquisition, renewal, release and the expiry sweep are the
  code's sequences of reads, checks, writes and transitions. The renewal timers of the dispatcher
  are the keys \<open>projectId:taskId\<close> in \<open>w_renewals\<close>; a timer firing is one call of \<open>renewal_tick\<close>.
  Shown: an unexpired lease excludes every other agent, over any sequence of lease requests and
  any passage of time; renewals are bounded; the sweep expires exactly the expired leases.
\<close>

subsection \<open>Operations\<close>

record lease_opts =
  lo_ttlMs :: "int option"
  lo_maxRenewals :: "nat option"
  lo_heartbeatTtlMs :: "int option"
  lo_writeRunArtifacts :: "bool option"

definition DEFAULT_TTL :: int where "DEFAULT_TTL = 600000"
definition DEFAULT_MAX_RENEWALS :: nat where "DEFAULT_MAX_RENEWALS = 3"
definition DEFAULT_HEARTBEAT_TTL :: int where "DEFAULT_HEARTBEAT_TTL = 300000"

definition default_lease_opts :: lease_opts where
  "default_lease_opts = \<lparr>lo_ttlMs = None, lo_maxRenewals = None, lo_heartbeatTtlMs = None, lo_writeRunArtifacts = None\<rparr>"

definition write_back :: "task \<Rightarrow> unit m" where
  "write_back t = (case t_path t of None \<Rightarrow> throw (NoPath (fm_id (t_fm t))) | Some p \<Rightarrow> write_task p t)"

definition with_lease :: "task_lease option \<Rightarrow> int \<Rightarrow> task \<Rightarrow> task" where
  "with_lease l ts t = t\<lparr>t_fm := (t_fm t)\<lparr>fm_lease := l, fm_updatedAt := ts\<rparr>\<rparr>"

definition leased_elsewhere :: "task_lease option \<Rightarrow> string \<Rightarrow> int \<Rightarrow> bool" where
  "leased_elsewhere l agentId ts = (case l of None \<Rightarrow> False | Some e \<Rightarrow> tl_expiresAt e > ts \<and> tl_agent e \<noteq> agentId)"

definition acquireLease :: "string \<Rightarrow> string \<Rightarrow> lease_opts \<Rightarrow> task m" where
  "acquireLease i agentId opts = bind (get_task i) (\<lambda>t. case t of None \<Rightarrow> throw (TaskNotFound i) | Some task \<Rightarrow>
     if fm_status (t_fm task) \<noteq> Ready \<and> fm_status (t_fm task) \<noteq> InProgress then throw (LeaseStatus i (fm_status (t_fm task)))
     else bind now (\<lambda>ts.
       case (if leased_elsewhere (fm_lease (t_fm task)) agentId ts then fm_lease (t_fm task) else None) of
         Some e \<Rightarrow> throw (LeasedTo i (tl_agent e) (tl_expiresAt e))
       | None \<Rightarrow>
           (let lease = \<lparr>tl_agent = agentId, tl_acquiredAt = ts,
                         tl_expiresAt = ts + or_else (lo_ttlMs opts) DEFAULT_TTL, tl_renewCount = 0\<rparr>;
                task1 = with_lease (Some lease) ts task
            in andThen (write_back task1)
                 (bind (if fm_status (t_fm task1) = Ready
                        then transition_task i InProgress (no_opts\<lparr>to_agent := Some agentId\<rparr>)
                        else ret task1) (\<lambda>result.
                    andThen
                      (when_m (or_else (lo_writeRunArtifacts opts) True)
                         (bind (start_run i agentId (or_else (lo_heartbeatTtlMs opts) DEFAULT_HEARTBEAT_TTL)) (\<lambda>_. ret ())))
                      (ret result))))))"

text \<open>The checks \<open>renewLease\<close> and \<open>releaseLease\<close> share.\<close>

definition held_lease :: "string \<Rightarrow> string \<Rightarrow> task \<Rightarrow> error + task_lease" where
  "held_lease i agentId task =
     (case fm_lease (t_fm task) of
        None \<Rightarrow> Inl (NoActiveLease i)
      | Some l \<Rightarrow> if tl_agent l \<noteq> agentId then Inl (LeaseNotHeld i (tl_agent l) agentId) else Inr l)"

definition renewLease :: "string \<Rightarrow> string \<Rightarrow> lease_opts \<Rightarrow> task m" where
  "renewLease i agentId opts = bind (get_task i) (\<lambda>t. case t of None \<Rightarrow> throw (TaskNotFound i) | Some task \<Rightarrow>
     (case held_lease i agentId task of
        Inl e \<Rightarrow> throw e
      | Inr l \<Rightarrow>
          (let maxRenewals = or_else (lo_maxRenewals opts) DEFAULT_MAX_RENEWALS in
           if tl_renewCount l \<ge> maxRenewals then throw (RenewalsExhausted i maxRenewals)
           else bind now (\<lambda>ts.
             let task1 = with_lease (Some (l\<lparr>tl_expiresAt := ts + or_else (lo_ttlMs opts) DEFAULT_TTL,
                                            tl_renewCount := tl_renewCount l + 1\<rparr>)) ts task
             in andThen (write_back task1) (ret task1)))))"

text \<open>The cleared lease is only in memory: the store's transition reads the task again.\<close>

definition releaseLease :: "string \<Rightarrow> string \<Rightarrow> task m" where
  "releaseLease i agentId = bind (get_task i) (\<lambda>t. case t of None \<Rightarrow> throw (TaskNotFound i) | Some task \<Rightarrow>
     (case held_lease i agentId task of
        Inl e \<Rightarrow> throw e
      | Inr l \<Rightarrow> transition_task i Ready no_opts))"

fun checkDependenciesSatisfied :: "string list \<Rightarrow> bool m" where
  "checkDependenciesSatisfied [] = ret True"
| "checkDependenciesSatisfied (d # ds) = bind (get_task d) (\<lambda>dep.
     case dep of
       None \<Rightarrow> ret False
     | Some t \<Rightarrow> if fm_status (t_fm t) \<noteq> Done then ret False else checkDependenciesSatisfied ds)"

definition lease_expired :: "task \<Rightarrow> int \<Rightarrow> bool" where
  "lease_expired t ts = (case fm_lease (t_fm t) of None \<Rightarrow> False | Some l \<Rightarrow> tl_expiresAt l \<le> ts)"

definition expire_one :: "task \<Rightarrow> unit m" where
  "expire_one task =
     (if fm_status (t_fm task) = Blocked then
        bind (if length (fm_dependsOn (t_fm task)) = 0 then ret True else checkDependenciesSatisfied (fm_dependsOn (t_fm task)))
          (\<lambda>ok.
             if ok then bind (transition_task (fm_id (t_fm task)) Ready (reason_opts ''lease_expired_requeue'')) (\<lambda>_. ret ())
             else write_back (task\<lparr>t_fm := (t_fm task)\<lparr>fm_lease := None\<rparr>\<rparr>))
      else bind (transition_task (fm_id (t_fm task)) Ready (reason_opts ''lease_expired'')) (\<lambda>_. ret ()))"

definition sweep_one :: "task \<Rightarrow> string list \<Rightarrow> string list m" where
  "sweep_one task expired = bind now (\<lambda>ts.
     if \<not> lease_expired task ts then ret expired
     else andThen (expire_one task) (ret (expired @ [fm_id (t_fm task)])))"

definition expireLeases :: "string list m" where
  "expireLeases = bind (list_tasks (status_filter InProgress)) (\<lambda>inProgress.
     bind (list_tasks (status_filter Blocked)) (\<lambda>blocked. fold_m sweep_one (inProgress @ blocked) []))"

subsection \<open>Renewal timers\<close>

definition LEASE_RENEWAL_MAX :: nat where "LEASE_RENEWAL_MAX = 20"

definition isLeaseActive :: "task_lease option \<Rightarrow> int \<Rightarrow> bool" where
  "isLeaseActive lease ts = (case lease of None \<Rightarrow> False | Some l \<Rightarrow> tl_expiresAt l > ts)"

definition leaseRenewalKey :: "string \<Rightarrow> string \<Rightarrow> string" where
  "leaseRenewalKey projectId i = projectId @ '':'' @ i"

definition stopLeaseRenewal :: "string \<Rightarrow> string \<Rightarrow> unit m" where
  "stopLeaseRenewal projectId i =
     modify (\<lambda>w. w\<lparr>w_renewals := filter (\<lambda>k. k \<noteq> leaseRenewalKey projectId i) (w_renewals w)\<rparr>)"

definition startLeaseRenewal :: "string \<Rightarrow> string \<Rightarrow> unit m" where
  "startLeaseRenewal projectId i =
     modify (\<lambda>w. if leaseRenewalKey projectId i \<in> set (w_renewals w) then w
                 else w\<lparr>w_renewals := w_renewals w @ [leaseRenewalKey projectId i]\<rparr>)"

definition renewal_tick :: "string \<Rightarrow> string \<Rightarrow> string \<Rightarrow> int \<Rightarrow> unit m" where
  "renewal_tick projectId i agentId leaseTtlMs =
     catch (bind (renewLease i agentId
                    (default_lease_opts\<lparr>lo_ttlMs := Some leaseTtlMs, lo_maxRenewals := Some LEASE_RENEWAL_MAX\<rparr>)) (\<lambda>_. ret ()))
       (\<lambda>_. stopLeaseRenewal projectId i)"

definition active_keys :: "string \<Rightarrow> task list \<Rightarrow> int \<Rightarrow> string list" where
  "active_keys projectId tasks ts =
     map (\<lambda>t. leaseRenewalKey projectId (fm_id (t_fm t)))
       (filter (\<lambda>t. fm_status (t_fm t) = InProgress \<and>
                    (case fm_lease (t_fm t) of None \<Rightarrow> False | Some l \<Rightarrow> tl_agent l \<noteq> []) \<and>
                    isLeaseActive (fm_lease (t_fm t)) ts) tasks)"

definition cleanupLeaseRenewals :: "string \<Rightarrow> task list \<Rightarrow> unit m" where
  "cleanupLeaseRenewals projectId tasks = bind (gets (\<lambda>w. (w_renewals w, w_now w))) (\<lambda>(keys, ts).
     fold_m (\<lambda>key u.
         if \<not> str_prefix (projectId @ '':'') key then ret u
         else if key \<in> set (active_keys projectId tasks ts) then ret u
         else stopLeaseRenewal projectId (drop (length (projectId @ '':'')) key))
       keys ())"

end
