(* ===== verification/Throttle.thy ===== *)
theory Throttle
  imports Lease
begin

section \<open>Dispatch throttling (dispatch/throttle.ts)\<close>

text \<open>
  The module state is \<open>w_lastDispatchAt\<close> and \<open>w_lastDispatchByTeam\<close> of the world; \<open>0\<close> means that
  nothing was dispatched yet, as in the code. An empty team name is falsy and counts as no team.
\<close>

record throttle_params =
  tp_taskId :: string
  tp_team :: "string option"
  tp_currentInProgress :: nat
  tp_pendingDispatches :: nat
  tp_maxDispatches :: nat
  tp_teamInProgress :: "nat option"
  tp_teamMaxConcurrent :: "nat option"
  tp_minDispatchIntervalMs :: "int option"
  tp_teamMinIntervalMs :: "int option"
  tp_dispatchesThisPoll :: nat
  tp_maxDispatchesPerPoll :: nat

record throttle_result =
  tc_allowed :: bool
  tc_reason :: "string option"
  tc_waitTimeMs :: "int option"

definition throttled :: "string \<Rightarrow> int option \<Rightarrow> throttle_result" where
  "throttled reason wait = \<lparr>tc_allowed = False, tc_reason = Some reason, tc_waitTimeMs = wait\<rparr>"

definition interval_reason :: "string \<Rightarrow> int \<Rightarrow> int \<Rightarrow> string" where
  "interval_reason who elapsed limit =
     who @ '' interval '' @ string_of_int elapsed @ ''ms < '' @ string_of_int limit @ ''ms, wait ''
       @ string_of_int (limit - elapsed) @ ''ms''"

text \<open>The five rules, in order; each gives the refusal it produces, if any.\<close>

definition global_concurrency :: "throttle_params \<Rightarrow> throttle_result option" where
  "global_concurrency p =
     (let used = tp_currentInProgress p + tp_pendingDispatches p in
      if used \<ge> tp_maxDispatches p
      then Some (throttled (''global concurrency '' @ string_of_nat used @ ''/'' @ string_of_nat (tp_maxDispatches p)) None)
      else None)"

definition team_concurrency :: "throttle_params \<Rightarrow> throttle_result option" where
  "team_concurrency p =
     (case (tp_team p, tp_teamInProgress p, tp_teamMaxConcurrent p) of
        (Some team, Some n, Some m) \<Rightarrow>
          if team \<noteq> [] \<and> n \<ge> m
          then Some (throttled (''team '' @ team @ '' concurrency '' @ string_of_nat n @ ''/'' @ string_of_nat m) None)
          else None
      | _ \<Rightarrow> None)"

definition global_interval :: "world \<Rightarrow> throttle_params \<Rightarrow> throttle_result option" where
  "global_interval w p =
     (case tp_minDispatchIntervalMs p of
        None \<Rightarrow> None
      | Some limit \<Rightarrow>
          (let elapsed = w_now w - w_lastDispatchAt w in
           if limit > 0 \<and> w_lastDispatchAt w > 0 \<and> elapsed < limit
           then Some (throttled (interval_reason ''global'' elapsed limit) (Some (limit - elapsed))) else None))"

definition team_interval :: "world \<Rightarrow> throttle_params \<Rightarrow> throttle_result option" where
  "team_interval w p =
     (case (tp_team p, tp_teamMinIntervalMs p) of
        (Some team, Some limit) \<Rightarrow>
          (let last = or_else (map_of (w_lastDispatchByTeam w) team) 0; elapsed = w_now w - last in
           if team \<noteq> [] \<and> limit > 0 \<and> last > 0 \<and> elapsed < limit
           then Some (throttled (interval_reason (''team '' @ team) elapsed limit) (Some (limit - elapsed))) else None)
      | _ \<Rightarrow> None)"

definition poll_limit :: "throttle_params \<Rightarrow> throttle_result option" where
  "poll_limit p =
     (if tp_dispatchesThisPoll p \<ge> tp_maxDispatchesPerPoll p
      then Some (throttled (''poll cycle limit '' @ string_of_nat (tp_dispatchesThisPoll p) @ ''/''
                              @ string_of_nat (tp_maxDispatchesPerPoll p)) None)
      else None)"

fun first_refusal :: "throttle_result option list \<Rightarrow> throttle_result" where
  "first_refusal [] = \<lparr>tc_allowed = True, tc_reason = None, tc_waitTimeMs = None\<rparr>"
| "first_refusal (None # rs) = first_refusal rs"
| "first_refusal (Some r # rs) = r"

definition checkThrottle :: "world \<Rightarrow> throttle_params \<Rightarrow> throttle_result" where
  "checkThrottle w p =
     first_refusal [global_concurrency p, team_concurrency p, global_interval w p, team_interval w p, poll_limit p]"

definition updateThrottleState :: "string option \<Rightarrow> unit m" where
  "updateThrottleState team = modify (\<lambda>w.
     let w1 = w\<lparr>w_lastDispatchAt := w_now w\<rparr> in
     case team of
       None \<Rightarrow> w1
     | Some t \<Rightarrow> if t = [] then w1
                 else w1\<lparr>w_lastDispatchByTeam := AList.update t (w_now w) (w_lastDispatchByTeam w1)\<rparr>)"

definition resetThrottleState :: "unit m" where
  "resetThrottleState = modify (\<lambda>w. w\<lparr>w_lastDispatchAt := 0, w_lastDispatchByTeam := []\<rparr>)"

definition getThrottleState :: "world \<Rightarrow> int \<times> int js_map" where
  "getThrottleState w = (w_lastDispatchAt w, w_lastDispatchByTeam w)"

lemma refusals [simp]:
  "tc_allowed (throttled r n) = False" "global_concurrency p = Some r1 \<Longrightarrow> \<not> tc_allowed r1"
  "team_concurrency p = Some r1 \<Longrightarrow> \<not> tc_allowed r1" "global_interval w p = Some r1 \<Longrightarrow> \<not> tc_allowed r1"
  "team_interval w p = Some r1 \<Longrightarrow> \<not> tc_allowed r1" "poll_limit p = Some r1 \<Longrightarrow> \<not> tc_allowed r1"
  by (auto simp: throttled_def global_concurrency_def team_concurrency_def global_interval_def team_interval_def
      poll_limit_def Let_def split: option.splits if_splits)

lemma checkThrottle_allowed:
  "tc_allowed (checkThrottle w p) \<longleftrightarrow>
     global_concurrency p = None \<and> team_concurrency p = None \<and> global_interval w p = None \<and>
     team_interval w p = None \<and> poll_limit p = None"
  by (cases "global_concurrency p"; cases "team_concurrency p"; cases "global_interval w p";
      cases "team_interval w p"; cases "poll_limit p") (simp_all add: checkThrottle_def)

lemma throttle_limits:
  assumes "tc_allowed (checkThrottle w p)"
  shows "tp_currentInProgress p + tp_pendingDispatches p < tp_maxDispatches p"
    "tp_dispatchesThisPoll p < tp_maxDispatchesPerPoll p"
    "tp_team p = Some t \<Longrightarrow> t \<noteq> [] \<Longrightarrow> tp_teamInProgress p = Some n \<Longrightarrow> tp_teamMaxConcurrent p = Some m \<Longrightarrow> n < m"
    "tp_minDispatchIntervalMs p = Some d \<Longrightarrow> 0 < d \<Longrightarrow> 0 < w_lastDispatchAt w \<Longrightarrow> w_lastDispatchAt w + d \<le> w_now w"
  using assms unfolding checkThrottle_allowed
  by (auto simp: global_concurrency_def team_concurrency_def global_interval_def poll_limit_def Let_def
      split: if_splits option.splits)

text \<open>
  Fact: spacing. After a dispatch for a team, any check for it before the team's interval has passed is
  refused, whatever the other parameters are, and so is any check before the global interval has
  passed.
\<close>

theorem throttle_spacing:
  assumes "0 < w_now w" "t \<noteq> []" "w_now w \<le> n" "tp_team p = Some t"
  shows "\<not> (tc_allowed (checkThrottle ((snd (updateThrottleState (Some t) w))\<lparr>w_now := n\<rparr>) p) \<and>
      (\<exists>d. tp_teamMinIntervalMs p = Some d \<and> 0 < d \<and> n < w_now w + d)) \<and>
    \<not> (tc_allowed (checkThrottle ((snd (updateThrottleState (Some t) w))\<lparr>w_now := n\<rparr>) p) \<and>
      (\<exists>d. tp_minDispatchIntervalMs p = Some d \<and> 0 < d \<and> n < w_now w + d))"
  using assms
  by (auto simp: checkThrottle_allowed updateThrottleState_def run_simps Let_def team_interval_def global_interval_def
      or_else_def)

definition sample_params :: throttle_params where
  "sample_params = \<lparr>tp_taskId = ''t'', tp_team = Some ''core'', tp_currentInProgress = 0, tp_pendingDispatches = 0,
     tp_maxDispatches = 3, tp_teamInProgress = Some 0, tp_teamMaxConcurrent = None, tp_minDispatchIntervalMs = None,
     tp_teamMinIntervalMs = Some 50, tp_dispatchesThisPoll = 0, tp_maxDispatchesPerPoll = 10\<rparr>"

theorem throttle_spacing_witness:
  "\<not> tc_allowed (checkThrottle ((snd (updateThrottleState (Some ''core'') (world_of [])))\<lparr>w_now := 120\<rparr>) sample_params)"
  using throttle_spacing [of "world_of []" "''core''" 120 sample_params] by (simp add: sample_params_def)

end
