(* ===== verification/SchedulerHelpers.thy ===== *)
theory SchedulerHelpers
  imports Throttle
begin

section \<open>Planning helpers of the scheduler\<close>

text \<open>
  dispatch/types.ts, duration-parser.ts, promotion.ts, scheduler-helpers.ts, sla-checker.ts and
  config/sla-defaults.ts: pure functions of the tasks and the clock that plan the actions of a poll.
  The rendering of a timestamp in a message (\<open>toISOString\<close>) is the parameter \<open>toIso\<close>, the number
  \<open>Math.random()\<close> draws is the parameter \<open>rnd\<close>. JavaScript numbers that are counts or
  milliseconds are \<open>nat\<close> and \<open>int\<close>; the backoff with jitter is calculated in \<open>rat\<close>.
\<close>

subsection \<open>Actions\<close>

datatype action_type =
    ExpireLease | Assign | Requeue | Block | DeadletterTask | Alert | StaleHeartbeat | SlaViolation | Promote
  | MurmurCreateTask

record scheduler_action =
  ac_type :: action_type
  ac_taskId :: string
  ac_taskTitle :: string
  ac_agent :: "string option"
  ac_reason :: string
  ac_fromStatus :: "task_status option"
  ac_toStatus :: "task_status option"
  ac_duration :: "int option"
  ac_limit :: "int option"
  ac_sourceTaskId :: "string option"
  ac_murmurCandidateId :: "string option"
  ac_blockers :: "string list option"

definition action_for :: "action_type \<Rightarrow> task \<Rightarrow> string \<Rightarrow> scheduler_action" where
  "action_for ty t reason =
     \<lparr>ac_type = ty, ac_taskId = fm_id (t_fm t), ac_taskTitle = fm_title (t_fm t), ac_agent = None, ac_reason = reason,
      ac_fromStatus = None, ac_toStatus = None, ac_duration = None, ac_limit = None, ac_sourceTaskId = None,
      ac_murmurCandidateId = None, ac_blockers = None\<rparr>"

definition tasks_in :: "task_status \<Rightarrow> task list \<Rightarrow> task list" where
  "tasks_in s ts = filter (\<lambda>t. fm_status (t_fm t) = s) ts"

definition find_task :: "task list \<Rightarrow> string \<Rightarrow> task option" where
  "find_task ts i = List.find (\<lambda>t. fm_id (t_fm t) = i) ts"

definition dep_done :: "task list \<Rightarrow> string \<Rightarrow> bool" where
  "dep_done ts d = (case find_task ts d of None \<Rightarrow> False | Some t \<Rightarrow> fm_status (t_fm t) = Done)"

subsection \<open>parseDuration\<close>

definition parseDuration :: "string \<Rightarrow> int option" where
  "parseDuration duration =
     (let digits = takeWhile is_digit duration; unit = dropWhile is_digit duration; value = int (digits_val digits)
      in if digits = [] \<or> unit \<notin> {''m'', ''h'', ''d''} then None
         else if value \<le> 0 then None
         else if unit = ''m'' then Some (value * 60 * 1000)
         else if unit = ''h'' then Some (value * 60 * 60 * 1000)
         else Some (value * 24 * 60 * 60 * 1000))"

subsection \<open>buildTaskStats, buildChildrenMap, occupancy\<close>

definition buildTaskStats :: "task list \<Rightarrow> nat \<times> (task_status \<times> nat) list" where
  "buildTaskStats ts = (length ts, map (\<lambda>s. (s, length (tasks_in s ts))) STATUS_DIRS)"

definition buildChildrenMap :: "task list \<Rightarrow> task list js_map" where
  "buildChildrenMap ts = foldl (\<lambda>m t.
     case fm_parentId (t_fm t) of
       None \<Rightarrow> m
     | Some p \<Rightarrow> if p = [] then m else AList.update p (or_else (map_of m p) [] @ [t]) m) [] ts"

definition children_of :: "task list js_map \<Rightarrow> string \<Rightarrow> task list" where
  "children_of m i = or_else (map_of m i) []"

definition buildResourceOccupancyMap :: "task list \<Rightarrow> string js_map" where
  "buildResourceOccupancyMap ts = foldl (\<lambda>m t.
     case fm_resource (t_fm t) of
       None \<Rightarrow> m
     | Some r \<Rightarrow> if r = [] then m else AList.update r (fm_id (t_fm t)) m) [] (tasks_in InProgress ts)"

subsection \<open>checkExpiredLeases\<close>

text \<open>\<open>Math.round(ms / 1000)\<close>\<close>

definition round_secs :: "int \<Rightarrow> int" where
  "round_secs ms = (ms + 500) div 1000"

definition expire_action :: "(int \<Rightarrow> string) \<Rightarrow> int \<Rightarrow> task \<Rightarrow> scheduler_action list" where
  "expire_action toIso ts t =
     (case fm_lease (t_fm t) of
        None \<Rightarrow> []
      | Some l \<Rightarrow>
          if tl_expiresAt l \<le> ts
          then [(action_for ExpireLease t
                   (''Lease expired at '' @ toIso (tl_expiresAt l) @ '' (held by '' @ tl_agent l @ '', expired ''
                      @ string_of_int (round_secs (ts - tl_expiresAt l)) @ ''s ago)''))
                \<lparr>ac_agent := Some (tl_agent l), ac_fromStatus := Some (fm_status (t_fm t))\<rparr>]
          else [])"

definition checkExpiredLeases :: "(int \<Rightarrow> string) \<Rightarrow> int \<Rightarrow> task list \<Rightarrow> scheduler_action list" where
  "checkExpiredLeases toIso ts tasks = concat (map (expire_action toIso ts) (tasks_in InProgress tasks @ tasks_in Blocked tasks))"

subsection \<open>Promotion\<close>

fun deps_problem :: "task list \<Rightarrow> string list \<Rightarrow> string option" where
  "deps_problem ts [] = None"
| "deps_problem ts (d # ds) =
     (case find_task ts d of
        None \<Rightarrow> Some (''Missing dependency: '' @ d)
      | Some t \<Rightarrow> if fm_status (t_fm t) \<noteq> Done then Some (''Waiting on dependency: '' @ d) else deps_problem ts ds)"

definition truthy_str :: "string option \<Rightarrow> bool" where
  "truthy_str s = (case s of None \<Rightarrow> False | Some x \<Rightarrow> x \<noteq> [])"

definition has_target :: "task_routing \<Rightarrow> bool" where
  "has_target r = (truthy_str (rt_agent r) \<or> truthy_str (rt_role r) \<or> truthy_str (rt_team r))"

definition checkPromotionEligibility :: "int \<Rightarrow> task \<Rightarrow> task list \<Rightarrow> task list js_map \<Rightarrow> bool \<times> string option" where
  "checkPromotionEligibility ts task allTasks childrenByParent =
     (case deps_problem allTasks (fm_dependsOn (t_fm task)) of
        Some r \<Rightarrow> (False, Some r)
      | None \<Rightarrow>
          (let incomplete = filter (\<lambda>st. fm_status (t_fm st) \<noteq> Done) (children_of childrenByParent (fm_id (t_fm task)))
           in if length incomplete > 0
              then (False, Some (''Waiting on '' @ string_of_nat (length incomplete) @ '' subtask(s)''))
              else if \<not> has_target (fm_routing (t_fm task))
              then (False, Some ''No routing target (needs agent/role/team)'')
              else if isLeaseActive (fm_lease (t_fm task)) ts then (False, Some ''Active lease (corrupted state?)'')
              else (True, None)))"

definition checkBacklogPromotion :: "int \<Rightarrow> task list \<Rightarrow> task list js_map \<Rightarrow> scheduler_action list" where
  "checkBacklogPromotion ts allTasks childrenByParent =
     map (\<lambda>t. (action_for Promote t ''Auto-promotion: all requirements met'')
                \<lparr>ac_fromStatus := Some Backlog, ac_toStatus := Some Ready\<rparr>)
       (filter (\<lambda>t. fst (checkPromotionEligibility ts t allTasks childrenByParent)) (tasks_in Backlog allTasks))"

subsection \<open>Spawn errors and retries\<close>

definition DEFAULT_MAX_DISPATCH_RETRIES :: nat where "DEFAULT_MAX_DISPATCH_RETRIES = 3"

definition PERMANENT_ERROR_PATTERNS :: "string list" where
  "PERMANENT_ERROR_PATTERNS =
     [''agent not found'', ''agent_not_found'', ''no such agent'', ''agent deregistered'', ''permission denied'',
      ''forbidden'', ''unauthorized'', ''no credentials found'', ''no api key found'', ''missing credentials'',
      ''missing api key'', ''invalid api key'']"

definition RATE_LIMIT_PATTERNS :: "string list" where
  "RATE_LIMIT_PATTERNS =
     [''rate limit'', ''rate_limit'', ''too many requests'', ''429'', ''throttled'', ''quota exceeded'']"

datatype error_class = Transient | Permanent | RateLimited

fun error_class_str :: "error_class \<Rightarrow> string" where
  "error_class_str Transient = ''transient''"
| "error_class_str Permanent = ''permanent''"
| "error_class_str RateLimited = ''rate_limited''"

definition classifySpawnError :: "string \<Rightarrow> error_class" where
  "classifySpawnError err =
     (let lower = to_lower err in
      if list_ex (\<lambda>p. str_includes p lower) PERMANENT_ERROR_PATTERNS then Permanent
      else if list_ex (\<lambda>p. str_includes p lower) RATE_LIMIT_PATTERNS then RateLimited
      else Transient)"

definition SILENT_FAILURE_DURATION_MS_THRESHOLD :: int where
  "SILENT_FAILURE_DURATION_MS_THRESHOLD = 60000"

record run_outcome =
  ro_sessionId :: string
  ro_success :: bool
  ro_aborted :: bool
  ro_error :: "(string \<times> string) option"
  ro_durationMs :: int

definition isLikelyModelSilentFailure :: "run_outcome \<Rightarrow> bool" where
  "isLikelyModelSilentFailure outcome =
     (if ro_error outcome \<noteq> None then False
      else if ro_aborted outcome then False
      else ro_durationMs outcome < SILENT_FAILURE_DURATION_MS_THRESHOLD)"

definition round_half_up :: "rat \<Rightarrow> int" where
  "round_half_up x = \<lfloor>x + 1 / 2\<rfloor>"

definition retry_delay :: "nat \<Rightarrow> int" where
  "retry_delay retryCount = min (60000 * 3 ^ retryCount) (15 * 60000)"

definition computeRetryBackoffMs :: "rat \<Rightarrow> nat \<Rightarrow> int" where
  "computeRetryBackoffMs rnd retryCount =
     (let delay = of_int (retry_delay retryCount) :: rat; jitter = delay * (1 / 4) * (rnd * 2 - 1)
      in max 0 (round_half_up (delay + jitter)))"

record requeue_guard =
  rg_allow :: bool
  rg_reason :: string
  rg_shouldDeadletter :: bool

definition num_str :: "rat \<Rightarrow> string" where
  "num_str r = string_of_int \<lfloor>r\<rfloor>"

definition retry_count :: "metadata \<Rightarrow> rat" where
  "retry_count meta = meta_num0 meta ''retryCount''"

definition shouldAllowSpawnFailedRequeue :: "rat \<Rightarrow> int \<Rightarrow> task \<Rightarrow> nat \<Rightarrow> requeue_guard" where
  "shouldAllowSpawnFailedRequeue rnd ts task maxRetries =
     (let meta = fm_metadata (t_fm task); n = retry_count meta in
      if meta_str meta ''errorClass'' = Some ''permanent''
      then \<lparr>rg_allow = False, rg_reason = ''Permanent error '' @ em_dash @ '' deadletter immediately'', rg_shouldDeadletter = True\<rparr>
      else if n \<ge> of_nat maxRetries
      then \<lparr>rg_allow = False, rg_reason = ''Max retries ('' @ string_of_nat maxRetries @ '') exceeded'', rg_shouldDeadletter = True\<rparr>
      else
        (let allow = \<lparr>rg_allow = True, rg_reason = ''Retry attempt '' @ num_str (n + 1) @ ''/'' @ string_of_nat maxRetries,
                      rg_shouldDeadletter = False\<rparr>
         in case meta_time meta ''lastBlockedAt'' of
              None \<Rightarrow> allow
            | Some blockedAt \<Rightarrow>
                (let blockedAge = ts - blockedAt; required = computeRetryBackoffMs rnd (nat \<lfloor>n\<rfloor>) in
                 if blockedAge < required
                 then \<lparr>rg_allow = False,
                       rg_reason = ''Backoff not elapsed ('' @ string_of_int (round_secs blockedAge) @ ''s / ''
                                     @ string_of_int (round_secs required) @ ''s)'',
                       rg_shouldDeadletter = False\<rparr>
                 else allow)))"

text \<open>\<open>blockReason?.includes("spawn_failed")\<close>\<close>

definition is_spawn_failed :: "task \<Rightarrow> bool" where
  "is_spawn_failed t =
     (case meta_str (fm_metadata (t_fm t)) ''blockReason'' of None \<Rightarrow> False | Some r \<Rightarrow> str_includes ''spawn_failed'' r)"

definition recover_blocked :: "rat \<Rightarrow> int \<Rightarrow> task list \<Rightarrow> task list js_map \<Rightarrow> nat \<Rightarrow> task \<Rightarrow> scheduler_action list" where
  "recover_blocked rnd ts allTasks childrenByParent maxRetries t =
     (let deps = fm_dependsOn (t_fm t); children = children_of childrenByParent (fm_id (t_fm t)) in
      if is_spawn_failed t then
        (let guard = shouldAllowSpawnFailedRequeue rnd ts t maxRetries in
         if rg_allow guard then [action_for Requeue t (rg_reason guard @ '' after dispatch failure'')]
         else if rg_shouldDeadletter guard
         then [action_for DeadletterTask t (rg_reason guard @ '' for dispatch failures '' @ em_dash @ '' deadletter'')]
         else [])
      else if \<not> (length deps > 0 \<or> length children > 0) then []
      else if list_all (dep_done allTasks) deps \<and> list_all (\<lambda>c. fm_status (t_fm c) = Done) children
      then [action_for Requeue t (''All dependencies resolved '' @ em_dash @ '' can be requeued'')]
      else [])"

definition checkBlockedTaskRecovery :: "rat \<Rightarrow> int \<Rightarrow> task list \<Rightarrow> task list js_map \<Rightarrow> nat \<Rightarrow> scheduler_action list" where
  "checkBlockedTaskRecovery rnd ts allTasks childrenByParent maxRetries =
     concat (map (recover_blocked rnd ts allTasks childrenByParent maxRetries) (tasks_in Blocked allTasks))"

subsection \<open>SLA\<close>

record project_sla =
  ps_defaultMaxInProgressMs :: "int option"
  ps_researchMaxInProgressMs :: "int option"

definition getSLALimit :: "frontmatter \<Rightarrow> project_sla \<Rightarrow> int" where
  "getSLALimit fm project =
     (case (case fm_sla fm of None \<Rightarrow> None | Some s \<Rightarrow> sl_maxInProgressMs s) of
        Some n \<Rightarrow> n
      | None \<Rightarrow>
          if rt_agent (fm_routing fm) = Some ''swe-researcher'' then or_else (ps_researchMaxInProgressMs project) 14400000
          else or_else (ps_defaultMaxInProgressMs project) 3600000)"

definition validateSLA :: "task_sla option \<Rightarrow> (string \<times> string) list" where
  "validateSLA sla =
     (case sla of
        None \<Rightarrow> []
      | Some s \<Rightarrow>
          (case sl_maxInProgressMs s of
             None \<Rightarrow> []
           | Some n \<Rightarrow>
               (if n < 60000 then [(''sla.maxInProgressMs'', ''Minimum 1 minute (60000ms)'')] else []) @
               (if n > 86400000 then [(''sla.maxInProgressMs'', ''Maximum 24 hours (86400000ms)'')] else [])) @
          (case sl_onViolation s of
             None \<Rightarrow> []
           | Some p \<Rightarrow>
               (if p \<noteq> PolicyAlert then [(''sla.onViolation'', ''Phase 1: only \"alert\" is supported'')] else [])))"

record sla_violation =
  sv_taskId :: string
  sv_title :: string
  sv_duration :: int
  sv_limit :: int
  sv_agent :: "string option"
  sv_timestamp :: int

definition checkViolations :: "int \<Rightarrow> task list \<Rightarrow> project_sla \<Rightarrow> sla_violation list" where
  "checkViolations ts tasks project =
     map (\<lambda>t. \<lparr>sv_taskId = fm_id (t_fm t), sv_title = fm_title (t_fm t), sv_duration = ts - fm_updatedAt (t_fm t),
               sv_limit = getSLALimit (t_fm t) project, sv_agent = rt_agent (fm_routing (t_fm t)), sv_timestamp = ts\<rparr>)
       (filter (\<lambda>t. fm_status (t_fm t) = InProgress \<and> ts - fm_updatedAt (t_fm t) > getSLALimit (t_fm t) project) tasks)"

definition alert_history :: "world \<Rightarrow> string \<Rightarrow> int list" where
  "alert_history w i = or_else (map_of (w_slaAlerts w) i) []"

definition recent_alerts :: "int \<Rightarrow> world \<Rightarrow> string \<Rightarrow> int list" where
  "recent_alerts rateLimitMinutes w i =
     filter (\<lambda>t. t > w_now w - rateLimitMinutes * 60 * 1000) (alert_history w i)"

definition shouldAlert :: "int \<Rightarrow> string \<Rightarrow> bool m" where
  "shouldAlert rateLimitMinutes i = bind (gets (\<lambda>w. recent_alerts rateLimitMinutes w i)) (\<lambda>recent.
     andThen (modify (\<lambda>w. w\<lparr>w_slaAlerts := AList.update i recent (w_slaAlerts w)\<rparr>)) (ret (length recent = 0)))"

definition recordAlert :: "string \<Rightarrow> unit m" where
  "recordAlert i = modify (\<lambda>w. w\<lparr>w_slaAlerts := AList.update i (alert_history w i @ [w_now w]) (w_slaAlerts w)\<rparr>)"

end
