(* ===== verification/TaskDispatcher.thy ===== *)
theory TaskDispatcher
  imports SchedulerHelpers
begin

section \<open>Planning dispatches (dispatch/task-dispatcher.ts)\<close>

text \<open>
  \<open>buildDispatchActions\<close> as a recursion over the ready tasks with the loop's variables
  (\<open>actions\<close>, \<open>pendingDispatches\<close>, \<open>dispatchesThisPoll\<close>, \<open>inProgressByTeam\<close>) as a record. The org chart
  the code loads from a file is the argument \<open>teams\<close> (\<open>None\<close> when loading failed). Shown: the plan
  never exceeds the concurrency limits, and every task it assigns was eligible.
\<close>

datatype murmur_kind = QueueEmpty | CompletionBatch | IntervalElapsed | FailureBatch

record murmur_trigger =
  mt_kind :: murmur_kind
  mt_threshold :: "nat option"
  mt_intervalMs :: "int option"

record murmur_config =
  mc_triggers :: "murmur_trigger list"
  mc_context :: "string list option"

record org_team =
  ot_id :: string
  ot_name :: string
  ot_dispatch :: "(nat option \<times> int option) option"
  ot_orchestrator :: "string option"
  ot_lead :: "string option"
  ot_murmur :: "murmur_config option"

record dispatch_config =
  dc_dryRun :: bool
  dc_maxConcurrentDispatches :: "nat option"
  dc_minDispatchIntervalMs :: "int option"
  dc_maxDispatchesPerPoll :: "nat option"

record dispatch_metrics =
  dm_currentInProgress :: nat
  dm_blockedBySubtasks :: "string list"
  dm_circularDeps :: "string list"
  dm_occupiedResources :: "string js_map"
  dm_inProgressTasks :: "task list"

definition maxDispatches :: "dispatch_config \<Rightarrow> nat" where
  "maxDispatches cfg = or_else (dc_maxConcurrentDispatches cfg) 3"

definition maxPerPoll :: "dispatch_config \<Rightarrow> nat" where
  "maxPerPoll cfg = or_else (dc_maxDispatchesPerPoll cfg) 10"

text \<open>\<open>teamConfigMap\<close>\<close>

definition team_config :: "org_team list option \<Rightarrow> (nat option \<times> int option) js_map" where
  "team_config teams =
     (case teams of
        None \<Rightarrow> []
      | Some ts \<Rightarrow> foldl (\<lambda>m t. case ot_dispatch t of None \<Rightarrow> m | Some d \<Rightarrow> AList.update (ot_id t) d m) [] ts)"

definition count_team :: "nat js_map \<Rightarrow> string \<Rightarrow> nat js_map" where
  "count_team m team = AList.update team (or_else (map_of m team) 0 + 1) m"

definition in_progress_by_team :: "task list \<Rightarrow> nat js_map" where
  "in_progress_by_team ts = foldl (\<lambda>m t.
     case rt_team (fm_routing (t_fm t)) of None \<Rightarrow> m | Some team \<Rightarrow> if team = [] then m else count_team m team) [] ts"

text \<open>\<open>??\<close> keeps an empty string, so an empty agent hides role and team.\<close>

definition nullish :: "string option \<Rightarrow> string option \<Rightarrow> string option" where
  "nullish a b = (case a of None \<Rightarrow> b | Some x \<Rightarrow> Some x)"

definition target_agent :: "org_team list option \<Rightarrow> task_routing \<Rightarrow> string option" where
  "target_agent teams r =
     (let target = nullish (rt_agent r) (nullish (rt_role r) (rt_team r)) in
      if \<not> truthy_str target then target
      else
        (case teams of
           None \<Rightarrow> target
         | Some ts \<Rightarrow>
             (case List.find (\<lambda>t. Some (ot_id t) = target) ts of
                None \<Rightarrow> target
              | Some team \<Rightarrow>
                  (let resolved = nullish (ot_orchestrator team) (ot_lead team)
                   in if truthy_str resolved then resolved else target))))"

record plan_state =
  pl_actions :: "scheduler_action list"
  pl_pending :: nat
  pl_thisPoll :: nat
  pl_byTeam :: "nat js_map"

definition throttle_for ::
  "world \<Rightarrow> dispatch_config \<Rightarrow> dispatch_metrics \<Rightarrow> org_team list option \<Rightarrow> plan_state \<Rightarrow> task \<Rightarrow> throttle_result" where
  "throttle_for w cfg dm teams pl t =
     (let team = rt_team (fm_routing (t_fm t));
          teamConfig = (if truthy_str team then map_of (team_config teams) (the team) else None);
          minInterval = or_else (dc_minDispatchIntervalMs cfg) 0
      in checkThrottle w
           \<lparr>tp_taskId = fm_id (t_fm t), tp_team = team, tp_currentInProgress = dm_currentInProgress dm,
            tp_pendingDispatches = pl_pending pl, tp_maxDispatches = maxDispatches cfg,
            tp_teamInProgress = (if truthy_str team then Some (or_else (map_of (pl_byTeam pl) (the team)) 0) else None),
            tp_teamMaxConcurrent = (case teamConfig of None \<Rightarrow> None | Some c \<Rightarrow> fst c),
            tp_minDispatchIntervalMs = (if minInterval > 0 then Some minInterval else None),
            tp_teamMinIntervalMs = (case teamConfig of None \<Rightarrow> None | Some c \<Rightarrow> snd c),
            tp_dispatchesThisPoll = pl_thisPoll pl, tp_maxDispatchesPerPoll = maxPerPoll cfg\<rparr>)"

definition add_action :: "scheduler_action \<Rightarrow> plan_state \<Rightarrow> plan_state" where
  "add_action a pl = pl\<lparr>pl_actions := pl_actions pl @ [a]\<rparr>"

text \<open>The end of the loop body: assign to the target or raise an alert.\<close>

definition assign_or_alert ::
  "dispatch_config \<Rightarrow> org_team list option \<Rightarrow> task \<Rightarrow> plan_state \<Rightarrow> plan_state" where
  "assign_or_alert cfg teams t pl =
     (let r = fm_routing (t_fm t); target = target_agent teams r in
      if truthy_str target then
        (let pl1 = add_action ((action_for Assign t (''Pending task with routing target: '' @ the target))
                                 \<lparr>ac_agent := target\<rparr>) pl;
             pl2 = pl1\<lparr>pl_pending := pl_pending pl1 + 1, pl_thisPoll := pl_thisPoll pl1 + 1\<rparr>
         in if truthy_str (rt_team r) \<and> \<not> dc_dryRun cfg
            then pl2\<lparr>pl_byTeam := count_team (pl_byTeam pl2) (the (rt_team r))\<rparr> else pl2)
      else if length (rt_tags r) > 0 then
        add_action (action_for Alert t (''Task has tags ('' @ join_with '', '' (rt_tags r)
                      @ '') but no routing target '' @ em_dash @ '' needs explicit agent/role/team assignment'')) pl
      else add_action (action_for Alert t (''Pending task with no routing target '' @ em_dash @ '' needs manual assignment'')) pl)"

text \<open>The checks before the throttle that skip a task without an action.\<close>

definition skip_ready :: "world \<Rightarrow> task list \<Rightarrow> dispatch_metrics \<Rightarrow> task \<Rightarrow> bool" where
  "skip_ready w allTasks dm t =
     (\<not> list_all (dep_done allTasks) (fm_dependsOn (t_fm t)) \<or>
      isLeaseActive (fm_lease (t_fm t)) (w_now w) \<or>
      (case fm_resource (t_fm t) of
         None \<Rightarrow> False | Some r \<Rightarrow> r \<noteq> [] \<and> map_of (dm_occupiedResources dm) r \<noteq> None))"

fun plan_ready ::
  "world \<Rightarrow> task list \<Rightarrow> dispatch_config \<Rightarrow> dispatch_metrics \<Rightarrow> org_team list option \<Rightarrow> task list \<Rightarrow> plan_state \<Rightarrow> plan_state" where
  "plan_ready w allTasks cfg dm teams [] pl = pl"
| "plan_ready w allTasks cfg dm teams (t # rest) pl =
     (if fm_id (t_fm t) \<in> set (dm_blockedBySubtasks dm) then plan_ready w allTasks cfg dm teams rest pl
      else if fm_id (t_fm t) \<in> set (dm_circularDeps dm)
      then plan_ready w allTasks cfg dm teams rest
             (add_action ((action_for Block t ''Circular dependency detected'')\<lparr>ac_fromStatus := Some (fm_status (t_fm t))\<rparr>) pl)
      else if skip_ready w allTasks dm t then plan_ready w allTasks cfg dm teams rest pl
      else
        (let check = throttle_for w cfg dm teams pl t in
         if \<not> tc_allowed check then
           (if (case tc_reason check of None \<Rightarrow> False | Some r \<Rightarrow> str_includes ''global interval'' r) then pl
            else plan_ready w allTasks cfg dm teams rest pl)
         else plan_ready w allTasks cfg dm teams rest (assign_or_alert cfg teams t pl)))"

definition parent_blocks :: "dispatch_metrics \<Rightarrow> task list \<Rightarrow> scheduler_action list" where
  "parent_blocks dm allTasks =
     map (\<lambda>t. (action_for Block t ''Parent task has incomplete subtasks'')\<lparr>ac_fromStatus := Some (fm_status (t_fm t))\<rparr>)
       (filter (\<lambda>t. fm_id (t_fm t) \<in> set (dm_blockedBySubtasks dm) \<and> fm_status (t_fm t) \<noteq> Blocked \<and> fm_status (t_fm t) \<noteq> Done)
          allTasks)"

definition start_plan :: "dispatch_metrics \<Rightarrow> plan_state" where
  "start_plan dm = \<lparr>pl_actions = [], pl_pending = 0, pl_thisPoll = 0, pl_byTeam = in_progress_by_team (dm_inProgressTasks dm)\<rparr>"

definition buildDispatchActions ::
  "world \<Rightarrow> task list \<Rightarrow> task list \<Rightarrow> dispatch_config \<Rightarrow> dispatch_metrics \<Rightarrow> org_team list option \<Rightarrow> scheduler_action list" where
  "buildDispatchActions w readyTasks allTasks cfg dm teams =
     pl_actions (plan_ready w allTasks cfg dm teams readyTasks (start_plan dm)) @ parent_blocks dm allTasks"

subsection \<open>Limits\<close>

definition assigns :: "scheduler_action list \<Rightarrow> scheduler_action list" where
  "assigns as = filter (\<lambda>a. ac_type a = Assign) as"

lemma assigns_append [simp]: "assigns (as @ bs) = assigns as @ assigns bs"
  by (simp add: assigns_def)

lemma action_for_simps [simp]:
  "ac_type (action_for ty t r) = ty" "ac_taskId (action_for ty t r) = fm_id (t_fm t)" "ac_agent (action_for ty t r) = None"
  by (simp_all add: action_for_def)

lemma add_action_simps [simp]:
  "pl_actions (add_action a pl) = pl_actions pl @ [a]" "pl_pending (add_action a pl) = pl_pending pl"
  "pl_thisPoll (add_action a pl) = pl_thisPoll pl" "pl_byTeam (add_action a pl) = pl_byTeam pl"
  by (simp_all add: add_action_def)

text \<open>The counters count the assignments planned so far.\<close>

definition plan_ok :: "dispatch_config \<Rightarrow> dispatch_metrics \<Rightarrow> plan_state \<Rightarrow> bool" where
  "plan_ok cfg dm pl \<longleftrightarrow>
     pl_pending pl = length (assigns (pl_actions pl)) \<and> pl_thisPoll pl = length (assigns (pl_actions pl)) \<and>
     dm_currentInProgress dm + pl_pending pl \<le> max (dm_currentInProgress dm) (maxDispatches cfg) \<and>
     pl_thisPoll pl \<le> maxPerPoll cfg"

lemma throttle_for_limits:
  assumes "tc_allowed (throttle_for w cfg dm teams pl t)"
  shows "dm_currentInProgress dm + pl_pending pl < maxDispatches cfg" "pl_thisPoll pl < maxPerPoll cfg"
  using throttle_limits(1,2) [OF assms [unfolded throttle_for_def Let_def]] by simp_all

lemma assign_or_alert_ok:
  assumes "plan_ok cfg dm pl" "tc_allowed (throttle_for w cfg dm teams pl t)"
  shows "plan_ok cfg dm (assign_or_alert cfg teams t pl)"
  using assms(1) throttle_for_limits [OF assms(2)]
  by (auto simp: assign_or_alert_def plan_ok_def Let_def assigns_def)

text \<open>The rule for the loop: what every step of the body keeps holds at the end.\<close>

definition circular_block :: "task \<Rightarrow> scheduler_action" where
  "circular_block t = (action_for Block t ''Circular dependency detected'')\<lparr>ac_fromStatus := Some (fm_status (t_fm t))\<rparr>"

lemma circular_block_type [simp]: "ac_type (circular_block t) = Block"
  by (simp add: circular_block_def)

lemma plan_ready_rule:
  assumes "P pl" "\<And>pl t. P pl \<Longrightarrow> P (add_action (circular_block t) pl)"
    and "\<And>pl t. P pl \<Longrightarrow> t \<in> set ts \<Longrightarrow> fm_id (t_fm t) \<notin> set (dm_blockedBySubtasks dm) \<Longrightarrow>
      fm_id (t_fm t) \<notin> set (dm_circularDeps dm) \<Longrightarrow> \<not> skip_ready w allTasks dm t \<Longrightarrow>
      tc_allowed (throttle_for w cfg dm teams pl t) \<Longrightarrow> P (assign_or_alert cfg teams t pl)"
  shows "P (plan_ready w allTasks cfg dm teams ts pl)"
  using assms(1,3)
proof (induction ts arbitrary: pl)
  case (Cons t rest)
  have rest: "P pl' \<Longrightarrow> P (plan_ready w allTasks cfg dm teams rest pl')" for pl'
    using Cons.prems(2) by (intro Cons.IH) simp_all
  show ?case
    using Cons.prems(1) rest assms(2) [of pl t] Cons.prems(2) [of pl t] by (simp add: Let_def circular_block_def)
qed simp

lemma plan_ready_ok:
  "plan_ok cfg dm pl \<Longrightarrow> plan_ok cfg dm (plan_ready w allTasks cfg dm teams ts pl)"
  by (rule plan_ready_rule) (simp_all add: assign_or_alert_ok, simp add: plan_ok_def assigns_def)

text \<open>
  Fact: concurrency limits. One poll plans at most \<open>maxDispatchesPerPoll\<close> assignments, and together
  with the tasks in progress they stay within \<open>maxConcurrentDispatches\<close> (or, if that is exceeded
  already, none is planned).
\<close>

theorem dispatch_limits:
  "length (assigns (buildDispatchActions w readyTasks allTasks cfg dm teams)) \<le> maxPerPoll cfg \<and>
   dm_currentInProgress dm + length (assigns (buildDispatchActions w readyTasks allTasks cfg dm teams))
     \<le> max (dm_currentInProgress dm) (maxDispatches cfg)"
proof -
  have "plan_ok cfg dm (start_plan dm)" by (simp add: plan_ok_def start_plan_def assigns_def)
  from plan_ready_ok [OF this] have ok: "plan_ok cfg dm (plan_ready w allTasks cfg dm teams readyTasks (start_plan dm))" .
  have "assigns (parent_blocks dm allTasks) = []"
    by (auto simp: assigns_def parent_blocks_def filter_empty_conv)
  then show ?thesis using ok by (simp add: buildDispatchActions_def plan_ok_def)
qed

subsection \<open>Eligibility\<close>

definition eligible :: "world \<Rightarrow> task list \<Rightarrow> dispatch_metrics \<Rightarrow> org_team list option \<Rightarrow> task \<Rightarrow> bool" where
  "eligible w allTasks dm teams t \<longleftrightarrow>
     fm_id (t_fm t) \<notin> set (dm_blockedBySubtasks dm) \<and> fm_id (t_fm t) \<notin> set (dm_circularDeps dm) \<and>
     list_all (dep_done allTasks) (fm_dependsOn (t_fm t)) \<and> \<not> isLeaseActive (fm_lease (t_fm t)) (w_now w) \<and>
     (\<forall>r. fm_resource (t_fm t) = Some r \<longrightarrow> r \<noteq> [] \<longrightarrow> map_of (dm_occupiedResources dm) r = None) \<and>
     truthy_str (target_agent teams (fm_routing (t_fm t)))"

definition justified :: "world \<Rightarrow> task list \<Rightarrow> dispatch_metrics \<Rightarrow> org_team list option \<Rightarrow> task list \<Rightarrow> scheduler_action \<Rightarrow> bool" where
  "justified w allTasks dm teams ts a \<longleftrightarrow>
     (\<exists>t \<in> set ts. ac_taskId a = fm_id (t_fm t) \<and> eligible w allTasks dm teams t \<and>
        ac_agent a = target_agent teams (fm_routing (t_fm t)))"

lemma assign_or_alert_justified:
  assumes "fm_id (t_fm t) \<notin> set (dm_blockedBySubtasks dm)" "fm_id (t_fm t) \<notin> set (dm_circularDeps dm)"
    "\<not> skip_ready w allTasks dm t" "t \<in> set ts" "\<forall>a \<in> set (assigns (pl_actions pl)). justified w allTasks dm teams ts a"
  shows "\<forall>a \<in> set (assigns (pl_actions (assign_or_alert cfg teams t pl))). justified w allTasks dm teams ts a"
proof -
  have "eligible w allTasks dm teams t" if "truthy_str (target_agent teams (fm_routing (t_fm t)))"
    using assms(1-3) that by (auto simp: eligible_def skip_ready_def)
  then show ?thesis using assms(4,5)
    by (auto simp: assign_or_alert_def Let_def assigns_def justified_def)
qed

lemma plan_ready_justified:
  "\<forall>a \<in> set (assigns (pl_actions pl)). justified w allTasks dm teams us a \<Longrightarrow> set ts \<subseteq> set us \<Longrightarrow>
    \<forall>a \<in> set (assigns (pl_actions (plan_ready w allTasks cfg dm teams ts pl))). justified w allTasks dm teams us a"
proof (rule plan_ready_rule, assumption)
  fix pl :: plan_state and t
  assume pl: "\<forall>a\<in>set (assigns (pl_actions pl)). justified w allTasks dm teams us a"
  show "\<forall>a\<in>set (assigns (pl_actions (add_action (circular_block t) pl))). justified w allTasks dm teams us a"
    using pl by (simp add: assigns_def)
  assume t: "set ts \<subseteq> set us" "t \<in> set ts" "fm_id (t_fm t) \<notin> set (dm_blockedBySubtasks dm)"
    "fm_id (t_fm t) \<notin> set (dm_circularDeps dm)" "\<not> skip_ready w allTasks dm t"
  show "\<forall>a\<in>set (assigns (pl_actions (assign_or_alert cfg teams t pl))). justified w allTasks dm teams us a"
    using assign_or_alert_justified [OF t(3-5) subsetD [OF t(1,2)] pl] .
qed

text \<open>
  Fact: eligibility. Every assignment the poll plans is for one of the ready tasks, to its resolved
  target, and that task has all dependencies done, no unfinished subtask, no circular
  dependency, no unexpired lease and a resource that is free at the start of the poll.
\<close>

theorem dispatch_eligible:
  assumes "a \<in> set (buildDispatchActions w readyTasks allTasks cfg dm teams)" "ac_type a = Assign"
  shows "\<exists>t \<in> set readyTasks. ac_taskId a = fm_id (t_fm t) \<and> eligible w allTasks dm teams t \<and>
    ac_agent a = target_agent teams (fm_routing (t_fm t))"
proof -
  have "\<forall>a \<in> set (assigns (pl_actions (plan_ready w allTasks cfg dm teams readyTasks (start_plan dm)))).
      justified w allTasks dm teams readyTasks a"
    by (rule plan_ready_justified) (simp_all add: start_plan_def assigns_def)
  moreover have "a \<in> set (assigns (pl_actions (plan_ready w allTasks cfg dm teams readyTasks (start_plan dm))))"
    using assms by (auto simp: buildDispatchActions_def assigns_def parent_blocks_def)
  ultimately show ?thesis by (simp add: justified_def)
qed

subsection \<open>Examples\<close>

definition sample_task :: "string \<Rightarrow> task_status \<Rightarrow> task" where
  "sample_task i s = \<lparr>t_fm = sample_fm i s, t_body = [], t_path = None\<rparr>"

definition sample_config :: dispatch_config where
  "sample_config = \<lparr>dc_dryRun = False, dc_maxConcurrentDispatches = None, dc_minDispatchIntervalMs = None,
     dc_maxDispatchesPerPoll = None\<rparr>"

definition idle_metrics :: dispatch_metrics where
  "idle_metrics = \<lparr>dm_currentInProgress = 0, dm_blockedBySubtasks = [], dm_circularDeps = [], dm_occupiedResources = [],
     dm_inProgressTasks = []\<rparr>"

lemmas sample_plan =
  buildDispatchActions_def sample_config_def idle_metrics_def start_plan_def parent_blocks_def throttle_for_def
  skip_ready_def assign_or_alert_def target_agent_def nullish_def truthy_str_def add_action_def action_for_def
  in_progress_by_team_def checkThrottle_def global_concurrency_def team_concurrency_def global_interval_def
  team_interval_def poll_limit_def maxDispatches_def maxPerPoll_def or_else_def world_of_def sample_task_def
  sample_fm_def sample_routing_def isLeaseActive_def

lemma sample_assigned:
  "buildDispatchActions (world_of []) [sample_task ''t1'' Ready] [] sample_config idle_metrics None =
     [\<lparr>ac_type = Assign, ac_taskId = ''t1'', ac_taskTitle = ''sample'', ac_agent = Some ''dev'',
       ac_reason = ''Pending task with routing target: dev'', ac_fromStatus = None, ac_toStatus = None,
       ac_duration = None, ac_limit = None, ac_sourceTaskId = None, ac_murmurCandidateId = None, ac_blockers = None\<rparr>]"
  by (simp add: sample_plan)

theorem dispatch_eligible_witness:
  "eligible (world_of []) [] idle_metrics None (sample_task ''t1'' Ready)"
  using dispatch_eligible
    [of "hd (buildDispatchActions (world_of []) [sample_task ''t1'' Ready] [] sample_config idle_metrics None)"
      "world_of []" "[sample_task ''t1'' Ready]" "[]" sample_config idle_metrics None]
  by (simp add: sample_assigned)

definition on_resource :: "string \<Rightarrow> task \<Rightarrow> task" where
  "on_resource r t = t\<lparr>t_fm := (t_fm t)\<lparr>fm_resource := Some r\<rparr>\<rparr>"

text \<open>
  Fact: resource serialization does not hold inside one poll. Two ready tasks that need the same free
  resource are both assigned: the occupancy map is computed before the loop and not updated by it.
\<close>

theorem resource_booked_twice:
  "map ac_taskId (assigns (buildDispatchActions (world_of [])
      [on_resource ''db'' (sample_task ''t1'' Ready), on_resource ''db'' (sample_task ''t2'' Ready)] []
      sample_config idle_metrics None)) = [''t1'', ''t2'']"
  by (simp add: sample_plan on_resource_def assigns_def, simp add: Let_def)

end
