(* ===== verification/SchedulerHelperProps.thy ===== *)
theory SchedulerHelperProps
  imports SchedulerHelpers
begin

section \<open>What the planning helpers guarantee\<close>

text \<open>
  The durations \<open>parseDuration\<close> accepts against those the workflow validation accepts; the bounds of
  the retry backoff and the decisions of the retry guard; the exact condition of a promotion, with
  the children map resolved to parent references; and the rate limit of SLA alerts.
\<close>

subsection \<open>Durations\<close>

definition unit_ms :: "char \<Rightarrow> int" where
  "unit_ms c = (if c = CHR ''m'' then 60000 else if c = CHR ''h'' then 3600000 else 86400000)"

lemma unit_not_digit [simp]:
  "\<not> is_digit (CHR ''m'')" "\<not> is_digit (CHR ''h'')" "\<not> is_digit (CHR ''d'')"
  by (simp_all add: is_digit_def)

lemma split_duration:
  assumes "list_all is_digit ds" "\<not> is_digit c"
  shows "takeWhile is_digit (ds @ [c]) = ds" "dropWhile is_digit (ds @ [c]) = [c]"
  using assms by (simp_all add: list_all_iff takeWhile_append2 dropWhile_append2)

lemma parse_duration_snoc:
  assumes "list_all is_digit ds" "ds \<noteq> []" "c \<in> {CHR ''m'', CHR ''h'', CHR ''d''}"
  shows "parseDuration (ds @ [c]) = (if digits_val ds = 0 then None else Some (int (digits_val ds) * unit_ms c))"
proof -
  have "\<not> is_digit c" using assms(3) by auto
  then show ?thesis
    using assms(2,3) by (auto simp: parseDuration_def split_duration [OF assms(1)] unit_ms_def Let_def)
qed

text \<open>
  Fact: durations. \<open>parseDuration\<close> understands exactly the timeouts the workflow validation accepts whose
  number is not zero, and returns them in milliseconds. A timeout of \<open>0m\<close> passes the validation and
  is then ignored.
\<close>

theorem parseDuration_exact:
  "parseDuration t =
     (if timeout_regex t \<and> digits_val (butlast t) \<noteq> 0
      then Some (int (digits_val (butlast t)) * unit_ms (last t)) else None)"
proof (cases "timeout_regex t")
  case True
  then have "2 \<le> length t" by (simp add: timeout_regex_def)
  then have t: "t = butlast t @ [last t]" "butlast t \<noteq> []"
    by (cases t rule: rev_cases; auto)+
  have "parseDuration (butlast t @ [last t]) =
      (if digits_val (butlast t) = 0 then None else Some (int (digits_val (butlast t)) * unit_ms (last t)))"
    by (rule parse_duration_snoc) (use True t(2) in \<open>simp_all add: timeout_regex_def\<close>)
  then show ?thesis using True t(1) by simp
next
  case False
  have "parseDuration t = None"
  proof (rule ccontr)
    assume "parseDuration t \<noteq> None"
    then have p: "takeWhile is_digit t \<noteq> []" "dropWhile is_digit t \<in> {''m'', ''h'', ''d''}"
      by (auto simp: parseDuration_def Let_def split: if_splits)
    then obtain c where c: "dropWhile is_digit t = [c]" "c \<in> {CHR ''m'', CHR ''h'', CHR ''d''}" by auto
    then have "t = takeWhile is_digit t @ [c]" by (metis takeWhile_dropWhile_id)
    moreover have "list_all is_digit (takeWhile is_digit t)" by (auto simp: list_all_iff dest: set_takeWhileD)
    ultimately have "timeout_regex (takeWhile is_digit t @ [c])" using c(2) p(1)
      by (cases "takeWhile is_digit t") (auto simp: timeout_regex_def)
    with False \<open>t = takeWhile is_digit t @ [c]\<close> show False by simp
  qed
  with False show ?thesis by simp
qed

subsection \<open>Backoff and retries\<close>

lemma retry_delay_bounds: "60000 \<le> retry_delay k" "retry_delay k \<le> 900000" "retry_delay k mod 4 = 0"
proof -
  have "(1 :: int) \<le> 3 ^ k" by simp
  then show "60000 \<le> retry_delay k" unfolding retry_delay_def by linarith
  show "retry_delay k \<le> 900000" by (simp add: retry_delay_def)
  show "retry_delay k mod 4 = 0" by (simp add: retry_delay_def min_def mod_mult_eq [symmetric])
qed

lemma backoff_bounds:
  assumes "0 \<le> rnd" "rnd \<le> 1"
  shows "3 * retry_delay k \<le> 4 * computeRetryBackoffMs rnd k" "4 * computeRetryBackoffMs rnd k \<le> 5 * retry_delay k"
proof -
  obtain q where q: "retry_delay k = 4 * q" using retry_delay_bounds(3) [of k] by (metis mod_0_imp_dvd dvd_def)
  have q0: "0 \<le> q" using retry_delay_bounds(1) [of k] q by simp
  define x :: rat where "x = of_int (4 * q) + of_int (4 * q) * (1 / 4) * (rnd * 2 - 1)"
  have x: "x = of_int (3 * q) + of_int (2 * q) * rnd" by (simp add: x_def algebra_simps)
  have "0 \<le> of_int (2 * q) * rnd" "of_int (2 * q) * rnd \<le> of_int (2 * q)"
    using q0 assms by (auto intro: mult_left_le)
  then have "of_int (3 * q) \<le> x" "x \<le> of_int (5 * q)" by (simp_all add: x)
  then have "3 * q \<le> round_half_up x" "round_half_up x \<le> 5 * q"
    unfolding round_half_up_def by (linarith, linarith)
  moreover have "computeRetryBackoffMs rnd k = max 0 (round_half_up x)"
    by (simp add: computeRetryBackoffMs_def q x_def Let_def)
  ultimately show "3 * retry_delay k \<le> 4 * computeRetryBackoffMs rnd k"
    "4 * computeRetryBackoffMs rnd k \<le> 5 * retry_delay k" using q0 q by (simp_all add: max_def)
qed

text \<open>
  Fact: retries. Of a task blocked by failed dispatches, the guard asks for the deadletter exactly
  when the error is permanent or the retries are used up. Otherwise it grants a retry never earlier
  than three quarters of the delay \<open>min (1 min * 3^n) 15 min\<close> after the block and always after five
  quarters of it, whatever the jitter draws.
\<close>

theorem retry_guard:
  assumes "0 \<le> rnd" "rnd \<le> 1" "meta_time (fm_metadata (t_fm t)) ''lastBlockedAt'' = Some b"
    and "n = retry_count (fm_metadata (t_fm t))" "g = shouldAllowSpawnFailedRequeue rnd ts t maxRetries"
  shows "(rg_shouldDeadletter g \<longleftrightarrow>
      meta_str (fm_metadata (t_fm t)) ''errorClass'' = Some ''permanent'' \<or> of_nat maxRetries \<le> n) \<and>
    \<not> (rg_allow g \<and> rg_shouldDeadletter g) \<and>
    \<not> (rg_allow g \<and> 4 * (ts - b) < 3 * retry_delay (nat \<lfloor>n\<rfloor>)) \<and>
    (5 * retry_delay (nat \<lfloor>n\<rfloor>) \<le> 4 * (ts - b) \<longrightarrow> rg_allow g \<or> rg_shouldDeadletter g)"
  using backoff_bounds [OF assms(1,2), of "nat \<lfloor>n\<rfloor>"] assms(3)
  unfolding assms(5) shouldAllowSpawnFailedRequeue_def Let_def assms(4) [symmetric]
  by simp

definition failed_once :: task where
  "failed_once = \<lparr>t_fm = (sample_fm ''t1'' Blocked)\<lparr>fm_metadata := [''lastBlockedAt'' \<mapsto> JTime 1000, ''retryCount'' \<mapsto> JNum 1]\<rparr>,
     t_body = [], t_path = None\<rparr>"

lemma failed_once_simps [simp]:
  "meta_time (fm_metadata (t_fm failed_once)) ''lastBlockedAt'' = Some 1000"
  "meta_str (fm_metadata (t_fm failed_once)) ''errorClass'' = None" "retry_count (fm_metadata (t_fm failed_once)) = 1"
  by (simp_all add: failed_once_def retry_count_def meta_num0_def meta_num_def meta_str_def meta_time_def)

theorem retry_guard_witness: "rg_allow (shouldAllowSpawnFailedRequeue (1 / 2) 300000 failed_once 3)"
  using retry_guard [of "1 / 2" failed_once 1000 1 "shouldAllowSpawnFailedRequeue (1 / 2) 300000 failed_once 3" 300000 3]
  by (auto simp: retry_delay_def)

subsection \<open>Promotion\<close>

definition has_parent :: "string \<Rightarrow> task \<Rightarrow> bool" where
  "has_parent i t \<longleftrightarrow> i \<noteq> [] \<and> fm_parentId (t_fm t) = Some i"

lemma children_of_build: "children_of (buildChildrenMap ts) i = filter (has_parent i) ts"
proof (induction ts rule: rev_induct)
  case Nil
  then show ?case by (simp add: buildChildrenMap_def children_of_def or_else_def)
next
  case (snoc t ts)
  show ?case
  proof (cases "fm_parentId (t_fm t)")
    case (Some p)
    then show ?thesis using snoc
      by (auto simp: buildChildrenMap_def children_of_def or_else_def has_parent_def update_conv')
  qed (use snoc in \<open>simp add: buildChildrenMap_def has_parent_def\<close>)
qed

lemma deps_problem_None: "deps_problem ts ds = None \<longleftrightarrow> list_all (dep_done ts) ds"
  by (induction ds) (auto simp: dep_done_def split: option.split)

definition promotable :: "int \<Rightarrow> task list \<Rightarrow> task \<Rightarrow> bool" where
  "promotable ts ws t \<longleftrightarrow> fm_status (t_fm t) = Backlog \<and> list_all (dep_done ws) (fm_dependsOn (t_fm t)) \<and>
     (\<forall>c \<in> set ws. has_parent (fm_id (t_fm t)) c \<longrightarrow> fm_status (t_fm c) = Done) \<and>
     has_target (fm_routing (t_fm t)) \<and> \<not> isLeaseActive (fm_lease (t_fm t)) ts"

lemma eligibility_exact:
  "fst (checkPromotionEligibility ts t ws (buildChildrenMap ws)) \<longleftrightarrow>
     list_all (dep_done ws) (fm_dependsOn (t_fm t)) \<and>
     (\<forall>c \<in> set ws. has_parent (fm_id (t_fm t)) c \<longrightarrow> fm_status (t_fm c) = Done) \<and>
     has_target (fm_routing (t_fm t)) \<and> \<not> isLeaseActive (fm_lease (t_fm t)) ts"
  unfolding checkPromotionEligibility_def children_of_build
  using deps_problem_None [of ws "fm_dependsOn (t_fm t)"]
  by (auto simp: Let_def filter_empty_conv split: option.split)

text \<open>
  Fact: promotion is exact. The backlog pass plans one promotion, from \<open>backlog\<close> to \<open>ready\<close>, for each
  backlog task with all dependencies present and done, every child task done, a routing target and
  no unexpired lease, in the order of the list, and nothing else.
\<close>

theorem promotion_exact:
  "map (\<lambda>a. (ac_type a, ac_taskId a, ac_fromStatus a, ac_toStatus a)) (checkBacklogPromotion ts ws (buildChildrenMap ws)) =
     map (\<lambda>t. (Promote, fm_id (t_fm t), Some Backlog, Some Ready)) (filter (promotable ts ws) ws)"
proof -
  have "filter (\<lambda>t. fst (checkPromotionEligibility ts t ws (buildChildrenMap ws))) (tasks_in Backlog ws) =
      filter (promotable ts ws) ws"
    unfolding tasks_in_def filter_filter eligibility_exact promotable_def by (rule filter_cong) auto
  then show ?thesis by (simp add: checkBacklogPromotion_def action_for_def)
qed

subsection \<open>SLA alerts\<close>

text \<open>
  Fact: alert rate. After an alert for a task was recorded, the next one is due exactly when the rate
  limit has passed, and the decision depends on no other task.
\<close>

theorem sla_rate_limit:
  assumes "\<forall>t \<in> set (alert_history w i). t \<le> w_now w" "w_now w \<le> n"
  shows "fst (shouldAlert limit i ((snd (recordAlert i w))\<lparr>w_now := n\<rparr>)) = Inr (w_now w + limit * 60000 \<le> n) \<and>
    (j \<noteq> i \<longrightarrow> fst (shouldAlert limit j (snd (recordAlert i w))) = fst (shouldAlert limit j w))"
proof -
  let ?w = "(snd (recordAlert i w))\<lparr>w_now := n\<rparr>"
  have "alert_history ?w i = alert_history w i @ [w_now w]"
    by (simp add: recordAlert_def run_simps alert_history_def or_else_def update_conv')
  then have "recent_alerts limit ?w i = [] \<longleftrightarrow> w_now w + limit * 60000 \<le> n"
    using assms by (auto simp: recent_alerts_def filter_empty_conv)
  then show ?thesis
    by (auto simp: shouldAlert_def run_simps recordAlert_def recent_alerts_def alert_history_def or_else_def update_conv')
qed

theorem sla_rate_limit_witness:
  "fst (shouldAlert 15 ''t1'' ((snd (recordAlert ''t1'' (world_of [])))\<lparr>w_now := 900100\<rparr>)) = Inr True"
  using sla_rate_limit [of "world_of []" "''t1''" 900100 15 "''t1''"] by (simp add: alert_history_def world_of_def or_else_def)

end
