(* ===== verification/LeaseProps.thy ===== *)
theory LeaseProps
  imports Lease
begin

section \<open>Leases: exclusion, bounds, expiry\<close>

text \<open>
  The lease requests of all agents, the expiry sweep and the clock as one datatype of steps. The
  holder of an unexpired lease is undisturbed by any number of steps of others; the sweep is
  described exactly on stores whose companion directories lie with their tasks (\<open>tidy\<close>).
\<close>

subsection \<open>Each operation touches its own task\<close>

lemma write_back_loaded [simp]:
  "write_back (with_lease l ts (loaded i fb)) = write_task (taskPath i (fm_status (fst fb))) (with_lease l ts (loaded i fb))"
  by (simp add: write_back_def with_lease_def)

lemma with_lease_simps [simp]:
  "fm_id (t_fm (with_lease l ts t)) = fm_id (t_fm t)" "fm_status (t_fm (with_lease l ts t)) = fm_status (t_fm t)"
  "t_body (with_lease l ts t) = t_body t" "fm_lease (t_fm (with_lease l ts t)) = l"
  "fm_dependsOn (t_fm (with_lease l ts t)) = fm_dependsOn (t_fm t)"
  by (simp_all add: with_lease_def)

lemma local_to_start_run [local_intros]: "local_to J (start_run i a ttl)"
  unfolding start_run_def writeRunArtifact_def writeHeartbeat_def with_dir_def resolveTaskDir_def mkdir_run_def
  by (intro local_intros)

lemma local_write_lease:
  "consistent w \<Longrightarrow> abs_store w i = Some fb \<Longrightarrow> local_at {i} w (write_back (with_lease l ts (loaded i fb)))"
  by (simp add: local_at_write)

lemma local_write_then:
  "consistent w \<Longrightarrow> abs_store w i = Some fb \<Longrightarrow> local_to {i} f \<Longrightarrow>
    local_at {i} w (andThen (write_back (with_lease l ts (loaded i fb))) f)"
  by (rule local_at_andThen [OF local_write_lease local_toD])

lemma local_acquire: "local_to {i} (acquireLease i a opts)"
  unfolding local_to_def acquireLease_def
  by (auto intro!: local_write_then local_at_pure local_intros
      simp: local_at_get Let_def simp del: write_back_loaded split: option.split)

lemma local_renew: "local_to {i} (renewLease i a opts)"
  unfolding local_to_def renewLease_def
  by (auto intro!: local_write_then local_at_pure local_intros
      simp: local_at_get Let_def simp del: write_back_loaded split: option.split sum.split)

lemma local_release: "local_to {i} (releaseLease i a)"
  unfolding local_to_def releaseLease_def
  by (auto intro!: local_at_pure local_toD [where J = "{i}", rotated] local_intros
      simp: local_at_get split: option.split sum.split)

text \<open>An agent that does not hold the unexpired lease is refused.\<close>

lemma refused:
  assumes "consistent w" "abs_store w i = Some fb" "fm_lease (fst fb) = Some l" "tl_agent l \<noteq> x" "w_now w < tl_expiresAt l"
  shows "\<exists>e. acquireLease i x opts w = (Inl e, w)" "\<exists>e. renewLease i x opts w = (Inl e, w)" "\<exists>e. releaseLease i x w = (Inl e, w)"
  using assms get_task_consistent [OF assms(1), of i]
  by (auto simp: acquireLease_def renewLease_def releaseLease_def bind_def run_simps now_def leased_elsewhere_def held_lease_def)

subsection \<open>The sweep\<close>

lemma checkDependenciesSatisfied_run:
  "consistent w \<Longrightarrow> checkDependenciesSatisfied ds w =
     (Inr (\<forall>d \<in> set ds. \<exists>fb. abs_store w d = Some fb \<and> fm_status (fst fb) = Done), w)"
  by (induction ds) (auto simp: get_task_consistent bind_def run_simps split: option.split)

lemma local_to_check [local_intros]: "local_to J (checkDependenciesSatisfied ds)"
  by (simp add: local_to_def local_at_def checkDependenciesSatisfied_run)

definition snapshot_of :: "world \<Rightarrow> task \<Rightarrow> bool" where
  "snapshot_of w t \<longleftrightarrow> (\<exists>i fb. abs_store w i = Some fb \<and> t = loaded i fb)"

lemma snapshot_ofE:
  assumes "consistent w" "snapshot_of w t"
  obtains fb where "abs_store w (fm_id (t_fm t)) = Some fb" "t = loaded (fm_id (t_fm t)) fb"
proof -
  from assms(2) obtain i fb where "abs_store w i = Some fb" "t = loaded i fb" by (auto simp: snapshot_of_def)
  moreover from this have "fm_id (fst fb) = i" using consistent_files(1) [OF assms(1), of i "fst fb" "snd fb"] by simp
  ultimately show thesis using that by simp
qed

lemma snapshot_of_keeps:
  assumes "consistent w" "snapshot_of w t" "abs_store w' (fm_id (t_fm t)) = abs_store w (fm_id (t_fm t))"
  shows "snapshot_of w' t"
  using snapshot_ofE [OF assms(1,2)] assms(3) unfolding snapshot_of_def by metis

lemma local_expire_one:
  assumes "consistent w" "snapshot_of w t"
  shows "local_at {fm_id (t_fm t)} w (expire_one t)"
proof -
  from snapshot_ofE [OF assms] obtain fb where fb: "abs_store w (fm_id (t_fm t)) = Some fb" "t = loaded (fm_id (t_fm t)) fb" .
  have w: "local_at {fm_id (t_fm t)} w (write_back (t\<lparr>t_fm := (t_fm t)\<lparr>fm_lease := None\<rparr>\<rparr>))"
  proof -
    have "t_path t = Some (taskPath (fm_id (t_fm t)) (fm_status (fst fb)))" using fb(2) by (metis loaded_simps(3))
    moreover have "t_fm t = fst fb" using fb(2) by (metis loaded_simps(1))
    ultimately show ?thesis unfolding write_back_def
      by (auto intro!: local_at_write [OF assms(1) fb(1)])
  qed
  have dep: "local_at {fm_id (t_fm t)} w (bind (if length (fm_dependsOn (t_fm t)) = 0 then ret True
      else checkDependenciesSatisfied (fm_dependsOn (t_fm t))) k) = local_at {fm_id (t_fm t)} w (k ok)"
    if "ok = (\<forall>d \<in> set (fm_dependsOn (t_fm t)). \<exists>fb. abs_store w d = Some fb \<and> fm_status (fst fb) = Done)" for k :: "bool \<Rightarrow> unit m" and ok
    by (rule local_at_bind_pure) (auto simp: that checkDependenciesSatisfied_run [OF assms(1)] run_simps)
  have tr: "local_at {fm_id (t_fm t)} w (bind (transition_task (fm_id (t_fm t)) s opts) (\<lambda>_. ret ()))" for s opts
    by (rule local_toD [OF _ assms(1)]) (intro local_intros, simp)
  show ?thesis
  proof (cases "fm_status (t_fm t) = Blocked")
    case True
    then show ?thesis unfolding expire_one_def if_P [OF True] dep [OF refl] using w tr by simp
  next
    case False
    then show ?thesis unfolding expire_one_def using tr by simp
  qed
qed

lemma distinct_map_head: "distinct (map f (x # xs)) \<Longrightarrow> y \<in> set xs \<Longrightarrow> f y \<noteq> f x"
  by (metis distinct.simps(2) image_eqI list.simps(9) set_map)

lemma sweep_one_run:
  "\<not> lease_expired t (w_now w) \<Longrightarrow> sweep_one t acc w = (Inr acc, w)"
  "lease_expired t (w_now w) \<Longrightarrow> sweep_one t acc w = andThen (expire_one t) (ret (acc @ [fm_id (t_fm t)])) w"
  by (simp_all add: sweep_one_def now_def run_simps)

lemma local_expire_fold:
  assumes "consistent w" "\<And>t. t \<in> set ts \<Longrightarrow> snapshot_of w t" "distinct (map (\<lambda>t. fm_id (t_fm t)) ts)"
    "\<And>t. t \<in> set ts \<Longrightarrow> lease_expired t (w_now w) \<Longrightarrow> fm_id (t_fm t) \<in> J"
  shows "local_at J w (fold_m sweep_one ts acc)"
  using assms
proof (induction ts arbitrary: w acc)
  case Nil
  then show ?case by (simp add: local_at_pure)
next
  case (Cons t ts)
  have loc: "local_at {fm_id (t_fm t)} w (expire_one t)" using local_expire_one Cons.prems(1,2) by simp
  show ?case
    unfolding fold_m.simps
  proof (rule local_at_bind)
    show "local_at J w (sweep_one t acc)"
    proof (cases "lease_expired t (w_now w)")
      case True
      then have "{fm_id (t_fm t)} \<subseteq> J" using Cons.prems(4) by simp
      then have "local_at J w (expire_one t)" by (rule local_at_mono [OF loc])
      then have "local_at J w (andThen (expire_one t) (ret (acc @ [fm_id (t_fm t)])))"
        by (rule local_at_andThen) (rule local_at_pure)
      then show ?thesis by (simp add: local_at_def sweep_one_run(2) [OF True])
    next
      case False
      then show ?thesis using Cons.prems(1) by (simp add: local_at_def sweep_one_run(1))
    qed
    fix x w' assume run: "sweep_one t acc w = (Inr x, w')" and c: "consistent w'"
    then have "w_now w' = w_now w \<and> (\<forall>i. i \<noteq> fm_id (t_fm t) \<longrightarrow> abs_store w' i = abs_store w i)"
      using loc by (auto simp: sweep_one_def now_def run_simps local_at_def andThen_def bind_def split: if_splits prod.splits sum.splits)
    moreover have "fm_id (t_fm u) \<noteq> fm_id (t_fm t)" if "u \<in> set ts" for u
      using distinct_map_head [OF Cons.prems(3) that] .
    ultimately show "local_at J w' (fold_m sweep_one ts x)"
      using Cons.prems by (intro Cons.IH [OF c]) (auto intro: snapshot_of_keeps [of w])
  qed
qed

definition sweep_list :: "world \<Rightarrow> task list" where
  "sweep_list w = listed w (status_filter InProgress) InProgress @ listed w (status_filter Blocked) Blocked"

lemma status_filter_simps [simp]: "lf_status (status_filter s) = Some s" "filter_matches (status_filter s) fm"
  by (simp_all add: status_filter_def no_filters_def filter_matches_def)

lemma list_status_run: "consistent w \<Longrightarrow> list_tasks (status_filter s) w = (Inr (listed w (status_filter s) s), w)"
  by (simp add: list_tasks_run list_statuses_def)

lemma in_sweep_list:
  "consistent w \<Longrightarrow> t \<in> set (sweep_list w) \<longleftrightarrow>
     (\<exists>i fb. abs_store w i = Some fb \<and> fm_status (fst fb) \<in> {InProgress, Blocked} \<and> t = loaded i fb)"
  by (simp only: sweep_list_def set_append Un_iff in_listed status_filter_simps simp_thms) blast

lemma sweep_list_distinct: "consistent w \<Longrightarrow> distinct (map (\<lambda>t. fm_id (t_fm t)) (sweep_list w))"
proof -
  assume c: "consistent w"
  have "listed w (status_filter s) s = listed w no_filters s" for s
    by (simp add: listed_def status_filter_def no_filters_def filter_matches_def)
  then have "sweep_list w = concat (map (listed w no_filters) [InProgress, Blocked])"
    by (simp add: sweep_list_def)
  then show ?thesis using list_ids_distinct [OF c, of "[InProgress, Blocked]" no_filters] by simp
qed

lemma expireLeases_fold:
  "consistent w \<Longrightarrow> expireLeases w = fold_m sweep_one (sweep_list w) [] w"
  by (simp add: expireLeases_def bind_def list_status_run sweep_list_def)

definition expired_ids :: "world \<Rightarrow> string set" where
  "expired_ids w = {i. \<exists>fb l. abs_store w i = Some fb \<and> fm_status (fst fb) \<in> {InProgress, Blocked} \<and>
     fm_lease (fst fb) = Some l \<and> tl_expiresAt l \<le> w_now w}"

lemma expired_sweep:
  assumes "consistent w" "t \<in> set (sweep_list w)" "lease_expired t (w_now w)"
  shows "fm_id (t_fm t) \<in> expired_ids w"
proof -
  from assms(2) obtain i fb where t: "abs_store w i = Some fb" "fm_status (fst fb) \<in> {InProgress, Blocked}" "t = loaded i fb"
    using in_sweep_list [OF assms(1)] by blast
  moreover have "fm_id (fst fb) = i" using consistent_files(1) [OF assms(1), of i "fst fb" "snd fb"] t(1) by simp
  ultimately show ?thesis
    using assms(3) by (cases fb) (auto simp: expired_ids_def lease_expired_def split: option.splits)
qed

lemma local_expire:
  assumes "consistent w"
  shows "local_at (expired_ids w) w expireLeases"
proof -
  have "local_at (expired_ids w) w (fold_m sweep_one (sweep_list w) [])"
    using assms sweep_list_distinct in_sweep_list expired_sweep
    by (intro local_expire_fold) (auto simp: snapshot_of_def)
  then show ?thesis by (simp add: local_at_def expireLeases_fold [OF assms])
qed

subsection \<open>Exclusion\<close>

text \<open>What agents, the sweep and the clock can do to leases.\<close>

datatype lease_step =
    Acquire string string lease_opts
  | Renew string string lease_opts
  | Release string string
  | Sweep
  | Tick nat

fun do_step :: "lease_step \<Rightarrow> world \<Rightarrow> world" where
  "do_step (Acquire i a opts) w = snd (acquireLease i a opts w)"
| "do_step (Renew i a opts) w = snd (renewLease i a opts w)"
| "do_step (Release i a) w = snd (releaseLease i a w)"
| "do_step Sweep w = snd (expireLeases w)"
| "do_step (Tick n) w = w\<lparr>w_now := w_now w + int n\<rparr>"

fun step_agent :: "lease_step \<Rightarrow> string option" where
  "step_agent (Acquire i a opts) = Some a"
| "step_agent (Renew i a opts) = Some a"
| "step_agent (Release i a) = Some a"
| "step_agent _ = None"

lemma do_step_keeps:
  assumes "consistent w" "abs_store w i = Some fb" "fm_lease (fst fb) = Some l" "w_now w < tl_expiresAt l"
    "step_agent st \<noteq> Some (tl_agent l)"
  shows "consistent (do_step st w) \<and> abs_store (do_step st w) i = abs_store w i \<and> w_now w \<le> w_now (do_step st w)"
proof (cases st)
  case (Acquire j x opts)
  then show ?thesis
    using refused(1) [OF assms(1-3) _ assms(4), of x opts] local_toD [OF local_acquire [of j x opts] assms(1)] assms(1,5)
    by (cases "j = i") (auto simp: local_at_def)
next
  case (Renew j x opts)
  then show ?thesis
    using refused(2) [OF assms(1-3) _ assms(4), of x opts] local_toD [OF local_renew [of j x opts] assms(1)] assms(1,5)
    by (cases "j = i") (auto simp: local_at_def)
next
  case (Release j x)
  then show ?thesis
    using refused(3) [OF assms(1-3) _ assms(4), of x] local_toD [OF local_release [of j x] assms(1)] assms(1,5)
    by (cases "j = i") (auto simp: local_at_def)
next
  case Sweep
  have "i \<notin> expired_ids w" using assms(2,3,4) by (auto simp: expired_ids_def)
  then show ?thesis using local_expire [OF assms(1)] Sweep by (simp add: local_at_def)
next
  case (Tick n)
  then show ?thesis using assms(1) by simp
qed

definition run_steps :: "lease_step list \<Rightarrow> world \<Rightarrow> world" where
  "run_steps sts w = fold do_step sts w"

lemma steps_clock:
  assumes "consistent w"
  shows "consistent (run_steps sts w) \<and> w_now w \<le> w_now (run_steps sts w)"
  using assms
proof (induction sts arbitrary: w)
  case Nil
  then show ?case by (simp add: run_steps_def)
next
  case (Cons st sts)
  have "consistent (do_step st w) \<and> w_now w \<le> w_now (do_step st w)"
    using Cons.prems local_toD [OF local_acquire Cons.prems] local_toD [OF local_renew Cons.prems]
      local_toD [OF local_release Cons.prems] local_expire [OF Cons.prems]
    by (cases st) (auto simp: local_at_def)
  with Cons.IH [of "do_step st w"] show ?case by (simp add: run_steps_def)
qed

text \<open>
  C12: mutual exclusion of leases. A task leased to an agent stays as it is, lease, holder, expiry
  and everything else, through any sequence of acquisitions, renewals and releases by other agents on
  any tasks, expiry sweeps and passage of time, as long as the lease has not expired at the end.
\<close>

theorem lease_exclusive:
  assumes "consistent w" "abs_store w i = Some (fm, b)" "fm_lease fm = Some l"
    and "w_now (run_steps sts w) < tl_expiresAt l" "\<forall>st \<in> set sts. step_agent st \<noteq> Some (tl_agent l)"
  shows "abs_store (run_steps sts w) i = Some (fm, b)"
  using assms
proof (induction sts arbitrary: w)
  case Nil
  then show ?case by (simp add: run_steps_def)
next
  case (Cons st sts)
  have steps: "run_steps (st # sts) w = run_steps sts (do_step st w)" for w by (simp add: run_steps_def)
  have "w_now w < tl_expiresAt l" using steps_clock [OF Cons.prems(1), of "st # sts"] Cons.prems(4) by simp
  from do_step_keeps [OF Cons.prems(1,2) _ this, of st] Cons.prems(3,5)
  have "consistent (do_step st w)" "abs_store (do_step st w) i = Some (fm, b)" using Cons.prems(2) by auto
  from Cons.IH [OF this Cons.prems(3)] Cons.prems(4,5) steps show ?case by simp
qed

subsection \<open>Acquisition and renewal\<close>

lemma start_run_frame:
  assumes "consistent w" "abs_store w i \<noteq> None"
  shows "\<exists>h w'. start_run i a ttl w = (Inr h, w') \<and> consistent w' \<and> abs_store w' = abs_store w"
proof -
  from assms(2) obtain fb where "abs_store w i = Some fb" by auto
  from start_run_run [OF assms(1) this, of a ttl] show ?thesis by blast
qed

text \<open>
  Fact: renewal. The holder's renewal succeeds exactly while the count is below the limit; it moves
  the expiry to now plus the time to live, adds one to the count and leaves the rest of the task and
  all other tasks alone. So a lease is renewed at most \<open>maxRenewals\<close> times.
\<close>

theorem renew_bounded:
  assumes "consistent w" "abs_store w i = Some (fm, b)" "fm_lease fm = Some l" "tl_agent l = a"
  shows "if tl_renewCount l < or_else (lo_maxRenewals opts) DEFAULT_MAX_RENEWALS
    then \<exists>t w'. renewLease i a opts w = (Inr t, w') \<and> consistent w' \<and>
      abs_store w' = (abs_store w)(i \<mapsto> (fm\<lparr>fm_lease := Some (l\<lparr>tl_expiresAt := w_now w + or_else (lo_ttlMs opts) DEFAULT_TTL,
        tl_renewCount := tl_renewCount l + 1\<rparr>), fm_updatedAt := w_now w\<rparr>, js_trim b))
    else renewLease i a opts w = (Inl (RenewalsExhausted i (or_else (lo_maxRenewals opts) DEFAULT_MAX_RENEWALS)), w)"
proof -
  let ?l = "l\<lparr>tl_expiresAt := w_now w + or_else (lo_ttlMs opts) DEFAULT_TTL, tl_renewCount := tl_renewCount l + 1\<rparr>"
  let ?t = "with_lease (Some ?l) (w_now w) (loaded i (fm, b))"
  from write_task_run [OF assms(1,2), of ?t] obtain w' where
    w': "write_task (taskPath i (fm_status fm)) ?t w = (Inr (), w')" "consistent w'"
    "abs_store w' = (abs_store w)(i \<mapsto> (t_fm ?t, js_trim (t_body ?t)))" by auto
  show ?thesis
    using assms get_task_consistent [OF assms(1), of i] w'
    by (auto simp: renewLease_def bind_def andThen_def run_simps now_def held_lease_def Let_def) (auto simp: with_lease_def)
qed

text \<open>
  Fact: acquisition. On a tidy store a \<open>ready\<close> or \<open>in-progress\<close> task that no other agent holds goes to
  the agent: afterwards it is \<open>in-progress\<close> with a fresh lease of the agent, expiring after the
  time to live, and every other task is as it was; the lease survives the transition.
\<close>

theorem acquire_grants:
  assumes "tidy w" "abs_store w i = Some (fm, b)" "fm_status fm \<in> {Ready, InProgress}"
    "\<not> leased_elsewhere (fm_lease fm) a (w_now w)"
  shows "\<exists>t w' fm'. acquireLease i a opts w = (Inr t, w') \<and> consistent w' \<and>
    abs_store w' = (abs_store w)(i \<mapsto> (fm', js_trim b)) \<and> fm_status fm' = InProgress \<and>
    fm_lease fm' = Some \<lparr>tl_agent = a, tl_acquiredAt = w_now w,
      tl_expiresAt = w_now w + or_else (lo_ttlMs opts) DEFAULT_TTL, tl_renewCount = 0\<rparr>"
proof -
  let ?l = "\<lparr>tl_agent = a, tl_acquiredAt = w_now w, tl_expiresAt = w_now w + or_else (lo_ttlMs opts) DEFAULT_TTL, tl_renewCount = 0\<rparr>"
  let ?t = "with_lease (Some ?l) (w_now w) (loaded i (fm, b))"
  let ?art = "when_m (or_else (lo_writeRunArtifacts opts) True)
    (bind (start_run i a (or_else (lo_heartbeatTtlMs opts) DEFAULT_HEARTBEAT_TTL)) (\<lambda>_. ret ()))"
  from write_task_tidy [OF assms(1,2), of ?t] obtain w1 where
    w1: "write_task (taskPath i (fm_status fm)) ?t w = (Inr (), w1)" "tidy w1" "w_now w1 = w_now w"
    "abs_store w1 = (abs_store w)(i \<mapsto> (t_fm ?t, js_trim b))" by auto
  obtain t w2 fm' where
    w2: "(if fm_status (t_fm ?t) = Ready then transition_task i InProgress (no_opts\<lparr>to_agent := Some a\<rparr>) else ret ?t) w1 = (Inr t, w2)"
    "consistent w2" "abs_store w2 = (abs_store w1)(i \<mapsto> (fm', js_trim b))" "fm_status fm' = InProgress" "fm_lease fm' = Some ?l"
  proof (cases "fm_status fm = Ready")
    case True
    have "abs_store w1 i = Some (t_fm ?t, js_trim b)" using w1(4) by simp
    from transition_tidy [OF w1(2) this, of InProgress "no_opts\<lparr>to_agent := Some a\<rparr>"] True obtain w2 where
      "transition_task i InProgress (no_opts\<lparr>to_agent := Some a\<rparr>) w1 =
        (Inr (transition_result i InProgress (no_opts\<lparr>to_agent := Some a\<rparr>) (w_now w1) (t_fm ?t, js_trim b)), w2)" "tidy w2"
      "abs_store w2 = (abs_store w1)(i \<mapsto> (transition_fm (t_fm ?t) InProgress None (w_now w1), js_trim (js_trim b)))"
      by (auto simp: isValidTransition_def no_opts_def)
    with True show thesis
      by (intro that [of "transition_result i InProgress (no_opts\<lparr>to_agent := Some a\<rparr>) (w_now w1) (t_fm ?t, js_trim b)" w2
            "transition_fm (t_fm ?t) InProgress None (w_now w1)"]) (simp_all add: tidy_def)
  next
    case False
    with assms(3) have s: "fm_status fm = InProgress" by simp
    show thesis by (rule that [of ?t w1 "t_fm ?t"]) (use False s w1 in \<open>simp_all add: run_simps tidy_def\<close>)
  qed
  obtain w3 where w3: "?art w2 = (Inr (), w3)" "consistent w3" "abs_store w3 = abs_store w2"
  proof -
    have "abs_store w2 i \<noteq> None" using w2(3) by simp
    from start_run_frame [OF w2(2) this, of a "or_else (lo_heartbeatTtlMs opts) DEFAULT_HEARTBEAT_TTL"]
    show thesis using that w2(2)
      by (cases "or_else (lo_writeRunArtifacts opts) True") (auto simp: when_m_def run_simps bind_run)
  qed
  have "acquireLease i a opts w = (Inr t, w3)"
    using get_task_consistent [OF tidy_consistent [OF assms(1)], of i] assms(2-4) w1(1) w2(1) w3(1)
    by (auto simp: acquireLease_def bind_def andThen_def run_simps now_def Let_def)
  with w1(4) w2 w3 show ?thesis by auto
qed

subsection \<open>The sweep, exactly\<close>

definition deps_done :: "world \<Rightarrow> frontmatter \<Rightarrow> bool" where
  "deps_done w fm \<longleftrightarrow> (\<forall>d \<in> set (fm_dependsOn fm). \<exists>fb. abs_store w d = Some fb \<and> fm_status (fst fb) = Done)"

text \<open>What the sweep makes of a task.\<close>

definition swept :: "world \<Rightarrow> frontmatter \<times> string \<Rightarrow> frontmatter \<times> string" where
  "swept w fb =
     (if fm_status (fst fb) = Blocked \<and> \<not> deps_done w (fst fb)
      then ((fst fb)\<lparr>fm_lease := None\<rparr>, js_trim (snd fb))
      else (transition_fm (fst fb) Ready None (w_now w), js_trim (snd fb)))"

lemma expire_one_exact:
  assumes "tidy w" "abs_store w i = Some fb" "fm_status (fst fb) \<in> {InProgress, Blocked}"
  shows "\<exists>w'. expire_one (loaded i fb) w = (Inr (), w') \<and> tidy w' \<and> w_now w' = w_now w \<and>
    abs_store w' = (abs_store w)(i \<mapsto> swept w fb)"
proof -
  have cons: "consistent w" by (rule tidy_consistent [OF assms(1)])
  have id: "fm_id (fst fb) = i" using consistent_files(1) [OF cons, of i "fst fb" "snd fb"] assms(2) by simp
  have valid: "isValidTransition (fm_status (fst fb)) Ready" using assms(3) by (auto simp: isValidTransition_def)
  have check: "(if length (fm_dependsOn (fst fb)) = 0 then ret True else checkDependenciesSatisfied (fm_dependsOn (fst fb))) w
      = (Inr (deps_done w (fst fb)), w)"
    by (simp add: checkDependenciesSatisfied_run [OF cons] deps_done_def run_simps)
  show ?thesis
  proof (cases "fm_status (fst fb) = Blocked \<and> \<not> deps_done w (fst fb)")
    case True
    let ?u = "(loaded i fb)\<lparr>t_fm := (fst fb)\<lparr>fm_lease := None\<rparr>\<rparr>"
    from write_task_tidy [OF assms(1,2), of ?u] True check id show ?thesis
      by (auto simp: expire_one_def bind_def write_back_def swept_def)
  next
    case False
    have "\<exists>w'. bind (transition_task i Ready (reason_opts r)) (\<lambda>_. ret ()) w = (Inr (), w') \<and> tidy w' \<and>
        w_now w' = w_now w \<and> abs_store w' = (abs_store w)(i \<mapsto> swept w fb)" for r
      using transition_tidy [OF assms(1,2) valid, of "reason_opts r"] False
      by (auto simp: bind_run run_simps swept_def reason_opts_def no_opts_def)
    moreover have "expire_one (loaded i fb) w =
        bind (transition_task i Ready (reason_opts (if fm_status (fst fb) = Blocked then ''lease_expired_requeue'' else ''lease_expired''))) (\<lambda>_. ret ()) w"
      unfolding expire_one_def loaded_simps
        bind_run(1) [where f = "if length (fm_dependsOn (fst fb)) = 0 then ret True else checkDependenciesSatisfied (fm_dependsOn (fst fb))", OF check]
      using False id check by (auto simp: bind_def)
    ultimately show ?thesis by simp
  qed
qed

lemma swept_not_done: "fm_status (fst (swept w fb)) \<noteq> Done \<or> fm_status (fst fb) = Done"
  by (simp add: swept_def)

lemma deps_done_sweep:
  assumes "abs_store w' = (abs_store w)(i \<mapsto> swept w fb)" "abs_store w i = Some fb" "fm_status (fst fb) \<in> {InProgress, Blocked}"
  shows "deps_done w' fm = deps_done w fm"
proof -
  have "(\<exists>fb'. abs_store w' d = Some fb' \<and> fm_status (fst fb') = Done) = (\<exists>fb'. abs_store w d = Some fb' \<and> fm_status (fst fb') = Done)" for d
    using assms swept_not_done [of w fb] by (cases "d = i") auto
  then show ?thesis by (simp only: deps_done_def)
qed

lemma expire_fold_exact:
  assumes "tidy w" "\<And>t. t \<in> set ts \<Longrightarrow> \<exists>i fb. abs_store w i = Some fb \<and> t = loaded i fb \<and> fm_status (fst fb) \<in> {InProgress, Blocked}"
    "distinct (map (\<lambda>t. fm_id (t_fm t)) ts)"
  shows "\<exists>w'. fold_m sweep_one ts acc w =
      (Inr (acc @ map (\<lambda>t. fm_id (t_fm t)) (filter (\<lambda>t. lease_expired t (w_now w)) ts)), w') \<and> tidy w' \<and>
    w_now w' = w_now w \<and> (\<forall>fm. deps_done w' fm = deps_done w fm) \<and>
    (\<forall>i. abs_store w' i = (if \<exists>t \<in> set ts. fm_id (t_fm t) = i \<and> lease_expired t (w_now w)
       then map_option (swept w) (abs_store w i) else abs_store w i))"
  using assms
proof (induction ts arbitrary: w acc)
  case Nil
  then show ?case by (simp add: run_simps)
next
  case (Cons t ts)
  obtain i fb where t: "abs_store w i = Some fb" "t = loaded i fb" "fm_status (fst fb) \<in> {InProgress, Blocked}"
    using Cons.prems(2) by force
  have id: "fm_id (t_fm t) = i"
    using consistent_files(1) [OF tidy_consistent [OF Cons.prems(1)], of i "fst fb" "snd fb"] t by simp
  have other: "fm_id (t_fm u) \<noteq> i" if "u \<in> set ts" for u using distinct_map_head [OF Cons.prems(3) that] id by simp
  show ?case
  proof (cases "lease_expired t (w_now w)")
    case False
    have "fold_m sweep_one (t # ts) acc w = fold_m sweep_one ts acc w"
      using False by (simp add: bind_def sweep_one_run(1))
    moreover note Cons.IH [OF Cons.prems(1), of acc]
    ultimately show ?thesis using Cons.prems(2,3) False by simp
  next
    case True
    from expire_one_exact [OF Cons.prems(1) t(1,3)] obtain w1 where
      w1: "expire_one t w = (Inr (), w1)" "tidy w1" "w_now w1 = w_now w" "abs_store w1 = (abs_store w)(i \<mapsto> swept w fb)"
      using t(2) by blast
    have dd: "deps_done w1 fm = deps_done w fm" for fm using deps_done_sweep [OF w1(4) t(1,3)] .
    have sw: "swept w1 = swept w" by (intro ext) (simp only: swept_def dd w1(3))
    have "\<exists>j fb. abs_store w1 j = Some fb \<and> u = loaded j fb \<and> fm_status (fst fb) \<in> {InProgress, Blocked}" if "u \<in> set ts" for u
    proof -
      from Cons.prems(2) [of u] that obtain j fb' where
        u: "abs_store w j = Some fb'" "u = loaded j fb'" "fm_status (fst fb') \<in> {InProgress, Blocked}" by auto
      have "fm_id (t_fm u) = j"
        using consistent_files(1) [OF tidy_consistent [OF Cons.prems(1)], of j "fst fb'" "snd fb'"] u by simp
      then have "j \<noteq> i" using other [OF that] by simp
      with u w1(4) show ?thesis by (intro exI [of _ j] exI [of _ fb']) simp
    qed
    from Cons.IH [OF w1(2) this, of "acc @ [i]"] Cons.prems(3) obtain w2 where
      w2: "fold_m sweep_one ts (acc @ [i]) w1 =
        (Inr ((acc @ [i]) @ map (\<lambda>t. fm_id (t_fm t)) (filter (\<lambda>t. lease_expired t (w_now w1)) ts)), w2)" "tidy w2"
      "w_now w2 = w_now w1" "\<And>fm. deps_done w2 fm = deps_done w1 fm"
      "\<And>j. abs_store w2 j = (if \<exists>t \<in> set ts. fm_id (t_fm t) = j \<and> lease_expired t (w_now w1)
        then map_option (swept w1) (abs_store w1 j) else abs_store w1 j)" by auto
    have "abs_store w2 j = (if \<exists>u \<in> set (t # ts). fm_id (t_fm u) = j \<and> lease_expired u (w_now w)
        then map_option (swept w) (abs_store w j) else abs_store w j)" for j
      unfolding w2(5) sw w1(3,4) using True id t(1) other by (cases "j = i") auto
    moreover have "fold_m sweep_one (t # ts) acc w = fold_m sweep_one ts (acc @ [i]) w1"
      using w1(1) id by (simp add: bind_def sweep_one_run(2) [OF True] andThen_def run_simps)
    ultimately show ?thesis using w2 w1(3) dd True id by (intro exI [of _ w2]) simp
  qed
qed

text \<open>
  Fact: the expiry sweep is exact. On a tidy store it returns the ids of the in-progress and blocked
  tasks whose lease has expired; each of them loses its lease and goes back to \<open>ready\<close>, except a
  blocked one with an unfinished dependency, which stays blocked; every other task is untouched.
\<close>

theorem expireLeases_exact:
  assumes "tidy w"
  shows "\<exists>ids w'. expireLeases w = (Inr ids, w') \<and> tidy w' \<and> set ids = expired_ids w \<and> distinct ids \<and>
    (\<forall>i. abs_store w' i = (if i \<in> expired_ids w then map_option (swept w) (abs_store w i) else abs_store w i))"
proof -
  have cons: "consistent w" by (rule tidy_consistent [OF assms])
  let ?ids = "map (\<lambda>t. fm_id (t_fm t)) (filter (\<lambda>t. lease_expired t (w_now w)) (sweep_list w))"
  have mem: "(\<exists>t \<in> set (sweep_list w). fm_id (t_fm t) = i \<and> lease_expired t (w_now w)) = (i \<in> expired_ids w)" for i
  proof
    assume "i \<in> expired_ids w"
    then obtain fb l where fb: "abs_store w i = Some fb" "fm_status (fst fb) \<in> {InProgress, Blocked}"
      "fm_lease (fst fb) = Some l" "tl_expiresAt l \<le> w_now w" unfolding expired_ids_def by blast
    then have "loaded i fb \<in> set (sweep_list w)" using in_sweep_list [OF cons] by blast
    moreover have "fm_id (fst fb) = i" using consistent_files(1) [OF cons, of i "fst fb" "snd fb"] fb(1) by simp
    ultimately show "\<exists>t \<in> set (sweep_list w). fm_id (t_fm t) = i \<and> lease_expired t (w_now w)"
      using fb by (intro bexI [of _ "loaded i fb"]) (auto simp: lease_expired_def)
  qed (use expired_sweep [OF cons] in blast)
  have "set ?ids = {i. \<exists>t \<in> set (sweep_list w). fm_id (t_fm t) = i \<and> lease_expired t (w_now w)}" by auto
  then have "set ?ids = expired_ids w" by (simp only: mem Collect_mem_eq)
  moreover have "distinct ?ids" using sweep_list_distinct [OF cons] by (rule distinct_map_filter)
  moreover have "\<exists>i fb. abs_store w i = Some fb \<and> t = loaded i fb \<and> fm_status (fst fb) \<in> {InProgress, Blocked}"
    if "t \<in> set (sweep_list w)" for t using that in_sweep_list [OF cons] by blast
  note expire_fold_exact [OF assms this sweep_list_distinct [OF cons], of "[]"]
  ultimately show ?thesis unfolding expireLeases_fold [OF cons] mem by auto
qed

subsection \<open>Examples\<close>

definition dev_lease :: "int \<Rightarrow> task_lease" where
  "dev_lease e = \<lparr>tl_agent = ''dev'', tl_acquiredAt = 0, tl_expiresAt = e, tl_renewCount = 0\<rparr>"

definition leased_fm :: "int \<Rightarrow> frontmatter" where
  "leased_fm e = (sample_fm sample_id InProgress)\<lparr>fm_lease := Some (dev_lease e)\<rparr>"

definition leased_world :: "int \<Rightarrow> world" where
  "leased_world e = world_of [(taskPath sample_id InProgress, \<lparr>fi_content = Parsed (leased_fm e) [], fi_mtime = 1\<rparr>)]"

lemma leased_fm_simps [simp]:
  "fm_id (leased_fm e) = sample_id" "fm_status (leased_fm e) = InProgress" "fm_lease (leased_fm e) = Some (dev_lease e)"
  "tl_agent (dev_lease e) = ''dev''" "tl_expiresAt (dev_lease e) = e" "tl_renewCount (dev_lease e) = 0"
  by (simp_all add: leased_fm_def dev_lease_def)

lemma leased_world_ok [simp]: "consistent (leased_world e)" "w_dirs (leased_world e) = []" "w_now (leased_world e) = 100"
  by (auto simp: consistent_def leased_world_def split: if_splits)

lemma leased_world_abs [simp]: "abs_store (leased_world e) sample_id = Some (leased_fm e, [])"
  using abs_store_Some [OF leased_world_ok(1), of e sample_id "leased_fm e" "[]"] by (simp add: leased_world_def)

lemma tidy_no_dirs: "consistent w \<Longrightarrow> w_dirs w = [] \<Longrightarrow> tidy w"
  by (simp add: tidy_def dirs_follow_def)

theorem lease_exclusive_witness:
  "abs_store (run_steps [Acquire sample_id ''ops'' default_lease_opts, Sweep, Tick 20, Release sample_id ''ops'', Sweep] (leased_world 200)) sample_id
    = Some (leased_fm 200, [])"
proof -
  let ?sts = "[Acquire sample_id ''ops'' default_lease_opts, Sweep, Tick 20, Release sample_id ''ops'', Sweep]"
  have now: "w_now (do_step Sweep w) = w_now w \<and> consistent (do_step Sweep w)" if "consistent w" for w
    using local_expire [OF that] by (simp add: local_at_def)
  have acq: "w_now (do_step (Acquire i a opts) w) = w_now w \<and> consistent (do_step (Acquire i a opts) w)" if "consistent w" for w i a opts
    using local_toD [OF local_acquire that] by (simp add: local_at_def)
  have rel: "w_now (do_step (Release i a) w) = w_now w \<and> consistent (do_step (Release i a) w)" if "consistent w" for w i a
    using local_toD [OF local_release that] by (simp add: local_at_def)
  have tick: "w_now (do_step (Tick n) w) = w_now w + int n \<and> consistent (do_step (Tick n) w)" if "consistent w" for w n
    using that by simp
  have "w_now (run_steps ?sts (leased_world 200)) = 120"
    using now acq rel tick unfolding run_steps_def fold.simps o_apply id_apply by (simp del: do_step.simps)
  then have "w_now (run_steps ?sts (leased_world 200)) < tl_expiresAt (dev_lease 200)" by simp
  from lease_exclusive [OF leased_world_ok(1) leased_world_abs _ this] show ?thesis by simp
qed

theorem renew_bounded_witness:
  "renewLease sample_id ''dev'' (default_lease_opts\<lparr>lo_maxRenewals := Some 0\<rparr>) (leased_world 200)
    = (Inl (RenewalsExhausted sample_id 0), leased_world 200)"
  using renew_bounded [OF leased_world_ok(1) leased_world_abs, of 200 "dev_lease 200" "''dev''"
      "default_lease_opts\<lparr>lo_maxRenewals := Some 0\<rparr>"]
  by (simp add: or_else_def)

theorem acquire_grants_witness:
  "\<exists>t w' fm'. acquireLease sample_id ''dev'' default_lease_opts (one_task Ready) = (Inr t, w') \<and>
    abs_store w' sample_id = Some (fm', js_trim ''body'') \<and> fm_status fm' = InProgress"
proof -
  have "tidy (one_task Ready)" by (rule tidy_no_dirs) simp_all
  moreover have "abs_store (one_task Ready) sample_id = Some (sample_fm sample_id Ready, ''body'')" by simp
  ultimately show ?thesis
    using acquire_grants [of "one_task Ready" sample_id "sample_fm sample_id Ready" "''body''" "''dev''" default_lease_opts]
    by (fastforce simp: leased_elsewhere_def)
qed

theorem expireLeases_exact_witness:
  "\<exists>ids w'. expireLeases (leased_world 100) = (Inr ids, w') \<and> sample_id \<in> set ids \<and>
    abs_store w' sample_id = Some (transition_fm (leased_fm 100) Ready None 100, [])"
proof -
  have "tidy (leased_world 100)" by (rule tidy_no_dirs) simp_all
  moreover have "sample_id \<in> expired_ids (leased_world 100)" by (simp add: expired_ids_def)
  ultimately show ?thesis
    using expireLeases_exact [of "leased_world 100"] by (fastforce simp: swept_def js_trim_def)
qed

end
