(* ===== verification/StoreRun.thy ===== *)
theory StoreRun
  imports LeaseProps
begin

section \<open>Calculating what an operation does\<close>

text \<open>
  \<open>yields f w Q\<close>: the operation \<open>f\<close> started in \<open>w\<close> succeeds, with a result and a world that satisfy
  \<open>Q\<close>. For the control structures it is calculated by simplification (\<open>yields_simps\<close>), from the end of
  the operation to its beginning; for the operations of the store there is one rule each, in terms of
  \<open>updates\<close>: the task at one id is replaced on a tidy store, and nothing else.
\<close>

subsection \<open>The calculus\<close>

definition yields :: "'a m \<Rightarrow> world \<Rightarrow> ('a \<Rightarrow> world \<Rightarrow> bool) \<Rightarrow> bool" where
  "yields f w Q \<longleftrightarrow> (\<exists>x w'. f w = (Inr x, w') \<and> Q x w')"

named_theorems yields_simps \<open>the success of an operation in terms of its parts\<close>

lemma yields_run: "f w = (Inr x, w') \<Longrightarrow> yields f w Q = Q x w'"
  by (simp add: yields_def)

lemma yields_mono: "yields f w P \<Longrightarrow> (\<And>x w'. P x w' \<Longrightarrow> Q x w') \<Longrightarrow> yields f w Q"
  by (auto simp: yields_def)

lemma yieldsD: "yields f w Q \<Longrightarrow> \<exists>x w'. f w = (Inr x, w') \<and> Q x w'"
  by (simp add: yields_def)

lemma yields_bind [yields_simps]: "yields (bind f g) w Q = yields f w (\<lambda>x w'. yields (g x) w' Q)"
  by (auto simp: yields_def bind_def split: prod.splits sum.splits)

lemma yields_andThen [yields_simps]: "yields (andThen f g) w Q = yields f w (\<lambda>x w'. yields g w' Q)"
  by (simp add: andThen_def yields_bind)

text \<open>Sequential composition with an intermediate assertion.\<close>

lemma yields_seq: "yields f w P \<Longrightarrow> (\<And>x w'. P x w' \<Longrightarrow> yields g w' Q) \<Longrightarrow> yields (andThen f g) w Q"
  by (simp add: yields_andThen) (rule yields_mono)

lemma yields_seq_bind: "yields f w P \<Longrightarrow> (\<And>x w'. P x w' \<Longrightarrow> yields (g x) w' Q) \<Longrightarrow> yields (bind f g) w Q"
  by (simp add: yields_bind) (rule yields_mono)

lemma yields_pure [yields_simps]:
  "yields (ret x) w Q = Q x w" "yields (gets f) w Q' = Q' (f w) w" "yields now w Q'' = Q'' (w_now w) w"
  "yields (modify h) w R = R () (h w)" "\<not> yields (throw e) w R'"
  by (simp_all add: yields_def run_simps now_def)

lemma yields_catch: "yields f w Q \<Longrightarrow> yields (catch f h) w Q"
  by (auto simp: yields_def catch_def)

lemma yields_when [yields_simps]: "yields (when_m b f) w Q = (if b then yields f w Q else Q () w)"
  by (simp add: when_m_def yields_pure)

lemma yields_option: "(x = None \<Longrightarrow> yields f w Q) \<Longrightarrow> (\<And>v. x = Some v \<Longrightarrow> yields (g v) w Q) \<Longrightarrow>
    yields (case x of None \<Rightarrow> f | Some v \<Rightarrow> g v) w Q"
  by (cases x) auto

lemma yields_log: "(\<And>e. Q () (w\<lparr>w_events := e\<rparr>)) \<Longrightarrow> yields (log_event ty a k p) w Q"
  by (simp add: log_event_def yields_pure)

subsection \<open>Updates of one task\<close>

text \<open>
  \<open>updates w i fb w'\<close>: from the tidy store \<open>w\<close> an operation went to \<open>w'\<close>, replacing the task at \<open>i\<close> by
  \<open>fb\<close> and nothing else. The operations of the store in this form compose by \<open>updates_trans\<close>.
\<close>

definition updates :: "world \<Rightarrow> string \<Rightarrow> frontmatter \<times> string \<Rightarrow> world \<Rightarrow> bool" where
  "updates w i fb w' \<longleftrightarrow> tidy w' \<and> w_now w' = w_now w \<and> abs_store w' = (abs_store w)(i \<mapsto> fb)"

lemma updatesD:
  assumes "updates w i fb w'"
  shows "tidy w'" "consistent w'" "w_now w' = w_now w" "abs_store w' i = Some fb"
    "abs_store w' = (abs_store w)(i \<mapsto> fb)"
  using assms by (simp_all add: updates_def tidy_def)

lemma updates_trans: "updates w i fb w1 \<Longrightarrow> updates w1 i fc w2 \<Longrightarrow> updates w i fc w2"
  by (simp add: updates_def)

lemma tidy_events [simp]: "tidy (w\<lparr>w_events := e\<rparr>) = tidy w"
  by (simp add: tidy_def dirs_follow_def)

lemma updates_events [simp]: "updates w i fb (w'\<lparr>w_events := e\<rparr>) = updates w i fb w'"
  by (simp add: updates_def)

text \<open>Fields of the world that are not task files.\<close>

lemma files_frame:
  assumes "w_files w' = w_files w"
  shows "abs_store w' = abs_store w" "consistent w' = consistent w"
proof -
  have fa: "file_at w' = file_at w" by (rule ext) (simp add: file_at_def assms)
  have "found w' = found w" by (intro ext) (simp add: found_def fa)
  then show "abs_store w' = abs_store w" by (intro ext) (simp add: abs_store_def copies_def)
  show "consistent w' = consistent w" using assms fa by (simp add: consistent_def)
qed

lemma tidy_frame_eq: "w_files w' = w_files w \<Longrightarrow> w_dirs w' = w_dirs w \<Longrightarrow> tidy w' = tidy w"
  using files_frame [of w' w] by (simp add: tidy_def dirs_follow_def)

lemma tidy_frame [simp]:
  "tidy (w\<lparr>w_renewals := r\<rparr>) = tidy w" "tidy (w\<lparr>w_lastDispatchAt := n\<rparr>) = tidy w"
  "tidy (w\<lparr>w_lastDispatchByTeam := m\<rparr>) = tidy w" "tidy (w\<lparr>w_slaAlerts := al\<rparr>) = tidy w"
  "abs_store (w\<lparr>w_events := ev\<rparr>) = abs_store w"
  "tidy (w\<lparr>w_workDirs := wd\<rparr>) = tidy w" "abs_store (w\<lparr>w_workDirs := wd\<rparr>) = abs_store w"
  "abs_store (w\<lparr>w_renewals := r\<rparr>) = abs_store w" "abs_store (w\<lparr>w_lastDispatchAt := n\<rparr>) = abs_store w"
  "abs_store (w\<lparr>w_lastDispatchByTeam := m\<rparr>) = abs_store w" "abs_store (w\<lparr>w_slaAlerts := al\<rparr>) = abs_store w"
  by (rule tidy_frame_eq files_frame(1); simp)+

lemma updates_frame [simp]:
  "updates w i fb (w'\<lparr>w_renewals := r\<rparr>) = updates w i fb w'" "updates w i fb (w'\<lparr>w_lastDispatchAt := n\<rparr>) = updates w i fb w'"
  "updates w i fb (w'\<lparr>w_lastDispatchByTeam := m\<rparr>) = updates w i fb w'" "updates w i fb (w'\<lparr>w_slaAlerts := al\<rparr>) = updates w i fb w'"
  "updates w i fb (w'\<lparr>w_workDirs := wd\<rparr>) = updates w i fb w'"
  by (simp_all add: updates_def)

lemma log_run: "\<exists>e. log_event ty a k p w = (Inr (), w\<lparr>w_events := e\<rparr>)"
  by (auto simp: log_event_def run_simps)

lemma get_run: "tidy w \<Longrightarrow> get_task i w = (Inr (map_option (loaded i) (abs_store w i)), w)"
  by (simp add: get_task_consistent tidy_consistent)

lemma save_run:
  assumes "tidy w" "abs_store w i = Some fb" "fm_id (t_fm t) = fm_id (fst fb)" "fm_status (t_fm t) = fm_status (fst fb)"
    "t_path t = Some (taskPath i (fm_status (fst fb)))"
  shows "\<exists>w'. save_task t w = (Inr (), w') \<and> updates w i (t_fm t, js_trim (t_body t)) w'"
  using write_task_tidy [OF assms(1-4)] assms(5) by (simp add: save_task_def path_or_def updates_def) blast

lemma transition_run:
  assumes "tidy w" "abs_store w i = Some fb" "isValidTransition (fm_status (fst fb)) s"
  shows "\<exists>w'. transition_task i s opts w = (Inr (transition_result i s opts (w_now w) fb), w') \<and>
    updates w i (transition_fm (fst fb) s (to_metadataPatch opts) (w_now w), js_trim (snd fb)) w'"
  using transition_tidy [OF assms] unfolding updates_def by blast

lemma local_at_save:
  assumes "consistent w" "abs_store w i = Some fb" "fm_id (t_fm t) = fm_id (fst fb)"
    "fm_status (t_fm t) = fm_status (fst fb)" "t_path t = Some (taskPath i (fm_status (fst fb)))" "i \<in> J"
  shows "local_at J w (save_task t)"
  using local_at_write [OF assms(1-4,6) refl] assms(5) by (simp add: save_task_def path_or_def)

text \<open>The same operations as rules of the calculus.\<close>

lemma yields_get [yields_simps]: "tidy w \<Longrightarrow> yields (get_task i) w Q = Q (map_option (loaded i) (abs_store w i)) w"
  by (simp add: yields_run [OF get_run])

lemma yields_save:
  assumes "tidy w" "abs_store w i = Some fb" "fm_id (t_fm t) = fm_id (fst fb)" "fm_status (t_fm t) = fm_status (fst fb)"
    "t_path t = Some (taskPath i (fm_status (fst fb)))" "\<And>w'. updates w i (t_fm t, js_trim (t_body t)) w' \<Longrightarrow> Q () w'"
  shows "yields (save_task t) w Q"
  using save_run [OF assms(1-5)] assms(6) by (auto simp: yields_def)

lemma yields_transition:
  assumes "tidy w" "abs_store w i = Some fb" "isValidTransition (fm_status (fst fb)) s"
    "\<And>w'. updates w i (transition_fm (fst fb) s (to_metadataPatch opts) (w_now w), js_trim (snd fb)) w' \<Longrightarrow>
      Q (transition_result i s opts (w_now w) fb) w'"
  shows "yields (transition_task i s opts) w Q"
  unfolding yields_def using transition_run [OF assms(1-3), of opts] assms(4) by blast

subsection \<open>Acquiring a lease, as an update\<close>

definition fresh_lease :: "string \<Rightarrow> int \<Rightarrow> int \<Rightarrow> task_lease" where
  "fresh_lease a ttl ts = \<lparr>tl_agent = a, tl_acquiredAt = ts, tl_expiresAt = ts + ttl, tl_renewCount = 0\<rparr>"

definition acquired :: "string \<Rightarrow> int \<Rightarrow> int \<Rightarrow> frontmatter \<Rightarrow> frontmatter" where
  "acquired a ttl ts fm = transition_fm (fm\<lparr>fm_lease := Some (fresh_lease a ttl ts), fm_updatedAt := ts\<rparr>) InProgress None ts"

lemma acquired_simps [simp]:
  "fm_id (acquired a ttl ts fm) = fm_id fm" "fm_status (acquired a ttl ts fm) = InProgress"
  "fm_lease (acquired a ttl ts fm) = Some (fresh_lease a ttl ts)" "fm_metadata (acquired a ttl ts fm) = fm_metadata fm"
  "fm_routing (acquired a ttl ts fm) = fm_routing fm"
  by (simp_all add: acquired_def transition_fm_def)

lemma tidy_runs [simp]: "tidy (w\<lparr>w_runs := r\<rparr>) = tidy w" "abs_store (w\<lparr>w_runs := r\<rparr>) = abs_store w"
  by (simp_all add: tidy_def dirs_follow_def)

lemma start_run_ok:
  assumes "tidy w" "abs_store w i = Some fb"
  shows "\<exists>h r. start_run i a ttl w = (Inr h, w\<lparr>w_runs := r\<rparr>)"
  using assms tidy_consistent [OF assms(1)]
  by (auto simp: start_run_def writeRunArtifact_def writeHeartbeat_def with_dir_run andThen_def bind_def mkdir_run_def
      change_run_def run_simps now_def Let_def)

lemma acquire_run:
  assumes "tidy w" "abs_store w i = Some fb" "fm_status (fst fb) = Ready" "\<not> leased_elsewhere (fm_lease (fst fb)) a (w_now w)"
    and ttl: "ttl = or_else (lo_ttlMs opts) DEFAULT_TTL"
  shows "\<exists>t w'. acquireLease i a opts w = (Inr t, w') \<and> t_fm t = acquired a ttl (w_now w) (fst fb) \<and>
    js_trim (t_body t) = js_trim (snd fb) \<and> t_path t = Some (taskPath i InProgress) \<and>
    updates w i (acquired a ttl (w_now w) (fst fb), js_trim (snd fb)) w'"
proof -
  let ?t = "with_lease (Some (fresh_lease a ttl (w_now w))) (w_now w) (loaded i fb)"
  let ?o = "no_opts\<lparr>to_agent := Some a\<rparr>"
  from write_task_tidy [OF assms(1,2), of ?t] obtain w1 where
    w1: "write_task (taskPath i (fm_status (fst fb))) ?t w = (Inr (), w1)" "tidy w1" "w_now w1 = w_now w"
    "abs_store w1 = (abs_store w)(i \<mapsto> (t_fm ?t, js_trim (snd fb)))" by auto
  have "isValidTransition (fm_status (fst (t_fm ?t, js_trim (snd fb)))) InProgress"
    using assms(3) by (simp add: isValidTransition_def)
  from transition_run [OF w1(2) _ this, of i ?o] w1(4) obtain w2 where
    w2: "transition_task i InProgress ?o w1 = (Inr (transition_result i InProgress ?o (w_now w) (t_fm ?t, js_trim (snd fb))), w2)"
    "updates w1 i (acquired a ttl (w_now w) (fst fb), js_trim (snd fb)) w2"
    using w1(3) by (auto simp: acquired_def with_lease_def no_opts_def)
  obtain w3 where w3: "when_m (or_else (lo_writeRunArtifacts opts) True)
      (bind (start_run i a (or_else (lo_heartbeatTtlMs opts) DEFAULT_HEARTBEAT_TTL)) (\<lambda>_. ret ())) w2 = (Inr (), w3)"
    "tidy w3" "abs_store w3 = abs_store w2" "w_now w3 = w_now w2"
    using start_run_ok [OF updatesD(1,4) [OF w2(2)], of a "or_else (lo_heartbeatTtlMs opts) DEFAULT_HEARTBEAT_TTL"]
      updatesD(1) [OF w2(2)]
    by (cases "or_else (lo_writeRunArtifacts opts) True") (auto simp: when_m_def run_simps bind_run)
  have up: "updates w i (acquired a ttl (w_now w) (fst fb), js_trim (snd fb)) w3"
    using w1 w2(2) w3 by (simp add: updates_def)
  have "acquireLease i a opts w = (Inr (transition_result i InProgress ?o (w_now w) (t_fm ?t, js_trim (snd fb))), w3)"
    using assms w1(1) w2(1) w3(1)
    by (simp add: acquireLease_def bind_def andThen_def get_run run_simps now_def Let_def fresh_lease_def)
  then show ?thesis using up by (auto simp: transition_result_def acquired_def with_lease_def no_opts_def)
qed

lemma yields_acquire:
  assumes "tidy w" "abs_store w i = Some fb" "fm_status (fst fb) = Ready" "\<not> leased_elsewhere (fm_lease (fst fb)) a (w_now w)"
    and ttl: "ttl = or_else (lo_ttlMs opts) DEFAULT_TTL"
    and Q: "\<And>t w'. t_fm t = acquired a ttl (w_now w) (fst fb) \<Longrightarrow> js_trim (t_body t) = js_trim (snd fb) \<Longrightarrow>
      t_path t = Some (taskPath i InProgress) \<Longrightarrow> updates w i (acquired a ttl (w_now w) (fst fb), js_trim (snd fb)) w' \<Longrightarrow> Q t w'"
  shows "yields (acquireLease i a opts) w Q"
  unfolding yields_def using acquire_run [OF assms(1-4) ttl] Q by blast

lemma with_metadata_simps [simp]:
  "fm_id (t_fm (with_metadata f t)) = fm_id (t_fm t)" "fm_status (t_fm (with_metadata f t)) = fm_status (t_fm t)"
  "t_body (with_metadata f t) = t_body t" "t_path (with_metadata f t) = t_path t"
  "fm_metadata (t_fm (with_metadata f t)) = f (fm_metadata (t_fm t))"
  by (simp_all add: with_metadata_def)

subsection \<open>A loop over listed tasks\<close>

text \<open>
  The loops over \<open>store.list()\<close>: each round works on the task as it was listed and changes at most this
  task. \<open>sel\<close> says which tasks are changed and \<open>h\<close> to what, \<open>g\<close> what the accumulator becomes. \<open>keep\<close> is
  whatever else of the world the rounds rely on and do not change.
\<close>

definition selected :: "(task \<Rightarrow> bool) \<Rightarrow> task list \<Rightarrow> string \<Rightarrow> bool" where
  "selected sel ts i \<longleftrightarrow> (\<exists>t \<in> set ts. fm_id (t_fm t) = i \<and> sel t)"

definition listed_in :: "world \<Rightarrow> task list \<Rightarrow> bool" where
  "listed_in w ts \<longleftrightarrow> (\<forall>t \<in> set ts. abs_store w (fm_id (t_fm t)) = Some (t_fm t, t_body t) \<and>
     t_path t = Some (taskPath (fm_id (t_fm t)) (fm_status (t_fm t))))"

lemma loaded_eta:
  "t_path t = Some (taskPath i (fm_status (t_fm t))) \<Longrightarrow> loaded i (t_fm t, t_body t) = t"
  by (simp add: loaded_def)

lemma fold_update:
  assumes step: "\<And>w t acc. tidy w \<Longrightarrow> w_now w = n \<Longrightarrow> keep w \<Longrightarrow> t \<in> set ts \<Longrightarrow>
      abs_store w (fm_id (t_fm t)) = Some (t_fm t, t_body t) \<Longrightarrow>
      yields (f t acc) w (\<lambda>acc' w'. acc' = g t acc \<and> keep w' \<and>
        (if sel t then updates w (fm_id (t_fm t)) (h t) w' else tidy w' \<and> w_now w' = n \<and> abs_store w' = abs_store w))"
    and "tidy w" "w_now w = n" "keep w" "listed_in w ts" "distinct (map (\<lambda>t. fm_id (t_fm t)) ts)"
  shows "yields (fold_m f ts acc) w (\<lambda>acc' w'. acc' = fold g ts acc \<and> tidy w' \<and> w_now w' = n \<and> keep w' \<and>
    (\<forall>t \<in> set ts. sel t \<longrightarrow> abs_store w' (fm_id (t_fm t)) = Some (h t)) \<and>
    (\<forall>i. \<not> selected sel ts i \<longrightarrow> abs_store w' i = abs_store w i))"
  using assms
proof (induction ts arbitrary: w acc)
  case Nil
  then show ?case by (simp add: yields_pure)
next
  case (Cons t ts)
  let ?i = "fm_id (t_fm t)"
  have other: "fm_id (t_fm u) \<noteq> ?i" if "u \<in> set ts" for u using distinct_map_head [OF Cons.prems(6) that] .
  have t: "abs_store w ?i = Some (t_fm t, t_body t)" using Cons.prems(5) by (simp add: listed_in_def)
  have one: "yields (f t acc) w (\<lambda>acc' w'. acc' = g t acc \<and> keep w' \<and>
      (if sel t then updates w ?i (h t) w' else tidy w' \<and> w_now w' = n \<and> abs_store w' = abs_store w))"
    by (rule Cons.prems(1) [OF Cons.prems(2-4) _ t]) simp
  show ?case
    unfolding fold_m.simps
  proof (rule yields_seq_bind [OF one])
    fix acc' w1
    assume w1: "acc' = g t acc \<and> keep w1 \<and>
      (if sel t then updates w ?i (h t) w1 else tidy w1 \<and> w_now w1 = n \<and> abs_store w1 = abs_store w)"
    then have t1: "tidy w1" "w_now w1 = n" "keep w1" using Cons.prems(3) by (auto simp: updates_def split: if_splits)
    have same: "abs_store w1 j = abs_store w j" if "j \<noteq> ?i \<or> \<not> sel t" for j
      using w1 that by (auto simp: updates_def split: if_splits)
    have "listed_in w1 ts" using Cons.prems(5) same other by (auto simp: listed_in_def)
    with Cons.IH [OF _ t1] Cons.prems(1,6) have
      "yields (fold_m f ts acc') w1 (\<lambda>acc' w'. acc' = fold g ts (g t acc) \<and> tidy w' \<and> w_now w' = n \<and> keep w' \<and>
        (\<forall>t \<in> set ts. sel t \<longrightarrow> abs_store w' (fm_id (t_fm t)) = Some (h t)) \<and>
        (\<forall>i. \<not> selected sel ts i \<longrightarrow> abs_store w' i = abs_store w1 i))" using w1 by simp
    then show "yields (fold_m f ts acc') w1 (\<lambda>acc' w'. acc' = fold g (t # ts) acc \<and> tidy w' \<and> w_now w' = n \<and> keep w' \<and>
        (\<forall>t \<in> set (t # ts). sel t \<longrightarrow> abs_store w' (fm_id (t_fm t)) = Some (h t)) \<and>
        (\<forall>i. \<not> selected sel (t # ts) i \<longrightarrow> abs_store w' i = abs_store w i))"
    proof (rule yields_mono, elim conjE, intro conjI)
      fix acc'' w2
      assume sel2: "\<forall>t \<in> set ts. sel t \<longrightarrow> abs_store w2 (fm_id (t_fm t)) = Some (h t)"
        and rest: "\<forall>i. \<not> selected sel ts i \<longrightarrow> abs_store w2 i = abs_store w1 i"
      have "\<not> selected sel ts ?i" using other by (auto simp: selected_def)
      then have "sel t \<Longrightarrow> abs_store w2 ?i = Some (h t)" using rest w1 by (simp add: updates_def)
      then show "\<forall>t \<in> set (t # ts). sel t \<longrightarrow> abs_store w2 (fm_id (t_fm t)) = Some (h t)" using sel2 by simp
      show "\<forall>i. \<not> selected sel (t # ts) i \<longrightarrow> abs_store w2 i = abs_store w i"
        using rest same by (auto simp: selected_def)
    qed simp_all
  qed
qed

subsection \<open>Example stores\<close>

lemma one_task_tidy [simp]: "tidy (one_task s)"
  using one_task_consistent [of s] by (simp add: tidy_def dirs_follow_def one_task_def)

text \<open>A store with the given tasks.\<close>

definition stored_as :: "frontmatter \<Rightarrow> task_path \<times> task_file" where
  "stored_as fm = (taskPath (fm_id fm) (fm_status fm), \<lparr>fi_content = Parsed fm ''body'', fi_mtime = 10\<rparr>)"

definition tasks_world :: "frontmatter list \<Rightarrow> world" where
  "tasks_world fms = world_of (map stored_as fms)"

lemma tasks_world_simps [simp]: "w_now (tasks_world fms) = 100" "w_dirs (tasks_world fms) = []"
  by (simp_all add: tasks_world_def)

lemma stored_keys: "distinct (map fm_id fms) \<Longrightarrow> distinct (map fst (map stored_as fms))"
  by (induction fms) (auto simp: stored_as_def)

lemma stored_file:
  "distinct (map fm_id fms) \<Longrightarrow> file_at (tasks_world fms) p = Some f \<longleftrightarrow> (p, f) \<in> stored_as ` set fms"
  using map_of_eq_Some_iff [OF stored_keys, of fms p f] by (simp add: tasks_world_def)

lemma distinct_ids: "distinct (map fm_id fms) \<Longrightarrow> fm \<in> set fms \<Longrightarrow> fm' \<in> set fms \<Longrightarrow> fm_id fm = fm_id fm' \<Longrightarrow> fm = fm'"
  by (simp add: distinct_map inj_on_def)

lemma tasks_world_consistent [simp]:
  assumes "distinct (map fm_id fms)"
  shows "consistent (tasks_world fms)"
proof -
  have one: "\<exists>fm \<in> set fms. fm_id fm = i \<and> fm_status fm = s \<and> f = snd (stored_as fm)"
    if "file_at (tasks_world fms) (taskPath i s) = Some f" for i s f
    using that by (auto simp: stored_file [OF assms] stored_as_def)
  have keys: "distinct (map fst (w_files (tasks_world fms)))"
    using stored_keys [OF assms] by (simp only: tasks_world_def world_of_simps)
  have "\<exists>fm b. fi_content f = Parsed fm b \<and> fm_id fm = i \<and> fm_status fm = s"
    if "file_at (tasks_world fms) (taskPath i s) = Some f" for i s f
    using one [OF that] by (auto simp: stored_as_def)
  moreover have "s = s'"
    if f: "file_at (tasks_world fms) (taskPath i s) \<noteq> None" "file_at (tasks_world fms) (taskPath i s') \<noteq> None" for i s s'
  proof -
    from f obtain fm fm' where "fm \<in> set fms" "fm_id fm = i" "fm_status fm = s" "fm' \<in> set fms" "fm_id fm' = i" "fm_status fm' = s'"
      using one by blast
    then show ?thesis using distinct_ids [OF assms, of fm fm'] by simp
  qed
  ultimately show ?thesis using keys unfolding consistent_def by blast
qed

lemma tasks_world_tidy [simp]: "distinct (map fm_id fms) \<Longrightarrow> tidy (tasks_world fms)"
  using tasks_world_consistent [of fms] by (simp add: tidy_def dirs_follow_def)

lemma tasks_world_abs [simp]:
  assumes "distinct (map fm_id fms)"
  shows "abs_store (tasks_world fms) i = map_option (\<lambda>fm. (fm, ''body'')) (find (\<lambda>fm. fm_id fm = i) fms)"
proof (cases "find (\<lambda>fm. fm_id fm = i) fms")
  case None
  have "file_at (tasks_world fms) (taskPath i s) = None" for s
  proof (rule ccontr)
    assume "file_at (tasks_world fms) (taskPath i s) \<noteq> None"
    then obtain fm where "fm \<in> set fms" "fm_id fm = i" by (auto simp: stored_file [OF assms] stored_as_def)
    then show False using None by (simp add: find_None_iff)
  qed
  then have "abs_store (tasks_world fms) i = None" using abs_store_None [OF tasks_world_consistent [OF assms]] by blast
  then show ?thesis by (simp add: None)
next
  case (Some fm)
  then have fm: "fm \<in> set fms" "fm_id fm = i" by (auto simp: find_Some_iff)
  then have "file_at (tasks_world fms) (taskPath i (fm_status fm)) = Some \<lparr>fi_content = Parsed fm ''body'', fi_mtime = 10\<rparr>"
    unfolding stored_file [OF assms] by (auto simp: stored_as_def image_iff)
  then have "abs_store (tasks_world fms) i = Some (fm, ''body'')"
    using fm by (simp add: abs_store_Some [OF tasks_world_consistent [OF assms]])
  then show ?thesis by (simp add: Some)
qed

end
