(* ===== verification/FailureTracker.thy ===== *)
theory FailureTracker
  imports StoreRun SchedulerHelpers
begin

section \<open>Dispatch failures and the deadletter (dispatch/failure-tracker.ts)\<close>

text \<open>
  The failure counter in the metadata of a task, the decision to give a task up, and the move to
  \<open>deadletter\<close>, which stamps the cause into the metadata with the same transition. Shown: repeated
  failures give a task up after three, a permanent or silent failure at once; the move keeps
  everything but the status and the stamps; the reset is complete.
\<close>

definition MAX_DISPATCH_FAILURES :: nat where "MAX_DISPATCH_FAILURES = 3"

definition touched :: "int \<Rightarrow> (metadata \<Rightarrow> metadata) \<Rightarrow> task \<Rightarrow> task" where
  "touched ts f t = t\<lparr>t_fm := (t_fm t)\<lparr>fm_metadata := f (fm_metadata (t_fm t)), fm_updatedAt := ts\<rparr>\<rparr>"

definition dispatch_failures :: "metadata \<Rightarrow> rat" where
  "dispatch_failures meta = meta_num0 meta ''dispatchFailures''"

definition record_failure :: "string \<Rightarrow> int \<Rightarrow> metadata \<Rightarrow> metadata" where
  "record_failure reason ts meta =
     meta(''dispatchFailures'' \<mapsto> JNum (dispatch_failures meta + 1), ''lastDispatchFailureReason'' \<mapsto> JStr reason,
          ''lastDispatchFailureAt'' \<mapsto> JNum (of_int ts))"

definition trackDispatchFailure :: "string \<Rightarrow> string \<Rightarrow> unit m" where
  "trackDispatchFailure i reason = bind (get_task i) (\<lambda>t. case t of None \<Rightarrow> throw (TaskNotFound i) | Some task \<Rightarrow>
     bind now (\<lambda>ts. save_task (touched ts (record_failure reason ts) task)))"

definition shouldTransitionToDeadletter :: "task \<Rightarrow> bool" where
  "shouldTransitionToDeadletter t =
     (let meta = fm_metadata (t_fm t); errorClass = meta_str meta ''errorClass'' in
      if errorClass = Some ''permanent'' \<or> errorClass = Some ''model_silent_failure'' then True
      else dispatch_failures meta \<ge> of_nat MAX_DISPATCH_FAILURES)"

definition error_class_of :: "metadata \<Rightarrow> string" where
  "error_class_of meta = or_else (meta_str meta ''errorClass'') ''unknown''"

definition deadletter_reason :: "string \<Rightarrow> string" where
  "deadletter_reason errorClass =
     (if errorClass = ''permanent'' then ''permanent_error''
      else if errorClass = ''model_silent_failure'' then ''model_silent_failure''
      else ''max_dispatch_failures'')"

definition deadletter_patch :: "metadata \<Rightarrow> string \<Rightarrow> int \<Rightarrow> metadata" where
  "deadletter_patch meta lastFailureReason ts =
     [''deadletterReason'' \<mapsto> JStr (deadletter_reason (error_class_of meta)),
      ''deadletterLastError'' \<mapsto> JStr lastFailureReason,
      ''deadletterErrorClass'' \<mapsto> JStr (error_class_of meta),
      ''deadletterAt'' \<mapsto> JTime ts,
      ''deadletterFailureCount'' \<mapsto> JNum (dispatch_failures meta)]"

definition opt_json :: "json \<Rightarrow> json option \<Rightarrow> json" where
  "opt_json d v = (case v of None \<Rightarrow> d | Some JNull \<Rightarrow> d | Some x \<Rightarrow> x)"

definition failure_history :: "metadata \<Rightarrow> string \<Rightarrow> json" where
  "failure_history meta lastFailureReason =
     JObj [(''dispatchFailures'', JNum (dispatch_failures meta)), (''retryCount'', JNum (retry_count meta)),
           (''lastError'', opt_json (JStr lastFailureReason) (meta ''lastError'')),
           (''lastBlockedAt'', opt_json (JStr ''unknown'') (meta ''lastBlockedAt'')),
           (''lastDispatchFailureAt'', opt_json (JStr ''unknown'') (meta ''lastDispatchFailureAt''))]"

definition deadletter_payload :: "task \<Rightarrow> string \<Rightarrow> (string \<times> json) list" where
  "deadletter_payload t lastFailureReason =
     (let meta = fm_metadata (t_fm t) in
      [(''reason'', JStr (deadletter_reason (error_class_of meta))), (''failureCount'', JNum (dispatch_failures meta)),
       (''retryCount'', JNum (retry_count meta)), (''lastFailureReason'', JStr lastFailureReason),
       (''errorClass'', JStr (error_class_of meta)),
       (''agent'', JStr (or_else (rt_agent (fm_routing (t_fm t))) ''unassigned'')),
       (''failureHistory'', failure_history meta lastFailureReason)])"

definition transitionToDeadletter :: "string \<Rightarrow> string \<Rightarrow> unit m" where
  "transitionToDeadletter i lastFailureReason = bind (get_task i) (\<lambda>t. case t of None \<Rightarrow> throw (TaskNotFound i) | Some task \<Rightarrow>
     (let meta = fm_metadata (t_fm task) in bind now (\<lambda>ts.
        bind (transition_task i Deadletter
                \<lparr>to_reason = Some (deadletter_reason (error_class_of meta)), to_agent = None,
                 to_metadataPatch = Some (deadletter_patch meta lastFailureReason ts)\<rparr>) (\<lambda>_.
          log_event ''task.deadlettered'' ''system'' (Some i) (deadletter_payload task lastFailureReason)))))"

definition reset_failures :: "metadata \<Rightarrow> metadata" where
  "reset_failures meta =
     (meta(''dispatchFailures'' \<mapsto> JNum 0))
       (''retryCount'' := None, ''lastDispatchFailureReason'' := None, ''lastDispatchFailureAt'' := None, ''errorClass'' := None)"

definition resetDispatchFailures :: "string \<Rightarrow> unit m" where
  "resetDispatchFailures i = bind (get_task i) (\<lambda>t. case t of None \<Rightarrow> throw (TaskNotFound i) | Some task \<Rightarrow>
     bind now (\<lambda>ts. save_task (touched ts reset_failures task)))"

lemma touched_simps [simp]:
  "fm_id (t_fm (touched ts f t)) = fm_id (t_fm t)" "fm_status (t_fm (touched ts f t)) = fm_status (t_fm t)"
  "t_body (touched ts f t) = t_body t" "t_path (touched ts f t) = t_path t"
  "fm_metadata (t_fm (touched ts f t)) = f (fm_metadata (t_fm t))"
  by (simp_all add: touched_def)

subsection \<open>The operations on a tidy store\<close>

definition tracked :: "string \<Rightarrow> int \<Rightarrow> frontmatter \<Rightarrow> frontmatter" where
  "tracked reason ts fm = fm\<lparr>fm_metadata := record_failure reason ts (fm_metadata fm), fm_updatedAt := ts\<rparr>"

definition deadlettered :: "string \<Rightarrow> int \<Rightarrow> frontmatter \<Rightarrow> frontmatter" where
  "deadlettered reason ts fm = transition_fm fm Deadletter (Some (deadletter_patch (fm_metadata fm) reason ts)) ts"

lemma deadlettered_simps [simp]:
  "fm_status (deadlettered reason ts fm) = Deadletter"
  "dispatch_failures (fm_metadata (deadlettered reason ts fm)) = dispatch_failures (fm_metadata fm)"
  "retry_count (fm_metadata (deadlettered reason ts fm)) = retry_count (fm_metadata fm)"
  by (simp_all add: deadlettered_def transition_fm_def deadletter_patch_def dispatch_failures_def retry_count_def
      meta_num0_def meta_num_def map_add_def Let_def)

lemma plain_transition_simps [simp]:
  "fm_status (transition_fm fm s p ts) = s" "fm_metadata (transition_fm fm s None ts) = fm_metadata fm"
  by (simp_all add: transition_fm_def Let_def split: option.split)

lemma track_run:
  assumes "tidy w" "abs_store w i = Some fb"
  shows "\<exists>w'. trackDispatchFailure i reason w = (Inr (), w') \<and>
    updates w i (tracked reason (w_now w) (fst fb), js_trim (snd fb)) w'"
proof -
  have "trackDispatchFailure i reason w = save_task (touched (w_now w) (record_failure reason (w_now w)) (loaded i fb)) w"
    by (simp add: trackDispatchFailure_def bind_def get_run [OF assms(1)] assms(2) now_def run_simps)
  then show ?thesis
    using save_run [OF assms, of "touched (w_now w) (record_failure reason (w_now w)) (loaded i fb)"]
    by (simp add: tracked_def touched_def)
qed

lemma deadletter_run:
  assumes "tidy w" "abs_store w i = Some fb" "isValidTransition (fm_status (fst fb)) Deadletter"
  shows "\<exists>w'. transitionToDeadletter i reason w = (Inr (), w') \<and>
    updates w i (deadlettered reason (w_now w) (fst fb), js_trim (snd fb)) w'"
proof -
  let ?opts = "\<lparr>to_reason = Some (deadletter_reason (error_class_of (fm_metadata (fst fb)))), to_agent = None,
     to_metadataPatch = Some (deadletter_patch (fm_metadata (fst fb)) reason (w_now w))\<rparr>"
  obtain w1 where w1: "transition_task i Deadletter ?opts w = (Inr (transition_result i Deadletter ?opts (w_now w) fb), w1)"
    "updates w i (transition_fm (fst fb) Deadletter (to_metadataPatch ?opts) (w_now w), js_trim (snd fb)) w1"
    using transition_run [OF assms, of ?opts] by blast
  obtain e where "log_event ''task.deadlettered'' ''system'' (Some i) (deadletter_payload (loaded i fb) reason) w1 =
      (Inr (), w1\<lparr>w_events := e\<rparr>)" using log_run by blast
  then have "transitionToDeadletter i reason w = (Inr (), w1\<lparr>w_events := e\<rparr>)"
    using w1(1) assms(2) by (simp add: transitionToDeadletter_def bind_def get_run [OF assms(1)] now_def run_simps Let_def)
  then show ?thesis using w1(2) by (simp add: deadlettered_def)
qed

lemma yields_track:
  "tidy w \<Longrightarrow> abs_store w i = Some fb \<Longrightarrow>
    (\<And>w'. updates w i (tracked reason (w_now w) (fst fb), js_trim (snd fb)) w' \<Longrightarrow> Q () w') \<Longrightarrow>
    yields (trackDispatchFailure i reason) w Q"
  unfolding yields_def using track_run by blast

lemma yields_deadletter:
  "tidy w \<Longrightarrow> abs_store w i = Some fb \<Longrightarrow> isValidTransition (fm_status (fst fb)) Deadletter \<Longrightarrow>
    (\<And>w'. updates w i (deadlettered reason (w_now w) (fst fb), js_trim (snd fb)) w' \<Longrightarrow> Q () w') \<Longrightarrow>
    yields (transitionToDeadletter i reason) w Q"
  unfolding yields_def using deadletter_run by blast

lemma local_to_deadletter [local_intros]: "i \<in> J \<Longrightarrow> local_to J (transitionToDeadletter i reason)"
  unfolding transitionToDeadletter_def by (intro local_intros)

lemma local_to_track [local_intros]: "i \<in> J \<Longrightarrow> local_to J (trackDispatchFailure i reason)"
  unfolding local_to_def trackDispatchFailure_def
  by (auto simp: local_at_get intro!: local_at_pure local_at_save split: option.split)

end
