(* ===== verification/HopContext.thy ===== *)
theory HopContext
  imports World
begin

section \<open>The context of a workflow hop (dispatch/dag-context-builder.ts)\<close>

text \<open>
  What an agent is told about its hop: the results and the artifact directories of the completed
  predecessors. Shown: exactly these, and that the directories do not depend on the task.
\<close>

record hop_context =
  hc_hopId :: string
  hc_description :: "string option"
  hc_role :: string
  hc_upstreamResults :: "(string \<times> json) list js_map"
  hc_artifactPaths :: "work_dir js_map"
  hc_autoAdvance :: bool

text \<open>
  \<open>join(dirname(task.path), "work", hopId)\<close>: the path of a task is \<open>tasks/<status>/<id>.md\<close>, so its
  directory is the one of the status.
\<close>

definition hop_work_dir :: "task_path \<Rightarrow> string \<Rightarrow> work_dir" where
  "hop_work_dir p hopId = (fst p, hopId)"

definition collect_upstream ::
  "hop_map \<Rightarrow> task_path \<Rightarrow> string \<Rightarrow> (string \<times> json) list js_map \<times> work_dir js_map \<Rightarrow> (string \<times> json) list js_map \<times> work_dir js_map" where
  "collect_upstream hops p predId acc =
     (case map_of hops predId of
        None \<Rightarrow> acc
      | Some predState \<Rightarrow>
          if hs_status predState = HComplete
          then ((case hs_result predState of None \<Rightarrow> fst acc | Some r \<Rightarrow> AList.update predId r (fst acc)),
                AList.update predId (hop_work_dir p predId) (snd acc))
          else acc)"

definition buildHopContext :: "task \<Rightarrow> string \<Rightarrow> error + hop_context" where
  "buildHopContext t hopId = (case t_path t of
     None \<Rightarrow> Inl (NoPath ''task.path required for artifact path resolution'')
   | Some p \<Rightarrow> (case fm_workflow (t_fm t) of
       None \<Rightarrow> Inl (OtherError ''TypeError'')
     | Some workflow \<Rightarrow> (case find_hop (tw_definition workflow) hopId of
         None \<Rightarrow> Inl (HopNotFound hopId (wd_name (tw_definition workflow)) (map h_id (wd_hops (tw_definition workflow))))
       | Some hop \<Rightarrow>
           (let (results, paths) = fold (collect_upstream (ws_hops (tw_state workflow)) p) (h_dependsOn hop) ([], [])
            in Inr \<lparr>hc_hopId = hopId, hc_description = h_description hop, hc_role = h_role hop,
                    hc_upstreamResults = results, hc_artifactPaths = paths, hc_autoAdvance = h_autoAdvance hop\<rparr>))))"

definition completed_in :: "hop_map \<Rightarrow> string \<Rightarrow> hop_state option" where
  "completed_in hops i = (case map_of hops i of None \<Rightarrow> None | Some s \<Rightarrow> if hs_status s = HComplete then Some s else None)"

lemma collect_upstream_fold:
  "map_of (fst (fold (collect_upstream hops p) ds acc)) i =
     (case (if i \<in> set ds then completed_in hops i else None) of
        None \<Rightarrow> map_of (fst acc) i
      | Some s \<Rightarrow> (case hs_result s of None \<Rightarrow> map_of (fst acc) i | Some r \<Rightarrow> Some r))"
  "map_of (snd (fold (collect_upstream hops p) ds acc)) i =
     (case (if i \<in> set ds then completed_in hops i else None) of
        None \<Rightarrow> map_of (snd acc) i
      | Some s \<Rightarrow> Some (hop_work_dir p i))"
  by (induction ds arbitrary: acc)
    (auto simp: collect_upstream_def completed_in_def update_conv' split: option.splits)

text \<open>
  Fact: the context of a hop. It exists for every hop of the definition; the upstream results are
  those of the completed predecessors that have one, and the artifact directories are those of the
  completed predecessors. A directory is determined by the status of the task and the hop alone, so
  tasks that are in the same status share the directories of hops with the same name.
\<close>

theorem hop_context_exact:
  assumes "t_path t = Some p" "fm_workflow (t_fm t) = Some flow" "find_hop (tw_definition flow) hopId = Some hop"
  shows "\<exists>c. buildHopContext t hopId = Inr c \<and> hc_role c = h_role hop \<and>
    (\<forall>i r. map_of (hc_upstreamResults c) i = Some r \<longleftrightarrow>
       (i \<in> set (h_dependsOn hop) \<and> (\<exists>s. completed_in (ws_hops (tw_state flow)) i = Some s \<and> hs_result s = Some r))) \<and>
    (\<forall>i d. map_of (hc_artifactPaths c) i = Some d \<longleftrightarrow>
       (i \<in> set (h_dependsOn hop) \<and> completed_in (ws_hops (tw_state flow)) i \<noteq> None \<and> d = (fst p, i)))"
proof -
  let ?hops = "ws_hops (tw_state flow)"
  let ?r = "fold (collect_upstream ?hops p) (h_dependsOn hop) ([], [])"
  let ?c = "\<lparr>hc_hopId = hopId, hc_description = h_description hop, hc_role = h_role hop,
    hc_upstreamResults = fst ?r, hc_artifactPaths = snd ?r, hc_autoAdvance = h_autoAdvance hop\<rparr>"
  have "buildHopContext t hopId = Inr ?c" using assms by (simp add: buildHopContext_def case_prod_unfold Let_def)
  moreover have "map_of (fst ?r) i = Some r \<longleftrightarrow>
      (i \<in> set (h_dependsOn hop) \<and> (\<exists>s. completed_in ?hops i = Some s \<and> hs_result s = Some r))" for i r
    by (simp add: collect_upstream_fold split: option.splits)
  moreover have "map_of (snd ?r) i = Some d \<longleftrightarrow>
      (i \<in> set (h_dependsOn hop) \<and> completed_in ?hops i \<noteq> None \<and> d = (fst p, i))" for i d
    by (auto simp: collect_upstream_fold hop_work_dir_def split: option.splits)
  ultimately show ?thesis by (intro exI [of _ ?c]) simp
qed

end
