(* ===== verification/AssignExecutor.thy ===== *)
theory AssignExecutor
  imports FailureTracker HopContext
begin

section \<open>Executing an assignment (dispatch/assign-executor.ts, assign-helpers.ts, trace-helpers.ts, callback-helpers.ts)\<close>

text \<open>
  The dispatch of one task: checks, lease, spawn, and the handling of every outcome of the spawn;
  and \<open>handleRunComplete\<close>, the callback at the end of the agent's run. The gateway adapter is the
  record \<open>executor\<close>; trace capture and callback delivery, other components, and the renderings of
  numbers and errors are the record \<open>hooks\<close>. The optional lock around the dispatch is \<open>TaskLock\<close>.
\<close>

record task_context =
  cx_taskId :: string
  cx_taskPath :: task_path
  cx_agent :: string
  cx_priority :: task_priority
  cx_routing :: task_routing
  cx_projectId :: "string option"
  cx_hopContext :: "hop_context option"
  cx_timeoutMs :: "rat option"

text \<open>A positive \<open>timeoutMs\<close> of the task overrides the configured one.\<close>

definition task_timeout :: "metadata \<Rightarrow> rat option" where
  "task_timeout m = (case meta_num m ''timeoutMs'' of None \<Rightarrow> None | Some n \<Rightarrow> if n > 0 then Some n else None)"

record spawn_result =
  sr_success :: bool
  sr_sessionId :: "string option"
  sr_error :: "string option"

record executor =
  ex_spawn :: "task_context \<Rightarrow> rat \<Rightarrow> string \<Rightarrow> spawn_result m"
  ex_forceComplete :: "string \<Rightarrow> unit m"

record hooks =
  hk_captureTrace :: "string \<Rightarrow> string \<Rightarrow> string \<Rightarrow> int \<Rightarrow> bool \<Rightarrow> unit m"
  hk_deliverCallbacks :: "string \<Rightarrow> unit m"
  hk_deliverAllGranularity :: "string \<Rightarrow> unit m"
  hk_toFixed1 :: "rat \<Rightarrow> string"
  hk_message :: "error \<Rightarrow> string"
  hk_stack :: "error \<Rightarrow> string"

record exec_config =
  ec_dryRun :: bool
  ec_defaultLeaseTtlMs :: int
  ec_executor :: "executor option"
  ec_spawnTimeoutMs :: "rat option"
  ec_maxDispatchRetries :: "nat option"
  ec_projectId :: "string option"

text \<open>A log call whose failure is only reported.\<close>

definition best_effort :: "unit m \<Rightarrow> unit m" where
  "best_effort f = catch f (\<lambda>_. ret ())"

definition project_key :: "exec_config \<Rightarrow> string" where
  "project_key cfg = or_else (ec_projectId cfg) ''null''"

text \<open>\<open>`${x}`\<close> of an optional string.\<close>

definition shown :: "string option \<Rightarrow> string" where
  "shown s = or_else s ''undefined''"

text \<open>Assign actions always carry an agent.\<close>

definition agent_of :: "scheduler_action \<Rightarrow> string" where
  "agent_of a = or_else (ac_agent a) []"

subsection \<open>Traces and callbacks\<close>

definition captureTraceSafely :: "hooks \<Rightarrow> string \<Rightarrow> string \<Rightarrow> string option \<Rightarrow> int \<Rightarrow> task option \<Rightarrow> unit m" where
  "captureTraceSafely hk i sessionId agentId durationMs currentTask =
     (if sessionId = [] \<or> \<not> truthy_str agentId then ret ()
      else best_effort
        (hk_captureTrace hk i sessionId (the agentId) durationMs
           (case currentTask of None \<Rightarrow> False | Some t \<Rightarrow> fm_metadata (t_fm t) ''debug'' = Some (JBool True))))"

definition deliverAllCallbacksSafely :: "hooks \<Rightarrow> string \<Rightarrow> unit m" where
  "deliverAllCallbacksSafely hk i =
     andThen (best_effort (hk_deliverCallbacks hk i)) (best_effort (hk_deliverAllGranularity hk i))"

subsection \<open>The end of a run\<close>

definition silent_failure :: "run_outcome \<Rightarrow> bool" where
  "silent_failure outcome = (ro_success outcome \<and> isLikelyModelSilentFailure outcome)"

definition secs :: "hooks \<Rightarrow> run_outcome \<Rightarrow> string" where
  "secs hk outcome = hk_toFixed1 hk (of_int (ro_durationMs outcome) / 1000)"

definition enforcement_reason :: "hooks \<Rightarrow> string \<Rightarrow> run_outcome \<Rightarrow> string" where
  "enforcement_reason hk i outcome =
     (if silent_failure outcome then
        ''Likely model silent failure: agent run completed cleanly in '' @ secs hk outcome @
        ''s without invoking aof_task_complete. The model probably returned an empty completion '' @
        ''(stop_reason=\"stop\", zero content); OpenClaw's embedded runner does not propagate this as an error. '' @
        ''Deadlettered on first occurrence '' @ em_dash @ '' retrying a silently-failing model is wasted work.''
      else if ro_success outcome then
        ''Task failed: agent exited without calling aof_task_complete. Session lasted '' @ secs hk outcome @
        ''s. Run `aof trace '' @ i @ ''` for session details.''
      else
        (case ro_error outcome of
           Some (kind, message) \<Rightarrow> ''Agent error: '' @ kind @ '': '' @ message
         | None \<Rightarrow> if ro_aborted outcome then ''Agent run was aborted'' else ''Agent run failed (unknown reason)''))"

definition outcome_class :: "run_outcome \<Rightarrow> string option" where
  "outcome_class outcome =
     (if silent_failure outcome then Some ''model_silent_failure''
      else map_option (\<lambda>(kind, message). error_class_str (classifySpawnError message)) (ro_error outcome))"

definition session_file :: "string option \<Rightarrow> run_outcome \<Rightarrow> string" where
  "session_file agent outcome = ''~/.openclaw/agents/'' @ shown agent @ ''/sessions/'' @ ro_sessionId outcome @ ''.jsonl''"

definition investigation :: "string option \<Rightarrow> run_outcome \<Rightarrow> json" where
  "investigation agent outcome =
     JObj [(''openclawErrLog'', JStr ''~/.openclaw/logs/gateway.err.log''),
           (''grepHint'', JStr (''incomplete turn detected.*sessionId='' @ ro_sessionId outcome)),
           (''expectedSessionFile'', JStr (session_file agent outcome))]"

definition set_opt :: "string \<Rightarrow> json option \<Rightarrow> metadata \<Rightarrow> metadata" where
  "set_opt k v m = (case v of None \<Rightarrow> m | Some x \<Rightarrow> m(k \<mapsto> x))"

definition enforce_meta :: "hooks \<Rightarrow> scheduler_action \<Rightarrow> run_outcome \<Rightarrow> int \<Rightarrow> metadata \<Rightarrow> metadata" where
  "enforce_meta hk action outcome ts meta =
     set_opt ''silentFailureExpectedSessionFile''
         (if silent_failure outcome then Some (JStr (session_file (ac_agent action) outcome)) else None)
       (set_opt ''errorClass'' (map_option JStr (outcome_class outcome))
         (meta(''enforcementReason'' \<mapsto> JStr (enforcement_reason hk (ac_taskId action) outcome), ''enforcementAt'' \<mapsto> JTime ts)))"

definition enforce_completion :: "hooks \<Rightarrow> scheduler_action \<Rightarrow> run_outcome \<Rightarrow> unit m" where
  "enforce_completion hk action outcome =
     (let i = ac_taskId action; reason = enforcement_reason hk i outcome in
      andThen
        (bind (get_task i) (\<lambda>t. case t of
           None \<Rightarrow> ret ()
         | Some task \<Rightarrow> bind now (\<lambda>ts. save_task (with_metadata (enforce_meta hk action outcome ts) task))))
        (andThen (trackDispatchFailure i reason)
          (bind (get_task i) (\<lambda>updated.
             if (case updated of None \<Rightarrow> False | Some u \<Rightarrow> shouldTransitionToDeadletter u)
             then transitionToDeadletter i reason
             else bind (transition_task i Blocked (reason_opts reason)) (\<lambda>_. ret ())))))"

definition log_enforcement :: "scheduler_action \<Rightarrow> string \<Rightarrow> run_outcome \<Rightarrow> unit m" where
  "log_enforcement action correlationId outcome = best_effort
     (bind (get_task (ac_taskId action)) (\<lambda>updated.
        log_event ''completion.enforcement'' ''scheduler'' (Some (ac_taskId action))
          (opt_str ''agent'' (ac_agent action) @
           [(''sessionId'', JStr (ro_sessionId outcome)), (''durationMs'', JNum (of_int (ro_durationMs outcome))),
            (''correlationId'', JStr correlationId), (''reason'', JStr ''agent_exited_without_completion'')] @
           (case updated of None \<Rightarrow> []
            | Some u \<Rightarrow> (case fm_metadata (t_fm u) ''dispatchFailures'' of None \<Rightarrow> [] | Some n \<Rightarrow> [(''dispatchFailures'', n)])) @
           opt_str ''errorClass'' (outcome_class outcome))))"

definition log_silent :: "scheduler_action \<Rightarrow> string \<Rightarrow> run_outcome \<Rightarrow> unit m" where
  "log_silent action correlationId outcome = best_effort
     (log_event ''silent_model_failure'' ''scheduler'' (Some (ac_taskId action))
        (opt_str ''agent'' (ac_agent action) @
         [(''sessionId'', JStr (ro_sessionId outcome)), (''durationMs'', JNum (of_int (ro_durationMs outcome))),
          (''correlationId'', JStr correlationId), (''investigation'', investigation (ac_agent action) outcome),
          (''phase'', JStr ''49E-7'')]))"

definition handleRunComplete ::
  "hooks \<Rightarrow> exec_config \<Rightarrow> string \<Rightarrow> scheduler_action \<Rightarrow> run_outcome \<Rightarrow> unit m" where
  "handleRunComplete hk cfg correlationId action outcome =
     (let i = ac_taskId action;
          trace = captureTraceSafely hk i (ro_sessionId outcome) (ac_agent action) (ro_durationMs outcome) in
      andThen (stopLeaseRenewal (project_key cfg) i)
        (bind (get_task i) (\<lambda>t. case t of
           None \<Rightarrow> ret ()
         | Some currentTask \<Rightarrow>
             if fm_status (t_fm currentTask) \<noteq> InProgress
             then andThen (trace (Some currentTask)) (deliverAllCallbacksSafely hk i)
             else
               andThen (best_effort (enforce_completion hk action outcome))
               (andThen (log_enforcement action correlationId outcome)
               (andThen (when_m (silent_failure outcome) (log_silent action correlationId outcome))
               (bind (get_task i) (\<lambda>taskForTrace.
                  andThen (trace taskForTrace) (deliverAllCallbacksSafely hk i))))))))"

subsection \<open>Dispatching\<close>

definition context_of :: "exec_config \<Rightarrow> scheduler_action \<Rightarrow> task \<Rightarrow> task_context" where
  "context_of cfg action leased =
     \<lparr>cx_taskId = ac_taskId action, cx_taskPath = path_or leased (taskPath (ac_taskId action) InProgress),
      cx_agent = agent_of action, cx_priority = fm_priority (t_fm leased), cx_routing = fm_routing (t_fm leased),
      cx_projectId = ec_projectId cfg,
      cx_hopContext = None, cx_timeoutMs = task_timeout (fm_metadata (t_fm leased))\<rparr>"

definition log_dispatch :: "string \<Rightarrow> string \<Rightarrow> (string \<times> json) list \<Rightarrow> unit m" where
  "log_dispatch ty i payload = best_effort (log_event ty ''scheduler'' (Some i) payload)"

definition update_task_metadata :: "string \<Rightarrow> (metadata \<Rightarrow> metadata) \<Rightarrow> unit m" where
  "update_task_metadata i f = bind (get_task i) (\<lambda>t. case t of
     None \<Rightarrow> ret () | Some task \<Rightarrow> save_task (with_metadata f task))"

definition spawn_succeeded :: "exec_config \<Rightarrow> string \<Rightarrow> scheduler_action \<Rightarrow> spawn_result \<Rightarrow> (bool \<times> bool) m" where
  "spawn_succeeded cfg correlationId action result =
     (let i = ac_taskId action; session = opt_str ''sessionId'' (sr_sessionId result) in
      andThen (case sr_sessionId result of
                 None \<Rightarrow> ret ()
               | Some s \<Rightarrow> if s = [] then ret () else update_task_metadata i (\<lambda>m. m(''sessionId'' \<mapsto> JStr s)))
      (andThen (log_dispatch ''dispatch.matched'' i
                  (opt_str ''agent'' (ac_agent action) @ session @ [(''correlationId'', JStr correlationId)]))
      (andThen (log_dispatch ''action.completed'' i
                  ([(''action'', JStr ''assign''), (''success'', JBool True)] @ session @ [(''correlationId'', JStr correlationId)]))
      (andThen (startLeaseRenewal (project_key cfg) i)
      (bind (get_task i) (\<lambda>dispatched.
         andThen (case dispatched of None \<Rightarrow> ret () | Some d \<Rightarrow> updateThrottleState (rt_team (fm_routing (t_fm d))))
           (ret (True, False))))))))"

definition hold_task :: "string \<Rightarrow> scheduler_action \<Rightarrow> (bool \<times> bool) m" where
  "hold_task correlationId action =
     (let i = ac_taskId action in
      andThen (best_effort (bind (releaseLease i (agent_of action)) (\<lambda>_. ret ())))
      (andThen (log_dispatch ''dispatch.held'' i
                  ([(''reason'', JStr ''no-plugin-attached'')] @ opt_str ''agent'' (ac_agent action) @
                   [(''correlationId'', JStr correlationId)]))
        (ret (False, False))))"

definition spawn_failed_meta :: "rat \<Rightarrow> int \<Rightarrow> string option \<Rightarrow> metadata \<Rightarrow> metadata" where
  "spawn_failed_meta retryCount ts err meta =
     (meta(''retryCount'' \<mapsto> JNum retryCount, ''lastBlockedAt'' \<mapsto> JTime ts,
           ''blockReason'' \<mapsto> JStr (''spawn_failed: '' @ shown err),
           ''errorClass'' \<mapsto> JStr (error_class_str (classifySpawnError (or_else err ''unknown'')))))
       (''lastError'' := map_option JStr err)"

definition spawn_failed :: "string \<Rightarrow> scheduler_action \<Rightarrow> string option \<Rightarrow> (bool \<times> bool) m" where
  "spawn_failed correlationId action err =
     (let i = ac_taskId action; error = opt_str ''error'' err @ opt_str ''errorMessage'' err in
      bind (get_task i) (\<lambda>currentTask.
      andThen (case currentTask of
                 None \<Rightarrow> ret ()
               | Some t \<Rightarrow> bind now (\<lambda>ts.
                   save_task (with_metadata (\<lambda>m. spawn_failed_meta (retry_count m + 1) ts err m) t)))
      (andThen (if classifySpawnError (or_else err ''unknown'') = Permanent
                then transitionToDeadletter i (or_else err ''permanent spawn error'')
                else bind (transition_task i Blocked (reason_opts (''spawn_failed: '' @ shown err))) (\<lambda>_. ret ()))
      (andThen (log_dispatch ''dispatch.error'' i
                  (opt_str ''agent'' (ac_agent action) @ error @ [(''correlationId'', JStr correlationId)]))
      (andThen (log_dispatch ''action.completed'' i
                  ([(''action'', JStr ''assign''), (''success'', JBool False)] @ error @ [(''correlationId'', JStr correlationId)]))
        (ret (False, True)))))))"

definition after_spawn :: "exec_config \<Rightarrow> string \<Rightarrow> scheduler_action \<Rightarrow> spawn_result \<Rightarrow> (bool \<times> bool) m" where
  "after_spawn cfg correlationId action result =
     (if sr_success result then spawn_succeeded cfg correlationId action result
      else if sr_error result = Some ''no-plugin-attached'' then hold_task correlationId action
      else spawn_failed correlationId action (sr_error result))"

definition dispatch_task :: "exec_config \<Rightarrow> executor \<Rightarrow> string \<Rightarrow> scheduler_action \<Rightarrow> (bool \<times> bool) m" where
  "dispatch_task cfg ex correlationId action =
     (let i = ac_taskId action in
      andThen (log_dispatch ''action.started'' i
                 ([(''action'', JStr ''assign'')] @ opt_str ''agent'' (ac_agent action) @ [(''correlationId'', JStr correlationId)]))
      (bind (acquireLease i (agent_of action) (default_lease_opts\<lparr>lo_ttlMs := Some (ec_defaultLeaseTtlMs cfg)\<rparr>)) (\<lambda>leased0.
         (let leased = with_metadata (\<lambda>m. m(''correlationId'' \<mapsto> JStr correlationId)) leased0;
              context = context_of cfg action leased
          in andThen (save_task leased)
               (bind (ex_spawn ex context (or_else (cx_timeoutMs context) (or_else (ec_spawnTimeoutMs cfg) 300000)) correlationId)
                  (after_spawn cfg correlationId action))))))"

definition assign_body ::
  "exec_config \<Rightarrow> executor \<Rightarrow> string \<Rightarrow> scheduler_action \<Rightarrow> task list \<Rightarrow> (bool \<times> bool) m" where
  "assign_body cfg ex correlationId action allTasks = bind (get_task (ac_taskId action)) (\<lambda>latest. case latest of
     None \<Rightarrow> ret (False, False)
   | Some latest \<Rightarrow>
       if fm_status (t_fm latest) \<noteq> Ready then ret (False, False)
       else bind now (\<lambda>ts.
         if isLeaseActive (fm_lease (t_fm latest)) ts then ret (False, False)
         else if find_task allTasks (ac_taskId action) = None then ret (False, False)
         else dispatch_task cfg ex correlationId action))"

text \<open>Nothing after \<open>executed = true\<close> throws, so the handler always reports \<open>executed: false\<close>.\<close>

definition assign_threw :: "hooks \<Rightarrow> string \<Rightarrow> scheduler_action \<Rightarrow> error \<Rightarrow> (bool \<times> bool) m" where
  "assign_threw hk correlationId action e =
     (let i = ac_taskId action;
          error = [(''error'', JStr (hk_message hk e)), (''errorMessage'', JStr (hk_message hk e)),
                   (''errorStack'', JStr (hk_stack hk e)), (''correlationId'', JStr correlationId)]
      in andThen (log_dispatch ''dispatch.error'' i error)
         (andThen (log_dispatch ''action.completed'' i ([(''action'', JStr ''assign''), (''success'', JBool False)] @ error))
           (ret (False, True))))"

definition executeAssignAction ::
  "hooks \<Rightarrow> exec_config \<Rightarrow> string \<Rightarrow> scheduler_action \<Rightarrow> task list \<Rightarrow> (bool \<times> bool) m" where
  "executeAssignAction hk cfg correlationId action allTasks =
     (case ec_executor cfg of
        None \<Rightarrow> ret (False, False)
      | Some ex \<Rightarrow> catch (assign_body cfg ex correlationId action allTasks) (assign_threw hk correlationId action))"

end
