(* ===== verification/AssignProps.thy ===== *)
theory AssignProps
  imports AssignExecutor TaskDispatcher
begin

section \<open>What becomes of a dispatched task\<close>

text \<open>
  Every outcome of a dispatch and of a run, described exactly on a tidy store: an executed dispatch
  leaves the task in progress under a fresh lease with a renewal timer, a missing plugin puts it back
  untouched, an error counts as a retry and blocks it or, when permanent, gives it up; a run that ends
  without completion counts as a failure, and the third gives the task up.
\<close>

lemma updates_refl: "tidy w \<Longrightarrow> abs_store w i = Some fb \<Longrightarrow> updates w i fb w"
  by (simp add: updates_def fun_upd_idem)

lemma updates_then: "updates w i fb w1 \<Longrightarrow> (\<And>w2. updates w i fc w2 \<Longrightarrow> Q w2) \<Longrightarrow> updates w1 i fc w2 \<Longrightarrow> Q w2"
  using updates_trans by blast

lemma yields_best_effort: "yields f w Q \<Longrightarrow> yields (best_effort f) w Q"
  by (simp add: best_effort_def yields_catch)

lemma yields_log_dispatch: "(\<And>e. Q () (w\<lparr>w_events := e\<rparr>)) \<Longrightarrow> yields (log_dispatch ty i p) w Q"
  unfolding log_dispatch_def by (intro yields_best_effort yields_log)

lemma yields_release:
  assumes "tidy w" "abs_store w i = Some (fm, b)" "fm_status fm = InProgress" "fm_lease fm = Some l" "tl_agent l = a"
    "\<And>t w'. updates w i (transition_fm fm Ready None (w_now w), js_trim b) w' \<Longrightarrow> Q t w'"
  shows "yields (releaseLease i a) w Q"
proof -
  have "isValidTransition (fm_status (fst (fm, b))) Ready" using assms(3) by (simp add: isValidTransition_def)
  then show ?thesis
    using assms by (simp add: releaseLease_def yields_simps held_lease_def)
      (rule yields_transition [OF assms(1,2)], simp_all add: no_opts_def)
qed

lemma updates_abs: "updates w i fb w' \<Longrightarrow> abs_store w' i = Some fb" "updates w i fb w' \<Longrightarrow> tidy w'"
  "updates w i fb w' \<Longrightarrow> w_now w' = w_now w"
  by (simp_all add: updates_def)

subsection \<open>The three ends of a spawn\<close>

lemma spawn_succeeded_yields:
  assumes "tidy w" "abs_store w (ac_taskId action) = Some (fm, b)" "js_trim b = b"
  shows "yields (spawn_succeeded cfg corr action r) w (\<lambda>ef w'. ef = (True, False) \<and>
    (\<exists>m. updates w (ac_taskId action) (fm\<lparr>fm_metadata := m\<rparr>, b) w') \<and>
    leaseRenewalKey (project_key cfg) (ac_taskId action) \<in> set (w_renewals w') \<and> w_lastDispatchAt w' = w_now w)"
proof -
  let ?i = "ac_taskId action"
  have rest: "yields (andThen (log_dispatch ''dispatch.matched'' ?i p) (andThen (log_dispatch ''action.completed'' ?i q)
      (andThen (startLeaseRenewal (project_key cfg) ?i) (bind (get_task ?i) (\<lambda>dispatched.
         andThen (case dispatched of None \<Rightarrow> ret () | Some d \<Rightarrow> updateThrottleState (rt_team (fm_routing (t_fm d))))
           (ret (True, False))))))) w1 (\<lambda>ef w'. ef = (True, False) \<and> (\<exists>m. updates w ?i (fm\<lparr>fm_metadata := m\<rparr>, b) w') \<and>
      leaseRenewalKey (project_key cfg) ?i \<in> set (w_renewals w') \<and> w_lastDispatchAt w' = w_now w)"
    if "updates w ?i (fm\<lparr>fm_metadata := m\<rparr>, b) w1" for w1 m p q
  proof -
    note u = updates_abs [OF that]
    show ?thesis
      unfolding yields_simps
      by (intro yields_log_dispatch)
        (use that u in \<open>auto simp: startLeaseRenewal_def updateThrottleState_def yields_simps Let_def split: option.split\<close>)
  qed
  have stored: "yields (case sr_sessionId r of None \<Rightarrow> ret ()
      | Some s \<Rightarrow> if s = [] then ret () else update_task_metadata ?i (\<lambda>m. m(''sessionId'' \<mapsto> JStr s))) w
      (\<lambda>_ w1. \<exists>m. updates w ?i (fm\<lparr>fm_metadata := m\<rparr>, b) w1)"
  proof -
    have same: "\<exists>m. updates w ?i (fm\<lparr>fm_metadata := m\<rparr>, b) w"
      using updates_refl [OF assms(1,2)] by (intro exI [of _ "fm_metadata fm"]) simp
    have "yields (update_task_metadata ?i f) w (\<lambda>_ w1. \<exists>m. updates w ?i (fm\<lparr>fm_metadata := m\<rparr>, b) w1)" for f
      unfolding update_task_metadata_def yields_bind yields_get [OF assms(1)] assms(2) option.map option.case
      by (rule yields_save [OF assms(1,2)]) (auto simp: assms(3) with_metadata_def)
    then show ?thesis using same by (simp add: yields_simps split: option.split)
  qed
  show ?thesis
    unfolding spawn_succeeded_def Let_def
    by (rule yields_seq [OF stored]) (elim exE, rule rest)
qed

lemma hold_task_yields:
  assumes "tidy w" "abs_store w (ac_taskId action) = Some (fm, b)" "js_trim b = b" "fm_status fm = InProgress"
    "fm_lease fm = Some l" "tl_agent l = agent_of action"
  shows "yields (hold_task corr action) w (\<lambda>ef w'. ef = (False, False) \<and>
    updates w (ac_taskId action) (transition_fm fm Ready None (w_now w), b) w')"
proof -
  have "yields (bind (releaseLease (ac_taskId action) (agent_of action)) (\<lambda>_. ret ())) w
      (\<lambda>_ w'. updates w (ac_taskId action) (transition_fm fm Ready None (w_now w), b) w')"
    unfolding yields_simps by (rule yields_release [OF assms(1,2,4,5,6)]) (simp add: assms(3))
  from yields_best_effort [OF this] show ?thesis
    unfolding hold_task_def Let_def
    by (rule yields_seq) (auto simp: yields_simps intro!: yields_log_dispatch)
qed

lemma spawn_failed_yields:
  assumes "tidy w" "abs_store w (ac_taskId action) = Some (fm, b)" "js_trim b = b" "fm_status fm = InProgress"
  shows "yields (spawn_failed corr action err) w (\<lambda>ef w'. ef = (False, True) \<and> (\<exists>fm'. updates w (ac_taskId action) (fm', b) w' \<and>
    fm_status fm' = (if classifySpawnError (or_else err ''unknown'') = Permanent then Deadletter else Blocked) \<and>
    retry_count (fm_metadata fm') = retry_count (fm_metadata fm) + 1))"
proof -
  let ?i = "ac_taskId action" and ?ts = "w_now w"
  let ?m = "spawn_failed_meta (retry_count (fm_metadata fm) + 1) ?ts err (fm_metadata fm)"
  let ?fm = "fm\<lparr>fm_metadata := ?m\<rparr>"
  have m: "retry_count ?m = retry_count (fm_metadata fm) + 1"
    by (simp add: spawn_failed_meta_def retry_count_def meta_num0_def meta_num_def)
  have saved: "yields (bind now (\<lambda>ts. save_task (with_metadata (\<lambda>m. spawn_failed_meta (retry_count m + 1) ts err m) (loaded ?i (fm, b))))) w
      (\<lambda>_ w1. updates w ?i (?fm, b) w1)"
    unfolding yields_simps by (rule yields_save [OF assms(1,2)]) (auto simp: assms(3) with_metadata_def)
  have moved: "yields (if classifySpawnError (or_else err ''unknown'') = Permanent
        then transitionToDeadletter ?i (or_else err ''permanent spawn error'')
        else bind (transition_task ?i Blocked (reason_opts r)) (\<lambda>_. ret ())) w1
      (\<lambda>_ w2. \<exists>fm'. updates w ?i (fm', b) w2 \<and>
         fm_status fm' = (if classifySpawnError (or_else err ''unknown'') = Permanent then Deadletter else Blocked) \<and>
         retry_count (fm_metadata fm') = retry_count (fm_metadata fm) + 1)"
    if w1: "updates w ?i (?fm, b) w1" for w1 r
  proof -
    note u = updates_abs [OF w1]
    have valid: "isValidTransition (fm_status (fst (?fm, b))) Blocked" "isValidTransition (fm_status (fst (?fm, b))) Deadletter"
      using assms(4) by (simp_all add: isValidTransition_def)
    have dead: "yields (transitionToDeadletter ?i reason) w1 (\<lambda>_ w2. updates w ?i (deadlettered reason (w_now w1) ?fm, b) w2)" for reason
      by (rule yields_deadletter [OF u(2,1) valid(2)]) (use updates_trans [OF w1] assms(3) in auto)
    have blocked: "yields (bind (transition_task ?i Blocked (reason_opts r)) (\<lambda>_. ret ())) w1
        (\<lambda>_ w2. updates w ?i (transition_fm ?fm Blocked None (w_now w1), b) w2)"
      unfolding yields_simps
      by (rule yields_transition [OF u(2,1) valid(1)]) (use updates_trans [OF w1] assms(3) in \<open>auto simp: reason_opts_def no_opts_def\<close>)
    show ?thesis
      using m by (cases "classifySpawnError (or_else err ''unknown'') = Permanent")
        (auto intro!: yields_mono [OF dead] yields_mono [OF blocked])
  qed
  show ?thesis
    unfolding spawn_failed_def Let_def yields_bind yields_get [OF assms(1)] assms(2) option.map option.case
    by (rule yields_seq [OF saved], rule yields_seq, erule moved) (auto simp: yields_simps intro!: yields_log_dispatch)
qed

subsection \<open>The dispatch\<close>

definition spawn_answers :: "executor \<Rightarrow> spawn_result \<Rightarrow> bool" where
  "spawn_answers ex r \<longleftrightarrow> (\<forall>cx t c w. ex_spawn ex cx t c w = (Inr r, w))"

text \<open>The result of a dispatch whose spawn answers \<open>r\<close>: what is reported and what becomes of the task.\<close>

definition dispatch_outcome :: "exec_config \<Rightarrow> string \<Rightarrow> string \<Rightarrow> int \<Rightarrow> frontmatter \<Rightarrow> spawn_result \<Rightarrow>
    bool \<times> bool \<Rightarrow> frontmatter \<Rightarrow> world \<Rightarrow> bool" where
  "dispatch_outcome cfg i a ts fm r ef fm' w' \<longleftrightarrow>
     (if sr_success r then
        ef = (True, False) \<and> fm_status fm' = InProgress \<and>
        fm_lease fm' = Some (fresh_lease a (ec_defaultLeaseTtlMs cfg) ts) \<and>
        leaseRenewalKey (project_key cfg) i \<in> set (w_renewals w') \<and> w_lastDispatchAt w' = ts
      else if sr_error r = Some ''no-plugin-attached'' then
        ef = (False, False) \<and> fm_status fm' = Ready \<and> fm_lease fm' = None \<and>
        retry_count (fm_metadata fm') = retry_count (fm_metadata fm)
      else
        ef = (False, True) \<and>
        fm_status fm' = (if classifySpawnError (or_else (sr_error r) ''unknown'') = Permanent then Deadletter else Blocked) \<and>
        retry_count (fm_metadata fm') = retry_count (fm_metadata fm) + 1)"

lemma dispatch_yields:
  assumes tidy: "tidy w" and abs: "abs_store w i = Some (fm, b)" and st: "fm_status fm = Ready"
    and free: "\<not> isLeaseActive (fm_lease fm) (w_now w)" and spawn: "spawn_answers ex r" and i: "i = ac_taskId action"
  shows "yields (dispatch_task cfg ex corr action) w (\<lambda>ef w'. \<exists>fm'. updates w i (fm', js_trim b) w' \<and>
    dispatch_outcome cfg i (agent_of action) (w_now w) fm r ef fm' w')"
proof -
  let ?a = "agent_of action" and ?b = "js_trim b" and ?ttl = "ec_defaultLeaseTtlMs cfg"
  let ?A = "acquired ?a ?ttl (w_now w) fm"
  let ?B = "?A\<lparr>fm_metadata := (fm_metadata fm)(''correlationId'' \<mapsto> JStr corr)\<rparr>"
  let ?Q = "\<lambda>ef w'. \<exists>fm'. updates w i (fm', ?b) w' \<and> dispatch_outcome cfg i ?a (w_now w) fm r ef fm' w'"
  have rc: "retry_count (fm_metadata ?B) = retry_count (fm_metadata fm)"
    by (simp add: retry_count_def meta_num0_def)
  have after: "yields (after_spawn cfg corr action r) w2 ?Q" if w2: "updates w i (?B, ?b) w2" for w2
  proof -
    note u = updates_abs [OF w2, unfolded i]
    consider "sr_success r" | "\<not> sr_success r" "sr_error r = Some ''no-plugin-attached''"
      | "\<not> sr_success r" "sr_error r \<noteq> Some ''no-plugin-attached''" by blast
    then show ?thesis
    proof cases
      case 1
      have "yields (spawn_succeeded cfg corr action r) w2 ?Q"
        by (rule yields_mono [OF spawn_succeeded_yields [OF u(2,1) js_trim_idem, folded i]], elim conjE exE, rule exI, rule conjI,
            erule updates_trans [OF w2]) (use 1 u(3) in \<open>simp add: dispatch_outcome_def\<close>)
      then show ?thesis using 1 by (simp add: after_spawn_def)
    next
      case 2
      have "yields (hold_task corr action) w2 (\<lambda>ef w'. ef = (False, False) \<and>
          updates w2 i (transition_fm ?B Ready None (w_now w2), ?b) w')"
        unfolding i by (rule hold_task_yields [OF u(2,1) js_trim_idem, where l = "fresh_lease ?a ?ttl (w_now w)"])
          (simp_all add: fresh_lease_def)
      moreover have "dispatch_outcome cfg i ?a (w_now w) fm r (False, False) (transition_fm ?B Ready None n) w'" for n w'
        using 2 rc by (simp add: dispatch_outcome_def transition_fm_def)
      ultimately have "yields (hold_task corr action) w2 ?Q"
        using updates_trans [OF w2] by (blast intro: yields_mono)
      then show ?thesis using 2 by (simp add: after_spawn_def)
    next
      case 3
      have "yields (spawn_failed corr action (sr_error r)) w2 (\<lambda>ef w'. ef = (False, True) \<and> (\<exists>fm'. updates w2 i (fm', ?b) w' \<and>
          fm_status fm' = (if classifySpawnError (or_else (sr_error r) ''unknown'') = Permanent then Deadletter else Blocked) \<and>
          retry_count (fm_metadata fm') = retry_count (fm_metadata ?B) + 1))"
        unfolding i by (rule spawn_failed_yields [OF u(2,1) js_trim_idem]) simp
      moreover have "dispatch_outcome cfg i ?a (w_now w) fm r (False, True) fm' w'"
        if "fm_status fm' = (if classifySpawnError (or_else (sr_error r) ''unknown'') = Permanent then Deadletter else Blocked)"
          "retry_count (fm_metadata fm') = retry_count (fm_metadata ?B) + 1" for fm' w'
        using 3 rc that by (simp add: dispatch_outcome_def)
      ultimately have "yields (spawn_failed corr action (sr_error r)) w2 ?Q"
        using updates_trans [OF w2] by (blast intro: yields_mono)
      then show ?thesis using 3 by (simp add: after_spawn_def)
    qed
  qed
  have spawned: "yields (bind (ex_spawn ex cx t corr) (after_spawn cfg corr action)) w2 ?Q"
    if "updates w i (?B, ?b) w2" for w2 cx t
    using after [OF that] spawn by (simp add: yields_bind yields_run [of _ _ r] spawn_answers_def)
  have acquire: "yields (acquireLease i ?a (default_lease_opts\<lparr>lo_ttlMs := Some ?ttl\<rparr>)) (w\<lparr>w_events := e\<rparr>)
      (\<lambda>t w1. t_fm t = ?A \<and> js_trim (t_body t) = ?b \<and> t_path t = Some (taskPath i InProgress) \<and> updates w i (?A, ?b) w1)" for e
  proof (rule yields_acquire [where fb = "(fm, b)" and ttl = ?ttl])
    show "\<not> leased_elsewhere (fm_lease (fst (fm, b))) ?a (w_now (w\<lparr>w_events := e\<rparr>))"
      using free by (auto simp: leased_elsewhere_def isLeaseActive_def split: option.splits)
  qed (use tidy abs st in \<open>simp_all add: or_else_def updates_def\<close>)
  have saved: "yields (save_task (with_metadata (\<lambda>m. m(''correlationId'' \<mapsto> JStr corr)) t)) w1 (\<lambda>_. updates w i (?B, ?b))"
    if t: "t_fm t = ?A \<and> js_trim (t_body t) = ?b \<and> t_path t = Some (taskPath i InProgress) \<and> updates w i (?A, ?b) w1" for t w1
  proof -
    from t have w1: "updates w i (?A, ?b) w1" by simp
    show ?thesis
      by (rule yields_save [OF updates_abs(2,1) [OF w1]])
        (use t updates_trans [OF w1] in \<open>auto simp: with_metadata_def\<close>)
  qed
  show ?thesis
    unfolding dispatch_task_def Let_def i [symmetric] yields_andThen [of "log_dispatch _ _ _"]
    by (rule yields_log_dispatch, rule yields_seq_bind [OF acquire], rule yields_seq, erule saved, erule spawned)
qed

lemma assign_run:
  assumes "tidy w" "abs_store w i = Some (fm, b)" "ec_executor cfg = Some ex" "spawn_answers ex r" "i = ac_taskId action"
    "find_task allTasks i \<noteq> None"
  shows "yields (executeAssignAction hk cfg corr action allTasks) w (\<lambda>ef w'.
    if fm_status fm = Ready \<and> \<not> isLeaseActive (fm_lease fm) (w_now w)
    then \<exists>fm'. updates w i (fm', js_trim b) w' \<and> dispatch_outcome cfg i (agent_of action) (w_now w) fm r ef fm' w'
    else ef = (False, False) \<and> w' = w)"
proof -
  let ?Q = "\<lambda>ef w'. if fm_status fm = Ready \<and> \<not> isLeaseActive (fm_lease fm) (w_now w)
    then \<exists>fm'. updates w i (fm', js_trim b) w' \<and> dispatch_outcome cfg i (agent_of action) (w_now w) fm r ef fm' w'
    else ef = (False, False) \<and> w' = w"
  have "yields (assign_body cfg ex corr action allTasks) w ?Q"
  proof (cases "fm_status fm = Ready \<and> \<not> isLeaseActive (fm_lease fm) (w_now w)")
    case True
    then show ?thesis
      using dispatch_yields [OF assms(1,2) _ _ assms(4,5), of cfg corr] assms(2,5,6)
      by (auto simp: assign_body_def yields_simps assms(1))
  next
    case False
    then show ?thesis unfolding if_not_P [OF False]
      using assms(2,5) by (auto simp: assign_body_def yields_simps assms(1))
  qed
  then show ?thesis by (simp add: executeAssignAction_def assms(3) yields_catch)
qed


subsection \<open>The end of a run\<close>

text \<open>An operation outside the model that does not change task files.\<close>

definition quiet :: "unit m \<Rightarrow> bool" where
  "quiet f \<longleftrightarrow> (\<forall>w. \<exists>r es. f w = (r, w\<lparr>w_events := es\<rparr>))"

definition quiet_hooks :: "hooks \<Rightarrow> bool" where
  "quiet_hooks hk \<longleftrightarrow> (\<forall>i s a n d. quiet (hk_captureTrace hk i s a n d)) \<and>
     (\<forall>i. quiet (hk_deliverCallbacks hk i) \<and> quiet (hk_deliverAllGranularity hk i))"

lemma yields_quiet:
  assumes "quiet f" "\<And>es. Q () (w\<lparr>w_events := es\<rparr>)"
  shows "yields (best_effort f) w Q"
proof -
  from assms(1) obtain r es where "f w = (r, w\<lparr>w_events := es\<rparr>)" unfolding quiet_def by blast
  then show ?thesis using assms(2) by (cases r) (auto simp: yields_def best_effort_def catch_def run_simps)
qed

lemma yields_after_run:
  assumes "quiet_hooks hk" "\<And>es. Q () (w\<lparr>w_events := es\<rparr>)"
  shows "yields (andThen (captureTraceSafely hk i s a n t) (deliverAllCallbacksSafely hk i)) w Q"
proof -
  have q: "quiet (hk_deliverCallbacks hk i)" "quiet (hk_deliverAllGranularity hk i)"
    "quiet (hk_captureTrace hk i s a' n d)" for a' d using assms(1) by (simp_all add: quiet_hooks_def)
  have "yields (deliverAllCallbacksSafely hk i) (w\<lparr>w_events := es\<rparr>) Q" for es
    unfolding deliverAllCallbacksSafely_def yields_andThen
    by (rule yields_quiet [OF q(1)], rule yields_quiet [OF q(2)]) (simp add: assms(2))
  from this [of "w_events w"] this show ?thesis
    unfolding captureTraceSafely_def yields_andThen by (auto simp: yields_pure intro!: yields_quiet q)
qed

definition final_class :: "frontmatter \<Rightarrow> run_outcome \<Rightarrow> string option" where
  "final_class fm outcome =
     (case outcome_class outcome of None \<Rightarrow> meta_str (fm_metadata fm) ''errorClass'' | Some c \<Rightarrow> Some c)"

definition gives_up :: "frontmatter \<Rightarrow> run_outcome \<Rightarrow> bool" where
  "gives_up fm outcome \<longleftrightarrow>
     final_class fm outcome \<in> {Some ''permanent'', Some ''model_silent_failure''} \<or> dispatch_failures (fm_metadata fm) \<ge> 2"

lemma enforce_yields:
  assumes "tidy w" "abs_store w (ac_taskId action) = Some (fm, b)" "fm_status fm = InProgress"
  shows "yields (enforce_completion hk action outcome) w (\<lambda>_ w'. \<exists>fm'. updates w (ac_taskId action) (fm', js_trim b) w' \<and>
    fm_status fm' = (if gives_up fm outcome then Deadletter else Blocked) \<and>
    dispatch_failures (fm_metadata fm') = dispatch_failures (fm_metadata fm) + 1)"
proof -
  let ?i = "ac_taskId action" and ?b = "js_trim b" and ?ts = "w_now w"
  let ?r = "enforcement_reason hk ?i outcome"
  let ?A = "fm\<lparr>fm_metadata := enforce_meta hk action outcome ?ts (fm_metadata fm)\<rparr>"
  let ?B = "tracked ?r ?ts ?A"
  have A: "dispatch_failures (fm_metadata ?A) = dispatch_failures (fm_metadata fm)"
    "meta_str (fm_metadata ?A) ''errorClass'' = final_class fm outcome"
    by (auto simp: enforce_meta_def set_opt_def dispatch_failures_def meta_num0_def final_class_def split: option.split)
  then have B: "fm_status ?B = InProgress" "dispatch_failures (fm_metadata ?B) = dispatch_failures (fm_metadata fm) + 1"
    "shouldTransitionToDeadletter (loaded ?i (?B, ?b)) = gives_up fm outcome"
    using assms(3)
    by (auto simp: tracked_def record_failure_def dispatch_failures_def meta_num0_def gives_up_def
        shouldTransitionToDeadletter_def MAX_DISPATCH_FAILURES_def Let_def)
  have saved: "yields (bind (get_task ?i) (\<lambda>t. case t of None \<Rightarrow> ret ()
      | Some task \<Rightarrow> bind now (\<lambda>ts. save_task (with_metadata (enforce_meta hk action outcome ts) task)))) w
      (\<lambda>_. updates w ?i (?A, ?b))"
    unfolding yields_bind yields_get [OF assms(1)] assms(2) option.map option.case yields_pure
    by (rule yields_save [OF assms(1,2)]) (auto simp: with_metadata_def)
  have tracked: "yields (trackDispatchFailure ?i ?r) w1 (\<lambda>_. updates w ?i (?B, ?b))" if w1: "updates w ?i (?A, ?b) w1" for w1
    by (rule yields_track [OF updates_abs(2,1) [OF w1]])
      (use updates_trans [OF w1] updates_abs(3) [OF w1] in auto)
  let ?Q = "\<lambda>_ w'. \<exists>fm'. updates w ?i (fm', ?b) w' \<and> fm_status fm' = (if gives_up fm outcome then Deadletter else Blocked) \<and>
    dispatch_failures (fm_metadata fm') = dispatch_failures (fm_metadata fm) + 1"
  have moved: "yields (bind (get_task ?i) (\<lambda>u. if (case u of None \<Rightarrow> False | Some u \<Rightarrow> shouldTransitionToDeadletter u)
      then transitionToDeadletter ?i ?r else bind (transition_task ?i Blocked (reason_opts ?r)) (\<lambda>_. ret ()))) w2 ?Q"
    if w2: "updates w ?i (?B, ?b) w2" for w2
  proof -
    note u = updates_abs [OF w2]
    have valid: "isValidTransition (fm_status (fst (?B, ?b))) Blocked" "isValidTransition (fm_status (fst (?B, ?b))) Deadletter"
      using B(1) by (simp_all add: isValidTransition_def)
    show ?thesis
    proof (cases "gives_up fm outcome")
      case True
      have "yields (transitionToDeadletter ?i ?r) w2 ?Q"
        by (rule yields_deadletter [OF u(2,1) valid(2)], rule exI, rule conjI, rule updates_trans [OF w2], simp)
          (simp add: True B(2))
      then show ?thesis using True u(1) by (simp only: yields_bind yields_get [OF u(2)] option.map option.case B(3) if_True)
    next
      case False
      have "yields (bind (transition_task ?i Blocked (reason_opts ?r)) (\<lambda>_. ret ())) w2 ?Q"
        unfolding yields_bind yields_pure
        by (rule yields_transition [OF u(2,1) valid(1)], rule exI, rule conjI, rule updates_trans [OF w2], simp add: reason_opts_def no_opts_def)
          (simp add: False B(2))
      then show ?thesis using False u(1) by (simp only: yields_bind [of "get_task _"] yields_get [OF u(2)] option.map option.case B(3) if_False)
    qed
  qed
  show ?thesis
    unfolding enforce_completion_def Let_def
    by (rule yields_seq [OF saved], rule yields_seq, erule tracked, erule moved)
qed

lemma log_enforcement_yields:
  "tidy w \<Longrightarrow> (\<And>es. Q () (w\<lparr>w_events := es\<rparr>)) \<Longrightarrow> yields (log_enforcement action corr outcome) w Q"
  unfolding log_enforcement_def
  by (rule yields_best_effort) (simp add: yields_bind yields_get, rule yields_log)

lemma log_silent_yields: "(\<And>es. Q () (w\<lparr>w_events := es\<rparr>)) \<Longrightarrow> yields (log_silent action corr outcome) w Q"
  unfolding log_silent_def by (intro yields_best_effort yields_log)

lemma run_complete_run:
  assumes "tidy w" "abs_store w i = Some (fm, b)" "fm_status fm = InProgress" "quiet_hooks hk" "i = ac_taskId action"
  shows "yields (handleRunComplete hk cfg corr action outcome) w (\<lambda>_ w'. \<exists>fm'. updates w i (fm', js_trim b) w' \<and>
    fm_status fm' = (if gives_up fm outcome then Deadletter else Blocked) \<and>
    dispatch_failures (fm_metadata fm') = dispatch_failures (fm_metadata fm) + 1)"
    (is "yields _ _ ?Q")
proof -
  let ?w = "w\<lparr>w_renewals := filter (\<lambda>k. k \<noteq> leaseRenewalKey (project_key cfg) i) (w_renewals w)\<rparr>"
  have Q: "?Q () w'" if "updates ?w i (fm', js_trim b) w'"
    "fm_status fm' = (if gives_up fm outcome then Deadletter else Blocked) \<and>
     dispatch_failures (fm_metadata fm') = dispatch_failures (fm_metadata fm) + 1" for fm' w'
    using that by (auto simp: updates_def)
  have enforced: "yields (best_effort (enforce_completion hk action outcome)) ?w ?Q"
  proof (rule yields_best_effort, rule yields_mono)
    have "abs_store ?w (ac_taskId action) = Some (fm, b)" using assms(2,5) by simp
    from enforce_yields [OF _ this assms(3), folded assms(5)] assms(1)
    show "yields (enforce_completion hk action outcome) ?w (\<lambda>_ w'. \<exists>fm'. updates ?w i (fm', js_trim b) w' \<and>
      fm_status fm' = (if gives_up fm outcome then Deadletter else Blocked) \<and>
      dispatch_failures (fm_metadata fm') = dispatch_failures (fm_metadata fm) + 1)" by simp
  qed (use Q in blast)
  have stable: "?Q () (w'\<lparr>w_events := es\<rparr>)" if "?Q () w'" for w' es using that by simp
  have rest: "yields (andThen (log_enforcement action corr outcome)
      (andThen (when_m (silent_failure outcome) (log_silent action corr outcome)) (bind (get_task i) (\<lambda>t.
        andThen (captureTraceSafely hk i (ro_sessionId outcome) (ac_agent action) (ro_durationMs outcome) t)
          (deliverAllCallbacksSafely hk i))))) w1 ?Q" if w1: "?Q () w1" for w1
  proof -
    have t: "tidy w1" using w1 by (auto simp: updates_def)
    have last: "yields (bind (get_task i) (\<lambda>t.
        andThen (captureTraceSafely hk i (ro_sessionId outcome) (ac_agent action) (ro_durationMs outcome) t)
          (deliverAllCallbacksSafely hk i))) w2 ?Q" if "?Q () w2" for w2
    proof -
      have "tidy w2" using that by (auto simp: updates_def)
      then show ?thesis unfolding yields_bind yields_get [OF \<open>tidy w2\<close>]
        by (intro yields_after_run [OF assms(4)] stable [OF that])
    qed
    show ?thesis
    proof (rule yields_seq)
      show "yields (log_enforcement action corr outcome) w1 ?Q"
        by (rule log_enforcement_yields [OF t]) (rule stable [OF w1])
      fix u w2 assume "?Q u w2"
      then have w2: "?Q () w2" by simp
      have "yields (when_m (silent_failure outcome) (log_silent action corr outcome)) w2 ?Q"
        unfolding yields_when using log_silent_yields [of ?Q, OF stable [OF w2]] w2 by simp
      then show "yields (andThen (when_m (silent_failure outcome) (log_silent action corr outcome)) (bind (get_task i) (\<lambda>t.
        andThen (captureTraceSafely hk i (ro_sessionId outcome) (ac_agent action) (ro_durationMs outcome) t)
          (deliverAllCallbacksSafely hk i)))) w2 ?Q"
        by (rule yields_seq) (rule last, simp)
    qed
  qed
  have "yields (andThen (best_effort (enforce_completion hk action outcome)) (andThen (log_enforcement action corr outcome)
      (andThen (when_m (silent_failure outcome) (log_silent action corr outcome)) (bind (get_task i) (\<lambda>t.
        andThen (captureTraceSafely hk i (ro_sessionId outcome) (ac_agent action) (ro_durationMs outcome) t)
          (deliverAllCallbacksSafely hk i)))))) ?w ?Q"
    by (rule yields_seq [OF enforced]) (rule rest)
  then show ?thesis
    unfolding handleRunComplete_def Let_def assms(5) [symmetric] stopLeaseRenewal_def yields_andThen [of "modify _"] yields_pure
      yields_bind [of "get_task _"]
    using assms(1-3) by (simp only: yields_get tidy_frame option.map option.case loaded_simps fst_conv if_False simp_thms)
qed


subsection \<open>Examples\<close>

definition no_agent :: spawn_result where
  "no_agent = \<lparr>sr_success = False, sr_sessionId = None, sr_error = Some ''Agent not found''\<rparr>"

definition answering :: "spawn_result \<Rightarrow> executor" where
  "answering r = \<lparr>ex_spawn = \<lambda>cx t c. ret r, ex_forceComplete = \<lambda>s. ret ()\<rparr>"

definition quiet_example :: hooks where
  "quiet_example = \<lparr>hk_captureTrace = \<lambda>i s a n d. ret (), hk_deliverCallbacks = \<lambda>i. ret (),
     hk_deliverAllGranularity = \<lambda>i. ret (), hk_toFixed1 = \<lambda>r. ''0.0'', hk_message = \<lambda>e. [], hk_stack = \<lambda>e. []\<rparr>"

definition config_with :: "executor \<Rightarrow> exec_config" where
  "config_with ex = \<lparr>ec_dryRun = False, ec_defaultLeaseTtlMs = 1000, ec_executor = Some ex, ec_spawnTimeoutMs = None,
     ec_maxDispatchRetries = None, ec_projectId = None\<rparr>"

definition assign_sample :: scheduler_action where
  "assign_sample = (action_for Assign (sample_task sample_id Ready) ''test'')\<lparr>ac_agent := Some ''dev''\<rparr>"

lemma assign_sample_id [simp]: "ac_taskId assign_sample = sample_id"
  by (simp add: assign_sample_def action_for_def sample_task_def)

lemma answering_answers [simp]: "spawn_answers (answering r) r"
  by (simp add: spawn_answers_def answering_def run_simps)

lemma quiet_example_quiet [simp]: "quiet_hooks quiet_example"
proof -
  have "quiet (ret ())" unfolding quiet_def
  proof
    fix w :: world
    have "ret () w = (Inr (), w\<lparr>w_events := w_events w\<rparr>)" by (simp add: run_simps)
    then show "\<exists>r es. ret () w = (r, w\<lparr>w_events := es\<rparr>)" by blast
  qed
  then show ?thesis by (simp add: quiet_hooks_def quiet_example_def)
qed


definition crashed :: run_outcome where
  "crashed = \<lparr>ro_sessionId = ''s'', ro_success = False, ro_aborted = False, ro_error = None, ro_durationMs = 5\<rparr>"


end
