(* ===== verification/DepCascader.thy ===== *)
theory DepCascader
  imports FailureTracker
begin

section \<open>Cascades to dependent tasks (dispatch/dep-cascader.ts)\<close>

text \<open>
  When a task is completed its dependents whose dependencies are all done become ready; when a task
  is blocked its dependents can be blocked too. Both work on one listing of the store. Shown: exactly
  the right tasks move, each once, and no other task changes.
\<close>

record cascade_result =
  cs_promoted :: "string list"
  cs_blocked :: "string list"
  cs_skipped :: "string list"

definition no_cascade :: cascade_result where
  "no_cascade = \<lparr>cs_promoted = [], cs_blocked = [], cs_skipped = []\<rparr>"

definition dependents :: "string \<Rightarrow> task_status list \<Rightarrow> task list \<Rightarrow> task list" where
  "dependents i ss tasks = filter (\<lambda>t. i \<in> set (fm_dependsOn (t_fm t)) \<and> fm_status (t_fm t) \<in> set ss) tasks"

definition promote_dependent :: "task list \<Rightarrow> task \<Rightarrow> cascade_result \<Rightarrow> cascade_result m" where
  "promote_dependent allTasks t result =
     (if list_all (dep_done allTasks) (fm_dependsOn (t_fm t))
      then andThen (transition_task (fm_id (t_fm t)) Ready (reason_opts ''dependency_satisfied''))
             (ret (result\<lparr>cs_promoted := cs_promoted result @ [fm_id (t_fm t)]\<rparr>))
      else ret (result\<lparr>cs_skipped := cs_skipped result @ [fm_id (t_fm t)]\<rparr>))"

definition ids_json :: "string list \<Rightarrow> json" where
  "ids_json is = JArr (map JStr is)"

definition cascadeOnCompletion :: "string \<Rightarrow> cascade_result m" where
  "cascadeOnCompletion completedTaskId = bind (list_tasks no_filters) (\<lambda>allTasks.
     bind (fold_m (promote_dependent allTasks) (dependents completedTaskId [Backlog, Blocked] allTasks) no_cascade) (\<lambda>result.
       andThen (when_m (length (cs_promoted result) > 0 \<or> length (cs_skipped result) > 0)
                  (log_event ''dependency.cascaded'' ''system'' (Some completedTaskId)
                     [(''trigger'', JStr completedTaskId), (''action'', JStr ''promote''),
                      (''count'', JNum (of_nat (length (cs_promoted result)))),
                      (''promoted'', ids_json (cs_promoted result)), (''skipped'', ids_json (cs_skipped result))]))
         (ret result)))"

definition block_dependent :: "string \<Rightarrow> task \<Rightarrow> cascade_result \<Rightarrow> cascade_result m" where
  "block_dependent blockedTaskId t result =
     andThen (block_task (fm_id (t_fm t)) (''upstream blocked: '' @ blockedTaskId))
       (ret (result\<lparr>cs_blocked := cs_blocked result @ [fm_id (t_fm t)]\<rparr>))"

definition cascadeOnBlock :: "string \<Rightarrow> cascade_result m" where
  "cascadeOnBlock blockedTaskId = bind (list_tasks no_filters) (\<lambda>allTasks.
     bind (fold_m (block_dependent blockedTaskId) (dependents blockedTaskId [Backlog, Ready] allTasks) no_cascade) (\<lambda>result.
       andThen (when_m (length (cs_blocked result) > 0)
                  (log_event ''dependency.cascaded'' ''system'' (Some blockedTaskId)
                     [(''trigger'', JStr blockedTaskId), (''action'', JStr ''block''),
                      (''count'', JNum (of_nat (length (cs_blocked result)))), (''blocked'', ids_json (cs_blocked result))]))
         (ret result)))"

subsection \<open>Listing the whole store\<close>

definition all_listed :: "world \<Rightarrow> task list" where
  "all_listed w = concat (map (listed w no_filters) STATUS_DIRS)"

lemma list_all_run: "consistent w \<Longrightarrow> list_tasks no_filters w = (Inr (all_listed w), w)"
  by (simp add: list_tasks_run list_statuses_def no_filters_def all_listed_def)

lemma yields_list_all: "consistent w \<Longrightarrow> yields (list_tasks no_filters) w Q = Q (all_listed w) w"
  by (simp add: yields_def list_all_run)

lemma no_filters_match [simp]: "filter_matches no_filters fm"
  by (simp add: no_filters_def filter_matches_def)

lemma in_all_listed:
  "consistent w \<Longrightarrow> t \<in> set (all_listed w) \<longleftrightarrow> (\<exists>i fb. abs_store w i = Some fb \<and> t = loaded i fb)"
  unfolding all_listed_def by (simp add: in_listed) (use STATUS_DIRS_all in blast)

lemma all_listed_distinct: "consistent w \<Longrightarrow> distinct (map (\<lambda>t. fm_id (t_fm t)) (all_listed w))"
  unfolding all_listed_def by (rule list_ids_distinct) simp_all

lemma stored_id: "consistent w \<Longrightarrow> abs_store w i = Some fb \<Longrightarrow> fm_id (fst fb) = i"
  using consistent_files(1) [of w i "fst fb" "snd fb"] by simp

lemma all_listed_in:
  assumes "consistent w"
  shows "listed_in w (all_listed w)"
  unfolding listed_in_def
proof
  fix t assume "t \<in> set (all_listed w)"
  then obtain i fb where t: "abs_store w i = Some fb" "t = loaded i fb" using in_all_listed [OF assms] by blast
  then show "abs_store w (fm_id (t_fm t)) = Some (t_fm t, t_body t) \<and> t_path t = Some (taskPath (fm_id (t_fm t)) (fm_status (t_fm t)))"
    using stored_id [OF assms t(1)] by simp
qed

lemma find_task_eq:
  "distinct (map (\<lambda>t. fm_id (t_fm t)) ts) \<Longrightarrow> t \<in> set ts \<Longrightarrow> fm_id (t_fm t) = i \<Longrightarrow> find_task ts i = Some t"
  unfolding find_task_def by (induction ts) (auto simp: image_iff)

lemma find_task_listed:
  assumes "consistent w"
  shows "find_task (all_listed w) i = map_option (loaded i) (abs_store w i)"
proof (cases "abs_store w i")
  case None
  have "find_task (all_listed w) i = None"
  proof (rule ccontr)
    assume "find_task (all_listed w) i \<noteq> None"
    then obtain t where "t \<in> set (all_listed w)" "fm_id (t_fm t) = i"
      unfolding find_task_def by (auto simp: find_Some_iff) (metis nth_mem)
    then show False using None in_all_listed [OF assms] stored_id [OF assms] by fastforce
  qed
  then show ?thesis by (simp add: None)
next
  case (Some fb)
  then have "loaded i fb \<in> set (all_listed w)" using in_all_listed [OF assms] by blast
  from find_task_eq [OF all_listed_distinct [OF assms] this, of i] show ?thesis
    by (simp add: Some stored_id [OF assms Some])
qed

lemma dep_done_listed:
  "consistent w \<Longrightarrow> dep_done (all_listed w) d \<longleftrightarrow> (\<exists>fb. abs_store w d = Some fb \<and> fm_status (fst fb) = Done)"
  by (simp add: dep_done_def find_task_listed split: option.split)

lemma deps_done_listed: "consistent w \<Longrightarrow> list_all (dep_done (all_listed w)) (fm_dependsOn fm) = deps_done w fm"
  by (auto simp: list_all_iff dep_done_listed deps_done_def)

lemma dependents_listed:
  "consistent w \<Longrightarrow> listed_in w (dependents i ss (all_listed w)) \<and> distinct (map (\<lambda>t. fm_id (t_fm t)) (dependents i ss (all_listed w)))"
  using all_listed_in [of w] all_listed_distinct [of w]
  by (auto simp: listed_in_def dependents_def intro: distinct_map_filter)

lemma yields_report:
  assumes "\<And>e. Q x (w\<lparr>w_events := e\<rparr>)"
  shows "yields (andThen (when_m b (log_event ty a k p)) (ret x)) w Q"
  using assms [of "w_events w"] assms by (auto simp: yields_simps intro: yields_log)

subsection \<open>Completion\<close>

definition promoted_result :: "(task \<Rightarrow> bool) \<Rightarrow> task \<Rightarrow> cascade_result \<Rightarrow> cascade_result" where
  "promoted_result ok t r =
     (if ok t then r\<lparr>cs_promoted := cs_promoted r @ [fm_id (t_fm t)]\<rparr>
      else r\<lparr>cs_skipped := cs_skipped r @ [fm_id (t_fm t)]\<rparr>)"

lemma fold_promoted:
  "fold (promoted_result ok) ts r = r\<lparr>cs_promoted := cs_promoted r @ map (\<lambda>t. fm_id (t_fm t)) (filter ok ts),
     cs_skipped := cs_skipped r @ map (\<lambda>t. fm_id (t_fm t)) (filter (\<lambda>t. \<not> ok t) ts)\<rparr>"
  by (induction ts arbitrary: r) (auto simp: promoted_result_def)

definition made_ready :: "int \<Rightarrow> task \<Rightarrow> frontmatter \<times> string" where
  "made_ready n t = (transition_fm (t_fm t) Ready None n, js_trim (t_body t))"

lemma promote_dependent_step:
  assumes "tidy w" "w_now w = n" "abs_store w (fm_id (t_fm t)) = Some (t_fm t, t_body t)" "fm_status (t_fm t) \<in> {Backlog, Blocked}"
  shows "yields (promote_dependent tasks t acc) w (\<lambda>acc' w'.
    acc' = promoted_result (\<lambda>t. list_all (dep_done tasks) (fm_dependsOn (t_fm t))) t acc \<and> True \<and>
    (if list_all (dep_done tasks) (fm_dependsOn (t_fm t)) then updates w (fm_id (t_fm t)) (made_ready n t) w'
     else tidy w' \<and> w_now w' = n \<and> abs_store w' = abs_store w))"
proof -
  have "isValidTransition (fm_status (fst (t_fm t, t_body t))) Ready" using assms(4) by (auto simp: isValidTransition_def)
  from yields_transition [OF assms(1,3) this, where opts = "reason_opts ''dependency_satisfied''"]
  have "yields (transition_task (fm_id (t_fm t)) Ready (reason_opts ''dependency_satisfied'')) w
      (\<lambda>_. updates w (fm_id (t_fm t)) (made_ready n t))"
    using assms(2) by (simp add: made_ready_def reason_opts_def no_opts_def)
  then show ?thesis
    using assms(1,2) by (auto simp: promote_dependent_def promoted_result_def yields_simps)
qed

text \<open>The tasks a completion makes ready.\<close>

definition cascade_ids :: "world \<Rightarrow> string \<Rightarrow> string set" where
  "cascade_ids w c = {i. \<exists>fb. abs_store w i = Some fb \<and> c \<in> set (fm_dependsOn (fst fb)) \<and>
     fm_status (fst fb) \<in> {Backlog, Blocked} \<and> deps_done w (fst fb)}"

lemma cascade_run:
  assumes "tidy w"
  shows "yields (cascadeOnCompletion c) w (\<lambda>r w'. set (cs_promoted r) = cascade_ids w c \<and> distinct (cs_promoted r) \<and> tidy w' \<and>
    w_now w' = w_now w \<and> (\<forall>i. abs_store w' i =
      (if i \<in> cascade_ids w c
       then map_option (\<lambda>fb. (transition_fm (fst fb) Ready None (w_now w), js_trim (snd fb))) (abs_store w i)
       else abs_store w i)))"
proof -
  let ?all = "all_listed w" and ?n = "w_now w"
  let ?ts = "dependents c [Backlog, Blocked] ?all"
  let ?ok = "\<lambda>t. list_all (dep_done ?all) (fm_dependsOn (t_fm t))"
  have cons: "consistent w" by (rule tidy_consistent [OF assms])
  have run: "yields (fold_m (promote_dependent ?all) ?ts no_cascade) w (\<lambda>acc' w'. acc' = fold (promoted_result ?ok) ?ts no_cascade \<and>
      tidy w' \<and> w_now w' = ?n \<and> True \<and> (\<forall>t \<in> set ?ts. ?ok t \<longrightarrow> abs_store w' (fm_id (t_fm t)) = Some (made_ready ?n t)) \<and>
      (\<forall>i. \<not> selected ?ok ?ts i \<longrightarrow> abs_store w' i = abs_store w i))"
  proof (rule fold_update)
    show "listed_in w ?ts" "distinct (map (\<lambda>t. fm_id (t_fm t)) ?ts)" using dependents_listed [OF cons] by simp_all
  next
    fix w1 t acc
    assume "tidy w1" "w_now w1 = ?n" "t \<in> set ?ts" "abs_store w1 (fm_id (t_fm t)) = Some (t_fm t, t_body t)"
    then show "yields (promote_dependent ?all t acc) w1 (\<lambda>acc' w'. acc' = promoted_result ?ok t acc \<and> True \<and>
        (if ?ok t then updates w1 (fm_id (t_fm t)) (made_ready ?n t) w' else tidy w' \<and> w_now w' = ?n \<and> abs_store w' = abs_store w1))"
      by (intro promote_dependent_step) (auto simp: dependents_def)
  qed (use assms in simp_all)
  have sel: "selected ?ok ?ts i \<longleftrightarrow> i \<in> cascade_ids w c" for i
    using stored_id [OF cons]
    by (fastforce simp: selected_def dependents_def in_all_listed [OF cons] cascade_ids_def deps_done_listed [OF cons])
  have ids: "set (map (\<lambda>t. fm_id (t_fm t)) (filter ?ok ?ts)) = cascade_ids w c"
  proof -
    have "set (map (\<lambda>t. fm_id (t_fm t)) (filter ?ok ?ts)) = {i. selected ?ok ?ts i}" by (auto simp: selected_def)
    then show ?thesis by (simp only: sel Collect_mem_eq)
  qed
  have distinct: "distinct (map (\<lambda>t. fm_id (t_fm t)) (filter ?ok ?ts))"
    using dependents_listed [OF cons] by (intro distinct_map_filter) simp
  have final: "abs_store w' i = (if i \<in> cascade_ids w c
      then map_option (\<lambda>fb. (transition_fm (fst fb) Ready None ?n, js_trim (snd fb))) (abs_store w i) else abs_store w i)"
    if ready: "\<forall>t \<in> set ?ts. ?ok t \<longrightarrow> abs_store w' (fm_id (t_fm t)) = Some (made_ready ?n t)"
      and rest: "\<forall>i. \<not> selected ?ok ?ts i \<longrightarrow> abs_store w' i = abs_store w i" for w' i
  proof (cases "i \<in> cascade_ids w c")
    case True
    then obtain t where t: "t \<in> set ?ts" "fm_id (t_fm t) = i" "?ok t" using sel unfolding selected_def by blast
    moreover have "abs_store w i = Some (t_fm t, t_body t)"
      using dependents_listed [OF cons, of c "[Backlog, Blocked]"] t(1,2) by (auto simp: listed_in_def)
    ultimately show ?thesis using ready True by (auto simp: made_ready_def)
  next
    case False
    then show ?thesis using rest sel by simp
  qed
  show ?thesis
    unfolding cascadeOnCompletion_def yields_bind yields_list_all [OF cons]
  proof (rule yields_mono [OF run], elim conjE, rule yields_report)
    fix r w1 e
    assume r: "r = fold (promoted_result ?ok) ?ts no_cascade" and w1: "tidy w1" "w_now w1 = ?n"
      and ready: "\<forall>t \<in> set ?ts. ?ok t \<longrightarrow> abs_store w1 (fm_id (t_fm t)) = Some (made_ready ?n t)"
      and rest: "\<forall>i. \<not> selected ?ok ?ts i \<longrightarrow> abs_store w1 i = abs_store w i"
    have "cs_promoted r = map (\<lambda>t. fm_id (t_fm t)) (filter ?ok ?ts)" by (simp add: r fold_promoted no_cascade_def)
    then show "set (cs_promoted r) = cascade_ids w c \<and> distinct (cs_promoted r) \<and> tidy (w1\<lparr>w_events := e\<rparr>) \<and>
        w_now (w1\<lparr>w_events := e\<rparr>) = ?n \<and> (\<forall>i. abs_store (w1\<lparr>w_events := e\<rparr>) i =
          (if i \<in> cascade_ids w c
           then map_option (\<lambda>fb. (transition_fm (fst fb) Ready None ?n, js_trim (snd fb))) (abs_store w i)
           else abs_store w i))"
      using ids distinct w1 final [OF ready rest] by simp
  qed
qed

text \<open>
  C13: completion cascade. On a tidy store, completing a task makes ready exactly its dependents in
  \<open>backlog\<close> or \<open>blocked\<close> whose dependencies are all done; they are reported once each, and no other
  task changes.
\<close>

theorem cascade_exact:
  assumes "tidy w"
  shows "\<exists>r w'. cascadeOnCompletion c w = (Inr r, w') \<and> set (cs_promoted r) = cascade_ids w c \<and> distinct (cs_promoted r) \<and> tidy w' \<and>
    (\<forall>i. abs_store w' i =
      (if i \<in> cascade_ids w c
       then map_option (\<lambda>fb. (transition_fm (fst fb) Ready None (w_now w), js_trim (snd fb))) (abs_store w i)
       else abs_store w i))"
  using yieldsD [OF cascade_run [OF assms]] by blast

text \<open>A task in the backlog waits for one that is done; a second one also waits for one that is not there.\<close>

definition waiting :: "string \<Rightarrow> string list \<Rightarrow> frontmatter" where
  "waiting i deps = (sample_fm i Backlog)\<lparr>fm_dependsOn := deps\<rparr>"

definition cascade_example :: world where
  "cascade_example = tasks_world [sample_fm ''up'' Done, waiting ''down'' [''up''], waiting ''late'' [''up'', ''gone'']]"

theorem cascade_exact_witness:
  "\<exists>r w'. cascadeOnCompletion ''up'' cascade_example = (Inr r, w') \<and> set (cs_promoted r) = {''down''} \<and>
    map_option (\<lambda>fb. fm_status (fst fb)) (abs_store w' ''down'') = Some Ready \<and>
    map_option (\<lambda>fb. fm_status (fst fb)) (abs_store w' ''late'') = Some Backlog"
proof -
  have "cascade_ids cascade_example ''up'' = {''down''}"
    by (auto simp: cascade_ids_def cascade_example_def waiting_def deps_done_def split: if_splits)
  then show ?thesis
    using cascade_exact [of cascade_example "''up''"] by (force simp: cascade_example_def waiting_def transition_fm_def)
qed

end
