(* ===== verification/ProtocolSchema.thy ===== *)
theory ProtocolSchema
  imports World
begin

section \<open>Protocol messages (schemas/protocol.ts, protocol/parsers.ts)\<close>

text \<open>
  The typed envelope and its payloads, the size limits, the decoding of a JSON value by the schema,
  and \<open>parseProtocolMessage\<close>. \<open>JSON.parse\<close>, the check of an ISO date and the wording of schema issues
  are the record \<open>parser_lib\<close>. Lengths are those of ASCII texts, where characters and bytes agree.
  Shown: what is accepted keeps every limit, and no oversized text reaches \<open>JSON.parse\<close>.
\<close>

definition MAX_SUMMARY_REF_LENGTH :: nat where "MAX_SUMMARY_REF_LENGTH = 256"
definition MAX_NOTES_LENGTH :: nat where "MAX_NOTES_LENGTH = 10000"
definition MAX_PROGRESS_LENGTH :: nat where "MAX_PROGRESS_LENGTH = 1000"
definition MAX_REASON_LENGTH :: nat where "MAX_REASON_LENGTH = 512"
definition MAX_ITEM_LENGTH :: nat where "MAX_ITEM_LENGTH = 256"
definition MAX_DELIVERABLES_COUNT :: nat where "MAX_DELIVERABLES_COUNT = 50"
definition MAX_BLOCKERS_COUNT :: nat where "MAX_BLOCKERS_COUNT = 20"
definition MAX_CONTEXT_REFS_COUNT :: nat where "MAX_CONTEXT_REFS_COUNT = 50"
definition MAX_ACCEPTANCE_CRITERIA_COUNT :: nat where "MAX_ACCEPTANCE_CRITERIA_COUNT = 50"
definition MAX_EXPECTED_OUTPUTS_COUNT :: nat where "MAX_EXPECTED_OUTPUTS_COUNT = 50"
definition MAX_CONSTRAINTS_COUNT :: nat where "MAX_CONSTRAINTS_COUNT = 50"
definition MAX_ENVELOPE_BYTES :: nat where "MAX_ENVELOPE_BYTES = 10 * 1024 * 1024"

lemmas protocol_limits = MAX_SUMMARY_REF_LENGTH_def MAX_NOTES_LENGTH_def MAX_PROGRESS_LENGTH_def MAX_REASON_LENGTH_def
  MAX_ITEM_LENGTH_def MAX_DELIVERABLES_COUNT_def MAX_BLOCKERS_COUNT_def MAX_CONTEXT_REFS_COUNT_def
  MAX_ACCEPTANCE_CRITERIA_COUNT_def MAX_EXPECTED_OUTPUTS_COUNT_def MAX_CONSTRAINTS_COUNT_def

record completion_report =
  cr_outcome :: completion_outcome
  cr_summaryRef :: string
  cr_deliverables :: "string list"
  cr_tests :: test_report
  cr_blockers :: "string list"
  cr_notes :: string

record status_update =
  su_taskId :: string
  su_agentId :: string
  su_status :: "task_status option"
  su_progress :: "string option"
  su_blockers :: "string list option"
  su_notes :: "string option"

record handoff_request =
  hq_taskId :: string
  hq_parentTaskId :: string
  hq_fromAgent :: string
  hq_toAgent :: string
  hq_acceptanceCriteria :: "string list"
  hq_expectedOutputs :: "string list"
  hq_contextRefs :: "string list"
  hq_constraints :: "string list"
  hq_dueBy :: string

record handoff_ack =
  ha_taskId :: string
  ha_accepted :: bool
  ha_reason :: "string option"

datatype message =
    HandoffRequest handoff_request
  | HandoffAccepted handoff_ack
  | HandoffRejected handoff_ack
  | StatusUpdate status_update
  | CompletionReport completion_report

record envelope =
  en_projectId :: string
  en_taskRelpath :: "string option"
  en_taskId :: string
  en_fromAgent :: string
  en_toAgent :: string
  en_sentAt :: int
  en_message :: message

record parser_lib =
  pl_parseJson :: "string \<Rightarrow> string + json"
  pl_datetime :: "string \<Rightarrow> int option"
  pl_issues :: "json \<Rightarrow> string list"

subsection \<open>Decoding by the schema\<close>

definition js_field :: "json \<Rightarrow> string \<Rightarrow> json option" where
  "js_field v k = (case v of JObj kvs \<Rightarrow> map_of kvs k | _ \<Rightarrow> None)"

definition str_prop :: "nat option \<Rightarrow> json \<Rightarrow> string \<Rightarrow> string option" where
  "str_prop limit v k = (case js_field v k of
     Some (JStr s) \<Rightarrow> (case limit of None \<Rightarrow> Some s | Some n \<Rightarrow> if length s \<le> n then Some s else None)
   | _ \<Rightarrow> None)"

text \<open>An optional field: absent, or present and valid.\<close>

definition optional :: "(json \<Rightarrow> string \<Rightarrow> 'a option) \<Rightarrow> json \<Rightarrow> string \<Rightarrow> 'a option option" where
  "optional f v k = (if js_field v k = None then Some None else map_option Some (f v k))"

definition task_id_prop :: "json \<Rightarrow> string \<Rightarrow> string option" where
  "task_id_prop v k = Option.bind (str_prop None v k) (\<lambda>s. if valid_task_id s then Some s else None)"

fun item_list :: "nat \<Rightarrow> json list \<Rightarrow> string list option" where
  "item_list n [] = Some []"
| "item_list n (JStr s # vs) = (if length s \<le> n then map_option (Cons s) (item_list n vs) else None)"
| "item_list n (_ # vs) = None"

text \<open>\<open>z.array(z.string().max(MAX_ITEM_LENGTH)).max(n)\<close>\<close>

definition array_prop :: "nat \<Rightarrow> json \<Rightarrow> string \<Rightarrow> string list option" where
  "array_prop n v k = (case js_field v k of
     Some (JArr xs) \<Rightarrow> if length xs \<le> n then item_list MAX_ITEM_LENGTH xs else None
   | _ \<Rightarrow> None)"

text \<open>\<open>.default([])\<close>\<close>

definition array_or_empty :: "nat \<Rightarrow> json \<Rightarrow> string \<Rightarrow> string list option" where
  "array_or_empty n v k = (if js_field v k = None then Some [] else array_prop n v k)"

definition nat_prop :: "json \<Rightarrow> string \<Rightarrow> nat option" where
  "nat_prop v k = (case js_field v k of
     Some (JNum r) \<Rightarrow> if r \<ge> 0 \<and> of_int (floor r) = r then Some (nat (floor r)) else None
   | _ \<Rightarrow> None)"

definition bool_prop :: "json \<Rightarrow> string \<Rightarrow> bool option" where
  "bool_prop v k = (case js_field v k of Some (JBool b) \<Rightarrow> Some b | _ \<Rightarrow> None)"

definition status_prop :: "json \<Rightarrow> string \<Rightarrow> task_status option" where
  "status_prop v k = Option.bind (str_prop None v k) (\<lambda>s. find (\<lambda>st. status_str st = s) STATUS_DIRS)"

fun outcome_name :: "completion_outcome \<Rightarrow> string" where
  "outcome_name CDone = ''done''"
| "outcome_name CBlocked = ''blocked''"
| "outcome_name CNeedsReview = ''needs_review''"
| "outcome_name CPartial = ''partial''"

definition outcome_prop :: "json \<Rightarrow> string \<Rightarrow> completion_outcome option" where
  "outcome_prop v k = Option.bind (str_prop None v k)
     (\<lambda>s. find (\<lambda>oc. outcome_name oc = s) [CDone, CBlocked, CNeedsReview, CPartial])"

definition datetime_prop :: "parser_lib \<Rightarrow> json \<Rightarrow> string \<Rightarrow> (string \<times> int) option" where
  "datetime_prop lib v k = Option.bind (str_prop None v k) (\<lambda>s. map_option (Pair s) (pl_datetime lib s))"

definition decode_tests :: "json \<Rightarrow> test_report option" where
  "decode_tests v =
     Option.bind (nat_prop v ''total'') (\<lambda>total.
     Option.bind (nat_prop v ''passed'') (\<lambda>passed.
     Option.bind (nat_prop v ''failed'') (\<lambda>failed.
       if passed + failed \<le> total then Some \<lparr>tp_total = total, tp_passed = passed, tp_failed = failed\<rparr> else None)))"

definition decode_completion :: "json \<Rightarrow> completion_report option" where
  "decode_completion v =
     Option.bind (outcome_prop v ''outcome'') (\<lambda>outcome.
     Option.bind (str_prop (Some MAX_SUMMARY_REF_LENGTH) v ''summaryRef'') (\<lambda>summaryRef.
     Option.bind (array_or_empty MAX_DELIVERABLES_COUNT v ''deliverables'') (\<lambda>deliverables.
     Option.bind (Option.bind (js_field v ''tests'') decode_tests) (\<lambda>tests.
     Option.bind (array_or_empty MAX_BLOCKERS_COUNT v ''blockers'') (\<lambda>blockers.
     Option.bind (str_prop (Some MAX_NOTES_LENGTH) v ''notes'') (\<lambda>notes.
       Some \<lparr>cr_outcome = outcome, cr_summaryRef = summaryRef, cr_deliverables = deliverables, cr_tests = tests,
             cr_blockers = blockers, cr_notes = notes\<rparr>))))))"

definition decode_status_update :: "json \<Rightarrow> status_update option" where
  "decode_status_update v =
     Option.bind (task_id_prop v ''taskId'') (\<lambda>taskId.
     Option.bind (str_prop None v ''agentId'') (\<lambda>agentId.
     Option.bind (optional status_prop v ''status'') (\<lambda>status.
     Option.bind (optional (str_prop (Some MAX_PROGRESS_LENGTH)) v ''progress'') (\<lambda>progress.
     Option.bind (optional (array_prop MAX_BLOCKERS_COUNT) v ''blockers'') (\<lambda>blockers.
     Option.bind (optional (str_prop (Some MAX_NOTES_LENGTH)) v ''notes'') (\<lambda>notes.
       if status \<noteq> None \<or> progress \<noteq> None \<or> blockers \<noteq> None \<or> notes \<noteq> None
       then Some \<lparr>su_taskId = taskId, su_agentId = agentId, su_status = status, su_progress = progress,
                  su_blockers = blockers, su_notes = notes\<rparr>
       else None))))))"

definition decode_handoff_request :: "parser_lib \<Rightarrow> json \<Rightarrow> handoff_request option" where
  "decode_handoff_request lib v =
     Option.bind (task_id_prop v ''taskId'') (\<lambda>taskId.
     Option.bind (task_id_prop v ''parentTaskId'') (\<lambda>parentTaskId.
     Option.bind (str_prop None v ''fromAgent'') (\<lambda>fromAgent.
     Option.bind (str_prop None v ''toAgent'') (\<lambda>toAgent.
     Option.bind (array_or_empty MAX_ACCEPTANCE_CRITERIA_COUNT v ''acceptanceCriteria'') (\<lambda>criteria.
     Option.bind (array_or_empty MAX_EXPECTED_OUTPUTS_COUNT v ''expectedOutputs'') (\<lambda>outputs.
     Option.bind (array_or_empty MAX_CONTEXT_REFS_COUNT v ''contextRefs'') (\<lambda>refs.
     Option.bind (array_or_empty MAX_CONSTRAINTS_COUNT v ''constraints'') (\<lambda>constraints.
     Option.bind (datetime_prop lib v ''dueBy'') (\<lambda>due.
       Some \<lparr>hq_taskId = taskId, hq_parentTaskId = parentTaskId, hq_fromAgent = fromAgent, hq_toAgent = toAgent,
             hq_acceptanceCriteria = criteria, hq_expectedOutputs = outputs, hq_contextRefs = refs,
             hq_constraints = constraints, hq_dueBy = fst due\<rparr>)))))))))"

definition decode_handoff_ack :: "json \<Rightarrow> handoff_ack option" where
  "decode_handoff_ack v =
     Option.bind (task_id_prop v ''taskId'') (\<lambda>taskId.
     Option.bind (bool_prop v ''accepted'') (\<lambda>accepted.
     Option.bind (optional (str_prop (Some MAX_REASON_LENGTH)) v ''reason'') (\<lambda>reason.
       Some \<lparr>ha_taskId = taskId, ha_accepted = accepted, ha_reason = reason\<rparr>)))"

definition decode_message :: "parser_lib \<Rightarrow> string \<Rightarrow> json \<Rightarrow> message option" where
  "decode_message lib ty payload =
     (if ty = ''handoff.request'' then map_option HandoffRequest (decode_handoff_request lib payload)
      else if ty = ''handoff.accepted'' then map_option HandoffAccepted (decode_handoff_ack payload)
      else if ty = ''handoff.rejected'' then map_option HandoffRejected (decode_handoff_ack payload)
      else if ty = ''status.update'' then map_option StatusUpdate (decode_status_update payload)
      else if ty = ''completion.report'' then map_option CompletionReport (decode_completion payload)
      else None)"

definition preprocessProjectId :: "json \<Rightarrow> json" where
  "preprocessProjectId v = (case v of
     JObj kvs \<Rightarrow>
       (case map_of kvs ''project_id'' of
          Some p \<Rightarrow> if map_of kvs ''projectId'' = None then JObj (kvs @ [(''projectId'', p)]) else v
        | None \<Rightarrow> v)
   | _ \<Rightarrow> v)"

definition decode_envelope :: "parser_lib \<Rightarrow> json \<Rightarrow> envelope option" where
  "decode_envelope lib v0 =
     (let v = preprocessProjectId v0 in
      if js_field v ''protocol'' \<noteq> Some (JStr ''aof'') \<or> js_field v ''version'' \<noteq> Some (JNum 1) then None
      else
        Option.bind (str_prop None v ''projectId'') (\<lambda>projectId.
        Option.bind (optional (str_prop None) v ''taskRelpath'') (\<lambda>taskRelpath.
        Option.bind (task_id_prop v ''taskId'') (\<lambda>taskId.
        Option.bind (str_prop None v ''fromAgent'') (\<lambda>fromAgent.
        Option.bind (str_prop None v ''toAgent'') (\<lambda>toAgent.
        Option.bind (datetime_prop lib v ''sentAt'') (\<lambda>sentAt.
        Option.bind (str_prop None v ''type'') (\<lambda>ty.
        Option.bind (Option.bind (js_field v ''payload'') (decode_message lib ty)) (\<lambda>message.
          Some \<lparr>en_projectId = projectId, en_taskRelpath = taskRelpath, en_taskId = taskId, en_fromAgent = fromAgent,
                en_toAgent = toAgent, en_sentAt = snd sentAt, en_message = message\<rparr>)))))))))"

subsection \<open>parseProtocolMessage\<close>

definition PROTOCOL_PREFIX :: string where "PROTOCOL_PREFIX = ''AOF/1 ''"

definition reject :: "(string \<times> json) list \<Rightarrow> envelope option m" where
  "reject payload = andThen (log_event ''protocol.message.rejected'' ''system'' None payload) (ret None)"

definition too_large :: "envelope option m" where
  "too_large = reject [(''reason'', JStr ''payload_too_large''), (''maxBytes'', JNum (of_nat MAX_ENVELOPE_BYTES))]"

text \<open>A field that is present, even with the value \<open>null\<close>, is not \<open>undefined\<close>.\<close>

definition extractPayload :: "json \<Rightarrow> json" where
  "extractPayload event =
     (case js_field event ''payload'' of Some p \<Rightarrow> p
      | None \<Rightarrow> (case js_field event ''message'' of Some p \<Rightarrow> p
         | None \<Rightarrow> (case js_field event ''content'' of Some p \<Rightarrow> p | None \<Rightarrow> event)))"

definition validateEnvelope :: "parser_lib \<Rightarrow> json \<Rightarrow> envelope option m" where
  "validateEnvelope lib v = (case decode_envelope lib v of
     None \<Rightarrow> reject [(''reason'', JStr ''invalid_envelope''), (''errors'', JArr (map JStr (pl_issues lib v)))]
   | Some e \<Rightarrow> ret (Some e))"

definition parseJsonEnvelope :: "parser_lib \<Rightarrow> string \<Rightarrow> string \<Rightarrow> envelope option m" where
  "parseJsonEnvelope lib jsonText source = (case pl_parseJson lib jsonText of
     Inl err \<Rightarrow> reject [(''reason'', JStr ''invalid_json''), (''source'', JStr source), (''error'', JStr err)]
   | Inr v \<Rightarrow> validateEnvelope lib v)"

definition parse_text :: "parser_lib \<Rightarrow> string \<Rightarrow> envelope option m" where
  "parse_text lib s =
     (if length s > MAX_ENVELOPE_BYTES then too_large
      else
        (let trimmed = js_trim s in
         if str_prefix PROTOCOL_PREFIX trimmed
         then parseJsonEnvelope lib (js_trim (drop (length PROTOCOL_PREFIX) trimmed)) ''AOF/1 prefix''
         else if str_prefix ''{'' trimmed \<or> str_prefix ''['' trimmed then parseJsonEnvelope lib trimmed ''json''
         else ret None))"

definition parseProtocolMessage :: "parser_lib \<Rightarrow> json \<Rightarrow> envelope option m" where
  "parseProtocolMessage lib event =
     (if (case event of JStr s \<Rightarrow> length s > MAX_ENVELOPE_BYTES | _ \<Rightarrow> False) then too_large
      else
        (case extractPayload event of
           JObj kvs \<Rightarrow> if map_of kvs ''protocol'' = Some (JStr ''aof'') then validateEnvelope lib (JObj kvs) else ret None
         | JStr s \<Rightarrow> parse_text lib s
         | _ \<Rightarrow> ret None))"

subsection \<open>The limits hold\<close>

definition items_ok :: "nat \<Rightarrow> string list \<Rightarrow> bool" where
  "items_ok n xs \<longleftrightarrow> length xs \<le> n \<and> (\<forall>s \<in> set xs. length s \<le> MAX_ITEM_LENGTH)"

definition fits :: "nat \<Rightarrow> string option \<Rightarrow> bool" where
  "fits n s \<longleftrightarrow> (case s of None \<Rightarrow> True | Some x \<Rightarrow> length x \<le> n)"

fun message_ok :: "message \<Rightarrow> bool" where
  "message_ok (HandoffRequest q) \<longleftrightarrow>
     valid_task_id (hq_taskId q) \<and> valid_task_id (hq_parentTaskId q) \<and>
     items_ok MAX_ACCEPTANCE_CRITERIA_COUNT (hq_acceptanceCriteria q) \<and> items_ok MAX_EXPECTED_OUTPUTS_COUNT (hq_expectedOutputs q) \<and>
     items_ok MAX_CONTEXT_REFS_COUNT (hq_contextRefs q) \<and> items_ok MAX_CONSTRAINTS_COUNT (hq_constraints q)"
| "message_ok (HandoffAccepted a) \<longleftrightarrow> valid_task_id (ha_taskId a) \<and> fits MAX_REASON_LENGTH (ha_reason a)"
| "message_ok (HandoffRejected a) \<longleftrightarrow> valid_task_id (ha_taskId a) \<and> fits MAX_REASON_LENGTH (ha_reason a)"
| "message_ok (StatusUpdate u) \<longleftrightarrow>
     valid_task_id (su_taskId u) \<and> fits MAX_PROGRESS_LENGTH (su_progress u) \<and> fits MAX_NOTES_LENGTH (su_notes u) \<and>
     (case su_blockers u of None \<Rightarrow> True | Some bs \<Rightarrow> items_ok MAX_BLOCKERS_COUNT bs) \<and>
     (su_status u \<noteq> None \<or> su_progress u \<noteq> None \<or> su_blockers u \<noteq> None \<or> su_notes u \<noteq> None)"
| "message_ok (CompletionReport c) \<longleftrightarrow>
     length (cr_summaryRef c) \<le> MAX_SUMMARY_REF_LENGTH \<and> length (cr_notes c) \<le> MAX_NOTES_LENGTH \<and>
     items_ok MAX_DELIVERABLES_COUNT (cr_deliverables c) \<and> items_ok MAX_BLOCKERS_COUNT (cr_blockers c) \<and>
     tp_passed (cr_tests c) + tp_failed (cr_tests c) \<le> tp_total (cr_tests c)"

lemma item_list_ok: "item_list n vs = Some xs \<Longrightarrow> length xs = length vs \<and> (\<forall>s \<in> set xs. length s \<le> n)"
  by (induction n vs arbitrary: xs rule: item_list.induct) (auto split: if_splits)

lemma field_ok:
  "array_prop n v k = Some xs \<Longrightarrow> items_ok n xs"
  "array_or_empty n v k = Some xs \<Longrightarrow> items_ok n xs"
  "str_prop (Some n) v k = Some s \<Longrightarrow> length s \<le> n"
  "optional (str_prop (Some n)) v k = Some o' \<Longrightarrow> fits n o'"
  "optional (array_prop n) v k = Some (Some xs) \<Longrightarrow> items_ok n xs"
  "task_id_prop v k = Some i \<Longrightarrow> valid_task_id i"
  by (auto simp: array_prop_def array_or_empty_def str_prop_def optional_def task_id_prop_def items_ok_def fits_def
      bind_eq_Some_conv split: option.splits json.splits if_splits dest: item_list_ok)

lemma optional_items:
  "optional (array_prop n) v k = Some bs \<Longrightarrow> case bs of None \<Rightarrow> True | Some xs \<Rightarrow> items_ok n xs"
  using field_ok(5) by (cases bs) auto

lemma if_Some: "(if c then Some x else None) = Some y \<longleftrightarrow> c \<and> x = y"
  by simp

lemma decode_tests_ok: "decode_tests v = Some t \<Longrightarrow> tp_passed t + tp_failed t \<le> tp_total t"
  by (auto simp: decode_tests_def bind_eq_Some_conv split: if_splits)

lemma decode_payload_ok:
  "decode_completion v = Some c \<Longrightarrow> message_ok (CompletionReport c)"
  "decode_handoff_ack v = Some a \<Longrightarrow> message_ok (HandoffAccepted a) \<and> message_ok (HandoffRejected a)"
  "decode_handoff_request lib v = Some q \<Longrightarrow> message_ok (HandoffRequest q)"
  "decode_status_update v = Some u \<Longrightarrow> message_ok (StatusUpdate u)"
proof -
  assume "decode_completion v = Some c"
  then show "message_ok (CompletionReport c)"
    by (clarsimp simp: decode_completion_def bind_eq_Some_conv) (intro conjI field_ok decode_tests_ok; assumption)
next
  assume "decode_handoff_ack v = Some a"
  then show "message_ok (HandoffAccepted a) \<and> message_ok (HandoffRejected a)"
    by (clarsimp simp: decode_handoff_ack_def bind_eq_Some_conv) (intro conjI field_ok; assumption)
next
  assume "decode_handoff_request lib v = Some q"
  then show "message_ok (HandoffRequest q)"
    by (clarsimp simp: decode_handoff_request_def bind_eq_Some_conv) (intro conjI field_ok; assumption)
next
  assume "decode_status_update v = Some u"
  then show "message_ok (StatusUpdate u)"
    unfolding decode_status_update_def bind_eq_Some_conv if_Some
    by (elim exE conjE)
      (erule_tac t = u in subst, simp only: message_ok.simps status_update.simps, blast intro: field_ok optional_items)
qed

lemma if_chain: "(if c then x else y) = Some m \<Longrightarrow> (x = Some m \<Longrightarrow> P) \<Longrightarrow> (y = Some m \<Longrightarrow> P) \<Longrightarrow> P"
  by (simp split: if_splits)

lemma decode_message_ok: "decode_message lib ty v = Some m \<Longrightarrow> message_ok m"
  unfolding decode_message_def
  by (elim if_chain) (auto simp del: message_ok.simps dest: decode_payload_ok)

lemma decode_envelope_ok:
  "decode_envelope lib v = Some e \<Longrightarrow> message_ok (en_message e) \<and> valid_task_id (en_taskId e)"
  by (auto simp: decode_envelope_def Let_def bind_eq_Some_conv split: if_splits intro: field_ok decode_message_ok)

text \<open>An operation that only logs, and whose result satisfies \<open>P\<close>.\<close>

definition only_logs :: "'a m \<Rightarrow> ('a \<Rightarrow> bool) \<Rightarrow> bool" where
  "only_logs f P \<longleftrightarrow> (\<forall>w. \<exists>r es. f w = (Inr r, w\<lparr>w_events := es\<rparr>) \<and> P r)"

definition acceptable :: "envelope option \<Rightarrow> bool" where
  "acceptable r \<longleftrightarrow> (case r of None \<Rightarrow> True | Some e \<Rightarrow> valid_task_id (en_taskId e) \<and> message_ok (en_message e))"

lemma only_logs_ret: "P x \<Longrightarrow> only_logs (ret x) P"
  unfolding only_logs_def
proof
  fix w :: world
  assume "P x"
  then have "ret x w = (Inr x, w\<lparr>w_events := w_events w\<rparr>) \<and> P x" by (simp add: run_simps)
  then show "\<exists>r es. ret x w = (Inr r, w\<lparr>w_events := es\<rparr>) \<and> P r" by blast
qed

lemma only_logs_reject: "P None \<Longrightarrow> only_logs (reject p) P"
  by (auto simp: only_logs_def reject_def log_event_def run_simps)

lemma validate_acceptable: "only_logs (validateEnvelope lib v) acceptable"
  unfolding validateEnvelope_def
  by (cases "decode_envelope lib v")
    (auto intro!: only_logs_reject only_logs_ret simp: acceptable_def dest: decode_envelope_ok)

lemma parse_json_acceptable: "only_logs (parseJsonEnvelope lib s src) acceptable"
  unfolding parseJsonEnvelope_def
  by (auto intro: validate_acceptable only_logs_reject simp: acceptable_def split: sum.split)

lemma parse_text_acceptable: "only_logs (parse_text lib s) acceptable"
  unfolding parse_text_def too_large_def Let_def
  by (auto intro: parse_json_acceptable only_logs_reject only_logs_ret simp: acceptable_def)

lemma too_large_acceptable: "only_logs too_large acceptable"
  unfolding too_large_def by (rule only_logs_reject) (simp add: acceptable_def)

lemma none_acceptable: "only_logs (ret None) acceptable"
  by (rule only_logs_ret) (simp add: acceptable_def)

lemma parse_acceptable: "only_logs (parseProtocolMessage lib event) acceptable"
proof (cases "case event of JStr s \<Rightarrow> length s > MAX_ENVELOPE_BYTES | _ \<Rightarrow> False")
  case True
  then show ?thesis by (simp only: parseProtocolMessage_def if_True too_large_acceptable)
next
  case False
  show ?thesis
    unfolding parseProtocolMessage_def if_not_P [OF False]
    by (cases "extractPayload event")
      (simp_all only: json.case none_acceptable parse_text_acceptable validate_acceptable split: if_split, simp)
qed

lemma oversized_text: "MAX_ENVELOPE_BYTES < length s \<Longrightarrow> parse_text lib s = too_large"
  by (simp add: parse_text_def)

text \<open>
  C17: the limits of the protocol. Parsing never throws and changes nothing but the event log. An
  accepted message has a valid task id and keeps every size limit of its payload. A text above 10 MB
  is not given to \<open>JSON.parse\<close>, whatever wraps it: it is rejected however the library behaves.
\<close>

theorem parse_limits:
  "\<exists>r es. parseProtocolMessage lib event w = (Inr r, w\<lparr>w_events := es\<rparr>) \<and>
    (case r of None \<Rightarrow> True | Some e \<Rightarrow> valid_task_id (en_taskId e) \<and> message_ok (en_message e)) \<and>
    (case extractPayload event of
       JStr s \<Rightarrow> length s \<le> MAX_ENVELOPE_BYTES \<or> (\<forall>lib'. parseProtocolMessage lib' event w = (Inr None, w\<lparr>w_events := es\<rparr>))
     | _ \<Rightarrow> True)"
proof -
  from parse_acceptable [of lib event] obtain r es
    where r: "parseProtocolMessage lib event w = (Inr r, w\<lparr>w_events := es\<rparr>)" "acceptable r"
    unfolding only_logs_def by blast
  moreover have "parseProtocolMessage lib' event w = (Inr None, w\<lparr>w_events := es\<rparr>)"
    if "extractPayload event = JStr s" "MAX_ENVELOPE_BYTES < length s" for lib' s
  proof -
    have "parseProtocolMessage l event = too_large" for l
      using that by (simp add: parseProtocolMessage_def oversized_text)
    moreover obtain es' where "too_large w = (Inr None, w\<lparr>w_events := es'\<rparr>)"
      by (auto simp: too_large_def reject_def log_event_def run_simps)
    ultimately show ?thesis using r(1) by simp
  qed
  ultimately show ?thesis
    unfolding acceptable_def by (intro exI [of _ r] exI [of _ es] conjI) (auto split: json.split simp: not_le)
qed

end
