(* ===== verification/Completion.thy ===== *)
theory Completion
  imports DepCascader ProtocolSchema AssignProps
begin

section \<open>What a report does to a task (protocol/completion-utils.ts, formatters.ts, router-helpers.ts)\<close>

text \<open>
  The table from outcomes to transitions, the texts built from a report, the authorization check and
  the application of an outcome. \<open>notify\<close> is the optional notification service. Shown: where every
  outcome leaves a task, on which the handlers of the router rest.
\<close>

subsection \<open>Outcomes\<close>

definition resolveCompletionTransitions :: "task \<Rightarrow> completion_outcome \<Rightarrow> task_status list" where
  "resolveCompletionTransitions t outcome =
     (let reviewRequired = (fm_metadata (t_fm t) ''reviewRequired'' \<noteq> Some (JBool False)) in
      case outcome of
        CDone \<Rightarrow> if fm_status (t_fm t) = Done then [] else if reviewRequired then [Review] else [Review, Done]
      | CBlocked \<Rightarrow> [Blocked]
      | CNeedsReview \<Rightarrow> [Review]
      | CPartial \<Rightarrow> [Review])"

subsection \<open>Texts\<close>

definition buildCompletionReason :: "completion_outcome \<Rightarrow> string \<Rightarrow> string list \<Rightarrow> string" where
  "buildCompletionReason outcome notes blockers =
     (if outcome = CBlocked \<and> blockers \<noteq> [] then join_with ''; '' blockers else notes)"

definition has_blockers :: "status_update \<Rightarrow> bool" where
  "has_blockers u = (case su_blockers u of None \<Rightarrow> False | Some bs \<Rightarrow> bs \<noteq> [])"

definition buildStatusReason :: "status_update \<Rightarrow> string option" where
  "buildStatusReason u =
     (if has_blockers u then Some (join_with ''; '' (the (su_blockers u)))
      else if truthy_str (su_notes u) then su_notes u
      else if truthy_str (su_progress u) then su_progress u
      else None)"

definition shouldAppendWorkLog :: "status_update \<Rightarrow> bool" where
  "shouldAppendWorkLog u = (truthy_str (su_progress u) \<or> truthy_str (su_notes u) \<or> has_blockers u)"

definition work_log_details :: "status_update \<Rightarrow> string list" where
  "work_log_details u =
     (if truthy_str (su_progress u) then [''Progress: '' @ the (su_progress u)] else []) @
     (if truthy_str (su_notes u) then [''Notes: '' @ the (su_notes u)] else []) @
     (if has_blockers u then [''Blockers: '' @ join_with '', '' (the (su_blockers u))] else [])"

text \<open>\<open>stamp\<close> is \<open>new Date().toISOString()\<close>.\<close>

definition buildWorkLogEntry :: "string \<Rightarrow> status_update \<Rightarrow> string option" where
  "buildWorkLogEntry stamp u =
     (if work_log_details u = [] then None
      else Some (''- '' @ stamp @ '' '' @ join_with '' | '' (work_log_details u)))"

definition appendSection :: "string \<Rightarrow> string \<Rightarrow> string list \<Rightarrow> string" where
  "appendSection body title ls =
     (if ls = [] then body
      else
        (let sec = join_with [CHR 0x0A] ((''## '' @ title) # ls) in
         if js_trim body = [] then sec else js_trim body @ [CHR 0x0A, CHR 0x0A] @ sec))"

subsection \<open>Authorization\<close>

definition resolveAuthorizedAgent :: "task \<Rightarrow> string option" where
  "resolveAuthorizedAgent t = (case fm_lease (t_fm t) of None \<Rightarrow> rt_agent (fm_routing (t_fm t)) | Some l \<Rightarrow> Some (tl_agent l))"

definition checkAuthorization :: "string \<Rightarrow> string \<Rightarrow> task \<Rightarrow> bool m" where
  "checkAuthorization fromAgent taskId t =
     (let authorizedAgent = resolveAuthorizedAgent t in
      if \<not> truthy_str authorizedAgent then
        andThen (log_event ''protocol.message.rejected'' ''system'' (Some taskId)
                   [(''reason'', JStr ''unassigned_task''), (''sender'', JStr fromAgent)])
          (ret False)
      else if Some fromAgent \<noteq> authorizedAgent then
        andThen (log_event ''protocol.message.rejected'' ''system'' (Some taskId)
                   ([(''reason'', JStr ''unauthorized_agent'')] @ opt_str ''expected'' authorizedAgent @ [(''received'', JStr fromAgent)]))
          (ret False)
      else ret True)"

subsection \<open>Transitions\<close>

definition protocol_opts :: "string option \<Rightarrow> string \<Rightarrow> transition_opts" where
  "protocol_opts reason actor = \<lparr>to_reason = reason, to_agent = Some actor, to_metadataPatch = None\<rparr>"

text \<open>\<open>transitionTask\<close> of the router helpers.\<close>

definition transition_if_valid :: "task \<Rightarrow> task_status \<Rightarrow> string \<Rightarrow> string option \<Rightarrow> task m" where
  "transition_if_valid t s actor reason =
     (if fm_status (t_fm t) = s \<or> \<not> isValidTransition (fm_status (t_fm t)) s then ret t
      else transition_task (fm_id (t_fm t)) s (protocol_opts reason actor))"

definition logTransition :: "string \<Rightarrow> task_status \<Rightarrow> task_status \<Rightarrow> string \<Rightarrow> string option \<Rightarrow> unit m" where
  "logTransition taskId from to actor reason =
     log_event ''task.transitioned'' actor (Some taskId)
       ([(''from'', JStr (status_str from)), (''to'', JStr (status_str to))] @ opt_str ''reason'' reason)"

type_synonym notifier = "(string \<Rightarrow> task_status \<Rightarrow> task_status \<Rightarrow> string \<Rightarrow> string option \<Rightarrow> unit m) option"

definition notifyTransition :: "notifier \<Rightarrow> string \<Rightarrow> task_status \<Rightarrow> task_status \<Rightarrow> string \<Rightarrow> string option \<Rightarrow> unit m" where
  "notifyTransition nf taskId from to actor reason = (case nf of
     None \<Rightarrow> ret ()
   | Some notify \<Rightarrow> when_m (to = Review \<or> to = Blocked \<or> to = Done) (notify taskId from to actor reason))"

definition apply_one :: "string \<Rightarrow> string \<Rightarrow> task_status \<Rightarrow> task \<Rightarrow> task m" where
  "apply_one actor reason nextStatus current =
     (if fm_status (t_fm current) = nextStatus \<or> \<not> isValidTransition (fm_status (t_fm current)) nextStatus then ret current
      else
        bind (transition_if_valid current nextStatus actor (Some reason)) (\<lambda>next.
          andThen (when_m (fm_status (t_fm next) \<noteq> fm_status (t_fm current))
                     (logTransition (fm_id (t_fm next)) (fm_status (t_fm current)) (fm_status (t_fm next)) actor (Some reason)))
            (ret next)))"

definition applyCompletionOutcome :: "task \<Rightarrow> string \<Rightarrow> completion_outcome \<Rightarrow> string \<Rightarrow> string list \<Rightarrow> unit m" where
  "applyCompletionOutcome t actor outcome notes blockers =
     bind (fold_m (apply_one actor (buildCompletionReason outcome notes blockers)) (resolveCompletionTransitions t outcome) t)
       (\<lambda>_. ret ())"

subsection \<open>Where an outcome leaves a task\<close>

text \<open>The status a loop over target statuses ends in, each step taken when it is valid.\<close>

definition step_status :: "task_status \<Rightarrow> task_status \<Rightarrow> task_status" where
  "step_status target current = (if current \<noteq> target \<and> isValidTransition current target then target else current)"

definition completion_status :: "task \<Rightarrow> completion_outcome \<Rightarrow> task_status" where
  "completion_status t outcome = fold step_status (resolveCompletionTransitions t outcome) (fm_status (t_fm t))"

text \<open>A task in a store, possibly with blanks around its body.\<close>

definition held_in :: "world \<Rightarrow> string \<Rightarrow> task \<Rightarrow> bool" where
  "held_in w i t \<longleftrightarrow> tidy w \<and> fm_id (t_fm t) = i \<and> t_path t = Some (taskPath i (fm_status (t_fm t))) \<and>
     (\<exists>b. abs_store w i = Some (t_fm t, b) \<and> js_trim b = js_trim (t_body t))"

lemma held_loaded: "tidy w \<Longrightarrow> abs_store w i = Some (fm, b) \<Longrightarrow> held_in w i (loaded i (fm, b))"
  using consistent_files(1) [of w i fm b] by (simp add: held_in_def tidy_consistent)

text \<open>From the tidy \<open>w\<close> to the tidy \<open>w'\<close> at most the task \<open>i\<close> was changed.\<close>

definition only_at :: "string \<Rightarrow> world \<Rightarrow> world \<Rightarrow> bool" where
  "only_at i w w' \<longleftrightarrow> tidy w' \<and> w_now w' = w_now w \<and> (\<forall>j. j \<noteq> i \<longrightarrow> abs_store w' j = abs_store w j)"

lemma only_at_refl: "tidy w \<Longrightarrow> only_at i w w"
  by (simp add: only_at_def)

lemma only_at_trans: "only_at i w w1 \<Longrightarrow> only_at i w1 w2 \<Longrightarrow> only_at i w w2"
  by (simp add: only_at_def)

lemma only_at_updates: "updates w i fb w' \<Longrightarrow> only_at i w w'"
  by (simp add: only_at_def updates_def)

lemma only_at_events [simp]: "only_at i w (w'\<lparr>w_events := es\<rparr>) = only_at i w w'"
  by (simp add: only_at_def)

lemma held_events [simp]: "held_in (w\<lparr>w_events := es\<rparr>) i t = held_in w i t"
  by (simp add: held_in_def)

text \<open>What the steps of a completion keep of a task.\<close>

definition same_task :: "task \<Rightarrow> task \<Rightarrow> bool" where
  "same_task t t' \<longleftrightarrow> fm_metadata (t_fm t') = fm_metadata (t_fm t) \<and> fm_workflow (t_fm t') = fm_workflow (t_fm t) \<and>
     fm_dependsOn (t_fm t') = fm_dependsOn (t_fm t) \<and> js_trim (t_body t') = js_trim (t_body t)"

lemma transition_fm_keeps [simp]:
  "fm_id (transition_fm fm s p ts) = fm_id fm" "fm_workflow (transition_fm fm s p ts) = fm_workflow fm"
  "fm_dependsOn (transition_fm fm s p ts) = fm_dependsOn fm"
  by (simp_all add: transition_fm_def Let_def split: option.split)

lemma yields_transition_held:
  assumes "held_in w i t" "isValidTransition (fm_status (t_fm t)) s" "to_metadataPatch opts = None"
    and "\<And>t' w'. held_in w' i t' \<Longrightarrow> only_at i w w' \<Longrightarrow> fm_status (t_fm t') = s \<Longrightarrow> same_task t t' \<Longrightarrow> Q t' w'"
  shows "yields (transition_task i s opts) w Q"
proof -
  from assms(1) obtain b where b: "abs_store w i = Some (t_fm t, b)" "js_trim b = js_trim (t_body t)" "tidy w" "fm_id (t_fm t) = i"
    unfolding held_in_def by blast
  have "Q (transition_result i s opts (w_now w) (t_fm t, b)) w'"
    if "updates w i (transition_fm (t_fm t) s (to_metadataPatch opts) (w_now w), js_trim b) w'" for w'
    by (rule assms(4)) (use that b assms(3) in \<open>auto simp: held_in_def updates_def only_at_def same_task_def transition_result_def\<close>)
  then show ?thesis using yields_transition [OF b(3,1)] assms(2) by simp
qed

lemma apply_one_yields:
  assumes "held_in w i t"
  shows "yields (apply_one actor reason s t) w (\<lambda>t' w'. held_in w' i t' \<and> only_at i w w' \<and> same_task t t' \<and>
    fm_status (t_fm t') = step_status s (fm_status (t_fm t)))"
proof (cases "fm_status (t_fm t) = s \<or> \<not> isValidTransition (fm_status (t_fm t)) s")
  case True
  moreover have "tidy w" using assms by (simp add: held_in_def)
  ultimately show ?thesis
    using assms by (auto simp: apply_one_def yields_simps step_status_def same_task_def only_at_refl)
next
  case False
  then have v: "isValidTransition (fm_status (t_fm t)) s" "fm_id (t_fm t) = i" using assms by (simp_all add: held_in_def)
  show ?thesis
    unfolding apply_one_def if_not_P [OF False] yields_bind transition_if_valid_def v(2)
    by (rule yields_transition_held [OF assms v(1)])
      (use False in \<open>auto simp: protocol_opts_def yields_simps logTransition_def step_status_def intro!: yields_log\<close>)
qed

lemma apply_loop_yields:
  assumes "held_in w i t"
  shows "yields (fold_m (apply_one actor reason) ss t) w (\<lambda>t' w'. held_in w' i t' \<and> only_at i w w' \<and> same_task t t' \<and>
    fm_status (t_fm t') = fold step_status ss (fm_status (t_fm t)))"
  using assms
proof (induction ss arbitrary: w t)
  case Nil
  then have "tidy w" by (simp add: held_in_def)
  with Nil show ?case by (simp add: yields_simps same_task_def only_at_refl)
next
  case (Cons s ss)
  show ?case
    unfolding fold_m.simps
  proof (rule yields_seq_bind [OF apply_one_yields [OF Cons.prems]], elim conjE)
    fix t1 w1
    assume 1: "held_in w1 i t1" "only_at i w w1" "same_task t t1" "fm_status (t_fm t1) = step_status s (fm_status (t_fm t))"
    show "yields (fold_m (apply_one actor reason) ss t1) w1 (\<lambda>t' w'. held_in w' i t' \<and> only_at i w w' \<and> same_task t t' \<and>
        fm_status (t_fm t') = fold step_status (s # ss) (fm_status (t_fm t)))"
      by (rule yields_mono [OF Cons.IH [OF 1(1)]]) (use 1 in \<open>auto simp: same_task_def intro: only_at_trans\<close>)
  qed
qed

lemma apply_completion_yields:
  assumes "held_in w i t"
  shows "yields (applyCompletionOutcome t actor outcome notes blockers) w (\<lambda>_ w'. \<exists>t'. held_in w' i t' \<and> only_at i w w' \<and>
    same_task t t' \<and> fm_status (t_fm t') = completion_status t outcome)"
  unfolding applyCompletionOutcome_def yields_bind completion_status_def
  by (rule yields_mono [OF apply_loop_yields [OF assms]]) (auto simp: yields_pure)

text \<open>The table: a task in progress ends where its report says.\<close>

lemma completion_in_progress:
  assumes "fm_status (t_fm t) = InProgress"
  shows "completion_status t outcome =
    (case outcome of
       CDone \<Rightarrow> if fm_metadata (t_fm t) ''reviewRequired'' = Some (JBool False) then Done else Review
     | CBlocked \<Rightarrow> Blocked
     | CNeedsReview \<Rightarrow> Review
     | CPartial \<Rightarrow> Review)"
  using assms
  by (cases outcome) (simp_all add: completion_status_def resolveCompletionTransitions_def step_status_def isValidTransition_def)

lemma yields_authorized:
  assumes "resolveAuthorizedAgent t = Some a" "a \<noteq> []" "Q True w"
  shows "yields (checkAuthorization a i t) w Q"
  using assms by (simp add: checkAuthorization_def truthy_str_def yields_simps)

lemma unauthorized_run:
  assumes "resolveAuthorizedAgent t \<noteq> Some a \<or> a = []"
  shows "\<exists>es. checkAuthorization a i t w = (Inr False, w\<lparr>w_events := es\<rparr>)"
  using assms by (auto simp: checkAuthorization_def truthy_str_def log_event_def run_simps Let_def split: option.splits)

end
