(* ===== verification/DagTransition.thy ===== *)
theory DagTransition
  imports AssignProps DagEvalProps
begin

section \<open>Workflow hops on stored tasks (dispatch/dag-transition-handler.ts)\<close>

text \<open>
  The bridge between the pure \<open>evaluateDAG\<close> and the store: a run result becomes a hop event, the new
  workflow state is saved with the task, a ready hop is dispatched, and a hop whose agent ends
  without an answer fails. Shown: a completion persists exactly what \<open>evaluateDAG\<close> computes; a hop is
  \<open>dispatched\<close> only after a successful spawn; an enforced failure changes its own hop only.
\<close>

record hop_completion =
  hcr_readyHops :: "string list"
  hcr_dagComplete :: bool
  hcr_reviewRequired :: bool

record eval_context =
  ectx_hopResults :: "(string \<times> json) list js_map"
  ectx_task :: cond_task

text \<open>An empty hop id is falsy and counts as none.\<close>

definition findDispatchedHop :: "task \<Rightarrow> string option" where
  "findDispatchedHop t = (case fm_workflow (t_fm t) of
     None \<Rightarrow> None
   | Some workflow \<Rightarrow> map_option fst (find (\<lambda>(hopId, hopState). hs_status hopState = HDispatched) (ws_hops (tw_state workflow))))"

definition mapRunResultToHopEvent :: "run_result \<Rightarrow> string \<Rightarrow> hop option \<Rightarrow> hop_event" where
  "mapRunResultToHopEvent runResult hopId hopDef =
     (let outcome =
        (if rr_outcome runResult = CDone then OComplete
         else if rr_outcome runResult = CNeedsReview \<and> (case hopDef of None \<Rightarrow> False | Some h \<Rightarrow> h_canReject h) then ORejected
         else if rr_outcome runResult = CNeedsReview then OComplete
         else OFailed)
      in \<lparr>he_hopId = hopId, he_outcome = outcome,
          he_result = (if rr_notes runResult \<noteq> [] then Some [(''notes'', JStr (rr_notes runResult))] else None)\<rparr>)"

definition routing_json :: "task_routing \<Rightarrow> (string \<times> json) list" where
  "routing_json r = opt_str ''role'' (rt_role r) @ opt_str ''team'' (rt_team r) @ opt_str ''agent'' (rt_agent r) @
     [(''tags'', JArr (map JStr (rt_tags r)))] @ opt_str ''workflow'' (rt_workflow r)"

definition buildEvalContext :: "task \<Rightarrow> task_workflow \<Rightarrow> eval_context" where
  "buildEvalContext t workflow =
     \<lparr>ectx_hopResults = List.map_filter (\<lambda>(hopId, s). map_option (Pair hopId) (hs_result s)) (ws_hops (tw_state workflow)),
      ectx_task = \<lparr>ct_status = status_str (fm_status (t_fm t)), ct_tags = rt_tags (fm_routing (t_fm t)),
        ct_priority = priority_str (fm_priority (t_fm t)), ct_routing = routing_json (fm_routing (t_fm t))\<rparr>\<rparr>"

definition with_state :: "task_workflow \<Rightarrow> workflow_state \<Rightarrow> int \<Rightarrow> task \<Rightarrow> task" where
  "with_state workflow newState ts t =
     t\<lparr>t_fm := (t_fm t)\<lparr>fm_workflow := Some (workflow\<lparr>tw_state := newState\<rparr>), fm_updatedAt := ts\<rparr>\<rparr>"

text \<open>The task object is changed in place; the result is the changed object.\<close>

definition persistWorkflowState :: "task \<Rightarrow> task_workflow \<Rightarrow> workflow_state \<Rightarrow> task m" where
  "persistWorkflowState t workflow newState = bind now (\<lambda>ts.
     andThen (save_task (with_state workflow newState ts t)) (ret (with_state workflow newState ts t)))"

subsection \<open>A hop is completed\<close>

fun reason_str :: "transition_reason \<Rightarrow> string" where
  "reason_str RCascade = ''cascade''"
| "reason_str RCondition = ''condition''"
| "reason_str RCircuitBreaker = ''circuit_breaker''"
| "reason_str ROriginCascade = ''rejection_cascade_origin''"
| "reason_str RPredecessorCascade = ''rejection_cascade_predecessors''"

fun outcome_str :: "hop_outcome \<Rightarrow> string" where
  "outcome_str OComplete = ''complete''"
| "outcome_str OFailed = ''failed''"
| "outcome_str OSkipped = ''skipped''"
| "outcome_str ORejected = ''rejected''"

fun workflow_status_str :: "workflow_status \<Rightarrow> string" where
  "workflow_status_str WPending = ''pending''"
| "workflow_status_str WRunning = ''running''"
| "workflow_status_str WComplete = ''complete''"
| "workflow_status_str WFailed = ''failed''"

definition change_payload :: "hop_transition \<Rightarrow> json" where
  "change_payload c = JObj ([(''hopId'', JStr (tr_hopId c))] @ opt_str ''from'' (map_option hop_status_str (tr_from c)) @
     [(''to'', JStr (hop_status_str (tr_to c)))] @ opt_str ''reason'' (map_option reason_str (tr_reason c)))"

definition log_hop_result :: "string \<Rightarrow> hop option \<Rightarrow> run_result \<Rightarrow> hop_event \<Rightarrow> dag_result \<Rightarrow> unit m" where
  "log_hop_result taskId hopDef runResult ev r =
     (let readyHops = JArr (map JStr (dr_readyHops r)); changes = JArr (map change_payload (dr_changes r)) in
      if he_outcome ev = ORejected then
        log_event ''dag.hop_rejected'' (rr_agentId runResult) (Some taskId)
          ([(''hopId'', JStr (he_hopId ev)), (''rejectionNotes'', JStr (rr_notes runResult))] @
           (case map_of (ws_hops (dr_state r)) (he_hopId ev) of
              None \<Rightarrow> [] | Some s \<Rightarrow> (case hs_rejectionCount s of None \<Rightarrow> [] | Some n \<Rightarrow> [(''rejectionCount'', JNum (of_nat n))])) @
           [(''strategy'', JStr (if (case hopDef of None \<Rightarrow> None | Some h \<Rightarrow> h_rejectionStrategy h) = Some Predecessors
                                 then ''predecessors'' else ''origin'')),
            (''readyHops'', readyHops), (''changes'', changes)])
      else
        log_event ''dag.hop_completed'' (rr_agentId runResult) (Some taskId)
          ([(''hopId'', JStr (he_hopId ev)), (''outcome'', JStr (outcome_str (he_outcome ev))), (''readyHops'', readyHops)] @
           opt_str ''dagStatus'' (map_option workflow_status_str (dr_dagStatus r)) @ opt_str ''taskStatus'' (dr_taskStatus r) @
           [(''changes'', changes)]))"

definition needs_review :: "hop option \<Rightarrow> hop_event \<Rightarrow> bool" where
  "needs_review hopDef ev =
     (he_outcome ev = OComplete \<and> (case hopDef of None \<Rightarrow> False | Some h \<Rightarrow> \<not> h_autoAdvance h))"

definition complete_hop :: "task \<Rightarrow> task_workflow \<Rightarrow> string \<Rightarrow> run_result \<Rightarrow> (hop_completion \<times> task) m" where
  "complete_hop t workflow hopId runResult =
     (let hopDef = find_hop (tw_definition workflow) hopId;
          hopEvent = mapRunResultToHopEvent runResult hopId hopDef in
      bind now (\<lambda>ts.
        case evaluateDAG (tw_definition workflow) (tw_state workflow) hopEvent (ectx_task (buildEvalContext t workflow)) ts of
          Inl e \<Rightarrow> throw (EvaluationError e)
        | Inr r \<Rightarrow>
            bind (persistWorkflowState t workflow (dr_state r)) (\<lambda>t'.
              andThen (log_hop_result (fm_id (t_fm t)) hopDef runResult hopEvent r)
                (ret (\<lparr>hcr_readyHops = dr_readyHops r, hcr_dagComplete = (dr_taskStatus r \<noteq> None),
                       hcr_reviewRequired = needs_review hopDef hopEvent\<rparr>, t')))))"

definition handleDAGHopCompletion :: "task \<Rightarrow> run_result \<Rightarrow> (hop_completion \<times> task) m" where
  "handleDAGHopCompletion t runResult =
     (if truthy_str (findDispatchedHop t)
      then (case fm_workflow (t_fm t) of
              None \<Rightarrow> throw (OtherError ''TypeError'')
            | Some workflow \<Rightarrow> complete_hop t workflow (the (findDispatchedHop t)) runResult)
      else andThen (log_event ''dag.warning'' ''system'' (Some (fm_id (t_fm t)))
                      [(''message'', JStr ''No dispatched hop found for completion event'')])
             (ret (\<lparr>hcr_readyHops = [], hcr_dagComplete = False, hcr_reviewRequired = False\<rparr>, t)))"

subsection \<open>A hop is dispatched\<close>

definition mkdir_work :: "work_dir \<Rightarrow> unit m" where
  "mkdir_work d = modify (\<lambda>w. w\<lparr>w_workDirs := List.insert d (w_workDirs w)\<rparr>)"

definition hop_task_context :: "task \<Rightarrow> task_path \<Rightarrow> hop \<Rightarrow> hop_context \<Rightarrow> task_context" where
  "hop_task_context t p hop hopContext =
     \<lparr>cx_taskId = fm_id (t_fm t), cx_taskPath = p, cx_agent = h_role hop, cx_priority = fm_priority (t_fm t),
      cx_routing = \<lparr>rt_role = Some (h_role hop), rt_team = None, rt_agent = None, rt_tags = [], rt_workflow = None\<rparr>,
      cx_projectId = fm_project (t_fm t), cx_hopContext = Some hopContext, cx_timeoutMs = task_timeout (fm_metadata (t_fm t))\<rparr>"

definition dispatched_state :: "workflow_state \<Rightarrow> string \<Rightarrow> hop \<Rightarrow> int \<Rightarrow> string option \<Rightarrow> workflow_state" where
  "dispatched_state state hopId hop ts sessionId =
     state\<lparr>ws_hops := AList.update hopId
       ((hop_state_or_empty (ws_hops state) hopId HDispatched)
          \<lparr>hs_startedAt := Some ts, hs_agent := Some (h_role hop), hs_correlationId := sessionId\<rparr>) (ws_hops state)\<rparr>"

definition hop_spawned :: "string \<Rightarrow> task \<Rightarrow> task_workflow \<Rightarrow> string \<Rightarrow> hop \<Rightarrow> spawn_result \<Rightarrow> bool m" where
  "hop_spawned correlationId t workflow hopId hop r =
     (if \<not> sr_success r then
        andThen (log_event ''dag.dispatch_failed'' ''system'' (Some (fm_id (t_fm t)))
                   ([(''hopId'', JStr hopId)] @ opt_str ''error'' (sr_error r) @ [(''correlationId'', JStr correlationId)]))
          (ret False)
      else
        bind now (\<lambda>ts.
          bind (persistWorkflowState t workflow (dispatched_state (tw_state workflow) hopId hop ts (sr_sessionId r))) (\<lambda>_.
            andThen (log_event ''dag.hop_dispatched'' (h_role hop) (Some (fm_id (t_fm t)))
                       ([(''hopId'', JStr hopId), (''agent'', JStr (h_role hop))] @ opt_str ''sessionId'' (sr_sessionId r) @
                        [(''correlationId'', JStr correlationId)]))
              (ret True))))"

definition dispatchDAGHop :: "rat option \<Rightarrow> executor \<Rightarrow> string \<Rightarrow> task \<Rightarrow> string \<Rightarrow> bool m" where
  "dispatchDAGHop spawnTimeoutMs ex correlationId t hopId = (case fm_workflow (t_fm t) of
     None \<Rightarrow> throw (OtherError ''TypeError'')
   | Some workflow \<Rightarrow> (case find_hop (tw_definition workflow) hopId of
       None \<Rightarrow> andThen (log_event ''dag.dispatch_error'' ''system'' (Some (fm_id (t_fm t)))
                 [(''hopId'', JStr hopId), (''error'', JStr (''Hop \"'' @ hopId @ ''\" not found in definition''))])
               (ret False)
     | Some hop \<Rightarrow> (case t_path t of
         None \<Rightarrow> throw (OtherError ''TypeError'')
       | Some p \<Rightarrow>
           andThen (mkdir_work (hop_work_dir p hopId))
             (case buildHopContext t hopId of
                Inl e \<Rightarrow> throw e
              | Inr hopContext \<Rightarrow>
                  bind (ex_spawn ex (hop_task_context t p hop hopContext)
                          (or_else (task_timeout (fm_metadata (t_fm t))) (or_else spawnTimeoutMs 300000)) correlationId)
                    (hop_spawned correlationId t workflow hopId hop)))))"

subsection \<open>The agent of a hop has ended\<close>

definition debug_flag :: "task option \<Rightarrow> bool" where
  "debug_flag t = (case t of None \<Rightarrow> False | Some u \<Rightarrow> fm_metadata (t_fm u) ''debug'' = Some (JBool True))"

definition hop_enforcement_reason :: "hooks \<Rightarrow> string \<Rightarrow> string \<Rightarrow> run_outcome \<Rightarrow> string" where
  "hop_enforcement_reason hk taskId hopId outcome =
     ''DAG hop \"'' @ hopId @ ''\" failed: agent exited without calling aof_task_complete. '' @
     ''Session lasted '' @ secs hk outcome @ ''s. '' @ ''Run `aof trace '' @ taskId @ ''` for details.''"

definition failed_state :: "workflow_state \<Rightarrow> string \<Rightarrow> int \<Rightarrow> workflow_state" where
  "failed_state state hopId ts =
     state\<lparr>ws_hops := AList.update hopId
       ((hop_state_or_empty (ws_hops state) hopId HFailed)\<lparr>hs_completedAt := Some ts\<rparr>) (ws_hops state)\<rparr>"

definition fail_hop :: "task \<Rightarrow> string \<Rightarrow> unit m" where
  "fail_hop t hopId = (case fm_workflow (t_fm t) of
     None \<Rightarrow> ret ()
   | Some workflow \<Rightarrow> bind now (\<lambda>ts.
       bind (persistWorkflowState t workflow (failed_state (tw_state workflow) hopId ts)) (\<lambda>_. ret ())))"

definition enforce_hop :: "hooks \<Rightarrow> string \<Rightarrow> string \<Rightarrow> string \<Rightarrow> string \<Rightarrow> run_outcome \<Rightarrow> unit m" where
  "enforce_hop hk correlationId taskId hopId role outcome =
     (let reason = hop_enforcement_reason hk taskId hopId outcome in
      andThen (trackDispatchFailure taskId reason)
        (bind (get_task taskId) (\<lambda>updated.
           andThen
             (case updated of
                None \<Rightarrow> ret ()
              | Some u \<Rightarrow> if shouldTransitionToDeadletter u then transitionToDeadletter taskId reason else fail_hop u hopId)
             (log_event ''completion.enforcement'' ''scheduler'' (Some taskId)
                ([(''hopId'', JStr hopId), (''agent'', JStr role), (''sessionId'', JStr (ro_sessionId outcome)),
                  (''durationMs'', JNum (of_int (ro_durationMs outcome))), (''correlationId'', JStr correlationId),
                  (''reason'', JStr ''agent_exited_without_completion'')] @
                 (case updated of None \<Rightarrow> []
                  | Some u \<Rightarrow> (case fm_metadata (t_fm u) ''dispatchFailures'' of None \<Rightarrow> [] | Some n \<Rightarrow> [(''dispatchFailures'', n)])))))))"

definition hop_run_complete :: "hooks \<Rightarrow> string \<Rightarrow> string \<Rightarrow> string \<Rightarrow> string \<Rightarrow> run_outcome \<Rightarrow> unit m" where
  "hop_run_complete hk correlationId taskId hopId role outcome = bind (get_task taskId) (\<lambda>fresh. case fresh of
     None \<Rightarrow> ret ()
   | Some freshTask \<Rightarrow>
       (let trace = (\<lambda>t. hk_captureTrace hk taskId (ro_sessionId outcome) role (ro_durationMs outcome) (debug_flag t)) in
        if (case fm_workflow (t_fm freshTask) of None \<Rightarrow> False
            | Some workflow \<Rightarrow> status_of (ws_hops (tw_state workflow)) hopId = Some HDispatched)
        then andThen (best_effort (enforce_hop hk correlationId taskId hopId role outcome))
               (best_effort (bind (get_task taskId) trace))
        else best_effort (trace (Some freshTask))))"

subsection \<open>What is saved\<close>

lemma with_state_simps [simp]:
  "fm_id (t_fm (with_state workflow st ts t)) = fm_id (t_fm t)" "fm_status (t_fm (with_state workflow st ts t)) = fm_status (t_fm t)"
  "t_body (with_state workflow st ts t) = t_body t" "t_path (with_state workflow st ts t) = t_path t"
  by (simp_all add: with_state_def)

text \<open>A task with a new workflow state.\<close>

definition advanced :: "task_workflow \<Rightarrow> workflow_state \<Rightarrow> int \<Rightarrow> frontmatter \<Rightarrow> frontmatter" where
  "advanced workflow st ts fm = fm\<lparr>fm_workflow := Some (workflow\<lparr>tw_state := st\<rparr>), fm_updatedAt := ts\<rparr>"

lemma advanced_simps [simp]:
  "fm_status (advanced workflow st ts fm) = fm_status fm" "fm_id (advanced workflow st ts fm) = fm_id fm"
  "fm_metadata (advanced workflow st ts fm) = fm_metadata fm"
  "fm_workflow (advanced workflow st ts fm) = Some (workflow\<lparr>tw_state := st\<rparr>)"
  by (simp_all add: advanced_def)

lemma with_state_fm: "t_fm (with_state workflow st ts t) = advanced workflow st ts (t_fm t)"
  by (simp add: with_state_def advanced_def)

lemma yields_persist:
  assumes "tidy w" "abs_store w i = Some fb" "t_fm t = fst fb" "js_trim (t_body t) = js_trim (snd fb)"
    "t_path t = Some (taskPath i (fm_status (fst fb)))"
    "\<And>w'. updates w i (advanced workflow st (w_now w) (fst fb), js_trim (snd fb)) w' \<Longrightarrow> Q (with_state workflow st (w_now w) t) w'"
  shows "yields (persistWorkflowState t workflow st) w Q"
  unfolding persistWorkflowState_def yields_simps
  by (rule yields_save [OF assms(1,2)]) (use assms in \<open>simp_all add: with_state_fm\<close>)

lemma yields_log_hop: "(\<And>e. Q () (w\<lparr>w_events := e\<rparr>)) \<Longrightarrow> yields (log_hop_result i d rr ev r) w Q"
  by (simp add: log_hop_result_def Let_def yields_log)

lemma complete_hop_run:
  assumes "tidy w" "abs_store w i = Some fb" "t_fm t = fst fb" "js_trim (t_body t) = js_trim (snd fb)"
    "t_path t = Some (taskPath i (fm_status (fst fb)))"
    and ev: "ev = mapRunResultToHopEvent rr h (find_hop (tw_definition flow) h)"
    and r: "evaluateDAG (tw_definition flow) (tw_state flow) ev (ectx_task (buildEvalContext t flow)) (w_now w) = Inr r"
  shows "yields (complete_hop t flow h rr) w (\<lambda>ct w'.
    ct = (\<lparr>hcr_readyHops = dr_readyHops r, hcr_dagComplete = (dr_taskStatus r \<noteq> None),
           hcr_reviewRequired = needs_review (find_hop (tw_definition flow) h) ev\<rparr>, with_state flow (dr_state r) (w_now w) t) \<and>
    updates w i (advanced flow (dr_state r) (w_now w) (fst fb), js_trim (snd fb)) w')"
  unfolding complete_hop_def Let_def yields_bind [of now] yields_pure ev [symmetric] r sum.case
  unfolding yields_simps
  by (rule yields_persist [OF assms(1-5)], rule yields_log_hop) simp

lemma task_status_end:
  assumes "evaluateDAG defn state ev t ts = Inr r"
  shows "dr_taskStatus r \<noteq> None \<longleftrightarrow> (\<forall>x \<in> set (ws_hops (dr_state r)). hs_status (snd x) \<in> {HComplete, HSkipped, HFailed})"
proof -
  from assms obtain hops ch rh where "r = finish_evaluation state ts hops ch rh"
    by (auto simp: evaluateDAG_def evaluate_rejection_def Let_def split: if_splits sum.splits)
  then show ?thesis
    by (auto simp: finish_evaluation_def checkDAGCompletion_def Let_def list_all_iff split: option.splits if_splits)
qed

text \<open>
  C5: completion of a hop. If a hop of a stored task is dispatched and \<open>evaluateDAG\<close> accepts the
  event the run result stands for, then exactly the new workflow state is saved with the task; the
  answer names the ready hops, reports the end of the workflow exactly when every hop is terminal,
  and asks for a review exactly for a completed hop that does not advance by itself.
\<close>

theorem hop_completion_exact:
  assumes "tidy w" "abs_store w i = Some (fm, b)" "t = loaded i (fm, b)" "fm_workflow fm = Some flow"
    and "findDispatchedHop t = Some h" "h \<noteq> []" "ev = mapRunResultToHopEvent rr h (find_hop (tw_definition flow) h)"
    and "evaluateDAG (tw_definition flow) (tw_state flow) ev (ectx_task (buildEvalContext t flow)) (w_now w) = Inr r"
  shows "\<exists>c t' w'. handleDAGHopCompletion t rr w = (Inr (c, t'), w') \<and>
    updates w i (advanced flow (dr_state r) (w_now w) fm, js_trim b) w' \<and> hcr_readyHops c = dr_readyHops r \<and>
    (hcr_dagComplete c \<longleftrightarrow> (\<forall>x \<in> set (ws_hops (dr_state r)). hs_status (snd x) \<in> {HComplete, HSkipped, HFailed})) \<and>
    (hcr_reviewRequired c \<longleftrightarrow> he_outcome ev = OComplete \<and>
       (\<exists>hop. find_hop (tw_definition flow) h = Some hop \<and> \<not> h_autoAdvance hop))"
proof -
  have "handleDAGHopCompletion t rr w = complete_hop t flow h rr w"
    using assms(3-6) by (simp add: handleDAGHopCompletion_def truthy_str_def)
  moreover note task_status_end [OF assms(8)]
  ultimately show ?thesis
    using yieldsD [OF complete_hop_run [OF assms(1,2) _ _ _ assms(7,8)]] assms(3)
    by (auto simp: needs_review_def split: option.splits)
qed

text \<open>The state of one hop after a write to the hop map.\<close>

lemma status_update [simp]:
  "status_of (AList.update k hs hops) j = (if j = k then Some (hs_status hs) else status_of hops j)"
  by (simp add: status_of_def update_conv')

lemma or_empty_status [simp]: "hs_status (hop_state_or_empty hops k s) = s"
  by (simp add: hop_state_or_empty_def hop_state_of_def split: option.split)

text \<open>What the dispatch of a hop does, for an executor that answers \<open>r\<close> without touching the store.\<close>

lemma dispatch_hop_run:
  assumes "tidy w" "abs_store w i = Some (fm, b)" "t = loaded i (fm, b)" "fm_workflow fm = Some flow"
    and "find_hop (tw_definition flow) h = Some hop" "spawn_answers ex r"
  shows "yields (dispatchDAGHop timeout ex corr t h) w (\<lambda>x w'. x = sr_success r \<and>
    (if sr_success r then updates w i (advanced flow (dispatched_state (tw_state flow) h hop (w_now w) (sr_sessionId r)) (w_now w) fm, js_trim b) w'
     else abs_store w' = abs_store w \<and> tidy w' \<and> w_now w' = w_now w))"
proof -
  let ?st = "dispatched_state (tw_state flow) h hop (w_now w) (sr_sessionId r)"
  let ?w = "w\<lparr>w_workDirs := List.insert (hop_work_dir (taskPath i (fm_status fm)) h) (w_workDirs w)\<rparr>"
  obtain hc where hc: "buildHopContext t h = Inr hc"
    using assms(3-5) by (auto simp: buildHopContext_def case_prod_unfold Let_def)
  have "yields (hop_spawned corr t flow h hop r) ?w (\<lambda>x w'. x = sr_success r \<and>
    (if sr_success r then updates w i (advanced flow ?st (w_now w) fm, js_trim b) w' else abs_store w' = abs_store w \<and> tidy w' \<and> w_now w' = w_now w))"
  proof (cases "sr_success r")
    case True
    have "tidy ?w" "abs_store ?w i = Some (fm, b)" using assms(1,2) by simp_all
    note persist = yields_persist [OF this]
    show ?thesis
      by (simp only: hop_spawned_def True simp_thms if_False if_True yields_bind yields_andThen yields_pure,
          rule persist, simp_all add: assms(3), rule yields_log)
        (simp add: updates_def yields_pure)
  next
    case False
    have "abs_store (?w\<lparr>w_events := es\<rparr>) = abs_store w" "tidy (?w\<lparr>w_events := es\<rparr>)" for es using assms(1) by simp_all
    then show ?thesis
      by (simp only: hop_spawned_def False simp_thms if_True yields_andThen yields_pure, intro yields_log)
        (simp add: yields_pure)
  qed
  then show ?thesis
    using assms(3-6) hc
    by (simp add: dispatchDAGHop_def yields_simps mkdir_work_def yields_run [of _ _ r] spawn_answers_def)
qed

text \<open>
  Fact: dispatch of a hop. For a hop of the workflow and an executor that answers without touching
  the store, the hop is dispatched exactly when the spawn succeeds: then it alone becomes
  \<open>dispatched\<close>, and after a failed spawn the store is as before.
\<close>

theorem dispatch_hop_exact:
  assumes "tidy w" "abs_store w i = Some (fm, b)" "t = loaded i (fm, b)" "fm_workflow fm = Some flow"
    and "find_hop (tw_definition flow) h = Some hop" "spawn_answers ex r"
  shows "\<exists>w'. dispatchDAGHop timeout ex corr t h w = (Inr (sr_success r), w') \<and>
    (if sr_success r
     then \<exists>st. updates w i (advanced flow st (w_now w) fm, js_trim b) w' \<and>
       (\<forall>k. status_of (ws_hops st) k = (if k = h then Some HDispatched else status_of (ws_hops (tw_state flow)) k))
     else abs_store w' = abs_store w)"
proof -
  let ?st = "dispatched_state (tw_state flow) h hop (w_now w) (sr_sessionId r)"
  have "status_of (ws_hops ?st) k = (if k = h then Some HDispatched else status_of (ws_hops (tw_state flow)) k)" for k
    by (simp add: dispatched_state_def)
  with yieldsD [OF dispatch_hop_run [OF assms, of timeout corr]] show ?thesis by (auto intro!: exI [of _ ?st] split: if_splits)
qed

subsection \<open>A hop whose agent ends without an answer\<close>

definition hop_gives_up :: "frontmatter \<Rightarrow> bool" where
  "hop_gives_up fm \<longleftrightarrow> meta_str (fm_metadata fm) ''errorClass'' \<in> {Some ''permanent'', Some ''model_silent_failure''} \<or>
     dispatch_failures (fm_metadata fm) \<ge> 2"

lemma enforce_hop_yields:
  assumes "tidy w" "abs_store w i = Some (fm, b)" "fm_workflow fm = Some flow" "fm_status fm = InProgress"
  shows "yields (enforce_hop hk corr i h role outcome) w (\<lambda>_ w'. \<exists>fm'. updates w i (fm', js_trim b) w' \<and>
    dispatch_failures (fm_metadata fm') = dispatch_failures (fm_metadata fm) + 1 \<and>
    (if hop_gives_up fm then fm_status fm' = Deadletter
     else fm_status fm' = InProgress \<and>
       fm_workflow fm' = Some (flow\<lparr>tw_state := failed_state (tw_state flow) h (w_now w)\<rparr>)))"
proof -
  let ?r = "hop_enforcement_reason hk i h outcome"
  let ?B = "tracked ?r (w_now w) fm"
  have B: "fm_status ?B = InProgress" "fm_workflow ?B = Some flow"
    "dispatch_failures (fm_metadata ?B) = dispatch_failures (fm_metadata fm) + 1"
    "shouldTransitionToDeadletter (loaded i (?B, js_trim b)) = hop_gives_up fm"
    using assms(3,4)
    by (auto simp: tracked_def record_failure_def dispatch_failures_def meta_num0_def hop_gives_up_def
        shouldTransitionToDeadletter_def MAX_DISPATCH_FAILURES_def Let_def)
  have tracked: "yields (trackDispatchFailure i ?r) w (\<lambda>_. updates w i (?B, js_trim b))"
    by (rule yields_track [OF assms(1,2)]) simp
  let ?Q = "\<lambda>w'. \<exists>fm'. updates w i (fm', js_trim b) w' \<and>
    dispatch_failures (fm_metadata fm') = dispatch_failures (fm_metadata fm) + 1 \<and>
    (if hop_gives_up fm then fm_status fm' = Deadletter
     else fm_status fm' = InProgress \<and> fm_workflow fm' = Some (flow\<lparr>tw_state := failed_state (tw_state flow) h (w_now w)\<rparr>))"
  have moved: "yields (if shouldTransitionToDeadletter (loaded i (?B, js_trim b)) then transitionToDeadletter i ?r
      else fail_hop (loaded i (?B, js_trim b)) h) w1 (\<lambda>_. ?Q)" if w1: "updates w i (?B, js_trim b) w1" for w1
  proof -
    note u = updates_abs [OF w1]
    have valid: "isValidTransition (fm_status (fst (?B, js_trim b))) Deadletter"
      using B(1) by (simp add: isValidTransition_def)
    have dead: "yields (transitionToDeadletter i ?r) w1 (\<lambda>_. ?Q)" if "hop_gives_up fm"
      by (rule yields_deadletter [OF u(2,1) valid], rule exI, rule conjI, rule updates_trans [OF w1], simp)
        (use B(3) that in simp)
    have failed: "yields (fail_hop (loaded i (?B, js_trim b)) h) w1 (\<lambda>_. ?Q)" if "\<not> hop_gives_up fm"
    proof -
      have q: "?Q w'" if "updates w1 i (advanced flow (failed_state (tw_state flow) h (w_now w1)) (w_now w1) ?B, js_trim b) w'" for w'
        by (rule exI, rule conjI, rule updates_trans [OF w1 that]) (use B u(3) \<open>\<not> hop_gives_up fm\<close> in simp)
      show ?thesis
        unfolding fail_hop_def loaded_simps fst_conv B(2) option.case yields_bind yields_pure
        by (rule yields_persist [OF u(2,1)]) (use q in auto)
    qed
    from dead failed show ?thesis unfolding B(4) by simp
  qed
  show ?thesis
    unfolding enforce_hop_def Let_def
  proof (rule yields_seq [OF tracked])
    fix w1 assume w1: "updates w i (?B, js_trim b) w1"
    note u = updates_abs [OF w1]
    show "yields (bind (get_task i) (\<lambda>updated. andThen (case updated of None \<Rightarrow> ret () | Some u \<Rightarrow>
        if shouldTransitionToDeadletter u then transitionToDeadletter i ?r else fail_hop u h)
      (log_event ''completion.enforcement'' ''scheduler'' (Some i)
        ([(''hopId'', JStr h), (''agent'', JStr role), (''sessionId'', JStr (ro_sessionId outcome)),
          (''durationMs'', JNum (of_int (ro_durationMs outcome))), (''correlationId'', JStr corr),
          (''reason'', JStr ''agent_exited_without_completion'')] @
         (case updated of None \<Rightarrow> []
          | Some u \<Rightarrow> (case fm_metadata (t_fm u) ''dispatchFailures'' of None \<Rightarrow> [] | Some n \<Rightarrow> [(''dispatchFailures'', n)])))))) w1 (\<lambda>_. ?Q)"
      unfolding yields_bind yields_get [OF u(2)] u(1) option.map option.case
      by (rule yields_seq [OF moved [OF w1]], rule yields_log) simp
  qed
qed

text \<open>
  Fact: enforcement. When the agent of a dispatched hop ends and the hop was not completed, the
  failure is counted, and the task is given up when its errors are permanent or this is the third
  failure; otherwise the hop is marked failed and the task stays in progress. The workflow is not
  evaluated: no other hop changes and its status stays, so hops that wait for this one are neither
  skipped nor made ready.
\<close>

theorem hop_enforcement:
  assumes "tidy w" "abs_store w i = Some (fm, b)" "fm_workflow fm = Some flow" "fm_status fm = InProgress"
    and "status_of (ws_hops (tw_state flow)) h = Some HDispatched" "quiet_hooks hk"
  shows "\<exists>w' fm'. hop_run_complete hk corr i h role outcome w = (Inr (), w') \<and> updates w i (fm', js_trim b) w' \<and>
    dispatch_failures (fm_metadata fm') = dispatch_failures (fm_metadata fm) + 1 \<and>
    (if hop_gives_up fm then fm_status fm' = Deadletter
     else fm_status fm' = InProgress \<and>
       (\<exists>st. fm_workflow fm' = Some (flow\<lparr>tw_state := st\<rparr>) \<and> ws_status st = ws_status (tw_state flow) \<and>
         (\<forall>k. status_of (ws_hops st) k = (if k = h then Some HFailed else status_of (ws_hops (tw_state flow)) k))))"
proof -
  let ?P = "\<lambda>w'. \<exists>fm'. updates w i (fm', js_trim b) w' \<and>
    dispatch_failures (fm_metadata fm') = dispatch_failures (fm_metadata fm) + 1 \<and>
    (if hop_gives_up fm then fm_status fm' = Deadletter
     else fm_status fm' = InProgress \<and> fm_workflow fm' = Some (flow\<lparr>tw_state := failed_state (tw_state flow) h (w_now w)\<rparr>))"
  have trace: "yields (best_effort (bind (get_task i) (\<lambda>t. hk_captureTrace hk i s role n (debug_flag t)))) w1 (\<lambda>_. ?P)"
    if "?P w1" for w1 s n
  proof -
    obtain fm' where u: "updates w i (fm', js_trim b) w1" using \<open>?P w1\<close> by blast
    have "bind (get_task i) (\<lambda>t. hk_captureTrace hk i s role n (debug_flag t)) w1 =
        hk_captureTrace hk i s role n (debug_flag (Some (loaded i (fm', js_trim b)))) w1"
      by (simp add: bind_run get_run [OF updates_abs(2) [OF u]] updates_abs(1) [OF u])
    moreover have "quiet (hk_captureTrace hk i s role n d)" for d using assms(6) by (simp add: quiet_hooks_def)
    ultimately obtain r es where "bind (get_task i) (\<lambda>t. hk_captureTrace hk i s role n (debug_flag t)) w1 = (r, w1\<lparr>w_events := es\<rparr>)"
      unfolding quiet_def by metis
    then show ?thesis
      using \<open>?P w1\<close> by (cases r) (simp_all add: yields_def best_effort_def catch_def run_simps)
  qed
  have "yields (hop_run_complete hk corr i h role outcome) w (\<lambda>_. ?P)"
    unfolding hop_run_complete_def yields_bind [of "get_task _"] yields_get [OF assms(1)] assms(2) option.map option.case
      Let_def loaded_simps fst_conv assms(3,5)
    by (simp only: refl if_True)
      (rule yields_seq [OF yields_best_effort [OF enforce_hop_yields [OF assms(1-4)]]], rule trace)
  from yieldsD [OF this] obtain w' fm' where r: "hop_run_complete hk corr i h role outcome w = (Inr (), w')"
    "updates w i (fm', js_trim b) w'" "dispatch_failures (fm_metadata fm') = dispatch_failures (fm_metadata fm) + 1"
    and e: "if hop_gives_up fm then fm_status fm' = Deadletter
       else fm_status fm' = InProgress \<and> fm_workflow fm' = Some (flow\<lparr>tw_state := failed_state (tw_state flow) h (w_now w)\<rparr>)" by auto
  have "ws_status (failed_state (tw_state flow) h (w_now w)) = ws_status (tw_state flow)"
    "\<forall>k. status_of (ws_hops (failed_state (tw_state flow) h (w_now w))) k = (if k = h then Some HFailed else status_of (ws_hops (tw_state flow)) k)"
    by (simp_all add: failed_state_def)
  with e have "if hop_gives_up fm then fm_status fm' = Deadletter
     else fm_status fm' = InProgress \<and>
       (\<exists>st. fm_workflow fm' = Some (flow\<lparr>tw_state := st\<rparr>) \<and> ws_status st = ws_status (tw_state flow) \<and>
         (\<forall>k. status_of (ws_hops st) k = (if k = h then Some HFailed else status_of (ws_hops (tw_state flow)) k)))"
    by (cases "hop_gives_up fm") auto
  with r show ?thesis by blast
qed

end
