(* ===== verification/ProtocolRouter.thy ===== *)
theory ProtocolRouter
  imports Completion DagTransition
begin

section \<open>The protocol router (protocol/router.ts, delegation/index.ts)\<close>

text \<open>
  What a protocol message does to the store, the handoff artifacts, and \<open>handleSessionEnd\<close>, which acts
  on the run results left by ended sessions. Each handler runs under the lock of its task
  (\<open>TaskLock\<close>), here as one operation. The event logger is always there; there is one store, and the
  project resolver says which projects have it. \<open>randomUUID\<close>, the rendering of dates, the content
  hash and \<open>JSON.stringify\<close> are parameters.
\<close>

record router_config =
  pc_notify :: notifier
  pc_known :: "(string \<Rightarrow> bool) option"
  pc_cascadeBlocks :: bool
  pc_executor :: "executor option"
  pc_spawnTimeoutMs :: rat
  pc_exists :: "string \<Rightarrow> bool"
  pc_iso :: "int \<Rightarrow> string"
  pc_hash :: "string \<Rightarrow> string"
  pc_stringify :: "json \<Rightarrow> string"
  pc_uuid :: "string \<Rightarrow> string"

subsection \<open>Handoff artifacts\<close>

definition bullet_section :: "string \<Rightarrow> string list \<Rightarrow> string list" where
  "bullet_section title xs =
     [''## '' @ title, []] @ (if xs = [] then [''None''] else map (\<lambda>x. ''- '' @ x) xs) @ [[]]"

definition renderHandoffMarkdown :: "handoff_request \<Rightarrow> string" where
  "renderHandoffMarkdown q = join_with [CHR 0x0A]
     ([''# Handoff Request'', [], ''**From:** '' @ hq_fromAgent q, ''**To:** '' @ hq_toAgent q,
       ''**Due By:** '' @ hq_dueBy q, []] @
      bullet_section ''Acceptance Criteria'' (hq_acceptanceCriteria q) @
      bullet_section ''Expected Outputs'' (hq_expectedOutputs q) @
      bullet_section ''Context References'' (hq_contextRefs q) @
      bullet_section ''Constraints'' (hq_constraints q))"

definition str_array :: "string list \<Rightarrow> json" where
  "str_array xs = JArr (map JStr xs)"

definition handoff_json :: "handoff_request \<Rightarrow> json" where
  "handoff_json q =
     JObj [(''taskId'', JStr (hq_taskId q)), (''parentTaskId'', JStr (hq_parentTaskId q)), (''fromAgent'', JStr (hq_fromAgent q)),
           (''toAgent'', JStr (hq_toAgent q)), (''acceptanceCriteria'', str_array (hq_acceptanceCriteria q)),
           (''expectedOutputs'', str_array (hq_expectedOutputs q)), (''contextRefs'', str_array (hq_contextRefs q)),
           (''constraints'', str_array (hq_constraints q)), (''dueBy'', JStr (hq_dueBy q))]"

text \<open>The companion directory next to the task file.\<close>

definition companion_dir :: "task \<Rightarrow> task_path" where
  "companion_dir t =
     (fst (path_or t (taskPath (fm_id (t_fm t)) (fm_status (t_fm t)))), fm_id (t_fm t))"

definition write_input :: "task_path \<Rightarrow> string \<Rightarrow> string \<Rightarrow> unit m" where
  "write_input p filename content = modify (\<lambda>w.
     let c = or_else (map_of (w_dirs w) p) empty_companion
     in w\<lparr>w_dirs := AList.update p (c\<lparr>co_inputs := AList.update filename content (co_inputs c)\<rparr>) (w_dirs w)\<rparr>)"

definition writeHandoffArtifacts :: "router_config \<Rightarrow> task \<Rightarrow> handoff_request \<Rightarrow> unit m" where
  "writeHandoffArtifacts cfg childTask q =
     andThen (write_input (companion_dir childTask) ''handoff.json'' (pc_stringify cfg (handoff_json q)))
       (write_input (companion_dir childTask) ''handoff.md'' (renderHandoffMarkdown q))"

subsection \<open>Handlers\<close>

fun message_type :: "message \<Rightarrow> string" where
  "message_type (HandoffRequest q) = ''handoff.request''"
| "message_type (HandoffAccepted a) = ''handoff.accepted''"
| "message_type (HandoffRejected a) = ''handoff.rejected''"
| "message_type (StatusUpdate u) = ''status.update''"
| "message_type (CompletionReport c) = ''completion.report''"

definition log_received :: "envelope \<Rightarrow> unit m" where
  "log_received e = log_event ''protocol.message.received'' (en_fromAgent e) (Some (en_taskId e))
     [(''type'', JStr (message_type (en_message e)))]"

definition log_rejected :: "envelope \<Rightarrow> string \<Rightarrow> unit m" where
  "log_rejected e reason = log_event ''protocol.message.rejected'' ''system'' (Some (en_taskId e)) [(''reason'', JStr reason)]"

definition log_delegation_rejected :: "envelope \<Rightarrow> string \<Rightarrow> unit m" where
  "log_delegation_rejected e reason =
     log_event ''delegation.rejected'' (en_fromAgent e) (Some (en_taskId e)) [(''reason'', JStr reason)]"

definition cascade_safely :: "string \<Rightarrow> unit m" where
  "cascade_safely i = best_effort (bind (cascadeOnCompletion i) (\<lambda>_. ret ()))"

definition run_result_of :: "envelope \<Rightarrow> completion_report \<Rightarrow> run_result" where
  "run_result_of e c =
     \<lparr>rr_taskId = en_taskId e, rr_agentId = en_fromAgent e, rr_completedAt = en_sentAt e, rr_outcome = cr_outcome c,
      rr_summaryRef = cr_summaryRef c, rr_handoffRef = ''outputs/handoff.md'', rr_deliverables = cr_deliverables c,
      rr_tests = cr_tests c, rr_blockers = cr_blockers c, rr_notes = cr_notes c\<rparr>"

definition accept_completion :: "router_config \<Rightarrow> envelope \<Rightarrow> completion_report \<Rightarrow> task \<Rightarrow> unit m" where
  "accept_completion cfg e c t =
     (let i = en_taskId e in
      andThen (when_m (\<not> pc_exists cfg (cr_summaryRef c))
                 (log_event ''protocol.message.warning'' ''system'' (Some i)
                    [(''reason'', JStr ''summary_file_not_found''), (''summaryRef'', JStr (cr_summaryRef c))]))
      (bind (writeRunResult i (run_result_of e c)) (\<lambda>_.
       andThen (applyCompletionOutcome t (en_fromAgent e) (cr_outcome c) (cr_notes c) (cr_blockers c))
       (andThen (completeRunArtifact i)
       (andThen (when_m (cr_outcome c = CDone) (cascade_safely i))
          (log_event ''task.completed'' (en_fromAgent e) (Some i) [(''outcome'', JStr (outcome_name (cr_outcome c)))]))))))"

definition handleCompletionReport :: "router_config \<Rightarrow> envelope \<Rightarrow> completion_report \<Rightarrow> unit m" where
  "handleCompletionReport cfg e c =
     andThen (log_received e) (bind (get_task (en_taskId e)) (\<lambda>t. case t of
       None \<Rightarrow> log_rejected e ''task_not_found''
     | Some task \<Rightarrow> bind (checkAuthorization (en_fromAgent e) (en_taskId e) task) (\<lambda>ok.
         if \<not> ok then ret () else accept_completion cfg e c task)))"

definition appendWorkLog :: "router_config \<Rightarrow> task \<Rightarrow> status_update \<Rightarrow> task m" where
  "appendWorkLog cfg t u = bind now (\<lambda>ts. case buildWorkLogEntry (pc_iso cfg ts) u of
     None \<Rightarrow> ret t
   | Some entry \<Rightarrow> update_body (pc_hash cfg) (fm_id (t_fm t)) (appendSection (t_body t) ''Work Log'' [entry]))"

definition apply_status_update :: "router_config \<Rightarrow> status_update \<Rightarrow> task \<Rightarrow> unit m" where
  "apply_status_update cfg u t =
     (let actor = su_agentId u; reason = buildStatusReason u in
      bind (case su_status u of None \<Rightarrow> ret t | Some target \<Rightarrow> transition_if_valid t target actor reason) (\<lambda>updated.
        let transitioned = (fm_status (t_fm updated) \<noteq> fm_status (t_fm t)) in
        andThen (when_m (transitioned \<and> fm_status (t_fm updated) = Blocked \<and> pc_cascadeBlocks cfg)
                   (bind (cascadeOnBlock (fm_id (t_fm updated))) (\<lambda>_. ret ())))
        (bind (if \<not> transitioned \<and> shouldAppendWorkLog u then appendWorkLog cfg updated u else ret updated) (\<lambda>final.
          when_m transitioned
            (andThen (logTransition (fm_id (t_fm final)) (fm_status (t_fm t)) (fm_status (t_fm final)) actor reason)
               (notifyTransition (pc_notify cfg) (fm_id (t_fm final)) (fm_status (t_fm t)) (fm_status (t_fm final)) actor reason))))))"

definition handleStatusUpdate :: "router_config \<Rightarrow> envelope \<Rightarrow> status_update \<Rightarrow> unit m" where
  "handleStatusUpdate cfg e u =
     andThen (log_received e) (bind (get_task (en_taskId e)) (\<lambda>t. case t of
       None \<Rightarrow> log_rejected e ''task_not_found''
     | Some task \<Rightarrow> apply_status_update cfg u task))"

text \<open>The child after the handoff: one level deeper, routed to the receiving agent.\<close>

definition handed_off :: "rat \<Rightarrow> string \<Rightarrow> int \<Rightarrow> task \<Rightarrow> task" where
  "handed_off parentDepth toAgent ts t =
     t\<lparr>t_fm := (t_fm t)\<lparr>fm_metadata := (fm_metadata (t_fm t))(''delegationDepth'' \<mapsto> JNum (parentDepth + 1)),
        fm_routing := (fm_routing (t_fm t))\<lparr>rt_agent := Some toAgent\<rparr>, fm_updatedAt := ts\<rparr>\<rparr>"

definition delegation_depth :: "task \<Rightarrow> rat" where
  "delegation_depth t = meta_num0 (fm_metadata (t_fm t)) ''delegationDepth''"

definition accept_handoff :: "router_config \<Rightarrow> envelope \<Rightarrow> handoff_request \<Rightarrow> task \<Rightarrow> task \<Rightarrow> unit m" where
  "accept_handoff cfg e q childTask parentTask = bind now (\<lambda>ts.
     let child = handed_off (delegation_depth parentTask) (hq_toAgent q) ts childTask in
     andThen (save_task child)
     (andThen (writeHandoffArtifacts cfg child q)
        (log_event ''delegation.requested'' (en_fromAgent e) (Some (en_taskId e))
           [(''parentTaskId'', JStr (hq_parentTaskId q)), (''toAgent'', JStr (hq_toAgent q))])))"

definition handleHandoffRequest :: "router_config \<Rightarrow> envelope \<Rightarrow> handoff_request \<Rightarrow> unit m" where
  "handleHandoffRequest cfg e q =
     andThen (log_received e)
       (if hq_taskId q \<noteq> en_taskId e then log_rejected e ''taskId_mismatch''
        else bind (get_task (en_taskId e)) (\<lambda>child. case child of
          None \<Rightarrow> andThen (log_rejected e ''task_not_found'') (log_delegation_rejected e ''task_not_found'')
        | Some childTask \<Rightarrow> bind (checkAuthorization (en_fromAgent e) (en_taskId e) childTask) (\<lambda>ok.
            if \<not> ok then ret ()
            else bind (get_task (hq_parentTaskId q)) (\<lambda>parent. case parent of
              None \<Rightarrow> log_delegation_rejected e ''parent_not_found''
            | Some parentTask \<Rightarrow>
                if delegation_depth parentTask + 1 > 1 then log_delegation_rejected e ''nested_delegation''
                else accept_handoff cfg e q childTask parentTask))))"

definition reject_handoff :: "router_config \<Rightarrow> envelope \<Rightarrow> handoff_ack \<Rightarrow> task \<Rightarrow> unit m" where
  "reject_handoff cfg e a childTask =
     (let reason = or_else (ha_reason a) ''handoff_rejected''; i = fm_id (t_fm childTask); from = fm_status (t_fm childTask) in
      bind (transition_if_valid childTask Blocked (en_fromAgent e) (Some reason)) (\<lambda>_.
      andThen (logTransition i from Blocked (en_fromAgent e) (Some reason))
      (andThen (notifyTransition (pc_notify cfg) i from Blocked (en_fromAgent e) (Some reason))
        (log_delegation_rejected e reason))))"

definition handleHandoffAck :: "router_config \<Rightarrow> envelope \<Rightarrow> bool \<Rightarrow> handoff_ack \<Rightarrow> unit m" where
  "handleHandoffAck cfg e accepted a =
     andThen (log_received e) (bind (get_task (en_taskId e)) (\<lambda>child. case child of
       None \<Rightarrow> log_rejected e ''task_not_found''
     | Some childTask \<Rightarrow> bind (checkAuthorization (en_fromAgent e) (en_taskId e) childTask) (\<lambda>ok.
         if \<not> ok then ret ()
         else if accepted then log_event ''delegation.accepted'' (en_fromAgent e) (Some (en_taskId e)) []
         else reject_handoff cfg e a childTask)))"

fun handle_message :: "router_config \<Rightarrow> envelope \<Rightarrow> message \<Rightarrow> unit m" where
  "handle_message cfg e (CompletionReport c) = handleCompletionReport cfg e c"
| "handle_message cfg e (StatusUpdate u) = handleStatusUpdate cfg e u"
| "handle_message cfg e (HandoffRequest q) = handleHandoffRequest cfg e q"
| "handle_message cfg e (HandoffAccepted a) = handleHandoffAck cfg e True a"
| "handle_message cfg e (HandoffRejected a) = handleHandoffAck cfg e False a"

text \<open>Every type of the schema has a handler, so the branch for unknown types is never taken.\<close>

definition route :: "router_config \<Rightarrow> envelope \<Rightarrow> unit m" where
  "route cfg e =
     (if \<not> (case pc_known cfg of None \<Rightarrow> True | Some known \<Rightarrow> known (en_projectId e)) then
        log_event ''protocol.message.rejected'' ''system'' (Some (en_taskId e))
          [(''reason'', JStr ''invalid_project_id''), (''projectId'', JStr (en_projectId e))]
      else bind (get_task (en_taskId e)) (\<lambda>t. case t of
        None \<Rightarrow> log_event ''protocol.message.rejected'' ''system'' (Some (en_taskId e))
          [(''reason'', JStr ''task_not_found''), (''projectId'', JStr (en_projectId e))]
      | Some _ \<Rightarrow> handle_message cfg e (en_message e)))"

subsection \<open>The end of a session\<close>

definition move_to :: "string \<Rightarrow> task_status \<Rightarrow> string \<Rightarrow> unit m" where
  "move_to i s reason = bind (transition_task i s (reason_opts reason)) (\<lambda>_. ret ())"

definition after_hop :: "router_config \<Rightarrow> run_result \<Rightarrow> hop_completion \<Rightarrow> task \<Rightarrow> unit m" where
  "after_hop cfg runResult result t =
     (let i = fm_id (t_fm t) in
      if hcr_dagComplete result then
        (if rr_outcome runResult = CDone
         then andThen (move_to i Review ''DAG workflow completed successfully'') (cascade_safely i)
         else move_to i Blocked ''DAG workflow failed: all hops failed or skipped'')
      else if hcr_reviewRequired result then move_to i Review ''DAG hop requires review before advancing''
      else
        (case (hcr_readyHops result, pc_executor cfg) of
           (hopId # _, Some ex) \<Rightarrow>
             bind (dispatchDAGHop (Some (pc_spawnTimeoutMs cfg)) ex (pc_uuid cfg i) t hopId) (\<lambda>_. ret ())
         | _ \<Rightarrow> ret ()))"

definition dag_session_end :: "router_config \<Rightarrow> task \<Rightarrow> run_result \<Rightarrow> unit m" where
  "dag_session_end cfg t runResult = bind (handleDAGHopCompletion t runResult) (\<lambda>(result, t').
     andThen (completeRunArtifact (fm_id (t_fm t))) (after_hop cfg runResult result t'))"

definition plain_session_end :: "task \<Rightarrow> run_result \<Rightarrow> unit m" where
  "plain_session_end t runResult =
     (let i = fm_id (t_fm t) in
      andThen (applyCompletionOutcome t (rr_agentId runResult) (rr_outcome runResult) (rr_notes runResult) (rr_blockers runResult))
      (andThen (completeRunArtifact i)
        (when_m (rr_outcome runResult = CDone) (cascade_safely i))))"

definition session_end_task :: "router_config \<Rightarrow> task \<Rightarrow> unit \<Rightarrow> unit m" where
  "session_end_task cfg t u = bind (readRunResult (fm_id (t_fm t))) (\<lambda>r. case r of
     None \<Rightarrow> ret ()
   | Some runResult \<Rightarrow>
       if fm_workflow (t_fm t) \<noteq> None then best_effort (dag_session_end cfg t runResult)
       else plain_session_end t runResult)"

definition handleSessionEnd :: "router_config \<Rightarrow> unit m" where
  "handleSessionEnd cfg = bind (list_tasks (status_filter InProgress)) (\<lambda>inProgress.
     fold_m (session_end_task cfg) inProgress ())"

end
