(* ===== verification/ProtocolProps.thy ===== *)
theory ProtocolProps
  imports ProtocolRouter
begin

section \<open>What protocol messages can do\<close>

text \<open>
  Authorization, the effect of an accepted report, handoffs, and what the end of a session does with a
  run result.
\<close>

lemma log_then: "andThen (log_event ty a k p) f w = f (w\<lparr>w_events := w_events w @
    [\<lparr>ev_type = ty, ev_actor = a, ev_taskId = k, ev_timestamp = w_now w, ev_payload = p\<rparr>]\<rparr>)"
  by (simp add: log_event_def)

text \<open>An operation that changed nothing but the event log.\<close>

definition logs_at :: "'a m \<Rightarrow> 'a \<Rightarrow> world \<Rightarrow> bool" where
  "logs_at f x w \<longleftrightarrow> (\<exists>es. f w = (Inr x, w\<lparr>w_events := es\<rparr>))"

lemma logs_at_log: "logs_at (log_event ty a k p) () w"
  using log_run [of ty a k p w] by (simp add: logs_at_def)

lemma logs_at_ret: "logs_at (ret x) x w"
proof -
  have "ret x w = (Inr x, w\<lparr>w_events := w_events w\<rparr>)" by (simp add: run_simps)
  then show ?thesis unfolding logs_at_def by blast
qed

lemma logs_at_bind: "logs_at f x w \<Longrightarrow> (\<And>es. logs_at (g x) y (w\<lparr>w_events := es\<rparr>)) \<Longrightarrow> logs_at (bind f g) y w"
  by (fastforce simp: logs_at_def bind_def)

lemma logs_at_andThen: "logs_at f x w \<Longrightarrow> (\<And>es. logs_at g y (w\<lparr>w_events := es\<rparr>)) \<Longrightarrow> logs_at (andThen f g) y w"
  unfolding andThen_def by (rule logs_at_bind)

lemma logs_at_get:
  "tidy w \<Longrightarrow> logs_at (get_task i) (map_option (loaded i) (abs_store w i)) w"
  using logs_at_ret [of "map_option (loaded i) (abs_store w i)" w] by (simp add: logs_at_def get_run run_simps)

lemma logs_at_unauthorized:
  "resolveAuthorizedAgent t \<noteq> Some a \<or> a = [] \<Longrightarrow> logs_at (checkAuthorization a i t) False w"
  using unauthorized_run by (auto simp: logs_at_def)

lemmas log_messages = log_received_def log_rejected_def log_delegation_rejected_def

text \<open>The agent a task answers to: the holder of its lease, or else the one it is routed to.\<close>

definition agent_in_charge :: "frontmatter \<Rightarrow> string option" where
  "agent_in_charge fm = (case fm_lease fm of None \<Rightarrow> rt_agent (fm_routing fm) | Some l \<Rightarrow> Some (tl_agent l))"

lemma authorized_agent [simp]: "resolveAuthorizedAgent t = agent_in_charge (t_fm t)"
  by (simp add: resolveAuthorizedAgent_def agent_in_charge_def)

subsection \<open>Authorization\<close>

lemma guarded_rejects:
  assumes "tidy w" "abs_store w (en_taskId e) = Some fb"
    and "agent_in_charge (fst fb) \<noteq> Some (en_fromAgent e) \<or> en_fromAgent e = []"
  shows "logs_at (andThen (log_received e) (bind (get_task (en_taskId e)) (\<lambda>t. case t of
       None \<Rightarrow> f
     | Some task \<Rightarrow> bind (checkAuthorization (en_fromAgent e) (en_taskId e) task) (\<lambda>ok. if \<not> ok then ret () else g task)))) () w"
  unfolding log_messages
proof (rule logs_at_andThen [OF logs_at_log], rule logs_at_bind)
  fix es
  have "tidy (w\<lparr>w_events := es\<rparr>)" using assms(1) by simp
  from logs_at_get [OF this, of "en_taskId e"] show "logs_at (get_task (en_taskId e)) (Some (loaded (en_taskId e) fb)) (w\<lparr>w_events := es\<rparr>)"
    using assms(2) by (simp add: logs_at_def)
qed (use assms(3) in \<open>auto intro!: logs_at_bind [OF logs_at_unauthorized] simp: logs_at_ret\<close>)

lemma unauthorized_logs:
  assumes "tidy w" "abs_store w (en_taskId e) = Some fb"
    and "agent_in_charge (fst fb) \<noteq> Some (en_fromAgent e) \<or> en_fromAgent e = []"
    and "\<And>u. en_message e \<noteq> StatusUpdate u"
  shows "logs_at (handle_message cfg e (en_message e)) () w"
proof (cases "en_message e")
  case (HandoffRequest q)
  note guarded = guarded_rejects [OF assms(1-3)]
  show ?thesis
  proof (cases "hq_taskId q = en_taskId e")
    case True
    then show ?thesis unfolding HandoffRequest handle_message.simps handleHandoffRequest_def by (simp add: guarded)
  next
    case False
    then show ?thesis
      unfolding HandoffRequest handle_message.simps handleHandoffRequest_def
      by (auto simp: log_messages intro!: logs_at_andThen [OF logs_at_log] logs_at_log)
  qed
qed (use assms(4) in \<open>simp_all add: handleCompletionReport_def handleHandoffAck_def guarded_rejects [OF assms(1-3)]\<close>)

text \<open>
  C15: authorization. A completion report, a handoff request or an answer to one from anybody but
  the agent the task is leased to (or, without a lease, routed to) changes nothing but the event
  log.
\<close>

theorem unauthorized_message:
  assumes "tidy w" "abs_store w (en_taskId e) = Some (fm, b)" "\<And>u. en_message e \<noteq> StatusUpdate u"
    and "agent_in_charge fm \<noteq> Some (en_fromAgent e)"
  shows "\<exists>es. route cfg e w = (Inr (), w\<lparr>w_events := es\<rparr>)"
proof (cases "case pc_known cfg of None \<Rightarrow> True | Some known \<Rightarrow> known (en_projectId e)")
  case True
  have "logs_at (handle_message cfg e (en_message e)) () w"
    by (rule unauthorized_logs [OF assms(1,2)]) (use assms(3,4) in simp_all)
  then show ?thesis using True assms(1,2) by (simp add: route_def bind_run get_run logs_at_def)
next
  case False
  then show ?thesis using logs_at_log by (simp add: route_def logs_at_def)
qed

text \<open>
  Fact: status updates are not authorized. Whoever sends it, a \<open>status.update\<close> with a valid next
  status moves the task there, whether or not the sender is in charge of the task.
\<close>

theorem status_update_unchecked:
  assumes "tidy w" "abs_store w (en_taskId e) = Some (fm, b)" "en_message e = StatusUpdate u" "su_status u = Some s"
    and "isValidTransition (fm_status fm) s" "fm_status fm \<noteq> s" "pc_known cfg = None" "pc_notify cfg = None"
    and "pc_cascadeBlocks cfg = False"
  shows "\<exists>w' fm'. route cfg e w = (Inr (), w') \<and> updates w (en_taskId e) (fm', js_trim b) w' \<and> fm_status fm' = s"
proof -
  let ?i = "en_taskId e"
  have id: "fm_id fm = ?i" using stored_id [OF tidy_consistent [OF assms(1)] assms(2)] by simp
  have "yields (handleStatusUpdate cfg e u) w (\<lambda>_ w'. \<exists>fm'. updates w ?i (fm', js_trim b) w' \<and> fm_status fm' = s)"
    unfolding handleStatusUpdate_def yields_andThen log_received_def
  proof (rule yields_log)
    fix es
    let ?w = "w\<lparr>w_events := es\<rparr>"
    have w: "tidy ?w" "abs_store ?w ?i = Some (fm, b)" using assms(1,2) by simp_all
    have "yields (apply_status_update cfg u (loaded ?i (fm, b))) ?w (\<lambda>_ w'. \<exists>fm'. updates w ?i (fm', js_trim b) w' \<and> fm_status fm' = s)"
      unfolding apply_status_update_def Let_def yields_bind assms(4) option.case transition_if_valid_def
      using assms(5,6,8,9)
      by (simp add: id, intro yields_transition [OF w])
        (auto simp: transition_result_def yields_simps logTransition_def notifyTransition_def updates_def intro!: yields_log)
    then show "yields (bind (get_task ?i) (\<lambda>t. case t of None \<Rightarrow> log_rejected e ''task_not_found''
        | Some task \<Rightarrow> apply_status_update cfg u task)) ?w (\<lambda>_ w'. \<exists>fm'. updates w ?i (fm', js_trim b) w' \<and> fm_status fm' = s)"
      unfolding yields_bind yields_get [OF w(1)] w(2) by simp
  qed
  from yieldsD [OF this] show ?thesis
    using assms(1-3,7) by (auto simp: route_def bind_run get_run)
qed

subsection \<open>Run artifacts\<close>

text \<open>The operations of the store leave the run artifacts alone.\<close>

abbreviation "runs_are R \<equiv> \<lambda>w. w_runs w = R"

lemma runs_basic [wf_intros]:
  "preserves (runs_are R) (write_task p t)" "preserves (runs_are R) (unlink p)" "preserves (runs_are R) (rename_dir p q)"
  "preserves (runs_are R) (log_event ty a k pl)" "preserves (runs_are R) (read_task_at p)"
  "preserves (runs_are R) (remove_stale m u)"
  by (auto simp: preserves_def write_task_def put_file_def unlink_def rename_dir_def log_event_def read_task_at_def
      log_validation_failed_def remove_stale_def remove_file_def run_simps bind_def Let_def andThen_def
      split: option.splits file_content.splits)

lemma preserves_case_list [wf_intros]:
  "preserves P f \<Longrightarrow> (\<And>x xs. preserves P (g x xs)) \<Longrightarrow> preserves P (case l of [] \<Rightarrow> f | x # xs \<Rightarrow> g x xs)"
  by (cases l) auto

lemma runs_get [wf_intros]: "preserves (runs_are R) (get_task i)"
  unfolding get_task_def collect_match_def by (intro wf_intros)

lemma runs_list [wf_intros]: "preserves (runs_are R) (list_tasks lf)"
  unfolding list_tasks_def collect_listed_def by (intro wf_intros)

lemma runs_transition [wf_intros]: "preserves (runs_are R) (transition_task i s opts)"
  unfolding transition_task_def move_task_def log_transition_events_def by (intro wf_intros)

lemma runs_completion [wf_intros]:
  "preserves (runs_are R) (cascadeOnCompletion i)" "preserves (runs_are R) (applyCompletionOutcome t a oc n bl)"
  unfolding cascadeOnCompletion_def promote_dependent_def applyCompletionOutcome_def apply_one_def transition_if_valid_def logTransition_def
  by (intro wf_intros)+

lemma complete_artifact_run:
  assumes "consistent w" "abs_store w i = Some fb"
  shows "\<exists>r. completeRunArtifact i w = (Inr (), w\<lparr>w_runs := r\<rparr>) \<and> rd_result (run_dir_of (w\<lparr>w_runs := r\<rparr>) i) = rd_result (run_dir_of w i)"
proof -
  have read: "readRunArtifact i w = (Inr (case map_of (w_runs w) i of None \<Rightarrow> None | Some d \<Rightarrow> rd_run d), w)"
    using assms by (simp add: readRunArtifact_def read_run_file_run)
  show ?thesis
  proof (cases "case map_of (w_runs w) i of None \<Rightarrow> None | Some d \<Rightarrow> rd_run d")
    case None
    then have "completeRunArtifact i w = (Inr (), w\<lparr>w_runs := w_runs w\<rparr>)"
      using read by (simp add: completeRunArtifact_def change_artifact_def bind_def run_simps)
    then show ?thesis by (intro exI [of _ "w_runs w"]) simp
  next
    case (Some a)
    then show ?thesis
      using read assms
      by (auto simp: completeRunArtifact_def change_artifact_def resolveTaskDir_run bind_def change_run_run now_def run_simps
          intro!: exI)
  qed
qed

lemma write_result_run:
  assumes "consistent w" "abs_store w i = Some fb" "valid_task_id i" "rr_taskId r = i"
    "tp_passed (rr_tests r) + tp_failed (rr_tests r) \<le> tp_total (rr_tests r)"
  shows "\<exists>rs. writeRunResult i r w = (Inr r, w\<lparr>w_runs := rs\<rparr>) \<and> rd_result (run_dir_of (w\<lparr>w_runs := rs\<rparr>) i) = Some r"
  using assms
  by (auto simp: writeRunResult_def with_dir_run andThen_def bind_def mkdir_run_def change_run_run run_simps run_dir_of_def
      or_else_def)

lemma yields_frame: "yields f w Q \<Longrightarrow> preserves P f \<Longrightarrow> P w \<Longrightarrow> yields f w (\<lambda>x w'. Q x w' \<and> P w')"
  by (fastforce simp: yields_def preserves_def)

lemma only_at_runs [simp]: "only_at i w (w'\<lparr>w_runs := r\<rparr>) = only_at i w w'" "held_in (w'\<lparr>w_runs := r\<rparr>) i t = held_in w' i t"
  by (simp_all add: only_at_def held_in_def)

subsection \<open>An accepted report\<close>

text \<open>The tasks that can start once \<open>i\<close> is done.\<close>

definition unblocked_by :: "world \<Rightarrow> string \<Rightarrow> string set" where
  "unblocked_by w i = {j. \<exists>fb. abs_store w j = Some fb \<and> i \<in> set (fm_dependsOn (fst fb)) \<and>
     fm_status (fst fb) \<in> {Backlog, Blocked} \<and>
     (\<forall>d \<in> set (fm_dependsOn (fst fb)). d = i \<or> (\<exists>fd. abs_store w d = Some fd \<and> fm_status (fst fd) = Done))}"

lemma cascade_after:
  assumes "only_at i w w1" "abs_store w1 i = Some fb1" "fm_status (fst fb1) \<in> {Review, Done}"
    and "abs_store w i = Some fb" "fm_status (fst fb) = InProgress"
  shows "cascade_ids w1 i = (if fm_status (fst fb1) = Done then unblocked_by w i else {})"
proof -
  have other: "abs_store w1 j = abs_store w j" if "j \<noteq> i" for j using assms(1) that by (simp add: only_at_def)
  have i: "i \<notin> cascade_ids w1 i" "i \<notin> unblocked_by w i"
    using assms(2-5) by (auto simp: cascade_ids_def unblocked_by_def)
  have "j \<in> cascade_ids w1 i \<longleftrightarrow> fm_status (fst fb1) = Done \<and> j \<in> unblocked_by w i" if "j \<noteq> i" for j
  proof (cases "abs_store w j")
    case (Some fj)
    have "(\<exists>fd. abs_store w1 d = Some fd \<and> fm_status (fst fd) = Done) \<longleftrightarrow>
        (if d = i then fm_status (fst fb1) = Done else \<exists>fd. abs_store w d = Some fd \<and> fm_status (fst fd) = Done)" for d
      using other assms(2) by (cases "d = i") simp_all
    then show ?thesis using other [OF that] Some by (auto simp: cascade_ids_def unblocked_by_def deps_done_def)
  qed (use other [OF that] in \<open>auto simp: cascade_ids_def unblocked_by_def\<close>)
  with i show ?thesis by (auto split: if_splits) metis+
qed

definition cascaded :: "world \<Rightarrow> string \<Rightarrow> bool \<Rightarrow> world \<Rightarrow> bool" where
  "cascaded w i promoted w' \<longleftrightarrow> (\<forall>j. j = i \<or> abs_store w' j =
     (if promoted \<and> j \<in> unblocked_by w i
      then map_option (\<lambda>fb. (transition_fm (fst fb) Ready None (w_now w), js_trim (snd fb))) (abs_store w j)
      else abs_store w j))"

lemma cascaded_events [simp]: "cascaded (w\<lparr>w_events := es\<rparr>) i p w' = cascaded w i p w'"
  unfolding cascaded_def unblocked_by_def by (simp cong: if_cong)

lemma cascade_safely_yields:
  assumes "only_at i w w1" "abs_store w1 i = Some fb1" "fm_status (fst fb1) \<in> {Review, Done}"
    and "abs_store w i = Some fb" "fm_status (fst fb) = InProgress"
  shows "yields (cascade_safely i) w1 (\<lambda>_ w'. tidy w' \<and> w_runs w' = w_runs w1 \<and> abs_store w' i = Some fb1 \<and>
    cascaded w i (fm_status (fst fb1) = Done) w')"
proof -
  have t1: "tidy w1" "w_now w1 = w_now w" using assms(1) by (simp_all add: only_at_def)
  have ids: "cascade_ids w1 i = (if fm_status (fst fb1) = Done then unblocked_by w i else {})"
    by (rule cascade_after [OF assms])
  have "i \<notin> cascade_ids w1 i" using assms(2,3) by (auto simp: cascade_ids_def)
  then have "yields (cascadeOnCompletion i) w1 (\<lambda>_ w'. (tidy w' \<and> abs_store w' i = Some fb1 \<and>
      cascaded w i (fm_status (fst fb1) = Done) w') \<and> w_runs w' = w_runs w1)"
    using assms(1,2) t1(2) ids
    by (intro yields_frame [OF yields_mono [OF cascade_run [OF t1(1)]] runs_completion(1) refl])
      (auto simp: cascaded_def only_at_def)
  then show ?thesis
    unfolding cascade_safely_def by (intro yields_best_effort) (auto simp: yields_simps elim: yields_mono)
qed

definition reported_status :: "frontmatter \<Rightarrow> completion_outcome \<Rightarrow> task_status" where
  "reported_status fm outcome =
    (case outcome of
       CDone \<Rightarrow> if fm_metadata fm ''reviewRequired'' = Some (JBool False) then Done else Review
     | CBlocked \<Rightarrow> Blocked
     | CNeedsReview \<Rightarrow> Review
     | CPartial \<Rightarrow> Review)"

lemma completion_run:
  assumes "tidy w" "abs_store w i = Some (fm, b)" "fm_status fm = InProgress" "i = en_taskId e" "valid_task_id i"
    and "tp_passed (cr_tests c) + tp_failed (cr_tests c) \<le> tp_total (cr_tests c)"
  shows "yields (accept_completion cfg e c (loaded i (fm, b))) w (\<lambda>_ w'. tidy w' \<and>
    (\<exists>fm' b'. abs_store w' i = Some (fm', b') \<and> js_trim b' = js_trim b \<and> fm_status fm' = reported_status fm (cr_outcome c)) \<and>
    rd_result (run_dir_of w' i) = Some (run_result_of e c) \<and>
    cascaded w i (cr_outcome c = CDone \<and> reported_status fm (cr_outcome c) = Done) w')"
    (is "yields _ w ?Q")
proof -
  let ?t = "loaded i (fm, b)"
  let ?P = "\<lambda>w'. \<exists>t'. held_in w' i t' \<and> only_at i w w' \<and> same_task ?t t' \<and> fm_status (t_fm t') = reported_status fm (cr_outcome c)"
  let ?R = "\<lambda>w'. rd_result (run_dir_of w' i) = Some (run_result_of e c)"
  have w_runs: "run_dir_of w2 = run_dir_of w1" if "w_runs w2 = w_runs w1" for w1 w2 by (simp add: run_dir_of_def that fun_eq_iff)
  have result: "yields (writeRunResult i (run_result_of e c)) (w\<lparr>w_events := es\<rparr>) (\<lambda>_ w1. held_in w1 i ?t \<and> only_at i w w1 \<and> ?R w1)" for es
    using write_result_run [of "w\<lparr>w_events := es\<rparr>" i "(fm, b)" "run_result_of e c"] assms held_loaded [OF assms(1,2)]
    by (auto simp: yields_def tidy_consistent run_result_of_def only_at_refl)
  have applied: "yields (applyCompletionOutcome ?t (en_fromAgent e) (cr_outcome c) (cr_notes c) (cr_blockers c)) w1
      (\<lambda>_ w2. ?P w2 \<and> ?R w2)"
    if w1: "held_in w1 i ?t" "only_at i w w1" "?R w1" for w1
  proof -
    have "fm_status (t_fm ?t) = InProgress" using assms(3) by simp
    from completion_in_progress [OF this] have st: "completion_status ?t (cr_outcome c) = reported_status fm (cr_outcome c)"
      by (simp add: reported_status_def)
    have "yields (applyCompletionOutcome ?t (en_fromAgent e) (cr_outcome c) (cr_notes c) (cr_blockers c)) w1
        (\<lambda>_ w2. (\<exists>t'. held_in w2 i t' \<and> only_at i w1 w2 \<and> same_task ?t t' \<and> fm_status (t_fm t') = completion_status ?t (cr_outcome c)) \<and>
          w_runs w2 = w_runs w1)"
      by (rule yields_frame [OF apply_completion_yields [OF w1(1)] runs_completion(2) refl])
    then show ?thesis unfolding st
    proof (rule yields_mono, elim conjE exE)
      fix w2 t'
      assume t': "held_in w2 i t'" "only_at i w1 w2" "same_task ?t t'" "fm_status (t_fm t') = reported_status fm (cr_outcome c)"
        and "w_runs w2 = w_runs w1"
      then show "?P w2 \<and> ?R w2" using only_at_trans [OF w1(2) t'(2)] w1(3) w_runs [of w2 w1] by metis
    qed
  qed
  have finished: "yields (completeRunArtifact i) w2 (\<lambda>_ w3. ?P w3 \<and> ?R w3)" if w2: "?P w2" "?R w2" for w2
  proof -
    from w2(1) obtain t' where t': "held_in w2 i t'" by blast
    then obtain fb where "consistent w2" "abs_store w2 i = Some fb" by (auto simp: held_in_def tidy_consistent)
    from complete_artifact_run [OF this] show ?thesis using w2 by (auto simp: yields_def)
  qed
  have cascade: "yields (when_m (cr_outcome c = CDone) (cascade_safely i)) w3 ?Q" if w3: "?P w3" "?R w3" for w3
  proof -
    from w3(1) obtain t' where h: "held_in w3 i t'" "only_at i w w3" "same_task ?t t'"
      "fm_status (t_fm t') = reported_status fm (cr_outcome c)" by blast
    from h(1,3) obtain b' where "abs_store w3 i = Some (t_fm t', b')" "js_trim b' = js_trim b"
      unfolding held_in_def same_task_def by auto
    note t' = h(2) this h(4)
    show ?thesis
    proof (cases "cr_outcome c = CDone")
      case True
      then have "fm_status (fst (t_fm t', b')) \<in> {Review, Done}" using t'(4) by (simp add: reported_status_def)
      from cascade_safely_yields [OF t'(1,2) this assms(2)] assms(3)
      have "yields (cascade_safely i) w3 (\<lambda>_ w'. tidy w' \<and> w_runs w' = w_runs w3 \<and> abs_store w' i = Some (t_fm t', b') \<and>
          cascaded w i (fm_status (t_fm t') = Done) w')" by simp
      then have "yields (cascade_safely i) w3 ?Q"
      proof (rule yields_mono, elim conjE)
        fix w4 assume w4: "tidy w4" "w_runs w4 = w_runs w3" "abs_store w4 i = Some (t_fm t', b')"
          "cascaded w i (fm_status (t_fm t') = Done) w4"
        show "?Q () w4"
          using w4 t'(3,4) w3(2) w_runs [OF w4(2)] True by (intro conjI exI [of _ "t_fm t'"] exI [of _ b']) simp_all
      qed
      then show ?thesis unfolding yields_when if_P [OF True] .
    next
      case False
      then show ?thesis unfolding yields_when using t' w3(2) by (auto simp: only_at_def cascaded_def)
    qed
  qed
  have events: "?Q () (w1\<lparr>w_events := es\<rparr>)" if "?Q () w1" for w1 es
    using that by (simp add: cascaded_def run_dir_of_def)
  have rest: "yields (bind (writeRunResult i (run_result_of e c)) (\<lambda>_.
       andThen (applyCompletionOutcome ?t (en_fromAgent e) (cr_outcome c) (cr_notes c) (cr_blockers c))
       (andThen (completeRunArtifact i) (andThen (when_m (cr_outcome c = CDone) (cascade_safely i))
          (log_event ''task.completed'' (en_fromAgent e) (Some i) p))))) (w\<lparr>w_events := es\<rparr>) ?Q" for es p
    by (rule yields_seq_bind [OF result], elim conjE, rule yields_seq [OF applied], assumption+, elim conjE,
        rule yields_seq [OF finished], assumption+, elim conjE, rule yields_seq [OF cascade], assumption+, rule yields_log, rule events)
  show ?thesis
    unfolding accept_completion_def Let_def assms(4) [symmetric] yields_andThen [of "when_m _ (log_event ''protocol.message.warning'' _ _ _)"] yields_when
    using rest [where es = "w_events w"] by (auto intro!: yields_log rest)
qed

text \<open>
  C4: completion report. A report of the agent in charge on a task in progress is accepted: the
  task goes to \<open>review\<close>, \<open>blocked\<close> or \<open>done\<close> as the outcome and \<open>reviewRequired\<close> say, the run result is
  stored, and no other task changes, except that a task that is done makes ready exactly the tasks
  it was the last open dependency of.
\<close>

theorem completion_report_effect:
  assumes "tidy w" "abs_store w i = Some (fm, b)" "fm_status fm = InProgress" "i = en_taskId e" "valid_task_id i"
    and "en_message e = CompletionReport c" "tp_passed (cr_tests c) + tp_failed (cr_tests c) \<le> tp_total (cr_tests c)"
    and "agent_in_charge fm = Some (en_fromAgent e)" "en_fromAgent e \<noteq> []" "pc_known cfg = None"
  shows "\<exists>w' fm' b'. route cfg e w = (Inr (), w') \<and> tidy w' \<and> abs_store w' i = Some (fm', b') \<and>
    fm_status fm' = reported_status fm (cr_outcome c) \<and> rd_result (run_dir_of w' i) = Some (run_result_of e c) \<and>
    (\<forall>j. j = i \<or> abs_store w' j =
      (if fm_status fm' = Done \<and> j \<in> unblocked_by w i
       then map_option (\<lambda>fb. (transition_fm (fst fb) Ready None (w_now w), js_trim (snd fb))) (abs_store w j)
       else abs_store w j))"
proof -
  have is_done: "cr_outcome c = CDone \<and> reported_status fm (cr_outcome c) = Done \<longleftrightarrow> reported_status fm (cr_outcome c) = Done"
    by (cases "cr_outcome c") (simp_all add: reported_status_def)
  have at: "yields (accept_completion cfg e c (loaded i (fm, b))) (w\<lparr>w_events := es\<rparr>) (\<lambda>_ w'. tidy w' \<and>
    (\<exists>fm' b'. abs_store w' i = Some (fm', b') \<and> js_trim b' = js_trim b \<and> fm_status fm' = reported_status fm (cr_outcome c)) \<and>
    rd_result (run_dir_of w' i) = Some (run_result_of e c) \<and> cascaded w i (reported_status fm (cr_outcome c) = Done) w')" for es
    using completion_run [of "w\<lparr>w_events := es\<rparr>", OF _ _ assms(3-5,7)] assms(1,2)
    unfolding is_done by simp
  have auth: "resolveAuthorizedAgent (loaded i (fm, b)) = Some (en_fromAgent e)" using assms(8) by simp
  have "yields (handleCompletionReport cfg e c) w (\<lambda>_ w'. tidy w' \<and>
    (\<exists>fm' b'. abs_store w' i = Some (fm', b') \<and> js_trim b' = js_trim b \<and> fm_status fm' = reported_status fm (cr_outcome c)) \<and>
    rd_result (run_dir_of w' i) = Some (run_result_of e c) \<and> cascaded w i (reported_status fm (cr_outcome c) = Done) w')"
    unfolding handleCompletionReport_def log_received_def assms(4) [symmetric] yields_andThen
  proof (rule yields_log)
    fix es
    have w: "tidy (w\<lparr>w_events := es\<rparr>)" "abs_store (w\<lparr>w_events := es\<rparr>) i = Some (fm, b)" using assms(1,2) by simp_all
    show "yields (bind (get_task i) (\<lambda>t. case t of None \<Rightarrow> log_rejected e ''task_not_found''
       | Some task \<Rightarrow> bind (checkAuthorization (en_fromAgent e) i task) (\<lambda>ok.
         if \<not> ok then ret () else accept_completion cfg e c task))) (w\<lparr>w_events := es\<rparr>) (\<lambda>_ w'. tidy w' \<and>
      (\<exists>fm' b'. abs_store w' i = Some (fm', b') \<and> js_trim b' = js_trim b \<and> fm_status fm' = reported_status fm (cr_outcome c)) \<and>
      rd_result (run_dir_of w' i) = Some (run_result_of e c) \<and> cascaded w i (reported_status fm (cr_outcome c) = Done) w')"
      unfolding yields_bind [of "get_task _"] yields_get [OF w(1)] w(2) option.map option.case yields_bind [of "checkAuthorization _ _ _"]
      by (rule yields_authorized [OF auth assms(9)], subst if_not_P, simp, rule at)
  qed
  then show ?thesis
    using assms(1,2,4,6,10) unfolding cascaded_def
    by (force simp: route_def bind_run get_run dest!: yieldsD)
qed

subsection \<open>Handoffs\<close>

lemma dirs_frame [simp]: "abs_store (w\<lparr>w_dirs := d\<rparr>) = abs_store w" "consistent (w\<lparr>w_dirs := d\<rparr>) = consistent w"
  by (rule files_frame; simp)+

lemma write_input_run:
  assumes "tidy w" "abs_store w i = Some fb"
  shows "\<exists>w'. write_input (taskPath i (fm_status (fst fb))) f x w = (Inr (), w') \<and> tidy w' \<and> abs_store w' = abs_store w \<and> w_now w' = w_now w"
  using assms
  by (cases fb) (auto simp: write_input_def run_simps Let_def tidy_def dirs_follow_def update_conv')

lemma yields_artifacts:
  assumes "tidy w" "abs_store w i = Some fb" "companion_dir t = taskPath i (fm_status (fst fb))"
    and "\<And>w'. tidy w' \<Longrightarrow> abs_store w' = abs_store w \<Longrightarrow> w_now w' = w_now w \<Longrightarrow> Q () w'"
  shows "yields (writeHandoffArtifacts cfg t q) w Q"
proof -
  let ?p = "taskPath i (fm_status (fst fb))"
  obtain w1 where w1: "write_input ?p ''handoff.json'' (pc_stringify cfg (handoff_json q)) w = (Inr (), w1)"
    "tidy w1" "abs_store w1 = abs_store w" "w_now w1 = w_now w" using write_input_run [OF assms(1,2)] by blast
  obtain w2 where w2: "write_input ?p ''handoff.md'' (renderHandoffMarkdown q) w1 = (Inr (), w2)"
    "tidy w2" "abs_store w2 = abs_store w1" "w_now w2 = w_now w1" using write_input_run [OF w1(2), of i fb] w1(3) assms(2) by auto
  show ?thesis
    unfolding writeHandoffArtifacts_def assms(3) yields_andThen yields_run [of "write_input _ _ _", OF w1(1)] yields_run [of "write_input _ _ _", OF w2(1)]
    using assms(4) w1 w2 by simp
qed

text \<open>The child after an accepted handoff.\<close>

definition delegated :: "frontmatter \<Rightarrow> handoff_request \<Rightarrow> int \<Rightarrow> frontmatter \<Rightarrow> frontmatter" where
  "delegated parent q ts fm = t_fm (handed_off (meta_num0 (fm_metadata parent) ''delegationDepth'') (hq_toAgent q) ts
     \<lparr>t_fm = fm, t_body = [], t_path = None\<rparr>)"

lemma delegated_simps [simp]:
  "fm_lease (delegated p q ts fm) = fm_lease fm" "rt_agent (fm_routing (delegated p q ts fm)) = Some (hq_toAgent q)"
  "meta_num0 (fm_metadata (delegated p q ts fm)) ''delegationDepth'' = meta_num0 (fm_metadata p) ''delegationDepth'' + 1"
  "fm_id (delegated p q ts fm) = fm_id fm" "fm_status (delegated p q ts fm) = fm_status fm"
  by (simp_all add: delegated_def handed_off_def meta_num0_def meta_num_def)

lemma handoff_run:
  assumes "tidy w" "abs_store w i = Some (fm, b)" "i = en_taskId e" "en_message e = HandoffRequest q" "hq_taskId q = i"
    and "agent_in_charge fm = Some (en_fromAgent e)" "en_fromAgent e \<noteq> []" "pc_known cfg = None"
    and "abs_store w (hq_parentTaskId q) = Some (pm, pb)"
  shows "yields (route cfg e) w (\<lambda>_ w'. if meta_num0 (fm_metadata pm) ''delegationDepth'' > 0 then abs_store w' = abs_store w
    else updates w i (delegated pm q (w_now w) fm, js_trim b) w')"
proof -
  let ?Q = "\<lambda>w'. if meta_num0 (fm_metadata pm) ''delegationDepth'' > 0 then abs_store w' = abs_store w
    else updates w i (delegated pm q (w_now w) fm, js_trim b) w'"
  have auth: "resolveAuthorizedAgent (loaded i (fm, b)) = Some (en_fromAgent e)" using assms(6) by simp
  have id: "fm_id fm = i" using stored_id [OF tidy_consistent [OF assms(1)] assms(2)] by simp
  have accept: "yields (accept_handoff cfg e q (loaded i (fm, b)) (loaded (hq_parentTaskId q) (pm, pb))) (w\<lparr>w_events := es\<rparr>) (\<lambda>_. ?Q)"
    if "\<not> meta_num0 (fm_metadata pm) ''delegationDepth'' > 0" for es
  proof -
    let ?w = "w\<lparr>w_events := es\<rparr>" and ?c = "handed_off (meta_num0 (fm_metadata pm) ''delegationDepth'') (hq_toAgent q) (w_now w) (loaded i (fm, b))"
    have w: "tidy ?w" "abs_store ?w i = Some (fm, b)" using assms(1,2) by simp_all
    have c: "t_fm ?c = delegated pm q (w_now w) fm" "t_body ?c = b" "companion_dir ?c = taskPath i (fm_status fm)"
      "t_path ?c = Some (taskPath i (fm_status fm))"
      using id by (simp_all add: delegated_def handed_off_def companion_dir_def path_or_def taskPath_def)
    have "yields (andThen (save_task ?c) (andThen (writeHandoffArtifacts cfg ?c q)
        (log_event ''delegation.requested'' (en_fromAgent e) (Some i) p))) ?w
        (\<lambda>_ w'. updates w i (delegated pm q (w_now w) fm, js_trim b) w')" for p
    proof (rule yields_seq)
      show "yields (save_task ?c) ?w (\<lambda>_ w'. updates w i (delegated pm q (w_now w) fm, js_trim b) w')"
        by (rule yields_save [OF w]) (use c in \<open>simp_all add: updates_def\<close>)
    next
      fix w1 assume u: "updates w i (delegated pm q (w_now w) fm, js_trim b) w1"
      note at = updatesD(1,4) [OF u]
      show "yields (andThen (writeHandoffArtifacts cfg ?c q) (log_event ''delegation.requested'' (en_fromAgent e) (Some i) p)) w1
          (\<lambda>_ w'. updates w i (delegated pm q (w_now w) fm, js_trim b) w')"
        unfolding yields_andThen
        by (rule yields_artifacts [OF at], simp add: c, rule yields_log) (use u in \<open>simp add: updates_def\<close>)
    qed
    then show ?thesis
      using that assms(3) by (simp add: accept_handoff_def yields_simps delegation_depth_def Let_def)
  qed
  have "yields (handleHandoffRequest cfg e q) w (\<lambda>_. ?Q)"
    unfolding handleHandoffRequest_def log_received_def yields_andThen
  proof (rule yields_log)
    fix es
    have w: "tidy (w\<lparr>w_events := es\<rparr>)" "abs_store (w\<lparr>w_events := es\<rparr>) i = Some (fm, b)"
      "abs_store (w\<lparr>w_events := es\<rparr>) (hq_parentTaskId q) = Some (pm, pb)" using assms(1,2,9) by simp_all
    have "yields (bind (get_task (hq_parentTaskId q)) (\<lambda>parent. case parent of
          None \<Rightarrow> log_delegation_rejected e ''parent_not_found''
        | Some parentTask \<Rightarrow>
            if delegation_depth parentTask + 1 > 1 then log_delegation_rejected e ''nested_delegation''
            else accept_handoff cfg e q (loaded i (fm, b)) parentTask)) (w\<lparr>w_events := es\<rparr>) (\<lambda>_. ?Q)"
      unfolding yields_bind yields_get [OF w(1)] w(3) option.map option.case
      using accept [of es] by (auto simp: delegation_depth_def log_delegation_rejected_def intro!: yields_log)
    then have checked: "yields (checkAuthorization (en_fromAgent e) i (loaded i (fm, b))) (w\<lparr>w_events := es\<rparr>) (\<lambda>ok w'.
        yields (if \<not> ok then ret () else bind (get_task (hq_parentTaskId q)) (\<lambda>parent. case parent of
          None \<Rightarrow> log_delegation_rejected e ''parent_not_found''
        | Some parentTask \<Rightarrow>
            if delegation_depth parentTask + 1 > 1 then log_delegation_rejected e ''nested_delegation''
            else accept_handoff cfg e q (loaded i (fm, b)) parentTask)) w' (\<lambda>_. ?Q))"
      by (intro yields_authorized [OF auth assms(7)]) (subst if_not_P, simp, assumption)
    have match: "\<not> hq_taskId q \<noteq> i" using assms(5) by simp
    show "yields (if hq_taskId q \<noteq> en_taskId e then log_rejected e ''taskId_mismatch''
        else bind (get_task (en_taskId e)) (\<lambda>child. case child of
          None \<Rightarrow> andThen (log_rejected e ''task_not_found'') (log_delegation_rejected e ''task_not_found'')
        | Some childTask \<Rightarrow> bind (checkAuthorization (en_fromAgent e) (en_taskId e) childTask) (\<lambda>ok.
            if \<not> ok then ret ()
            else bind (get_task (hq_parentTaskId q)) (\<lambda>parent. case parent of
              None \<Rightarrow> log_delegation_rejected e ''parent_not_found''
            | Some parentTask \<Rightarrow>
                if delegation_depth parentTask + 1 > 1 then log_delegation_rejected e ''nested_delegation''
                else accept_handoff cfg e q childTask parentTask)))) (w\<lparr>w_events := es\<rparr>) (\<lambda>_. ?Q)"
      unfolding assms(3) [symmetric] if_not_P [OF match] yields_bind [of "get_task i"] yields_get [OF w(1)] w(2) option.map option.case
        yields_bind [of "checkAuthorization _ _ _"] by (rule checked)
  qed
  then show ?thesis using assms(1-4,8) by (simp add: route_def bind_run get_run yields_def)
qed

text \<open>
  C16: handoff. A handoff request of the agent in charge whose parent task was not itself delegated
  routes the child to the receiving agent, one level deeper, and changes no other task; a request
  below a delegated parent changes no task, so delegations do not nest.
\<close>

theorem handoff_depth:
  assumes "tidy w" "abs_store w i = Some (fm, b)" "i = en_taskId e" "en_message e = HandoffRequest q" "hq_taskId q = i"
    and "agent_in_charge fm = Some (en_fromAgent e)" "en_fromAgent e \<noteq> []" "pc_known cfg = None"
    and "abs_store w (hq_parentTaskId q) = Some (pm, pb)" "depth = meta_num0 (fm_metadata pm) ''delegationDepth''"
  shows "\<exists>w'. route cfg e w = (Inr (), w') \<and>
    (if depth > 0 then abs_store w' = abs_store w
     else \<exists>fm'. updates w i (fm', js_trim b) w' \<and> fm_status fm' = fm_status fm \<and> fm_lease fm' = fm_lease fm \<and>
       rt_agent (fm_routing fm') = Some (hq_toAgent q) \<and> meta_num0 (fm_metadata fm') ''delegationDepth'' = depth + 1)"
  using yieldsD [OF handoff_run [OF assms(1-9)]] assms(10) by (force split: if_splits)

text \<open>
  Fact: the answer to a handoff. When the agent that hands a task over still holds its lease, the
  lease stays, and it decides who is in charge: the answer of the agent the task was routed to is
  refused and changes no task.
\<close>

theorem handoff_answer_refused:
  assumes "tidy w" "abs_store w i = Some (fm, b)" "i = en_taskId e" "en_message e = HandoffRequest q" "hq_taskId q = i"
    and "fm_lease fm = Some l" "tl_agent l = en_fromAgent e" "en_fromAgent e \<noteq> []" "pc_known cfg = None"
    and "abs_store w (hq_parentTaskId q) = Some (pm, pb)" "meta_num0 (fm_metadata pm) ''delegationDepth'' = 0"
    and "hq_toAgent q \<noteq> en_fromAgent e" "en_fromAgent a = hq_toAgent q" "en_taskId a = i"
    and "en_message a = HandoffAccepted ack \<or> en_message a = HandoffRejected ack"
  shows "\<exists>w' es. route cfg e w = (Inr (), w') \<and> map_option (rt_agent \<circ> fm_routing \<circ> fst) (abs_store w' i) = Some (Some (en_fromAgent a)) \<and>
    route cfg a w' = (Inr (), w'\<lparr>w_events := es\<rparr>)"
proof -
  have "agent_in_charge fm = Some (en_fromAgent e)" using assms(6,7) by (simp add: agent_in_charge_def)
  from yieldsD [OF handoff_run [OF assms(1-5) this assms(8-10)]] assms(11) obtain w'
    where w': "route cfg e w = (Inr (), w')" "updates w i (delegated pm q (w_now w) fm, js_trim b) w'" by auto
  note at = updatesD(1,4) [OF w'(2)]
  have "agent_in_charge (delegated pm q (w_now w) fm) \<noteq> Some (en_fromAgent a)"
    using assms(6,7,12,13) by (simp add: agent_in_charge_def)
  then have "logs_at (handle_message cfg a (en_message a)) () w'"
    by (intro unauthorized_logs [OF at(1)]) (use at(2) assms(14,15) in auto)
  then have "\<exists>es. route cfg a w' = (Inr (), w'\<lparr>w_events := es\<rparr>)"
    using at assms(9,14) by (simp add: route_def bind_run get_run logs_at_def)
  then show ?thesis using w'(1) at(2) assms(13) by auto
qed

end
