(* ===== verification/SessionEnd.thy ===== *)
theory SessionEnd
  imports ProtocolProps
begin

section \<open>Run results are used twice\<close>

text \<open>
  \<open>handleSessionEnd\<close> runs at the end of every session, of whatever task, and reads the run result of
  each task in progress. A run result is never removed and does not name the hop it was written for.
  So the result of one hop completes the next one, which has only just been dispatched.
\<close>

definition two_hops :: workflow_definition where
  "two_hops = \<lparr>wd_name = ''line'', wd_hops = [plain_hop ''a'' [], plain_hop ''b'' [''a'']]\<rparr>"

definition first_dispatched :: task_workflow where
  "first_dispatched = \<lparr>tw_definition = two_hops,
     tw_state = \<lparr>ws_status = WRunning, ws_hops = [(''a'', hop_state_of HDispatched), (''b'', hop_state_of HPending)],
       ws_startedAt = None, ws_completedAt = None\<rparr>, tw_templateName = None\<rparr>"

definition result_of_a :: run_result where
  "result_of_a = \<lparr>rr_taskId = sample_id, rr_agentId = ''dev'', rr_completedAt = 50, rr_outcome = CDone, rr_summaryRef = [],
     rr_handoffRef = [], rr_deliverables = [], rr_tests = \<lparr>tp_total = 0, tp_passed = 0, tp_failed = 0\<rparr>, rr_blockers = [], rr_notes = []\<rparr>"

definition session_world :: world where
  "session_world = (tasks_world [(sample_fm sample_id InProgress)\<lparr>fm_workflow := Some first_dispatched\<rparr>])
     \<lparr>w_runs := [(sample_id, empty_run\<lparr>rd_result := Some result_of_a\<rparr>)]\<rparr>"

definition session_config :: router_config where
  "session_config = \<lparr>pc_notify = None, pc_known = None, pc_cascadeBlocks = False,
     pc_executor = Some (answering \<lparr>sr_success = True, sr_sessionId = Some ''s'', sr_error = None\<rparr>), pc_spawnTimeoutMs = 1,
     pc_exists = \<lambda>f. True, pc_iso = \<lambda>t. [], pc_hash = \<lambda>b. [], pc_stringify = \<lambda>v. [], pc_uuid = \<lambda>i. ''u''\<rparr>"

definition hop_statuses :: "world \<Rightarrow> (task_status \<times> (string \<times> hop_status) list) option" where
  "hop_statuses w = (case abs_store w sample_id of None \<Rightarrow> None | Some (fm, b) \<Rightarrow> (case fm_workflow fm of
     None \<Rightarrow> None | Some flow \<Rightarrow> Some (fm_status fm, map (\<lambda>(h, s). (h, hs_status s)) (ws_hops (tw_state flow)))))"

definition after_end :: "world \<Rightarrow> world" where
  "after_end w = snd (handleSessionEnd session_config w)"

lemma first_end:
  "hop_statuses (after_end session_world) = Some (InProgress, [(''a'', HComplete), (''b'', HDispatched)])"
  by code_simp

lemma second_end:
  "hop_statuses (after_end (after_end session_world)) = Some (Review, [(''a'', HComplete), (''b'', HComplete)])"
  by code_simp

text \<open>
  Fact: a run result is used again. The run result of hop \<open>a\<close> is there when a session ends: \<open>a\<close> is
  complete and \<open>b\<close> is dispatched. When any session ends after that, before \<open>b\<close> has reported anything,
  \<open>b\<close> is complete as well and the task goes to review.
\<close>

theorem stale_run_result:
  "\<exists>w1 w2. handleSessionEnd session_config session_world = (Inr (), w1) \<and>
    hop_statuses w1 = Some (InProgress, [(''a'', HComplete), (''b'', HDispatched)]) \<and>
    handleSessionEnd session_config w1 = (Inr (), w2) \<and>
    hop_statuses w2 = Some (Review, [(''a'', HComplete), (''b'', HComplete)])"
proof -
  have "fst (handleSessionEnd session_config session_world) = Inr ()" by code_simp
  moreover have "fst (handleSessionEnd session_config (after_end session_world)) = Inr ()" by code_simp
  ultimately show ?thesis
    using first_end second_end unfolding after_end_def by (metis prod.collapse)
qed

end
