(* ===== verification/ProtocolExamples.thy ===== *)
theory ProtocolExamples
  imports SessionEnd
begin

section \<open>Workflow hops and protocol messages on concrete worlds\<close>

text \<open>The properties of the hop operations and of the router applied to small stores.\<close>

definition hop_fm :: frontmatter where
  "hop_fm = (sample_fm sample_id InProgress)\<lparr>fm_workflow := Some first_dispatched\<rparr>"

definition hop_world :: world where
  "hop_world = tasks_world [hop_fm]"

lemma hop_world_simps [simp]:
  "tidy hop_world" "abs_store hop_world sample_id = Some (hop_fm, ''body'')" "w_now hop_world = 100"
  "fm_workflow hop_fm = Some first_dispatched" "fm_status hop_fm = InProgress" "fm_id hop_fm = sample_id"
  by (simp_all add: hop_world_def hop_fm_def)

definition hop_task :: task where
  "hop_task = loaded sample_id (hop_fm, ''body'')"

definition a_complete :: dag_result where
  "a_complete = projr (evaluateDAG two_hops (tw_state first_dispatched)
     (mapRunResultToHopEvent result_of_a ''a'' (find_hop two_hops ''a''))
     (ectx_task (buildEvalContext hop_task first_dispatched)) 100)"

theorem hop_completion_exact_witness:
  "\<exists>c t' w'. handleDAGHopCompletion hop_task result_of_a hop_world = (Inr (c, t'), w') \<and>
    updates hop_world sample_id (advanced first_dispatched (dr_state a_complete) 100 hop_fm, js_trim ''body'') w' \<and>
    hcr_readyHops c = [''b''] \<and> \<not> hcr_reviewRequired c"
proof -
  have e: "evaluateDAG (tw_definition first_dispatched) (tw_state first_dispatched)
      (mapRunResultToHopEvent result_of_a ''a'' (find_hop (tw_definition first_dispatched) ''a''))
      (ectx_task (buildEvalContext hop_task first_dispatched)) (w_now hop_world) = Inr a_complete"
    unfolding hop_world_simps by code_simp
  have d: "findDispatchedHop hop_task = Some ''a''" by code_simp
  have r: "dr_readyHops a_complete = [''b'']" by code_simp
  have a: "find_hop (tw_definition first_dispatched) ''a'' = Some (plain_hop ''a'' [])" by code_simp
  show ?thesis
    using hop_completion_exact [OF hop_world_simps(1,2) hop_task_def hop_world_simps(4) d _ refl e]
    by (auto simp: r a plain_hop_def)
qed

definition answer_of :: "bool \<Rightarrow> executor" where
  "answer_of ok = answering \<lparr>sr_success = ok, sr_sessionId = Some ''s'', sr_error = None\<rparr>"

theorem dispatch_hop_exact_witness:
  "\<exists>w'. dispatchDAGHop None (answer_of True) ''u'' hop_task ''b'' hop_world = (Inr True, w') \<and>
    (\<exists>st. updates hop_world sample_id (advanced first_dispatched st 100 hop_fm, js_trim ''body'') w' \<and>
      status_of (ws_hops st) ''b'' = Some HDispatched)"
proof -
  have b: "find_hop (tw_definition first_dispatched) ''b'' = Some (plain_hop ''b'' [''a''])" by code_simp
  have s: "spawn_answers (answer_of True) \<lparr>sr_success = True, sr_sessionId = Some ''s'', sr_error = None\<rparr>"
    by (simp add: answer_of_def)
  show ?thesis
    using dispatch_hop_exact [OF hop_world_simps(1,2) hop_task_def hop_world_simps(4) b s, of None "''u''"]
    unfolding spawn_result.simps if_True hop_world_simps(3) by (metis (full_types))
qed

theorem hop_enforcement_witness:
  "\<exists>w' fm'. hop_run_complete quiet_example ''u'' sample_id ''a'' ''dev'' crashed hop_world = (Inr (), w') \<and>
    updates hop_world sample_id (fm', js_trim ''body'') w' \<and> fm_status fm' = InProgress \<and>
    (\<exists>st. fm_workflow fm' = Some (first_dispatched\<lparr>tw_state := st\<rparr>) \<and> status_of (ws_hops st) ''b'' = Some HPending)"
proof -
  have d: "status_of (ws_hops (tw_state first_dispatched)) ''a'' = Some HDispatched"
    "status_of (ws_hops (tw_state first_dispatched)) ''b'' = Some HPending" by code_simp+
  have g: "\<not> hop_gives_up hop_fm" by code_simp
  show ?thesis
    using hop_enforcement [OF hop_world_simps(1,2,4,5) d(1) quiet_example_quiet, of "''u''" "''dev''" crashed] d(2) g
    by fastforce
qed

theorem hop_context_exact_witness:
  "\<exists>c. buildHopContext hop_task ''b'' = Inr c \<and> hc_role c = ''dev'' \<and> map_of (hc_artifactPaths c) ''a'' = None"
proof -
  have b: "find_hop (tw_definition first_dispatched) ''b'' = Some (plain_hop ''b'' [''a''])" by code_simp
  have p: "t_path hop_task = Some (taskPath sample_id InProgress)" "fm_workflow (t_fm hop_task) = Some first_dispatched"
    by (simp_all add: hop_task_def)
  obtain c where c: "buildHopContext hop_task ''b'' = Inr c" "hc_role c = h_role (plain_hop ''b'' [''a''])"
    "\<forall>i d. map_of (hc_artifactPaths c) i = Some d \<longleftrightarrow> (i \<in> set (h_dependsOn (plain_hop ''b'' [''a''])) \<and>
       completed_in (ws_hops (tw_state first_dispatched)) i \<noteq> None \<and> d = (fst (taskPath sample_id InProgress), i))"
    using hop_context_exact [OF p b] by blast
  have "completed_in (ws_hops (tw_state first_dispatched)) ''a'' = None" by code_simp
  then have "map_of (hc_artifactPaths c) ''a'' = None" using c(3) by (cases "map_of (hc_artifactPaths c) ''a''") auto
  then show ?thesis using c(1,2) by (simp add: plain_hop_def)
qed

subsection \<open>Messages\<close>

definition envelope_of :: "string \<Rightarrow> string \<Rightarrow> message \<Rightarrow> envelope" where
  "envelope_of i from msg = \<lparr>en_projectId = ''p'', en_taskRelpath = None, en_taskId = i, en_fromAgent = from,
     en_toAgent = ''aof'', en_sentAt = 90, en_message = msg\<rparr>"

lemma envelope_of_simps [simp]:
  "en_taskId (envelope_of i from msg) = i" "en_fromAgent (envelope_of i from msg) = from"
  "en_message (envelope_of i from msg) = msg"
  by (simp_all add: envelope_of_def)

definition report :: completion_report where
  "report = \<lparr>cr_outcome = CDone, cr_summaryRef = [], cr_deliverables = [], cr_tests = \<lparr>tp_total = 1, tp_passed = 1, tp_failed = 0\<rparr>,
     cr_blockers = [], cr_notes = []\<rparr>"

definition ending :: frontmatter where
  "ending = (sample_fm sample_id InProgress)\<lparr>fm_metadata := [''reviewRequired'' \<mapsto> JBool False]\<rparr>"

definition report_world :: world where
  "report_world = tasks_world [ending, waiting ''down'' [sample_id]]"

lemma report_world_simps [simp]:
  "tidy report_world" "abs_store report_world sample_id = Some (ending, ''body'')" "w_now report_world = 100"
  "abs_store report_world ''down'' = Some (waiting ''down'' [sample_id], ''body'')"
  "agent_in_charge ending = Some ''dev''" "fm_status ending = InProgress" "fm_id ending = sample_id"
  by (auto simp: report_world_def ending_def waiting_def sample_id_def agent_in_charge_def sample_fm_def sample_routing_def)

theorem unauthorized_message_witness:
  "\<exists>es. route session_config (envelope_of sample_id ''rogue'' (CompletionReport report)) report_world
    = (Inr (), report_world\<lparr>w_events := es\<rparr>)"
  by (rule unauthorized_message [of _ _ ending "''body''"]) simp_all

theorem completion_report_effect_witness:
  "\<exists>w'. route session_config (envelope_of sample_id ''dev'' (CompletionReport report)) report_world = (Inr (), w') \<and>
    map_option (fm_status \<circ> fst) (abs_store w' sample_id) = Some Done \<and>
    map_option (fm_status \<circ> fst) (abs_store w' ''down'') = Some Ready"
proof -
  let ?e = "envelope_of sample_id ''dev'' (CompletionReport report)"
  have r: "reported_status ending (cr_outcome report) = Done" "valid_task_id sample_id"
    "tp_passed (cr_tests report) + tp_failed (cr_tests report) \<le> tp_total (cr_tests report)" "pc_known session_config = None"
    by code_simp+
  have u: "''down'' \<in> unblocked_by report_world sample_id" "''down'' \<noteq> sample_id"
    by (auto simp: unblocked_by_def waiting_def sample_id_def)
  have e: "sample_id = en_taskId ?e" "en_message ?e = CompletionReport report" "agent_in_charge ending = Some (en_fromAgent ?e)"
    "en_fromAgent ?e \<noteq> []" by simp_all
  obtain w' fm' b' where w': "route session_config ?e report_world = (Inr (), w')" "abs_store w' sample_id = Some (fm', b')"
    "fm_status fm' = Done"
    and rest: "\<forall>j. j = sample_id \<or> abs_store w' j =
      (if fm_status fm' = Done \<and> j \<in> unblocked_by report_world sample_id
       then map_option (\<lambda>fb. (transition_fm (fst fb) Ready None (w_now report_world), js_trim (snd fb))) (abs_store report_world j)
       else abs_store report_world j)"
    using completion_report_effect [OF report_world_simps(1,2,6) e(1) r(2) e(2) r(3) e(3,4) r(4)] r(1) by auto
  have "abs_store w' ''down'' = Some (transition_fm (waiting ''down'' [sample_id]) Ready None 100, js_trim ''body'')"
    using rest [rule_format, of "''down''"] u w'(3) by simp
  then show ?thesis using w' by simp
qed

definition handoff :: handoff_request where
  "handoff = \<lparr>hq_taskId = sample_id, hq_parentTaskId = ''down'', hq_fromAgent = ''dev'', hq_toAgent = ''qa'',
     hq_acceptanceCriteria = [], hq_expectedOutputs = [], hq_contextRefs = [], hq_constraints = [], hq_dueBy = []\<rparr>"

lemma handoff_simps [simp]: "hq_taskId handoff = sample_id" "hq_parentTaskId handoff = ''down''" "hq_toAgent handoff = ''qa''"
  by (simp_all add: handoff_def)

lemma no_depth: "meta_num0 (fm_metadata (waiting ''down'' [sample_id])) ''delegationDepth'' = 0"
  by (simp add: waiting_def sample_fm_def meta_num0_def meta_num_def)

theorem handoff_depth_witness:
  "\<exists>w' fm'. route session_config (envelope_of sample_id ''dev'' (HandoffRequest handoff)) report_world = (Inr (), w') \<and>
    abs_store w' sample_id = Some (fm', js_trim ''body'') \<and> rt_agent (fm_routing fm') = Some ''qa'' \<and>
    meta_num0 (fm_metadata fm') ''delegationDepth'' = 1"
proof -
  let ?e = "envelope_of sample_id ''dev'' (HandoffRequest handoff)"
  have e: "sample_id = en_taskId ?e" "en_message ?e = HandoffRequest handoff" "hq_taskId handoff = sample_id"
    "agent_in_charge ending = Some (en_fromAgent ?e)" "en_fromAgent ?e \<noteq> []" "pc_known session_config = None"
    "abs_store report_world (hq_parentTaskId handoff) = Some (waiting ''down'' [sample_id], ''body'')"
    by (simp_all add: session_config_def)
  show ?thesis
    using handoff_depth [OF report_world_simps(1,2) e no_depth [symmetric]] by (auto dest: updatesD(4))
qed

definition leased_ending :: frontmatter where
  "leased_ending = ending\<lparr>fm_lease := Some (fresh_lease ''dev'' 1000 50)\<rparr>"

definition leased_report_world :: world where
  "leased_report_world = tasks_world [leased_ending, waiting ''down'' [sample_id]]"

theorem handoff_answer_refused_witness:
  "\<exists>w' es. route session_config (envelope_of sample_id ''dev'' (HandoffRequest handoff)) leased_report_world = (Inr (), w') \<and>
    map_option (rt_agent \<circ> fm_routing \<circ> fst) (abs_store w' sample_id) = Some (Some ''qa'') \<and>
    route session_config (envelope_of sample_id ''qa'' (HandoffAccepted \<lparr>ha_taskId = sample_id, ha_accepted = True, ha_reason = None\<rparr>)) w'
      = (Inr (), w'\<lparr>w_events := es\<rparr>)"
proof -
  let ?e = "envelope_of sample_id ''dev'' (HandoffRequest handoff)"
  let ?a = "envelope_of sample_id ''qa'' (HandoffAccepted \<lparr>ha_taskId = sample_id, ha_accepted = True, ha_reason = None\<rparr>)"
  have w: "tidy leased_report_world" "abs_store leased_report_world sample_id = Some (leased_ending, ''body'')"
    by (auto simp: leased_report_world_def leased_ending_def ending_def waiting_def sample_id_def)
  have e: "sample_id = en_taskId ?e" "en_message ?e = HandoffRequest handoff" "hq_taskId handoff = sample_id"
    "fm_lease leased_ending = Some (fresh_lease ''dev'' 1000 50)" "tl_agent (fresh_lease ''dev'' 1000 50) = en_fromAgent ?e"
    "en_fromAgent ?e \<noteq> []" "pc_known session_config = None"
    "abs_store leased_report_world (hq_parentTaskId handoff) = Some (waiting ''down'' [sample_id], ''body'')"
    by (auto simp: session_config_def leased_report_world_def leased_ending_def ending_def waiting_def sample_id_def fresh_lease_def)
  have a: "hq_toAgent handoff \<noteq> en_fromAgent ?e" "en_fromAgent ?a = hq_toAgent handoff" "en_taskId ?a = sample_id"
    "en_message ?a = HandoffAccepted \<lparr>ha_taskId = sample_id, ha_accepted = True, ha_reason = None\<rparr> \<or>
      en_message ?a = HandoffRejected \<lparr>ha_taskId = sample_id, ha_accepted = True, ha_reason = None\<rparr>"
    by simp_all
  show ?thesis using handoff_answer_refused [OF w e no_depth a] by simp
qed

end
