(* ===== verification/Escalation.thy ===== *)
theory Escalation
  imports DagTransition DepCascader
begin

section \<open>Timeouts of workflow hops (dispatch/escalation.ts)\<close>

text \<open>
  The scan of the tasks in progress for dispatched hops that run longer than their timeout. An overdue
  hop is reported; if it names a role to escalate to and was not escalated before, its session is ended
  and it is dispatched to that role, or made ready again when the spawn fails. The task object of a
  listing is changed in place, so the hops of one task are checked on the task the previous ones left.
  Shown: exactly the overdue hops that were not escalated yet change, and each is escalated once.
\<close>

subsection \<open>Overdue hops\<close>

text \<open>The time a hop has run, if it is dispatched and past its timeout.\<close>

definition overdue_by :: "int \<Rightarrow> hop \<Rightarrow> hop_state \<Rightarrow> int option" where
  "overdue_by n hop hs =
     (if hs_status hs \<noteq> HDispatched \<or> \<not> truthy_str (h_timeout hop) then None
      else (case (hs_startedAt hs, parseDuration (the (h_timeout hop))) of
              (Some startedAt, Some timeoutMs) \<Rightarrow> if n - startedAt > timeoutMs then Some (n - startedAt) else None
            | _ \<Rightarrow> None))"

subsection \<open>escalateHopTimeout\<close>

definition hop_alert :: "task \<Rightarrow> string option \<Rightarrow> string \<Rightarrow> scheduler_action" where
  "hop_alert t agent reason = (action_for Alert t reason)\<lparr>ac_agent := agent\<rparr>"

definition timeout_payload :: "hop \<Rightarrow> int \<Rightarrow> (string \<times> json) list" where
  "timeout_payload hop elapsed =
     [(''hopId'', JStr (h_id hop)), (''elapsed'', JNum (of_int elapsed))] @ opt_str ''timeout'' (h_timeout hop)"

definition log_hop_timeout :: "task \<Rightarrow> (string \<times> json) list \<Rightarrow> unit m" where
  "log_hop_timeout t payload = best_effort (log_event ''dag.hop_timeout'' ''scheduler'' (Some (fm_id (t_fm t))) payload)"

text \<open>The hop after a successful spawn, and after a failed one or without an executor.\<close>

definition escalated_dispatch :: "string \<Rightarrow> int \<Rightarrow> string option \<Rightarrow> hop_state \<Rightarrow> hop_state" where
  "escalated_dispatch role ts sessionId hs =
     hs\<lparr>hs_status := HDispatched, hs_agent := Some role, hs_startedAt := Some ts, hs_correlationId := sessionId,
        hs_escalated := Some True\<rparr>"

definition escalated_retry :: "string \<Rightarrow> hop_state \<Rightarrow> hop_state" where
  "escalated_retry role hs =
     hs\<lparr>hs_status := HReady, hs_agent := Some role, hs_startedAt := None, hs_correlationId := None,
        hs_escalated := Some True\<rparr>"

definition respawn_hop :: "exec_config \<Rightarrow> string \<Rightarrow> task \<Rightarrow> hop \<Rightarrow> hop_state \<Rightarrow> string \<Rightarrow> hop_state m" where
  "respawn_hop cfg correlationId t hop hs role = (case ec_executor cfg of
     None \<Rightarrow> ret (escalated_retry role hs)
   | Some ex \<Rightarrow>
       andThen (when_m (truthy_str (hs_correlationId hs)) (best_effort (ex_forceComplete ex (the (hs_correlationId hs)))))
         (case (buildHopContext t (h_id hop), t_path t) of
            (Inl e, _) \<Rightarrow> throw e
          | (Inr _, None) \<Rightarrow> throw (OtherError ''TypeError'')
          | (Inr hopContext, Some p) \<Rightarrow>
              bind (ex_spawn ex (hop_task_context t p (hop\<lparr>h_role := role\<rparr>) (hopContext\<lparr>hc_role := role\<rparr>))
                      (or_else (task_timeout (fm_metadata (t_fm t))) (or_else (ec_spawnTimeoutMs cfg) 300000)) correlationId)
                (\<lambda>r. bind now (\<lambda>ts.
                   ret (if sr_success r then escalated_dispatch role ts (sr_sessionId r) hs else escalated_retry role hs)))))"

definition escalate_hop ::
  "exec_config \<Rightarrow> string \<Rightarrow> task \<Rightarrow> task_workflow \<Rightarrow> hop \<Rightarrow> hop_state \<Rightarrow> int \<Rightarrow> string \<Rightarrow> (scheduler_action \<times> task) m" where
  "escalate_hop cfg correlationId t workflow hop hs elapsed role =
     bind (respawn_hop cfg correlationId t hop hs role) (\<lambda>hs'.
       bind (persistWorkflowState t workflow
               (let st = tw_state workflow in st\<lparr>ws_hops := AList.update (h_id hop) hs' (ws_hops st)\<rparr>)) (\<lambda>t'.
         andThen (best_effort (log_event ''dag.hop_timeout_escalation'' ''scheduler'' (Some (fm_id (t_fm t)))
                    [(''hopId'', JStr (h_id hop)), (''fromRole'', JStr (h_role hop)), (''toRole'', JStr role),
                     (''elapsed'', JNum (of_int elapsed)), (''timeout'', JStr (or_else (h_timeout hop) []))]))
           (ret (hop_alert t (Some role)
                   (''Hop '' @ h_id hop @ '' timeout, escalated from '' @ h_role hop @ '' to '' @ role), t'))))"

definition escalateHopTimeout ::
  "exec_config \<Rightarrow> string \<Rightarrow> task \<Rightarrow> task_workflow \<Rightarrow> hop \<Rightarrow> hop_state \<Rightarrow> int \<Rightarrow> (scheduler_action \<times> task) m" where
  "escalateHopTimeout cfg correlationId t workflow hop hs elapsed =
     (let ran = ''Hop '' @ h_id hop @ '' timeout ('' @ string_of_int (elapsed div 1000) @ ''s)'' in
      if hs_escalated hs = Some True then
        andThen (log_hop_timeout t (timeout_payload hop elapsed @
                   [(''escalated'', JBool True), (''reason'', JStr ''already escalated (one-shot rule)'')]))
          (ret (hop_alert t None (ran @ '', already escalated (one-shot), no re-escalation''), t))
      else if \<not> truthy_str (h_escalateTo hop) then
        andThen (log_hop_timeout t (timeout_payload hop elapsed @ [(''reason'', JStr ''no escalation configured'')]))
          (ret (hop_alert t None (ran @ '', no escalation configured''), t))
      else if ec_dryRun cfg then
        ret (hop_alert t (h_escalateTo hop)
               (''Hop '' @ h_id hop @ '' timeout (dry-run), would escalate from '' @ h_role hop @ '' to '' @ the (h_escalateTo hop)), t)
      else escalate_hop cfg correlationId t workflow hop hs elapsed (the (h_escalateTo hop)))"

subsection \<open>checkHopTimeouts\<close>

text \<open>\<open>uuid i k\<close> is the \<open>randomUUID()\<close> of the spawn for hop \<open>k\<close> of task \<open>i\<close>.\<close>

definition check_hop ::
  "exec_config \<Rightarrow> (string \<Rightarrow> string \<Rightarrow> string) \<Rightarrow> int \<Rightarrow> hop \<Rightarrow> scheduler_action list \<times> task \<Rightarrow> (scheduler_action list \<times> task) m" where
  "check_hop cfg uuid n hop acc = (case fm_workflow (t_fm (snd acc)) of
     None \<Rightarrow> ret acc
   | Some workflow \<Rightarrow> (case map_of (ws_hops (tw_state workflow)) (h_id hop) of
       None \<Rightarrow> ret acc
     | Some hs \<Rightarrow> (case overdue_by n hop hs of
         None \<Rightarrow> ret acc
       | Some elapsed \<Rightarrow>
           bind (escalateHopTimeout cfg (uuid (fm_id (t_fm (snd acc))) (h_id hop)) (snd acc) workflow hop hs elapsed)
             (\<lambda>(action, t'). ret (fst acc @ [action], t')))))"

definition check_task ::
  "exec_config \<Rightarrow> (string \<Rightarrow> string \<Rightarrow> string) \<Rightarrow> int \<Rightarrow> task \<Rightarrow> scheduler_action list \<Rightarrow> scheduler_action list m" where
  "check_task cfg uuid n t actions = (case fm_workflow (t_fm t) of
     None \<Rightarrow> ret actions
   | Some workflow \<Rightarrow>
       bind (fold_m (check_hop cfg uuid n) (wd_hops (tw_definition workflow)) (actions, t)) (\<lambda>acc. ret (fst acc)))"

definition checkHopTimeouts :: "exec_config \<Rightarrow> (string \<Rightarrow> string \<Rightarrow> string) \<Rightarrow> scheduler_action list m" where
  "checkHopTimeouts cfg uuid = bind now (\<lambda>n.
     bind (list_tasks (status_filter InProgress)) (\<lambda>tasks. fold_m (check_task cfg uuid n) tasks []))"

subsection \<open>One hop\<close>

definition escalates :: "exec_config \<Rightarrow> int \<Rightarrow> hop \<Rightarrow> hop_state \<Rightarrow> bool" where
  "escalates cfg n hop hs \<longleftrightarrow> \<not> ec_dryRun cfg \<and> overdue_by n hop hs \<noteq> None \<and> hs_escalated hs \<noteq> Some True \<and> truthy_str (h_escalateTo hop)"

definition escalated_hop :: "exec_config \<Rightarrow> spawn_result \<Rightarrow> int \<Rightarrow> hop \<Rightarrow> hop_state \<Rightarrow> hop_state" where
  "escalated_hop cfg r n hop hs =
     (if ec_executor cfg \<noteq> None \<and> sr_success r then escalated_dispatch (the (h_escalateTo hop)) n (sr_sessionId r) hs
      else escalated_retry (the (h_escalateTo hop)) hs)"

definition hop_report :: "exec_config \<Rightarrow> task \<Rightarrow> hop \<Rightarrow> hop_state \<Rightarrow> int \<Rightarrow> scheduler_action" where
  "hop_report cfg t hop hs elapsed =
     (let ran = ''Hop '' @ h_id hop @ '' timeout ('' @ string_of_int (elapsed div 1000) @ ''s)''; role = the (h_escalateTo hop) in
      if hs_escalated hs = Some True then hop_alert t None (ran @ '', already escalated (one-shot), no re-escalation'')
      else if \<not> truthy_str (h_escalateTo hop) then hop_alert t None (ran @ '', no escalation configured'')
      else if ec_dryRun cfg then
        hop_alert t (Some role) (''Hop '' @ h_id hop @ '' timeout (dry-run), would escalate from '' @ h_role hop @ '' to '' @ role)
      else hop_alert t (Some role) (''Hop '' @ h_id hop @ '' timeout, escalated from '' @ h_role hop @ '' to '' @ role))"

text \<open>The executor, if there is one, answers \<open>r\<close> to every spawn and leaves the store alone.\<close>

definition quiet_executor :: "exec_config \<Rightarrow> spawn_result \<Rightarrow> bool" where
  "quiet_executor cfg r \<longleftrightarrow>
     (case ec_executor cfg of None \<Rightarrow> True | Some ex \<Rightarrow> spawn_answers ex r \<and> (\<forall>s w. snd (ex_forceComplete ex s w) = w))"

lemma truthy_some: "truthy_str x \<Longrightarrow> x = Some (the x)"
  by (cases x) (simp_all add: truthy_str_def)

lemma best_effort_quiet: "(\<And>w. snd (f w) = w) \<Longrightarrow> yields (best_effort f) w Q = Q () w"
  by (auto simp: yields_def best_effort_def catch_def run_simps split: prod.split sum.split)
    (metis prod.sel(2))+

lemma yields_log_best: "(\<And>e. Q () (w\<lparr>w_events := e\<rparr>)) \<Longrightarrow> yields (best_effort (log_event ty a k p)) w Q"
  unfolding best_effort_def by (rule yields_catch, rule yields_log)

lemma respawn_run:
  assumes "quiet_executor cfg r" "truthy_str (h_escalateTo hop)" "t_path t = Some p" "fm_workflow (t_fm t) = Some flow"
    and "hop \<in> set (wd_hops (tw_definition flow))"
  shows "yields (respawn_hop cfg c t hop hs (the (h_escalateTo hop))) w Q = Q (escalated_hop cfg r (w_now w) hop hs) w"
proof (cases "ec_executor cfg")
  case None
  then show ?thesis by (simp add: respawn_hop_def escalated_hop_def yields_pure)
next
  case (Some ex)
  have "find_hop (tw_definition flow) (h_id hop) \<noteq> None" using assms(5) by (auto simp: find_hop_def find_None_iff)
  then obtain hc where "buildHopContext t (h_id hop) = Inr hc"
    using assms(3,4) by (auto simp: buildHopContext_def case_prod_unfold Let_def)
  moreover have "spawn_answers ex r" and quiet: "\<And>s w. snd (ex_forceComplete ex s w) = w"
    using assms(1) Some by (simp_all add: quiet_executor_def)
  ultimately show ?thesis
    using Some assms(3)
    by (simp add: respawn_hop_def escalated_hop_def yields_simps best_effort_quiet [OF quiet] yields_run [of _ _ r] spawn_answers_def)
qed

definition escalate_in :: "exec_config \<Rightarrow> spawn_result \<Rightarrow> int \<Rightarrow> hop \<Rightarrow> workflow_state \<Rightarrow> workflow_state" where
  "escalate_in cfg r n hop st = (case map_of (ws_hops st) (h_id hop) of
     None \<Rightarrow> st
   | Some hs \<Rightarrow> if escalates cfg n hop hs then st\<lparr>ws_hops := AList.update (h_id hop) (escalated_hop cfg r n hop hs) (ws_hops st)\<rparr> else st)"

definition due_in :: "exec_config \<Rightarrow> int \<Rightarrow> workflow_state \<Rightarrow> hop \<Rightarrow> bool" where
  "due_in cfg n st hop \<longleftrightarrow> (\<exists>hs. map_of (ws_hops st) (h_id hop) = Some hs \<and> escalates cfg n hop hs)"

definition reports_in :: "exec_config \<Rightarrow> int \<Rightarrow> task \<Rightarrow> workflow_state \<Rightarrow> hop \<Rightarrow> scheduler_action list" where
  "reports_in cfg n t st hop = (case map_of (ws_hops st) (h_id hop) of
     None \<Rightarrow> []
   | Some hs \<Rightarrow> (case overdue_by n hop hs of None \<Rightarrow> [] | Some elapsed \<Rightarrow> [hop_report cfg t hop hs elapsed]))"

lemma escalate_run:
  assumes "tidy w" "abs_store w i = Some fb" "t_fm t = fst fb" "js_trim (t_body t) = js_trim (snd fb)"
    "t_path t = Some (taskPath i (fm_status (fst fb)))" "fm_workflow (fst fb) = Some flow"
    and "hop \<in> set (wd_hops (tw_definition flow))" "quiet_executor cfg r" "n = w_now w"
    and hs: "map_of (ws_hops (tw_state flow)) (h_id hop) = Some hs" "overdue_by n hop hs = Some elapsed"
  shows "yields (escalateHopTimeout cfg c t flow hop hs elapsed) w (\<lambda>(a, t') w'. a = hop_report cfg t hop hs elapsed \<and>
    (if due_in cfg n (tw_state flow) hop
     then t' = with_state flow (escalate_in cfg r n hop (tw_state flow)) n t \<and>
       updates w i (advanced flow (escalate_in cfg r n hop (tw_state flow)) n (fst fb), js_trim (snd fb)) w'
     else t' = t \<and> tidy w' \<and> w_now w' = n \<and> abs_store w' = abs_store w))"
proof (cases "escalates cfg n hop hs")
  case True
  then have esc: "hs_escalated hs \<noteq> Some True" "truthy_str (h_escalateTo hop)" "\<not> ec_dryRun cfg"
    and due: "due_in cfg n (tw_state flow) hop"
    and st: "escalate_in cfg r n hop (tw_state flow) =
      (tw_state flow)\<lparr>ws_hops := AList.update (h_id hop) (escalated_hop cfg r n hop hs) (ws_hops (tw_state flow))\<rparr>"
    using hs by (simp_all add: escalates_def due_in_def escalate_in_def)
  have flow: "fm_workflow (t_fm t) = Some flow" using assms(3,6) by simp
  have report: "hop_report cfg t hop hs elapsed = hop_alert t (Some (the (h_escalateTo hop)))
      (''Hop '' @ h_id hop @ '' timeout, escalated from '' @ h_role hop @ '' to '' @ the (h_escalateTo hop))"
    unfolding hop_report_def Let_def if_not_P [OF esc(1)] if_not_P [OF esc(3)] if_not_P [of "\<not> _", unfolded not_not, OF esc(2)] ..
  show ?thesis
    unfolding escalateHopTimeout_def Let_def if_not_P [OF esc(1)] if_not_P [OF esc(3)] not_not if_P [OF due]
    unfolding if_not_P [of "\<not> _", unfolded not_not, OF esc(2)] escalate_hop_def Let_def yields_bind [of "respawn_hop _ _ _ _ _ _"]
      respawn_run [OF assms(8) esc(2) assms(5) flow assms(7)] assms(9) [symmetric] st [symmetric] yields_bind [of "persistWorkflowState _ _ _"]
    by (rule yields_persist [OF assms(1-5)]) (auto simp: yields_andThen yields_pure report assms(9) intro!: yields_log_best)
next
  case False
  have quiet: "tidy (w\<lparr>w_events := e\<rparr>)" "w_now (w\<lparr>w_events := e\<rparr>) = n" "abs_store (w\<lparr>w_events := e\<rparr>) = abs_store w" for e
    using assms(1,9) by simp_all
  have "\<not> due_in cfg n (tw_state flow) hop" using False hs(1) by (simp add: due_in_def)
  moreover have "hs_escalated hs = Some True \<or> \<not> truthy_str (h_escalateTo hop) \<or> ec_dryRun cfg"
    using False hs(2) by (auto simp: escalates_def)
  ultimately show ?thesis
    using assms(1,9) truthy_some [of "h_escalateTo hop"]
    by (auto simp: escalateHopTimeout_def hop_report_def Let_def log_hop_timeout_def yields_andThen yields_pure quiet intro!: yields_log_best)
qed

subsection \<open>The hops of a task\<close>

text \<open>The store and the task object while the hops of task \<open>i\<close> are checked: nothing saved yet, or the state \<open>st\<close>.\<close>

definition checked ::
  "world \<Rightarrow> string \<Rightarrow> frontmatter \<times> string \<Rightarrow> task_workflow \<Rightarrow> int \<Rightarrow> bool \<Rightarrow> workflow_state \<Rightarrow> task \<Rightarrow> world \<Rightarrow> bool" where
  "checked w0 i fb flow n saved st t w \<longleftrightarrow> w_now w0 = n \<and>
     (if saved then updates w0 i (advanced flow st n (fst fb), js_trim (snd fb)) w \<and> t = with_state flow st n (loaded i fb)
      else tidy w \<and> w_now w = n \<and> abs_store w = abs_store w0 \<and> t = loaded i fb \<and> st = tw_state flow)"

lemma advanced_twice [simp]:
  "advanced (flow\<lparr>tw_state := st\<rparr>) st' n (advanced flow st n fm) = advanced flow st' n fm"
  "with_state (flow\<lparr>tw_state := st\<rparr>) st' n (with_state flow st n t) = with_state flow st' n t"
  by (simp_all add: advanced_def with_state_def)

lemma hop_report_frame [simp]:
  "hop_report cfg (with_state flow st n t) hop hs e = hop_report cfg t hop hs e"
proof -
  have "hop_alert (with_state flow st n t) = hop_alert t"
    by (intro ext) (simp add: hop_alert_def action_for_def with_state_def)
  then show ?thesis by (simp only: hop_report_def)
qed

lemma reports_in_frame [simp]: "reports_in cfg n (with_state flow st m t) st' hop = reports_in cfg n t st' hop"
  by (simp add: reports_in_def split: option.split)

lemma check_hop_run:
  assumes "tidy w" "abs_store w i = Some fb" "t_fm t = fst fb" "js_trim (t_body t) = js_trim (snd fb)"
    "t_path t = Some (taskPath i (fm_status (fst fb)))" "fm_workflow (fst fb) = Some flow"
    and "hop \<in> set (wd_hops (tw_definition flow))" "quiet_executor cfg r" "n = w_now w"
  shows "yields (check_hop cfg uuid n hop (acts, t)) w (\<lambda>acc w'. fst acc = acts @ reports_in cfg n t (tw_state flow) hop \<and>
    (if due_in cfg n (tw_state flow) hop
     then snd acc = with_state flow (escalate_in cfg r n hop (tw_state flow)) n t \<and>
       updates w i (advanced flow (escalate_in cfg r n hop (tw_state flow)) n (fst fb), js_trim (snd fb)) w'
     else snd acc = t \<and> tidy w' \<and> w_now w' = n \<and> abs_store w' = abs_store w))"
proof -
  have flow: "fm_workflow (t_fm t) = Some flow" using assms(3,6) by simp
  consider "map_of (ws_hops (tw_state flow)) (h_id hop) = None"
    | hs where "map_of (ws_hops (tw_state flow)) (h_id hop) = Some hs" "overdue_by n hop hs = None"
    | hs elapsed where "map_of (ws_hops (tw_state flow)) (h_id hop) = Some hs" "overdue_by n hop hs = Some elapsed"
    by fastforce
  then show ?thesis
  proof cases
    case 1
    then show ?thesis using assms(1,9) by (simp add: check_hop_def flow yields_pure reports_in_def due_in_def)
  next
    case 2
    then show ?thesis using assms(1,9) by (simp add: check_hop_def flow yields_pure reports_in_def due_in_def escalates_def)
  next
    case 3
    show ?thesis
      unfolding check_hop_def snd_conv fst_conv flow option.case 3 yields_bind
      by (rule yields_mono [OF escalate_run [OF assms 3]]) (auto simp: yields_pure reports_in_def 3 split: if_splits)
  qed
qed

lemma escalate_idle [simp]: "\<not> due_in cfg n st hop \<Longrightarrow> escalate_in cfg r n hop st = st"
  by (simp add: due_in_def escalate_in_def split: option.split)

lemma checkedD:
  assumes "checked w0 i fb flow n saved st t w" "abs_store w0 i = Some fb" "fm_workflow (fst fb) = Some flow"
  shows "tidy w" "n = w_now w" "\<exists>fc. abs_store w i = Some fc \<and> t_fm t = fst fc \<and> js_trim (t_body t) = js_trim (snd fc) \<and>
    t_path t = Some (taskPath i (fm_status (fst fc))) \<and> fm_workflow (fst fc) = Some (flow\<lparr>tw_state := st\<rparr>) \<and>
    (\<forall>st'. advanced (flow\<lparr>tw_state := st\<rparr>) st' n (fst fc) = advanced flow st' n (fst fb)) \<and> js_trim (snd fc) = js_trim (snd fb)"
  using assms by (cases saved; auto simp: checked_def updates_def with_state_fm loaded_def)+

lemma check_hop_step:
  assumes "checked w0 i fb flow n saved st t w" "abs_store w0 i = Some fb" "fm_workflow (fst fb) = Some flow"
    and "hop \<in> set (wd_hops (tw_definition flow))" "quiet_executor cfg r"
  shows "yields (check_hop cfg uuid n hop (acts, t)) w (\<lambda>acc w'. fst acc = acts @ reports_in cfg n (loaded i fb) st hop \<and>
    checked w0 i fb flow n (saved \<or> due_in cfg n st hop) (escalate_in cfg r n hop st) (snd acc) w')"
proof -
  have report: "reports_in cfg n t st hop = reports_in cfg n (loaded i fb) st hop"
    using assms(1) by (auto simp: checked_def split: if_splits)
  obtain fc where fc: "abs_store w i = Some fc" "t_fm t = fst fc" "js_trim (t_body t) = js_trim (snd fc)"
    "t_path t = Some (taskPath i (fm_status (fst fc)))" "fm_workflow (fst fc) = Some (flow\<lparr>tw_state := st\<rparr>)"
    "\<And>st'. advanced (flow\<lparr>tw_state := st\<rparr>) st' n (fst fc) = advanced flow st' n (fst fb)" "js_trim (snd fc) = js_trim (snd fb)"
    using checkedD(3) [OF assms(1-3)] by blast
  have with_state: "with_state (flow\<lparr>tw_state := st\<rparr>) st' n t = with_state flow st' n (loaded i fb)" for st'
    using assms(1) by (cases saved) (auto simp: checked_def with_state_def)
  have "hop \<in> set (wd_hops (tw_definition (flow\<lparr>tw_state := st\<rparr>)))" using assms(4) by simp
  from check_hop_run [OF checkedD(1) [OF assms(1-3)] fc(1-5) this assms(5) checkedD(2) [OF assms(1-3)], of uuid acts]
  show ?thesis
    by (rule yields_mono) (use assms(1) in \<open>auto simp: report fc(6,7) with_state checked_def updates_def split: if_splits\<close>)
qed

lemma check_hops_run:
  assumes "checked w0 i fb flow n saved st t w" "abs_store w0 i = Some fb" "fm_workflow (fst fb) = Some flow"
    and "set hops \<subseteq> set (wd_hops (tw_definition flow))" "quiet_executor cfg r" "distinct (map h_id hops)"
  shows "yields (fold_m (check_hop cfg uuid n) hops (acts, t)) w (\<lambda>acc w'.
    fst acc = acts @ concat (map (reports_in cfg n (loaded i fb) st) hops) \<and>
    checked w0 i fb flow n (saved \<or> (\<exists>hop \<in> set hops. due_in cfg n st hop)) (fold (escalate_in cfg r n) hops st) (snd acc) w')"
  using assms
proof (induction hops arbitrary: acts t w saved st)
  case Nil
  then show ?case by (simp add: yields_pure)
next
  case (Cons hop hops)
  have other: "map_of (ws_hops (escalate_in cfg r n hop st)) (h_id h) = map_of (ws_hops st) (h_id h)" if "h \<in> set hops" for h
  proof -
    have "h_id h \<noteq> h_id hop" using distinct_map_head [OF Cons.prems(6) that] .
    then show ?thesis by (simp add: escalate_in_def split: option.split)
  qed
  have same: "due_in cfg n (escalate_in cfg r n hop st) h = due_in cfg n st h"
    "reports_in cfg n u (escalate_in cfg r n hop st) h = reports_in cfg n u st h" if "h \<in> set hops" for h u
    using other [OF that] by (simp_all add: due_in_def reports_in_def)
  have reports: "map (reports_in cfg n u (escalate_in cfg r n hop st)) hops = map (reports_in cfg n u st) hops" for u
    using same(2) by simp
  have "hop \<in> set (wd_hops (tw_definition flow))" using Cons.prems(4) by simp
  note one = check_hop_step [OF Cons.prems(1-3) this Cons.prems(5), of uuid acts]
  show ?case
    unfolding fold_m.simps
  proof (rule yields_seq_bind [OF one], elim conjE)
    fix acc w1
    assume acc: "fst acc = acts @ reports_in cfg n (loaded i fb) st hop"
      and w1: "checked w0 i fb flow n (saved \<or> due_in cfg n st hop) (escalate_in cfg r n hop st) (snd acc) w1"
    show "yields (fold_m (check_hop cfg uuid n) hops acc) w1 (\<lambda>acc w'.
      fst acc = acts @ concat (map (reports_in cfg n (loaded i fb) st) (hop # hops)) \<and>
      checked w0 i fb flow n (saved \<or> (\<exists>hop \<in> set (hop # hops). due_in cfg n st hop)) (fold (escalate_in cfg r n) (hop # hops) st) (snd acc) w')"
      using Cons.IH [OF w1 Cons.prems(2,3) _ Cons.prems(5), of "fst acc"] Cons.prems(4,6) acc same(1) reports
      by (cases acc) (auto elim!: yields_mono simp: disj_assoc)
  qed
qed

subsection \<open>The scan\<close>

definition hop_after :: "exec_config \<Rightarrow> spawn_result \<Rightarrow> int \<Rightarrow> hop list \<Rightarrow> workflow_state \<Rightarrow> string \<Rightarrow> hop_state option" where
  "hop_after cfg r n hops st k = (case find (\<lambda>h. h_id h = k) hops of
     None \<Rightarrow> map_of (ws_hops st) k
   | Some hop \<Rightarrow> map_option (\<lambda>hs. if escalates cfg n hop hs then escalated_hop cfg r n hop hs else hs) (map_of (ws_hops st) k))"

lemma escalate_in_at:
  "map_of (ws_hops (escalate_in cfg r n hop st)) k = hop_after cfg r n [hop] st k"
  by (auto simp: escalate_in_def hop_after_def split: option.split)

lemma hops_after:
  "distinct (map h_id hops) \<Longrightarrow> map_of (ws_hops (fold (escalate_in cfg r n) hops st)) k = hop_after cfg r n hops st k"
proof (induction hops arbitrary: st)
  case (Cons hop hops)
  show ?case
  proof (cases "h_id hop = k")
    case True
    then have "find (\<lambda>h. h_id h = k) hops = None" using distinct_map_head [OF Cons.prems] True by (auto simp: find_None_iff)
    then show ?thesis using Cons True escalate_in_at [of cfg r n hop st k] by (simp add: hop_after_def)
  next
    case False
    then have same: "map_of (ws_hops (escalate_in cfg r n hop st)) k = map_of (ws_hops st) k"
      by (simp add: escalate_in_at hop_after_def)
    have "hop_after cfg r n hops (escalate_in cfg r n hop st) k = hop_after cfg r n (hop # hops) st k"
      using False unfolding hop_after_def same by simp
    with Cons show ?thesis by simp
  qed
qed (simp add: hop_after_def)

definition task_due :: "exec_config \<Rightarrow> int \<Rightarrow> frontmatter \<Rightarrow> bool" where
  "task_due cfg n fm \<longleftrightarrow> fm_status fm = InProgress \<and>
     (\<exists>flow hop. fm_workflow fm = Some flow \<and> hop \<in> set (wd_hops (tw_definition flow)) \<and> due_in cfg n (tw_state flow) hop)"

definition task_escalated :: "exec_config \<Rightarrow> spawn_result \<Rightarrow> int \<Rightarrow> task \<Rightarrow> frontmatter \<times> string" where
  "task_escalated cfg r n t =
     (let flow = the (fm_workflow (t_fm t)) in
      (advanced flow (fold (escalate_in cfg r n) (wd_hops (tw_definition flow)) (tw_state flow)) n (t_fm t), js_trim (t_body t)))"

definition task_reports :: "exec_config \<Rightarrow> int \<Rightarrow> task \<Rightarrow> scheduler_action list" where
  "task_reports cfg n t = (case fm_workflow (t_fm t) of
     None \<Rightarrow> [] | Some flow \<Rightarrow> concat (map (reports_in cfg n t (tw_state flow)) (wd_hops (tw_definition flow))))"

lemma check_task_run:
  assumes "tidy w" "w_now w = n" "abs_store w (fm_id (t_fm t)) = Some (t_fm t, t_body t)"
    and path: "t_path t = Some (taskPath (fm_id (t_fm t)) (fm_status (t_fm t)))" and "fm_status (t_fm t) = InProgress"
    and "quiet_executor cfg r"
    and ids: "\<And>flow. fm_workflow (t_fm t) = Some flow \<Longrightarrow> distinct (map h_id (wd_hops (tw_definition flow)))"
  shows "yields (check_task cfg uuid n t acts) w (\<lambda>acts' w'. acts' = acts @ task_reports cfg n t \<and>
    (if task_due cfg n (t_fm t) then updates w (fm_id (t_fm t)) (task_escalated cfg r n t) w'
     else tidy w' \<and> w_now w' = n \<and> abs_store w' = abs_store w))"
proof (cases "fm_workflow (t_fm t)")
  case None
  then show ?thesis using assms(1,2) by (simp add: check_task_def yields_pure task_reports_def task_due_def)
next
  case (Some flow)
  let ?i = "fm_id (t_fm t)"
  have t: "loaded ?i (t_fm t, t_body t) = t" using path by (rule loaded_eta)
  have start: "checked w ?i (t_fm t, t_body t) flow n False (tw_state flow) t w"
    using assms(1,2) t by (simp add: checked_def)
  have run: "yields (fold_m (check_hop cfg uuid n) (wd_hops (tw_definition flow)) (acts, t)) w (\<lambda>acc w'.
    fst acc = acts @ concat (map (reports_in cfg n t (tw_state flow)) (wd_hops (tw_definition flow))) \<and>
    checked w ?i (t_fm t, t_body t) flow n (\<exists>hop \<in> set (wd_hops (tw_definition flow)). due_in cfg n (tw_state flow) hop)
      (fold (escalate_in cfg r n) (wd_hops (tw_definition flow)) (tw_state flow)) (snd acc) w')"
    using check_hops_run [OF start assms(3) _ subset_refl assms(6) ids [OF Some], of uuid acts] Some by (simp add: t)
  have due: "task_due cfg n (t_fm t) \<longleftrightarrow> (\<exists>hop \<in> set (wd_hops (tw_definition flow)). due_in cfg n (tw_state flow) hop)"
    using assms(5) Some by (auto simp: task_due_def)
  show ?thesis
    unfolding check_task_def Some option.case due
    by (rule yields_seq_bind [OF run]) (auto simp: yields_pure task_reports_def Some checked_def task_escalated_def Let_def split: if_splits)
qed

lemma listed_status_in:
  assumes "consistent w"
  shows "listed_in w (listed w (status_filter s) s)" "distinct (map (\<lambda>t. fm_id (t_fm t)) (listed w (status_filter s) s))"
    "t \<in> set (listed w (status_filter s) s) \<longleftrightarrow> (\<exists>i fb. abs_store w i = Some fb \<and> fm_status (fst fb) = s \<and> t = loaded i fb)"
proof -
  have in_list: "t \<in> set (listed w (status_filter s) s) \<longleftrightarrow> (\<exists>i fb. abs_store w i = Some fb \<and> fm_status (fst fb) = s \<and> t = loaded i fb)" for t
    by (simp only: in_listed [OF assms] status_filter_simps simp_thms)
  then show "t \<in> set (listed w (status_filter s) s) \<longleftrightarrow> (\<exists>i fb. abs_store w i = Some fb \<and> fm_status (fst fb) = s \<and> t = loaded i fb)" .
  show "distinct (map (\<lambda>t. fm_id (t_fm t)) (listed w (status_filter s) s))" by (rule listed_ids [OF assms])
  show "listed_in w (listed w (status_filter s) s)"
    unfolding listed_in_def
  proof
    fix t assume "t \<in> set (listed w (status_filter s) s)"
    then obtain i fb where t: "abs_store w i = Some fb" "t = loaded i fb" using in_list by blast
    then show "abs_store w (fm_id (t_fm t)) = Some (t_fm t, t_body t) \<and> t_path t = Some (taskPath (fm_id (t_fm t)) (fm_status (t_fm t)))"
      using stored_id [OF assms t(1)] by simp
  qed
qed

lemma yields_list_status: "consistent w \<Longrightarrow> yields (list_tasks (status_filter s)) w Q = Q (listed w (status_filter s) s) w"
  by (simp add: yields_def list_status_run)

lemma fold_append: "fold (\<lambda>t acc. acc @ f t) ts acc = acc @ concat (map f ts)"
  by (induction ts arbitrary: acc) simp_all

lemma in_reports_in:
  "a \<in> set (reports_in cfg n t st hop) \<longleftrightarrow> (\<exists>hs elapsed. map_of (ws_hops st) (h_id hop) = Some hs \<and>
     overdue_by n hop hs = Some elapsed \<and> a = hop_report cfg t hop hs elapsed)"
proof (cases "map_of (ws_hops st) (h_id hop)")
  case (Some hs)
  then show ?thesis by (cases "overdue_by n hop hs") (simp_all add: reports_in_def)
qed (simp add: reports_in_def)

lemma in_task_reports:
  "a \<in> set (task_reports cfg n t) \<longleftrightarrow> (\<exists>flow hop hs elapsed. fm_workflow (t_fm t) = Some flow \<and>
     hop \<in> set (wd_hops (tw_definition flow)) \<and> map_of (ws_hops (tw_state flow)) (h_id hop) = Some hs \<and>
     overdue_by n hop hs = Some elapsed \<and> a = hop_report cfg t hop hs elapsed)"
  by (cases "fm_workflow (t_fm t)") (auto simp: task_reports_def in_reports_in)

lemma escalated_not_due: "\<not> escalates cfg n hop (escalated_hop cfg' r m hop' hs)"
  by (simp add: escalates_def escalated_hop_def escalated_dispatch_def escalated_retry_def)

lemma due_once:
  assumes "distinct (map h_id hops)" "hop \<in> set hops" "due_in cfg n st hop"
  shows "\<not> due_in cfg' m (fold (escalate_in cfg r n) hops st) hop"
proof -
  obtain hs where hs: "map_of (ws_hops st) (h_id hop) = Some hs" "escalates cfg n hop hs"
    using assms(3) by (auto simp: due_in_def)
  have "find (\<lambda>h. h_id h = h_id hop) hops = Some hop"
    using assms(1,2) by (induction hops) auto
  then show ?thesis
    using hs by (auto simp: due_in_def hops_after [OF assms(1)] hop_after_def escalated_not_due)
qed

text \<open>\<open>validateDAG\<close> rejects a workflow with two hops of one id.\<close>

definition unique_hops :: "world \<Rightarrow> bool" where
  "unique_hops w \<longleftrightarrow> (\<forall>i fb flow. abs_store w i = Some fb \<and> fm_workflow (fst fb) = Some flow \<longrightarrow>
     distinct (map h_id (wd_hops (tw_definition flow))))"

lemma timeouts_run:
  assumes "tidy w" "quiet_executor cfg r" and uniq: "unique_hops w"
  shows "yields (checkHopTimeouts cfg uuid) w (\<lambda>acts w'. tidy w' \<and>
    (\<forall>a. a \<in> set acts \<longleftrightarrow> (\<exists>i fb. abs_store w i = Some fb \<and> fm_status (fst fb) = InProgress \<and>
       a \<in> set (task_reports cfg (w_now w) (loaded i fb)))) \<and>
    (\<forall>i fb. abs_store w i = Some fb \<longrightarrow> abs_store w' i =
       (if task_due cfg (w_now w) (fst fb) then Some (task_escalated cfg r (w_now w) (loaded i fb)) else Some fb)) \<and>
    (\<forall>i. abs_store w i = None \<longrightarrow> abs_store w' i = None))"
proof -
  have cons: "consistent w" using assms(1) by (rule tidy_consistent)
  have ids: "abs_store w i = Some fb \<Longrightarrow> fm_workflow (fst fb) = Some flow \<Longrightarrow> distinct (map h_id (wd_hops (tw_definition flow)))"
    for i fb flow using uniq unfolding unique_hops_def by blast
  let ?n = "w_now w" and ?ts = "listed w (status_filter InProgress) InProgress"
  note list = listed_status_in [OF cons, where s = InProgress]
  have run: "yields (fold_m (check_task cfg uuid ?n) ?ts []) w (\<lambda>acts w'. acts = fold (\<lambda>t acc. acc @ task_reports cfg ?n t) ?ts [] \<and>
    tidy w' \<and> w_now w' = ?n \<and> True \<and>
    (\<forall>t \<in> set ?ts. task_due cfg ?n (t_fm t) \<longrightarrow> abs_store w' (fm_id (t_fm t)) = Some (task_escalated cfg r ?n t)) \<and>
    (\<forall>i. \<not> selected (\<lambda>t. task_due cfg ?n (t_fm t)) ?ts i \<longrightarrow> abs_store w' i = abs_store w i))"
  proof (rule fold_update)
    fix w1 t acc
    assume w1: "tidy w1" "w_now w1 = ?n" "t \<in> set ?ts" "abs_store w1 (fm_id (t_fm t)) = Some (t_fm t, t_body t)"
    obtain i fb where t: "abs_store w i = Some fb" "fm_status (fst fb) = InProgress" "t = loaded i fb"
      using w1(3) list(3) by blast
    have "t_path t = Some (taskPath (fm_id (t_fm t)) (fm_status (t_fm t)))" "fm_status (t_fm t) = InProgress"
      using t stored_id [OF cons t(1)] by simp_all
    from check_task_run [OF w1(1,2,4) this assms(2), of uuid acc] ids [OF t(1)] t(3)
    show "yields (check_task cfg uuid ?n t acc) w1 (\<lambda>acc' w'. acc' = acc @ task_reports cfg ?n t \<and> True \<and>
      (if task_due cfg ?n (t_fm t) then updates w1 (fm_id (t_fm t)) (task_escalated cfg r ?n t) w'
       else tidy w' \<and> w_now w' = ?n \<and> abs_store w' = abs_store w1))" by simp
  qed (use assms(1) list in simp_all)
  have sel: "selected (\<lambda>t. task_due cfg ?n (t_fm t)) ?ts i \<longleftrightarrow> (\<exists>fb. abs_store w i = Some fb \<and> task_due cfg ?n (fst fb))" for i
  proof
    assume "selected (\<lambda>t. task_due cfg ?n (t_fm t)) ?ts i"
    then obtain t where t: "t \<in> set ?ts" "fm_id (t_fm t) = i" "task_due cfg ?n (t_fm t)" unfolding selected_def by blast
    then obtain j fb where "abs_store w j = Some fb" "t = loaded j fb" using list(3) by blast
    then show "\<exists>fb. abs_store w i = Some fb \<and> task_due cfg ?n (fst fb)" using t(2,3) stored_id [OF cons] by fastforce
  next
    assume "\<exists>fb. abs_store w i = Some fb \<and> task_due cfg ?n (fst fb)"
    then obtain fb where fb: "abs_store w i = Some fb" "task_due cfg ?n (fst fb)" by blast
    then have "loaded i fb \<in> set ?ts" using list(3) unfolding task_due_def by blast
    then show "selected (\<lambda>t. task_due cfg ?n (t_fm t)) ?ts i"
      unfolding selected_def using fb stored_id [OF cons fb(1)] by (intro bexI [of _ "loaded i fb"]) simp_all
  qed
  show ?thesis
    unfolding checkHopTimeouts_def yields_bind yields_pure yields_list_status [OF cons]
  proof (rule yields_mono [OF run], elim conjE)
    fix acts w'
    assume acts: "acts = fold (\<lambda>t acc. acc @ task_reports cfg ?n t) ?ts []" and w': "tidy w'"
      and due: "\<forall>t \<in> set ?ts. task_due cfg ?n (t_fm t) \<longrightarrow> abs_store w' (fm_id (t_fm t)) = Some (task_escalated cfg r ?n t)"
      and rest: "\<forall>i. \<not> selected (\<lambda>t. task_due cfg ?n (t_fm t)) ?ts i \<longrightarrow> abs_store w' i = abs_store w i"
    have at: "abs_store w' i = (if task_due cfg ?n (fst fb) then Some (task_escalated cfg r ?n (loaded i fb)) else Some fb)"
      if fb: "abs_store w i = Some fb" for i fb
    proof (cases "task_due cfg ?n (fst fb)")
      case True
      then have "loaded i fb \<in> set ?ts" using fb list(3) unfolding task_due_def by blast
      then show ?thesis using due True stored_id [OF cons fb] by fastforce
    next
      case False
      then have "\<not> selected (\<lambda>t. task_due cfg ?n (t_fm t)) ?ts i" using sel [of i] fb by simp
      then show ?thesis using rest fb False by simp
    qed
    have gone: "abs_store w' i = None" if "abs_store w i = None" for i
      using rest sel [of i] that by simp
    have "acts = concat (map (task_reports cfg ?n) ?ts)" unfolding acts fold_append by simp
    then have reports: "a \<in> set acts \<longleftrightarrow> (\<exists>i fb. abs_store w i = Some fb \<and> fm_status (fst fb) = InProgress \<and>
       a \<in> set (task_reports cfg ?n (loaded i fb)))" for a
      using list(3) unfolding set_concat set_map by fastforce
    show "tidy w' \<and> (\<forall>a. a \<in> set acts \<longleftrightarrow> (\<exists>i fb. abs_store w i = Some fb \<and> fm_status (fst fb) = InProgress \<and>
         a \<in> set (task_reports cfg ?n (loaded i fb)))) \<and>
      (\<forall>i fb. abs_store w i = Some fb \<longrightarrow> abs_store w' i =
         (if task_due cfg ?n (fst fb) then Some (task_escalated cfg r ?n (loaded i fb)) else Some fb)) \<and>
      (\<forall>i. abs_store w i = None \<longrightarrow> abs_store w' i = None)"
      using w' reports at gone by blast
  qed
qed


text \<open>A hop that has run for 60.1 seconds with a timeout of one minute, and no executor.\<close>

definition late_hop :: hop where
  "late_hop = (plain_hop ''a'' [])\<lparr>h_timeout := Some ''1m'', h_escalateTo := Some ''lead''\<rparr>"

definition late_flow :: task_workflow where
  "late_flow = \<lparr>tw_definition = \<lparr>wd_name = ''w'', wd_hops = [late_hop, plain_hop ''b'' [''a'']]\<rparr>,
     tw_state = \<lparr>ws_status = WRunning, ws_hops = [(''a'', (hop_state_of HDispatched)\<lparr>hs_startedAt := Some (- 60000)\<rparr>),
       (''b'', hop_state_of HPending)], ws_startedAt = None, ws_completedAt = None\<rparr>, tw_templateName = None\<rparr>"

definition late_fm :: frontmatter where
  "late_fm = (sample_fm ''t'' InProgress)\<lparr>fm_workflow := Some late_flow\<rparr>"

definition no_executor :: exec_config where
  "no_executor = \<lparr>ec_dryRun = False, ec_defaultLeaseTtlMs = 1000, ec_executor = None, ec_spawnTimeoutMs = None,
     ec_maxDispatchRetries = None, ec_projectId = None\<rparr>"

lemma late_world [simp]:
  "tidy (tasks_world [late_fm])" "abs_store (tasks_world [late_fm]) i = (if i = ''t'' then Some (late_fm, ''body'') else None)"
  "fm_workflow late_fm = Some late_flow" "fm_status late_fm = InProgress" "fm_id late_fm = ''t''"
  by (simp_all add: late_fm_def)


end
