(* ===== verification/ActionHandlers.thy ===== *)
theory ActionHandlers
  imports Escalation ProtocolRouter
begin

section \<open>Executing the actions of a poll (dispatch/action-executor.ts, lifecycle-, recovery-, alert-handlers.ts)\<close>

text \<open>
  One handler per type of action, and the loop that runs them: an action that throws is logged and
  counted as failed, and the next one is run. Handlers read the task again, because the store may have
  changed since the action was planned. Calls of the console logger are left out; the handlers that run
  under the lock of their task are one operation.
\<close>

record action_env =
  av_config :: exec_config
  av_hooks :: hooks
  av_uuid :: "string \<Rightarrow> string"
  av_random :: "string \<Rightarrow> rat"
  av_slaChecker :: bool

record action_result =
  ar_executed :: bool
  ar_failed :: bool
  ar_leasesExpired :: nat
  ar_tasksRequeued :: nat
  ar_tasksPromoted :: nat

definition no_result :: action_result where
  "no_result = \<lparr>ar_executed = False, ar_failed = False, ar_leasesExpired = 0, ar_tasksRequeued = 0, ar_tasksPromoted = 0\<rparr>"

definition log_moved :: "string \<Rightarrow> task_status \<Rightarrow> task_status \<Rightarrow> string \<Rightarrow> unit m" where
  "log_moved i from to reason = best_effort (logTransition i from to ''scheduler'' (Some reason))"

definition move_logged :: "string \<Rightarrow> task_status \<Rightarrow> task_status \<Rightarrow> string \<Rightarrow> string \<Rightarrow> unit m" where
  "move_logged i from to reason message =
     bind (transition_task i to (reason_opts reason)) (\<lambda>_. log_moved i from to message)"

subsection \<open>lifecycle-handlers.ts\<close>

text \<open>A blocked task whose lease has expired, after a failed spawn and otherwise.\<close>

definition retry_failed_spawn :: "action_env \<Rightarrow> string \<Rightarrow> task \<Rightarrow> unit m" where
  "retry_failed_spawn env i t = bind now (\<lambda>ts.
     let meta = fm_metadata (t_fm t);
         guard = shouldAllowSpawnFailedRequeue (av_random env i) ts t
                   (or_else (ec_maxDispatchRetries (av_config env)) DEFAULT_MAX_DISPATCH_RETRIES)
     in if rg_shouldDeadletter guard then
          andThen (transitionToDeadletter i (or_else (meta_str meta ''lastError'') (or_else (meta_str meta ''blockReason'') ''unknown'')))
            (log_moved i Blocked Deadletter (''Lease expired on spawn-failed task '' @ em_dash @ '' '' @ rg_reason guard))
        else if rg_allow guard then
          move_logged i Blocked Ready ''lease_expired_spawn_retry'' (''Lease expired '' @ em_dash @ '' '' @ rg_reason guard)
        else ret ())"

definition expire_blocked :: "action_env \<Rightarrow> task list \<Rightarrow> string \<Rightarrow> task \<Rightarrow> unit m" where
  "expire_blocked env allTasks i t =
     (if is_spawn_failed t then retry_failed_spawn env i t
      else when_m (list_all (dep_done allTasks) (fm_dependsOn (t_fm t)))
             (move_logged i Blocked Ready ''lease_expired_requeue'' ''Lease expired and dependencies satisfied - requeued''))"

definition without_lease :: "task \<Rightarrow> task" where
  "without_lease t = t\<lparr>t_fm := (t_fm t)\<lparr>fm_lease := None\<rparr>\<rparr>"

definition handleExpireLease :: "action_env \<Rightarrow> task list \<Rightarrow> scheduler_action \<Rightarrow> action_result m" where
  "handleExpireLease env allTasks action =
     (let i = ac_taskId action in bind (get_task i) (\<lambda>t. case t of
        None \<Rightarrow> ret no_result
      | Some stored \<Rightarrow>
          (let expiringTask = without_lease stored in
           andThen (save_task expiringTask)
           (andThen
              (if fm_status (t_fm expiringTask) = Blocked then expire_blocked env allTasks i expiringTask
               else move_logged i InProgress Ready ''lease_expired'' ''Lease expired - task requeued'')
              (ret (no_result\<lparr>ar_leasesExpired := 1, ar_tasksRequeued := 1\<rparr>))))))"

definition handlePromote :: "scheduler_action \<Rightarrow> action_result m" where
  "handlePromote action =
     andThen (move_logged (ac_taskId action) Backlog Ready ''dependency_satisfied'' (ac_reason action))
       (ret (no_result\<lparr>ar_tasksPromoted := 1\<rparr>))"

definition handleRequeue :: "scheduler_action \<Rightarrow> action_result m" where
  "handleRequeue action =
     (let i = ac_taskId action in bind (get_task i) (\<lambda>t.
        andThen (case t of
                   None \<Rightarrow> ret ()
                 | Some requeuedTask \<Rightarrow> bind now (\<lambda>ts. save_task (with_metadata (\<lambda>m.
                     m(''lastRequeuedAt'' \<mapsto> JTime ts, ''requeueReason'' \<mapsto> JStr (ac_reason action))) requeuedTask)))
          (andThen (move_logged i Blocked Ready (ac_reason action) (ac_reason action)) (ret no_result))))"

definition handleDeadletter :: "scheduler_action \<Rightarrow> action_result m" where
  "handleDeadletter action = andThen (transitionToDeadletter (ac_taskId action) (ac_reason action)) (ret no_result)"

definition handleAssign :: "action_env \<Rightarrow> task list \<Rightarrow> scheduler_action \<Rightarrow> action_result m" where
  "handleAssign env allTasks action =
     bind (executeAssignAction (av_hooks env) (av_config env) (av_uuid env (ac_taskId action)) action allTasks)
       (\<lambda>(executed, failed). ret (no_result\<lparr>ar_executed := executed, ar_failed := failed\<rparr>))"

subsection \<open>recovery-handlers.ts\<close>

text \<open>The session of a silent agent is ended if there is an adapter and the session is known.\<close>

definition end_session :: "action_env \<Rightarrow> string \<Rightarrow> task \<Rightarrow> unit m" where
  "end_session env i t =
     (let meta = fm_metadata (t_fm t); session = meta_str meta ''sessionId'' in
      case ec_executor (av_config env) of
        None \<Rightarrow> ret ()
      | Some ex \<Rightarrow> when_m (truthy_str session)
          (best_effort (andThen (ex_forceComplete ex (the session))
             (best_effort (log_event ''session.force_completed'' ''scheduler'' (Some i)
                ([(''sessionId'', JStr (the session))] @ opt_str ''correlationId'' (meta_str meta ''correlationId'') @
                 [(''reason'', JStr ''stale_heartbeat'')]))))))"

definition recover_step :: "string \<Rightarrow> task_status \<Rightarrow> completion_outcome \<Rightarrow> task_status \<Rightarrow> unit \<Rightarrow> unit m" where
  "recover_step i fromStatus outcome targetStatus u =
     move_logged i fromStatus targetStatus (''stale_heartbeat_'' @ outcome_name outcome)
       (''Stale heartbeat - outcome '' @ outcome_name outcome @ '' - transition to '' @ status_str targetStatus)"

definition recover_run :: "string \<Rightarrow> task \<Rightarrow> run_result option \<Rightarrow> unit m" where
  "recover_run i t runResult = (case runResult of
     None \<Rightarrow>
       bind (transition_task i Ready (reason_opts ''stale_heartbeat_reclaim'')) (\<lambda>_.
         andThen (markRunArtifactExpired i ''stale_heartbeat'')
           (log_moved i (fm_status (t_fm t)) Ready ''Stale heartbeat - no run_result - reclaimed to ready''))
   | Some r \<Rightarrow>
       andThen (fold_m (recover_step i (fm_status (t_fm t)) (rr_outcome r)) (resolveCompletionTransitions t (rr_outcome r)) ())
         (when_m (rr_outcome r = CDone) (cascade_safely i)))"

definition handleStaleHeartbeat :: "action_env \<Rightarrow> scheduler_action \<Rightarrow> action_result m" where
  "handleStaleHeartbeat env action =
     (let i = ac_taskId action in bind (get_task i) (\<lambda>t. case t of
        None \<Rightarrow> ret no_result
      | Some staleTask \<Rightarrow>
          if fm_status (t_fm staleTask) \<noteq> InProgress then ret no_result
          else if truthy_str (ac_agent action) \<and> map_option tl_agent (fm_lease (t_fm staleTask)) \<noteq> ac_agent action then ret no_result
          else
            andThen (end_session env i staleTask)
              (bind (readRunResult i) (\<lambda>runResult.
                 andThen (recover_run i staleTask runResult) (ret no_result)))))"

subsection \<open>alert-handlers.ts\<close>

definition handleAlert :: "scheduler_action \<Rightarrow> action_result m" where
  "handleAlert action =
     andThen (best_effort (log_event ''scheduler_alert'' ''scheduler'' (Some (ac_taskId action))
                (opt_str ''agent'' (ac_agent action) @ [(''reason'', JStr (ac_reason action))])))
       (ret no_result)"

text \<open>\<open>store.transition\<close> ignores the \<open>blockers\<close> it is given.\<close>

definition handleBlock :: "scheduler_action \<Rightarrow> action_result m" where
  "handleBlock action =
     andThen (move_logged (ac_taskId action) Ready Blocked (ac_reason action) (ac_reason action)) (ret no_result)"

definition opt_int :: "string \<Rightarrow> int option \<Rightarrow> (string \<times> json) list" where
  "opt_int k v = (case v of None \<Rightarrow> [] | Some n \<Rightarrow> [(k, JNum (of_int n))])"

definition handleSlaViolation :: "action_env \<Rightarrow> scheduler_action \<Rightarrow> action_result m" where
  "handleSlaViolation env action = bind now (\<lambda>ts.
     andThen (best_effort (log_event ''sla.violation'' ''scheduler'' (Some (ac_taskId action))
                (opt_int ''duration'' (ac_duration action) @ opt_int ''limit'' (ac_limit action) @ opt_str ''agent'' (ac_agent action) @
                 [(''timestamp'', JNum (of_int ts))])))
       (andThen (when_m (str_includes ''alert will be sent'' (ac_reason action) \<and> av_slaChecker env) (recordAlert (ac_taskId action)))
          (ret no_result)))"

definition handleMurmurCreateTask :: "scheduler_action \<Rightarrow> action_result m" where
  "handleMurmurCreateTask action =
     catch (andThen (log_event ''murmur_task_created'' ''scheduler'' (Some (ac_taskId action))
                       (opt_str ''sourceTaskId'' (ac_sourceTaskId action) @ opt_str ''murmurCandidateId'' (ac_murmurCandidateId action) @
                        opt_str ''agent'' (ac_agent action)))
              (ret no_result))
       (\<lambda>e. ret (no_result\<lparr>ar_failed := True\<rparr>))"

subsection \<open>action-executor.ts\<close>

record execution_stats =
  es_actionsExecuted :: nat
  es_actionsFailed :: nat
  es_leasesExpired :: nat
  es_tasksRequeued :: nat
  es_tasksPromoted :: nat

fun action_name :: "action_type \<Rightarrow> string" where
  "action_name ExpireLease = ''expire_lease''"
| "action_name Assign = ''assign''"
| "action_name Requeue = ''requeue''"
| "action_name Block = ''block''"
| "action_name DeadletterTask = ''deadletter''"
| "action_name Alert = ''alert''"
| "action_name StaleHeartbeat = ''stale_heartbeat''"
| "action_name SlaViolation = ''sla_violation''"
| "action_name Promote = ''promote''"
| "action_name MurmurCreateTask = ''murmur_create_task''"

definition execute_action :: "action_env \<Rightarrow> task list \<Rightarrow> scheduler_action \<Rightarrow> action_result m" where
  "execute_action env allTasks action =
     (case ac_type action of
        ExpireLease \<Rightarrow> handleExpireLease env allTasks action
      | StaleHeartbeat \<Rightarrow> handleStaleHeartbeat env action
      | Requeue \<Rightarrow> handleRequeue action
      | Promote \<Rightarrow> handlePromote action
      | Assign \<Rightarrow> handleAssign env allTasks action
      | DeadletterTask \<Rightarrow> handleDeadletter action
      | Alert \<Rightarrow> handleAlert action
      | Block \<Rightarrow> handleBlock action
      | SlaViolation \<Rightarrow> handleSlaViolation env action
      | MurmurCreateTask \<Rightarrow> handleMurmurCreateTask action)"

definition count_result :: "action_result \<Rightarrow> execution_stats \<Rightarrow> execution_stats" where
  "count_result r s =
     \<lparr>es_actionsExecuted = es_actionsExecuted s + (if ar_executed r then 1 else 0),
      es_actionsFailed = es_actionsFailed s + (if ar_failed r then 1 else 0),
      es_leasesExpired = es_leasesExpired s + ar_leasesExpired r,
      es_tasksRequeued = es_tasksRequeued s + ar_tasksRequeued r,
      es_tasksPromoted = es_tasksPromoted s + ar_tasksPromoted r\<rparr>"

definition run_action :: "action_env \<Rightarrow> task list \<Rightarrow> scheduler_action \<Rightarrow> execution_stats \<Rightarrow> execution_stats m" where
  "run_action env allTasks action s =
     catch (bind (execute_action env allTasks action) (\<lambda>r. ret (count_result r s)))
       (\<lambda>e. andThen (best_effort (log_event ''scheduler_action_failed'' ''scheduler'' (Some (ac_taskId action))
                       [(''type'', JStr (action_name (ac_type action))), (''error'', JStr (hk_message (av_hooks env) e))]))
              (ret (s\<lparr>es_actionsFailed := es_actionsFailed s + 1\<rparr>)))"

definition executeActions :: "action_env \<Rightarrow> scheduler_action list \<Rightarrow> task list \<Rightarrow> execution_stats m" where
  "executeActions env actions allTasks =
     (let zero = \<lparr>es_actionsExecuted = 0, es_actionsFailed = 0, es_leasesExpired = 0, es_tasksRequeued = 0, es_tasksPromoted = 0\<rparr> in
      if ec_dryRun (av_config env) then ret zero else fold_m (run_action env allTasks) actions zero)"

end
