(* ===== verification/ActionProps.thy ===== *)
theory ActionProps
  imports ActionHandlers ProtocolProps
begin

section \<open>What executing an action does\<close>

text \<open>
  The loop over the actions is total and counts them right; a stale heartbeat and an expired lease are
  recovered as the state of the task says when the action is run, not when it was planned.
\<close>

subsection \<open>Results of handlers\<close>

text \<open>Every value an operation can return satisfies \<open>P\<close>.\<close>

definition returns :: "('a \<Rightarrow> bool) \<Rightarrow> 'a m \<Rightarrow> bool" where
  "returns P f \<longleftrightarrow> (\<forall>w x w'. f w = (Inr x, w') \<longrightarrow> P x)"

named_theorems returns_intros \<open>what an operation can return\<close>

lemma returns_ret [returns_intros]: "P x \<Longrightarrow> returns P (ret x)"
  by (simp add: returns_def run_simps)

lemma returns_throw [returns_intros]: "returns P (throw e)"
  by (simp add: returns_def run_simps)

lemma returns_bind [returns_intros]: "(\<And>x. returns P (g x)) \<Longrightarrow> returns P (bind f g)"
  by (auto simp: returns_def bind_def split: prod.splits sum.splits)

lemma returns_andThen [returns_intros]: "returns P g \<Longrightarrow> returns P (andThen f g)"
  by (simp add: andThen_def returns_bind)

lemma returns_catch [returns_intros]: "returns P f \<Longrightarrow> (\<And>e. returns P (h e)) \<Longrightarrow> returns P (catch f h)"
  by (auto simp: returns_def catch_def split: prod.splits sum.splits)

lemma returns_if [returns_intros]: "returns P f \<Longrightarrow> returns P g \<Longrightarrow> returns P (if b then f else g)"
  by simp

lemma returns_option [returns_intros]:
  "returns P f \<Longrightarrow> (\<And>v. returns P (g v)) \<Longrightarrow> returns P (case x of None \<Rightarrow> f | Some v \<Rightarrow> g v)"
  by (cases x) auto

lemma returns_then: "returns Q f \<Longrightarrow> (\<And>x. Q x \<Longrightarrow> returns P (g x)) \<Longrightarrow> returns P (bind f g)"
  by (fastforce simp: returns_def bind_def split: prod.splits sum.splits)

text \<open>What a handler may report for an action.\<close>

definition result_ok :: "scheduler_action \<Rightarrow> action_result \<Rightarrow> bool" where
  "result_ok a r \<longleftrightarrow> (ar_executed r \<longrightarrow> ac_type a = Assign \<and> \<not> ar_failed r) \<and>
     ar_leasesExpired r \<le> (if ac_type a = ExpireLease then 1 else 0) \<and> ar_tasksRequeued r = ar_leasesExpired r \<and>
     ar_tasksPromoted r \<le> (if ac_type a = Promote then 1 else 0)"

lemma no_result_ok [simp]:
  "result_ok a no_result" "result_ok a (no_result\<lparr>ar_failed := True\<rparr>)"
  "result_ok a (no_result\<lparr>ar_tasksPromoted := 1\<rparr>) = (ac_type a = Promote)"
  "result_ok a (no_result\<lparr>ar_leasesExpired := 1, ar_tasksRequeued := 1\<rparr>) = (ac_type a = ExpireLease)"
  by (simp_all add: result_ok_def no_result_def)

lemma assign_result: "returns (\<lambda>(executed, failed). \<not> (executed \<and> failed)) (executeAssignAction hk cfg c a ts)"
  unfolding executeAssignAction_def assign_body_def dispatch_task_def after_spawn_def spawn_succeeded_def hold_task_def
    spawn_failed_def assign_threw_def Let_def
  by (intro returns_intros; simp)

lemma handler_ok: "returns (result_ok a) (execute_action env ts a)"
proof (cases "ac_type a")
  case Assign
  then have "returns (result_ok a) (handleAssign env ts a)"
    unfolding handleAssign_def
    by (intro returns_then [OF assign_result]) (auto simp: result_ok_def no_result_def intro!: returns_intros)
  then show ?thesis by (simp add: execute_action_def Assign)
qed (simp_all add: execute_action_def handleExpireLease_def handlePromote_def handleRequeue_def handleDeadletter_def
    handleStaleHeartbeat_def handleAlert_def handleBlock_def handleSlaViolation_def handleMurmurCreateTask_def Let_def
    returns_intros del: One_nat_def)

subsection \<open>The loop\<close>

definition counts_ok :: "scheduler_action list \<Rightarrow> execution_stats \<Rightarrow> bool" where
  "counts_ok actions s \<longleftrightarrow> es_actionsExecuted s + es_actionsFailed s \<le> length actions \<and>
     es_actionsExecuted s \<le> length (filter (\<lambda>a. ac_type a = Assign) actions) \<and>
     es_leasesExpired s \<le> length (filter (\<lambda>a. ac_type a = ExpireLease) actions) \<and> es_tasksRequeued s = es_leasesExpired s \<and>
     es_tasksPromoted s \<le> length (filter (\<lambda>a. ac_type a = Promote) actions)"

lemma run_action_step:
  assumes "counts_ok xs s"
  shows "\<exists>s' w'. run_action env ts a s w = (Inr s', w') \<and> counts_ok (xs @ [a]) s'"
proof (cases "execute_action env ts a w")
  case (Pair y w1)
  show ?thesis
  proof (cases y)
    case (Inl e)
    have "\<exists>w2. best_effort f w1 = (Inr (), w2)" for f
      by (auto simp: best_effort_def catch_def run_simps split: prod.split sum.split)
    then obtain w2 where "best_effort (log_event ''scheduler_action_failed'' ''scheduler'' (Some (ac_taskId a))
        [(''type'', JStr (action_name (ac_type a))), (''error'', JStr (hk_message (av_hooks env) e))]) w1 = (Inr (), w2)" by blast
    then show ?thesis
      using assms Pair Inl by (auto simp: run_action_def catch_def bind_def andThen_def run_simps counts_ok_def)
  next
    case (Inr r)
    then have "result_ok a r" using handler_ok [of a env ts] Pair by (auto simp: returns_def)
    then have "counts_ok (xs @ [a]) (count_result r s)"
      using assms by (auto simp: counts_ok_def count_result_def result_ok_def split: if_splits)
    then show ?thesis using Pair Inr by (simp add: run_action_def catch_def bind_def run_simps)
  qed
qed

lemma run_actions_loop:
  "counts_ok xs s \<Longrightarrow> \<exists>s' w'. fold_m (run_action env ts) actions s w = (Inr s', w') \<and> counts_ok (xs @ actions) s'"
proof (induction actions arbitrary: xs s w)
  case Nil
  then show ?case by (simp add: run_simps)
next
  case (Cons a actions)
  from run_action_step [OF Cons.prems, of env ts a w] obtain s1 w1 where
    s1: "run_action env ts a s w = (Inr s1, w1)" "counts_ok (xs @ [a]) s1" by blast
  from Cons.IH [OF s1(2), of w1] show ?case using s1(1) by (simp add: bind_run)
qed

text \<open>
  Fact: executing actions. Whatever the actions and the state of the store, and whatever the handlers
  throw, the loop returns; every action counts as executed at most once and never also as failed, only
  assignments count as executed, expired leases and promotions are at most the actions of these types,
  and a dry run does nothing at all.
\<close>

theorem execute_actions_total:
  "\<exists>s w'. executeActions env actions ts w = (Inr s, w') \<and> counts_ok actions s \<and>
    (if ec_dryRun (av_config env) then w' = w \<and> es_actionsExecuted s + es_actionsFailed s = 0 else True)"
proof (cases "ec_dryRun (av_config env)")
  case True
  then show ?thesis by (simp add: executeActions_def run_simps counts_ok_def)
next
  case False
  have "counts_ok [] \<lparr>es_actionsExecuted = 0, es_actionsFailed = 0, es_leasesExpired = 0, es_tasksRequeued = 0, es_tasksPromoted = 0\<rparr>"
    by (simp add: counts_ok_def)
  from run_actions_loop [OF this, of env ts actions w] show ?thesis using False by (simp add: executeActions_def)
qed

subsection \<open>An expired lease\<close>

lemma without_lease_simps [simp]:
  "fm_id (t_fm (without_lease t)) = fm_id (t_fm t)" "fm_status (t_fm (without_lease t)) = fm_status (t_fm t)"
  "fm_metadata (t_fm (without_lease t)) = fm_metadata (t_fm t)" "fm_dependsOn (t_fm (without_lease t)) = fm_dependsOn (t_fm t)"
  "fm_lease (t_fm (without_lease t)) = None" "t_body (without_lease t) = t_body t" "t_path (without_lease t) = t_path t"
  by (simp_all add: without_lease_def)

lemma transition_fm_lease: "fm_lease fm = None \<Longrightarrow> fm_lease (transition_fm fm s p ts) = None"
  by (simp add: transition_fm_def Let_def split: option.split)

lemma yields_move:
  assumes "tidy w" "abs_store w i = Some fb" "isValidTransition (fm_status (fst fb)) s"
    "\<And>w'. updates w i (transition_fm (fst fb) s None (w_now w), js_trim (snd fb)) w' \<Longrightarrow> Q () w'"
  shows "yields (move_logged i from s reason message) w Q"
  unfolding move_logged_def log_moved_def logTransition_def yields_bind
  by (rule yields_transition [OF assms(1-3)]) (auto simp: reason_opts_def no_opts_def intro!: yields_log_best assms(4))

text \<open>The status a task in progress or blocked gets when its lease is found expired.\<close>

definition expired_status :: "action_env \<Rightarrow> task list \<Rightarrow> string \<Rightarrow> int \<Rightarrow> task \<Rightarrow> task_status" where
  "expired_status env allTasks i ts t =
     (if fm_status (t_fm t) = InProgress then Ready
      else if is_spawn_failed t then
        (let guard = shouldAllowSpawnFailedRequeue (av_random env i) ts t
            (or_else (ec_maxDispatchRetries (av_config env)) DEFAULT_MAX_DISPATCH_RETRIES) in
         if rg_shouldDeadletter guard then Deadletter else if rg_allow guard then Ready else Blocked)
      else if \<forall>d \<in> set (fm_dependsOn (t_fm t)). dep_done allTasks d then Ready else Blocked)"

lemma guard_frame [simp]: "shouldAllowSpawnFailedRequeue rnd ts (without_lease t) n = shouldAllowSpawnFailedRequeue rnd ts t n"
  by (simp add: shouldAllowSpawnFailedRequeue_def)

lemma spawn_failed_frame [simp]: "is_spawn_failed (without_lease t) = is_spawn_failed t"
  by (simp add: is_spawn_failed_def)

lemma expired_status_frame [simp]: "expired_status env ts i n (without_lease t) = expired_status env ts i n t"
  by (simp add: expired_status_def)

lemma expire_blocked_yields:
  assumes "tidy w" "abs_store w i = Some (fm, b)" "fm_status fm = Blocked" "fm_lease fm = None" "t = without_lease t0"
    and "t_fm t = fm"
  shows "yields (expire_blocked env allTasks i t) w (\<lambda>_ w'. tidy w' \<and> w_now w' = w_now w \<and>
    (\<exists>fm' b'. abs_store w' = (abs_store w)(i \<mapsto> (fm', b')) \<and> js_trim b' = js_trim b \<and> fm_lease fm' = None \<and>
       fm_status fm' = expired_status env allTasks i (w_now w) t0))"
    (is "yields _ _ ?Q")
proof -
  let ?s = "expired_status env allTasks i (w_now w) t0"
  have t0: "fm_status (t_fm t0) = Blocked" "fm_dependsOn fm = fm_dependsOn (t_fm t0)"
    using assms(3,5,6) by auto
  have move: "yields (move_logged i Blocked Ready r m) w ?Q" if "?s = Ready" for r m
    by (rule yields_move [OF assms(1,2)])
      (use assms(3,4) that in \<open>auto simp: isValidTransition_def updates_def transition_fm_lease intro!: exI\<close>)
  have stay: "?Q () w" if "?s = Blocked"
    using assms(1-4) that by (auto intro!: exI [of _ fm] exI [of _ b] simp: fun_upd_idem)
  have give_up: "yields (andThen (transitionToDeadletter i r) (log_moved i Blocked Deadletter m)) w ?Q" if "?s = Deadletter" for r m
    unfolding yields_andThen log_moved_def logTransition_def
    by (rule yields_deadletter [OF assms(1,2)])
      (use assms(3,4) that in \<open>auto simp: isValidTransition_def updates_def deadlettered_def transition_fm_lease
        intro!: yields_log_best exI\<close>)
  show ?thesis
  proof (cases "is_spawn_failed t0")
    case True
    show ?thesis
      unfolding expire_blocked_def assms(5) spawn_failed_frame if_P [OF True] retry_failed_spawn_def yields_bind yields_pure Let_def guard_frame
      using move stay give_up t0(1) True
      by (auto simp: expired_status_def Let_def yields_pure)
  next
    case False
    show ?thesis
      unfolding expire_blocked_def assms(5) spawn_failed_frame if_not_P [OF False] yields_when
      using move stay t0 False by (auto simp: expired_status_def list_all_iff)
  qed
qed

text \<open>
  Fact: lease expiry. Executing the expiry of a lease takes the lease from the task whether it has been
  renewed since or not. A task in progress becomes ready; a blocked one becomes ready or is given up as
  the retry guard says when its spawn failed, and otherwise becomes ready exactly when its dependencies
  are done. The result always counts a requeued task, also when the task stays blocked.
\<close>

theorem expire_lease_exact:
  assumes "tidy w" "abs_store w (ac_taskId action) = Some (fm, b)" "fm_status fm \<in> {InProgress, Blocked}"
  shows "\<exists>w' fm' b'. handleExpireLease env allTasks action w =
      (Inr (no_result\<lparr>ar_leasesExpired := 1, ar_tasksRequeued := 1\<rparr>), w') \<and> tidy w' \<and>
    abs_store w' = (abs_store w)(ac_taskId action \<mapsto> (fm', b')) \<and> js_trim b' = js_trim b \<and> fm_lease fm' = None \<and>
    fm_status fm' = expired_status env allTasks (ac_taskId action) (w_now w) (loaded (ac_taskId action) (fm, b))"
proof -
  let ?i = "ac_taskId action"
  let ?u = "loaded ?i (fm, b)"
  let ?t = "without_lease ?u"
  let ?s = "expired_status env allTasks ?i (w_now w) ?u"
  let ?P = "\<lambda>w'. tidy w' \<and> (\<exists>fm' b'. abs_store w' = (abs_store w)(?i \<mapsto> (fm', b')) \<and> js_trim b' = js_trim b \<and> fm_lease fm' = None \<and> fm_status fm' = ?s)"
  have body: "yields (if fm_status (t_fm ?t) = Blocked then expire_blocked env allTasks ?i ?t
      else move_logged ?i InProgress Ready ''lease_expired'' ''Lease expired - task requeued'') w1 (\<lambda>_ w'. ?P w')"
    if w1: "updates w ?i (t_fm ?t, js_trim b) w1" for w1
  proof (cases "fm_status fm = Blocked")
    case True
    have "abs_store w1 ?i = Some (t_fm ?t, js_trim b)" "tidy w1" "w_now w1 = w_now w" "abs_store w1 = (abs_store w)(?i \<mapsto> (t_fm ?t, js_trim b))"
      using w1 by (simp_all add: updates_def)
    with expire_blocked_yields [OF this(2,1) _ _ refl refl, of env allTasks] True show ?thesis
      by (auto elim!: yields_mono)
  next
    case False
    then have p: "fm_status fm = InProgress" using assms(3) by simp
    then have "?s = Ready" by (simp add: expired_status_def)
    then show ?thesis
      using p w1 by (simp, intro yields_move [of _ _ "(t_fm ?t, js_trim b)"])
        (auto simp: isValidTransition_def updates_def transition_fm_lease
          intro!: exI [of _ "transition_fm (t_fm ?t) Ready None (w_now w)"] exI [of _ "js_trim b"])
  qed
  have "yields (handleExpireLease env allTasks action) w (\<lambda>r w'. r = no_result\<lparr>ar_leasesExpired := 1, ar_tasksRequeued := 1\<rparr> \<and> ?P w')"
    unfolding handleExpireLease_def Let_def yields_bind yields_get [OF assms(1)] assms(2) option.map option.case yields_andThen
  proof (rule yields_save [OF assms(1,2)])
    fix w1 assume "updates w ?i (t_fm ?t, js_trim (t_body ?t)) w1"
    then have "updates w ?i (t_fm ?t, js_trim b) w1" by simp
    from yields_mono [OF body [OF this]]
    show "yields (if fm_status (t_fm ?t) = Blocked then expire_blocked env allTasks ?i ?t
        else move_logged ?i InProgress Ready ''lease_expired'' ''Lease expired - task requeued'') w1
      (\<lambda>x w'. yields (ret (no_result\<lparr>ar_leasesExpired := 1, ar_tasksRequeued := 1\<rparr>)) w'
        (\<lambda>r w'. r = no_result\<lparr>ar_leasesExpired := 1, ar_tasksRequeued := 1\<rparr> \<and> ?P w'))"
      by (simp only: yields_pure simp_thms)
  qed simp_all
  from yieldsD [OF this] show ?thesis by blast
qed

subsection \<open>A stale heartbeat\<close>

definition quiet_session :: "action_env \<Rightarrow> bool" where
  "quiet_session env \<longleftrightarrow> (\<forall>ex s w. ec_executor (av_config env) = Some ex \<longrightarrow> snd (ex_forceComplete ex s w) = w)"

lemma best_effort_run: "best_effort f w = (Inr (), snd (f w))"
  by (cases "f w"; cases "fst (f w)") (auto simp: best_effort_def catch_def run_simps)

lemma end_session_run:
  assumes "quiet_session env"
  shows "\<exists>es. end_session env i t w = (Inr (), w\<lparr>w_events := es\<rparr>)"
proof (cases "ec_executor (av_config env)")
  case None
  then show ?thesis by (intro exI [of _ "w_events w"]) (simp add: end_session_def run_simps)
next
  case (Some ex)
  let ?s = "meta_str (fm_metadata (t_fm t)) ''sessionId''"
  have quiet: "snd (ex_forceComplete ex s w) = w" for s using assms Some by (simp add: quiet_session_def)
  have "\<exists>es. snd (andThen (ex_forceComplete ex s) (best_effort (log_event ty a k p)) w) = w\<lparr>w_events := es\<rparr>" for s ty a k p
  proof (cases "ex_forceComplete ex s w")
    case (Pair x w1)
    then have "w1 = w" using quiet [of s] by simp
    then show ?thesis
      using Pair by (cases x) (auto simp: andThen_def bind_def best_effort_run log_event_def modify_def intro: exI [of _ "w_events w"])
  qed
  note ended = this
  show ?thesis
  proof (cases "truthy_str ?s")
    case True
    show ?thesis unfolding end_session_def Let_def Some option.case when_m_def if_P [OF True] best_effort_run [of "andThen _ _"]
      using ended by simp
  next
    case False
    show ?thesis unfolding end_session_def Let_def Some option.case when_m_def if_not_P [OF False] run_simps
      by (intro exI [of _ "w_events w"]) simp
  qed
qed

lemma mark_expired_run:
  assumes "consistent w" "abs_store w i = Some fb"
  shows "\<exists>r. markRunArtifactExpired i reason w = (Inr (), w\<lparr>w_runs := r\<rparr>)"
proof -
  have read: "readRunArtifact i w = (Inr (case map_of (w_runs w) i of None \<Rightarrow> None | Some d \<Rightarrow> rd_run d), w)"
    using assms by (simp add: readRunArtifact_def read_run_file_run)
  show ?thesis
  proof (cases "case map_of (w_runs w) i of None \<Rightarrow> None | Some d \<Rightarrow> rd_run d")
    case None
    then have "markRunArtifactExpired i reason w = (Inr (), w\<lparr>w_runs := w_runs w\<rparr>)"
      using read by (simp add: markRunArtifactExpired_def change_artifact_def bind_def run_simps)
    then show ?thesis by blast
  next
    case (Some a)
    then show ?thesis
      using read assms
      by (auto simp: markRunArtifactExpired_def change_artifact_def resolveTaskDir_run bind_def change_run_run now_def run_simps
          intro!: exI)
  qed
qed

lemma yields_move_held:
  assumes "held_in w i t" "isValidTransition (fm_status (t_fm t)) s"
  shows "yields (move_logged i from s reason message) w (\<lambda>_ w'. \<exists>t'. held_in w' i t' \<and> only_at i w w' \<and> fm_status (t_fm t') = s \<and> same_task t t')"
  unfolding move_logged_def log_moved_def logTransition_def yields_bind
  by (rule yields_transition_held [OF assms]) (auto simp: reason_opts_def no_opts_def intro!: yields_log_best)

lemma same_task_trans: "same_task t t1 \<Longrightarrow> same_task t1 t2 \<Longrightarrow> same_task t t2"
  by (simp add: same_task_def)

text \<open>The steps an outcome calls for, all of them valid for a task in progress.\<close>

lemma recover_steps_yields:
  assumes "held_in w i t" "fm_status (t_fm t) = InProgress"
  shows "yields (fold_m (recover_step i InProgress outcome) (resolveCompletionTransitions t outcome) ()) w
    (\<lambda>_ w'. \<exists>t'. held_in w' i t' \<and> only_at i w w' \<and> fm_status (t_fm t') = reported_status (t_fm t) outcome \<and> same_task t t')"
    (is "yields _ w ?Q")
proof -
  have one: "yields (fold_m (recover_step i InProgress outcome) [s] ()) w
      (\<lambda>_ w'. \<exists>t'. held_in w' i t' \<and> only_at i w w' \<and> fm_status (t_fm t') = s \<and> same_task t t')"
    if "s \<in> {Review, Blocked}" for s
    unfolding fold_m.simps recover_step_def yields_bind
    by (rule yields_mono [OF yields_move_held [OF assms(1)]]) (use that assms(2) in \<open>auto simp: isValidTransition_def yields_pure\<close>)
  have two: "yields (fold_m (recover_step i InProgress outcome) [Review, Done] ()) w
      (\<lambda>_ w'. \<exists>t'. held_in w' i t' \<and> only_at i w w' \<and> fm_status (t_fm t') = Done \<and> same_task t t')"
    unfolding fold_m.simps recover_step_def yields_bind
  proof (rule yields_mono [OF yields_move_held [OF assms(1)]], simp add: assms(2) isValidTransition_def, elim exE conjE)
    fix w1 t1
    assume 1: "held_in w1 i t1" "only_at i w w1" "fm_status (t_fm t1) = Review" "same_task t t1"
    show "yields (move_logged i InProgress Done (''stale_heartbeat_'' @ outcome_name outcome)
         (''Stale heartbeat - outcome '' @ outcome_name outcome @ '' - transition to '' @ status_str Done)) w1
       (\<lambda>x w'. yields (ret x) w' (\<lambda>_ w'. \<exists>t'. held_in w' i t' \<and> only_at i w w' \<and> fm_status (t_fm t') = Done \<and> same_task t t'))"
      by (rule yields_mono [OF yields_move_held [OF 1(1)]])
        (use 1 in \<open>auto simp: isValidTransition_def yields_pure dest: only_at_trans same_task_trans\<close>)
  qed
  show ?thesis
    using one [of Review] one [of Blocked] two assms(2)
    by (cases outcome) (auto simp: resolveCompletionTransitions_def reported_status_def)
qed

lemma stale_run:
  assumes "held_in w i t" "fm_status (t_fm t) = InProgress" "abs_store w i = Some (fm, b)" "t = loaded i (fm, b)"
    and "r = rd_result (run_dir_of w i)"
  shows "yields (bind (readRunResult i) (\<lambda>res. andThen (recover_run i t res) (ret no_result))) w (\<lambda>x w'. x = no_result \<and> tidy w' \<and>
    (\<exists>fm' b'. abs_store w' i = Some (fm', b') \<and>
       fm_status fm' = (case r of None \<Rightarrow> Ready | Some res \<Rightarrow> reported_status fm (rr_outcome res)) \<and>
       cascaded w i (fm_status fm' = Done) w'))"
    (is "yields _ w ?Q")
proof -
  have cons: "consistent w" "tidy w" using assms(1) by (simp_all add: held_in_def tidy_consistent)
  have read: "readRunResult i w = (Inr r, w)"
    using assms(3,5) by (simp add: readRunResult_def read_run_file_run [OF cons(1)] run_dir_of_def or_else_def empty_run_def split: option.split)
  have fm: "t_fm t = fm" using assms(4) by simp
  let ?S = "\<lambda>s w'. \<exists>t'. held_in w' i t' \<and> only_at i w w' \<and> fm_status (t_fm t') = s \<and> same_task t t'"
  have stop: "?Q no_result w'" if "?S (case r of None \<Rightarrow> Ready | Some res \<Rightarrow> reported_status fm (rr_outcome res)) w'"
    "(case r of None \<Rightarrow> Ready | Some res \<Rightarrow> reported_status fm (rr_outcome res)) \<noteq> Done" for w'
    using that by (fastforce simp: held_in_def only_at_def cascaded_def)
  have events: "?Q no_result (w1\<lparr>w_events := es\<rparr>)" if "?Q no_result w1" for w1 es
    using that by (simp add: cascaded_def)
  have "yields (andThen (recover_run i t r) (ret no_result)) w ?Q"
  proof (cases r)
    case None
    have none: "recover_run i t r = recover_run i t None" by (simp add: None)
    have "yields (recover_run i t None) w (\<lambda>_. ?Q no_result)"
      unfolding recover_run_def option.case(1) yields_bind
    proof (rule yields_transition_held [OF assms(1)])
      fix t' w1
      assume 1: "held_in w1 i t'" "only_at i w w1" "fm_status (t_fm t') = Ready" "same_task t t'"
      then obtain b1 where "consistent w1" "abs_store w1 i = Some (t_fm t', b1)" by (auto simp: held_in_def tidy_consistent)
      from mark_expired_run [OF this, of "''stale_heartbeat''"] obtain rs where
        mark: "markRunArtifactExpired i ''stale_heartbeat'' w1 = (Inr (), w1\<lparr>w_runs := rs\<rparr>)" by blast
      have reclaimed: "?Q no_result (w1\<lparr>w_runs := rs\<rparr>)" using 1 None by (intro stop) auto
      show "yields (andThen (markRunArtifactExpired i ''stale_heartbeat'')
          (log_moved i (fm_status (t_fm t)) Ready ''Stale heartbeat - no run_result - reclaimed to ready'')) w1 (\<lambda>_. ?Q no_result)"
        unfolding yields_andThen yields_def [of "markRunArtifactExpired _ _"] mark log_moved_def logTransition_def
        by (intro exI conjI, rule refl, rule yields_log_best, rule events, rule reclaimed)
    qed (use assms(2) in \<open>simp_all add: isValidTransition_def reason_opts_def no_opts_def\<close>)
    then show ?thesis unfolding none yields_andThen yields_pure .
  next
    case (Some res)
    have some: "recover_run i t r = recover_run i t (Some res)" by (simp add: Some)
    have "yields (recover_run i t (Some res)) w (\<lambda>_. ?Q no_result)"
      unfolding recover_run_def option.case(2) assms(2)
    proof (rule yields_seq [OF recover_steps_yields [OF assms(1,2)]], elim exE conjE)
      fix w1 t1
      assume 1: "held_in w1 i t1" "only_at i w w1" "fm_status (t_fm t1) = reported_status (t_fm t) (rr_outcome res)" "same_task t t1"
      obtain b1 where b1: "abs_store w1 i = Some (t_fm t1, b1)" using 1(1) by (auto simp: held_in_def)
      show "yields (when_m (rr_outcome res = CDone) (cascade_safely i)) w1 (\<lambda>_. ?Q no_result)"
      proof (cases "rr_outcome res = CDone")
        case True
        then have st: "fm_status (fst (t_fm t1, b1)) \<in> {Review, Done}" using 1(3) by (simp add: reported_status_def)
        show ?thesis
          unfolding yields_when if_P [OF True]
          by (rule yields_mono [OF cascade_safely_yields [OF 1(2) b1 st assms(3)]]) (use assms(2) 1(3) fm Some in \<open>auto\<close>)
      next
        case False
        then have "reported_status fm (rr_outcome res) \<noteq> Done" by (cases "rr_outcome res") (simp_all add: reported_status_def)
        then show ?thesis unfolding yields_when if_not_P [OF False] using 1 Some fm by (intro stop) auto
      qed
    qed
    then show ?thesis unfolding some yields_andThen yields_pure .
  qed
  then show ?thesis unfolding yields_bind yields_def [of "readRunResult _"] read by auto
qed

text \<open>
  C20: stale heartbeats. When the task is no longer in progress, or leased to another agent than the
  one whose heartbeat was missed, nothing happens. Otherwise, without a run result the task becomes
  ready again; with one it goes where the outcome says, as if the report had arrived, a task that is
  done makes ready exactly the tasks it was the last open dependency of, and no other task changes.
\<close>

theorem stale_heartbeat_exact:
  assumes "tidy w" "abs_store w (ac_taskId action) = Some (fm, b)" "quiet_session env"
    and "result = rd_result (run_dir_of w (ac_taskId action))"
  shows "\<exists>w'. handleStaleHeartbeat env action w = (Inr no_result, w') \<and>
    (if fm_status fm \<noteq> InProgress \<or> (truthy_str (ac_agent action) \<and> map_option tl_agent (fm_lease fm) \<noteq> ac_agent action) then w' = w
     else tidy w' \<and> (\<exists>fm' b'. abs_store w' (ac_taskId action) = Some (fm', b') \<and>
       fm_status fm' = (case result of None \<Rightarrow> Ready | Some r \<Rightarrow> reported_status fm (rr_outcome r)) \<and>
       cascaded w (ac_taskId action) (fm_status fm' = Done) w'))"
proof -
  let ?i = "ac_taskId action"
  let ?t = "loaded ?i (fm, b)"
  have get: "get_task ?i w = (Inr (Some ?t), w)" using get_run [OF assms(1)] assms(2) by simp
  show ?thesis
  proof (cases "fm_status fm \<noteq> InProgress \<or> (truthy_str (ac_agent action) \<and> map_option tl_agent (fm_lease fm) \<noteq> ac_agent action)")
    case True
    then show ?thesis by (auto simp: handleStaleHeartbeat_def Let_def bind_run(1) [of "get_task ?i" w, OF get] run_simps)
  next
    case False
    then have p: "fm_status (t_fm ?t) = InProgress" by simp
    obtain es where es: "end_session env ?i ?t w = (Inr (), w\<lparr>w_events := es\<rparr>)" using end_session_run [OF assms(3)] by blast
    let ?w = "w\<lparr>w_events := es\<rparr>"
    have w: "held_in ?w ?i ?t" "abs_store ?w ?i = Some (fm, b)" "result = rd_result (run_dir_of ?w ?i)"
      using held_loaded [OF assms(1,2)] assms(2,4) by (simp_all add: run_dir_of_def)
    have "handleStaleHeartbeat env action w =
        bind (readRunResult ?i) (\<lambda>res. andThen (recover_run ?i ?t res) (ret no_result)) ?w"
      unfolding handleStaleHeartbeat_def Let_def bind_run(1) [of "get_task ?i" w, OF get] option.case bind_run(3) [of "end_session env ?i ?t" w, OF es, symmetric]
      using False by (simp only: loaded_simps fst_conv simp_thms if_False) auto
    with yieldsD [OF stale_run [OF w(1) p w(2) refl w(3)]] show ?thesis
      unfolding if_not_P [OF False] by auto
  qed
qed

subsection \<open>On concrete stores\<close>

definition action_on :: "action_type \<Rightarrow> string \<Rightarrow> scheduler_action" where
  "action_on ty i = \<lparr>ac_type = ty, ac_taskId = i, ac_taskTitle = [], ac_agent = None, ac_reason = [], ac_fromStatus = None,
     ac_toStatus = None, ac_duration = None, ac_limit = None, ac_sourceTaskId = None, ac_murmurCandidateId = None, ac_blockers = None\<rparr>"

definition plain_env :: action_env where
  "plain_env = \<lparr>av_config = no_executor, av_hooks = quiet_example, av_uuid = \<lambda>i. ''u'', av_random = \<lambda>i. 0, av_slaChecker = False\<rparr>"

definition waiting_blocked :: frontmatter where
  "waiting_blocked = (sample_fm ''t'' Blocked)\<lparr>fm_dependsOn := [''gone'']\<rparr>"

text \<open>A blocked task whose dependency is missing stays blocked, and counts as requeued.\<close>

theorem expire_lease_exact_witness:
  "\<exists>w' fm' b'. handleExpireLease plain_env [] (action_on ExpireLease ''t'') (tasks_world [waiting_blocked]) =
      (Inr (no_result\<lparr>ar_leasesExpired := 1, ar_tasksRequeued := 1\<rparr>), w') \<and>
    abs_store w' ''t'' = Some (fm', b') \<and> fm_status fm' = Blocked"
proof -
  have "abs_store (tasks_world [waiting_blocked]) (ac_taskId (action_on ExpireLease ''t'')) = Some (waiting_blocked, ''body'')"
    "tidy (tasks_world [waiting_blocked])" by (simp_all add: action_on_def waiting_blocked_def)
  moreover have "expired_status plain_env [] ''t'' 100 (loaded ''t'' (waiting_blocked, ''body'')) = Blocked" by code_simp
  moreover have "fm_status waiting_blocked \<in> {InProgress, Blocked}" by (simp add: waiting_blocked_def)
  ultimately show ?thesis
    using expire_lease_exact [of "tasks_world [waiting_blocked]" "action_on ExpireLease ''t''" waiting_blocked "''body''" plain_env "[]"]
    by (fastforce simp: action_on_def)
qed

definition silent_fm :: frontmatter where
  "silent_fm = (sample_fm ''t'' InProgress)\<lparr>fm_metadata := [''reviewRequired'' \<mapsto> JBool False]\<rparr>"

definition silent_world :: world where
  "silent_world = (tasks_world [silent_fm, waiting ''next'' [''t'']])\<lparr>w_runs := [(''t'', empty_run\<lparr>rd_result := Some
     \<lparr>rr_taskId = ''t'', rr_agentId = ''dev'', rr_completedAt = 50, rr_outcome = CDone, rr_summaryRef = [], rr_handoffRef = [],
      rr_deliverables = [], rr_tests = \<lparr>tp_total = 0, tp_passed = 0, tp_failed = 0\<rparr>, rr_blockers = [], rr_notes = []\<rparr>\<rparr>)]\<rparr>"

text \<open>A silent agent that had reported: its task is done, and the next one becomes ready.\<close>

theorem stale_heartbeat_exact_witness:
  "\<exists>w' fm' b'. handleStaleHeartbeat plain_env (action_on StaleHeartbeat ''t'') silent_world = (Inr no_result, w') \<and>
    abs_store w' ''t'' = Some (fm', b') \<and> fm_status fm' = Done \<and>
    map_option (\<lambda>fb. fm_status (fst fb)) (abs_store w' ''next'') = Some Ready"
proof -
  let ?a = "action_on StaleHeartbeat ''t''"
  have w: "tidy silent_world" "abs_store silent_world (ac_taskId ?a) = Some (silent_fm, ''body'')"
    "abs_store silent_world ''t'' = Some (silent_fm, ''body'')"
    "abs_store silent_world ''next'' = Some (waiting ''next'' [''t''], ''body'')"
    by (simp_all add: silent_world_def silent_fm_def action_on_def waiting_def)
  have q: "quiet_session plain_env" by (simp add: quiet_session_def plain_env_def no_executor_def)
  have i: "ac_taskId ?a = ''t''" "ac_agent ?a = None" "fm_status silent_fm = InProgress" by (simp_all add: action_on_def silent_fm_def)
  obtain r where r: "rd_result (run_dir_of silent_world ''t'') = Some r" "reported_status silent_fm (rr_outcome r) = Done"
    by (simp add: silent_world_def run_dir_of_def or_else_def reported_status_def silent_fm_def)
  have u: "''next'' \<in> unblocked_by silent_world ''t''" using w(4) by (simp add: unblocked_by_def waiting_def)
  from stale_heartbeat_exact [OF w(1,2) q refl] obtain w' where
    run: "handleStaleHeartbeat plain_env ?a silent_world = (Inr no_result, w')"
    and after: "\<exists>fm' b'. abs_store w' ''t'' = Some (fm', b') \<and> fm_status fm' = Done \<and> cascaded silent_world ''t'' (fm_status fm' = Done) w'"
    unfolding i r option.case by (auto simp: truthy_str_def r(2))
  from after obtain fm' b' where done1: "abs_store w' ''t'' = Some (fm', b')" "fm_status fm' = Done" "cascaded silent_world ''t'' True w'"
    by auto
  have "abs_store w' ''next'' = Some (transition_fm (waiting ''next'' [''t'']) Ready None (w_now silent_world), js_trim ''body'')"
    using spec [OF done1(3) [unfolded cascaded_def], of "''next''"] u w(4) by simp
  then show ?thesis using run done1 by (intro exI [of _ w'] exI [of _ fm'] exI [of _ b']) simp
qed

end
