(* ===== verification/CircularDeps.thy ===== *)
theory CircularDeps
  imports TaskDispatcher
begin

section \<open>Circular dependencies (detectCircularDeps in dispatch/scheduler.ts)\<close>

text \<open>
  The depth-first search of a poll. \<open>visited\<close> (\<open>globalVisited\<close>) is shared by all starting points, the
  stack holds the ids on the path from the start, and a dependency on the stack closes a cycle whose
  members are marked. It terminates because a task enters \<open>visited\<close> once and an id without a task has
  no dependencies. Shown: a marked id lies on a dependency cycle; no id is marked exactly when the
  dependencies of the listed tasks are acyclic; but not every member of every cycle is marked.
\<close>

subsection \<open>The search\<close>

text \<open>\<open>new Map(allTasks.map(t => [t.frontmatter.id, t]))\<close>: of two tasks with one id the later counts.\<close>

definition deps_listed_for :: "task list \<Rightarrow> string \<Rightarrow> string list" where
  "deps_listed_for allTasks i = (case find_task (rev allTasks) i of None \<Rightarrow> [] | Some t \<Rightarrow> fm_dependsOn (t_fm t))"

definition add_all :: "string list \<Rightarrow> string list \<Rightarrow> string list" where
  "add_all ids acc = foldl (\<lambda>acc i. if i \<in> set acc then acc else acc @ [i]) acc ids"

text \<open>\<open>stackArr.slice(cycleStart)\<close>\<close>

definition cycle_of :: "string \<Rightarrow> string list \<Rightarrow> string list" where
  "cycle_of i stack = dropWhile (\<lambda>x. x \<noteq> i) stack"

text \<open>The loop over the dependencies of the task on top of the stack, with the recursive call for each.\<close>

function visit_deps :: "task list \<Rightarrow> string list \<Rightarrow> string list \<Rightarrow> string list \<times> string list \<Rightarrow> string list \<times> string list" where
  "visit_deps ts [] stack st = st"
| "visit_deps ts (taskId # rest) stack (visited, circular) =
     (if taskId \<in> set stack then visit_deps ts rest stack (visited, add_all (cycle_of taskId stack) circular)
      else if taskId \<in> set visited then visit_deps ts rest stack (visited, circular)
      else visit_deps ts rest stack (visit_deps ts (deps_listed_for ts taskId) (stack @ [taskId]) (taskId # visited, circular)))"
  by pat_completeness auto

definition unvisited :: "task list \<Rightarrow> string list \<Rightarrow> nat" where
  "unvisited ts visited = card ((\<lambda>t. fm_id (t_fm t)) ` set ts - set visited)"

lemma visit_grows:
  "visit_deps_dom (ts, ids, stack, st) \<Longrightarrow> set (fst st) \<subseteq> set (fst (visit_deps ts ids stack st))"
  by (induction rule: visit_deps.pinduct) (auto simp: visit_deps.psimps)

lemma found_task_in: "find_task ts i = Some t \<Longrightarrow> t \<in> set ts \<and> fm_id (t_fm t) = i"
  unfolding find_task_def find_Some_iff by (auto simp: in_set_conv_nth)

lemma unvisited_mono: "set v \<subseteq> set v' \<Longrightarrow> unvisited ts v' \<le> unvisited ts v"
  unfolding unvisited_def by (rule card_mono) auto

lemma unvisited_step: "unvisited ts (i # v) < unvisited ts v \<or> unvisited ts (i # v) = unvisited ts v"
  using unvisited_mono [of v "i # v" ts, OF set_subset_Cons] by linarith

lemma unvisited_less:
  assumes "i \<notin> set v" "deps_listed_for ts i \<noteq> []"
  shows "unvisited ts (i # v) < unvisited ts v"
proof -
  obtain t where "t \<in> set ts" "fm_id (t_fm t) = i"
    using assms(2) by (auto simp: deps_listed_for_def dest: found_task_in split: option.splits)
  then have "i \<in> (\<lambda>t. fm_id (t_fm t)) ` set ts - set v" using assms(1) by blast
  then show ?thesis unfolding unvisited_def by (intro psubset_card_mono) auto
qed

termination visit_deps
proof (relation "measures [\<lambda>(ts, ids, stack, st). unvisited ts (fst st), \<lambda>(ts, ids, stack, st). length ids]")
  fix ts :: "task list" and i :: string and rest stack visited circular :: "string list"
  assume new: "\<not> i \<in> set stack" "\<not> i \<in> set visited"
  show "((ts, deps_listed_for ts i, stack @ [i], i # visited, circular), ts, i # rest, stack, visited, circular) \<in>
      measures [\<lambda>(ts, ids, stack, st). unvisited ts (fst st), \<lambda>(ts, ids, stack, st). length ids]"
    using unvisited_less [OF new(2), of ts] unvisited_step [of ts i visited] by (cases "deps_listed_for ts i") auto
  assume "visit_deps_dom (ts, deps_listed_for ts i, stack @ [i], i # visited, circular)"
  from visit_grows [OF this]
  have "unvisited ts (fst (visit_deps ts (deps_listed_for ts i) (stack @ [i]) (i # visited, circular))) \<le> unvisited ts visited"
    by (intro unvisited_mono) auto
  then show "((ts, rest, stack, visit_deps ts (deps_listed_for ts i) (stack @ [i]) (i # visited, circular)), ts, i # rest, stack, visited, circular) \<in>
      measures [\<lambda>(ts, ids, stack, st). unvisited ts (fst st), \<lambda>(ts, ids, stack, st). length ids]"
    by (auto simp: le_less)
qed (auto simp: measures_def)

text \<open>The loop over all tasks starts a search at every task that was not visited yet.\<close>

definition detect_all :: "task list \<Rightarrow> string list \<times> string list" where
  "detect_all ts = foldl (\<lambda>st t. visit_deps ts [fm_id (t_fm t)] [] st) ([], []) ts"

definition circularDeps :: "task list \<Rightarrow> string list" where
  "circularDeps ts = snd (detect_all ts)"

subsection \<open>What the marks mean\<close>

definition needs_edges :: "task list \<Rightarrow> (string \<times> string) set" where
  "needs_edges ts = {(i, j). j \<in> set (deps_listed_for ts i)}"

lemma set_add_all [simp]: "set (add_all ids acc) = set ids \<union> set acc"
  unfolding add_all_def by (induction ids arbitrary: acc) auto

lemma path_to_last:
  assumes "successively (\<lambda>a b. (a, b) \<in> E) p" "x \<in> set p"
  shows "(x, last p) \<in> E\<^sup>*"
  using assms
proof (induction "\<lambda>a b. (a, b) \<in> E" p arbitrary: x rule: successively.induct)
  case (3 a b q)
  then have "(b, last (b # q)) \<in> E\<^sup>*" by auto
  then show ?case using 3 by (cases "x = a") (auto intro: converse_rtrancl_into_rtrancl)
qed simp_all

lemma path_from_first:
  assumes "successively (\<lambda>a b. (a, b) \<in> E) (a # p)" "x \<in> set (a # p)"
  shows "(a, x) \<in> E\<^sup>*"
  using assms
proof (induction p arbitrary: a)
  case (Cons b q)
  then show ?case by (cases "x = a") (auto intro: converse_rtrancl_into_rtrancl)
qed simp

lemma cycle_of_append [simp]: "i \<notin> set p \<Longrightarrow> cycle_of i (p @ i # q) = i # q"
  unfolding cycle_of_def by (induction p) auto

lemma closing_edge_cycle:
  assumes path: "successively (\<lambda>a b. (a, b) \<in> E) stack" and on: "i \<in> set stack"
    and closing: "(last stack, i) \<in> E" and x: "x \<in> set (cycle_of i stack)"
  shows "(x, x) \<in> E\<^sup>+"
proof -
  obtain p q where split: "stack = p @ i # q" "i \<notin> set p" using split_list_first [OF on] by blast
  have c: "cycle_of i stack = i # q" using split by simp
  have sub: "successively (\<lambda>a b. (a, b) \<in> E) (i # q)" using path split(1) by (simp add: successively_append_iff)
  have "(i, x) \<in> E\<^sup>*" using path_from_first [OF sub] x c by simp
  moreover have "(x, last stack) \<in> E\<^sup>*" using path_to_last [OF sub, of x] x c split(1) by simp
  ultimately show ?thesis using closing by (meson rtrancl_into_trancl1 rtrancl_trancl_trancl trancl_rtrancl_trancl)
qed

lemma visit_sound:
  assumes "x \<in> set (snd (visit_deps ts ids stack st))"
    and "successively (\<lambda>a b. (a, b) \<in> needs_edges ts) stack"
    and "\<forall>y \<in> set ids. stack \<noteq> [] \<longrightarrow> (last stack, y) \<in> needs_edges ts"
    and "\<forall>y \<in> set (snd st). (y, y) \<in> (needs_edges ts)\<^sup>+"
  shows "(x, x) \<in> (needs_edges ts)\<^sup>+"
  using assms
proof (induction ts ids stack st arbitrary: x rule: visit_deps.induct)
  case (2 ts i rest stack visited circular)
  note mem = 2(5) and path = 2(6) and out = 2(7) and marked = 2(8)
  show ?case
  proof (cases "i \<in> set stack")
    case True
    have edge: "(last stack, i) \<in> needs_edges ts" using out True by (cases "stack = []") auto
    have "\<forall>y \<in> set (snd (visited, add_all (cycle_of i stack) circular)). (y, y) \<in> (needs_edges ts)\<^sup>+"
      using marked closing_edge_cycle [OF path True edge] by auto
    then show ?thesis using 2(1) [OF True _ path] mem out True by simp
  next
    case off: False
    show ?thesis
    proof (cases "i \<in> set visited")
      case True
      then show ?thesis using 2(2) [OF off True _ path] mem out marked off by simp
    next
      case new: False
      let ?in = "visit_deps ts (deps_listed_for ts i) (stack @ [i]) (i # visited, circular)"
      have longer: "successively (\<lambda>a b. (a, b) \<in> needs_edges ts) (stack @ [i])"
        using path out by (auto simp: successively_append_iff)
      have "\<forall>y \<in> set (snd ?in). (y, y) \<in> (needs_edges ts)\<^sup>+"
        using 2(3) [OF off new _ longer] marked by (auto simp: needs_edges_def)
      then show ?thesis using 2(4) [OF off new _ path] mem out off new by simp
    qed
  qed
qed simp

text \<open>A set of finished ids: what they depend on without a mark is finished too, and no cycle through them
  avoids the marks.\<close>

definition live_edges :: "task list \<Rightarrow> string set \<Rightarrow> (string \<times> string) set" where
  "live_edges ts marked = {(i, j) \<in> needs_edges ts. j \<notin> marked}"

definition finished :: "task list \<Rightarrow> string set \<Rightarrow> string set \<Rightarrow> bool" where
  "finished ts marked fin \<longleftrightarrow>
     live_edges ts marked `` fin \<subseteq> fin \<and> (\<forall>i \<in> fin. (i, i) \<notin> (live_edges ts marked)\<^sup>+)"

lemma finished_insert:
  assumes "finished ts marked fin" "live_edges ts marked `` {i} \<subseteq> fin" "i \<notin> fin"
  shows "finished ts marked (insert i fin)"
proof -
  have closed: "live_edges ts marked `` fin \<subseteq> fin" using assms(1) by (simp add: finished_def)
  have "(i, i) \<notin> (live_edges ts marked)\<^sup>+"
  proof
    assume "(i, i) \<in> (live_edges ts marked)\<^sup>+"
    then obtain j where "(i, j) \<in> live_edges ts marked" "(j, i) \<in> (live_edges ts marked)\<^sup>*" by (meson tranclD)
    then have "j \<in> fin" "(j, i) \<in> (live_edges ts marked)\<^sup>*" using assms(2) by auto
    then show False using closed assms(3) Image_closed_trancl by fastforce
  qed
  then show ?thesis using assms(1,2) by (auto simp: finished_def)
qed

lemma marks_grow: "set (snd st) \<subseteq> set (snd (visit_deps ts ids stack st))"
  by (induction ts ids stack st rule: visit_deps.induct) auto

lemma visited_grow: "set (fst st) \<subseteq> set (fst (visit_deps ts ids stack st))"
  by (induction ts ids stack st rule: visit_deps.induct) auto

lemma visit_complete:
  assumes "set (snd (visit_deps ts ids stack st)) \<subseteq> marked"
    and "set stack \<subseteq> set (fst st)" and "finished ts marked (set (fst st) - set stack)"
  shows "finished ts marked (set (fst (visit_deps ts ids stack st)) - set stack) \<and>
    set ids \<subseteq> (set (fst (visit_deps ts ids stack st)) - set stack) \<union> marked"
  using assms
proof (induction ts ids stack st rule: visit_deps.induct)
  case (2 ts i rest stack visited circular)
  show ?case
  proof (cases "i \<in> set stack")
    case True
    have "i \<in> set (cycle_of i stack)"
      using split_list_first [OF True] by auto
    then have "i \<in> marked"
      using 2(5) marks_grow [of "(visited, add_all (cycle_of i stack) circular)" ts rest stack] True by auto
    then show ?thesis using 2(1) [OF True] 2(5-7) True by auto
  next
    case out: False
    show ?thesis
    proof (cases "i \<in> set visited")
      case True
      then show ?thesis
        using 2(2) [OF out True] 2(5-7) out visited_grow [of "(visited, circular)" ts rest stack] by auto
    next
      case new: False
      let ?in = "visit_deps ts (deps_listed_for ts i) (stack @ [i]) (i # visited, circular)"
      have result: "visit_deps ts (i # rest) stack (visited, circular) = visit_deps ts rest stack ?in" using out new by simp
      have sub: "set (snd ?in) \<subseteq> marked" using 2(5) marks_grow [of ?in ts rest stack] result by auto
      have "set (i # visited) - set (stack @ [i]) = set visited - set stack" using new by auto
      then have inner: "finished ts marked (set (fst ?in) - set (stack @ [i]))"
        "set (deps_listed_for ts i) \<subseteq> (set (fst ?in) - set (stack @ [i])) \<union> marked"
        using 2(3) [OF out new sub] 2(6,7) by auto
      have there: "set (i # visited) \<subseteq> set (fst ?in)" using visited_grow [of "(i # visited, circular)"] by simp
      have "finished ts marked (insert i (set (fst ?in) - set (stack @ [i])))"
        by (rule finished_insert [OF inner(1)]) (use inner(2) in \<open>auto simp: live_edges_def needs_edges_def\<close>)
      also have "insert i (set (fst ?in) - set (stack @ [i])) = set (fst ?in) - set stack" using there out by auto
      finally have fin: "finished ts marked (set (fst ?in) - set stack)" .
      have "finished ts marked (set (fst (visit_deps ts rest stack ?in)) - set stack) \<and>
          set rest \<subseteq> (set (fst (visit_deps ts rest stack ?in)) - set stack) \<union> marked"
        using 2(4) [OF out new _ _ fin] 2(5,6) there unfolding result by auto
      then show ?thesis using visited_grow [of ?in ts rest stack] there out unfolding result by auto
    qed
  qed
qed simp

text \<open>The state after the searches from some of the listed tasks.\<close>

lemma detect_sound:
  assumes "\<And>x. x \<in> set (snd st) \<Longrightarrow> (x, x) \<in> (needs_edges ts)\<^sup>+"
  shows "x \<in> set (snd (foldl (\<lambda>st t. visit_deps ts [fm_id (t_fm t)] [] st) st us)) \<Longrightarrow> (x, x) \<in> (needs_edges ts)\<^sup>+"
  using assms
proof (induction us arbitrary: st)
  case (Cons u us)
  show ?case by (rule Cons.IH) (use Cons.prems visit_sound [where ts = ts and stack = "[]" and ids = "[fm_id (t_fm u)]" and st = st] in auto)
qed simp

lemma marks_grow_all:
  "set (snd st) \<subseteq> set (snd (foldl (\<lambda>st t. visit_deps ts [fm_id (t_fm t)] [] st) st us))"
proof (induction us arbitrary: st)
  case (Cons u us)
  show ?case using Cons.IH [of "visit_deps ts [fm_id (t_fm u)] [] st"] marks_grow [of st ts "[fm_id (t_fm u)]" "[]"] by auto
qed simp

lemma detect_complete:
  assumes "set (snd (foldl (\<lambda>st t. visit_deps ts [fm_id (t_fm t)] [] st) st us)) \<subseteq> marked"
    and "finished ts marked (set (fst st))" and "\<And>t. t \<in> set ts \<Longrightarrow> t \<notin> set us \<Longrightarrow> fm_id (t_fm t) \<in> set (fst st) \<union> marked"
  shows "\<exists>fin. finished ts marked fin \<and> (\<forall>t \<in> set ts. fm_id (t_fm t) \<in> fin \<union> marked)"
  using assms
proof (induction us arbitrary: st)
  case (Cons u us)
  let ?st = "visit_deps ts [fm_id (t_fm u)] [] st"
  have "set (snd ?st) \<subseteq> marked" using Cons.prems(1) marks_grow_all [of ?st ts us] by auto
  then have step: "finished ts marked (set (fst ?st))" "fm_id (t_fm u) \<in> set (fst ?st) \<union> marked"
    using visit_complete [of ts "[fm_id (t_fm u)]" "[]" st marked] Cons.prems(2) by auto
  show ?case
  proof (rule Cons.IH [OF _ step(1)])
    fix t assume "t \<in> set ts" "t \<notin> set us"
    then show "fm_id (t_fm t) \<in> set (fst ?st) \<union> marked"
      using Cons.prems(3) [of t] step(2) visited_grow [of st ts "[fm_id (t_fm u)]" "[]"] by (cases "t = u") auto
  qed (use Cons.prems(1) in simp)
next
  case Nil
  then show ?case by (intro exI [of _ "set (fst st)"]) auto
qed

lemma deps_listed: "(i, j) \<in> needs_edges ts \<Longrightarrow> \<exists>t \<in> set ts. fm_id (t_fm t) = i"
  using found_task_in [of "rev ts" i] by (cases "find_task (rev ts) i") (auto simp: needs_edges_def deps_listed_for_def)

lemma finished_acyclic:
  assumes "finished ts marked fin" "\<And>t. t \<in> set ts \<Longrightarrow> fm_id (t_fm t) \<in> fin \<union> marked"
  shows "acyclic (live_edges ts marked)"
  unfolding acyclic_def
proof (intro allI notI)
  fix x assume cyc: "(x, x) \<in> (live_edges ts marked)\<^sup>+"
  then obtain y z where "(x, y) \<in> live_edges ts marked" "(z, x) \<in> live_edges ts marked" by (meson tranclD tranclD2)
  then have "x \<in> fin" using deps_listed [of x y ts] assms(2) by (auto simp: live_edges_def)
  then show False using cyc assms(1) by (simp add: finished_def)
qed

text \<open>C21: the search for circular dependencies marks only ids that lie on a dependency cycle, and it marks at
  least one id of every cycle: the dependencies without the edges into marked ids are acyclic. In particular
  nothing is marked exactly when the dependencies are acyclic.\<close>

theorem circular_deps_exact:
  "set (circularDeps ts) \<subseteq> {i. (i, i) \<in> (needs_edges ts)\<^sup>+} \<and>
   acyclic (live_edges ts (set (circularDeps ts))) \<and>
   (circularDeps ts = [] \<longleftrightarrow> acyclic (needs_edges ts))"
proof -
  have sound: "set (circularDeps ts) \<subseteq> {i. (i, i) \<in> (needs_edges ts)\<^sup>+}"
    unfolding circularDeps_def detect_all_def using detect_sound [of "([], [])" ts _ ts] by auto
  obtain fin where "finished ts (set (circularDeps ts)) fin" "\<forall>t \<in> set ts. fm_id (t_fm t) \<in> fin \<union> set (circularDeps ts)"
    using detect_complete [of ts "([], [])" ts "set (circularDeps ts)"]
    unfolding circularDeps_def detect_all_def by (auto simp: finished_def)
  then have hit: "acyclic (live_edges ts (set (circularDeps ts)))" using finished_acyclic by blast
  have "circularDeps ts = [] \<longleftrightarrow> acyclic (needs_edges ts)"
  proof
    assume "circularDeps ts = []"
    then show "acyclic (needs_edges ts)" using hit by (simp add: live_edges_def)
  next
    assume "acyclic (needs_edges ts)"
    then show "circularDeps ts = []" using sound by (auto simp: acyclic_def)
  qed
  with sound hit show ?thesis by blast
qed

definition sample_needing :: "string \<Rightarrow> string list \<Rightarrow> task" where
  "sample_needing i deps = (sample_task i Ready)\<lparr>t_fm := (sample_fm i Ready)\<lparr>fm_dependsOn := deps\<rparr>\<rparr>"

text \<open>Fact: marking is not complete. With A needing B and C, B needing A and C needing B, all three lie on a
  cycle (A to C to B to A), but the search enters C only after B has been finished and marks A and B alone.\<close>

lemma circular_deps_partial:
  "let ts = [sample_needing ''A'' [''B'', ''C''], sample_needing ''B'' [''A''], sample_needing ''C'' [''B'']] in
     circularDeps ts = [''A'', ''B''] \<and> (''C'', ''C'') \<in> (needs_edges ts)\<^sup>+"
proof -
  let ?ts = "[sample_needing ''A'' [''B'', ''C''], sample_needing ''B'' [''A''], sample_needing ''C'' [''B'']]"
  have edges: "(''C'', ''B'') \<in> needs_edges ?ts" "(''B'', ''A'') \<in> needs_edges ?ts" "(''A'', ''C'') \<in> needs_edges ?ts"
    by (simp_all add: needs_edges_def deps_listed_for_def find_task_def sample_needing_def sample_task_def sample_fm_def)
  then have "(''C'', ''C'') \<in> (needs_edges ?ts)\<^sup>+" by (meson trancl.simps)
  moreover have "circularDeps ?ts = [''A'', ''B'']" by code_simp
  ultimately show ?thesis by simp
qed

end
