(* ===== verification/Subscriptions.thy ===== *)
theory Subscriptions
  imports StoreRun
begin

section \<open>Subscriptions to a task (schemas/subscription.ts, store/subscription-store.ts)\<close>

text \<open>
  The file \<open>subscriptions.json\<close> in the companion directory of a task, which follows the task when its
  status changes. Every operation looks the task up, reads the file, and writes it back whole. Shown: on
  a tidy store each operation changes the entry it names and no other, no task and no other directory;
  the contract of the store as a locale, with the file as its interpretation.
\<close>

subsection \<open>The file\<close>

text \<open>The resolver of all callers: \<open>join(tasksDir, task.status, id)\<close> of the current version of the task.\<close>

definition taskDirResolver :: "string \<Rightarrow> task_path m" where
  "taskDirResolver i = bind (get_task i) (\<lambda>t. case t of
     None \<Rightarrow> throw (OtherError (''Task not found: '' @ i)) | Some t \<Rightarrow> ret (taskPath i (fm_status (t_fm t))))"

definition subs_at :: "world \<Rightarrow> task_path \<Rightarrow> subscription list" where
  "subs_at w d = (case map_of (w_dirs w) d of None \<Rightarrow> [] | Some c \<Rightarrow> or_else (co_subs c) [])"

definition readSubscriptionsFile :: "task_path \<Rightarrow> subscription list m" where
  "readSubscriptionsFile d = gets (\<lambda>w. subs_at w d)"

definition put_subs :: "task_path \<Rightarrow> subscription list \<Rightarrow> world \<Rightarrow> world" where
  "put_subs d subs w =
     w\<lparr>w_dirs := AList.update d ((or_else (map_of (w_dirs w) d) empty_companion)\<lparr>co_subs := Some subs\<rparr>) (w_dirs w)\<rparr>"

definition writeSubscriptionsFile :: "task_path \<Rightarrow> subscription list \<Rightarrow> unit m" where
  "writeSubscriptionsFile d subs = modify (put_subs d subs)"

subsection \<open>The operations\<close>

definition new_subscription ::
  "string \<Rightarrow> string \<Rightarrow> sub_granularity \<Rightarrow> sub_delivery option \<Rightarrow> int \<Rightarrow> subscription" where
  "new_subscription uuid subscriberId granularity delivery ts =
     \<lparr>sb_id = uuid, sb_subscriberId = subscriberId, sb_granularity = granularity, sb_delivery = delivery,
      sb_status = SubActive, sb_createdAt = ts, sb_updatedAt = ts, sb_deliveredAt = None, sb_failureReason = None,
      sb_deliveryAttempts = 0, sb_lastAttemptAt = None, sb_lastDeliveredAt = None, sb_notifiedStatuses = [], sb_attempts = []\<rparr>"

text \<open>\<open>mkdir(taskDir, { recursive: true })\<close> is part of the write, which creates a missing directory.\<close>

definition create_sub :: "string \<Rightarrow> string \<Rightarrow> string \<Rightarrow> sub_granularity \<Rightarrow> sub_delivery option \<Rightarrow> subscription m" where
  "create_sub uuid i subscriberId granularity delivery = bind (taskDirResolver i) (\<lambda>d.
     bind (readSubscriptionsFile d) (\<lambda>subs. bind now (\<lambda>ts.
       let s = new_subscription uuid subscriberId granularity delivery ts
       in andThen (writeSubscriptionsFile d (subs @ [s])) (ret s))))"

definition get_sub :: "string \<Rightarrow> string \<Rightarrow> subscription option m" where
  "get_sub i sid = bind (taskDirResolver i) (\<lambda>d. bind (readSubscriptionsFile d) (\<lambda>subs.
     ret (find (\<lambda>s. sb_id s = sid) subs)))"

definition list_subs :: "string \<Rightarrow> sub_status option \<Rightarrow> subscription list m" where
  "list_subs i status = bind (taskDirResolver i) (\<lambda>d. bind (readSubscriptionsFile d) (\<lambda>subs.
     ret (case status of None \<Rightarrow> subs | Some st \<Rightarrow> filter (\<lambda>s. sb_status s = st) subs)))"

text \<open>\<open>data.subscriptions[index] = updated\<close> with \<open>index = findIndex(s => s.id === id)\<close>.\<close>

fun replace_sub :: "string \<Rightarrow> (subscription \<Rightarrow> subscription) \<Rightarrow> subscription list \<Rightarrow> subscription list" where
  "replace_sub sid f [] = []"
| "replace_sub sid f (s # subs) = (if sb_id s = sid then f s # subs else s # replace_sub sid f subs)"

text \<open>The common part of \<open>update\<close>, \<open>cancel\<close>, \<open>markStatusNotified\<close> and \<open>appendAttempt\<close>: \<open>f\<close> gives the new
  entry, or none when nothing is written.\<close>

definition change_sub :: "string \<Rightarrow> string \<Rightarrow> (int \<Rightarrow> subscription \<Rightarrow> subscription option) \<Rightarrow> subscription option m" where
  "change_sub i sid f = bind (taskDirResolver i) (\<lambda>d. bind (readSubscriptionsFile d) (\<lambda>subs. bind now (\<lambda>ts.
     case find (\<lambda>s. sb_id s = sid) subs of
       None \<Rightarrow> ret None
     | Some s \<Rightarrow> (case f ts s of
         None \<Rightarrow> ret (Some s)
       | Some s' \<Rightarrow> andThen (writeSubscriptionsFile d (replace_sub sid (\<lambda>_. s') subs)) (ret (Some s'))))))"

definition sub_missing :: "string \<Rightarrow> string \<Rightarrow> error" where
  "sub_missing i sid = OtherError (''Subscription '' @ sid @ '' not found for task '' @ i)"

record sub_fields =
  sf_status :: "sub_status option"
  sf_deliveredAt :: "int option"
  sf_failureReason :: "string option"
  sf_deliveryAttempts :: "nat option"
  sf_lastAttemptAt :: "int option"
  sf_lastDeliveredAt :: "int option"
  sf_notifiedStatuses :: "string list option"

definition no_fields :: sub_fields where
  "no_fields = \<lparr>sf_status = None, sf_deliveredAt = None, sf_failureReason = None, sf_deliveryAttempts = None,
     sf_lastAttemptAt = None, sf_lastDeliveredAt = None, sf_notifiedStatuses = None\<rparr>"

definition given :: "'a option \<Rightarrow> 'a option \<Rightarrow> 'a option" where
  "given new old = (case new of None \<Rightarrow> old | Some v \<Rightarrow> Some v)"

definition with_fields :: "sub_fields \<Rightarrow> int \<Rightarrow> subscription \<Rightarrow> subscription" where
  "with_fields f ts s =
     s\<lparr>sb_status := or_else (sf_status f) (sb_status s), sb_deliveredAt := given (sf_deliveredAt f) (sb_deliveredAt s),
       sb_failureReason := given (sf_failureReason f) (sb_failureReason s),
       sb_deliveryAttempts := or_else (sf_deliveryAttempts f) (sb_deliveryAttempts s),
       sb_lastAttemptAt := given (sf_lastAttemptAt f) (sb_lastAttemptAt s),
       sb_lastDeliveredAt := given (sf_lastDeliveredAt f) (sb_lastDeliveredAt s),
       sb_notifiedStatuses := or_else (sf_notifiedStatuses f) (sb_notifiedStatuses s), sb_updatedAt := ts\<rparr>"

definition update_sub :: "string \<Rightarrow> string \<Rightarrow> sub_fields \<Rightarrow> subscription m" where
  "update_sub i sid upd = bind (change_sub i sid (\<lambda>ts s. Some (with_fields upd ts s))) (from_option (sub_missing i sid))"

definition cancel_sub :: "string \<Rightarrow> string \<Rightarrow> subscription m" where
  "cancel_sub i sid =
     bind (change_sub i sid (\<lambda>ts s. Some (s\<lparr>sb_status := SubCancelled, sb_updatedAt := ts\<rparr>))) (from_option (sub_missing i sid))"

definition markStatusNotified :: "string \<Rightarrow> string \<Rightarrow> string \<Rightarrow> subscription option m" where
  "markStatusNotified i sid status = change_sub i sid (\<lambda>ts s.
     if status \<in> set (sb_notifiedStatuses s) then None
     else Some (s\<lparr>sb_notifiedStatuses := sb_notifiedStatuses s @ [status], sb_updatedAt := ts\<rparr>))"

definition with_attempt :: "sub_attempt \<Rightarrow> int \<Rightarrow> subscription \<Rightarrow> subscription" where
  "with_attempt a ts s =
     s\<lparr>sb_attempts := sb_attempts s @ [a], sb_deliveryAttempts := length (sb_attempts s @ [a]),
       sb_lastAttemptAt := Some (sa_attemptedAt a),
       sb_failureReason := (if sa_success a then None
                            else Some (case sa_error a of None \<Rightarrow> ''delivery failed'' | Some (kind, message) \<Rightarrow> message)),
       sb_updatedAt := ts\<rparr>"

definition appendAttempt :: "string \<Rightarrow> string \<Rightarrow> sub_attempt \<Rightarrow> subscription option m" where
  "appendAttempt i sid a = change_sub i sid (\<lambda>ts s. Some (with_attempt a ts s))"

definition resolveDeliveryKind :: "subscription \<Rightarrow> string" where
  "resolveDeliveryKind s = (case sb_delivery s of None \<Rightarrow> ''agent-callback'' | Some d \<Rightarrow> sd_kind d)"

subsection \<open>The entries of a task\<close>

definition subs_of :: "world \<Rightarrow> string \<Rightarrow> subscription list" where
  "subs_of w i = (case abs_store w i of None \<Rightarrow> [] | Some fb \<Rightarrow> subs_at w (taskPath i (fm_status (fst fb))))"

definition put_of :: "string \<Rightarrow> subscription list \<Rightarrow> world \<Rightarrow> world" where
  "put_of i subs w = (case abs_store w i of None \<Rightarrow> w | Some fb \<Rightarrow> put_subs (taskPath i (fm_status (fst fb))) subs w)"

definition sub_home :: "world \<Rightarrow> string \<Rightarrow> bool" where
  "sub_home w i \<longleftrightarrow> tidy w \<and> abs_store w i \<noteq> None"

text \<open>What the delivery of notifications relies on: a task has one list of subscriptions, a write replaces it
  and keeps those of the other tasks.\<close>

locale subscription_file =
  fixes home :: "'w \<Rightarrow> string \<Rightarrow> bool" and subs :: "'w \<Rightarrow> string \<Rightarrow> subscription list"
    and put :: "string \<Rightarrow> subscription list \<Rightarrow> 'w \<Rightarrow> 'w"
  assumes home_put: "home w i \<Longrightarrow> home w j \<Longrightarrow> home (put i xs w) j"
    and subs_put: "home w i \<Longrightarrow> subs (put i xs w) j = (if j = i then xs else subs w j)"
begin

lemma read_back: "home w i \<Longrightarrow> subs (put i xs w) i = xs"
  by (simp add: subs_put)

lemma others_kept: "home w i \<Longrightarrow> j \<noteq> i \<Longrightarrow> subs (put i xs w) j = subs w j"
  by (simp add: subs_put)

lemma last_write: "home w i \<Longrightarrow> subs (put i ys (put i xs w)) j = subs (put i ys w) j"
  using home_put [of w i i xs] by (simp add: subs_put)

lemma writes_commute:
  "home w i \<Longrightarrow> home w j \<Longrightarrow> i \<noteq> j \<Longrightarrow> subs (put j ys (put i xs w)) k = subs (put i xs (put j ys w)) k"
  using home_put [of w i j xs] home_put [of w j i ys] by (simp add: subs_put)

end

lemma put_subs_frame [simp]:
  "w_files (put_subs d subs w) = w_files w" "w_now (put_subs d subs w) = w_now w" "abs_store (put_subs d subs w) = abs_store w"
  "w_events (put_subs d subs w) = w_events w"
proof -
  show "abs_store (put_subs d subs w) = abs_store w" by (rule files_frame(1)) (simp add: put_subs_def)
qed (simp_all add: put_subs_def)

lemma put_subs_tidy:
  "tidy w \<Longrightarrow> abs_store w i = Some fb \<Longrightarrow> tidy (put_subs (taskPath i (fm_status (fst fb))) subs w)"
proof -
  assume "tidy w" "abs_store w i = Some fb"
  moreover have "consistent (put_subs d subs w) = consistent w" for d by (rule files_frame(2)) simp
  ultimately show ?thesis
    by (cases fb) (auto simp: tidy_def dirs_follow_def put_subs_frame(3), auto simp: put_subs_def update_conv' taskPath_def split: if_splits)
qed

lemma subs_at_put: "subs_at (put_subs d subs w) e = (if e = d then subs else subs_at w e)"
  by (auto simp: subs_at_def put_subs_def update_conv' or_else_def)

interpretation sf: subscription_file sub_home subs_of put_of
proof
  fix w i j xs
  assume home: "sub_home w i"
  then obtain fb where fb: "tidy w" "abs_store w i = Some fb" by (auto simp: sub_home_def)
  show "sub_home w j \<Longrightarrow> sub_home (put_of i xs w) j"
    using put_subs_tidy [OF fb] fb(2) by (simp add: sub_home_def put_of_def)
  show "subs_of (put_of i xs w) j = (if j = i then xs else subs_of w j)"
    using fb by (auto simp: subs_of_def put_of_def subs_at_put taskPath_def split: option.split)
qed

subsection \<open>The operations on a tidy store\<close>

text \<open>\<open>resubs w i subs w'\<close>: from \<open>w\<close> to \<open>w'\<close> the subscriptions of task \<open>i\<close> became \<open>subs\<close>, and no task, no clock, no
  event and no other task's subscriptions changed.\<close>

definition resubs :: "world \<Rightarrow> string \<Rightarrow> subscription list \<Rightarrow> world \<Rightarrow> bool" where
  "resubs w i subs w' \<longleftrightarrow> tidy w' \<and> w_now w' = w_now w \<and> w_events w' = w_events w \<and> abs_store w' = abs_store w \<and>
     subs_of w' i = subs \<and> (\<forall>j. j \<noteq> i \<longrightarrow> subs_of w' j = subs_of w j)"

lemma resubs_trans: "resubs w i xs w1 \<Longrightarrow> resubs w1 i ys w2 \<Longrightarrow> resubs w i ys w2"
  by (simp add: resubs_def)

lemma subs_frame_eq: "w_files w' = w_files w \<Longrightarrow> w_dirs w' = w_dirs w \<Longrightarrow> subs_of w' = subs_of w"
  using files_frame(1) [of w' w] by (intro ext) (simp add: subs_of_def subs_at_def split: option.split)

lemma subs_of_frame [simp]:
  "subs_of (w\<lparr>w_events := e\<rparr>) = subs_of w" "subs_of (w\<lparr>w_murmur := u\<rparr>) = subs_of w" "subs_of (w\<lparr>w_runs := r\<rparr>) = subs_of w"
  by (rule subs_frame_eq; simp)+

lemma resubs_put:
  assumes "tidy w" "abs_store w i = Some fb"
  shows "resubs w i subs (put_subs (taskPath i (fm_status (fst fb))) subs w)"
proof -
  have home: "sub_home w i" using assms by (simp add: sub_home_def)
  have put: "put_subs (taskPath i (fm_status (fst fb))) subs w = put_of i subs w" using assms by (simp add: put_of_def)
  show ?thesis
    using put_subs_tidy [OF assms] sf.read_back [OF home] sf.others_kept [OF home] unfolding resubs_def put
    by (simp add: put_of_def assms(2))
qed

lemma resolver_run:
  assumes "tidy w" "abs_store w i = Some fb"
  shows "taskDirResolver i w = (Inr (taskPath i (fm_status (fst fb))), w)"
  using assms by (simp add: taskDirResolver_def bind_def get_run run_simps loaded_def)

lemma subs_of_at: "abs_store w i = Some fb \<Longrightarrow> subs_at w (taskPath i (fm_status (fst fb))) = subs_of w i"
  by (simp add: subs_of_def)

lemma list_subs_run:
  assumes "tidy w" "abs_store w i = Some fb"
  shows "list_subs i status w = (Inr (case status of None \<Rightarrow> subs_of w i | Some st \<Rightarrow> filter (\<lambda>s. sb_status s = st) (subs_of w i)), w)"
  by (simp add: list_subs_def bind_run(1) [of "taskDirResolver i", OF resolver_run [OF assms]] readSubscriptionsFile_def
      subs_of_at [OF assms(2)] run_simps split: option.split)

lemma find_sub_in: "distinct (map sb_id subs) \<Longrightarrow> s \<in> set subs \<Longrightarrow> find (\<lambda>x. sb_id x = sb_id s) subs = Some s"
  by (induction subs) (auto simp: image_iff)

lemma replace_sub_map:
  "distinct (map sb_id subs) \<Longrightarrow> s \<in> set subs \<Longrightarrow>
    replace_sub (sb_id s) (\<lambda>_. s') subs = map (\<lambda>x. if sb_id x = sb_id s then s' else x) subs"
  by (induction subs) (auto simp: image_iff intro!: map_idI [symmetric])

text \<open>One entry replaced.\<close>

definition set_sub :: "subscription \<Rightarrow> subscription list \<Rightarrow> subscription list" where
  "set_sub s' subs = map (\<lambda>x. if sb_id x = sb_id s' then s' else x) subs"

lemma yields_change_sub:
  assumes "tidy w" "abs_store w i = Some fb" "distinct (map sb_id (subs_of w i))" "s \<in> set (subs_of w i)"
    and "f (w_now w) s = Some s'" "sb_id s' = sb_id s" "\<And>w'. resubs w i (set_sub s' (subs_of w i)) w' \<Longrightarrow> Q (Some s') w'"
  shows "yields (change_sub i (sb_id s) f) w Q"
  unfolding change_sub_def yields_bind yields_run [of "taskDirResolver i", OF resolver_run [OF assms(1,2)]]
  using assms(7) [unfolded set_sub_def, OF resubs_put [OF assms(1,2)]]
  by (simp add: yields_simps readSubscriptionsFile_def writeSubscriptionsFile_def subs_of_at [OF assms(2)]
      find_sub_in [OF assms(3,4)] assms(5,6) replace_sub_map [OF assms(3,4)])

lemma with_fields_id [simp]: "sb_id (with_fields f ts s) = sb_id s"
  by (simp add: with_fields_def)

lemma yields_update_sub:
  assumes "tidy w" "abs_store w i = Some fb" "distinct (map sb_id (subs_of w i))" "s \<in> set (subs_of w i)"
    and "\<And>w'. resubs w i (set_sub (with_fields f (w_now w) s) (subs_of w i)) w' \<Longrightarrow> Q (with_fields f (w_now w) s) w'"
  shows "yields (update_sub i (sb_id s) f) w Q"
  unfolding update_sub_def yields_bind
  by (rule yields_change_sub [OF assms(1-4), where s' = "with_fields f (w_now w) s"])
    (simp_all add: from_option_def yields_simps assms(5))

text \<open>The aggregate fields agree with the audit trail whenever attempts are recorded by \<open>appendAttempt\<close>, the
  ledger of statuses has no duplicates, and the last recorded failure is shown.\<close>

definition trail_ok :: "subscription \<Rightarrow> bool" where
  "trail_ok s \<longleftrightarrow> sb_deliveryAttempts s = length (sb_attempts s) \<and> distinct (sb_notifiedStatuses s) \<and>
     (sb_attempts s \<noteq> [] \<longrightarrow> sb_lastAttemptAt s = Some (sa_attemptedAt (last (sb_attempts s))) \<and>
        (sb_failureReason s = None \<longleftrightarrow> sa_success (last (sb_attempts s))))"

lemma trail_new: "trail_ok (new_subscription u a g d ts)"
  by (simp add: trail_ok_def new_subscription_def)

lemma trail_attempt: "trail_ok s \<Longrightarrow> trail_ok (with_attempt a ts s)"
  by (simp add: trail_ok_def with_attempt_def split: option.split)

end
