(* ===== verification/CallbackDelivery.thy ===== *)
theory CallbackDelivery
  imports Subscriptions AssignExecutor
begin

section \<open>Notifying subscribers (dispatch/callback-delivery.ts, tools/subscription-tools.ts)\<close>

text \<open>
  When a task reaches a terminal status, or on every change of status, an agent session is spawned for
  each subscriber; polls retry what was not delivered. The spawn of the gateway adapter is a parameter;
  the environment variable set around it and the capture of traces, which only write elsewhere, are left
  out. Timestamps are rendered by \<open>ce_iso\<close>.
\<close>

definition terminal_status :: "task_status \<Rightarrow> bool" where
  "terminal_status s = (s = Done \<or> s = Cancelled \<or> s = Deadletter)"

definition CALLBACK_TIMEOUT_MS :: int where "CALLBACK_TIMEOUT_MS = 120000"
definition MAX_DELIVERY_ATTEMPTS :: nat where "MAX_DELIVERY_ATTEMPTS = 3"
definition MIN_RETRY_INTERVAL_MS :: int where "MIN_RETRY_INTERVAL_MS = 30000"
definition MAX_CALLBACK_DEPTH :: nat where "MAX_CALLBACK_DEPTH = 3"

record callback_context =
  cb_taskId :: string
  cb_agent :: string
  cb_contents :: string
  cb_callbackDepth :: nat

record callback_env =
  ce_spawn :: "callback_context \<Rightarrow> int \<Rightarrow> string \<Rightarrow> spawn_result m"
  ce_uuid :: "string \<Rightarrow> string"
  ce_iso :: "int \<Rightarrow> string"
  ce_message :: "error \<Rightarrow> string"
  ce_tracePath :: "string option"

subsection \<open>The prompt\<close>

text \<open>The text before and after the first occurrence of \<open>p\<close>.\<close>

fun cut_at :: "string \<Rightarrow> string \<Rightarrow> (string \<times> string) option" where
  "cut_at p [] = (if p = [] then Some ([], []) else None)"
| "cut_at p (c # cs) = (if str_prefix p (c # cs) then Some ([], drop (length p) (c # cs))
     else map_option (\<lambda>(a, b). (c # a, b)) (cut_at p cs))"

definition extractOutputsSection :: "string \<Rightarrow> string option" where
  "extractOutputsSection body = (case cut_at ''## Outputs'' body of
     None \<Rightarrow> None
   | Some (_, rest) \<Rightarrow>
       (let section_text = (case cut_at (CHR 0x0A # ''## '') rest of None \<Rightarrow> rest | Some (a, _) \<Rightarrow> a);
            trimmed = js_trim section_text
        in if trimmed = [] then None else Some trimmed))"

record transition_record =
  tr_fromStatus :: string
  tr_toStatus :: string
  tr_timestamp :: int

definition transition_lines :: "callback_env \<Rightarrow> transition_record list \<Rightarrow> string list" where
  "transition_lines env trs = (if trs = [] then [] else ['''', ''## Transitions'', ''''] @
     map (\<lambda>t. ''- '' @ tr_fromStatus t @ '' -> '' @ tr_toStatus t @ '' at '' @ ce_iso env (tr_timestamp t)) trs)"

definition buildCallbackPrompt :: "callback_env \<Rightarrow> task \<Rightarrow> subscription \<Rightarrow> transition_record list \<Rightarrow> string" where
  "buildCallbackPrompt env t sub trs = join_with [CHR 0x0A]
     ([''You are receiving a task notification callback.'', '''', ''Task ID: '' @ fm_id (t_fm t), ''Title: '' @ fm_title (t_fm t),
       ''Final Status: '' @ status_str (fm_status (t_fm t)), ''Subscriber: '' @ sb_subscriberId sub] @
      (if truthy_str (ce_tracePath env) then [''Trace: '' @ the (ce_tracePath env)] else []) @
      transition_lines env trs @
      (case extractOutputsSection (t_body t) of None \<Rightarrow> [] | Some outputs \<Rightarrow> ['''', ''## Outputs'', '''', outputs]))"

definition callback_context_of :: "callback_env \<Rightarrow> task \<Rightarrow> subscription \<Rightarrow> transition_record list \<Rightarrow> callback_context" where
  "callback_context_of env t sub trs =
     \<lparr>cb_taskId = fm_id (t_fm t), cb_agent = sb_subscriberId sub, cb_contents = buildCallbackPrompt env t sub trs,
      cb_callbackDepth = or_else (fm_callbackDepth (t_fm t)) 0 + 1\<rparr>"

definition spawn_callback :: "callback_env \<Rightarrow> task \<Rightarrow> subscription \<Rightarrow> transition_record list \<Rightarrow> spawn_result m" where
  "spawn_callback env t sub trs = ce_spawn env (callback_context_of env t sub trs) CALLBACK_TIMEOUT_MS (ce_uuid env (sb_id sub))"

subsection \<open>One delivery\<close>

definition failure_fields :: "nat \<Rightarrow> string \<Rightarrow> int \<Rightarrow> sub_fields" where
  "failure_fields newAttempts message ts =
     (if newAttempts \<ge> MAX_DELIVERY_ATTEMPTS then
        no_fields\<lparr>sf_status := Some SubFailed,
          sf_failureReason := Some (''Delivery failed after '' @ string_of_nat newAttempts @ '' attempts: '' @ message),
          sf_deliveryAttempts := Some newAttempts, sf_lastAttemptAt := Some ts\<rparr>
      else no_fields\<lparr>sf_deliveryAttempts := Some newAttempts, sf_lastAttemptAt := Some ts\<rparr>)"

definition handleDeliveryFailure :: "string \<Rightarrow> subscription \<Rightarrow> string \<Rightarrow> unit m" where
  "handleDeliveryFailure i sub message = bind now (\<lambda>ts.
     let newAttempts = sb_deliveryAttempts sub + 1 in
     bind (update_sub i (sb_id sub) (failure_fields newAttempts message ts)) (\<lambda>_.
       when_m (newAttempts \<ge> MAX_DELIVERY_ATTEMPTS)
         (log_event ''subscription.delivery_failed'' ''callback-delivery'' (Some i)
            [(''subscriptionId'', JStr (sb_id sub)), (''attempts'', JNum (of_nat newAttempts))])))"

text \<open>\<open>result.error || "spawn failed"\<close>\<close>

definition spawn_error :: "spawn_result \<Rightarrow> string" where
  "spawn_error r = (if truthy_str (sr_error r) then the (sr_error r) else ''spawn failed'')"

definition delivered_fields :: "int \<Rightarrow> sub_fields" where
  "delivered_fields ts = no_fields\<lparr>sf_status := Some SubDelivered, sf_deliveredAt := Some ts\<rparr>"

definition deliverSingleCallback :: "callback_env \<Rightarrow> task \<Rightarrow> subscription \<Rightarrow> unit m" where
  "deliverSingleCallback env t sub =
     (let i = fm_id (t_fm t) in
      catch
        (bind (spawn_callback env t sub []) (\<lambda>r.
           if sr_success r then bind now (\<lambda>ts. bind (update_sub i (sb_id sub) (delivered_fields ts)) (\<lambda>_.
             log_event ''subscription.delivered'' ''callback-delivery'' (Some i) [(''subscriptionId'', JStr (sb_id sub))]))
           else handleDeliveryFailure i sub (spawn_error r)))
        (\<lambda>e. handleDeliveryFailure i sub (ce_message env e)))"

text \<open>The end of the callback session, a later event.\<close>

definition callback_run_complete :: "hooks \<Rightarrow> string \<Rightarrow> subscription \<Rightarrow> bool \<Rightarrow> run_outcome \<Rightarrow> unit m" where
  "callback_run_complete hk i sub debug outcome =
     andThen (best_effort (hk_captureTrace hk i (ro_sessionId outcome) (sb_subscriberId sub) (ro_durationMs outcome) debug))
       (log_event ''subscription.delivery_attempted'' ''callback-delivery'' (Some i)
          [(''subscriptionId'', JStr (sb_id sub)), (''success'', JBool (ro_success outcome))])"

subsection \<open>Transitions since the last delivery\<close>

definition payload_str :: "event \<Rightarrow> string \<Rightarrow> string" where
  "payload_str e k = (case map_of (ev_payload e) k of Some (JStr s) \<Rightarrow> s | _ \<Rightarrow> [])"

definition transition_events :: "string \<Rightarrow> world \<Rightarrow> event list" where
  "transition_events i w = filter (\<lambda>e. ev_type e = ''task.transitioned'' \<and> ev_taskId e = Some i) (w_events w)"

definition new_transitions :: "int option \<Rightarrow> event list \<Rightarrow> transition_record list" where
  "new_transitions cursor events =
     map (\<lambda>e. \<lparr>tr_fromStatus = payload_str e ''from'', tr_toStatus = payload_str e ''to'', tr_timestamp = ev_timestamp e\<rparr>)
       (sort_key ev_timestamp (filter (\<lambda>e. ev_timestamp e > or_else cursor 0) events))"

definition deliverAllGranularityForSub :: "callback_env \<Rightarrow> task \<Rightarrow> subscription \<Rightarrow> unit m" where
  "deliverAllGranularityForSub env t sub =
     (let i = fm_id (t_fm t) in
      bind (gets (transition_events i)) (\<lambda>events.
        let trs = new_transitions (sb_lastDeliveredAt sub) events in
        if trs = [] then ret ()
        else bind (spawn_callback env t sub trs) (\<lambda>r.
          if sr_success r then bind now (\<lambda>ts.
            bind (update_sub i (sb_id sub) ((delivered_fields ts)\<lparr>sf_lastDeliveredAt := Some (tr_timestamp (last trs))\<rparr>)) (\<lambda>_. ret ()))
          else handleDeliveryFailure i sub (spawn_error r))))"

text \<open>The regular delivery to a subscriber of all transitions: it stays active, its cursor moves.\<close>

definition deliver_transitions :: "callback_env \<Rightarrow> string \<Rightarrow> task \<Rightarrow> subscription \<Rightarrow> unit m" where
  "deliver_transitions env i t sub =
     bind (gets (transition_events i)) (\<lambda>events.
       let trs = new_transitions (sb_lastDeliveredAt sub) events in
       if trs = [] then ret ()
       else bind (spawn_callback env t sub trs) (\<lambda>r.
         if sr_success r then
           bind (update_sub i (sb_id sub) (no_fields\<lparr>sf_lastDeliveredAt := Some (tr_timestamp (last trs))\<rparr>)) (\<lambda>_. ret ())
         else ret ()))"

subsection \<open>The three entry points\<close>

definition log_depth :: "string \<Rightarrow> nat \<Rightarrow> unit m" where
  "log_depth i depth = log_event ''subscription.depth_exceeded'' ''callback-delivery'' (Some i)
     [(''depth'', JNum (of_nat depth)), (''maxDepth'', JNum (of_nat MAX_CALLBACK_DEPTH))]"

definition callback_for :: "sub_granularity \<Rightarrow> subscription \<Rightarrow> bool" where
  "callback_for g s = (sb_granularity s = g \<and> resolveDeliveryKind s = ''agent-callback'')"

definition deliverCallbacks :: "callback_env \<Rightarrow> string \<Rightarrow> unit m" where
  "deliverCallbacks env i = bind (get_task i) (\<lambda>t. case t of
     None \<Rightarrow> ret ()
   | Some task \<Rightarrow>
       if \<not> terminal_status (fm_status (t_fm task)) then ret ()
       else (let depth = or_else (fm_callbackDepth (t_fm task)) 0 in
         if depth \<ge> MAX_CALLBACK_DEPTH then log_depth i depth
         else bind (list_subs i (Some SubActive)) (\<lambda>activeSubs.
           fold_m (\<lambda>sub u. best_effort (deliverSingleCallback env task sub)) (filter (callback_for OnCompletion) activeSubs) ())))"

definition deliverAllGranularityCallbacks :: "callback_env \<Rightarrow> string \<Rightarrow> unit m" where
  "deliverAllGranularityCallbacks env i = bind (get_task i) (\<lambda>t. case t of
     None \<Rightarrow> ret ()
   | Some task \<Rightarrow>
       (let depth = or_else (fm_callbackDepth (t_fm task)) 0 in
         if depth \<ge> MAX_CALLBACK_DEPTH then log_depth i depth
         else bind (list_subs i (Some SubActive)) (\<lambda>activeSubs.
           fold_m (\<lambda>sub u. best_effort (deliver_transitions env i task sub)) (filter (callback_for OnAll) activeSubs) ())))"

definition granularity_str :: "sub_granularity \<Rightarrow> string" where
  "granularity_str g = (case g of OnCompletion \<Rightarrow> ''completion'' | OnAll \<Rightarrow> ''all'')"

definition retry_candidate :: "subscription \<Rightarrow> bool" where
  "retry_candidate s = (sb_deliveryAttempts s < MAX_DELIVERY_ATTEMPTS \<and> resolveDeliveryKind s = ''agent-callback'')"

definition too_recent :: "int \<Rightarrow> subscription \<Rightarrow> bool" where
  "too_recent ts s = (case sb_lastAttemptAt s of None \<Rightarrow> False | Some a \<Rightarrow> ts - a < MIN_RETRY_INTERVAL_MS)"

definition retry_sub :: "callback_env \<Rightarrow> string \<Rightarrow> task \<Rightarrow> int \<Rightarrow> subscription \<Rightarrow> unit m" where
  "retry_sub env i t ts sub =
     (if too_recent ts sub then ret ()
      else best_effort (andThen
        (when_m (sb_deliveryAttempts sub = 0)
           (log_event ''subscription.recovery_attempted'' ''callback-delivery'' (Some i)
              [(''subscriptionId'', JStr (sb_id sub)), (''granularity'', JStr (granularity_str (sb_granularity sub)))]))
        (if sb_granularity sub = OnAll then deliverAllGranularityForSub env t sub else deliverSingleCallback env t sub)))"

definition retryPendingDeliveries :: "callback_env \<Rightarrow> string \<Rightarrow> unit m" where
  "retryPendingDeliveries env i = bind (get_task i) (\<lambda>t. case t of
     None \<Rightarrow> ret ()
   | Some task \<Rightarrow>
       if \<not> terminal_status (fm_status (t_fm task)) then ret ()
       else bind (list_subs i (Some SubActive)) (\<lambda>activeSubs. bind now (\<lambda>ts.
         fold_m (\<lambda>sub u. retry_sub env i task ts sub) (filter retry_candidate activeSubs) ())))"

subsection \<open>Subscribing (tools/subscription-tools.ts)\<close>

definition resolveTask :: "string \<Rightarrow> task m" where
  "resolveTask i = bind (get_task i) (\<lambda>t. case t of
     Some task \<Rightarrow> ret task
   | None \<Rightarrow> bind (getByPrefix i) (\<lambda>p. from_option (OtherError (''Task not found: '' @ i)) p))"

text \<open>The org chart: no path configured, a chart that cannot be loaded, or its agents.\<close>

datatype org_agents = NoChart | ChartUnreadable | ChartAgents "string list"

definition validateSubscriberAgent :: "org_agents \<Rightarrow> string \<Rightarrow> unit m" where
  "validateSubscriberAgent chart subscriberId = (case chart of
     NoChart \<Rightarrow> ret ()
   | ChartUnreadable \<Rightarrow> throw (OtherError ''Failed to load org chart for subscriber validation'')
   | ChartAgents agents \<Rightarrow> if subscriberId \<in> set agents then ret ()
       else throw (OtherError (''subscriberId \"'' @ subscriberId @ ''\" not found in org chart. Available agents: '' @
         join_with '', '' agents)))"

record subscribe_answer =
  sn_subscriptionId :: string
  sn_taskId :: string
  sn_granularity :: sub_granularity
  sn_status :: sub_status
  sn_taskStatus :: task_status
  sn_createdAt :: int

definition subscribe_answer_of :: "task \<Rightarrow> subscription \<Rightarrow> subscribe_answer" where
  "subscribe_answer_of t s =
     \<lparr>sn_subscriptionId = sb_id s, sn_taskId = fm_id (t_fm t), sn_granularity = sb_granularity s, sn_status = sb_status s,
      sn_taskStatus = fm_status (t_fm t), sn_createdAt = sb_createdAt s\<rparr>"

definition aofTaskSubscribe :: "org_agents \<Rightarrow> string \<Rightarrow> string \<Rightarrow> string \<Rightarrow> sub_granularity \<Rightarrow> subscribe_answer m" where
  "aofTaskSubscribe chart uuid i subscriberId granularity = bind (resolveTask i) (\<lambda>task.
     andThen (validateSubscriberAgent chart subscriberId)
       (bind (list_subs (fm_id (t_fm task)) (Some SubActive)) (\<lambda>existing.
          case find (\<lambda>s. sb_subscriberId s = subscriberId \<and> sb_granularity s = granularity) existing of
            Some duplicate \<Rightarrow> ret (subscribe_answer_of task duplicate)
          | None \<Rightarrow> bind (create_sub uuid (fm_id (t_fm task)) subscriberId granularity None) (\<lambda>s.
              ret (subscribe_answer_of task s)))))"

definition aofTaskUnsubscribe :: "string \<Rightarrow> string \<Rightarrow> subscription m" where
  "aofTaskUnsubscribe i sid = bind (resolveTask i) (\<lambda>task.
     catch (cancel_sub (fm_id (t_fm task)) sid) (\<lambda>e. throw (OtherError (''Subscription not found: '' @ sid))))"

end
