(* ===== verification/CallbackProps.thy ===== *)
theory CallbackProps
  imports CallbackDelivery
begin

section \<open>What the delivery of notifications does\<close>

text \<open>
  For an adapter that answers a spawn and at most adds to the event log: which subscriptions change and
  to what, for the delivery at a terminal status and for the retries of the polls; the attempts are
  bounded. The limit on the depth of callbacks binds the delivery but not the retry, and a subscriber of
  all transitions with nothing new to hear makes every poll log a recovery.
\<close>

definition calm_spawn :: "callback_env \<Rightarrow> (string \<Rightarrow> error + spawn_result) \<Rightarrow> bool" where
  "calm_spawn env answer \<longleftrightarrow> (\<forall>c t u w. \<exists>es. ce_spawn env c t u w = (answer (cb_agent c), w\<lparr>w_events := w_events w @ es\<rparr>) \<and>
     (\<forall>e \<in> set es. ev_type e \<noteq> ''task.transitioned''))"

text \<open>Like \<open>resubs\<close>, with events logged that are not transitions.\<close>

definition delivers :: "world \<Rightarrow> string \<Rightarrow> subscription list \<Rightarrow> world \<Rightarrow> bool" where
  "delivers w i subs w' \<longleftrightarrow> tidy w' \<and> w_now w' = w_now w \<and> abs_store w' = abs_store w \<and> subs_of w' i = subs \<and>
     (\<forall>j. j \<noteq> i \<longrightarrow> subs_of w' j = subs_of w j) \<and> (\<forall>j. transition_events j w' = transition_events j w)"

definition failed_once :: "string \<Rightarrow> int \<Rightarrow> subscription \<Rightarrow> subscription" where
  "failed_once message ts s = with_fields (failure_fields (sb_deliveryAttempts s + 1) message ts) ts s"

definition single_result :: "callback_env \<Rightarrow> (string \<Rightarrow> error + spawn_result) \<Rightarrow> int \<Rightarrow> subscription \<Rightarrow> subscription" where
  "single_result env answer ts s = (case answer (sb_subscriberId s) of
     Inl e \<Rightarrow> failed_once (ce_message env e) ts s
   | Inr r \<Rightarrow> if sr_success r then with_fields (delivered_fields ts) ts s else failed_once (spawn_error r) ts s)"

lemma delivers_trans: "delivers w i xs w1 \<Longrightarrow> delivers w1 i ys w2 \<Longrightarrow> delivers w i ys w2"
  by (simp add: delivers_def)

lemma deliversD:
  assumes "delivers w i xs w'"
  shows "tidy w'" "w_now w' = w_now w" "abs_store w' = abs_store w" "subs_of w' i = xs" "transition_events j w' = transition_events j w"
  using assms by (simp_all add: delivers_def)

lemma delivers_same: "tidy w \<Longrightarrow> delivers w i (subs_of w i) w"
  by (simp add: delivers_def)

lemma resubs_delivers: "resubs w i xs w' \<Longrightarrow> delivers w i xs w'"
  by (simp add: delivers_def resubs_def transition_events_def)

lemma delivers_log:
  assumes "delivers w i xs w1" "\<forall>e \<in> set es. ev_type e \<noteq> ''task.transitioned''"
  shows "delivers w i xs (w1\<lparr>w_events := w_events w1 @ es\<rparr>)"
  using assms by (auto simp: delivers_def transition_events_def filter_empty_conv)

lemma yields_note:
  assumes "ty \<noteq> ''task.transitioned''" "delivers w i xs w1" "\<And>w2. delivers w i xs w2 \<Longrightarrow> Q () w2"
  shows "yields (log_event ty a k p) w1 Q"
  unfolding log_event_def yields_pure by (rule assms(3), rule delivers_log [OF assms(2)]) (simp add: assms(1))

text \<open>The situation in which one entry \<open>s\<close> of the task is worked on: the list of subscriptions has unique ids
  and contains it.\<close>

definition entry_of :: "world \<Rightarrow> string \<Rightarrow> frontmatter \<times> string \<Rightarrow> subscription \<Rightarrow> bool" where
  "entry_of w i fb s \<longleftrightarrow> tidy w \<and> abs_store w i = Some fb \<and> distinct (map sb_id (subs_of w i)) \<and> s \<in> set (subs_of w i)"

lemma delivers_update:
  assumes "entry_of w i fb s"
    and "\<And>w'. delivers w i (set_sub (with_fields f (w_now w) s) (subs_of w i)) w' \<Longrightarrow> Q (with_fields f (w_now w) s) w'"
  shows "yields (update_sub i (sb_id s) f) w Q"
  using assms unfolding entry_of_def by (blast intro: yields_update_sub resubs_delivers)

lemma entry_kept: "delivers w i (subs_of w i) w' \<Longrightarrow> entry_of w i fb s \<Longrightarrow> entry_of w' i fb s"
  by (simp add: entry_of_def delivers_def)

lemma failure_yields:
  assumes "entry_of w i fb s" "\<And>w'. delivers w i (set_sub (failed_once message (w_now w) s) (subs_of w i)) w' \<Longrightarrow> Q () w'"
  shows "yields (handleDeliveryFailure i s message) w Q"
  unfolding handleDeliveryFailure_def yields_bind yields_pure Let_def
proof (rule delivers_update [OF assms(1)])
  fix w'
  assume w': "delivers w i (set_sub (with_fields (failure_fields (sb_deliveryAttempts s + 1) message (w_now w)) (w_now w) s) (subs_of w i)) w'"
  show "yields (when_m (MAX_DELIVERY_ATTEMPTS \<le> sb_deliveryAttempts s + 1)
      (log_event ''subscription.delivery_failed'' ''callback-delivery'' (Some i)
         [(''subscriptionId'', JStr (sb_id s)), (''attempts'', JNum (of_nat (sb_deliveryAttempts s + 1)))])) w' Q"
    unfolding yields_when using w' assms(2) yields_note [OF _ w', of "''subscription.delivery_failed''" Q]
    by (simp add: failed_once_def)
qed

lemma spawn_run:
  assumes "calm_spawn env answer" "tidy w"
  obtains w1 where "spawn_callback env t s trs w = (answer (sb_subscriberId s), w1)" "delivers w i (subs_of w i) w1"
proof -
  obtain es where es: "spawn_callback env t s trs w = (answer (sb_subscriberId s), w\<lparr>w_events := w_events w @ es\<rparr>)"
    "\<forall>e \<in> set es. ev_type e \<noteq> ''task.transitioned''"
    using assms(1) unfolding calm_spawn_def spawn_callback_def by (metis callback_context.select_convs(2) callback_context_of_def)
  show thesis by (rule that [OF es(1)]) (rule delivers_log [OF delivers_same [OF assms(2)] es(2)])
qed

lemma single_yields:
  assumes "calm_spawn env answer" "entry_of w i fb s" "fm_id (t_fm t) = i"
  shows "yields (deliverSingleCallback env t s) w (\<lambda>_. delivers w i (set_sub (single_result env answer (w_now w) s) (subs_of w i)))"
proof -
  obtain w1 where w1: "spawn_callback env t s [] w = (answer (sb_subscriberId s), w1)" "delivers w i (subs_of w i) w1"
    using spawn_run [OF assms(1)] assms(2) unfolding entry_of_def by metis
  have e1: "entry_of w1 i fb s" by (rule entry_kept [OF w1(2) assms(2)])
  have n1: "w_now w1 = w_now w" "subs_of w1 i = subs_of w i" using deliversD [OF w1(2)] by simp_all
  have fail: "yields (handleDeliveryFailure i s m) w1 (\<lambda>_. delivers w i (set_sub (failed_once m (w_now w) s) (subs_of w i)))" for m
    by (rule failure_yields [OF e1]) (use delivers_trans [OF w1(2)] n1 in auto)
  have good: "yields (bind now (\<lambda>ts. bind (update_sub i (sb_id s) (delivered_fields ts)) (\<lambda>_.
        log_event ''subscription.delivered'' ''callback-delivery'' (Some i) [(''subscriptionId'', JStr (sb_id s))]))) w1
      (\<lambda>_. delivers w i (set_sub (with_fields (delivered_fields (w_now w)) (w_now w) s) (subs_of w i)))"
    unfolding yields_bind yields_pure
    by (rule delivers_update [OF e1]) (use delivers_trans [OF w1(2)] n1 in \<open>auto intro: yields_note\<close>)
  show ?thesis
  proof (cases "answer (sb_subscriberId s)")
    case (Inl e)
    then have "deliverSingleCallback env t s w = handleDeliveryFailure i s (ce_message env e) w1"
      using w1(1) assms(3) by (simp add: deliverSingleCallback_def catch_def bind_def)
    then show ?thesis using fail [of "ce_message env e"] Inl by (simp add: yields_def single_result_def)
  next
    case (Inr r)
    then show ?thesis
      unfolding deliverSingleCallback_def assms(3) Let_def
      by (intro yields_catch)
        (use fail [of "spawn_error r"] good w1(1) in
          \<open>auto simp: yields_bind yields_run [of "spawn_callback env t s []" w] single_result_def simp del: bind_simps\<close>)
  qed
qed

definition batch_result ::
  "callback_env \<Rightarrow> (string \<Rightarrow> error + spawn_result) \<Rightarrow> int \<Rightarrow> event list \<Rightarrow> subscription \<Rightarrow> subscription" where
  "batch_result env answer ts events s =
     (let trs = new_transitions (sb_lastDeliveredAt s) events in
      if trs = [] then s
      else (case answer (sb_subscriberId s) of
        Inl e \<Rightarrow> s
      | Inr r \<Rightarrow> if sr_success r
          then with_fields ((delivered_fields ts)\<lparr>sf_lastDeliveredAt := Some (tr_timestamp (last trs))\<rparr>) ts s
          else failed_once (spawn_error r) ts s))"

lemma set_sub_same [simp]: "distinct (map sb_id subs) \<Longrightarrow> s \<in> set subs \<Longrightarrow> set_sub s subs = subs"
  unfolding set_sub_def by (rule map_idI) (auto simp: distinct_map inj_on_def)

text \<open>An operation that may throw after it has done its work, under the handler that drops the error.\<close>

lemma yields_best: "(\<And>r w'. f w = (r, w') \<Longrightarrow> Q () w') \<Longrightarrow> yields (best_effort f) w Q"
  by (cases "f w"; cases "fst (f w)") (auto simp: yields_def best_effort_def catch_def run_simps)

lemma best_of_yields: "yields f w Q \<Longrightarrow> yields (best_effort f) w Q"
  unfolding best_effort_def by (rule yields_catch)

lemma best_throw: "f w = (Inl e, w') \<Longrightarrow> Q () w' \<Longrightarrow> yields (best_effort f) w Q"
  by (simp add: yields_def best_effort_def catch_def run_simps)

lemma batch_yields:
  assumes "calm_spawn env answer" "entry_of w i fb s" "fm_id (t_fm t) = i" "delivers w0 i (subs_of w i) w" "w_now w = w_now w0"
  shows "yields (best_effort (deliverAllGranularityForSub env t s)) w
    (\<lambda>_. delivers w0 i (set_sub (batch_result env answer (w_now w) (transition_events i w) s) (subs_of w i)))"
proof -
  let ?trs = "new_transitions (sb_lastDeliveredAt s) (transition_events i w)"
  let ?Q = "\<lambda>_. delivers w0 i (set_sub (batch_result env answer (w_now w) (transition_events i w) s) (subs_of w i))"
  have same: "set_sub s (subs_of w i) = subs_of w i" using assms(2) by (simp add: entry_of_def)
  show ?thesis
  proof (cases "?trs = []")
    case True
    then show ?thesis
      using assms(3,4) same by (intro best_of_yields) (simp add: deliverAllGranularityForSub_def batch_result_def yields_bind yields_pure)
  next
    case trs: False
    obtain w1 where w1: "spawn_callback env t s ?trs w = (answer (sb_subscriberId s), w1)" "delivers w i (subs_of w i) w1"
      using spawn_run [OF assms(1)] assms(2) unfolding entry_of_def by metis
    have e1: "entry_of w1 i fb s" by (rule entry_kept [OF w1(2) assms(2)])
    have n1: "w_now w1 = w_now w" "subs_of w1 i = subs_of w i" using deliversD [OF w1(2)] by simp_all
    have via: "delivers w1 i xs w2 \<Longrightarrow> delivers w0 i xs w2" for xs w2
      using delivers_trans [OF assms(4) delivers_trans [OF w1(2)]] by blast
    show ?thesis
    proof (cases "answer (sb_subscriberId s)")
      case (Inl e)
      have "deliverAllGranularityForSub env t s w = (Inl e, w1)"
        using w1(1) trs assms(3) Inl by (simp add: deliverAllGranularityForSub_def bind_def run_simps Let_def)
      then show ?thesis
        by (rule best_throw) (use via [OF delivers_same] deliversD(1) [OF w1(2)] n1 same trs Inl in \<open>simp add: batch_result_def\<close>)
    next
      case (Inr r)
      have "yields (deliverAllGranularityForSub env t s) w ?Q"
      proof (cases "sr_success r")
        case True
        then show ?thesis
          unfolding deliverAllGranularityForSub_def Let_def assms(3) yields_bind yields_pure if_not_P [OF trs]
            yields_run [of "spawn_callback env t s ?trs" w, OF w1(1) [unfolded Inr]] if_P [OF True]
          by (intro delivers_update [OF e1]) (use via n1 trs Inr True in \<open>auto simp: batch_result_def yields_pure\<close>)
      next
        case False
        then show ?thesis
          unfolding deliverAllGranularityForSub_def Let_def assms(3) yields_bind yields_pure if_not_P [OF trs]
            yields_run [of "spawn_callback env t s ?trs" w, OF w1(1) [unfolded Inr]] if_not_P [OF False]
          by (intro failure_yields [OF e1]) (use via n1 trs Inr False in \<open>auto simp: batch_result_def\<close>)
      qed
      then show ?thesis by (rule best_of_yields)
    qed
  qed
qed

text \<open>The loop over some of the entries of one task.\<close>

lemma deliver_loop:
  assumes step: "\<And>w1 s. s \<in> set xs \<Longrightarrow> entry_of w1 i fb s \<Longrightarrow> w_now w1 = w_now w \<Longrightarrow>
      (\<forall>j. transition_events j w1 = transition_events j w) \<Longrightarrow>
      yields (f s ()) w1 (\<lambda>_. delivers w1 i (set_sub (h s) (subs_of w1 i)))"
    and ids: "\<And>s. sb_id (h s) = sb_id s"
    and "tidy w" "abs_store w i = Some fb" "distinct (map sb_id (subs_of w i))" "distinct (map sb_id xs)" "set xs \<subseteq> set (subs_of w i)"
  shows "yields (fold_m f xs ()) w (\<lambda>_. delivers w i (map (\<lambda>s. if s \<in> set xs then h s else s) (subs_of w i)))"
  using assms
proof (induction xs arbitrary: w)
  case Nil
  then show ?case by (simp add: yields_pure delivers_same)
next
  case (Cons x xs)
  have e: "entry_of w i fb x" using Cons.prems by (simp add: entry_of_def)
  have x: "yields (f x ()) w (\<lambda>_. delivers w i (set_sub (h x) (subs_of w i)))" by (rule Cons.prems(1) [OF _ e]) simp_all
  show ?case
    unfolding fold_m.simps
  proof (rule yields_seq_bind [OF x])
    fix u w1 assume w1: "delivers w i (set_sub (h x) (subs_of w i)) w1"
    note d1 = deliversD [OF w1]
    have same: "sb_id s = sb_id x \<Longrightarrow> s \<in> set (subs_of w i) \<Longrightarrow> s = x" for s
      using Cons.prems(5,7) by (auto simp: distinct_map inj_on_def)
    have sub1: "set_sub (h x) (subs_of w i) = map (\<lambda>s. if s = x then h x else s) (subs_of w i)"
      unfolding set_sub_def ids by (rule map_cong) (use same in auto)
    have ids1: "map sb_id (subs_of w1 i) = map sb_id (subs_of w i)" using d1(4) sub1 ids by (auto simp: comp_def)
    have fresh: "s \<in> set xs \<Longrightarrow> sb_id s \<noteq> sb_id x" for s using Cons.prems(6) by auto (metis image_eqI)
    have mem: "set xs \<subseteq> set (subs_of w1 i)"
    proof
      fix s assume "s \<in> set xs"
      moreover from this have "s \<in> set (subs_of w i)" "s \<noteq> x" using Cons.prems(7) fresh by auto
      ultimately show "s \<in> set (subs_of w1 i)" unfolding d1(4) sub1 by force
    qed
    have "yields (fold_m f xs ()) w1 (\<lambda>_. delivers w1 i (map (\<lambda>s. if s \<in> set xs then h s else s) (subs_of w1 i)))"
    proof (rule Cons.IH)
      fix w2 s assume "s \<in> set xs" "entry_of w2 i fb s" "w_now w2 = w_now w1" "\<forall>j. transition_events j w2 = transition_events j w1"
      then show "yields (f s ()) w2 (\<lambda>_. delivers w2 i (set_sub (h s) (subs_of w2 i)))"
        using Cons.prems(1) [of s w2] d1(2,5) by simp
    qed (use ids Cons.prems d1 ids1 mem in simp_all)
    moreover have "map (\<lambda>s. if s \<in> set xs then h s else s) (subs_of w1 i) = map (\<lambda>s. if s \<in> set (x # xs) then h s else s) (subs_of w i)"
    proof -
      have "h x \<notin> set xs" using fresh ids by metis
      then show ?thesis unfolding d1(4) sub1 by (auto simp: fresh)
    qed
    ultimately have "yields (fold_m f xs ()) w1 (\<lambda>_. delivers w i (map (\<lambda>s. if s \<in> set (x # xs) then h s else s) (subs_of w i)))"
      using delivers_trans [OF w1] by (auto elim!: yields_mono)
    then show "yields (fold_m f xs u) w1 (\<lambda>_. delivers w i (map (\<lambda>s. if s \<in> set (x # xs) then h s else s) (subs_of w i)))" by simp
  qed
qed

subsection \<open>The delivery at a terminal status and the retries\<close>

lemma distinct_filter_ids: "distinct (map sb_id subs) \<Longrightarrow> distinct (map sb_id (filter P subs))"
  by (simp add: distinct_map inj_on_def)

lemma map_filtered: "map (\<lambda>s. if s \<in> set (filter P xs) then h s else s) xs = map (\<lambda>s. if P s then h s else s) xs"
  by (rule map_cong) auto

lemma loaded_id: "fm_id (fst fb) = i \<Longrightarrow> fm_id (t_fm (loaded i fb)) = i"
  by (simp add: loaded_def)

lemma result_ids [simp]: "sb_id (failed_once m ts s) = sb_id s" "sb_id (single_result env answer ts s) = sb_id s"
  "sb_id (batch_result env answer ts es s) = sb_id s"
  by (auto simp: failed_once_def single_result_def batch_result_def Let_def split: sum.split)

text \<open>What one retry makes of a subscription.\<close>

definition retried ::
  "callback_env \<Rightarrow> (string \<Rightarrow> error + spawn_result) \<Rightarrow> int \<Rightarrow> event list \<Rightarrow> subscription \<Rightarrow> subscription" where
  "retried env answer ts events s =
     (if sb_status s \<noteq> SubActive \<or> \<not> retry_candidate s \<or> too_recent ts s then s
      else if sb_granularity s = OnAll then batch_result env answer ts events s
      else single_result env answer ts s)"

lemma retried_id [simp]: "sb_id (retried env answer ts es s) = sb_id s"
  by (simp add: retried_def)

lemma retry_yields:
  assumes "calm_spawn env answer" "entry_of w i fb s" "fm_id (t_fm t) = i" "sb_status s = SubActive" "retry_candidate s"
  shows "yields (retry_sub env i t (w_now w) s) w
    (\<lambda>_. delivers w i (set_sub (retried env answer (w_now w) (transition_events i w) s) (subs_of w i)))"
proof (cases "too_recent (w_now w) s")
  case True
  then show ?thesis using assms by (simp add: retry_sub_def yields_pure retried_def entry_of_def delivers_same)
next
  case False
  let ?send = "if sb_granularity s = OnAll then deliverAllGranularityForSub env t s else deliverSingleCallback env t s"
  let ?Q = "\<lambda>_. delivers w i (set_sub (retried env answer (w_now w) (transition_events i w) s) (subs_of w i))"
  have send: "yields (best_effort ?send) w1 ?Q" if w1: "delivers w i (subs_of w i) w1" for w1
  proof -
    note e1 = entry_kept [OF w1 assms(2)] and d1 = deliversD [OF w1]
    show ?thesis
      using batch_yields [OF assms(1) e1 assms(3), of w] w1 d1
        best_of_yields [OF single_yields [OF assms(1) e1 assms(3)]] delivers_trans [OF w1] False assms(4,5)
      by (auto simp: retried_def intro: yields_mono)
  qed
  have "best_effort (andThen (when_m b (log_event ty a k p)) f) w = (if b then best_effort (andThen (log_event ty a k p) f) w
      else best_effort f w)" for b ty a k p and f :: "unit m"
    by (simp add: when_m_def)
  moreover have "best_effort (andThen (log_event ty a k p) f) w =
      best_effort f (w\<lparr>w_events := w_events w @ [\<lparr>ev_type = ty, ev_actor = a, ev_taskId = k, ev_timestamp = w_now w, ev_payload = p\<rparr>]\<rparr>)"
    for ty a k p and f :: "unit m"
    by (simp add: best_effort_def catch_def log_event_def)
  moreover have "delivers w i (subs_of w i) w" using assms(2) by (simp add: entry_of_def delivers_same)
  ultimately show ?thesis
    unfolding retry_sub_def yields_def using False
      send [unfolded yields_def, OF delivers_log [of w i "subs_of w i" w]] send [unfolded yields_def] by simp
qed

text \<open>C22: when a task is done, cancelled or dead-lettered and is not too deep in a chain of callbacks, exactly its
  active subscribers to completion that are served by callbacks are called: an entry becomes delivered, or
  counts one failed attempt and fails for good with the third. Every other entry, the subscriptions of
  other tasks and all tasks stay as they were. Hypotheses: the ids of the entries are unique, and the
  adapter answers a spawn and at most logs events.\<close>

theorem deliver_callbacks_exact:
  assumes "tidy w" "abs_store w i = Some fb" "fm_id (fst fb) = i" "terminal_status (fm_status (fst fb))"
    and "or_else (fm_callbackDepth (fst fb)) 0 < MAX_CALLBACK_DEPTH"
    and "distinct (map sb_id (subs_of w i))" "calm_spawn env answer"
  shows "\<exists>w'. deliverCallbacks env i w = (Inr (), w') \<and> tidy w' \<and> abs_store w' = abs_store w \<and>
    subs_of w' i = map (\<lambda>s. if sb_status s = SubActive \<and> callback_for OnCompletion s then single_result env answer (w_now w) s else s)
      (subs_of w i) \<and>
    (\<forall>j. j \<noteq> i \<longrightarrow> subs_of w' j = subs_of w j)"
proof -
  let ?t = "loaded i fb" and ?P = "\<lambda>s. sb_status s = SubActive \<and> callback_for OnCompletion s"
  let ?xs = "filter (callback_for OnCompletion) (filter (\<lambda>s. sb_status s = SubActive) (subs_of w i))"
  have xs: "?xs = filter ?P (subs_of w i)" by (simp add: conj_commute)
  have "yields (fold_m (\<lambda>sub u. best_effort (deliverSingleCallback env ?t sub)) ?xs ()) w
      (\<lambda>_. delivers w i (map (\<lambda>s. if s \<in> set ?xs then single_result env answer (w_now w) s else s) (subs_of w i)))"
  proof (rule deliver_loop)
    fix w1 s assume "entry_of w1 i fb s" "w_now w1 = w_now w"
    then show "yields (best_effort (deliverSingleCallback env ?t s)) w1
        (\<lambda>_. delivers w1 i (set_sub (single_result env answer (w_now w) s) (subs_of w1 i)))"
      using best_of_yields [OF single_yields [OF assms(7) _ loaded_id [OF assms(3)]]] by metis
  qed (use assms distinct_filter_ids in auto)
  then have "yields (deliverCallbacks env i) w (\<lambda>_. delivers w i (map (\<lambda>s. if ?P s then single_result env answer (w_now w) s else s) (subs_of w i)))"
    unfolding deliverCallbacks_def yields_bind yields_get [OF assms(1)] assms(2) xs map_filtered
    using assms(4,5) by (simp add: Let_def yields_bind yields_run [of "list_subs i (Some SubActive)" w, OF list_subs_run [OF assms(1,2)]] loaded_def xs)
  then show ?thesis by (auto simp: yields_def delivers_def)
qed

text \<open>Fact: a retry pass over a terminal task treats exactly its active callback subscriptions with fewer than three
  attempts whose last attempt is not younger than 30 seconds, of both granularities; nothing else
  changes. The depth of the task does not matter, so a pass also serves the subscribers that the delivery
  itself refuses because of the limit on callback chains.\<close>

theorem retry_exact:
  assumes "tidy w" "abs_store w i = Some fb" "fm_id (fst fb) = i" "terminal_status (fm_status (fst fb))"
    and "distinct (map sb_id (subs_of w i))" "calm_spawn env answer"
  shows "\<exists>w'. retryPendingDeliveries env i w = (Inr (), w') \<and> tidy w' \<and> abs_store w' = abs_store w \<and>
    subs_of w' i = map (retried env answer (w_now w) (transition_events i w)) (subs_of w i) \<and>
    (\<forall>j. j \<noteq> i \<longrightarrow> subs_of w' j = subs_of w j) \<and> transition_events i w' = transition_events i w"
proof -
  let ?t = "loaded i fb" and ?P = "\<lambda>s. sb_status s = SubActive \<and> retry_candidate s"
  let ?r = "retried env answer (w_now w) (transition_events i w)"
  let ?xs = "filter retry_candidate (filter (\<lambda>s. sb_status s = SubActive) (subs_of w i))"
  have xs: "?xs = filter ?P (subs_of w i)" by (simp add: conj_commute)
  have "yields (fold_m (\<lambda>sub u. retry_sub env i ?t (w_now w) sub) ?xs ()) w
      (\<lambda>_. delivers w i (map (\<lambda>s. if s \<in> set ?xs then ?r s else s) (subs_of w i)))"
  proof (rule deliver_loop)
    fix w1 s assume "s \<in> set ?xs" "entry_of w1 i fb s" "w_now w1 = w_now w" "\<forall>j. transition_events j w1 = transition_events j w"
    then show "yields (retry_sub env i ?t (w_now w) s) w1 (\<lambda>_. delivers w1 i (set_sub (?r s) (subs_of w1 i)))"
      using retry_yields [OF assms(6) _ loaded_id [OF assms(3)], of w1 fb s] by simp
  qed (use assms distinct_filter_ids in auto)
  moreover have "map (\<lambda>s. if ?P s then ?r s else s) (subs_of w i) = map ?r (subs_of w i)"
    by (rule map_cong) (auto simp: retried_def)
  ultimately have "yields (retryPendingDeliveries env i) w (\<lambda>_. delivers w i (map ?r (subs_of w i)))"
    unfolding retryPendingDeliveries_def yields_bind yields_get [OF assms(1)] assms(2) xs map_filtered
    using assms(4) by (simp add: yields_bind yields_pure yields_run [of "list_subs i (Some SubActive)" w, OF list_subs_run [OF assms(1,2)]] loaded_def xs)
  then show ?thesis by (auto simp: yields_def delivers_def)
qed

subsection \<open>Consequences\<close>

text \<open>The retry passes of polls at the times \<open>ts\<close>.\<close>

fun retry_polls :: "callback_env \<Rightarrow> string \<Rightarrow> int list \<Rightarrow> unit m" where
  "retry_polls env i [] = ret ()"
| "retry_polls env i (t # ts) =
     andThen (modify (\<lambda>w. w\<lparr>w_now := t\<rparr>)) (andThen (retryPendingDeliveries env i) (retry_polls env i ts))"

definition retry_run ::
  "callback_env \<Rightarrow> (string \<Rightarrow> error + spawn_result) \<Rightarrow> event list \<Rightarrow> int list \<Rightarrow> subscription \<Rightarrow> subscription" where
  "retry_run env answer events ts s = fold (\<lambda>t. retried env answer t events) ts s"

lemma retry_run_simps [simp]:
  "retry_run env answer es [] s = s"
  "retry_run env answer es (t # ts) s = retry_run env answer es ts (retried env answer t es s)"
  by (simp_all add: retry_run_def)

lemma clock_frame_subs [simp]:
  "tidy (w\<lparr>w_now := t\<rparr>) = tidy w" "abs_store (w\<lparr>w_now := t\<rparr>) = abs_store w" "subs_of (w\<lparr>w_now := t\<rparr>) = subs_of w"
  "transition_events i (w\<lparr>w_now := t\<rparr>) = transition_events i w"
  by (rule tidy_frame_eq files_frame(1) subs_frame_eq, simp_all add: transition_events_def)+

lemma retry_polls_run:
  assumes "tidy w" "abs_store w i = Some fb" "fm_id (fst fb) = i" "terminal_status (fm_status (fst fb))"
    and "distinct (map sb_id (subs_of w i))" "calm_spawn env answer"
  shows "\<exists>w'. retry_polls env i ts w = (Inr (), w') \<and> abs_store w' = abs_store w \<and>
    subs_of w' i = map (retry_run env answer (transition_events i w) ts) (subs_of w i)"
  using assms
proof (induction ts arbitrary: w)
  case Nil
  then show ?case by (simp add: run_simps)
next
  case (Cons t ts)
  obtain w1 where w1: "retryPendingDeliveries env i (w\<lparr>w_now := t\<rparr>) = (Inr (), w1)" "tidy w1" "abs_store w1 = abs_store w"
    "subs_of w1 i = map (retried env answer t (transition_events i w)) (subs_of w i)" "transition_events i w1 = transition_events i w"
    using retry_exact [of "w\<lparr>w_now := t\<rparr>" i fb env answer] Cons.prems by auto
  have "distinct (map sb_id (subs_of w1 i))" using Cons.prems(5) w1(4) by (simp add: comp_def)
  then obtain w2 where "retry_polls env i ts w1 = (Inr (), w2)" "abs_store w2 = abs_store w1"
    "subs_of w2 i = map (retry_run env answer (transition_events i w1) ts) (subs_of w1 i)"
    using Cons.IH [of w1] Cons.prems w1 by auto
  then show ?case using w1 by (intro exI [of _ w2]) (simp add: bind_run)
qed

lemma failed_once_simps2:
  "sb_deliveryAttempts (failed_once m ts s) = sb_deliveryAttempts s + 1" "sb_granularity (failed_once m ts s) = sb_granularity s"
  "sb_lastAttemptAt (failed_once m ts s) = Some ts" "resolveDeliveryKind (failed_once m ts s) = resolveDeliveryKind s"
  "sb_status (failed_once m ts s) = (if MAX_DELIVERY_ATTEMPTS \<le> sb_deliveryAttempts s + 1 then SubFailed else sb_status s)"
  by (simp_all add: failed_once_def with_fields_def failure_fields_def no_fields_def or_else_def given_def resolveDeliveryKind_def)

definition refuses :: "(string \<Rightarrow> error + spawn_result) \<Rightarrow> bool" where
  "refuses answer \<longleftrightarrow> (\<forall>a. case answer a of Inl e \<Rightarrow> True | Inr r \<Rightarrow> \<not> sr_success r)"

lemma refused_result: "refuses answer \<Longrightarrow> \<exists>m. single_result env answer ts s = failed_once m ts s"
  unfolding refuses_def single_result_def by (erule allE [of _ "sb_subscriberId s"]) (auto split: sum.splits)

text \<open>An entry while its deliveries fail: \<open>n\<close> attempts, the last not after \<open>t\<close>.\<close>

definition failing :: "nat \<Rightarrow> int \<Rightarrow> subscription \<Rightarrow> bool" where
  "failing n t s \<longleftrightarrow> sb_granularity s = OnCompletion \<and> resolveDeliveryKind s = ''agent-callback'' \<and> sb_deliveryAttempts s = n \<and>
     sb_status s = (if n < MAX_DELIVERY_ATTEMPTS then SubActive else SubFailed) \<and> (\<forall>a. sb_lastAttemptAt s = Some a \<longrightarrow> a \<le> t)"

lemma failing_step:
  assumes "refuses answer" "failing n t s" "t + MIN_RETRY_INTERVAL_MS \<le> t'"
  shows "failing (if n < MAX_DELIVERY_ATTEMPTS then Suc n else n) t' (retried env answer t' es s)"
proof (cases "n < MAX_DELIVERY_ATTEMPTS")
  case True
  obtain m where "single_result env answer t' s = failed_once m t' s" using refused_result [OF assms(1)] by blast
  moreover have "\<not> too_recent t' s" using assms(2,3) by (auto simp: too_recent_def failing_def split: option.splits)
  ultimately have "retried env answer t' es s = failed_once m t' s"
    using True assms(2) by (simp add: retried_def failing_def retry_candidate_def)
  then show ?thesis using True assms(2) by (auto simp: failing_def failed_once_simps2)
next
  case False
  then show ?thesis
    using assms(2,3) by (auto simp: failing_def retried_def MIN_RETRY_INTERVAL_MS_def)
qed

lemma failing_run:
  assumes "refuses answer" "successively (\<lambda>a b. a + MIN_RETRY_INTERVAL_MS \<le> b) (t # ts)" "failing n t s" "n \<le> MAX_DELIVERY_ATTEMPTS"
  shows "\<exists>t'. failing (min MAX_DELIVERY_ATTEMPTS (n + length ts)) t' (retry_run env answer es ts s)"
  using assms(2-4)
proof (induction ts arbitrary: t n s)
  case Nil
  then show ?case by (auto simp: min_def intro!: exI [of _ t])
next
  case (Cons t' ts)
  let ?n = "if n < MAX_DELIVERY_ATTEMPTS then Suc n else n"
  have "failing ?n t' (retried env answer t' es s)"
    using failing_step [OF assms(1) Cons.prems(2)] Cons.prems(1) by simp
  then have "\<exists>u. failing (min MAX_DELIVERY_ATTEMPTS (?n + length ts)) u (retry_run env answer es ts (retried env answer t' es s))"
    using Cons.IH [of t' ?n] Cons.prems(1,3) by simp
  moreover have "min MAX_DELIVERY_ATTEMPTS (?n + length ts) = min MAX_DELIVERY_ATTEMPTS (n + length (t' # ts))"
    using Cons.prems(3) by auto
  ultimately show ?case by simp
qed


text \<open>Fact: the limit on callback chains does not hold for retries. On a task at the limit the delivery refuses and
  changes no subscription; the retry pass of the next poll calls the subscriber all the same.\<close>

theorem depth_limit_bypassed:
  assumes "tidy w" "abs_store w i = Some fb" "fm_id (fst fb) = i" "terminal_status (fm_status (fst fb))"
    and "or_else (fm_callbackDepth (fst fb)) 0 \<ge> MAX_CALLBACK_DEPTH"
    and "distinct (map sb_id (subs_of w i))" "calm_spawn env answer"
    and "s \<in> set (subs_of w i)" "failing 0 (w_now w) s" "sb_lastAttemptAt s = None"
    and "answer (sb_subscriberId s) = Inr r" "sr_success r"
  shows "\<exists>w1 w2. deliverCallbacks env i w = (Inr (), w1) \<and> subs_of w1 = subs_of w \<and>
    retryPendingDeliveries env i w1 = (Inr (), w2) \<and>
    (\<exists>s' \<in> set (subs_of w2 i). sb_id s' = sb_id s \<and> sb_status s' = SubDelivered)"
proof -
  let ?d = "or_else (fm_callbackDepth (fst fb)) 0"
  obtain w1 where w1: "log_depth i ?d w = (Inr (), w1)" and "\<exists>e. w1 = w\<lparr>w_events := e\<rparr>"
    using log_run [of "''subscription.depth_exceeded''"] unfolding log_depth_def by blast
  then obtain e where e: "w1 = w\<lparr>w_events := e\<rparr>" by blast
  have refused: "deliverCallbacks env i w = (Inr (), w1)"
    using assms(1-5) w1 by (simp add: deliverCallbacks_def bind_def get_run loaded_def Let_def)
  obtain w2 where w2: "retryPendingDeliveries env i w1 = (Inr (), w2)"
    "subs_of w2 i = map (retried env answer (w_now w1) (transition_events i w1)) (subs_of w1 i)"
    using retry_exact [of w1 i fb env answer] assms(1-4,6,7) e by auto
  let ?s = "retried env answer (w_now w1) (transition_events i w1) s"
  have "?s = with_fields (delivered_fields (w_now w1)) (w_now w1) s"
    using assms(9-12) by (simp add: retried_def failing_def retry_candidate_def too_recent_def single_result_def MAX_DELIVERY_ATTEMPTS_def)
  then have "sb_status ?s = SubDelivered" by (simp add: with_fields_def delivered_fields_def no_fields_def or_else_def)
  moreover have "?s \<in> set (subs_of w2 i)" using w2(2) assms(8) e by simp
  ultimately show ?thesis using refused w2(1) e by (intro exI conjI) (auto intro!: bexI [of _ ?s])
qed

text \<open>The event every poll adds for a subscription that was never attempted.\<close>

definition recovery_event :: "string \<Rightarrow> int \<Rightarrow> subscription \<Rightarrow> event" where
  "recovery_event i ts s = \<lparr>ev_type = ''subscription.recovery_attempted'', ev_actor = ''callback-delivery'', ev_taskId = Some i,
     ev_timestamp = ts, ev_payload = [(''subscriptionId'', JStr (sb_id s)), (''granularity'', JStr ''all'')]\<rparr>"

text \<open>Fact: a subscriber of all transitions who has heard of all of them is never settled. When the task is
  terminal, every retry pass logs a recovery for it and changes nothing else, without end: \<open>k\<close> polls add \<open>k\<close>
  events.\<close>

theorem recovery_never_settles:
  assumes "tidy w" "abs_store w i = Some fb" "fm_id (fst fb) = i" "terminal_status (fm_status (fst fb))"
    and "subs_of w i = [s]" "sb_status s = SubActive" "sb_granularity s = OnAll" "resolveDeliveryKind s = ''agent-callback''"
    and "sb_deliveryAttempts s = 0" "sb_lastAttemptAt s = None" "new_transitions (sb_lastDeliveredAt s) (transition_events i w) = []"
  shows "\<exists>w'. retry_polls env i ts w = (Inr (), w') \<and> subs_of w' i = [s] \<and> abs_store w' = abs_store w \<and>
    w_events w' = w_events w @ map (\<lambda>t. recovery_event i t s) ts"
  using assms
proof (induction ts arbitrary: w)
  case Nil
  then show ?case by (simp add: run_simps)
next
  case (Cons t ts)
  let ?w = "w\<lparr>w_now := t\<rparr>"
  let ?w1 = "?w\<lparr>w_events := w_events w @ [recovery_event i t s]\<rparr>"
  have same: "transition_events i ?w1 = transition_events i w" by (simp add: transition_events_def recovery_event_def)
  have quiet: "deliverAllGranularityForSub env (loaded i fb) s ?w1 = (Inr (), ?w1)"
    using Cons.prems(3,11) same by (simp add: deliverAllGranularityForSub_def loaded_def Let_def run_simps)
  have log: "log_event ''subscription.recovery_attempted'' ''callback-delivery'' (Some i)
      [(''subscriptionId'', JStr (sb_id s)), (''granularity'', JStr (granularity_str (sb_granularity s)))] ?w = (Inr (), ?w1)"
    using Cons.prems(7) by (simp add: log_event_def run_simps recovery_event_def granularity_str_def)
  have one: "retry_sub env i (loaded i fb) t s ?w = (Inr (), ?w1)"
    using Cons.prems(7,9,10) quiet log
    by (simp add: retry_sub_def too_recent_def best_effort_def catch_def when_m_def bind_run)
  have pass: "retryPendingDeliveries env i ?w = (Inr (), ?w1)"
    using Cons.prems one list_subs_run [of ?w i fb "Some SubActive"]
    by (simp add: retryPendingDeliveries_def bind_def get_run loaded_def now_def run_simps retry_candidate_def MAX_DELIVERY_ATTEMPTS_def)
  obtain w' where "retry_polls env i ts ?w1 = (Inr (), w')" "subs_of w' i = [s]" "abs_store w' = abs_store ?w1"
    "w_events w' = w_events ?w1 @ map (\<lambda>t. recovery_event i t s) ts"
    using Cons.IH [of ?w1] Cons.prems same by auto
  then show ?case using pass by (intro exI [of _ w']) (simp add: bind_run)
qed

subsection \<open>Subscribing\<close>

lemma find_snoc: "find P xs = None \<Longrightarrow> find P (xs @ [x]) = (if P x then Some x else None)"
  by (induction xs) auto

definition one_each :: "subscription list \<Rightarrow> bool" where
  "one_each subs \<longleftrightarrow> distinct (map (\<lambda>s. (sb_subscriberId s, sb_granularity s)) (filter (\<lambda>s. sb_status s = SubActive) subs))"

definition chart_allows :: "org_agents \<Rightarrow> string \<Rightarrow> bool" where
  "chart_allows chart a = (case chart of NoChart \<Rightarrow> True | ChartUnreadable \<Rightarrow> False | ChartAgents agents \<Rightarrow> a \<in> set agents)"

text \<open>Fact: subscribing is idempotent. For an agent the org chart knows it succeeds; it adds one entry unless the
  agent has an active subscription of this granularity; asking again answers the same and changes
  nothing; and a task never gets two active subscriptions of one agent and one granularity.\<close>

theorem subscribe_once:
  assumes "tidy w" "abs_store w i = Some fb" "fm_id (fst fb) = i" "chart_allows chart a"
  shows "\<exists>ans w'. aofTaskSubscribe chart uuid i a g w = (Inr ans, w') \<and> abs_store w' = abs_store w \<and>
    (subs_of w' i = subs_of w i \<or> subs_of w' i = subs_of w i @ [new_subscription uuid a g None (w_now w)]) \<and>
    (\<forall>j. j \<noteq> i \<longrightarrow> subs_of w' j = subs_of w j) \<and>
    aofTaskSubscribe chart uuid' i a g w' = (Inr ans, w') \<and>
    (one_each (subs_of w i) \<longrightarrow> one_each (subs_of w' i))"
proof -
  let ?P = "\<lambda>s. sb_subscriberId s = a \<and> sb_granularity s = g" and ?act = "\<lambda>w. filter (\<lambda>s. sb_status s = SubActive) (subs_of w i)"
  let ?t = "loaded i fb" and ?new = "new_subscription uuid a g None (w_now w)"
  have id: "fm_id (t_fm ?t) = i" using assms(3) by (simp add: loaded_def)
  have valid: "validateSubscriberAgent chart a w1 = (Inr (), w1)" for w1
    using assms(4) by (auto simp: validateSubscriberAgent_def chart_allows_def run_simps split: org_agents.splits)
  have run: "aofTaskSubscribe chart u i a g w1 = (case find ?P (?act w1) of
      Some d \<Rightarrow> (Inr (subscribe_answer_of ?t d), w1)
    | None \<Rightarrow> bind (create_sub u i a g None) (\<lambda>s. ret (subscribe_answer_of ?t s)) w1)"
    if "tidy w1" "abs_store w1 = abs_store w" for w1 u
    using that assms(2) valid [of w1] id list_subs_run [of w1 i fb "Some SubActive"]
    by (simp add: aofTaskSubscribe_def resolveTask_def bind_def andThen_def get_run run_simps split: option.split)
  show ?thesis
  proof (cases "find ?P (?act w)")
    case None
    let ?w1 = "put_subs (taskPath i (fm_status (fst fb))) (subs_of w i @ [?new]) w"
    have w1: "resubs w i (subs_of w i @ [?new]) ?w1" by (rule resubs_put [OF assms(1,2)])
    then have t1: "tidy ?w1" "abs_store ?w1 = abs_store w" "subs_of ?w1 i = subs_of w i @ [?new]" by (simp_all add: resubs_def)
    have "create_sub uuid i a g None w = (Inr ?new, ?w1)"
      using resolver_run [OF assms(1,2)] subs_of_at [OF assms(2)]
      by (simp add: create_sub_def bind_def readSubscriptionsFile_def writeSubscriptionsFile_def now_def run_simps Let_def)
    then have first: "aofTaskSubscribe chart uuid i a g w = (Inr (subscribe_answer_of ?t ?new), ?w1)"
      using run [OF assms(1) refl] None by (simp add: bind_run run_simps)
    have act: "?act ?w1 = ?act w @ [?new]" using t1(3) by (simp add: new_subscription_def)
    have "find ?P (?act ?w1) = Some ?new"
      unfolding act using None by (simp add: find_snoc new_subscription_def)
    then have again: "aofTaskSubscribe chart uuid' i a g ?w1 = (Inr (subscribe_answer_of ?t ?new), ?w1)"
      using run [OF t1(1,2)] by simp
    have "one_each (subs_of w i) \<longrightarrow> one_each (subs_of ?w1 i)"
      using None unfolding one_each_def act by (auto simp: find_None_iff new_subscription_def)
    then show ?thesis using first again w1 t1(3) by (intro exI conjI) (auto simp: resubs_def)
  next
    case (Some d)
    then show ?thesis using run [OF assms(1) refl] by (intro exI [of _ "subscribe_answer_of ?t d"] exI [of _ w]) simp
  qed
qed

subsection \<open>Examples\<close>

definition done_task :: "nat option \<Rightarrow> frontmatter" where
  "done_task depth = (sample_fm sample_id Done)\<lparr>fm_callbackDepth := depth\<rparr>"

definition sample_sub :: "sub_granularity \<Rightarrow> subscription" where
  "sample_sub g = new_subscription ''s1'' ''dev'' g None 50"

definition subs_world :: "nat option \<Rightarrow> subscription list \<Rightarrow> world" where
  "subs_world depth subs = put_subs (taskPath sample_id Done) subs (tasks_world [done_task depth])"

definition calm_env :: "(string \<Rightarrow> error + spawn_result) \<Rightarrow> callback_env" where
  "calm_env answer = \<lparr>ce_spawn = \<lambda>c t u w. (answer (cb_agent c), w), ce_uuid = \<lambda>s. s, ce_iso = \<lambda>t. [],
     ce_message = \<lambda>e. [], ce_tracePath = None\<rparr>"

lemma calm_env_calm [simp]: "calm_spawn (calm_env answer) answer"
  unfolding calm_spawn_def calm_env_def by (auto intro!: exI [of _ "[]"])

lemma done_task_simps [simp]:
  "fm_id (done_task d) = sample_id" "fm_status (done_task d) = Done" "fm_callbackDepth (done_task d) = d"
  by (simp_all add: done_task_def)

lemma subs_world_facts:
  "tidy (subs_world d subs)" "abs_store (subs_world d subs) sample_id = Some (done_task d, ''body'')"
  "subs_of (subs_world d subs) sample_id = subs" "w_now (subs_world d subs) = 100" "w_events (subs_world d subs) = []"
proof -
  have base: "tidy (tasks_world [done_task d])" "abs_store (tasks_world [done_task d]) sample_id = Some (done_task d, ''body'')"
    by (simp_all add: tasks_world_tidy tasks_world_abs)
  show "tidy (subs_world d subs)" "subs_of (subs_world d subs) sample_id = subs"
    using resubs_put [OF base] by (simp_all add: resubs_def subs_world_def)
  show "abs_store (subs_world d subs) sample_id = Some (done_task d, ''body'')" by (simp add: subs_world_def base(2))
  show "w_now (subs_world d subs) = 100" by (simp add: subs_world_def)
  show "w_events (subs_world d subs) = []" by (simp add: subs_world_def tasks_world_def world_of_def)
qed

definition spawned_ok :: spawn_result where
  "spawned_ok = \<lparr>sr_success = True, sr_sessionId = None, sr_error = None\<rparr>"

definition spawn_refused :: spawn_result where
  "spawn_refused = \<lparr>sr_success = False, sr_sessionId = None, sr_error = None\<rparr>"

lemma sample_failing: "failing 0 100 (sample_sub OnCompletion)"
  by (simp add: failing_def sample_sub_def new_subscription_def resolveDeliveryKind_def MAX_DELIVERY_ATTEMPTS_def)

theorem deliver_callbacks_exact_witness:
  "\<exists>w'. deliverCallbacks (calm_env (\<lambda>a. Inr spawned_ok)) sample_id (subs_world None [sample_sub OnCompletion, (sample_sub OnAll)\<lparr>sb_id := ''s2''\<rparr>]) =
      (Inr (), w') \<and> map sb_status (subs_of w' sample_id) = [SubDelivered, SubActive]"
proof -
  let ?subs = "[sample_sub OnCompletion, (sample_sub OnAll)\<lparr>sb_id := ''s2''\<rparr>]"
  let ?w = "subs_world None ?subs" and ?ans = "\<lambda>a :: string. Inr spawned_ok :: error + spawn_result"
  have "distinct (map sb_id (subs_of ?w sample_id))" by (simp add: subs_world_facts sample_sub_def new_subscription_def)
  from deliver_callbacks_exact [OF subs_world_facts(1,2) _ _ _ this calm_env_calm]
  obtain w' where w': "deliverCallbacks (calm_env ?ans) sample_id ?w = (Inr (), w')"
    "subs_of w' sample_id = map (\<lambda>s. if sb_status s = SubActive \<and> callback_for OnCompletion s then single_result (calm_env ?ans) ?ans (w_now ?w) s else s)
      (subs_of ?w sample_id)"
    by (auto simp: terminal_status_def or_else_def MAX_CALLBACK_DEPTH_def)
  have "map sb_status (subs_of w' sample_id) = [SubDelivered, SubActive]"
    unfolding w'(2) subs_world_facts
    by (simp add: callback_for_def sample_sub_def new_subscription_def resolveDeliveryKind_def single_result_def spawned_ok_def
        with_fields_def delivered_fields_def no_fields_def or_else_def)
  then show ?thesis by (intro exI conjI) (rule w'(1))
qed

theorem retry_exact_witness:
  "\<exists>w'. retryPendingDeliveries (calm_env (\<lambda>a. Inr spawn_refused)) sample_id (subs_world None [sample_sub OnCompletion]) =
      (Inr (), w') \<and> map sb_deliveryAttempts (subs_of w' sample_id) = [1]"
proof -
  let ?w = "subs_world None [sample_sub OnCompletion]" and ?ans = "\<lambda>a :: string. Inr spawn_refused :: error + spawn_result"
  have "distinct (map sb_id (subs_of ?w sample_id))" by (simp add: subs_world_facts)
  from retry_exact [OF subs_world_facts(1,2) _ _ this calm_env_calm]
  obtain w' where w': "retryPendingDeliveries (calm_env ?ans) sample_id ?w = (Inr (), w')"
    "subs_of w' sample_id = map (retried (calm_env ?ans) ?ans (w_now ?w) (transition_events sample_id ?w)) (subs_of ?w sample_id)"
    by (auto simp: terminal_status_def)
  have "map sb_deliveryAttempts (subs_of w' sample_id) = [1]"
    unfolding w'(2) subs_world_facts
    by (simp add: sample_sub_def new_subscription_def resolveDeliveryKind_def single_result_def spawn_refused_def retried_def
        retry_candidate_def too_recent_def failed_once_simps2 MAX_DELIVERY_ATTEMPTS_def)
  then show ?thesis by (intro exI conjI) (rule w'(1))
qed


theorem depth_limit_bypassed_witness:
  "\<exists>w1 w2. deliverCallbacks (calm_env (\<lambda>a. Inr spawned_ok)) sample_id (subs_world (Some 3) [sample_sub OnCompletion]) = (Inr (), w1) \<and>
    retryPendingDeliveries (calm_env (\<lambda>a. Inr spawned_ok)) sample_id w1 = (Inr (), w2) \<and>
    (\<exists>s' \<in> set (subs_of w2 sample_id). sb_status s' = SubDelivered)"
proof -
  let ?w = "subs_world (Some 3) [sample_sub OnCompletion]" and ?ans = "\<lambda>a :: string. Inr spawned_ok :: error + spawn_result"
  have "distinct (map sb_id (subs_of ?w sample_id))" "sample_sub OnCompletion \<in> set (subs_of ?w sample_id)"
    "failing 0 (w_now ?w) (sample_sub OnCompletion)" "sb_lastAttemptAt (sample_sub OnCompletion) = None" "sr_success spawned_ok"
    by (simp_all add: subs_world_facts sample_failing) (simp_all add: sample_sub_def new_subscription_def spawned_ok_def)
  from depth_limit_bypassed [OF subs_world_facts(1,2) _ _ _ this(1) calm_env_calm this(2-4) refl this(5)]
  show ?thesis by (auto simp: terminal_status_def or_else_def MAX_CALLBACK_DEPTH_def)
qed

theorem recovery_never_settles_witness:
  "\<exists>w'. retry_polls (calm_env (\<lambda>a. Inr spawned_ok)) sample_id [200, 300] (subs_world None [sample_sub OnAll]) = (Inr (), w') \<and>
    length (w_events w') = 2"
proof -
  let ?w = "subs_world None [sample_sub OnAll]"
  have "transition_events sample_id ?w = []" by (simp add: transition_events_def subs_world_facts)
  then have none: "new_transitions (sb_lastDeliveredAt (sample_sub OnAll)) (transition_events sample_id ?w) = []"
    by (simp add: new_transitions_def)
  have sub: "sb_status (sample_sub OnAll) = SubActive" "sb_granularity (sample_sub OnAll) = OnAll"
    "resolveDeliveryKind (sample_sub OnAll) = ''agent-callback''" "sb_deliveryAttempts (sample_sub OnAll) = 0"
    "sb_lastAttemptAt (sample_sub OnAll) = None"
    by (simp_all add: sample_sub_def new_subscription_def resolveDeliveryKind_def)
  have done_status: "fm_id (fst (done_task None, ''body'')) = sample_id" "terminal_status (fm_status (fst (done_task None, ''body'')))"
    by (simp_all add: terminal_status_def)
  show ?thesis
    using recovery_never_settles [OF subs_world_facts(1,2) done_status subs_world_facts(3) sub none,
        where env = "calm_env (\<lambda>a. Inr spawned_ok)" and ts = "[200, 300]"] by (auto simp: subs_world_facts)
qed

theorem subscribe_once_witness:
  "\<exists>ans w'. aofTaskSubscribe (ChartAgents [''dev'']) ''u'' sample_id ''dev'' OnAll (subs_world None []) = (Inr ans, w') \<and>
    aofTaskSubscribe (ChartAgents [''dev'']) ''u2'' sample_id ''dev'' OnAll w' = (Inr ans, w')"
proof -
  have "fm_id (fst (done_task None, ''body'')) = sample_id" "chart_allows (ChartAgents [''dev'']) ''dev''"
    by (simp_all add: chart_allows_def)
  from subscribe_once [OF subs_world_facts(1,2) this, where uuid = "''u''" and g = OnAll and uuid' = "''u2''"] show ?thesis by blast
qed

end
