(* ===== verification/ChatDelivery.thy ===== *)
theory ChatDelivery
  imports CallbackProps ProtocolSchema
begin

section \<open>Chat messages to subscribers (openclaw/openclaw-chat-delivery.ts)\<close>

text \<open>
  Subscriptions of kind \<open>openclaw-chat\<close> are served by a message to the session of the subscriber when the
  task becomes blocked, goes to review or ends; a ledger on the subscription says which statuses were
  notified, every attempt is recorded. After a restart the terminal statuses that were not notified are
  replayed. The tool that sends a message is a parameter, with the kind and text of the errors it throws.
  Structured console logs are left out.
\<close>

record chat_env =
  cv_hasStore :: "string \<Rightarrow> bool"
  cv_send :: "string \<Rightarrow> string \<Rightarrow> subscription \<Rightarrow> unit m"
  cv_kind :: "error \<Rightarrow> string option"
  cv_message :: "error \<Rightarrow> string"

definition OPENCLAW_CHAT_DELIVERY_KIND :: string where "OPENCLAW_CHAT_DELIVERY_KIND = ''openclaw-chat''"
definition TRIGGER_STATUSES :: "string list" where
  "TRIGGER_STATUSES = [''blocked'', ''review'', ''done'', ''cancelled'', ''deadletter'']"
definition TERMINAL_STATUSES :: "task_status list" where "TERMINAL_STATUSES = [Done, Cancelled, Deadletter]"
definition NOTES_TRUNCATION_LIMIT :: nat where "NOTES_TRUNCATION_LIMIT = 240"
definition ELLIPSIS :: string where "ELLIPSIS = ''...''"

subsection \<open>The message\<close>

definition renderStatusLead :: "string \<Rightarrow> string" where
  "renderStatusLead status =
     (if status = ''done'' then ''Task complete'' else if status = ''cancelled'' then ''Task cancelled''
      else if status = ''deadletter'' then ''Task dead-lettered'' else if status = ''review'' then ''Task ready for review''
      else if status = ''blocked'' then ''Task blocked'' else ''Task update'')"

definition truncate :: "string \<Rightarrow> nat \<Rightarrow> string" where
  "truncate value limit =
     (if limit = 0 then [] else if length value \<le> limit then value
      else if limit \<le> length ELLIPSIS then take limit ELLIPSIS
      else take (limit - length ELLIPSIS) value @ ELLIPSIS)"

definition result_lines :: "string option \<Rightarrow> run_result option \<Rightarrow> string list" where
  "result_lines reason runResult =
     (case runResult of None \<Rightarrow> [] | Some r \<Rightarrow> [''Outcome: '' @ outcome_name (rr_outcome r)] @
        (if rr_summaryRef r = [] then [] else [''Summary: '' @ rr_summaryRef r])) @
     (case runResult of
        Some r \<Rightarrow> if rr_blockers r \<noteq> [] then [''Blockers: '' @ join_with ''; '' (rr_blockers r)]
          else (case reason of None \<Rightarrow> [] | Some x \<Rightarrow> if js_trim x = [] then [] else [''Reason: '' @ js_trim x])
      | None \<Rightarrow> (case reason of None \<Rightarrow> [] | Some x \<Rightarrow> if js_trim x = [] then [] else [''Reason: '' @ js_trim x])) @
     (case runResult of None \<Rightarrow> []
      | Some r \<Rightarrow> if rr_notes r = [] then [] else [''Notes: '' @ truncate (rr_notes r) NOTES_TRUNCATION_LIMIT])"

definition renderMessage :: "task \<Rightarrow> string \<Rightarrow> string \<Rightarrow> string option \<Rightarrow> run_result option \<Rightarrow> string" where
  "renderMessage t toStatus actor reason runResult = join_with [CHR 0x0A]
     ([renderStatusLead toStatus @ '': '' @ fm_id (t_fm t) @ '' '' @ fm_title (t_fm t), ''Agent: '' @ actor] @
      result_lines reason runResult)"

subsection \<open>One delivery\<close>

definition payload_field :: "string \<Rightarrow> sub_delivery \<Rightarrow> string option" where
  "payload_field k d = (case map_of (sd_payload d) k of Some (JStr s) \<Rightarrow> Some s | _ \<Rightarrow> None)"

definition chat_target :: "subscription \<Rightarrow> string option" where
  "chat_target s = (case sb_delivery s of None \<Rightarrow> None | Some d \<Rightarrow>
     given (payload_field ''target'' d) (given (payload_field ''sessionKey'' d) (payload_field ''sessionId'' d)))"

definition attempt_ok :: "int \<Rightarrow> string \<Rightarrow> sub_attempt" where
  "attempt_ok ts toStatus = \<lparr>sa_attemptedAt = ts, sa_success = True, sa_toStatus = Some toStatus, sa_error = None\<rparr>"

text \<open>A target that cannot be reached is recorded as a fallback.\<close>

definition attempt_failed :: "chat_env \<Rightarrow> int \<Rightarrow> string \<Rightarrow> error \<Rightarrow> sub_attempt" where
  "attempt_failed env ts toStatus e =
     (let isNoPlatform = (cv_kind env e = Some ''no-platform'') in
      \<lparr>sa_attemptedAt = ts, sa_success = False, sa_toStatus = Some toStatus,
       sa_error = Some (if isNoPlatform then (Some ''agent-callback-fallback'',
           ''agent-callback fallback (wake-up observably lost): '' @ cv_message env e)
         else (cv_kind env e, cv_message env e))\<rparr>)"

definition terminal_str :: "string \<Rightarrow> bool" where
  "terminal_str s = (s \<in> status_str ` set TERMINAL_STATUSES)"

definition deliverOne :: "chat_env \<Rightarrow> task \<Rightarrow> string \<Rightarrow> string \<Rightarrow> string option \<Rightarrow> run_result option \<Rightarrow> subscription \<Rightarrow> unit m" where
  "deliverOne env t toStatus actor reason runResult sub =
     (if \<not> truthy_str (chat_target sub) then ret ()
      else bind now (\<lambda>attemptedAt.
        let i = fm_id (t_fm t); sid = sb_id sub in
        catch
          (andThen (cv_send env (the (chat_target sub)) (renderMessage t toStatus actor reason runResult) sub)
            (bind (appendAttempt i sid (attempt_ok attemptedAt toStatus)) (\<lambda>_.
             bind (markStatusNotified i sid toStatus) (\<lambda>_.
               when_m (terminal_str toStatus) (bind now (\<lambda>ts. bind (update_sub i sid (delivered_fields ts)) (\<lambda>_. ret ())))))))
          (\<lambda>e. bind (appendAttempt i sid (attempt_failed env attemptedAt toStatus e)) (\<lambda>_. ret ()))))"

subsection \<open>Events and the replay after a restart\<close>

definition chat_candidate :: "string \<Rightarrow> subscription \<Rightarrow> bool" where
  "chat_candidate toStatus s = (resolveDeliveryKind s = OPENCLAW_CHAT_DELIVERY_KIND \<and> toStatus \<notin> set (sb_notifiedStatuses s))"

definition str_payload :: "event \<Rightarrow> string \<Rightarrow> string option" where
  "str_payload e k = (case map_of (ev_payload e) k of Some (JStr s) \<Rightarrow> Some s | _ \<Rightarrow> None)"

definition run_result_or_none :: "string \<Rightarrow> run_result option m" where
  "run_result_or_none i = catch (readRunResult i) (\<lambda>_. ret None)"

definition deliver_candidates ::
  "chat_env \<Rightarrow> task \<Rightarrow> string \<Rightarrow> string \<Rightarrow> string \<Rightarrow> string option \<Rightarrow> subscription list \<Rightarrow> unit m" where
  "deliver_candidates env t i to actor reason subs =
     (if subs = [] then ret ()
      else bind (run_result_or_none i) (\<lambda>runResult.
        fold_m (\<lambda>sub u. best_effort (deliverOne env t to actor reason runResult sub)) subs ()))"

definition handle_transition :: "chat_env \<Rightarrow> string \<Rightarrow> string \<Rightarrow> string \<Rightarrow> string option \<Rightarrow> unit m" where
  "handle_transition env i to actor reason =
     (if \<not> cv_hasStore env i then ret ()
      else bind (get_task i) (\<lambda>t. case t of
        None \<Rightarrow> ret ()
      | Some task \<Rightarrow> bind (list_subs i (Some SubActive)) (\<lambda>active.
          deliver_candidates env task i to actor reason (filter (chat_candidate to) active))))"

definition handleEvent :: "chat_env \<Rightarrow> event \<Rightarrow> unit m" where
  "handleEvent env e =
     (case (ev_taskId e, str_payload e ''to'') of
        (Some i, Some to) \<Rightarrow>
          if ev_type e \<noteq> ''task.transitioned'' \<or> i = [] \<or> to \<notin> set TRIGGER_STATUSES then ret ()
          else handle_transition env i to (ev_actor e) (str_payload e ''reason'')
      | _ \<Rightarrow> ret ())"

definition replay_task :: "chat_env \<Rightarrow> task \<Rightarrow> unit \<Rightarrow> unit m" where
  "replay_task env t u =
     (let toStatus = status_str (fm_status (t_fm t)); i = fm_id (t_fm t) in
      if fm_status (t_fm t) \<notin> set TERMINAL_STATUSES then ret ()
      else bind (catch (list_subs i (Some SubActive)) (\<lambda>_. ret [])) (\<lambda>active.
        deliver_candidates env t i toStatus ''system:recovery'' None (filter (chat_candidate toStatus) active)))"

definition replayUnnotifiedTerminals :: "chat_env \<Rightarrow> unit m" where
  "replayUnnotifiedTerminals env =
     fold_m (\<lambda>s u. bind (catch (list_tasks (status_filter s)) (\<lambda>_. ret [])) (\<lambda>tasks. fold_m (replay_task env) tasks ()))
       TERMINAL_STATUSES ()"

end
