(* ===== verification/ChatProps.thy ===== *)
theory ChatProps
  imports ChatDelivery
begin

section \<open>What chat delivery does\<close>

text \<open>
  For a message tool that answers and at most logs: which subscriptions an event changes and to what; a
  status is notified once; the audit trail stays in step with the counters, which the callbacks of
  \<open>CallbackDelivery\<close> do not keep.
\<close>

definition calm_send :: "chat_env \<Rightarrow> (string \<Rightarrow> error + unit) \<Rightarrow> bool" where
  "calm_send env answer \<longleftrightarrow> (\<forall>x m s w. \<exists>es. cv_send env x m s w = (answer (sb_id s), w\<lparr>w_events := w_events w @ es\<rparr>) \<and>
     (\<forall>e \<in> set es. ev_type e \<noteq> ''task.transitioned''))"

definition notified :: "string \<Rightarrow> int \<Rightarrow> subscription \<Rightarrow> subscription" where
  "notified to ts s = s\<lparr>sb_notifiedStatuses := sb_notifiedStatuses s @ [to], sb_updatedAt := ts\<rparr>"

definition chat_sent :: "string \<Rightarrow> int \<Rightarrow> subscription \<Rightarrow> subscription" where
  "chat_sent to ts s = (let s1 = notified to ts (with_attempt (attempt_ok ts to) ts s) in
     if terminal_str to then with_fields (delivered_fields ts) ts s1 else s1)"

definition chat_result :: "chat_env \<Rightarrow> (string \<Rightarrow> error + unit) \<Rightarrow> int \<Rightarrow> string \<Rightarrow> subscription \<Rightarrow> subscription" where
  "chat_result env answer ts to s =
     (if \<not> truthy_str (chat_target s) then s
      else (case answer (sb_id s) of
        Inl e \<Rightarrow> with_attempt (attempt_failed env ts to e) ts s
      | Inr u \<Rightarrow> chat_sent to ts s))"

lemma chat_ids [simp]:
  "sb_id (with_attempt a ts s) = sb_id s" "sb_id (notified to ts s) = sb_id s" "sb_id (chat_sent to ts s) = sb_id s"
  "sb_id (chat_result env answer ts to s) = sb_id s"
  by (auto simp: with_attempt_def notified_def chat_sent_def chat_result_def Let_def split: sum.split)

lemma delivers_change:
  assumes "entry_of w i fb s" "f (w_now w) s = Some s'" "sb_id s' = sb_id s"
    and "\<And>w'. delivers w i (set_sub s' (subs_of w i)) w' \<Longrightarrow> Q (Some s') w'"
  shows "yields (change_sub i (sb_id s) f) w Q"
  using assms unfolding entry_of_def by (blast intro: yields_change_sub resubs_delivers)

lemma set_sub_twice: "sb_id s1 = sb_id s2 \<Longrightarrow> set_sub s2 (set_sub s1 subs) = set_sub s2 subs"
  by (auto simp: set_sub_def)

lemma map_id_set_sub: "sb_id s' = sb_id s \<Longrightarrow> map sb_id (set_sub s' subs) = map sb_id subs"
  by (auto simp: set_sub_def)

lemma entry_after:
  assumes "delivers w i (set_sub s' (subs_of w i)) w'" "entry_of w i fb s" "sb_id s' = sb_id s"
  shows "entry_of w' i fb s'"
proof -
  have "s' \<in> set (set_sub s' (subs_of w i))" using assms(2,3) by (force simp: set_sub_def entry_of_def)
  then show ?thesis using assms map_id_set_sub [OF assms(3), of "subs_of w i"] by (simp add: entry_of_def delivers_def)
qed

text \<open>One change after the other of the same entry.\<close>

lemma delivers_again:
  assumes "delivers w i (set_sub s1 (subs_of w i)) w1" "delivers w1 i (set_sub s2 (subs_of w1 i)) w2" "sb_id s1 = sb_id s2"
  shows "delivers w i (set_sub s2 (subs_of w i)) w2"
  using delivers_trans [OF assms(1,2)] deliversD(4) [OF assms(1)] set_sub_twice [OF assms(3)] by simp

definition after_sent :: "string \<Rightarrow> string \<Rightarrow> string \<Rightarrow> unit m" where
  "after_sent i sid to = when_m (terminal_str to) (bind now (\<lambda>ts. bind (update_sub i sid (delivered_fields ts)) (\<lambda>_. ret ())))"

lemma after_sent_yields:
  assumes "delivers w i (set_sub s2 (subs_of w i)) w2" "entry_of w2 i fb s2"
    and "s3 = (if terminal_str to then with_fields (delivered_fields (w_now w)) (w_now w) s2 else s2)"
  shows "yields (after_sent i (sb_id s2) to) w2 (\<lambda>_. delivers w i (set_sub s3 (subs_of w i)))"
proof (cases "terminal_str to")
  case True
  note n2 = deliversD(2) [OF assms(1)]
  show ?thesis
    unfolding after_sent_def yields_when if_P [OF True] yields_bind yields_pure
  proof (rule delivers_update [OF assms(2)])
    fix w3 assume "delivers w2 i (set_sub (with_fields (delivered_fields (w_now w2)) (w_now w2) s2) (subs_of w2 i)) w3"
    from delivers_again [OF assms(1) this] show "delivers w i (set_sub s3 (subs_of w i)) w3"
      using True n2 assms(3) by simp
  qed
qed (use assms in \<open>simp add: after_sent_def yields_when\<close>)

lemma sent_yields:
  assumes "entry_of w i fb s" "to \<notin> set (sb_notifiedStatuses s)" "ts = w_now w"
  shows "yields (bind (appendAttempt i (sb_id s) (attempt_ok ts to)) (\<lambda>_. bind (markStatusNotified i (sb_id s) to) (\<lambda>_.
      after_sent i (sb_id s) to))) w (\<lambda>_. delivers w i (set_sub (chat_sent to ts s) (subs_of w i)))"
proof -
  let ?s1 = "with_attempt (attempt_ok ts to) ts s"
  let ?s2 = "notified to ts ?s1"
  show ?thesis
    unfolding yields_bind appendAttempt_def markStatusNotified_def
  proof (rule delivers_change [OF assms(1), where s' = ?s1])
    fix w1 assume w1: "delivers w i (set_sub ?s1 (subs_of w i)) w1"
    note e1 = entry_after [OF w1 assms(1) chat_ids(1)] and n1 = deliversD(2) [OF w1]
    show "yields (change_sub i (sb_id s) (\<lambda>ts s. if to \<in> set (sb_notifiedStatuses s) then None
          else Some (s\<lparr>sb_notifiedStatuses := sb_notifiedStatuses s @ [to], sb_updatedAt := ts\<rparr>))) w1
        (\<lambda>x w'. yields (after_sent i (sb_id s) to) w' (\<lambda>_. delivers w i (set_sub (chat_sent to ts s) (subs_of w i))))"
    proof (rule delivers_change [OF e1, where s' = ?s2, unfolded chat_ids(1)])
      show "(if to \<in> set (sb_notifiedStatuses ?s1) then None
          else Some (?s1\<lparr>sb_notifiedStatuses := sb_notifiedStatuses ?s1 @ [to], sb_updatedAt := w_now w1\<rparr>)) = Some ?s2"
        using assms(2,3) n1 by (simp add: notified_def with_attempt_def)
      fix w2 assume w2': "delivers w1 i (set_sub ?s2 (subs_of w1 i)) w2"
      then have w2: "delivers w i (set_sub ?s2 (subs_of w i)) w2" by (rule delivers_again [OF w1]) simp
      show "yields (after_sent i (sb_id s) to) w2 (\<lambda>_. delivers w i (set_sub (chat_sent to ts s) (subs_of w i)))"
        using after_sent_yields [OF w2 entry_after [OF w2' e1 chat_ids(2)] refl, of to]
        by (cases "terminal_str to") (simp_all add: chat_sent_def assms(3) Let_def)
    qed simp
  qed (use assms(3) in simp_all)
qed

lemma deliver_one_yields:
  assumes "calm_send env answer" "entry_of w i fb s" "fm_id (t_fm t) = i" "to \<notin> set (sb_notifiedStatuses s)"
  shows "yields (deliverOne env t to actor reason rr s) w
    (\<lambda>_. delivers w i (set_sub (chat_result env answer (w_now w) to s) (subs_of w i)))"
proof (cases "truthy_str (chat_target s)")
  case False
  then show ?thesis
    using assms(2) by (simp add: deliverOne_def chat_result_def yields_pure entry_of_def delivers_same)
next
  case True
  obtain es where es: "cv_send env (the (chat_target s)) (renderMessage t to actor reason rr) s w =
      (answer (sb_id s), w\<lparr>w_events := w_events w @ es\<rparr>)" "\<forall>e \<in> set es. ev_type e \<noteq> ''task.transitioned''"
    using assms(1) unfolding calm_send_def by metis
  define w1 where "w1 = w\<lparr>w_events := w_events w @ es\<rparr>"
  have w1: "delivers w i (subs_of w i) w1"
    unfolding w1_def using assms(2) by (intro delivers_log [OF delivers_same es(2)]) (simp add: entry_of_def)
  note e1 = entry_kept [OF w1 assms(2)] and d1 = deliversD [OF w1]
  show ?thesis
  proof (cases "answer (sb_id s)")
    case (Inl e)
    have "deliverOne env t to actor reason rr s w = bind (appendAttempt i (sb_id s) (attempt_failed env (w_now w) to e)) (\<lambda>_. ret ()) w1"
      using True es(1) Inl assms(3) by (simp add: deliverOne_def Let_def catch_def andThen_def bind_def now_def run_simps w1_def)
    moreover have "yields (bind (appendAttempt i (sb_id s) (attempt_failed env (w_now w) to e)) (\<lambda>_. ret ())) w1
        (\<lambda>_. delivers w i (set_sub (chat_result env answer (w_now w) to s) (subs_of w i)))"
      unfolding yields_bind yields_pure appendAttempt_def
      by (rule delivers_change [OF e1, where s' = "with_attempt (attempt_failed env (w_now w) to e) (w_now w) s"])
        (use d1 True Inl delivers_trans [OF w1] in \<open>auto simp: chat_result_def\<close>)
    ultimately show ?thesis by (simp add: yields_def)
  next
    case (Inr u)
    from sent_yields [OF e1 assms(4) refl]
    have "yields (bind (appendAttempt i (sb_id s) (attempt_ok (w_now w) to)) (\<lambda>_. bind (markStatusNotified i (sb_id s) to) (\<lambda>_.
        after_sent i (sb_id s) to))) w1 (\<lambda>_. delivers w i (set_sub (chat_result env answer (w_now w) to s) (subs_of w i)))"
      using True Inr d1 by (auto simp: chat_result_def elim!: yields_mono intro: delivers_trans [OF w1])
    then show ?thesis
      using True es(1) Inr assms(3) unfolding deliverOne_def Let_def
      by (simp add: yields_bind yields_pure w1_def after_sent_def)
        (intro yields_catch, simp add: yields_andThen yields_run [of "cv_send env (the (chat_target s)) (renderMessage t to actor reason rr) s" w]
          yields_bind yields_pure)
  qed
qed

lemma run_result_run: "tidy w \<Longrightarrow> \<exists>rr. run_result_or_none i w = (Inr rr, w)"
  by (auto simp: run_result_or_none_def readRunResult_def read_run_file_def catch_def resolveTaskDir_def bind_def get_run
      run_simps split: option.split)

lemma deliver_candidates_run:
  "run_result_or_none i w = (Inr rr, w) \<Longrightarrow> deliver_candidates env t i to actor reason xs w =
    fold_m (\<lambda>sub u. best_effort (deliverOne env t to actor reason rr sub)) xs () w"
  by (cases xs) (simp_all add: deliver_candidates_def bind_run run_simps)

text \<open>The event that names a status of a task.\<close>

definition moved_event :: "event \<Rightarrow> string \<Rightarrow> string \<Rightarrow> bool" where
  "moved_event e i to \<longleftrightarrow> ev_type e = ''task.transitioned'' \<and> ev_taskId e = Some i \<and> str_payload e ''to'' = Some to"

definition told :: "chat_env \<Rightarrow> (string \<Rightarrow> error + unit) \<Rightarrow> int \<Rightarrow> string \<Rightarrow> subscription \<Rightarrow> subscription" where
  "told env answer ts to s =
     (if to \<in> set TRIGGER_STATUSES \<and> sb_status s = SubActive \<and> chat_candidate to s then chat_result env answer ts to s else s)"

lemma handle_event_yields:
  assumes "tidy w" "abs_store w i = Some fb" "fm_id (fst fb) = i" "i \<noteq> []" "distinct (map sb_id (subs_of w i))"
    and "calm_send env answer" "cv_hasStore env i" "moved_event e i to"
  shows "yields (handleEvent env e) w (\<lambda>_. delivers w i (map (told env answer (w_now w) to) (subs_of w i)))"
proof (cases "to \<in> set TRIGGER_STATUSES")
  case False
  then have "told env answer (w_now w) to = (\<lambda>s. s)" by (auto simp: told_def)
  then show ?thesis
    using False assms(1,8) by (simp add: handleEvent_def moved_event_def yields_pure delivers_same)
next
  case True
  let ?t = "loaded i fb" and ?P = "\<lambda>s. sb_status s = SubActive \<and> chat_candidate to s"
  let ?xs = "filter (chat_candidate to) (filter (\<lambda>s. sb_status s = SubActive) (subs_of w i))"
  have xs: "?xs = filter ?P (subs_of w i)" by (simp add: conj_commute)
  have told: "told env answer ts to s = (if ?P s then chat_result env answer ts to s else s)" for ts s
    using True by (simp add: told_def)
  obtain rr where rr: "run_result_or_none i w = (Inr rr, w)" using run_result_run [OF assms(1)] by blast
  have "yields (fold_m (\<lambda>sub u. best_effort (deliverOne env ?t to (ev_actor e) (str_payload e ''reason'') rr sub)) ?xs ()) w
      (\<lambda>_. delivers w i (map (\<lambda>s. if s \<in> set ?xs then chat_result env answer (w_now w) to s else s) (subs_of w i)))"
  proof (rule deliver_loop)
    fix w1 s assume s: "s \<in> set ?xs" "entry_of w1 i fb s" "w_now w1 = w_now w"
    then have "to \<notin> set (sb_notifiedStatuses s)" by (auto simp: chat_candidate_def)
    from best_of_yields [OF deliver_one_yields [OF assms(6) s(2) loaded_id [OF assms(3)] this]]
    show "yields (best_effort (deliverOne env ?t to (ev_actor e) (str_payload e ''reason'') rr s)) w1
        (\<lambda>_. delivers w1 i (set_sub (chat_result env answer (w_now w) to s) (subs_of w1 i)))"
      using s(3) by simp
  qed (use assms distinct_filter_ids in auto)
  then have loop: "yields (deliver_candidates env ?t i to (ev_actor e) (str_payload e ''reason'') ?xs) w
      (\<lambda>_. delivers w i (map (told env answer (w_now w) to) (subs_of w i)))"
    unfolding yields_def deliver_candidates_run [of i w rr, OF rr] told xs map_filtered .
  have "handleEvent env e = handle_transition env i to (ev_actor e) (str_payload e ''reason'')"
    using True assms(4,8) by (simp add: handleEvent_def moved_event_def)
  then show ?thesis
    using loop assms(7) unfolding handle_transition_def
    by (simp add: yields_bind yields_get [OF assms(1)] assms(2) yields_run [of "list_subs i (Some SubActive)" w, OF list_subs_run [OF assms(1,2)]])
qed

lemma told_id [simp]: "sb_id (told env answer ts to s) = sb_id s"
  by (simp add: told_def)

lemma told_settled:
  assumes "\<And>x. \<exists>u. answer x = Inr u"
  shows "told env' answer' ts' to (told env answer ts to s) = told env answer ts to s"
proof -
  obtain u where u: "answer (sb_id s) = Inr u" using assms by blast
  have "to \<in> set (sb_notifiedStatuses (chat_sent to ts s))"
    by (simp add: chat_sent_def notified_def Let_def with_fields_def delivered_fields_def no_fields_def or_else_def)
  then show ?thesis using u by (auto simp: told_def chat_result_def chat_candidate_def)
qed

lemma told_trail: "trail_ok s \<Longrightarrow> trail_ok (told env answer ts to s)"
proof -
  assume s: "trail_ok s"
  have "trail_ok (chat_sent to ts s)" if "to \<notin> set (sb_notifiedStatuses s)"
    using trail_attempt [OF s, of "attempt_ok ts to" ts] that
    by (auto simp: trail_ok_def chat_sent_def notified_def Let_def with_fields_def delivered_fields_def no_fields_def
        or_else_def given_def with_attempt_def)
  then show "trail_ok (told env answer ts to s)"
    using s trail_attempt [OF s] by (auto simp: told_def chat_result_def chat_candidate_def split: sum.split)
qed

subsection \<open>The properties\<close>

text \<open>C24: on the event that a task reached a status, exactly its active chat subscriptions that were not notified of
  that status are sent a message, and only if the status is one of the five that trigger messages: the
  attempt is recorded, a success puts the status into the ledger and closes the subscription at the end of
  the task, a failure is recorded with its reason and leaves the status to be sent again. Every other entry,
  the subscriptions of other tasks and all tasks stay as they were. Hypotheses: unique ids of the entries, a
  store for the task, and a message tool that answers and at most logs events.\<close>

theorem chat_event_exact:
  assumes "tidy w" "abs_store w i = Some fb" "fm_id (fst fb) = i" "i \<noteq> []" "distinct (map sb_id (subs_of w i))"
    and "calm_send env answer" "cv_hasStore env i" "moved_event e i to"
  shows "\<exists>w'. handleEvent env e w = (Inr (), w') \<and> tidy w' \<and> abs_store w' = abs_store w \<and>
    subs_of w' i = map (\<lambda>s. if to \<in> set TRIGGER_STATUSES \<and> sb_status s = SubActive \<and> chat_candidate to s \<and> truthy_str (chat_target s)
        then (case answer (sb_id s) of
          Inl er \<Rightarrow> with_attempt (attempt_failed env (w_now w) to er) (w_now w) s
        | Inr u \<Rightarrow> chat_sent to (w_now w) s) else s) (subs_of w i) \<and>
    (\<forall>j. j \<noteq> i \<longrightarrow> subs_of w' j = subs_of w j)"
proof -
  have "told env answer ts to = (\<lambda>s. if to \<in> set TRIGGER_STATUSES \<and> sb_status s = SubActive \<and> chat_candidate to s \<and> truthy_str (chat_target s)
        then (case answer (sb_id s) of
          Inl er \<Rightarrow> with_attempt (attempt_failed env ts to er) ts s
        | Inr u \<Rightarrow> chat_sent to ts s) else s)" for ts
    by (auto simp: told_def chat_result_def)
  from handle_event_yields [OF assms, unfolded this] show ?thesis
    unfolding yields_def delivers_def by (elim exE conjE) (intro exI conjI, auto)
qed

text \<open>Fact: a status is notified once. When the message tool accepts the messages of an event, a second event with
  the same status, also after a restart and whatever the tool then answers, changes no subscription of the
  task; and events keep the audit trail of every entry in step with its counters. Same hypotheses.\<close>

theorem chat_notified_once:
  assumes "tidy w" "abs_store w i = Some fb" "fm_id (fst fb) = i" "i \<noteq> []" "distinct (map sb_id (subs_of w i))"
    and "calm_send env (\<lambda>x. Inr ())" "cv_hasStore env i" "moved_event e i to"
    and "calm_send env' answer'" "cv_hasStore env' i" "moved_event e' i to" "list_all trail_ok (subs_of w i)"
  shows "\<exists>w1 w2. handleEvent env e w = (Inr (), w1) \<and> handleEvent env' e' w1 = (Inr (), w2) \<and>
    subs_of w2 i = subs_of w1 i \<and> list_all trail_ok (subs_of w2 i)"
proof -
  let ?told = "told env (\<lambda>x. Inr ()) (w_now w) to"
  obtain w1 where w1: "handleEvent env e w = (Inr (), w1)" "delivers w i (map ?told (subs_of w i)) w1"
    using handle_event_yields [OF assms(1-8)] by (auto simp: yields_def)
  note d1 = deliversD [OF w1(2)]
  have "distinct (map sb_id (subs_of w1 i))" using assms(5) d1(4) by (simp add: comp_def)
  from handle_event_yields [OF d1(1) _ assms(3,4) this assms(9-11)]
  obtain w2 where w2: "handleEvent env' e' w1 = (Inr (), w2)" "delivers w1 i (map (told env' answer' (w_now w1) to) (subs_of w1 i)) w2"
    using assms(2) d1(3) by (auto simp: yields_def)
  have "subs_of w2 i = subs_of w1 i"
    unfolding deliversD(4) [OF w2(2)] d1(4) by (simp add: told_settled)
  moreover have "list_all trail_ok (subs_of w1 i)"
    using assms(12) unfolding d1(4) by (auto simp: list_all_iff told_trail)
  ultimately show ?thesis using w1(1) w2(1) by auto
qed

text \<open>Fact: the callbacks do not keep that audit trail. After a failed callback to an entry whose trail was in step
  with its counters, the number of attempts is one more than the recorded attempts, which stay as they
  were.\<close>

theorem callback_breaks_trail:
  assumes "tidy w" "abs_store w i = Some fb" "fm_id (fst fb) = i" "distinct (map sb_id (subs_of w i))"
    and "s \<in> set (subs_of w i)" "trail_ok s" "calm_spawn env answer" "answer (sb_subscriberId s) = Inr r" "\<not> sr_success r"
  shows "\<exists>w' s'. deliverSingleCallback env (loaded i fb) s w = (Inr (), w') \<and> s' \<in> set (subs_of w' i) \<and> sb_id s' = sb_id s \<and>
    sb_attempts s' = sb_attempts s \<and> sb_deliveryAttempts s' = length (sb_attempts s') + 1 \<and> \<not> trail_ok s'"
proof -
  let ?s' = "failed_once (spawn_error r) (w_now w) s"
  have e: "entry_of w i fb s" using assms by (simp add: entry_of_def)
  obtain w' where w': "deliverSingleCallback env (loaded i fb) s w = (Inr (), w')" "delivers w i (set_sub ?s' (subs_of w i)) w'"
    using single_yields [OF assms(7) e loaded_id [OF assms(3)]] assms(8,9) by (auto simp: yields_def single_result_def)
  have "?s' \<in> set (subs_of w' i)" unfolding deliversD(4) [OF w'(2)] using assms(5) by (force simp: set_sub_def)
  moreover have "sb_attempts ?s' = sb_attempts s" "sb_deliveryAttempts ?s' = length (sb_attempts s) + 1"
    using assms(6) by (simp_all add: failed_once_def with_fields_def failure_fields_def no_fields_def or_else_def trail_ok_def)
  ultimately show ?thesis using w'(1) by (intro exI [of _ w'] exI [of _ ?s']) (simp add: trail_ok_def)
qed

subsection \<open>Examples\<close>

definition chat_sub :: subscription where
  "chat_sub = (sample_sub OnCompletion)\<lparr>sb_delivery := Some \<lparr>sd_kind = ''openclaw-chat'', sd_payload = [(''target'', JStr ''room'')]\<rparr>\<rparr>"

definition chat_tool :: "(string \<Rightarrow> error + unit) \<Rightarrow> chat_env" where
  "chat_tool answer = \<lparr>cv_hasStore = \<lambda>i. True, cv_send = \<lambda>x m s w. (answer (sb_id s), w), cv_kind = \<lambda>e. None, cv_message = \<lambda>e. ''down''\<rparr>"

definition moved_sample :: event where
  "moved_sample = \<lparr>ev_type = ''task.transitioned'', ev_actor = ''dev'', ev_taskId = Some sample_id, ev_timestamp = 90,
     ev_payload = [(''to'', JStr ''done'')]\<rparr>"

lemma chat_tool_calm: "calm_send (chat_tool answer) answer" "cv_hasStore (chat_tool answer) i"
  unfolding calm_send_def chat_tool_def by (auto intro!: exI [of _ "[]"])

lemma chat_example:
  "distinct (map sb_id (subs_of (subs_world None [chat_sub]) sample_id))" "moved_event moved_sample sample_id ''done''"
  "fm_id (fst (done_task None, ''body'')) = sample_id" "sample_id \<noteq> []" "trail_ok chat_sub"
  by (simp_all add: subs_world_facts moved_event_def moved_sample_def str_payload_def)
    (simp_all add: sample_id_def chat_sub_def sample_sub_def new_subscription_def trail_ok_def)

theorem chat_event_exact_witness:
  "\<exists>w'. handleEvent (chat_tool (\<lambda>x. Inl (OtherError ''e''))) moved_sample (subs_world None [chat_sub]) = (Inr (), w') \<and>
    map sb_failureReason (subs_of w' sample_id) = [Some ''down'']"
proof -
  from chat_event_exact [OF subs_world_facts(1,2) chat_example(3,4,1) chat_tool_calm chat_example(2), of "\<lambda>x. Inl (OtherError ''e'')"]
  show ?thesis
    by (auto simp: subs_world_facts chat_sub_def sample_sub_def new_subscription_def TRIGGER_STATUSES_def chat_candidate_def
        resolveDeliveryKind_def OPENCLAW_CHAT_DELIVERY_KIND_def chat_target_def payload_field_def given_def truthy_str_def
        attempt_failed_def with_attempt_def chat_tool_def Let_def)
qed

theorem chat_notified_once_witness:
  "\<exists>w1 w2. handleEvent (chat_tool (\<lambda>x. Inr ())) moved_sample (subs_world None [chat_sub]) = (Inr (), w1) \<and>
    handleEvent (chat_tool (\<lambda>x. Inl (OtherError ''e''))) moved_sample w1 = (Inr (), w2) \<and> subs_of w2 sample_id = subs_of w1 sample_id"
proof -
  have "list_all trail_ok (subs_of (subs_world None [chat_sub]) sample_id)" using chat_example(5) by (simp add: subs_world_facts)
  from chat_notified_once [OF subs_world_facts(1,2) chat_example(3,4,1) chat_tool_calm chat_example(2)
      chat_tool_calm [where answer = "\<lambda>x. Inl (OtherError ''e'')"] chat_example(2) this]
  show ?thesis by blast
qed

theorem callback_breaks_trail_witness:
  "\<exists>w' s'. deliverSingleCallback (calm_env (\<lambda>a. Inr spawn_refused)) (loaded sample_id (done_task None, ''body'')) chat_sub
      (subs_world None [chat_sub]) = (Inr (), w') \<and> s' \<in> set (subs_of w' sample_id) \<and> \<not> trail_ok s'"
proof -
  have "chat_sub \<in> set (subs_of (subs_world None [chat_sub]) sample_id)" "\<not> sr_success spawn_refused"
    by (simp_all add: subs_world_facts spawn_refused_def)
  from callback_breaks_trail [OF subs_world_facts(1,2) chat_example(3,1) this(1) chat_example(5) calm_env_calm refl this(2)]
  show ?thesis by blast
qed

end
