(* ===== verification/Murmur.thy ===== *)
theory Murmur
  imports AssignExecutor TaskDispatcher
begin

section \<open>Orchestration reviews (murmur/, dispatch/murmur-integration.ts, murmur-hooks.ts)\<close>

text \<open>
  After each poll the teams with an orchestrator are looked at: when a trigger fires and no review is in
  progress, a review task is created, started in the state file of the team and dispatched to the
  orchestrator; a review that ended or hangs is cleared first. A hook on transitions counts what was
  completed and what failed. Console logging is left out. Parameters: the two documents quoted in a review,
  the rendering of dates and errors, what task creation takes from outside, and the gateway adapter.
\<close>

subsection \<open>The state files (murmur/state-manager.ts)\<close>

text \<open>Changes of one team run under its lock (\<open>TaskLock\<close>), so each is one step.\<close>

definition getDefaultState :: "string \<Rightarrow> murmur_state" where
  "getDefaultState team =
     \<lparr>mu_teamId = team, mu_lastReviewAt = None, mu_completions = 0, mu_failures = 0, mu_currentReviewTaskId = None,
      mu_reviewStartedAt = None, mu_lastTriggeredBy = None\<rparr>"

definition murmur_of :: "world \<Rightarrow> string \<Rightarrow> murmur_state" where
  "murmur_of w team = (case map_of (w_murmur w) team of Some (MurmurSaved s) \<Rightarrow> s | _ \<Rightarrow> getDefaultState team)"

definition load_murmur :: "string \<Rightarrow> murmur_state m" where
  "load_murmur team = gets (\<lambda>w. murmur_of w team)"

definition save_murmur :: "string \<Rightarrow> murmur_state \<Rightarrow> unit m" where
  "save_murmur team s =
     (if mu_teamId s \<noteq> team then throw (OtherError (''State teamId mismatch: expected '' @ team @ '', got '' @ mu_teamId s))
      else modify (\<lambda>w. w\<lparr>w_murmur := AList.update team (MurmurSaved s) (w_murmur w)\<rparr>))"

definition change_murmur :: "string \<Rightarrow> (int \<Rightarrow> murmur_state \<Rightarrow> murmur_state) \<Rightarrow> unit m" where
  "change_murmur team f = bind (load_murmur team) (\<lambda>s. bind now (\<lambda>ts. save_murmur team (f ts s)))"

definition incrementCompletions :: "string \<Rightarrow> unit m" where
  "incrementCompletions team = change_murmur team (\<lambda>_ s. s\<lparr>mu_completions := mu_completions s + 1\<rparr>)"

definition incrementFailures :: "string \<Rightarrow> unit m" where
  "incrementFailures team = change_murmur team (\<lambda>_ s. s\<lparr>mu_failures := mu_failures s + 1\<rparr>)"

definition startReview :: "string \<Rightarrow> string \<Rightarrow> string \<Rightarrow> unit m" where
  "startReview team i triggeredBy = change_murmur team (\<lambda>ts s.
     s\<lparr>mu_currentReviewTaskId := Some i, mu_reviewStartedAt := Some ts, mu_lastReviewAt := Some ts,
       mu_lastTriggeredBy := Some triggeredBy, mu_completions := 0, mu_failures := 0\<rparr>)"

definition endReview :: "string \<Rightarrow> unit m" where
  "endReview team = change_murmur team (\<lambda>_ s. s\<lparr>mu_currentReviewTaskId := None, mu_reviewStartedAt := None\<rparr>)"

definition isReviewInProgress :: "string \<Rightarrow> bool m" where
  "isReviewInProgress team = bind (load_murmur team) (\<lambda>s. ret (mu_currentReviewTaskId s \<noteq> None))"

subsection \<open>The triggers (murmur/trigger-evaluator.ts)\<close>

record trigger_result =
  tg_shouldFire :: bool
  tg_triggeredBy :: "string option"
  tg_reason :: "string option"

record task_stats =
  ts_ready :: nat
  ts_inProgress :: nat

definition not_fired :: trigger_result where
  "not_fired = \<lparr>tg_shouldFire = False, tg_triggeredBy = None, tg_reason = None\<rparr>"

definition fired :: "string \<Rightarrow> string \<Rightarrow> trigger_result" where
  "fired kind reason = \<lparr>tg_shouldFire = True, tg_triggeredBy = Some kind, tg_reason = Some reason\<rparr>"

definition evaluateQueueEmpty :: "task_stats \<Rightarrow> trigger_result" where
  "evaluateQueueEmpty st =
     (if ts_ready st = 0 \<and> ts_inProgress st = 0 then fired ''queueEmpty'' ''Both ready and in-progress queues are empty''
      else not_fired)"

definition evaluateCompletionBatch :: "murmur_trigger \<Rightarrow> murmur_state \<Rightarrow> trigger_result" where
  "evaluateCompletionBatch trigger s = (case mt_threshold trigger of
     None \<Rightarrow> not_fired
   | Some n \<Rightarrow> if mu_completions s \<ge> n then fired ''completionBatch''
       (''Completed '' @ string_of_nat (mu_completions s) @ '' tasks (threshold: '' @ string_of_nat n @ '')'') else not_fired)"

definition evaluateInterval :: "murmur_trigger \<Rightarrow> murmur_state \<Rightarrow> int \<Rightarrow> trigger_result" where
  "evaluateInterval trigger s ts = (case mt_intervalMs trigger of
     None \<Rightarrow> not_fired
   | Some n \<Rightarrow> (case mu_lastReviewAt s of
       None \<Rightarrow> fired ''interval'' ''No review has occurred yet''
     | Some r \<Rightarrow> if ts - r \<ge> n then fired ''interval''
         (string_of_int ((ts - r) div 1000) @ ''s elapsed since last review (interval: '' @ string_of_int (n div 1000) @ ''s)'')
         else not_fired))"

definition evaluateFailureBatch :: "murmur_trigger \<Rightarrow> murmur_state \<Rightarrow> trigger_result" where
  "evaluateFailureBatch trigger s = (case mt_threshold trigger of
     None \<Rightarrow> not_fired
   | Some n \<Rightarrow> if mu_failures s \<ge> n then fired ''failureBatch''
       (string_of_nat (mu_failures s) @ '' task failures (threshold: '' @ string_of_nat n @ '')'') else not_fired)"

definition evaluateSingleTrigger :: "murmur_trigger \<Rightarrow> murmur_state \<Rightarrow> task_stats \<Rightarrow> int \<Rightarrow> trigger_result" where
  "evaluateSingleTrigger trigger s st ts = (case mt_kind trigger of
     QueueEmpty \<Rightarrow> evaluateQueueEmpty st
   | CompletionBatch \<Rightarrow> evaluateCompletionBatch trigger s
   | IntervalElapsed \<Rightarrow> evaluateInterval trigger s ts
   | FailureBatch \<Rightarrow> evaluateFailureBatch trigger s)"

fun first_fired :: "murmur_trigger list \<Rightarrow> murmur_state \<Rightarrow> task_stats \<Rightarrow> int \<Rightarrow> trigger_result" where
  "first_fired [] s st ts = not_fired"
| "first_fired (t # rest) s st ts =
     (let r = evaluateSingleTrigger t s st ts in if tg_shouldFire r then r else first_fired rest s st ts)"

definition evaluateTriggers :: "murmur_trigger list \<Rightarrow> murmur_state \<Rightarrow> task_stats \<Rightarrow> int \<Rightarrow> trigger_result" where
  "evaluateTriggers triggers s st ts =
     (if mu_currentReviewTaskId s \<noteq> None then not_fired else first_fired triggers s st ts)"

subsection \<open>Stale reviews (murmur/cleanup.ts)\<close>

definition stale_reason :: "int \<Rightarrow> murmur_state \<Rightarrow> task option \<Rightarrow> int \<Rightarrow> string option" where
  "stale_reason timeoutMs s t ts = (case t of
     None \<Rightarrow> Some ''task_not_found''
   | Some task \<Rightarrow>
       (if fm_status (t_fm task) = Done then Some ''task_done''
        else if fm_status (t_fm task) = Cancelled then Some ''task_cancelled''
        else if fm_status (t_fm task) = Deadletter then Some ''task_deadlettered''
        else (case mu_reviewStartedAt s of
          None \<Rightarrow> None
        | Some started \<Rightarrow> if ts - started \<ge> timeoutMs then Some ''timeout'' else None)))"

definition opt_time :: "int option \<Rightarrow> json" where
  "opt_time x = (case x of None \<Rightarrow> JNull | Some n \<Rightarrow> JTime n)"

text \<open>The result is the reason of the cleanup with the task, none when nothing was stale.\<close>

definition cleanupStaleReview :: "string \<Rightarrow> murmur_state \<Rightarrow> int \<Rightarrow> bool \<Rightarrow> (string \<times> string) option m" where
  "cleanupStaleReview team s timeoutMs dryRun = (case mu_currentReviewTaskId s of
     None \<Rightarrow> ret None
   | Some i \<Rightarrow> bind (get_task i) (\<lambda>t. bind now (\<lambda>ts. case stale_reason timeoutMs s t ts of
       None \<Rightarrow> ret None
     | Some reason \<Rightarrow> andThen
         (best_effort (log_event ''murmur.cleanup.stale'' ''scheduler'' (Some i)
            [(''team'', JStr team), (''reason'', JStr reason), (''reviewStartedAt'', opt_time (mu_reviewStartedAt s)),
             (''taskStatus'', (case t of None \<Rightarrow> JNull | Some task \<Rightarrow> JStr (status_str (fm_status (t_fm task)))))]))
         (andThen (when_m (\<not> dryRun) (endReview team)) (ret (Some (reason, i)))))))"

subsection \<open>The text of a review (murmur/context-builder.ts)\<close>

record murmur_env =
  mv_doc :: "string \<Rightarrow> string option"
  mv_iso :: "int \<Rightarrow> string"
  mv_message :: "error \<Rightarrow> string"
  mv_hash :: "string \<Rightarrow> string"
  mv_day :: "int \<Rightarrow> string"
  mv_suffix :: "string \<Rightarrow> nat \<Rightarrow> string"

definition formatTriggerReason :: "murmur_state \<Rightarrow> string" where
  "formatTriggerReason s =
     (if \<not> truthy_str (mu_lastTriggeredBy s) then ''Manual trigger''
      else let trigger = the (mu_lastTriggeredBy s) in
        if trigger = ''queueEmpty'' then ''Queue empty '' @ em_dash @ '' no ready tasks remaining''
        else if trigger = ''completionBatch'' then ''Completion batch threshold '' @ em_dash @ '' '' @ string_of_nat (mu_completions s) @ '' tasks completed''
        else if trigger = ''failureBatch'' then ''Failure batch threshold '' @ em_dash @ '' '' @ string_of_nat (mu_failures s) @ '' tasks failed''
        else if trigger = ''interval'' then ''Scheduled interval trigger'' else trigger)"

definition loadDocSection :: "murmur_env \<Rightarrow> string \<Rightarrow> string option" where
  "loadDocSection env path = map_option js_trim (mv_doc env path)"

definition doc_section :: "murmur_env \<Rightarrow> string list \<Rightarrow> string \<Rightarrow> string \<Rightarrow> string \<Rightarrow> string list" where
  "doc_section env wanted name title path =
     (if name \<in> set wanted then
        (let content = loadDocSection env path in
         if truthy_str content then [''## '' @ title, '''', the content, ''''] else [])
      else [])"

definition recent_done :: "task list \<Rightarrow> task list" where
  "recent_done ts = take 10 (sort_key (\<lambda>t. - fm_updatedAt (t_fm t)) (filter (\<lambda>t. fm_status (t_fm t) = Done) ts))"

text \<open>Deadletter tasks before blocked ones, each by age.\<close>

definition problem_tasks :: "task list \<Rightarrow> task list" where
  "problem_tasks ts = take 10
     (sort_key (\<lambda>t. fm_updatedAt (t_fm t)) (filter (\<lambda>t. fm_status (t_fm t) = Deadletter) ts) @
      sort_key (\<lambda>t. fm_updatedAt (t_fm t)) (filter (\<lambda>t. fm_status (t_fm t) = Blocked) ts))"

definition titled_list :: "string \<Rightarrow> (task \<Rightarrow> string) \<Rightarrow> task list \<Rightarrow> string list" where
  "titled_list title line ts = (if ts = [] then [] else [title, ''''] @ map line ts @ [''''])"

definition buildTaskSummary :: "murmur_env \<Rightarrow> murmur_state \<Rightarrow> (task_status \<times> nat) list \<Rightarrow> task list \<Rightarrow> string" where
  "buildTaskSummary env s counts allTasks = join_with [CHR 0x0A]
     ([''### Current Task Counts'', ''''] @
      concat (map (\<lambda>st. case map_of counts st of
          Some n \<Rightarrow> if n > 0 then [''- **'' @ status_str st @ ''**: '' @ string_of_nat n] else [] | None \<Rightarrow> [])
        [Backlog, Ready, InProgress, Blocked, Review, Done, Cancelled, Deadletter]) @
      ['''', ''### Activity Since Last Review'', '''', ''- **Completed**: '' @ string_of_nat (mu_completions s) @ '' tasks'',
       ''- **Failed**: '' @ string_of_nat (mu_failures s) @ '' tasks''] @
      (case mu_lastReviewAt s of None \<Rightarrow> [] | Some r \<Rightarrow> [''- **Last Review**: '' @ mv_iso env r]) @ [''''] @
      titled_list ''### Recently Completed Tasks''
        (\<lambda>t. ''- **'' @ fm_id (t_fm t) @ ''**: '' @ fm_title (t_fm t)) (recent_done allTasks) @
      titled_list ''### Failed/Stuck Tasks Requiring Attention''
        (\<lambda>t. ''- **'' @ fm_id (t_fm t) @ ''** ('' @ status_str (fm_status (t_fm t)) @ ''): '' @ fm_title (t_fm t)) (problem_tasks allTasks))"

definition review_lines :: "murmur_env \<Rightarrow> org_team \<Rightarrow> murmur_state \<Rightarrow> int \<Rightarrow> string \<Rightarrow> string list" where
  "review_lines env team s ts summary =
     (let wanted = (case ot_murmur team of None \<Rightarrow> [] | Some c \<Rightarrow> or_else (mc_context c) []) in
      [''# Orchestration Review'', '''', ''**Team:** '' @ ot_name team, ''**Trigger:** '' @ formatTriggerReason s,
       ''**Review Started:** '' @ mv_iso env ts, ''''] @
      doc_section env wanted ''vision'' ''Vision'' ''docs/vision.md'' @
      doc_section env wanted ''roadmap'' ''Roadmap'' ''docs/roadmap.md'' @
      [''## Task Summary'', '''', summary, '''', ''## Instructions'', '''',
       ''Review the above. Create new tasks, adjust existing ones, or report status using the aof_task_* tools.'', ''''])"

definition buildReviewContext :: "murmur_env \<Rightarrow> org_team \<Rightarrow> murmur_state \<Rightarrow> string m" where
  "buildReviewContext env team s = bind now (\<lambda>ts. bind (gets countByStatus) (\<lambda>counts.
     bind (list_tasks no_filters) (\<lambda>allTasks.
       ret (join_with [CHR 0x0A] (review_lines env team s ts (buildTaskSummary env s counts allTasks))))))"

subsection \<open>The hook on transitions (dispatch/murmur-hooks.ts)\<close>

definition is_review_task :: "task \<Rightarrow> bool" where
  "is_review_task t = (fm_metadata (t_fm t) ''kind'' = Some (JStr ''orchestration_review''))"

definition murmurHook :: "task \<Rightarrow> task_status \<Rightarrow> unit m" where
  "murmurHook t previousStatus =
     (let currentStatus = fm_status (t_fm t); team = rt_team (fm_routing (t_fm t)) in
      if \<not> truthy_str team then ret ()
      else best_effort (andThen
        (when_m (currentStatus = Done \<and> previousStatus \<noteq> Done)
          (if is_review_task t then endReview (the team) else incrementCompletions (the team)))
        (when_m (currentStatus = Deadletter \<and> previousStatus \<noteq> Deadletter) (incrementFailures (the team)))))"

subsection \<open>The evaluation after a poll (dispatch/murmur-integration.ts)\<close>

record murmur_options =
  mo_config :: exec_config
  mo_reviewTimeoutMs :: "int option"
  mo_maxConcurrentDispatches :: nat
  mo_currentInProgress :: nat

record murmur_result =
  mr_teamsEvaluated :: nat
  mr_reviewsTriggered :: nat
  mr_reviewsSkipped :: nat
  mr_reviewsDispatched :: nat
  mr_reviewsFailed :: nat

definition no_murmur :: murmur_result where
  "no_murmur = \<lparr>mr_teamsEvaluated = 0, mr_reviewsTriggered = 0, mr_reviewsSkipped = 0, mr_reviewsDispatched = 0, mr_reviewsFailed = 0\<rparr>"

definition log_murmur :: "string \<Rightarrow> string option \<Rightarrow> (string \<times> json) list \<Rightarrow> unit m" where
  "log_murmur ty i payload = best_effort (log_event ty ''scheduler'' i payload)"

definition opt_json :: "string option \<Rightarrow> json" where
  "opt_json s = (case s of None \<Rightarrow> JNull | Some x \<Rightarrow> JStr x)"

definition team_stats :: "string \<Rightarrow> task list \<Rightarrow> task_stats" where
  "team_stats team allTasks =
     (let own = filter (\<lambda>t. rt_team (fm_routing (t_fm t)) = Some team \<and> team \<noteq> []) allTasks in
      \<lparr>ts_ready = length (filter (\<lambda>t. fm_status (t_fm t) = Ready) own),
       ts_inProgress = length (filter (\<lambda>t. fm_status (t_fm t) = InProgress) own)\<rparr>)"

text \<open>The fields \<open>null\<close> of a trigger result are stored in the metadata as they are.\<close>

definition review_opts :: "org_team \<Rightarrow> string \<Rightarrow> trigger_result \<Rightarrow> create_opts" where
  "review_opts team body trigger =
     \<lparr>cr_title = ''Orchestration Review: '' @ ot_name team, cr_body = Some body, cr_priority = Some PHigh,
      cr_routing = Some (None, Some (ot_id team), ot_orchestrator team, None), cr_sla = None,
      cr_metadata = Some [''kind'' \<mapsto> JStr ''orchestration_review'', ''murmurTrigger'' \<mapsto> opt_json (tg_triggeredBy trigger),
        ''murmurReason'' \<mapsto> opt_json (tg_reason trigger)],
      cr_createdBy = ''aof-scheduler'', cr_parentId = None, cr_dependsOn = None, cr_workflow = None, cr_contextTier = None,
      cr_callbackDepth = None, cr_initialStatus = None\<rparr>"

definition create_review :: "murmur_env \<Rightarrow> exec_config \<Rightarrow> org_team \<Rightarrow> murmur_state \<Rightarrow> trigger_result \<Rightarrow> task m" where
  "create_review env cfg team s trigger = bind (buildReviewContext env team s) (\<lambda>body.
     bind (create_task (mv_hash env) (ec_projectId cfg) (mv_day env) (mv_suffix env (ot_id team)) (review_opts team body trigger)) (\<lambda>t.
     bind (transition_task (fm_id (t_fm t)) Ready (reason_opts ''murmur_review_created'')) (\<lambda>t.
       let i = fm_id (t_fm t) in
       andThen (startReview (ot_id team) i (or_else (tg_triggeredBy trigger) []))
         (andThen (log_murmur ''murmur.review.created'' (Some i)
             [(''team'', JStr (ot_id team)), (''triggeredBy'', opt_json (tg_triggeredBy trigger)),
              (''reason'', opt_json (tg_reason trigger)), (''orchestrator'', opt_json (ot_orchestrator team))])
           (ret t)))))"

definition review_context :: "exec_config \<Rightarrow> string \<Rightarrow> task \<Rightarrow> task \<Rightarrow> task_context" where
  "review_context cfg orchestrator review leased =
     \<lparr>cx_taskId = fm_id (t_fm review), cx_taskPath = path_or leased (taskPath (fm_id (t_fm review)) InProgress),
      cx_agent = orchestrator, cx_priority = fm_priority (t_fm review), cx_routing = fm_routing (t_fm review),
      cx_projectId = ec_projectId cfg, cx_hopContext = None, cx_timeoutMs = task_timeout (fm_metadata (t_fm review))\<rparr>"

definition review_spawned :: "string \<Rightarrow> org_team \<Rightarrow> spawn_result \<Rightarrow> murmur_result \<Rightarrow> murmur_result m" where
  "review_spawned i team r res =
     (let who = [(''team'', JStr (ot_id team)), (''orchestrator'', opt_json (ot_orchestrator team))] in
      if sr_success r then
        andThen (log_murmur ''murmur.review.dispatched'' (Some i) (who @ opt_str ''sessionId'' (sr_sessionId r)))
          (ret (res\<lparr>mr_reviewsDispatched := mr_reviewsDispatched res + 1\<rparr>))
      else
        andThen (log_murmur ''murmur.review.dispatch_failed'' (Some i) (who @ opt_str ''error'' (sr_error r)))
          (bind (transition_task i Ready (reason_opts ''murmur_dispatch_failed'')) (\<lambda>_.
            ret (res\<lparr>mr_reviewsFailed := mr_reviewsFailed res + 1\<rparr>))))"

text \<open>The counter of failures is raised before the transition back to ready, so when that throws too the
  handler counts the same failure twice.\<close>

definition dispatch_threw :: "murmur_env \<Rightarrow> string \<Rightarrow> org_team \<Rightarrow> nat \<Rightarrow> murmur_result \<Rightarrow> error \<Rightarrow> murmur_result m" where
  "dispatch_threw env i team before res e =
     andThen (log_murmur ''murmur.review.dispatch_error'' (Some i)
         [(''team'', JStr (ot_id team)), (''error'', JStr (mv_message env e))])
       (ret (res\<lparr>mr_reviewsFailed := mr_reviewsFailed res + before + 1\<rparr>))"

definition dispatch_review :: "murmur_env \<Rightarrow> exec_config \<Rightarrow> executor \<Rightarrow> org_team \<Rightarrow> task \<Rightarrow> murmur_result \<Rightarrow> murmur_result m" where
  "dispatch_review env cfg ex team review res =
     (let i = fm_id (t_fm review); orchestrator = or_else (ot_orchestrator team) [] in
      catch
        (bind (acquireLease i orchestrator (default_lease_opts\<lparr>lo_ttlMs := Some (ec_defaultLeaseTtlMs cfg)\<rparr>)) (\<lambda>leased.
           let context = review_context cfg orchestrator review leased in
           bind (ex_spawn ex context (or_else (cx_timeoutMs context) (or_else (ec_spawnTimeoutMs cfg) 300000)) []) (\<lambda>r.
             if sr_success r then review_spawned i team r res
             else catch (review_spawned i team r res) (\<lambda>e. dispatch_threw env i team 1 res e))))
        (dispatch_threw env i team 0 res))"

definition skip_review :: "murmur_result \<Rightarrow> murmur_result" where
  "skip_review res = res\<lparr>mr_reviewsSkipped := mr_reviewsSkipped res + 1\<rparr>"

definition fire_review ::
  "murmur_env \<Rightarrow> murmur_options \<Rightarrow> org_team \<Rightarrow> murmur_state \<Rightarrow> trigger_result \<Rightarrow> murmur_result \<Rightarrow> murmur_result m" where
  "fire_review env opts team s trigger res =
     (if mo_currentInProgress opts \<ge> mo_maxConcurrentDispatches opts then
        andThen (log_murmur ''murmur.trigger.skipped'' None
            [(''team'', JStr (ot_id team)), (''reason'', JStr ''concurrency_limit''), (''triggeredBy'', opt_json (tg_triggeredBy trigger)),
             (''currentInProgress'', JNum (of_nat (mo_currentInProgress opts))),
             (''maxConcurrentDispatches'', JNum (of_nat (mo_maxConcurrentDispatches opts)))])
          (ret (skip_review res))
      else if ec_dryRun (mo_config opts) then ret res
      else bind (create_review env (mo_config opts) team s trigger) (\<lambda>review.
        case ec_executor (mo_config opts) of
          None \<Rightarrow> ret res
        | Some ex \<Rightarrow> dispatch_review env (mo_config opts) ex team review res))"

text \<open>An error ends the evaluation of the team; what was counted before it stays counted.\<close>

definition evaluation_failed :: "murmur_env \<Rightarrow> org_team \<Rightarrow> murmur_result \<Rightarrow> error \<Rightarrow> murmur_result m" where
  "evaluation_failed env team res e =
     andThen (log_murmur ''murmur.evaluation.error'' None [(''team'', JStr (ot_id team)), (''error'', JStr (mv_message env e))]) (ret res)"

definition review_team :: "murmur_env \<Rightarrow> murmur_options \<Rightarrow> task list \<Rightarrow> org_team \<Rightarrow> murmur_config \<Rightarrow> murmur_result \<Rightarrow> murmur_result m" where
  "review_team env opts allTasks team config res0 =
     (let res = res0\<lparr>mr_teamsEvaluated := mr_teamsEvaluated res0 + 1\<rparr> in
      catch
        (bind (load_murmur (ot_id team)) (\<lambda>s.
         bind (cleanupStaleReview (ot_id team) s (or_else (mo_reviewTimeoutMs opts) 1800000) (ec_dryRun (mo_config opts))) (\<lambda>_.
         bind now (\<lambda>ts.
           let trigger = evaluateTriggers (mc_triggers config) s (team_stats (ot_id team) allTasks) ts;
               res1 = res\<lparr>mr_reviewsTriggered := mr_reviewsTriggered res + 1\<rparr>
           in if \<not> tg_shouldFire trigger then ret (skip_review res)
              else catch (fire_review env opts team s trigger res1) (evaluation_failed env team res1)))))
        (evaluation_failed env team res))"

definition orchestrated :: "org_team \<Rightarrow> bool" where
  "orchestrated team = (ot_murmur team \<noteq> None \<and> truthy_str (ot_orchestrator team))"

definition evaluateMurmurTriggers :: "murmur_env \<Rightarrow> murmur_options \<Rightarrow> org_team list \<Rightarrow> murmur_result m" where
  "evaluateMurmurTriggers env opts teams =
     (let teamsWithMurmur = filter orchestrated teams in
      if teamsWithMurmur = [] then ret no_murmur
      else bind (list_tasks no_filters) (\<lambda>allTasks.
        fold_m (\<lambda>team res. case ot_murmur team of None \<Rightarrow> ret res | Some config \<Rightarrow> review_team env opts allTasks team config res)
          teamsWithMurmur no_murmur))"

end
