(* ===== verification/MurmurProps.thy ===== *)
theory MurmurProps
  imports Murmur ProtocolProps Escalation
begin

section \<open>What the review cycle does\<close>

text \<open>
  Which trigger fires; what a firing team leaves in the store and in its state file, for every way the
  dispatch can end; that no second review is started while one lives; and that the limit on concurrent
  tasks does not bind the teams of one evaluation. The gateway adapter answers and leaves the store alone.
\<close>

subsection \<open>The state files and the store\<close>

abbreviation "murmurs_are m \<equiv> \<lambda>w. w_murmur w = m"

lemma murmurs_basic [wf_intros]:
  "preserves (murmurs_are m) (write_task p t)" "preserves (murmurs_are m) (unlink p)" "preserves (murmurs_are m) (rename_dir p q)"
  "preserves (murmurs_are m) (log_event ty a k pl)" "preserves (murmurs_are m) (read_task_at p)"
  "preserves (murmurs_are m) (remove_stale x u)" "preserves (murmurs_are m) (mkdir_run d)" "preserves (murmurs_are m) (change_run d f)"
  by (auto simp: preserves_def write_task_def put_file_def unlink_def rename_dir_def log_event_def read_task_at_def
      log_validation_failed_def remove_stale_def remove_file_def mkdir_run_def change_run_def run_simps bind_def Let_def andThen_def
      split: option.splits file_content.splits)

lemma murmurs_get [wf_intros]: "preserves (murmurs_are m) (get_task i)"
  unfolding get_task_def collect_match_def by (intro wf_intros)

lemma murmurs_transition [wf_intros]: "preserves (murmurs_are m) (transition_task i s opts)"
  unfolding transition_task_def move_task_def log_transition_events_def by (intro wf_intros)

lemma murmurs_acquire [wf_intros]: "preserves (murmurs_are m) (acquireLease i a opts)"
  unfolding acquireLease_def write_back_def start_run_def writeRunArtifact_def writeHeartbeat_def with_dir_def resolveTaskDir_def
    Let_def by (intro wf_intros)

lemma murmur_of_same: "w_murmur w' = w_murmur w \<Longrightarrow> murmur_of w' = murmur_of w"
  by (simp add: murmur_of_def fun_eq_iff)

lemma murmur_frame [simp]: "murmur_of (w\<lparr>w_events := e\<rparr>) = murmur_of w"
  by (simp add: murmur_of_def fun_eq_iff)

lemma yields_change_murmur:
  assumes "mu_teamId (f (w_now w) (murmur_of w team)) = team"
    and "\<And>w'. w_files w' = w_files w \<Longrightarrow> w_dirs w' = w_dirs w \<Longrightarrow> w_now w' = w_now w \<Longrightarrow>
      murmur_of w' = (murmur_of w)(team := f (w_now w) (murmur_of w team)) \<Longrightarrow> Q () w'"
  shows "yields (change_murmur team f) w Q"
  unfolding change_murmur_def load_murmur_def save_murmur_def using assms
  by (simp add: yields_simps murmur_of_def update_conv' fun_eq_iff)

lemma create_run:
  assumes "tidy w" "abs_store w i = None" "i = nextTaskId day (suffix 999) (w_now w)" "cr_workflow opts = None"
    and fm: "fm = new_frontmatter h pr opts None i (w_now w)" and "schema_ok fm" "cr_initialStatus opts = None"
  shows "\<exists>w'. create_task h pr day suffix opts w =
      (Inr \<lparr>t_fm = fm, t_body = or_else (cr_body opts) [], t_path = Some (taskPath i Backlog)\<rparr>, w') \<and>
    updates w i (fm, js_trim (or_else (cr_body opts) [])) w' \<and> w_murmur w' = w_murmur w"
proof -
  have cons: "consistent w" and df: "dirs_follow w" using assms(1) by (simp_all add: tidy_def)
  have none: "file_at w (taskPath i s) = None" for s using assms(2) abs_store_None [OF cons] by blast
  have empty: "map_of (w_dirs w) (taskPath i s) = None" for s using df assms(2) unfolding dirs_follow_def by fastforce
  let ?t = "\<lparr>t_fm = fm, t_body = or_else (cr_body opts) [], t_path = None\<rparr>"
  let ?w = "put_file (taskPath i Backlog) ?t w"
  obtain d where d: "ensureTaskDirs i Backlog ?w = (Inr (), ?w\<lparr>w_dirs := d\<rparr>)" using ensure_dirs_run by blast
  then have "w_dirs (snd (ensureTaskDirs i Backlog ?w)) = d" by simp
  then have w_dirs: "map_of d = (if map_of (w_dirs w) (taskPath i Backlog) = None
      then (map_of (w_dirs w))(taskPath i Backlog \<mapsto> empty_companion) else map_of (w_dirs w))"
    unfolding ensureTaskDirs_def by (auto simp: run_simps put_file_def update_conv' split: if_splits)
  have store: "consistent ?w \<and> abs_store ?w = (abs_store w)(i \<mapsto> (fm, js_trim (t_body ?t)))"
    by (rule consistent_replace [OF cons, where f = "\<lparr>fi_content = Parsed fm (js_trim (t_body ?t)), fi_mtime = w_now w\<rparr>"])
      (use cons none fm assms(7) in \<open>auto simp: consistent_def or_else_def\<close>)
  have "dirs_follow (?w\<lparr>w_dirs := d\<rparr>)"
    unfolding dirs_follow_def
  proof (intro allI impI)
    fix j s assume "map_of (w_dirs (?w\<lparr>w_dirs := d\<rparr>)) (taskPath j s) \<noteq> None"
    then have "j = i \<and> s = Backlog \<or> j \<noteq> i \<and> map_of (w_dirs w) (taskPath j s) \<noteq> None"
      using w_dirs empty by (auto simp: taskPath_def split: if_splits)
    then show "\<exists>fb. abs_store (?w\<lparr>w_dirs := d\<rparr>) j = Some fb \<and> fm_status (fst fb) = s"
    proof
      assume "j \<noteq> i \<and> map_of (w_dirs w) (taskPath j s) \<noteq> None"
      then show ?thesis using df store unfolding dirs_follow_def by simp
    qed (use store fm assms(7) in \<open>simp add: or_else_def\<close>)
  qed
  then have "updates w i (fm, js_trim (or_else (cr_body opts) [])) (?w\<lparr>w_dirs := d\<rparr>)"
    using store by (simp add: updates_def tidy_def put_file_def)
  moreover have "create_task h pr day suffix opts w = (Inr (?t\<lparr>t_path := Some (taskPath i Backlog)\<rparr>), ?w\<lparr>w_dirs := d\<rparr>)"
    using assms(3,4,6,7) none [of Backlog] d fm
    by (simp add: create_task_def resolve_workflow_def numeral_eq_Suc Let_def now_def write_task_def run_simps andThen_def bind_def or_else_def)
  ultimately show ?thesis by (auto simp: put_file_def)
qed

subsection \<open>A team that fires\<close>

definition started :: "string \<Rightarrow> string \<Rightarrow> int \<Rightarrow> murmur_state \<Rightarrow> murmur_state" where
  "started i kind ts s =
     s\<lparr>mu_currentReviewTaskId := Some i, mu_reviewStartedAt := Some ts, mu_lastReviewAt := Some ts,
       mu_lastTriggeredBy := Some kind, mu_completions := 0, mu_failures := 0\<rparr>"

definition review_text :: "murmur_env \<Rightarrow> org_team \<Rightarrow> murmur_state \<Rightarrow> world \<Rightarrow> string" where
  "review_text env team s w = join_with [CHR 0x0A]
     (review_lines env team s (w_now w) (buildTaskSummary env s (countByStatus w) (all_listed w)))"

text \<open>The new task of a review, and what the dispatch makes of it.\<close>

definition review_id :: "murmur_env \<Rightarrow> org_team \<Rightarrow> int \<Rightarrow> string" where
  "review_id env team ts = nextTaskId (mv_day env) (mv_suffix env (ot_id team) 999) ts"

definition review_ready :: "murmur_env \<Rightarrow> exec_config \<Rightarrow> org_team \<Rightarrow> trigger_result \<Rightarrow> string \<Rightarrow> int \<Rightarrow> frontmatter" where
  "review_ready env cfg team trigger doc ts =
     transition_fm (new_frontmatter (mv_hash env) (ec_projectId cfg) (review_opts team doc trigger) None (review_id env team ts) ts)
       Ready None ts"

definition review_after :: "exec_config \<Rightarrow> org_team \<Rightarrow> spawn_result \<Rightarrow> int \<Rightarrow> frontmatter \<Rightarrow> frontmatter" where
  "review_after cfg team r ts fm =
     (if ec_executor cfg = None then fm
      else let leased = acquired (the (ot_orchestrator team)) (ec_defaultLeaseTtlMs cfg) ts fm in
        if sr_success r then leased else transition_fm leased Ready None ts)"

definition review_counted :: "exec_config \<Rightarrow> spawn_result \<Rightarrow> murmur_result \<Rightarrow> murmur_result" where
  "review_counted cfg r res =
     (if ec_executor cfg = None then res
      else if sr_success r then res\<lparr>mr_reviewsDispatched := mr_reviewsDispatched res + 1\<rparr>
      else res\<lparr>mr_reviewsFailed := mr_reviewsFailed res + 1\<rparr>)"

lemma review_ready_simps [simp]:
  "fm_id (review_ready env cfg team trigger doc ts) = review_id env team ts"
  "fm_status (review_ready env cfg team trigger doc ts) = Ready"
  "fm_lease (review_ready env cfg team trigger doc ts) = None"
  by (simp_all add: review_ready_def transition_fm_def new_frontmatter_def)

text \<open>\<open>reviewed\<close>: a task was added and the state file of one team replaced.\<close>

definition reviewed :: "world \<Rightarrow> string \<Rightarrow> string \<Rightarrow> frontmatter \<times> string \<Rightarrow> murmur_state \<Rightarrow> world \<Rightarrow> bool" where
  "reviewed w team i fb s w' \<longleftrightarrow> updates w i fb w' \<and> murmur_of w' = (murmur_of w)(team := s)"

lemma reviewed_step: "reviewed w team i fb s w1 \<Longrightarrow> updates w1 i fc w2 \<Longrightarrow> w_murmur w2 = w_murmur w1 \<Longrightarrow> reviewed w team i fc s w2"
  using updates_trans [of w i fb w1 fc w2] murmur_of_same [of w2 w1] by (simp add: reviewed_def)

lemma reviewed_events [simp]: "reviewed w team i fb s (w'\<lparr>w_events := e\<rparr>) = reviewed w team i fb s w'"
  by (simp add: reviewed_def)

text \<open>The conditions under which a review task can be created.\<close>

definition can_review :: "murmur_env \<Rightarrow> exec_config \<Rightarrow> org_team \<Rightarrow> world \<Rightarrow> bool" where
  "can_review env cfg team w \<longleftrightarrow> tidy w \<and> valid_task_id (review_id env team (w_now w)) \<and> ec_projectId cfg \<noteq> Some [] \<and>
     abs_store w (review_id env team (w_now w)) = None \<and> truthy_str (ot_orchestrator team) \<and>
     mu_teamId (murmur_of w (ot_id team)) = ot_id team \<and> mu_currentReviewTaskId (murmur_of w (ot_id team)) = None"

lemma context_run: "consistent w \<Longrightarrow> buildReviewContext env team s w = (Inr (review_text env team s w), w)"
  by (simp add: buildReviewContext_def review_text_def now_def run_simps bind_run list_all_run)

lemma review_schema: "can_review env cfg team w \<Longrightarrow>
    schema_ok (new_frontmatter h (ec_projectId cfg) (review_opts team doc trigger) None (review_id env team (w_now w)) (w_now w))"
  by (simp add: schema_ok_def new_frontmatter_def review_opts_def can_review_def or_else_def gate_workflow_exclusive_def)

lemma create_review_yields:
  assumes can: "can_review env cfg team w" and s: "s = murmur_of w (ot_id team)" and kind: "tg_triggeredBy trigger = Some kind"
    and doc: "doc = review_text env team s w"
  shows "yields (create_review env cfg team s trigger) w (\<lambda>t w'. fm_id (t_fm t) = review_id env team (w_now w) \<and>
    t_fm t = review_ready env cfg team trigger doc (w_now w) \<and>
    reviewed w (ot_id team) (review_id env team (w_now w)) (review_ready env cfg team trigger doc (w_now w), js_trim doc)
      (started (review_id env team (w_now w)) kind (w_now w) s) w')"
proof -
  let ?i = "review_id env team (w_now w)" and ?opts = "review_opts team doc trigger"
  let ?fm0 = "new_frontmatter (mv_hash env) (ec_projectId cfg) ?opts None ?i (w_now w)"
  let ?fm1 = "review_ready env cfg team trigger doc (w_now w)"
  have tidy: "tidy w" "abs_store w ?i = None" using can by (simp_all add: can_review_def)
  have opts: "cr_workflow ?opts = None" "cr_initialStatus ?opts = None" "or_else (cr_body ?opts) [] = doc"
    by (simp_all add: review_opts_def or_else_def)
  from create_run [OF tidy _ opts(1) refl review_schema [OF can] opts(2), of "mv_day env" "mv_suffix env (ot_id team)" "mv_hash env"]
  obtain w1 where w1: "create_task (mv_hash env) (ec_projectId cfg) (mv_day env) (mv_suffix env (ot_id team)) ?opts w =
      (Inr \<lparr>t_fm = ?fm0, t_body = doc, t_path = Some (taskPath ?i Backlog)\<rparr>, w1)"
    "updates w ?i (?fm0, js_trim doc) w1" "w_murmur w1 = w_murmur w"
    unfolding opts(3) by (auto simp: review_id_def)
  note d1 = updatesD [OF w1(2)]
  have st0: "fm_status ?fm0 = Backlog" by (simp add: opts(2) or_else_def)
  have move: "yields (transition_task ?i Ready (reason_opts ''murmur_review_created'')) w1
      (\<lambda>t w2. (t_fm t = ?fm1 \<and> updates w ?i (?fm1, js_trim doc) w2) \<and> w_murmur w2 = w_murmur w1)"
  proof (rule yields_frame [OF _ murmurs_transition refl], rule yields_transition [OF d1(1,4)])
    show "isValidTransition (fm_status (fst (?fm0, js_trim doc))) Ready" unfolding fst_conv st0 by (simp add: isValidTransition_def)
    fix w2 assume "updates w1 ?i (transition_fm (fst (?fm0, js_trim doc)) Ready
        (to_metadataPatch (reason_opts ''murmur_review_created'')) (w_now w1), js_trim (snd (?fm0, js_trim doc))) w2"
    then have "updates w ?i (?fm1, js_trim doc) w2"
      using updates_trans [OF w1(2)] d1(3) by (simp add: review_ready_def reason_opts_def no_opts_def)
    then show "t_fm (transition_result ?i Ready (reason_opts ''murmur_review_created'') (w_now w1) (?fm0, js_trim doc)) = ?fm1 \<and>
        updates w ?i (?fm1, js_trim doc) w2"
      using d1(3) by (simp add: transition_result_def review_ready_def reason_opts_def no_opts_def)
  qed
  show ?thesis
    unfolding create_review_def yields_bind yields_run [of "buildReviewContext env team s" w, OF context_run [OF tidy_consistent [OF tidy(1)]]]
      doc [symmetric] yields_run [of "create_task (mv_hash env) (ec_projectId cfg) (mv_day env) (mv_suffix env (ot_id team)) ?opts" w, OF w1(1)]
  proof (simp add: Let_def, rule yields_mono [OF move], elim conjE)
    fix t w2 assume t: "t_fm t = ?fm1" "updates w ?i (?fm1, js_trim doc) w2" "w_murmur w2 = w_murmur w1"
    have mu2: "murmur_of w2 = murmur_of w" by (rule murmur_of_same) (simp add: t(3) w1(3))
    have now2: "w_now w2 = w_now w" using updatesD [OF t(2)] by simp
    have team: "mu_teamId (murmur_of w (ot_id team)) = ot_id team" using can by (simp add: can_review_def)
    show "yields (andThen (startReview (ot_id team) (fm_id (t_fm t)) (or_else (tg_triggeredBy trigger) []))
        (andThen (log_murmur ''murmur.review.created'' (Some (fm_id (t_fm t)))
           [(''team'', JStr (ot_id team)), (''triggeredBy'', opt_json (tg_triggeredBy trigger)),
            (''reason'', opt_json (tg_reason trigger)), (''orchestrator'', opt_json (ot_orchestrator team))]) (ret t))) w2
        (\<lambda>t w'. fm_id (t_fm t) = ?i \<and> t_fm t = ?fm1 \<and>
          reviewed w (ot_id team) ?i (?fm1, js_trim doc) (started ?i kind (w_now w) s) w')"
      unfolding yields_andThen startReview_def kind or_else_def option.case t(1) review_ready_simps
    proof (rule yields_change_murmur)
      fix w3 assume w3: "w_files w3 = w_files w2" "w_dirs w3 = w_dirs w2" "w_now w3 = w_now w2"
        "murmur_of w3 = (murmur_of w2)(ot_id team := (murmur_of w2 (ot_id team))\<lparr>mu_currentReviewTaskId := Some ?i,
           mu_reviewStartedAt := Some (w_now w2), mu_lastReviewAt := Some (w_now w2), mu_lastTriggeredBy := Some kind,
           mu_completions := 0, mu_failures := 0\<rparr>)"
      have "updates w ?i (?fm1, js_trim doc) w3"
        using t(2) w3(1-3) tidy_frame_eq [of w3 w2] files_frame(1) [of w3 w2] by (simp add: updates_def)
      then have "reviewed w (ot_id team) ?i (?fm1, js_trim doc) (started ?i kind (w_now w) s) w3"
        using w3(4) mu2 now2 s by (simp add: reviewed_def started_def)
      then show "yields (log_murmur ''murmur.review.created'' (Some ?i)
           [(''team'', JStr (ot_id team)), (''triggeredBy'', opt_json (Some kind)), (''reason'', opt_json (tg_reason trigger)),
            (''orchestrator'', opt_json (ot_orchestrator team))]) w3
          (\<lambda>x w'. yields (ret t) w' (\<lambda>t w'. fm_id (t_fm t) = ?i \<and> t_fm t = ?fm1 \<and>
             reviewed w (ot_id team) ?i (?fm1, js_trim doc) (started ?i kind (w_now w) s) w'))"
        unfolding log_murmur_def using t(1) by (intro yields_log_best) (simp add: yields_pure)
    qed (simp add: mu2 team)
  qed
qed

lemma acquire_yields:
  assumes "tidy w" "abs_store w i = Some (fm, b)" "fm_status fm = Ready" "fm_lease fm = None" "lo_ttlMs opts = Some ttl"
  shows "yields (acquireLease i a opts) w (\<lambda>t w'. updates w i (acquired a ttl (w_now w) fm, js_trim b) w' \<and> w_murmur w' = w_murmur w)"
proof (rule yields_frame [OF _ murmurs_acquire refl])
  show "yields (acquireLease i a opts) w (\<lambda>t w'. updates w i (acquired a ttl (w_now w) fm, js_trim b) w')"
    using acquire_run [OF assms(1,2), of a ttl opts] assms(3-5) by (auto simp: yields_def leased_elsewhere_def or_else_def)
qed

lemma spawned_yields:
  assumes "reviewed w tm i (fm, b) s w1" "fm_status fm = InProgress" "js_trim b = b"
  shows "yields (review_spawned i team r res) w1 (\<lambda>res' w'.
    res' = (if sr_success r then res\<lparr>mr_reviewsDispatched := mr_reviewsDispatched res + 1\<rparr>
            else res\<lparr>mr_reviewsFailed := mr_reviewsFailed res + 1\<rparr>) \<and>
    reviewed w tm i (if sr_success r then fm else transition_fm fm Ready None (w_now w), b) s w')"
proof (cases "sr_success r")
  case True
  then show ?thesis
    unfolding review_spawned_def log_murmur_def Let_def using assms(1)
    by (simp add: yields_andThen) (intro yields_log_best, simp add: yields_pure)
next
  case False
  have u: "updates w i (fm, b) w1" using assms(1) by (simp add: reviewed_def)
  note d1 = updatesD [OF u]
  have move: "yields (transition_task i Ready (reason_opts ''murmur_dispatch_failed'')) (w1\<lparr>w_events := e\<rparr>)
      (\<lambda>_ w'. reviewed w tm i (transition_fm fm Ready None (w_now w), b) s w')" for e
  proof -
    have "isValidTransition (fm_status (fst (fm, b))) Ready" using assms(2) by (simp add: isValidTransition_def)
    then have "yields (transition_task i Ready (reason_opts ''murmur_dispatch_failed'')) (w1\<lparr>w_events := e\<rparr>)
        (\<lambda>_ w2. updates (w1\<lparr>w_events := e\<rparr>) i (transition_fm fm Ready None (w_now w), b) w2)"
      using d1 assms(3) by (intro yields_transition [where fb = "(fm, b)"]) (simp_all add: reason_opts_def no_opts_def)
    then have "yields (transition_task i Ready (reason_opts ''murmur_dispatch_failed'')) (w1\<lparr>w_events := e\<rparr>)
        (\<lambda>_ w2. updates (w1\<lparr>w_events := e\<rparr>) i (transition_fm fm Ready None (w_now w), b) w2 \<and> w_murmur w2 = w_murmur w1)"
      by (rule yields_frame [OF _ murmurs_transition]) simp
    then show ?thesis
      using reviewed_step [of w tm i "(fm, b)" s "w1\<lparr>w_events := e\<rparr>"] assms(1) by (auto elim!: yields_mono)
  qed
  show ?thesis
    unfolding review_spawned_def log_murmur_def Let_def if_not_P [OF False] yields_andThen yields_bind yields_pure
    by (intro yields_log_best yields_mono [OF move]) simp
qed

lemma dispatch_review_yields:
  assumes "reviewed w tm i (fm, b) s w1" "fm_status fm = Ready" "fm_lease fm = None" "js_trim b = b"
    and "ec_executor cfg = Some ex" "spawn_answers ex r" "truthy_str (ot_orchestrator team)" "fm_id (t_fm t) = i"
  shows "yields (dispatch_review env cfg ex team t res) w1 (\<lambda>res' w'. res' = review_counted cfg r res \<and>
    reviewed w tm i (review_after cfg team r (w_now w) fm, b) s w')"
proof -
  let ?o = "the (ot_orchestrator team)"
  let ?fm = "acquired ?o (ec_defaultLeaseTtlMs cfg) (w_now w) fm"
  have u: "updates w i (fm, b) w1" using assms(1) by (simp add: reviewed_def)
  note d1 = updatesD [OF u]
  have o: "or_else (ot_orchestrator team) [] = ?o" using assms(7) by (simp add: or_else_def truthy_str_def split: option.splits)
  have acq: "yields (acquireLease i ?o (default_lease_opts\<lparr>lo_ttlMs := Some (ec_defaultLeaseTtlMs cfg)\<rparr>)) w1
      (\<lambda>t w'. reviewed w tm i (?fm, b) s w')"
    by (rule yields_mono [OF acquire_yields [OF d1(1,4) assms(2,3)]])
      (use reviewed_step [OF assms(1)] d1(3) assms(4) in auto)
  have spawned: "yields (if sr_success r then review_spawned i team r res
        else catch (review_spawned i team r res) (dispatch_threw env i team 1 res)) w2
      (\<lambda>res' w'. res' = review_counted cfg r res \<and> reviewed w tm i (review_after cfg team r (w_now w) fm, b) s w')"
    if w2: "reviewed w tm i (?fm, b) s w2" for w2
  proof -
    have "yields (review_spawned i team r res) w2
        (\<lambda>res' w'. res' = review_counted cfg r res \<and> reviewed w tm i (review_after cfg team r (w_now w) fm, b) s w')"
      using spawned_yields [OF w2 _ assms(4), of team r res] assms(5)
      by (auto simp: review_counted_def review_after_def Let_def elim!: yields_mono split: if_splits)
    then show ?thesis by (auto intro: yields_catch)
  qed
  show ?thesis
    unfolding dispatch_review_def Let_def assms(8) o
    by (rule yields_catch, unfold yields_bind, rule yields_mono [OF acq])
      (use assms(6) spawned in \<open>simp add: yields_run [of _ _ r] spawn_answers_def\<close>)
qed

lemma review_team_yields:
  assumes can: "can_review env cfg team w" and cfg: "mo_config opts = cfg"
    and fires: "tg_shouldFire trigger" "trigger = evaluateTriggers (mc_triggers config) (murmur_of w (ot_id team)) (team_stats (ot_id team) allTasks) (w_now w)"
      "tg_triggeredBy trigger = Some kind"
    and room: "mo_currentInProgress opts < mo_maxConcurrentDispatches opts" "\<not> ec_dryRun cfg" and quiet: "quiet_executor cfg r"
    and doc: "doc = review_text env team (murmur_of w (ot_id team)) w"
  shows "yields (review_team env opts allTasks team config res) w (\<lambda>res' w'.
    res' = review_counted cfg r (res\<lparr>mr_teamsEvaluated := mr_teamsEvaluated res + 1, mr_reviewsTriggered := mr_reviewsTriggered res + 1\<rparr>) \<and>
    reviewed w (ot_id team) (review_id env team (w_now w))
      (review_after cfg team r (w_now w) (review_ready env cfg team trigger doc (w_now w)), js_trim doc)
      (started (review_id env team (w_now w)) kind (w_now w) (murmur_of w (ot_id team))) w')"
proof -
  let ?s = "murmur_of w (ot_id team)" and ?i = "review_id env team (w_now w)"
  let ?res = "res\<lparr>mr_teamsEvaluated := mr_teamsEvaluated res + 1, mr_reviewsTriggered := mr_reviewsTriggered res + 1\<rparr>"
  let ?Q = "\<lambda>res' w'. res' = review_counted cfg r ?res \<and> reviewed w (ot_id team) ?i
      (review_after cfg team r (w_now w) (review_ready env cfg team trigger doc (w_now w)), js_trim doc)
      (started ?i kind (w_now w) ?s) w'"
  have orch: "truthy_str (ot_orchestrator team)" and idle: "mu_currentReviewTaskId ?s = None"
    using can by (simp_all add: can_review_def)
  have fire: "fire_review env opts team ?s trigger ?res = bind (create_review env cfg team ?s trigger) (\<lambda>review.
      case ec_executor cfg of None \<Rightarrow> ret ?res | Some ex \<Rightarrow> dispatch_review env cfg ex team review ?res)"
    using room by (simp only: fire_review_def cfg not_le [symmetric] if_False)
  have fires_yield: "yields (fire_review env opts team ?s trigger ?res) w ?Q"
    unfolding fire yields_bind
  proof (rule yields_mono [OF create_review_yields [OF can refl fires(3) doc]], elim conjE)
    fix t :: task and w1 assume t: "fm_id (t_fm t) = ?i" "t_fm t = review_ready env cfg team trigger doc (w_now w)" "reviewed w (ot_id team) ?i (review_ready env cfg team trigger doc (w_now w), js_trim doc)
        (started ?i kind (w_now w) ?s) w1"
    show "yields (case ec_executor cfg of None \<Rightarrow> ret ?res | Some ex \<Rightarrow> dispatch_review env cfg ex team t ?res) w1 ?Q"
    proof (cases "ec_executor cfg")
      case None
      then show ?thesis using t(3) by (simp add: yields_pure review_counted_def review_after_def)
    next
      case (Some ex)
      then show ?thesis
        using dispatch_review_yields [OF t(3) _ _ _ Some _ orch t(1)] quiet by (simp add: quiet_executor_def)
    qed
  qed
  show ?thesis
    unfolding review_team_def Let_def
    by (rule yields_catch)
      (use fires_yield fires(1,2) idle cfg in \<open>simp add: yields_bind load_murmur_def yields_pure cleanupStaleReview_def yields_catch\<close>)
qed

subsection \<open>A review in progress\<close>

lemma review_in_progress:
  assumes "tidy w" "mu_currentReviewTaskId (murmur_of w (ot_id team)) = Some i" "abs_store w i = Some fb"
    and "fm_status (fst fb) \<notin> {Done, Cancelled, Deadletter}" "mu_reviewStartedAt (murmur_of w (ot_id team)) = Some begun"
    and "w_now w - begun < or_else (mo_reviewTimeoutMs opts) 1800000"
  shows "review_team env opts allTasks team config res w =
    (Inr (skip_review (res\<lparr>mr_teamsEvaluated := mr_teamsEvaluated res + 1\<rparr>)), w)"
proof -
  let ?s = "murmur_of w (ot_id team)"
  have "stale_reason (or_else (mo_reviewTimeoutMs opts) 1800000) ?s (Some (loaded i fb)) (w_now w) = None"
    using assms(4-6) by (simp add: stale_reason_def)
  then have clean: "cleanupStaleReview (ot_id team) ?s (or_else (mo_reviewTimeoutMs opts) 1800000) d w = (Inr None, w)" for d
    using assms(1-3) by (simp add: cleanupStaleReview_def bind_def get_run now_def run_simps)
  then show ?thesis
    using assms(2) by (simp add: review_team_def Let_def load_murmur_def bind_def now_def run_simps catch_def evaluateTriggers_def not_fired_def)
qed

subsection \<open>Triggers\<close>

fun kind_str :: "murmur_kind \<Rightarrow> string" where
  "kind_str QueueEmpty = ''queueEmpty''"
| "kind_str CompletionBatch = ''completionBatch''"
| "kind_str IntervalElapsed = ''interval''"
| "kind_str FailureBatch = ''failureBatch''"

definition trigger_due :: "murmur_state \<Rightarrow> task_stats \<Rightarrow> int \<Rightarrow> murmur_trigger \<Rightarrow> bool" where
  "trigger_due s st ts t = (case mt_kind t of
     QueueEmpty \<Rightarrow> ts_ready st + ts_inProgress st = 0
   | CompletionBatch \<Rightarrow> (case mt_threshold t of None \<Rightarrow> False | Some n \<Rightarrow> n \<le> mu_completions s)
   | FailureBatch \<Rightarrow> (case mt_threshold t of None \<Rightarrow> False | Some n \<Rightarrow> n \<le> mu_failures s)
   | IntervalElapsed \<Rightarrow> (case (mt_intervalMs t, mu_lastReviewAt s) of
       (Some n, Some r) \<Rightarrow> r + n \<le> ts | (Some n, None) \<Rightarrow> True | (None, _) \<Rightarrow> False))"

lemma single_trigger:
  "tg_shouldFire (evaluateSingleTrigger t s st ts) = trigger_due s st ts t"
  "trigger_due s st ts t \<Longrightarrow> tg_triggeredBy (evaluateSingleTrigger t s st ts) = Some (kind_str (mt_kind t))"
  by (cases "mt_kind t"; cases "mt_threshold t"; cases "mt_intervalMs t"; cases "mu_lastReviewAt s";
      simp add: evaluateSingleTrigger_def trigger_due_def evaluateQueueEmpty_def evaluateCompletionBatch_def
        evaluateInterval_def evaluateFailureBatch_def fired_def not_fired_def algebra_simps)+

lemma first_fired_find:
  "first_fired ts s st n = (case find (trigger_due s st n) ts of None \<Rightarrow> not_fired | Some t \<Rightarrow> evaluateSingleTrigger t s st n)"
  by (induction ts) (simp_all add: Let_def single_trigger)

lemma fired_kind: "tg_shouldFire (evaluateTriggers ts s st n) \<Longrightarrow> \<exists>kind. tg_triggeredBy (evaluateTriggers ts s st n) = Some kind"
  by (auto simp: evaluateTriggers_def first_fired_find single_trigger not_fired_def find_Some_iff split: option.splits if_splits)

text \<open>Fact: a review is due exactly when none is in progress for the team and some configured trigger is due, and the
  first one that is due is named: an empty queue is due when no task of the team is ready or in progress, a batch when
  its counter has reached the threshold, an interval when so much time has passed since the last review or none ever
  happened; a batch without threshold and an interval without length never are.\<close>

theorem triggers_exact:
  "tg_shouldFire (evaluateTriggers triggers s st ts) =
      (mu_currentReviewTaskId s = None \<and> find (trigger_due s st ts) triggers \<noteq> None) \<and>
    tg_triggeredBy (evaluateTriggers triggers s st ts) =
      (if mu_currentReviewTaskId s = None then map_option (kind_str \<circ> mt_kind) (find (trigger_due s st ts) triggers) else None)"
proof (cases "find (trigger_due s st ts) triggers")
  case (Some t)
  then have "trigger_due s st ts t" by (auto simp: find_Some_iff)
  then show ?thesis using Some by (simp add: evaluateTriggers_def first_fired_find single_trigger not_fired_def)
qed (simp add: evaluateTriggers_def first_fired_find not_fired_def)

subsection \<open>One review\<close>


subsection \<open>Several teams\<close>

definition due_review :: "murmur_env \<Rightarrow> exec_config \<Rightarrow> task list \<Rightarrow> world \<Rightarrow> org_team \<Rightarrow> bool" where
  "due_review env cfg allTasks w team \<longleftrightarrow> can_review env cfg team w \<and> (\<exists>config. ot_murmur team = Some config \<and>
     tg_shouldFire (evaluateTriggers (mc_triggers config) (murmur_of w (ot_id team)) (team_stats (ot_id team) allTasks) (w_now w)))"

text \<open>What a loop over due teams leaves: each has its review in progress.\<close>

definition all_running :: "murmur_env \<Rightarrow> org_team list \<Rightarrow> int \<Rightarrow> world \<Rightarrow> bool" where
  "all_running env teams ts w \<longleftrightarrow>
     (\<forall>team \<in> set teams. \<exists>fb. abs_store w (review_id env team ts) = Some fb \<and> fm_status (fst fb) = InProgress)"

lemma due_after:
  assumes "due_review env cfg allTasks w team" "reviewed w other i fb s w1" "other \<noteq> ot_id team" "i \<noteq> review_id env team (w_now w)"
  shows "due_review env cfg allTasks w1 team"
  using assms by (auto simp: due_review_def can_review_def reviewed_def updates_def)

lemma reviews_loop:
  assumes "tidy w" "list_all (due_review env cfg allTasks w) teams" "distinct (map ot_id teams)" "inj_on (\<lambda>team. review_id env team (w_now w)) (set teams)"
    and "mo_config opts = cfg" "mo_currentInProgress opts < mo_maxConcurrentDispatches opts" "\<not> ec_dryRun cfg"
    and "ec_executor cfg = Some ex" "quiet_executor cfg r" "sr_success r"
  shows "yields (fold_m (\<lambda>team res. case ot_murmur team of None \<Rightarrow> ret res | Some config \<Rightarrow> review_team env opts allTasks team config res) teams res) w
    (\<lambda>res' w'. mr_reviewsDispatched res' = mr_reviewsDispatched res + length teams \<and> all_running env teams (w_now w) w' \<and> tidy w' \<and>
      (\<forall>j. j \<notin> (\<lambda>team. review_id env team (w_now w)) ` set teams \<longrightarrow> abs_store w' j = abs_store w j))"
  using assms(1-4)
proof (induction teams arbitrary: w res)
  case Nil
  then show ?case by (simp add: yields_pure all_running_def)
next
  case (Cons x xs)
  let ?i = "review_id env x (w_now w)"
  obtain config where config: "ot_murmur x = Some config" "can_review env cfg x w" "tg_shouldFire (evaluateTriggers (mc_triggers config)
      (murmur_of w (ot_id x)) (team_stats (ot_id x) allTasks) (w_now w))"
    using Cons.prems(2) by (auto simp: due_review_def)
  obtain kind where kind: "tg_triggeredBy (evaluateTriggers (mc_triggers config)
      (murmur_of w (ot_id x)) (team_stats (ot_id x) allTasks) (w_now w)) = Some kind" using fired_kind config(3) by blast
  note step = review_team_yields [OF config(2) assms(5) config(3) refl kind assms(6,7,9) refl, of res]
  show ?case
    unfolding fold_m.simps config(1) option.case
  proof (rule yields_seq_bind [OF step], elim conjE)
    fix res1 w1 assume res1: "res1 = review_counted cfg r (res\<lparr>mr_teamsEvaluated := mr_teamsEvaluated res + 1,
        mr_reviewsTriggered := mr_reviewsTriggered res + 1\<rparr>)"
      and w1: "reviewed w (ot_id x) ?i (review_after cfg x r (w_now w) (review_ready env cfg x (evaluateTriggers (mc_triggers config)
        (murmur_of w (ot_id x)) (team_stats (ot_id x) allTasks) (w_now w)) (review_text env x (murmur_of w (ot_id x)) w) (w_now w)),
        js_trim (review_text env x (murmur_of w (ot_id x)) w)) (started ?i kind (w_now w) (murmur_of w (ot_id x))) w1"
    have u: "\<exists>fm b. updates w ?i (fm, b) w1 \<and> fm_status fm = InProgress"
      using w1 assms(8,10) by (auto simp: reviewed_def review_after_def Let_def)
    then obtain fm b where fm: "updates w ?i (fm, b) w1" "fm_status fm = InProgress" by blast
    note d1 = updatesD [OF fm(1)]
    have others: "team \<in> set xs \<Longrightarrow> ?i \<noteq> review_id env team (w_now w)" for team
      using Cons.prems(3,4) by (auto simp: inj_on_def)
    have due: "list_all (due_review env cfg allTasks w1) xs"
      unfolding list_all_iff
    proof
      fix team assume "team \<in> set xs"
      then show "due_review env cfg allTasks w1 team"
        using Cons.prems(2,3) others by (intro due_after [OF _ w1]) (auto simp: list_all_iff)
    qed
    have "inj_on (\<lambda>team. review_id env team (w_now w1)) (set xs)" "distinct (map ot_id xs)"
      using Cons.prems(3,4) d1(3) by (auto simp: inj_on_def)
    from Cons.IH [OF d1(1) due this(2,1), of res1]
    show "yields (fold_m (\<lambda>team res. case ot_murmur team of None \<Rightarrow> ret res | Some config \<Rightarrow> review_team env opts allTasks team config res) xs res1) w1
      (\<lambda>res' w'. mr_reviewsDispatched res' = mr_reviewsDispatched res + length (x # xs) \<and> all_running env (x # xs) (w_now w) w' \<and> tidy w' \<and>
        (\<forall>j. j \<notin> (\<lambda>team. review_id env team (w_now w)) ` set (x # xs) \<longrightarrow> abs_store w' j = abs_store w j))"
    proof (rule yields_mono, elim conjE, intro conjI)
      fix res' w' assume p: "mr_reviewsDispatched res' = mr_reviewsDispatched res1 + length xs" "all_running env xs (w_now w1) w'" "tidy w'"
        "\<forall>j. j \<notin> (\<lambda>team. review_id env team (w_now w1)) ` set xs \<longrightarrow> abs_store w' j = abs_store w1 j"
      show "mr_reviewsDispatched res' = mr_reviewsDispatched res + length (x # xs)"
        using p(1) res1 assms(8,10) by (simp add: review_counted_def)
      have "?i \<notin> (\<lambda>team. review_id env team (w_now w1)) ` set xs" using others d1(3) by auto
      then show "all_running env (x # xs) (w_now w) w'" using p(2,4) d1(3,4) fm(2) by (simp add: all_running_def)
      show "\<forall>j. j \<notin> (\<lambda>team. review_id env team (w_now w)) ` set (x # xs) \<longrightarrow> abs_store w' j = abs_store w j"
        using p(4) d1(3,5) by auto
    qed
  qed
qed

text \<open>Fact: the limit on concurrent tasks does not bind the reviews of one evaluation. The number of running tasks is taken before
  the loop over the teams and not raised by the reviews it dispatches, so as soon as there is room for one more task, every due
  team has its review spawned: with a limit of one and no task running, two due teams put two tasks in progress. Hypotheses: the
  teams and the ids of the new tasks differ, and the adapter accepts every spawn.\<close>

theorem reviews_exceed_limit:
  assumes "tidy w" "list_all orchestrated teams" "teams \<noteq> []" "list_all (due_review env cfg (all_listed w) w) teams" "distinct (map ot_id teams)"
    and "inj_on (\<lambda>team. review_id env team (w_now w)) (set teams)"
    and "mo_config opts = cfg" "mo_currentInProgress opts < mo_maxConcurrentDispatches opts" "\<not> ec_dryRun cfg"
    and "ec_executor cfg = Some ex" "quiet_executor cfg r" "sr_success r"
  shows "\<exists>res' w'. evaluateMurmurTriggers env opts teams w = (Inr res', w') \<and> mr_reviewsDispatched res' = length teams \<and>
    all_running env teams (w_now w) w' \<and>
    (\<forall>j. j \<notin> (\<lambda>team. review_id env team (w_now w)) ` set teams \<longrightarrow> abs_store w' j = abs_store w j)"
proof -
  have "filter orchestrated teams = teams" using assms(2) by (simp add: list_all_iff)
  then have "evaluateMurmurTriggers env opts teams w = fold_m (\<lambda>team res. case ot_murmur team of None \<Rightarrow> ret res
      | Some config \<Rightarrow> review_team env opts (all_listed w) team config res) teams no_murmur w"
    using assms(3) by (simp add: evaluateMurmurTriggers_def bind_run list_all_run tidy_consistent assms(1))
  then show ?thesis
    using reviews_loop [OF assms(1,4-12), of no_murmur] by (auto simp: yields_def no_murmur_def)
qed

subsection \<open>Examples\<close>

definition sample_team :: "string \<Rightarrow> org_team" where
  "sample_team i = \<lparr>ot_id = i, ot_name = i, ot_dispatch = None, ot_orchestrator = Some ''pm'', ot_lead = None,
     ot_murmur = Some \<lparr>mc_triggers = [\<lparr>mt_kind = QueueEmpty, mt_threshold = None, mt_intervalMs = None\<rparr>], mc_context = None\<rparr>\<rparr>"

definition sample_murmur :: murmur_env where
  "sample_murmur = \<lparr>mv_doc = \<lambda>p. None, mv_iso = \<lambda>t. [], mv_message = \<lambda>e. [], mv_hash = \<lambda>b. [], mv_day = \<lambda>t. ''2026-02-04'',
     mv_suffix = \<lambda>team k. if team = ''a'' then ''001'' else ''002''\<rparr>"

definition accepted_spawn :: spawn_result where
  "accepted_spawn = \<lparr>sr_success = True, sr_sessionId = None, sr_error = None\<rparr>"

definition eager_executor :: executor where
  "eager_executor = \<lparr>ex_spawn = \<lambda>cx t c w. (Inr accepted_spawn, w), ex_forceComplete = \<lambda>s w. (Inr (), w)\<rparr>"

definition eager_config :: exec_config where
  "eager_config = no_executor\<lparr>ec_executor := Some eager_executor\<rparr>"

definition one_slot :: murmur_options where
  "one_slot = \<lparr>mo_config = eager_config, mo_reviewTimeoutMs = None, mo_maxConcurrentDispatches = 1, mo_currentInProgress = 0\<rparr>"

lemma sample_review_id [simp]:
  "review_id sample_murmur (sample_team i) ts = (if i = ''a'' then ''TASK-2026-02-04-001'' else ''TASK-2026-02-04-002'')"
  by (simp add: review_id_def nextTaskId_def sample_murmur_def sample_team_def)

lemma sample_ids_valid: "valid_task_id ''TASK-2026-02-04-001''" "valid_task_id ''TASK-2026-02-04-002''"
  by code_simp+

lemma empty_world: "tidy (tasks_world [])" "abs_store (tasks_world []) i = None" "all_listed (tasks_world []) = []"
    "murmur_of (tasks_world []) team = getDefaultState team"
proof -
  show t: "tidy (tasks_world [])" "abs_store (tasks_world []) i = None" by simp_all
  have "t \<notin> set (all_listed (tasks_world []))" for t using in_all_listed [OF tidy_consistent [OF t(1)]] by auto
  then show "all_listed (tasks_world []) = []" by (metis list.set_intros(1) neq_Nil_conv)
  show "murmur_of (tasks_world []) team = getDefaultState team" by (simp add: murmur_of_def tasks_world_def world_of_def)
qed

lemma sample_can: "can_review sample_murmur eager_config (sample_team i) (tasks_world [])"
  unfolding can_review_def empty_world sample_review_id
  by (simp add: sample_ids_valid eager_config_def no_executor_def getDefaultState_def) (simp add: sample_team_def truthy_str_def)

lemma sample_fires: "tg_shouldFire (evaluateTriggers (mc_triggers (the (ot_murmur (sample_team i)))) (getDefaultState j) (team_stats k []) ts)"
  by (simp add: sample_team_def evaluateTriggers_def getDefaultState_def evaluateSingleTrigger_def evaluateQueueEmpty_def
      team_stats_def fired_def)

lemma sample_due: "due_review sample_murmur eager_config [] (tasks_world []) (sample_team i)"
  unfolding due_review_def empty_world using sample_can [of i] sample_fires [of i]
  by (auto simp: sample_team_def)

lemma eager_quiet: "quiet_executor eager_config accepted_spawn"
  by (simp add: quiet_executor_def eager_config_def eager_executor_def spawn_answers_def)

lemma slot_simps: "mo_config one_slot = eager_config" "mo_currentInProgress one_slot < mo_maxConcurrentDispatches one_slot"
  "\<not> ec_dryRun eager_config" "ec_executor eager_config = Some eager_executor" "sr_success accepted_spawn"
  by (simp_all add: one_slot_def eager_config_def no_executor_def accepted_spawn_def)


theorem reviews_exceed_limit_witness:
  "\<exists>res' w'. evaluateMurmurTriggers sample_murmur one_slot [sample_team ''a'', sample_team ''b''] (tasks_world []) = (Inr res', w') \<and>
    mo_maxConcurrentDispatches one_slot = 1 \<and> mr_reviewsDispatched res' = 2"
proof -
  let ?teams = "[sample_team ''a'', sample_team ''b'']"
  have teams: "list_all orchestrated ?teams" "distinct (map ot_id ?teams)" "?teams \<noteq> []"
    by (simp_all add: orchestrated_def sample_team_def truthy_str_def)
  have due: "list_all (due_review sample_murmur eager_config (all_listed (tasks_world [])) (tasks_world [])) ?teams"
    unfolding empty_world(3) by (simp add: sample_due)
  have "inj_on (\<lambda>team. review_id sample_murmur team (w_now (tasks_world []))) (set ?teams)" by (auto simp: inj_on_def)
  from reviews_exceed_limit [OF empty_world(1) teams(1,3) due teams(2) this slot_simps(1-4) eager_quiet slot_simps(5)]
  obtain res' w' where r: "evaluateMurmurTriggers sample_murmur one_slot ?teams (tasks_world []) = (Inr res', w')"
    "mr_reviewsDispatched res' = length ?teams" by blast
  show ?thesis by (intro exI conjI) (rule r(1), simp add: one_slot_def, simp add: r(2))
qed

end
