(* ===== verification/SchedulerPoll.thy ===== *)
theory SchedulerPoll
  imports MurmurProps ActionProps CircularDeps CallbackProps SchedulerHelperProps
begin

section \<open>One poll of the scheduler (dispatch/scheduler.ts)\<close>

text \<open>
  \<open>poll\<close> composes the components: it lists the tasks once, plans actions from this snapshot in a fixed order,
  executes them, dispatches ready hops, retries callbacks, logs a summary and evaluates the reviews. Console
  logging is left out. Parameters are what the components have as parameters, the project's SLA settings and
  the org chart as loaded from their files, and \<open>Math.random\<close>.
\<close>

subsection \<open>Configuration and result\<close>

record poll_env =
  pv_actions :: action_env
  pv_dispatch :: dispatch_config
  pv_chart :: "error + org_team list option"
  pv_sla :: project_sla
  pv_rateLimitMinutes :: int
  pv_toIso :: "int \<Rightarrow> string"
  pv_random :: rat
  pv_callbacks :: callback_env
  pv_murmur :: murmur_env

record poll_result =
  pr_dryRun :: bool
  pr_actions :: "scheduler_action list"
  pr_stats :: "nat \<times> (task_status \<times> nat) list"

definition pv_config :: "poll_env \<Rightarrow> exec_config" where
  "pv_config env = av_config (pv_actions env)"

text \<open>The teams the dispatcher sees: none when the chart cannot be loaded.\<close>

definition chart_teams :: "poll_env \<Rightarrow> org_team list option" where
  "chart_teams env = (case pv_chart env of Inl _ \<Rightarrow> None | Inr teams \<Rightarrow> teams)"

definition stat :: "nat \<times> (task_status \<times> nat) list \<Rightarrow> task_status \<Rightarrow> nat" where
  "stat stats s = or_else (map_of (snd stats) s) 0"

subsection \<open>Planning\<close>

definition stale_action :: "(int \<Rightarrow> string) \<Rightarrow> task list \<Rightarrow> run_heartbeat \<Rightarrow> scheduler_action list" where
  "stale_action toIso allTasks h = (case find_task allTasks (hb_taskId h) of
     None \<Rightarrow> []
   | Some t \<Rightarrow> [(action_for StaleHeartbeat t (''Heartbeat expired at '' @
         (case hb_expiresAt h of None \<Rightarrow> ''undefined'' | Some e \<Rightarrow> toIso e) @ '' (no update from '' @ hb_agentId h @ '')''))
       \<lparr>ac_agent := Some (hb_agentId h)\<rparr>])"

definition blockedBySubtasks :: "task list js_map \<Rightarrow> string list" where
  "blockedBySubtasks childrenByParent =
     map fst (filter (\<lambda>(p, children). list_ex (\<lambda>c. fm_status (t_fm c) \<noteq> Done) children) childrenByParent)"

text \<open>Without a configured checker a new one is made for the poll, whose history is empty.\<close>

definition sla_should_alert :: "poll_env \<Rightarrow> string \<Rightarrow> bool m" where
  "sla_should_alert env i = (if av_slaChecker (pv_actions env) then shouldAlert (pv_rateLimitMinutes env) i else ret True)"

definition hours :: "poll_env \<Rightarrow> int \<Rightarrow> string" where
  "hours env ms = hk_toFixed1 (av_hooks (pv_actions env)) (of_int ms / 3600000)"

definition sla_action :: "poll_env \<Rightarrow> sla_violation \<Rightarrow> bool \<Rightarrow> scheduler_action" where
  "sla_action env v alert =
     \<lparr>ac_type = SlaViolation, ac_taskId = sv_taskId v, ac_taskTitle = sv_title v, ac_agent = sv_agent v,
      ac_reason = ''SLA violation: '' @ hours env (sv_duration v) @ ''h in-progress (limit: '' @ hours env (sv_limit v) @ ''h) '' @ em_dash @
        (if alert then '' alert will be sent'' else '' alert rate-limited''),
      ac_fromStatus = None, ac_toStatus = None, ac_duration = Some (sv_duration v), ac_limit = Some (sv_limit v),
      ac_sourceTaskId = None, ac_murmurCandidateId = None, ac_blockers = None\<rparr>"

definition sla_actions :: "poll_env \<Rightarrow> task list \<Rightarrow> scheduler_action list m" where
  "sla_actions env allTasks = bind now (\<lambda>ts.
     fold_m (\<lambda>v acc. bind (sla_should_alert env (sv_taskId v)) (\<lambda>alert. ret (acc @ [sla_action env v alert])))
       (checkViolations ts allTasks (pv_sla env)) [])"

definition poll_metrics :: "task list \<Rightarrow> dispatch_metrics" where
  "poll_metrics allTasks =
     \<lparr>dm_currentInProgress = stat (buildTaskStats allTasks) InProgress,
      dm_blockedBySubtasks = blockedBySubtasks (buildChildrenMap allTasks), dm_circularDeps = circularDeps allTasks,
      dm_occupiedResources = buildResourceOccupancyMap allTasks, dm_inProgressTasks = tasks_in InProgress allTasks\<rparr>"

definition dispatch_actions :: "poll_env \<Rightarrow> task list \<Rightarrow> scheduler_action list m" where
  "dispatch_actions env allTasks = gets (\<lambda>w.
     buildDispatchActions w (tasks_in Ready allTasks) allTasks (pv_dispatch env) (poll_metrics allTasks) (chart_teams env))"

definition plan_actions :: "poll_env \<Rightarrow> task list \<Rightarrow> scheduler_action list m" where
  "plan_actions env allTasks =
     (let children = buildChildrenMap allTasks;
          maxRetries = or_else (ec_maxDispatchRetries (pv_config env)) DEFAULT_MAX_DISPATCH_RETRIES
      in bind now (\<lambda>ts0.
         bind checkStaleHeartbeats (\<lambda>stale.
         bind (sla_actions env allTasks) (\<lambda>sla.
         bind (checkHopTimeouts (pv_config env) (\<lambda>i h. av_uuid (pv_actions env) (i @ h))) (\<lambda>hops.
         bind now (\<lambda>ts.
         bind (dispatch_actions env allTasks) (\<lambda>dispatch.
           ret (checkExpiredLeases (pv_toIso env) ts0 allTasks @ concat (map (stale_action (pv_toIso env) allTasks) stale) @ sla @ hops @
                checkBacklogPromotion ts allTasks children @ dispatch @
                checkBlockedTaskRecovery (pv_random env) ts allTasks children maxRetries))))))))"

subsection \<open>Ready hops\<close>

definition has_dispatched :: "workflow_state \<Rightarrow> bool" where
  "has_dispatched st = list_ex (\<lambda>(k, h). hs_status h = HDispatched) (ws_hops st)"

definition first_ready :: "workflow_state \<Rightarrow> string option" where
  "first_ready st = map_option fst (List.find (\<lambda>(k, h). hs_status h = HReady) (ws_hops st))"

definition hop_action :: "task \<Rightarrow> task_workflow \<Rightarrow> string \<Rightarrow> scheduler_action" where
  "hop_action t workflow h =
     (action_for Assign t (''DAG hop dispatch: '' @ h))
       \<lparr>ac_agent := Some (case find_hop (tw_definition workflow) h of None \<Rightarrow> ''unknown'' | Some hop \<Rightarrow> h_role hop)\<rparr>"

text \<open>The task is read again; only its workflow is looked at, not its status.\<close>

definition dispatch_ready_hop ::
  "poll_env \<Rightarrow> executor \<Rightarrow> task \<Rightarrow> task_workflow \<Rightarrow> string \<Rightarrow> scheduler_action list \<Rightarrow> scheduler_action list m" where
  "dispatch_ready_hop env ex t workflow h actions =
     (let i = fm_id (t_fm t) in
      catch
        (bind (get_task i) (\<lambda>fresh. case fresh of
           None \<Rightarrow> ret actions
         | Some task \<Rightarrow> (case fm_workflow (t_fm task) of
             None \<Rightarrow> ret actions
           | Some flow \<Rightarrow>
               if has_dispatched (tw_state flow) then ret actions
               else bind (dispatchDAGHop (ec_spawnTimeoutMs (pv_config env)) ex (av_uuid (pv_actions env) (i @ h)) task h) (\<lambda>dispatched.
                 ret (if dispatched then actions @ [hop_action t workflow h] else actions)))))
        (\<lambda>e. ret actions))"

definition hop_step :: "poll_env \<Rightarrow> executor \<Rightarrow> task \<Rightarrow> scheduler_action list \<Rightarrow> scheduler_action list m" where
  "hop_step env ex t actions = (case fm_workflow (t_fm t) of
     None \<Rightarrow> ret actions
   | Some workflow \<Rightarrow>
       if fm_status (t_fm t) \<noteq> InProgress \<or> has_dispatched (tw_state workflow) then ret actions
       else (case first_ready (tw_state workflow) of
         None \<Rightarrow> ret actions
       | Some h \<Rightarrow> if h = [] then ret actions else dispatch_ready_hop env ex t workflow h actions))"

definition dispatch_ready_hops :: "poll_env \<Rightarrow> task list \<Rightarrow> scheduler_action list \<Rightarrow> scheduler_action list m" where
  "dispatch_ready_hops env allTasks actions =
     (if ec_dryRun (pv_config env) then ret actions
      else (case ec_executor (pv_config env) of None \<Rightarrow> ret actions | Some ex \<Rightarrow> fold_m (hop_step env ex) allTasks actions))"

definition retry_callbacks :: "poll_env \<Rightarrow> task list \<Rightarrow> unit m" where
  "retry_callbacks env allTasks =
     when_m (\<not> ec_dryRun (pv_config env) \<and> ec_executor (pv_config env) \<noteq> None)
       (fold_m (\<lambda>t u. best_effort (retryPendingDeliveries (pv_callbacks env) (fm_id (t_fm t))))
          (filter (\<lambda>t. terminal_status (fm_status (t_fm t))) allTasks) ())"

subsection \<open>The summary\<close>

definition poll_reason :: "poll_env \<Rightarrow> task list \<Rightarrow> scheduler_action list \<Rightarrow> execution_stats \<Rightarrow> string option" where
  "poll_reason env allTasks actions es =
     (let alerts = filter (\<lambda>a. ac_type a = Alert) actions; assigned = filter (\<lambda>a. ac_type a = Assign) actions in
      if es_actionsExecuted es \<noteq> 0 then None
      else if actions = [] then
        (if allTasks = [] then Some ''no_tasks'' else if tasks_in Ready allTasks = [] then Some ''no_ready_tasks''
         else Some ''no_executable_actions'')
      else if ec_dryRun (pv_config env) then Some ''dry_run_mode''
      else if alerts \<noteq> [] \<and> assigned = [] then Some ''alert_only''
      else if ec_executor (pv_config env) = None then Some ''no_executor''
      else if es_actionsFailed es > 0 then Some ''action_failed'' else Some ''execution_failed'')"

definition stats_json :: "nat \<times> (task_status \<times> nat) list \<Rightarrow> json" where
  "stats_json stats = JObj ((''total'', JNum (of_nat (fst stats))) #
     map (\<lambda>(k, s). (k, JNum (of_nat (stat stats s))))
       [(''backlog'', Backlog), (''ready'', Ready), (''inProgress'', InProgress), (''blocked'', Blocked), (''review'', Review),
        (''done'', Done), (''cancelled'', Cancelled), (''deadletter'', Deadletter)])"

definition poll_payload ::
  "poll_env \<Rightarrow> task list \<Rightarrow> scheduler_action list \<Rightarrow> execution_stats \<Rightarrow> nat \<times> (task_status \<times> nat) list \<Rightarrow> (string \<times> json) list" where
  "poll_payload env allTasks actions es stats =
     (let dry = ec_dryRun (pv_config env); num = (\<lambda>n. JNum (of_nat n)); active = (\<lambda>n. JNum (of_nat (if dry then 0 else n))) in
      [(''dryRun'', JBool dry), (''tasksEvaluated'', num (length allTasks)), (''tasksReady'', num (length (tasks_in Ready allTasks))),
       (''actionsPlanned'', num (length actions)), (''actionsExecuted'', active (es_actionsExecuted es)),
       (''actionsFailed'', active (es_actionsFailed es)), (''alertsRaised'', num (length (filter (\<lambda>a. ac_type a = Alert) actions))),
       (''leasesExpired'', active (es_leasesExpired es)), (''tasksRequeued'', active (es_tasksRequeued es)),
       (''tasksPromoted'', active (es_tasksPromoted es)), (''stats'', stats_json stats)] @
      opt_str ''reason'' (poll_reason env allTasks actions es))"

definition updated_stats :: "poll_env \<Rightarrow> execution_stats \<Rightarrow> nat \<times> (task_status \<times> nat) list \<Rightarrow> (nat \<times> (task_status \<times> nat) list) m" where
  "updated_stats env es stats =
     (if \<not> ec_dryRun (pv_config env) \<and> es_actionsExecuted es > 0
      then bind (list_tasks no_filters) (\<lambda>updatedTasks. ret (buildTaskStats updatedTasks)) else ret stats)"

subsection \<open>Reviews\<close>

definition review_options :: "poll_env \<Rightarrow> nat \<Rightarrow> murmur_options" where
  "review_options env inProgress =
     \<lparr>mo_config = (pv_config env)\<lparr>ec_spawnTimeoutMs := Some (or_else (ec_spawnTimeoutMs (pv_config env)) 300000)\<rparr>,
      mo_reviewTimeoutMs = None, mo_maxConcurrentDispatches = maxDispatches (pv_dispatch env), mo_currentInProgress = inProgress\<rparr>"

definition log_reviews :: "murmur_result \<Rightarrow> unit m" where
  "log_reviews r = when_m (mr_teamsEvaluated r > 0) (best_effort (log_event ''murmur.poll'' ''scheduler'' None
     [(''teamsEvaluated'', JNum (of_nat (mr_teamsEvaluated r))), (''reviewsTriggered'', JNum (of_nat (mr_reviewsTriggered r))),
      (''reviewsDispatched'', JNum (of_nat (mr_reviewsDispatched r))), (''reviewsFailed'', JNum (of_nat (mr_reviewsFailed r))),
      (''reviewsSkipped'', JNum (of_nat (mr_reviewsSkipped r)))]))"

definition evaluate_reviews :: "poll_env \<Rightarrow> nat \<Rightarrow> unit m" where
  "evaluate_reviews env inProgress =
     catch
       (case pv_chart env of
          Inl e \<Rightarrow> throw e
        | Inr None \<Rightarrow> ret ()
        | Inr (Some teams) \<Rightarrow>
            bind (evaluateMurmurTriggers (pv_murmur env) (review_options env inProgress) teams) log_reviews)
       (\<lambda>e. best_effort (log_event ''murmur.evaluation.failed'' ''scheduler'' None
          [(''error'', JStr (hk_message (av_hooks (pv_actions env)) e))]))"

subsection \<open>The poll\<close>

definition poll :: "poll_env \<Rightarrow> poll_result m" where
  "poll env =
     bind (list_tasks no_filters) (\<lambda>allTasks.
     andThen (cleanupLeaseRenewals (project_key (pv_config env)) allTasks)
     (bind (plan_actions env allTasks) (\<lambda>planned.
      bind (executeActions (pv_actions env) planned allTasks) (\<lambda>es.
      bind (dispatch_ready_hops env allTasks planned) (\<lambda>actions.
      andThen (retry_callbacks env allTasks)
      (bind (updated_stats env es (buildTaskStats allTasks)) (\<lambda>stats.
       andThen (best_effort (log_event ''scheduler.poll'' ''scheduler'' None (poll_payload env allTasks actions es stats)))
       (andThen (evaluate_reviews env (stat stats InProgress))
         (ret \<lparr>pr_dryRun = ec_dryRun (pv_config env), pr_actions = actions, pr_stats = stats\<rparr>)))))))))"

end
