(* ===== verification/PollProps.thy ===== *)
theory PollProps
  imports SchedulerPoll
begin

section \<open>What a poll does\<close>

text \<open>
  A poll always ends with a summary; a dry run changes no task, no run, no subscription and no review; the plan
  respects the limits on dispatches. A ready hop is dispatched from the snapshot, whatever became of the task
  since and whoever it was escalated to.
\<close>

subsection \<open>A poll ends\<close>

definition never_throws :: "'a m \<Rightarrow> bool" where
  "never_throws f \<longleftrightarrow> (\<forall>w. \<exists>x w'. f w = (Inr x, w'))"

named_theorems total_intros \<open>operations that do not throw\<close>

lemma never_throwsD: "never_throws f \<Longrightarrow> \<exists>x w'. f w = (Inr x, w')"
  by (simp add: never_throws_def)

lemma never_throws_pure [total_intros]: "never_throws (ret x)" "never_throws (gets f)" "never_throws (modify h)" "never_throws now"
  by (simp_all add: never_throws_def run_simps now_def)

lemma never_throws_bind [total_intros]: "never_throws f \<Longrightarrow> (\<And>x. never_throws (g x)) \<Longrightarrow> never_throws (bind f g)"
  unfolding never_throws_def bind_def by (metis (no_types, lifting) old.prod.case sum.case(2))

lemma never_throws_then [total_intros]: "never_throws f \<Longrightarrow> never_throws g \<Longrightarrow> never_throws (andThen f g)"
  by (simp add: andThen_def total_intros)

lemma never_throws_catch [total_intros]: "(\<And>e. never_throws (h e)) \<Longrightarrow> never_throws (catch f h)"
  unfolding never_throws_def catch_def by (auto split: prod.split sum.split)

lemma never_throws_best [total_intros]: "never_throws (best_effort f)"
  unfolding best_effort_def by (intro total_intros)

lemma never_throws_fold [total_intros]: "(\<And>x acc. never_throws (f x acc)) \<Longrightarrow> never_throws (fold_m f xs acc)"
  by (induction xs arbitrary: acc) (auto intro: total_intros)

lemma never_throws_if [total_intros]: "(b \<Longrightarrow> never_throws f) \<Longrightarrow> (\<not> b \<Longrightarrow> never_throws g) \<Longrightarrow> never_throws (if b then f else g)"
  by simp

lemma never_throws_when [total_intros]: "never_throws f \<Longrightarrow> never_throws (when_m b f)"
  by (simp add: when_m_def total_intros)

lemma never_throws_case [total_intros]: "never_throws f \<Longrightarrow> (\<And>v. never_throws (g v)) \<Longrightarrow> never_throws (case x of None \<Rightarrow> f | Some v \<Rightarrow> g v)"
  by (cases x) simp_all

lemma never_throws_log [total_intros]: "never_throws (log_event ty a k p)"
  by (simp add: log_event_def total_intros)

lemma never_throws_read [total_intros]: "never_throws (read_task_at p)"
  unfolding read_task_at_def log_validation_failed_def
  by (auto intro!: total_intros split: option.split file_content.split)

lemma never_throws_list [total_intros]: "never_throws (list_tasks lf)"
  unfolding list_tasks_def collect_listed_def by (intro total_intros)

lemma never_throws_execute [total_intros]: "never_throws (executeActions env actions ts)"
  unfolding executeActions_def run_action_def Let_def by (intro total_intros)

lemma never_throws_phases [total_intros]:
  "never_throws (cleanupLeaseRenewals k ts)" "never_throws (dispatch_ready_hops env ts acts)" "never_throws (retry_callbacks env ts)"
  "never_throws (updated_stats env es stats)" "never_throws (evaluate_reviews env n)"
  unfolding cleanupLeaseRenewals_def dispatch_ready_hops_def hop_step_def dispatch_ready_hop_def Let_def retry_callbacks_def
    updated_stats_def evaluate_reviews_def stopLeaseRenewal_def
  by (auto intro!: total_intros split: prod.split)

subsection \<open>The plan\<close>

lemma stale_heartbeats_run: "consistent w \<Longrightarrow> \<exists>hs. checkStaleHeartbeats w = (Inr hs, w)"
proof -
  assume w: "consistent w"
  have "\<exists>hs. fold_m (\<lambda>t acc. bind (readHeartbeat (fm_id (t_fm t))) (\<lambda>h. case h of
               None \<Rightarrow> ret acc
             | Some h \<Rightarrow> ret (if heartbeat_stale h n then acc @ [h] else acc))) ts acc w = (Inr hs, w)" for n ts acc
    by (induction ts arbitrary: acc)
      (auto simp: readHeartbeat_def read_run_file_def resolveTaskDir_run [OF w] bind_def run_simps split: option.split)
  then show ?thesis using w by (simp add: checkStaleHeartbeats_def bind_run list_status_run now_def run_simps)
qed

lemma cleanup_run: "\<exists>r. cleanupLeaseRenewals k ts w = (Inr (), w\<lparr>w_renewals := r\<rparr>)"
proof -
  have same: "\<exists>r. w1 = w1\<lparr>w_renewals := r\<rparr>" for w1 :: world by (rule exI [of _ "w_renewals w1"]) simp
  have "\<exists>r. fold_m (\<lambda>key u.
         if \<not> str_prefix (k @ '':'') key then ret u
         else if key \<in> set (active_keys k ts n) then ret u
         else stopLeaseRenewal k (drop (length (k @ '':'')) key)) keys () w1 = (Inr (), w1\<lparr>w_renewals := r\<rparr>)" for keys n w1
  proof (induction keys arbitrary: w1)
    case (Cons a keys)
    have "\<exists>r. (if \<not> str_prefix (k @ '':'') a then ret () else if a \<in> set (active_keys k ts n) then ret ()
        else stopLeaseRenewal k (drop (length (k @ '':'')) a)) w1 = (Inr (), w1\<lparr>w_renewals := r\<rparr>)"
      by (auto simp: stopLeaseRenewal_def run_simps same)
    then obtain r where "(if \<not> str_prefix (k @ '':'') a then ret () else if a \<in> set (active_keys k ts n) then ret ()
        else stopLeaseRenewal k (drop (length (k @ '':'')) a)) w1 = (Inr (), w1\<lparr>w_renewals := r\<rparr>)" ..
    then show ?case using Cons.IH [of "w1\<lparr>w_renewals := r\<rparr>"] by (auto simp: bind_run)
  qed (use same in \<open>simp add: run_simps\<close>)
  then show ?thesis by (simp add: cleanupLeaseRenewals_def)
qed

lemma sla_run: "\<exists>acts a. sla_actions env ts w = (Inr acts, w\<lparr>w_slaAlerts := a\<rparr>) \<and> assigns acts = []"
proof -
  have same: "\<exists>a. w1 = w1\<lparr>w_slaAlerts := a\<rparr>" for w1 :: world by (rule exI [of _ "w_slaAlerts w1"]) simp
  have alert: "\<exists>x a. sla_should_alert env i w1 = (Inr x, w1\<lparr>w_slaAlerts := a\<rparr>)" for i w1
    using same [of w1] by (auto simp: sla_should_alert_def shouldAlert_def run_simps)
  have "\<exists>acts' a. fold_m (\<lambda>v acc. bind (sla_should_alert env (sv_taskId v)) (\<lambda>alert. ret (acc @ [sla_action env v alert]))) vs acts w1 =
      (Inr acts', w1\<lparr>w_slaAlerts := a\<rparr>) \<and> assigns acts' = []" if "assigns acts = []" for vs acts w1
    using that
  proof (induction vs arbitrary: acts w1)
    case (Cons v vs)
    obtain x a where a: "sla_should_alert env (sv_taskId v) w1 = (Inr x, w1\<lparr>w_slaAlerts := a\<rparr>)" using alert by blast
    have "assigns (acts @ [sla_action env v x]) = []" using Cons.prems by (simp add: assigns_def sla_action_def)
    from Cons.IH [OF this, of "w1\<lparr>w_slaAlerts := a\<rparr>"] show ?case using a by (auto simp: bind_run run_simps)
  qed (use same in \<open>simp add: run_simps\<close>)
  then show ?thesis by (simp add: sla_actions_def now_def run_simps assigns_def)
qed

lemma no_assigns:
  "assigns (checkExpiredLeases f n ts) = []" "assigns (concat (map (stale_action g ts) hs)) = []"
  "assigns (checkBacklogPromotion n ts m) = []" "assigns (checkBlockedTaskRecovery x n ts m k) = []"
  by (auto simp: assigns_def filter_empty_conv checkExpiredLeases_def expire_action_def stale_action_def checkBacklogPromotion_def
      checkBlockedTaskRecovery_def recover_blocked_def Let_def split: option.splits if_splits)

lemma reports_alert: "a \<in> set (task_reports cfg n t) \<Longrightarrow> ac_type a = Alert"
  by (auto simp: in_task_reports hop_report_def hop_alert_def Let_def)

text \<open>The plan of a poll keeps the limits.\<close>

definition in_limits :: "poll_env \<Rightarrow> task list \<Rightarrow> scheduler_action list \<Rightarrow> bool" where
  "in_limits env allTasks planned \<longleftrightarrow> length (assigns planned) \<le> maxPerPoll (pv_dispatch env) \<and>
     length (tasks_in InProgress allTasks) + length (assigns planned) \<le>
       max (length (tasks_in InProgress allTasks)) (maxDispatches (pv_dispatch env))"

lemma plan_run:
  assumes "tidy w" "unique_hops w" "quiet_executor (pv_config env) r"
  shows "\<exists>acts w'. plan_actions env ts w = (Inr acts, w') \<and> tidy w' \<and> in_limits env ts acts"
proof -
  obtain hs where hs: "checkStaleHeartbeats w = (Inr hs, w)" using stale_heartbeats_run tidy_consistent [OF assms(1)] by blast
  obtain sla a where sla: "sla_actions env ts w = (Inr sla, w\<lparr>w_slaAlerts := a\<rparr>)" "assigns sla = []" using sla_run by blast
  have u: "unique_hops (w\<lparr>w_slaAlerts := a\<rparr>)" "tidy (w\<lparr>w_slaAlerts := a\<rparr>)" using assms(1,2) by (simp_all add: unique_hops_def)
  have "yields (checkHopTimeouts (pv_config env) (\<lambda>i h. av_uuid (pv_actions env) (i @ h))) (w\<lparr>w_slaAlerts := a\<rparr>)
      (\<lambda>hops w1. tidy w1 \<and> (\<forall>x \<in> set hops. ac_type x = Alert))"
    by (rule yields_mono [OF timeouts_run [OF u(2) assms(3) u(1)]]) (use reports_alert in blast)
  from yieldsD [OF this] obtain hops w1 where hops: "checkHopTimeouts (pv_config env) (\<lambda>i h. av_uuid (pv_actions env) (i @ h))
      (w\<lparr>w_slaAlerts := a\<rparr>) = (Inr hops, w1)" "tidy w1" "\<forall>x \<in> set hops. ac_type x = Alert" by blast
  have h0: "assigns hops = []" using hops(3) by (auto simp: assigns_def filter_empty_conv)
  let ?d = "buildDispatchActions w1 (tasks_in Ready ts) ts (pv_dispatch env) (poll_metrics ts) (chart_teams env)"
  have stat: "dm_currentInProgress (poll_metrics ts) = length (tasks_in InProgress ts)"
    by (simp add: poll_metrics_def stat_def buildTaskStats_def STATUS_DIRS_def or_else_def)
  have "in_limits env ts ?d" unfolding in_limits_def stat [symmetric] by (rule dispatch_limits)
  then show ?thesis
    using hs sla hops(1,2) h0
    by (simp add: plan_actions_def dispatch_actions_def bind_run now_def run_simps Let_def in_limits_def no_assigns)
qed

lemma hops_run: "\<exists>hops w'. dispatch_ready_hops env ts acts w = (Inr (acts @ hops), w') \<and> (\<forall>a. a \<in> set hops \<longrightarrow> ac_type a = Assign) \<and>
    (ec_dryRun (pv_config env) \<longrightarrow> hops = [])"
proof -
  let ?good = "\<lambda>hops. \<forall>a. a \<in> set hops \<longrightarrow> ac_type a = Assign"
  have ready: "\<exists>hops w'. dispatch_ready_hop env ex t flow h acts w = (Inr (acts @ hops), w') \<and> ?good hops" for ex t flow h acts w
  proof -
    have "\<exists>r w'. dispatch_ready_hop env ex t flow h acts w = (Inr r, w') \<and> (r = acts \<or> r = acts @ [hop_action t flow h])"
      unfolding dispatch_ready_hop_def Let_def catch_def
      by (auto simp: bind_def run_simps split: prod.split sum.split option.split if_splits)
    then show ?thesis by (auto simp: hop_action_def)
  qed
  have step: "\<exists>hops w'. hop_step env ex t acts w = (Inr (acts @ hops), w') \<and> ?good hops" for ex t acts w
    using ready by (auto simp: hop_step_def run_simps intro: exI [of _ "[]"] split: option.split)
  have "\<exists>hops w'. fold_m (hop_step env ex) ts acts w = (Inr (acts @ hops), w') \<and> ?good hops" for ex ts acts w
  proof (induction ts arbitrary: acts w)
    case (Cons t ts)
    obtain hops w1 where one: "hop_step env ex t acts w = (Inr (acts @ hops), w1)" "?good hops" using step by blast
    obtain more w2 where "fold_m (hop_step env ex) ts (acts @ hops) w1 = (Inr ((acts @ hops) @ more), w2)" "?good more"
      using Cons.IH by blast
    then show ?case using one by (intro exI [of _ "hops @ more"] exI [of _ w2]) (auto simp: bind_run)
  qed (simp add: run_simps)
  then show ?thesis
    unfolding dispatch_ready_hops_def by (auto simp: run_simps split: option.split)
qed

text \<open>Fact: a poll ends. On a tidy store whose workflows have distinct hops, with an adapter that answers the escalated hops, a
  poll never throws, whatever its actions, its callbacks and its reviews run into; what it reports is the plan followed by
  the hops it dispatched; and the plan assigns at most \<open>maxDispatchesPerPoll\<close> tasks and no more than the limit on
  concurrent tasks leaves room for, counting the tasks in progress when the poll began.\<close>

theorem poll_ends:
  assumes "tidy w" "unique_hops w" "quiet_executor (pv_config env) r"
  shows "\<exists>res w' planned hops. poll env w = (Inr res, w') \<and> pr_actions res = planned @ hops \<and>
    in_limits env (all_listed w) planned \<and> pr_dryRun res = ec_dryRun (pv_config env) \<and>
    (\<forall>a. a \<in> set hops \<longrightarrow> ac_type a = Assign) \<and> (ec_dryRun (pv_config env) \<longrightarrow> hops = [])"
proof -
  let ?ts = "all_listed w"
  obtain rn where rn: "cleanupLeaseRenewals (project_key (pv_config env)) ?ts w = (Inr (), w\<lparr>w_renewals := rn\<rparr>)" using cleanup_run by blast
  have "tidy (w\<lparr>w_renewals := rn\<rparr>)" "unique_hops (w\<lparr>w_renewals := rn\<rparr>)" using assms(1,2) by (simp_all add: unique_hops_def)
  from plan_run [OF this assms(3)] obtain planned w1 where planned: "plan_actions env ?ts (w\<lparr>w_renewals := rn\<rparr>) = (Inr planned, w1)"
    "in_limits env ?ts planned" by blast
  obtain es w2 where es: "executeActions (pv_actions env) planned ?ts w1 = (Inr es, w2)"
    using never_throws_execute unfolding never_throws_def by blast
  from hops_run [of env ?ts planned w2] obtain hops w3 where hops: "dispatch_ready_hops env ?ts planned w2 = (Inr (planned @ hops), w3)"
    "\<forall>a. a \<in> set hops \<longrightarrow> ac_type a = Assign" "ec_dryRun (pv_config env) \<longrightarrow> hops = []" by blast
  have "never_throws (andThen (retry_callbacks env ?ts)
      (bind (updated_stats env es (buildTaskStats ?ts)) (\<lambda>stats.
       andThen (best_effort (log_event ''scheduler.poll'' ''scheduler'' None (poll_payload env ?ts (planned @ hops) es stats)))
       (andThen (evaluate_reviews env (stat stats InProgress))
         (ret \<lparr>pr_dryRun = ec_dryRun (pv_config env), pr_actions = planned @ hops, pr_stats = stats\<rparr>)))))"
    by (intro total_intros)
  then obtain res w' where rest: "andThen (retry_callbacks env ?ts)
      (bind (updated_stats env es (buildTaskStats ?ts)) (\<lambda>stats.
       andThen (best_effort (log_event ''scheduler.poll'' ''scheduler'' None (poll_payload env ?ts (planned @ hops) es stats)))
       (andThen (evaluate_reviews env (stat stats InProgress))
         (ret \<lparr>pr_dryRun = ec_dryRun (pv_config env), pr_actions = planned @ hops, pr_stats = stats\<rparr>)))) w3 = (Inr res, w')"
    unfolding never_throws_def by blast
  then have res: "pr_actions res = planned @ hops" "pr_dryRun res = ec_dryRun (pv_config env)"
    by (auto simp: andThen_def ret_def elim!: bind_Inr_cases)
  have "poll env w = (Inr res, w')"
    using rn planned(1) es hops(1) rest tidy_consistent [OF assms(1)] by (simp add: poll_def bind_run list_all_run)
  then show ?thesis using res planned(2) hops(2,3) by blast
qed

subsection \<open>Dry runs\<close>

definition frozen :: "world \<Rightarrow> world \<Rightarrow> bool" where
  "frozen w w' \<longleftrightarrow> w_files w' = w_files w \<and> w_dirs w' = w_dirs w \<and> w_runs w' = w_runs w \<and> w_murmur w' = w_murmur w \<and>
     w_workDirs w' = w_workDirs w \<and> w_lastDispatchAt w' = w_lastDispatchAt w \<and> w_lastDispatchByTeam w' = w_lastDispatchByTeam w"

lemma frozen_frame [simp]:
  "frozen w (w'\<lparr>w_events := e\<rparr>) = frozen w w'" "frozen w (w'\<lparr>w_renewals := r\<rparr>) = frozen w w'"
  "frozen w (w'\<lparr>w_slaAlerts := a\<rparr>) = frozen w w'" "frozen w w"
  by (simp_all add: frozen_def)

lemma frozen_keeps:
  assumes "consistent w" "\<And>w'. consistent w' \<Longrightarrow> \<exists>x. f w' = (x, w')"
  shows "preserves (frozen w) f"
  unfolding preserves_def
proof (intro allI impI)
  fix w' assume w': "frozen w w'"
  then have "consistent w'" using assms(1) files_frame(2) [of w' w] by (simp add: frozen_def)
  from assms(2) [OF this] show "frozen w (snd (f w'))" using w' by auto
qed

lemma frozen_reads [wf_intros]:
  "consistent w \<Longrightarrow> preserves (frozen w) (get_task i)" "consistent w \<Longrightarrow> preserves (frozen w) (list_tasks no_filters)"
  "consistent w \<Longrightarrow> preserves (frozen w) (list_tasks (status_filter s))" "consistent w \<Longrightarrow> preserves (frozen w) checkStaleHeartbeats"
  by (erule frozen_keeps; use get_task_consistent list_all_run list_status_run stale_heartbeats_run in blast)+

lemma frozen_logs [wf_intros]:
  "preserves (frozen w) (log_event ty a k p)" "preserves (frozen w) (cleanupLeaseRenewals key ts)" "preserves (frozen w) (sla_actions env ts)"
proof -
  show "preserves (frozen w) (log_event ty a k p)" by (auto simp: log_event_def intro: preserves_modify)
  show "preserves (frozen w) (cleanupLeaseRenewals key ts)"
    unfolding preserves_def using cleanup_run by (metis frozen_frame(2) snd_conv)
  show "preserves (frozen w) (sla_actions env ts)"
    unfolding preserves_def using sla_run by (metis frozen_frame(3) snd_conv)
qed

lemma frozen_best [wf_intros]: "preserves (frozen w) f \<Longrightarrow> preserves (frozen w) (best_effort f)"
  unfolding best_effort_def by (intro wf_intros)

lemma frozen_timeouts: "consistent w \<Longrightarrow> ec_dryRun cfg \<Longrightarrow> preserves (frozen w) (checkHopTimeouts cfg uuid)"
  unfolding checkHopTimeouts_def check_task_def check_hop_def escalateHopTimeout_def log_hop_timeout_def Let_def
  by (intro wf_intros; simp)

lemma frozen_reviews:
  assumes "consistent w" "ec_dryRun (mo_config opts)"
  shows "preserves (frozen w) (evaluateMurmurTriggers env opts teams)"
proof -
  have clean: "preserves (frozen w) (cleanupStaleReview team s n (ec_dryRun (mo_config opts)))" for team s n
    using assms unfolding cleanupStaleReview_def when_m_def by simp (intro wf_intros)
  have fire: "preserves (frozen w) (fire_review env opts team s trigger res)" for team s trigger res
    unfolding fire_review_def log_murmur_def using assms by (auto intro!: wf_intros)
  have "preserves (frozen w) (review_team env opts ts team config res)" for ts team config res
    unfolding review_team_def Let_def load_murmur_def evaluation_failed_def log_murmur_def
    by (intro wf_intros clean fire)
  then show ?thesis
    unfolding evaluateMurmurTriggers_def Let_def using assms(1) by (intro wf_intros) simp_all
qed

text \<open>C25: a dry run plans and changes nothing: whatever the configuration, the adapter and the org chart, a poll in dry-run mode
  leaves every task file, every companion directory with its subscriptions, every run, every state file of the reviews, the
  artifact directories of hops and the throttle as they were. (It logs, and drops lease timers and alerts that are out of
  date.) Hypothesis: the store is consistent, since reading one with duplicates repairs it.\<close>

theorem poll_dry_run:
  assumes "consistent w" "ec_dryRun (pv_config env)"
  shows "frozen w (snd (poll env w)) \<and> abs_store (snd (poll env w)) = abs_store w"
proof -
  have plan: "preserves (frozen w) (plan_actions env ts)" for ts
    unfolding plan_actions_def dispatch_actions_def Let_def
    by (intro wf_intros frozen_timeouts assms)
  have reviews: "preserves (frozen w) (evaluate_reviews env n)" for n
    unfolding evaluate_reviews_def log_reviews_def using assms
    by (intro wf_intros frozen_reviews) (simp_all add: review_options_def)
  have exec: "preserves (frozen w) (executeActions (pv_actions env) acts ts)" for acts ts
    using assms(2) by (simp add: executeActions_def pv_config_def preserves_ret)
  have retry: "preserves (frozen w) (retry_callbacks env ts)" for ts
    using assms(2) by (simp add: retry_callbacks_def when_m_def preserves_ret)
  have "preserves (frozen w) (poll env)"
    unfolding poll_def dispatch_ready_hops_def updated_stats_def
    using assms by (intro wf_intros plan reviews exec retry) (simp_all add: preserves_ret)
  then have "frozen w (snd (poll env w))" by (simp add: preservesD)
  then show ?thesis using files_frame(1) [of "snd (poll env w)" w] by (simp add: frozen_def)
qed

subsection \<open>Ready hops\<close>

text \<open>Fact: what the dispatch of ready hops depends on. When the snapshot of a task in progress shows a ready hop and none
  dispatched, and the stored workflow has none dispatched either, the hop is spawned for the role the definition names and
  marked dispatched, and nothing else of the task changes. In particular the stored task may by now be in any status, for
  instance made ready by the expiry of its lease in the same poll, and it stays in that status; the stored hop may no longer
  be ready; and the role it was escalated to is forgotten. Hypothesis: an adapter that accepts the spawn and leaves the store
  alone.\<close>

theorem ready_hop_dispatch:
  assumes "tidy w" "abs_store w i = Some (fm, b)" "fm_workflow fm = Some flow" "\<not> has_dispatched (tw_state flow)"
    and "fm_id (t_fm t) = i" "fm_status (t_fm t) = InProgress" "fm_workflow (t_fm t) = Some old" "\<not> has_dispatched (tw_state old)"
      "first_ready (tw_state old) = Some h" "h \<noteq> []"
    and "find_hop (tw_definition flow) h = Some hop" "spawn_answers ex r" "sr_success r"
  shows "\<exists>w' st hs. hop_step env ex t acts w = (Inr (acts @ [hop_action t old h]), w') \<and>
    abs_store w' = (abs_store w)(i \<mapsto> (advanced flow st (w_now w) fm, js_trim b)) \<and>
    fm_status (advanced flow st (w_now w) fm) = fm_status fm \<and>
    map_of (ws_hops st) h = Some hs \<and> hs_status hs = HDispatched \<and> hs_agent hs = Some (h_role hop) \<and>
    (\<forall>k. k \<noteq> h \<longrightarrow> map_of (ws_hops st) k = map_of (ws_hops (tw_state flow)) k)"
proof -
  let ?st = "dispatched_state (tw_state flow) h hop (w_now w) (sr_sessionId r)"
  from yieldsD [OF dispatch_hop_run [OF assms(1,2) refl assms(3,11,12), of "ec_spawnTimeoutMs (pv_config env)" "av_uuid (pv_actions env) (i @ h)"]]
  obtain w' where w': "dispatchDAGHop (ec_spawnTimeoutMs (pv_config env)) ex (av_uuid (pv_actions env) (i @ h)) (loaded i (fm, b)) h w = (Inr True, w')"
    "updates w i (advanced flow ?st (w_now w) fm, js_trim b) w'" using assms(13) by auto
  have "hop_step env ex t acts w = (Inr (acts @ [hop_action t old h]), w')"
    using assms(3-10) w'(1) get_run [OF assms(1), of i] assms(2)
    by (simp add: hop_step_def dispatch_ready_hop_def Let_def catch_def bind_run run_simps)
  moreover have "fm_status (advanced flow ?st (w_now w) fm) = fm_status fm" by (simp add: advanced_def)
  moreover have "\<exists>hs. map_of (ws_hops ?st) h = Some hs \<and> hs_status hs = HDispatched \<and> hs_agent hs = Some (h_role hop)"
    by (simp add: dispatched_state_def update_conv')
  moreover have "\<forall>k. k \<noteq> h \<longrightarrow> map_of (ws_hops ?st) k = map_of (ws_hops (tw_state flow)) k"
    by (simp add: dispatched_state_def update_conv')
  ultimately show ?thesis using updatesD(5) [OF w'(2)] by (intro exI [of _ w'] exI [of _ ?st]) auto
qed

subsection \<open>Polls of a small store\<close>

text \<open>An adapter that logs each spawn and refuses those of the agent \<open>lead\<close>.\<close>

definition logging_executor :: executor where
  "logging_executor = \<lparr>ex_spawn = \<lambda>cx t c w.
       (Inr (if cx_agent cx = ''lead'' then \<lparr>sr_success = False, sr_sessionId = None, sr_error = None\<rparr> else accepted_spawn),
        snd (log_event ''spawned'' (cx_agent cx) (Some (cx_taskId cx)) [] w)),
     ex_forceComplete = \<lambda>s w. (Inr (), w)\<rparr>"

definition sample_poll :: poll_env where
  "sample_poll = \<lparr>pv_actions = plain_env\<lparr>av_config := config_with logging_executor\<rparr>,
     pv_dispatch = \<lparr>dc_dryRun = False, dc_maxConcurrentDispatches = None, dc_minDispatchIntervalMs = None, dc_maxDispatchesPerPoll = None\<rparr>,
     pv_chart = Inr None, pv_sla = \<lparr>ps_defaultMaxInProgressMs = None, ps_researchMaxInProgressMs = None\<rparr>, pv_rateLimitMinutes = 15,
     pv_toIso = \<lambda>t. [], pv_random = 0, pv_callbacks = calm_env (\<lambda>a. Inr spawned_ok), pv_murmur = sample_murmur\<rparr>"

text \<open>What becomes of a hop when the scheduler polls at the given times: after each poll the task's status, the hop's status
  and agent, and the agents started so far.\<close>

definition spawned_agents :: "world \<Rightarrow> string list" where
  "spawned_agents w = map ev_actor (filter (\<lambda>e. ev_type e = ''spawned'') (w_events w))"

definition status_and_hop :: "world \<Rightarrow> string \<Rightarrow> string \<Rightarrow> (task_status \<times> (hop_status \<times> string option) option) option" where
  "status_and_hop w i h = map_option (\<lambda>fb. (fm_status (fst fb), (case fm_workflow (fst fb) of None \<Rightarrow> None
     | Some flow \<Rightarrow> map_option (\<lambda>hs. (hs_status hs, hs_agent hs)) (map_of (ws_hops (tw_state flow)) h)))) (abs_store w i)"

fun poll_history :: "int list \<Rightarrow> world \<Rightarrow> string \<Rightarrow> string \<Rightarrow>
    ((task_status \<times> (hop_status \<times> string option) option) option \<times> string list) list" where
  "poll_history [] w i h = []"
| "poll_history (t # ts) w i h = (let w' = snd (poll sample_poll (w\<lparr>w_now := t\<rparr>)) in
     (status_and_hop w' i h, spawned_agents w') # poll_history ts w' i h)"

text \<open>A task whose lease has run out, with a hop ready to start.\<close>

definition ready_flow :: task_workflow where
  "ready_flow = \<lparr>tw_definition = \<lparr>wd_name = ''w'', wd_hops = [plain_hop ''a'' []]\<rparr>,
     tw_state = \<lparr>ws_status = WRunning, ws_hops = [(''a'', hop_state_of HReady)], ws_startedAt = None, ws_completedAt = None\<rparr>,
     tw_templateName = None\<rparr>"

definition lapsed_fm :: frontmatter where
  "lapsed_fm = (sample_fm sample_id InProgress)\<lparr>fm_workflow := Some ready_flow,
     fm_lease := Some \<lparr>tl_agent = ''dev'', tl_acquiredAt = 0, tl_expiresAt = 50, tl_renewCount = 0\<rparr>\<rparr>"

text \<open>The theorems at concrete inputs.\<close>

lemma late_hops_unique: "unique_hops (tasks_world [late_fm])"
  by (auto simp: unique_hops_def late_flow_def late_hop_def plain_hop_def split: if_splits)

theorem poll_ends_witness:
  "\<exists>res w' planned hops. poll (sample_poll\<lparr>pv_actions := plain_env\<rparr>) (tasks_world [late_fm]) = (Inr res, w') \<and>
     pr_actions res = planned @ hops \<and> length (assigns planned) \<le> maxPerPoll (pv_dispatch sample_poll) \<and> \<not> pr_dryRun res"
proof -
  let ?env = "sample_poll\<lparr>pv_actions := plain_env\<rparr>"
  have q: "quiet_executor (pv_config ?env) accepted_spawn" "\<not> ec_dryRun (pv_config ?env)" "pv_dispatch ?env = pv_dispatch sample_poll"
    by (simp_all add: pv_config_def plain_env_def quiet_executor_def no_executor_def)
  from poll_ends [OF late_world(1) late_hops_unique q(1)] obtain res w' planned hops where
    "poll ?env (tasks_world [late_fm]) = (Inr res, w')" "pr_actions res = planned @ hops"
    "in_limits ?env (all_listed (tasks_world [late_fm])) planned" "pr_dryRun res = ec_dryRun (pv_config ?env)" by blast
  then show ?thesis using q(2,3) unfolding in_limits_def by metis
qed

definition dry_poll :: poll_env where
  "dry_poll = sample_poll\<lparr>pv_actions := plain_env\<lparr>av_config := (config_with logging_executor)\<lparr>ec_dryRun := True\<rparr>\<rparr>\<rparr>"

theorem poll_dry_run_witness:
  "frozen (tasks_world [late_fm]) (snd (poll dry_poll (tasks_world [late_fm]))) \<and>
   abs_store (snd (poll dry_poll (tasks_world [late_fm]))) ''t'' = Some (late_fm, ''body'')"
proof -
  have "ec_dryRun (pv_config dry_poll)" by (simp add: dry_poll_def pv_config_def config_with_def)
  note dry = poll_dry_run [OF tidy_consistent [OF late_world(1)] this]
  have "abs_store (tasks_world [late_fm]) ''t'' = Some (late_fm, ''body'')" by simp
  then show ?thesis using dry by (intro conjI) (rule conjunct1, assumption, simp only:)
qed

theorem ready_hop_dispatch_witness:
  "\<exists>w' (st :: workflow_state) hs. hop_step sample_poll eager_executor (loaded sample_id (lapsed_fm, ''body'')) []
      (tasks_world [lapsed_fm\<lparr>fm_status := Ready\<rparr>]) =
      (Inr [hop_action (loaded sample_id (lapsed_fm, ''body'')) ready_flow ''a''], w') \<and>
    map_option (fm_status \<circ> fst) (abs_store w' sample_id) = Some Ready \<and>
    map_of (ws_hops st) ''a'' = Some hs \<and> hs_status hs = HDispatched"
proof -
  let ?fm = "lapsed_fm\<lparr>fm_status := Ready\<rparr>"
  have fm: "fm_id lapsed_fm = sample_id" "fm_status lapsed_fm = InProgress" "fm_workflow lapsed_fm = Some ready_flow"
    by (simp_all add: lapsed_fm_def)
  have w: "tidy (tasks_world [?fm])" "abs_store (tasks_world [?fm]) sample_id = Some (?fm, ''body'')" by (simp_all add: fm)
  have st: "\<not> has_dispatched (tw_state ready_flow)" "first_ready (tw_state ready_flow) = Some ''a''" by code_simp+
  have hop: "find_hop (tw_definition ready_flow) ''a'' = Some (plain_hop ''a'' [])" by code_simp
  have ex: "spawn_answers eager_executor accepted_spawn" "sr_success accepted_spawn"
    by (simp_all add: spawn_answers_def eager_executor_def accepted_spawn_def)
  have t: "fm_id (t_fm (loaded sample_id (lapsed_fm, ''body''))) = sample_id"
    "fm_status (t_fm (loaded sample_id (lapsed_fm, ''body''))) = InProgress"
    "fm_workflow (t_fm (loaded sample_id (lapsed_fm, ''body''))) = Some ready_flow"
    using fm by simp_all
  have "fm_workflow ?fm = Some ready_flow" "''a'' \<noteq> []" using fm by simp_all
  from ready_hop_dispatch [OF w this(1) st(1) t st(1,2) this(2) hop ex, of sample_poll "[]"]
  obtain w' st hs where "hop_step sample_poll eager_executor (loaded sample_id (lapsed_fm, ''body'')) [] (tasks_world [?fm]) =
      (Inr ([] @ [hop_action (loaded sample_id (lapsed_fm, ''body'')) ready_flow ''a'']), w')"
    and after: "abs_store w' = (abs_store (tasks_world [?fm]))(sample_id \<mapsto> (advanced ready_flow st (w_now (tasks_world [?fm])) ?fm, js_trim ''body''))"
      "fm_status (advanced ready_flow st (w_now (tasks_world [?fm])) ?fm) = fm_status ?fm"
    and hs: "map_of (ws_hops st) ''a'' = Some hs" "hs_status hs = HDispatched"
    by blast
  note this(1) [unfolded append_Nil]
  moreover have "map_option (fm_status \<circ> fst) (abs_store w' sample_id) = Some Ready" unfolding after(1) using after(2) by simp
  ultimately show ?thesis using hs by blast
qed

text \<open>Fact: two sessions for one task. One poll finds the lease of a task in progress expired and makes the task ready, and then,
  from the same snapshot, starts a session for its ready hop; the next poll assigns the ready task, so that a second agent is
  started on it while the first one runs.\<close>

theorem two_agents_one_task:
  "poll_history [100, 70000] (tasks_world [lapsed_fm]) sample_id ''a'' =
     [(Some (Ready, Some (HDispatched, Some ''dev'')), [''dev'']),
      (Some (InProgress, Some (HDispatched, Some ''dev'')), [''dev'', ''dev''])]"
  by code_simp

text \<open>Fact: an escalation whose spawn fails is lost. The hop that ran past its timeout is offered to the role it escalates to,
  \<open>lead\<close>, which cannot be spawned now; it is marked escalated, and ready for a retry with that role. The next poll starts it
  with its original role, and since it counts as escalated it will not be escalated again.\<close>

theorem escalation_lost:
  "h_role late_hop \<noteq> ''lead'' \<and>
   poll_history [100, 200] (tasks_world [late_fm]) ''t'' ''a'' =
     [(Some (InProgress, Some (HReady, Some ''lead'')), [''lead'']),
      (Some (InProgress, Some (HDispatched, Some (h_role late_hop))), [''lead'', h_role late_hop])]"
  by code_simp

end
