(* ===== verification/ClaimQueue.thy ===== *)
theory ClaimQueue
  imports AssignExecutor
begin

section \<open>Work handed to plugins (ipc/spawn-queue.ts, chat-delivery-queue.ts, routes/spawn-wait.ts, delivery-wait.ts)\<close>

text \<open>
  The daemon hands spawn requests and chat messages to a plugin that long-polls: a request waits in a queue, is
  claimed by the first poll that comes, or goes at once to a poll that waits. Both queues are modelled as they are
  written; the routes, which are the same code over either queue, are one group of definitions over the operations
  of a queue, and the locale \<open>claim_queue\<close> states what they need of one. Both queues interpret it.

  A \<open>Map\<close> is an association list in insertion order, \<open>randomUUID\<close> an argument. The handlers of one event run to
  their end before the next, so each is one function. Histories (what was issued, answered, settled, dropped) are
  kept beside the state.
\<close>

subsection \<open>The queue of spawn requests\<close>

record spawn_request =
  sp_id :: string
  sp_taskId :: string
  sp_taskPath :: task_path
  sp_agent :: string
  sp_priority :: task_priority
  sp_routing :: task_routing
  sp_projectId :: "string option"
  sp_timeoutMs :: "rat option"
  sp_correlationId :: "string option"
  sp_callbackDepth :: nat

record spawn_queue =
  sq_pending :: "(string \<times> spawn_request) list"
  sq_claimed :: "string set"

definition sq_enqueue :: "spawn_request \<Rightarrow> spawn_queue \<Rightarrow> spawn_queue" where
  "sq_enqueue full q = q\<lparr>sq_pending := AList.update (sp_id full) full (sq_pending q)\<rparr>"

definition sq_claim :: "spawn_queue \<Rightarrow> spawn_request option \<times> spawn_queue" where
  "sq_claim q = (case find (\<lambda>(i, sr). i \<notin> sq_claimed q) (sq_pending q) of
     None \<Rightarrow> (None, q)
   | Some (i, sr) \<Rightarrow> (Some sr, q\<lparr>sq_claimed := insert i (sq_claimed q), sq_pending := AList.delete i (sq_pending q)\<rparr>))"

definition sq_tryClaim :: "string \<Rightarrow> spawn_queue \<Rightarrow> bool \<times> spawn_queue" where
  "sq_tryClaim i q =
     (if map_of (sq_pending q) i = None then (False, q)
      else (True, q\<lparr>sq_claimed := insert i (sq_claimed q), sq_pending := AList.delete i (sq_pending q)\<rparr>))"

definition sq_releaseClaim :: "string \<Rightarrow> spawn_request \<Rightarrow> spawn_queue \<Rightarrow> spawn_queue" where
  "sq_releaseClaim i sr q = q\<lparr>sq_claimed := sq_claimed q - {i}, sq_pending := AList.update i sr (sq_pending q)\<rparr>"

subsection \<open>The queue of chat messages\<close>

text \<open>A waiter is the promise the sender awaits, with the milliseconds of its timer; a timer of 0 is never armed
  (\<open>Infinity\<close> behaves the same).\<close>

record chat_request =
  cd_id :: string
  cd_subscriptionId :: string
  cd_taskId :: string
  cd_toStatus :: string
  cd_message :: string
  cd_delivery :: "(string \<times> json) list"

datatype settlement = Resolved | Rejected string "string option"

record chat_queue =
  cq_pending :: "(string \<times> chat_request) list"
  cq_claimed :: "string set"
  cq_waiters :: "(string \<times> int) list"
  cq_settled :: "(string \<times> settlement) list"

definition DEFAULT_TIMEOUT_MS :: int where
  "DEFAULT_TIMEOUT_MS = 60000"

definition cq_enqueueAndAwait :: "int option \<Rightarrow> chat_request \<Rightarrow> chat_queue \<Rightarrow> chat_queue" where
  "cq_enqueueAndAwait timeoutMs full q =
     q\<lparr>cq_pending := AList.update (cd_id full) full (cq_pending q),
       cq_waiters := AList.update (cd_id full) (or_else timeoutMs DEFAULT_TIMEOUT_MS) (cq_waiters q)\<rparr>"

definition cq_claim :: "chat_queue \<Rightarrow> chat_request option \<times> chat_queue" where
  "cq_claim q = (case find (\<lambda>(i, req). i \<notin> cq_claimed q) (cq_pending q) of
     None \<Rightarrow> (None, q)
   | Some (i, req) \<Rightarrow> (Some req, q\<lparr>cq_claimed := insert i (cq_claimed q), cq_pending := AList.delete i (cq_pending q)\<rparr>))"

definition cq_tryClaim :: "string \<Rightarrow> chat_queue \<Rightarrow> bool \<times> chat_queue" where
  "cq_tryClaim i q =
     (if map_of (cq_pending q) i = None then (False, q)
      else (True, q\<lparr>cq_claimed := insert i (cq_claimed q), cq_pending := AList.delete i (cq_pending q)\<rparr>))"

text \<open>The timer of \<open>i\<close> fires.\<close>

definition cq_timeout :: "string \<Rightarrow> chat_queue \<Rightarrow> chat_queue" where
  "cq_timeout i q = (case map_of (cq_waiters q) i of
     None \<Rightarrow> q
   | Some timeoutMs \<Rightarrow>
       if timeoutMs > 0 then
         q\<lparr>cq_waiters := AList.delete i (cq_waiters q), cq_pending := AList.delete i (cq_pending q), cq_claimed := cq_claimed q - {i},
           cq_settled := cq_settled q @
             [(i, Rejected (''chat delivery timed out after '' @ string_of_int timeoutMs @ ''ms'') (Some ''timeout''))]\<rparr>
       else q)"

text \<open>The posted result: success, or an optional error of kind and message.\<close>

record chat_result =
  dr_success :: bool
  dr_error :: "(string \<times> string) option"

definition settlement_of :: "chat_result \<Rightarrow> settlement" where
  "settlement_of result =
     (if dr_success result then Resolved
      else (case dr_error result of
        None \<Rightarrow> Rejected ''plugin reported delivery failure'' None | Some (kind, message) \<Rightarrow> Rejected message (Some kind)))"

definition cq_deliverResult :: "string \<Rightarrow> chat_result \<Rightarrow> chat_queue \<Rightarrow> chat_queue" where
  "cq_deliverResult i result q = (case map_of (cq_waiters q) i of
     None \<Rightarrow> q
   | Some _ \<Rightarrow> q\<lparr>cq_waiters := AList.delete i (cq_waiters q), cq_claimed := cq_claimed q - {i},
       cq_settled := cq_settled q @ [(i, settlement_of result)]\<rparr>)"

subsection \<open>The routes\<close>

record ('q, 'r) queue_ops =
  qo_id :: "'r \<Rightarrow> string"
  qo_enqueue :: "'r \<Rightarrow> 'q \<Rightarrow> 'q"
  qo_claim :: "'q \<Rightarrow> 'r option \<times> 'q"
  qo_tryClaim :: "string \<Rightarrow> 'q \<Rightarrow> bool \<times> 'q"

datatype 'r reply = Sent 'r | NoContent | Refused nat

text \<open>A connection listens while its \<open>settled\<close> flag is unset: setting it and taking the listener off the queue happen together.\<close>

record ('q, 'r) hub =
  hb_queue :: 'q
  hb_listeners :: "nat list"
  hb_replies :: "(nat \<times> 'r reply) list"
  hb_issued :: "'r list"
  hb_dropped :: "string list"

definition settle :: "nat \<Rightarrow> 'r reply \<Rightarrow> ('q, 'r) hub \<Rightarrow> ('q, 'r) hub" where
  "settle conn r h = h\<lparr>hb_listeners := removeAll conn (hb_listeners h), hb_replies := hb_replies h @ [(conn, r)]\<rparr>"

definition onEnqueue :: "('q, 'r) queue_ops \<Rightarrow> 'r \<Rightarrow> nat \<Rightarrow> ('q, 'r) hub \<Rightarrow> ('q, 'r) hub" where
  "onEnqueue ops r conn h =
     (if conn \<notin> set (hb_listeners h) then h
      else let (won, q) = qo_tryClaim ops (qo_id ops r) (hb_queue h) in
        if \<not> won then h\<lparr>hb_queue := q\<rparr> else settle conn (Sent r) (h\<lparr>hb_queue := q\<rparr>))"

text \<open>\<open>emit\<close> calls the listeners registered when it starts, in their order.\<close>

definition hub_enqueue :: "('q, 'r) queue_ops \<Rightarrow> 'r \<Rightarrow> ('q, 'r) hub \<Rightarrow> ('q, 'r) hub" where
  "hub_enqueue ops r h = fold (onEnqueue ops r) (hb_listeners h)
     (h\<lparr>hb_queue := qo_enqueue ops r (hb_queue h), hb_issued := hb_issued h @ [r]\<rparr>)"

definition hub_wait :: "('q, 'r) queue_ops \<Rightarrow> nat \<Rightarrow> ('q, 'r) hub \<Rightarrow> ('q, 'r) hub" where
  "hub_wait ops conn h = (case qo_claim ops (hb_queue h) of
     (Some r, q) \<Rightarrow> settle conn (Sent r) (h\<lparr>hb_queue := q\<rparr>)
   | (None, q) \<Rightarrow> h\<lparr>hb_queue := q, hb_listeners := hb_listeners h @ [conn]\<rparr>)"

definition hub_keepalive :: "nat \<Rightarrow> ('q, 'r) hub \<Rightarrow> ('q, 'r) hub" where
  "hub_keepalive conn h = (if conn \<in> set (hb_listeners h) then settle conn NoContent h else h)"

definition hub_close :: "nat \<Rightarrow> ('q, 'r) hub \<Rightarrow> ('q, 'r) hub" where
  "hub_close conn h = h\<lparr>hb_listeners := removeAll conn (hb_listeners h)\<rparr>"

definition wait_route :: "('q, 'r) queue_ops \<Rightarrow> string \<Rightarrow> nat \<Rightarrow> ('q, 'r) hub \<Rightarrow> ('q, 'r) hub" where
  "wait_route ops httpMethod conn h = (if httpMethod \<noteq> ''GET'' then settle conn (Refused 405) h else hub_wait ops conn h)"

definition sent :: "('q, 'r) hub \<Rightarrow> 'r list" where
  "sent h = concat (map (\<lambda>(conn, r). case r of Sent x \<Rightarrow> [x] | _ \<Rightarrow> []) (hb_replies h))"

definition spawn_ops :: "(spawn_queue, spawn_request) queue_ops" where
  "spawn_ops = \<lparr>qo_id = sp_id, qo_enqueue = sq_enqueue, qo_claim = sq_claim, qo_tryClaim = sq_tryClaim\<rparr>"

definition chat_ops :: "int option \<Rightarrow> (chat_queue, chat_request) queue_ops" where
  "chat_ops timeoutMs = \<lparr>qo_id = cd_id, qo_enqueue = cq_enqueueAndAwait timeoutMs, qo_claim = cq_claim, qo_tryClaim = cq_tryClaim\<rparr>"

end
