(* ===== verification/ClaimQueueProps.thy ===== *)
theory ClaimQueueProps
  imports ClaimQueue
begin

section \<open>What the routes promise over a queue\<close>

text \<open>
  The contract of a queue of claims as a locale, what the routes keep over any such queue (first come first served, one
  answer per connection, nobody waits while work does), and both queues of the daemon as its interpretations.
\<close>

definition hub_ok :: "('q \<Rightarrow> bool) \<Rightarrow> ('q \<Rightarrow> 'r list) \<Rightarrow> ('q \<Rightarrow> string set) \<Rightarrow> ('r \<Rightarrow> string) \<Rightarrow> ('q, 'r) hub \<Rightarrow> bool" where
  "hub_ok ok waiting used key h \<longleftrightarrow>
     ok (hb_queue h) \<and> used (hb_queue h) \<subseteq> key ` set (hb_issued h) \<and> distinct (map key (hb_issued h)) \<and>
     distinct (hb_listeners h) \<and> distinct (map fst (hb_replies h)) \<and> set (hb_listeners h) \<inter> fst ` set (hb_replies h) = {} \<and>
     (hb_listeners h = [] \<or> waiting (hb_queue h) = []) \<and> set (hb_dropped h) \<subseteq> key ` set (hb_issued h) \<and>
     sent h @ waiting (hb_queue h) = filter (\<lambda>r. key r \<notin> set (hb_dropped h)) (hb_issued h)"

lemma settle_simps [simp]:
  "hb_queue (settle conn r h) = hb_queue h" "hb_listeners (settle conn r h) = removeAll conn (hb_listeners h)"
  "hb_replies (settle conn r h) = hb_replies h @ [(conn, r)]" "hb_issued (settle conn r h) = hb_issued h"
  "hb_dropped (settle conn r h) = hb_dropped h"
  "sent (settle conn r h) = sent h @ (case r of Sent x \<Rightarrow> [x] | _ \<Rightarrow> [])"
  by (simp_all add: settle_def sent_def)

lemma sent_frame [simp]:
  "sent (h\<lparr>hb_queue := q\<rparr>) = sent h" "sent (h\<lparr>hb_listeners := ls\<rparr>) = sent h" "sent (h\<lparr>hb_issued := xs\<rparr>) = sent h"
  "sent (h\<lparr>hb_dropped := ds\<rparr>) = sent h"
  by (simp_all add: sent_def)

locale claim_queue =
  fixes ops :: "('q, 'r) queue_ops" and ok :: "'q \<Rightarrow> bool" and waiting :: "'q \<Rightarrow> 'r list" and used :: "'q \<Rightarrow> string set"
  assumes used: "ok q \<Longrightarrow> qo_id ops ` set (waiting q) \<subseteq> used q"
    and ids: "ok q \<Longrightarrow> distinct (map (qo_id ops) (waiting q))"
    and enqueue: "ok q \<Longrightarrow> qo_id ops r \<notin> used q \<Longrightarrow>
      ok (qo_enqueue ops r q) \<and> waiting (qo_enqueue ops r q) = waiting q @ [r] \<and> used (qo_enqueue ops r q) = insert (qo_id ops r) (used q)"
    and claim_none: "ok q \<Longrightarrow> waiting q = [] \<Longrightarrow> qo_claim ops q = (None, q)"
    and claim_some: "ok q \<Longrightarrow> waiting q = r # rs \<Longrightarrow>
      \<exists>q'. qo_claim ops q = (Some r, q') \<and> ok q' \<and> waiting q' = rs \<and> used q' = used q"
    and try_gone: "ok q \<Longrightarrow> i \<notin> qo_id ops ` set (waiting q) \<Longrightarrow> qo_tryClaim ops i q = (False, q)"
    and try_there: "ok q \<Longrightarrow> i \<in> qo_id ops ` set (waiting q) \<Longrightarrow>
      \<exists>q'. qo_tryClaim ops i q = (True, q') \<and> ok q' \<and> waiting q' = filter (\<lambda>r. qo_id ops r \<noteq> i) (waiting q) \<and> used q' = used q"
begin

lemma emit_gone:
  assumes "ok (hb_queue h)" "qo_id ops r \<notin> qo_id ops ` set (waiting (hb_queue h))"
  shows "fold (onEnqueue ops r) conns h = h"
proof -
  have "onEnqueue ops r conn h = h" for conn using try_gone [OF assms] by (simp add: onEnqueue_def)
  then show ?thesis by (induction conns) simp_all
qed

lemma enqueue_ok:
  assumes h: "hub_ok ok waiting used (qo_id ops) h" and new: "qo_id ops r \<notin> qo_id ops ` set (hb_issued h)"
  shows "hub_ok ok waiting used (qo_id ops) (hub_enqueue ops r h)"
proof -
  note h' = h [unfolded hub_ok_def]
  let ?q = "qo_enqueue ops r (hb_queue h)"
  let ?h = "h\<lparr>hb_queue := ?q, hb_issued := hb_issued h @ [r]\<rparr>"
  have "qo_id ops r \<notin> used (hb_queue h)" using h' new by blast
  then have q: "ok ?q" "waiting ?q = waiting (hb_queue h) @ [r]" "used ?q = insert (qo_id ops r) (used (hb_queue h))"
    using enqueue [of "hb_queue h" r] h' by auto
  have not_dropped: "qo_id ops r \<notin> set (hb_dropped h)" using h' new by blast
  show ?thesis
  proof (cases "hb_listeners h")
    case Nil
    then show ?thesis using h' q new not_dropped by (auto simp: hub_enqueue_def hub_ok_def)
  next
    case (Cons conn conns)
    then have empty: "waiting (hb_queue h) = []" using h' by simp
    obtain q' where q': "qo_tryClaim ops (qo_id ops r) ?q = (True, q')" "ok q'" "waiting q' = []" "used q' = used ?q"
      using try_there [OF q(1), of "qo_id ops r"] q(2) empty by auto
    let ?s = "settle conn (Sent r) (h\<lparr>hb_queue := q', hb_issued := hb_issued h @ [r]\<rparr>)"
    have one: "onEnqueue ops r conn ?h = ?s" using Cons q'(1) by (simp add: onEnqueue_def)
    have "fold (onEnqueue ops r) conns ?s = ?s" by (rule emit_gone) (simp_all add: q')
    then have "hub_enqueue ops r h = ?s" using Cons one by (simp add: hub_enqueue_def)
    then show ?thesis using h' q q' Cons empty new not_dropped by (auto simp: hub_ok_def)
  qed
qed

lemma wait_ok:
  assumes h: "hub_ok ok waiting used (qo_id ops) h" and new: "conn \<notin> set (hb_listeners h)" "conn \<notin> fst ` set (hb_replies h)"
  shows "hub_ok ok waiting used (qo_id ops) (hub_wait ops conn h)"
proof (cases "waiting (hb_queue h)")
  case Nil
  then show ?thesis using h new claim_none [OF _ Nil] by (auto simp: hub_ok_def hub_wait_def)
next
  case (Cons r rs)
  from h have "ok (hb_queue h)" by (simp add: hub_ok_def)
  from claim_some [OF this Cons] obtain q' where
    "qo_claim ops (hb_queue h) = (Some r, q')" "ok q'" "waiting q' = rs" "used q' = used (hb_queue h)" by blast
  then show ?thesis using h new Cons by (auto simp: hub_ok_def hub_wait_def)
qed

lemma waiting_first:
  assumes "hub_ok ok waiting used (qo_id ops) h" "waiting (hb_queue h) = r # rs"
  shows "(conn, Sent r) \<in> set (hb_replies (hub_wait ops conn h))" "hb_issued (hub_wait ops conn h) = hb_issued h"
proof -
  from assms(1) have "ok (hb_queue h)" by (simp add: hub_ok_def)
  from claim_some [OF this assms(2)] obtain q' where "qo_claim ops (hb_queue h) = (Some r, q')" by blast
  then show "(conn, Sent r) \<in> set (hb_replies (hub_wait ops conn h))" "hb_issued (hub_wait ops conn h) = hb_issued h"
    by (auto simp: hub_wait_def)
qed

lemma settle_ok:
  assumes "hub_ok ok waiting used (qo_id ops) h" "conn \<notin> fst ` set (hb_replies h)" "\<And>x. r \<noteq> Sent x"
  shows "hub_ok ok waiting used (qo_id ops) (settle conn r h)"
  using assms by (cases r) (auto simp: hub_ok_def distinct_removeAll)

lemma keepalive_ok: "hub_ok ok waiting used (qo_id ops) h \<Longrightarrow> hub_ok ok waiting used (qo_id ops) (hub_keepalive conn h)"
  using settle_ok [of h conn NoContent] by (auto simp: hub_keepalive_def) (auto simp: hub_ok_def)

lemma close_ok: "hub_ok ok waiting used (qo_id ops) h \<Longrightarrow> hub_ok ok waiting used (qo_id ops) (hub_close conn h)"
  by (auto simp: hub_ok_def hub_close_def distinct_removeAll)

lemma route_ok:
  assumes "hub_ok ok waiting used (qo_id ops) h" "conn \<notin> set (hb_listeners h)" "conn \<notin> fst ` set (hb_replies h)"
  shows "hub_ok ok waiting used (qo_id ops) (wait_route ops httpMethod conn h)"
  using wait_ok [OF assms] settle_ok [OF assms(1,3), of "Refused 405"] by (simp add: wait_route_def)

text \<open>Other operations of a queue take requests out, at most.\<close>

lemma quiet_ok:
  assumes "hub_ok ok waiting used (qo_id ops) h" "ok q" "used q \<subseteq> qo_id ops ` set (hb_issued h)" "waiting q = waiting (hb_queue h)"
  shows "hub_ok ok waiting used (qo_id ops) (h\<lparr>hb_queue := q\<rparr>)"
  using assms by (auto simp: hub_ok_def)

lemma drop_ok:
  assumes h: "hub_ok ok waiting used (qo_id ops) h" and q: "ok q" "used q \<subseteq> used (hb_queue h)"
    and w: "waiting q = filter (\<lambda>r. qo_id ops r \<noteq> i) (waiting (hb_queue h))"
  shows "hub_ok ok waiting used (qo_id ops) (h\<lparr>hb_queue := q,
    hb_dropped := (if i \<in> qo_id ops ` set (waiting (hb_queue h)) then i # hb_dropped h else hb_dropped h)\<rparr>)"
proof (cases "i \<in> qo_id ops ` set (waiting (hb_queue h))")
  case True
  note h' = h [unfolded hub_ok_def]
  have eq: "sent h @ waiting (hb_queue h) = filter (\<lambda>r. qo_id ops r \<notin> set (hb_dropped h)) (hb_issued h)" using h' by blast
  have "distinct (map (qo_id ops) (sent h @ waiting (hb_queue h)))" unfolding eq using h' by (simp add: distinct_map_filter)
  then have "\<forall>r \<in> set (sent h). qo_id ops r \<noteq> i" using True by auto
  then have "sent h = filter (\<lambda>r. qo_id ops r \<noteq> i) (sent h)" by (simp add: filter_id_conv)
  then have "sent h @ waiting q = filter (\<lambda>r. qo_id ops r \<noteq> i) (sent h @ waiting (hb_queue h))" using w by simp
  also have "\<dots> = filter (\<lambda>r. qo_id ops r \<notin> set (i # hb_dropped h)) (hb_issued h)"
    unfolding eq filter_filter by (rule filter_cong) auto
  finally have new: "sent h @ waiting q = filter (\<lambda>r. qo_id ops r \<notin> set (i # hb_dropped h)) (hb_issued h)" .
  have "i \<in> qo_id ops ` set (hb_issued h)" using True used h' by blast
  moreover have "hb_listeners h = [] \<or> waiting q = []" using h' w by auto
  ultimately show ?thesis using h' q new True by (auto simp: hub_ok_def)
next
  case False
  then have "waiting q = waiting (hb_queue h)" unfolding w by (auto simp: filter_id_conv)
  then show ?thesis using h q False by (auto simp: hub_ok_def)
qed

end

subsection \<open>Both queues keep the contract\<close>

definition keyed :: "('r \<Rightarrow> string) \<Rightarrow> (string \<times> 'r) list \<Rightarrow> string set \<Rightarrow> bool" where
  "keyed key xs claimed \<longleftrightarrow> distinct (map fst xs) \<and> (\<forall>(i, r) \<in> set xs. key r = i) \<and> fst ` set xs \<inter> claimed = {}"

lemma keyed_ids: "keyed key xs c \<Longrightarrow> map key (map snd xs) = map fst xs"
  by (auto simp: keyed_def)

lemma keyed_found: "keyed key xs c \<Longrightarrow> find (\<lambda>(i, r). i \<notin> c) xs = (case xs of [] \<Rightarrow> None | x # _ \<Rightarrow> Some x)"
  by (cases xs) (auto simp: keyed_def)

lemma keyed_update: "keyed key xs c \<Longrightarrow> key r \<notin> fst ` set xs \<union> c \<Longrightarrow>
    keyed key (AList.update (key r) r xs) c \<and> AList.update (key r) r xs = xs @ [(key r, r)]"
proof -
  have "key r \<notin> fst ` set xs \<Longrightarrow> AList.update (key r) r xs = xs @ [(key r, r)]" by (induction xs) auto
  then show "keyed key xs c \<Longrightarrow> key r \<notin> fst ` set xs \<union> c \<Longrightarrow> ?thesis" by (auto simp: keyed_def)
qed

lemma keyed_delete:
  assumes "keyed key xs c"
  shows "keyed key (AList.delete i xs) (insert i c)" "map snd (AList.delete i xs) = filter (\<lambda>r. key r \<noteq> i) (map snd xs)"
    "fst ` set (AList.delete i xs) = fst ` set xs - {i}"
proof -
  have "set (AList.delete i xs) \<subseteq> set xs" by (auto simp: AList.delete_eq)
  then show "keyed key (AList.delete i xs) (insert i c)"
    using assms distinct_delete [of xs i] by (auto simp: keyed_def AList.delete_eq)
  have "\<forall>(i, r) \<in> set xs. key r = i" using assms by (simp add: keyed_def)
  then show "map snd (AList.delete i xs) = filter (\<lambda>r. key r \<noteq> i) (map snd xs)" by (induction xs) auto
  show "fst ` set (AList.delete i xs) = fst ` set xs - {i}" by (auto simp: AList.delete_eq image_iff)
qed

lemma keyed_distinct: "keyed key xs c \<Longrightarrow> distinct (map key (map snd xs))"
  using keyed_ids [of key xs c] by (simp only:) (simp add: keyed_def)

lemma keyed_first:
  assumes k: "keyed key xs c" and w: "map snd xs = r # rs"
  shows "find (\<lambda>(i, r). i \<notin> c) xs = Some (key r, r)" "keyed key (AList.delete (key r) xs) (insert (key r) c)"
    "map snd (AList.delete (key r) xs) = rs" "insert (key r) (fst ` set (AList.delete (key r) xs)) = fst ` set xs"
proof -
  obtain zs where xs: "xs = (key r, r) # zs" "map snd zs = rs" using k w by (auto simp: keyed_def map_eq_Cons_conv)
  then have "key r \<notin> fst ` set zs" using k by (simp add: keyed_def)
  then have gone: "AList.delete (key r) xs = zs" using xs by (simp add: delete_id)
  show "find (\<lambda>(i, r). i \<notin> c) xs = Some (key r, r)" using keyed_found [OF k] xs by simp
  show "keyed key (AList.delete (key r) xs) (insert (key r) c)" by (rule keyed_delete [OF k])
  show "map snd (AList.delete (key r) xs) = rs" "insert (key r) (fst ` set (AList.delete (key r) xs)) = fst ` set xs"
    unfolding gone using xs by simp_all
qed

lemma keyed_mono: "keyed key xs c \<Longrightarrow> c' \<subseteq> c \<Longrightarrow> keyed key xs c'"
  by (auto simp: keyed_def)

lemma keyed_mem: "keyed key xs c \<Longrightarrow> key ` set (map snd xs) = fst ` set xs"
  using keyed_ids [of key xs c] by (metis list.set_map)

lemma keyed_none: "keyed key xs c \<Longrightarrow> map_of xs i = None \<longleftrightarrow> i \<notin> key ` set (map snd xs)"
  by (simp only: keyed_mem map_of_eq_None_iff)

definition sq_ok :: "spawn_queue \<Rightarrow> bool" where
  "sq_ok q \<longleftrightarrow> keyed sp_id (sq_pending q) (sq_claimed q)"

definition sq_waiting :: "spawn_queue \<Rightarrow> spawn_request list" where
  "sq_waiting q = map snd (sq_pending q)"

definition sq_used :: "spawn_queue \<Rightarrow> string set" where
  "sq_used q = fst ` set (sq_pending q) \<union> sq_claimed q"

interpretation spawns: claim_queue spawn_ops sq_ok sq_waiting sq_used
proof unfold_locales
  fix q :: spawn_queue and r rs i assume k: "sq_ok q"
  note k' = k [unfolded sq_ok_def]
  show "qo_id spawn_ops ` set (sq_waiting q) \<subseteq> sq_used q"
    using keyed_mem [OF k'] by (auto simp: spawn_ops_def sq_waiting_def sq_used_def)
  show "distinct (map (qo_id spawn_ops) (sq_waiting q))"
    using keyed_distinct [OF k'] by (simp only: spawn_ops_def sq_waiting_def queue_ops.simps)
  show "qo_id spawn_ops r \<notin> sq_used q \<Longrightarrow> sq_ok (qo_enqueue spawn_ops r q) \<and>
      sq_waiting (qo_enqueue spawn_ops r q) = sq_waiting q @ [r] \<and> sq_used (qo_enqueue spawn_ops r q) = insert (qo_id spawn_ops r) (sq_used q)"
    using keyed_update [OF k', of r] by (auto simp: spawn_ops_def sq_enqueue_def sq_ok_def sq_waiting_def sq_used_def)
  show "sq_waiting q = [] \<Longrightarrow> qo_claim spawn_ops q = (None, q)"
    by (simp add: spawn_ops_def sq_claim_def sq_waiting_def)
  show "sq_waiting q = r # rs \<Longrightarrow> \<exists>q'. qo_claim spawn_ops q = (Some r, q') \<and> sq_ok q' \<and> sq_waiting q' = rs \<and> sq_used q' = sq_used q"
    using keyed_first [OF k', of r rs] by (auto simp: spawn_ops_def sq_claim_def sq_waiting_def sq_ok_def sq_used_def)
  show "i \<notin> qo_id spawn_ops ` set (sq_waiting q) \<Longrightarrow> qo_tryClaim spawn_ops i q = (False, q)"
    using keyed_none [OF k', of i] by (simp add: spawn_ops_def sq_tryClaim_def sq_waiting_def)
  show "i \<in> qo_id spawn_ops ` set (sq_waiting q) \<Longrightarrow> \<exists>q'. qo_tryClaim spawn_ops i q = (True, q') \<and> sq_ok q' \<and>
      sq_waiting q' = filter (\<lambda>r. qo_id spawn_ops r \<noteq> i) (sq_waiting q) \<and> sq_used q' = sq_used q"
    using keyed_none [OF k', of i] keyed_delete [OF k'] keyed_mem [OF k']
    by (auto simp: spawn_ops_def sq_tryClaim_def sq_waiting_def sq_ok_def sq_used_def)
qed

definition cq_ok :: "chat_queue \<Rightarrow> bool" where
  "cq_ok q \<longleftrightarrow> keyed cd_id (cq_pending q) (cq_claimed q)"

definition cq_waiting :: "chat_queue \<Rightarrow> chat_request list" where
  "cq_waiting q = map snd (cq_pending q)"

definition cq_used :: "chat_queue \<Rightarrow> string set" where
  "cq_used q = fst ` set (cq_pending q) \<union> cq_claimed q"

interpretation chats: claim_queue "chat_ops timeoutMs" cq_ok cq_waiting cq_used for timeoutMs
proof unfold_locales
  fix q :: chat_queue and r rs i assume k: "cq_ok q"
  note k' = k [unfolded cq_ok_def]
  show "qo_id (chat_ops timeoutMs) ` set (cq_waiting q) \<subseteq> cq_used q"
    using keyed_mem [OF k'] by (auto simp: chat_ops_def cq_waiting_def cq_used_def)
  show "distinct (map (qo_id (chat_ops timeoutMs)) (cq_waiting q))"
    using keyed_distinct [OF k'] by (simp only: chat_ops_def cq_waiting_def queue_ops.simps)
  show "qo_id (chat_ops timeoutMs) r \<notin> cq_used q \<Longrightarrow> cq_ok (qo_enqueue (chat_ops timeoutMs) r q) \<and>
      cq_waiting (qo_enqueue (chat_ops timeoutMs) r q) = cq_waiting q @ [r] \<and>
      cq_used (qo_enqueue (chat_ops timeoutMs) r q) = insert (qo_id (chat_ops timeoutMs) r) (cq_used q)"
    using keyed_update [OF k', of r] by (auto simp: chat_ops_def cq_enqueueAndAwait_def cq_ok_def cq_waiting_def cq_used_def)
  show "cq_waiting q = [] \<Longrightarrow> qo_claim (chat_ops timeoutMs) q = (None, q)"
    by (simp add: chat_ops_def cq_claim_def cq_waiting_def)
  show "cq_waiting q = r # rs \<Longrightarrow> \<exists>q'. qo_claim (chat_ops timeoutMs) q = (Some r, q') \<and> cq_ok q' \<and> cq_waiting q' = rs \<and> cq_used q' = cq_used q"
    using keyed_first [OF k', of r rs] by (auto simp: chat_ops_def cq_claim_def cq_waiting_def cq_ok_def cq_used_def)
  show "i \<notin> qo_id (chat_ops timeoutMs) ` set (cq_waiting q) \<Longrightarrow> qo_tryClaim (chat_ops timeoutMs) i q = (False, q)"
    using keyed_none [OF k', of i] by (simp add: chat_ops_def cq_tryClaim_def cq_waiting_def)
  show "i \<in> qo_id (chat_ops timeoutMs) ` set (cq_waiting q) \<Longrightarrow> \<exists>q'. qo_tryClaim (chat_ops timeoutMs) i q = (True, q') \<and> cq_ok q' \<and>
      cq_waiting q' = filter (\<lambda>r. qo_id (chat_ops timeoutMs) r \<noteq> i) (cq_waiting q) \<and> cq_used q' = cq_used q"
    using keyed_none [OF k', of i] keyed_delete [OF k'] keyed_mem [OF k']
    by (auto simp: chat_ops_def cq_tryClaim_def cq_waiting_def cq_ok_def cq_used_def)
qed

end
