(* ===== verification/SpawnBridge.thy ===== *)
theory SpawnBridge
  imports ClaimQueue
begin

section \<open>Spawning through a plugin (ipc/plugin-registry.ts, dispatch/plugin-bridge-adapter.ts, selecting-adapter.ts)\<close>

text \<open>
  The adapter turns a spawn into a request on the queue and remembers the callback of the run; the plugin that
  claims the request posts the outcome, which calls the callback. Open long-polls are the registry of attached
  plugins. The state machine \<open>bridge_step\<close> has every event the daemon handles, in any order. The callback itself is
  the caller's (\<open>handleRunComplete\<close> of \<open>AssignExecutor\<close>, for an assignment): here its calls are recorded.
\<close>

subsection \<open>The registry\<close>

text \<open>A handle is the connection it was made for: the drawn part of its id only keeps handles apart.\<close>

record plugin_handle =
  ph_conn :: nat
  ph_pluginId :: string
  ph_connectedAt :: int

definition register_plugin :: "int \<Rightarrow> nat \<Rightarrow> plugin_handle list \<Rightarrow> plugin_handle list" where
  "register_plugin ts conn hs = hs @ [\<lparr>ph_conn = conn, ph_pluginId = ''openclaw'', ph_connectedAt = ts\<rparr>]"

definition release_plugin :: "nat \<Rightarrow> plugin_handle list \<Rightarrow> plugin_handle list" where
  "release_plugin conn hs = filter (\<lambda>h. ph_conn h \<noteq> conn) hs"

definition hasActivePlugin :: "plugin_handle list \<Rightarrow> bool" where
  "hasActivePlugin hs = list_ex (\<lambda>h. ph_pluginId h = ''openclaw'') hs"

definition activeCount :: "plugin_handle list \<Rightarrow> nat" where
  "activeCount hs = length hs"

subsection \<open>The bridge adapter\<close>

record bridge_entry =
  be_taskId :: string
  be_onRunComplete :: bool

record bridge =
  bg_hub :: "(spawn_queue, spawn_request) hub"
  bg_registry :: "plugin_handle list"
  bg_pending :: "(string \<times> bridge_entry) list"
  bg_outcomes :: "(string \<times> string \<times> run_outcome) list"

record spawn_opts =
  so_timeoutMs :: "rat option"
  so_correlationId :: "string option"
  so_onRunComplete :: bool

definition no_plugin :: spawn_result where
  "no_plugin = \<lparr>sr_success = False, sr_sessionId = None, sr_error = Some ''no-plugin-attached''\<rparr>"

text \<open>\<open>depth\<close> is \<open>metadata.callbackDepth\<close> of the context, 0 when it has none.\<close>

definition spawn_request_of :: "string \<Rightarrow> task_context \<Rightarrow> nat \<Rightarrow> spawn_opts \<Rightarrow> spawn_request" where
  "spawn_request_of uuid cx depth opts =
     \<lparr>sp_id = uuid, sp_taskId = cx_taskId cx, sp_taskPath = cx_taskPath cx, sp_agent = cx_agent cx, sp_priority = cx_priority cx,
      sp_routing = cx_routing cx, sp_projectId = cx_projectId cx,
      sp_timeoutMs = (case so_timeoutMs opts of None \<Rightarrow> cx_timeoutMs cx | Some t \<Rightarrow> Some t),
      sp_correlationId = so_correlationId opts, sp_callbackDepth = depth\<rparr>"

definition spawnSession :: "string \<Rightarrow> task_context \<Rightarrow> nat \<Rightarrow> spawn_opts \<Rightarrow> bridge \<Rightarrow> spawn_result \<times> bridge" where
  "spawnSession uuid cx depth opts b =
     (if \<not> hasActivePlugin (bg_registry b) then (no_plugin, b)
      else (\<lparr>sr_success = True, sr_sessionId = Some uuid, sr_error = None\<rparr>,
        b\<lparr>bg_hub := hub_enqueue spawn_ops (spawn_request_of uuid cx depth opts) (bg_hub b),
          bg_pending := AList.update uuid \<lparr>be_taskId = cx_taskId cx, be_onRunComplete = so_onRunComplete opts\<rparr> (bg_pending b)\<rparr>))"

text \<open>The entry is removed before the callback is called, so a replayed result finds none.\<close>

definition complete_spawn :: "string \<Rightarrow> run_outcome \<Rightarrow> bridge \<Rightarrow> bridge" where
  "complete_spawn spawnId outcome b = (case map_of (bg_pending b) spawnId of
     None \<Rightarrow> b
   | Some rec \<Rightarrow>
       let b' = b\<lparr>bg_pending := AList.delete spawnId (bg_pending b)\<rparr> in
       if be_onRunComplete rec then b'\<lparr>bg_outcomes := bg_outcomes b @ [(spawnId, be_taskId rec, outcome)]\<rparr> else b')"

definition deliverResult :: "string \<Rightarrow> run_outcome \<Rightarrow> bridge \<Rightarrow> bridge" where
  "deliverResult spawnId result b = complete_spawn spawnId result b"

definition session_alive :: "string \<Rightarrow> bridge \<Rightarrow> bool" where
  "session_alive sessionId b = (map_of (bg_pending b) sessionId \<noteq> None)"

definition forceCompleteSession :: "string \<Rightarrow> bridge \<Rightarrow> bridge" where
  "forceCompleteSession sessionId b = complete_spawn sessionId
     \<lparr>ro_sessionId = sessionId, ro_success = False, ro_aborted = True, ro_error = None, ro_durationMs = 0\<rparr> b"

subsection \<open>The route and the connections\<close>

definition handleSpawnWait :: "string \<Rightarrow> int \<Rightarrow> nat \<Rightarrow> bridge \<Rightarrow> bridge" where
  "handleSpawnWait httpMethod ts conn b =
     (if httpMethod \<noteq> ''GET'' then b\<lparr>bg_hub := wait_route spawn_ops httpMethod conn (bg_hub b)\<rparr>
      else b\<lparr>bg_registry := register_plugin ts conn (bg_registry b), bg_hub := wait_route spawn_ops httpMethod conn (bg_hub b)\<rparr>)"

definition spawn_keepalive :: "nat \<Rightarrow> bridge \<Rightarrow> bridge" where
  "spawn_keepalive conn b = b\<lparr>bg_hub := hub_keepalive conn (bg_hub b)\<rparr>"

definition spawn_closed :: "nat \<Rightarrow> bridge \<Rightarrow> bridge" where
  "spawn_closed conn b = b\<lparr>bg_registry := release_plugin conn (bg_registry b), bg_hub := hub_close conn (bg_hub b)\<rparr>"

definition new_connection :: "('q, 'r) hub \<Rightarrow> nat \<Rightarrow> bool" where
  "new_connection h conn \<longleftrightarrow> conn \<notin> set (hb_listeners h) \<and> conn \<notin> fst ` set (hb_replies h)"

definition new_id :: "('r \<Rightarrow> string) \<Rightarrow> ('q, 'r) hub \<Rightarrow> string \<Rightarrow> bool" where
  "new_id key h i \<longleftrightarrow> i \<notin> key ` set (hb_issued h)"

definition idle_hub :: "'q \<Rightarrow> ('q, 'r) hub" where
  "idle_hub q = \<lparr>hb_queue = q, hb_listeners = [], hb_replies = [], hb_issued = [], hb_dropped = []\<rparr>"

definition idle_bridge :: bridge where
  "idle_bridge = \<lparr>bg_hub = idle_hub \<lparr>sq_pending = [], sq_claimed = {}\<rparr>, bg_registry = [], bg_pending = [], bg_outcomes = []\<rparr>"

inductive bridge_step :: "bridge \<Rightarrow> bridge \<Rightarrow> bool" where
  spawn: "new_id sp_id (bg_hub b) uuid \<Longrightarrow> bridge_step b (snd (spawnSession uuid cx depth opts b))"
| wait: "new_connection (bg_hub b) conn \<Longrightarrow> bridge_step b (handleSpawnWait httpMethod ts conn b)"
| keepalive: "bridge_step b (spawn_keepalive conn b)"
| closed: "bridge_step b (spawn_closed conn b)"
| result: "bridge_step b (deliverResult i outcome b)"
| force: "bridge_step b (forceCompleteSession i b)"

subsection \<open>Selecting an adapter\<close>

text \<open>The fallback adapter is a parameter over a state of its own.\<close>

datatype adapter_mode = PluginBridgeMode | StandaloneMode

record 's fallback =
  fa_spawn :: "task_context \<Rightarrow> nat \<Rightarrow> spawn_opts \<Rightarrow> 's \<Rightarrow> spawn_result \<times> 's"
  fa_alive :: "string \<Rightarrow> 's \<Rightarrow> bool"
  fa_force :: "string \<Rightarrow> 's \<Rightarrow> 's"

definition select_spawn :: "adapter_mode \<Rightarrow> 's fallback \<Rightarrow> string \<Rightarrow> task_context \<Rightarrow> nat \<Rightarrow> spawn_opts \<Rightarrow>
    bridge \<times> 's \<Rightarrow> spawn_result \<times> bridge \<times> 's" where
  "select_spawn mode fa uuid cx depth opts = (\<lambda>(b, s).
     if hasActivePlugin (bg_registry b) then let (r, b') = spawnSession uuid cx depth opts b in (r, b', s)
     else if mode = StandaloneMode then let (r, s') = fa_spawn fa cx depth opts s in (r, b, s')
     else (no_plugin, b, s))"

definition select_alive :: "adapter_mode \<Rightarrow> 's fallback \<Rightarrow> string \<Rightarrow> bridge \<times> 's \<Rightarrow> bool" where
  "select_alive mode fa sessionId = (\<lambda>(b, s).
     if hasActivePlugin (bg_registry b) then session_alive sessionId b
     else mode = StandaloneMode \<and> fa_alive fa sessionId s)"

definition select_force :: "adapter_mode \<Rightarrow> 's fallback \<Rightarrow> string \<Rightarrow> bridge \<times> 's \<Rightarrow> bridge \<times> 's" where
  "select_force mode fa sessionId = (\<lambda>(b, s).
     if hasActivePlugin (bg_registry b) then (forceCompleteSession sessionId b, s)
     else if mode = StandaloneMode then (b, fa_force fa sessionId s)
     else (b, s))"

subsection \<open>Chat messages\<close>

text \<open>The daemon's message tool queues a message and awaits its promise; a plugin claims it and posts what became of it.
  Each promise has a timer of its own.\<close>

inductive chat_step :: "(chat_queue, chat_request) hub \<Rightarrow> (chat_queue, chat_request) hub \<Rightarrow> bool" where
  enqueue: "new_id cd_id h (cd_id req) \<Longrightarrow> chat_step h (hub_enqueue (chat_ops timeoutMs) req h)"
| wait: "new_connection h conn \<Longrightarrow> chat_step h (wait_route (chat_ops timeoutMs) httpMethod conn h)"
| keepalive: "chat_step h (hub_keepalive conn h)"
| closed: "chat_step h (hub_close conn h)"
| result: "chat_step h (h\<lparr>hb_queue := cq_deliverResult i res (hb_queue h)\<rparr>)"
| timeout: "chat_step h (h\<lparr>hb_queue := cq_timeout i (hb_queue h), hb_dropped :=
     (if map_of (cq_pending (hb_queue h)) i \<noteq> None \<and> cq_timeout i (hb_queue h) \<noteq> hb_queue h then i # hb_dropped h else hb_dropped h)\<rparr>)"

definition idle_chats :: "(chat_queue, chat_request) hub" where
  "idle_chats = idle_hub \<lparr>cq_pending = [], cq_claimed = {}, cq_waiters = [], cq_settled = []\<rparr>"

end
