(* ===== verification/BridgeProps.thy ===== *)
theory BridgeProps
  imports ClaimQueueProps SpawnBridge
begin

section \<open>What the bridge to plugins promises\<close>

text \<open>
  Invariants of every state the daemon can reach, by induction over its events: requests are answered once and in order,
  and no callback of a run is called twice. Then what a forced completion leaves behind.
\<close>

subsection \<open>Spawn requests\<close>

definition bridge_ok :: "bridge \<Rightarrow> bool" where
  "bridge_ok b \<longleftrightarrow>
     hub_ok sq_ok sq_waiting sq_used sp_id (bg_hub b) \<and> hb_dropped (bg_hub b) = [] \<and>
     (\<forall>conn \<in> set (hb_listeners (bg_hub b)). conn \<in> ph_conn ` set (bg_registry b)) \<and>
     distinct (map fst (bg_pending b)) \<and> fst ` set (bg_pending b) \<subseteq> sp_id ` set (hb_issued (bg_hub b)) \<and>
     distinct (map fst (bg_outcomes b)) \<and> fst ` set (bg_outcomes b) \<subseteq> sp_id ` set (hb_issued (bg_hub b)) \<and>
     fst ` set (bg_pending b) \<inter> fst ` set (bg_outcomes b) = {}"

lemma hub_ops_frame [simp]:
  "hb_dropped (hub_wait ops conn h) = hb_dropped h" "hb_issued (hub_wait ops conn h) = hb_issued h"
  "hb_dropped (wait_route ops m conn h) = hb_dropped h" "hb_issued (wait_route ops m conn h) = hb_issued h"
  "hb_dropped (hub_keepalive conn h) = hb_dropped h" "hb_issued (hub_keepalive conn h) = hb_issued h"
  "hb_dropped (hub_close conn h) = hb_dropped h" "hb_issued (hub_close conn h) = hb_issued h"
  "hb_queue (hub_keepalive conn h) = hb_queue h" "hb_queue (hub_close conn h) = hb_queue h"
  by (auto simp: hub_wait_def wait_route_def hub_keepalive_def hub_close_def split: prod.split option.split)

lemma listeners_after:
  "set (hb_listeners (wait_route ops m conn h)) \<subseteq> (if m = ''GET'' then insert conn (set (hb_listeners h)) else set (hb_listeners h))"
  "set (hb_listeners (hub_keepalive conn h)) \<subseteq> set (hb_listeners h)"
  "set (hb_listeners (hub_close conn h)) = set (hb_listeners h) - {conn}"
  by (auto simp: hub_wait_def wait_route_def hub_keepalive_def hub_close_def split: prod.split option.split)

lemma fold_enqueue:
  "P h \<Longrightarrow> (\<And>conn h. P h \<Longrightarrow> P (onEnqueue ops r conn h)) \<Longrightarrow> P (fold (onEnqueue ops r) conns h)"
  by (rule fold_invariant [where Q = "\<lambda>_. True"]) auto

lemma enqueue_frame: "hb_dropped (hub_enqueue ops r h) = hb_dropped h \<and> hb_issued (hub_enqueue ops r h) = hb_issued h @ [r] \<and>
    set (hb_listeners (hub_enqueue ops r h)) \<subseteq> set (hb_listeners h)"
  unfolding hub_enqueue_def
proof (rule fold_enqueue)
  fix conn and k :: "('a, 'b) hub"
  assume "hb_dropped k = hb_dropped h \<and> hb_issued k = hb_issued h @ [r] \<and> set (hb_listeners k) \<subseteq> set (hb_listeners h)"
  then show "hb_dropped (onEnqueue ops r conn k) = hb_dropped h \<and> hb_issued (onEnqueue ops r conn k) = hb_issued h @ [r] \<and>
      set (hb_listeners (onEnqueue ops r conn k)) \<subseteq> set (hb_listeners h)"
    by (auto simp: onEnqueue_def split: prod.split)
qed simp

lemma alist_update_new: "i \<notin> fst ` set xs \<Longrightarrow> AList.update i v xs = xs @ [(i, v)]"
  by (induction xs) auto

lemma alist_delete: "fst ` set (AList.delete i xs) = fst ` set xs - {i}" "distinct (map fst xs) \<Longrightarrow> distinct (map fst (AList.delete i xs))"
  by (auto simp: AList.delete_eq image_iff distinct_map_filter)

lemma spawn_key: "qo_id spawn_ops = sp_id" and chat_key: "qo_id (chat_ops timeoutMs) = cd_id"
  by (simp_all add: spawn_ops_def chat_ops_def)

lemmas spawn_hub = spawns.enqueue_ok spawns.route_ok spawns.keepalive_ok spawns.close_ok
lemmas chat_hub = chats.enqueue_ok chats.route_ok chats.keepalive_ok chats.close_ok

lemma complete_spawn_ok: "bridge_ok b \<Longrightarrow> bridge_ok (complete_spawn i outcome b)"
proof (cases "map_of (bg_pending b) i")
  case (Some rec)
  assume b: "bridge_ok b"
  have "i \<in> fst ` set (bg_pending b)" using Some by (metis map_of_eq_None_iff option.distinct(1))
  then show ?thesis using b Some by (auto simp: bridge_ok_def complete_spawn_def Let_def alist_delete)
qed (simp add: complete_spawn_def)

lemma bridge_step_ok:
  assumes "bridge_step b b'" "bridge_ok b"
  shows "bridge_ok b'"
  using assms
proof (induction rule: bridge_step.induct)
  case (spawn b uuid cx depth opts)
  let ?r = "spawn_request_of uuid cx depth opts"
  have new: "uuid \<notin> sp_id ` set (hb_issued (bg_hub b))" "sp_id ?r = uuid"
    using spawn.hyps by (simp_all add: new_id_def spawn_request_of_def)
  have "hub_ok sq_ok sq_waiting sq_used sp_id (hub_enqueue spawn_ops ?r (bg_hub b))"
    using spawns.enqueue_ok [of "bg_hub b" ?r] spawn.prems new by (simp add: bridge_ok_def spawn_key)
  moreover have "uuid \<notin> fst ` set (bg_pending b)" "uuid \<notin> fst ` set (bg_outcomes b)" using spawn.prems new(1) by (auto simp: bridge_ok_def)
  ultimately show ?case
    using spawn.prems enqueue_frame [of spawn_ops ?r "bg_hub b"] new(2)
    by (auto simp: bridge_ok_def spawnSession_def alist_update_new)
next
  case (wait b conn httpMethod ts)
  have "hub_ok sq_ok sq_waiting sq_used sp_id (wait_route spawn_ops httpMethod conn (bg_hub b))"
    using spawns.route_ok [of "bg_hub b" conn httpMethod] wait by (simp add: bridge_ok_def spawn_key new_connection_def)
  then show ?case
    using wait.prems listeners_after(1) [of spawn_ops httpMethod conn "bg_hub b"]
    by (auto simp: bridge_ok_def handleSpawnWait_def register_plugin_def subset_iff split: if_splits)
next
  case (keepalive b conn)
  then show ?case using spawns.keepalive_ok [of "bg_hub b" conn] listeners_after(2) [of conn "bg_hub b"]
    by (auto simp: bridge_ok_def spawn_keepalive_def spawn_key)
next
  case (closed b conn)
  then show ?case using spawns.close_ok [of "bg_hub b" conn]
    by (auto simp: bridge_ok_def spawn_closed_def spawn_key release_plugin_def listeners_after)
qed (simp_all add: deliverResult_def forceCompleteSession_def complete_spawn_ok)

lemma idle_ok: "bridge_ok idle_bridge"
  by (simp add: bridge_ok_def idle_bridge_def idle_hub_def hub_ok_def sq_ok_def sq_waiting_def sq_used_def keyed_def sent_def)

lemma bridge_reach_ok: "bridge_step\<^sup>*\<^sup>* idle_bridge b \<Longrightarrow> bridge_ok b"
  by (induction rule: rtranclp_induct) (auto simp: idle_ok intro: bridge_step_ok)

text \<open>C27: spawn requests are handed out exactly once and in order. In every state the daemon reaches, whatever the order of
  spawns, polls, timeouts, dropped connections, results and forced completions: the requests sent to connections, followed by
  those still queued, are the requests issued, in the order of issue; a connection is answered at most once; a request only
  stays in the queue while no connection waits; and every waiting connection is registered as a plugin.\<close>

theorem bridge_exactly_once:
  assumes "bridge_step\<^sup>*\<^sup>* idle_bridge b"
  shows "sent (bg_hub b) @ map snd (sq_pending (hb_queue (bg_hub b))) = hb_issued (bg_hub b) \<and>
    distinct (map sp_id (hb_issued (bg_hub b))) \<and> distinct (map fst (hb_replies (bg_hub b))) \<and>
    (sq_pending (hb_queue (bg_hub b)) = [] \<or> hb_listeners (bg_hub b) = []) \<and>
    set (hb_listeners (bg_hub b)) \<subseteq> ph_conn ` set (bg_registry b)"
  using bridge_reach_ok [OF assms] by (auto simp: bridge_ok_def hub_ok_def sq_waiting_def)

text \<open>C28: the outcome of a run is reported once. In every reachable state a session that counts as alive belongs to a request
  that was issued and has not been reported; when its result is posted the callback, if there is one, is called with it and
  the session ends; a result or a forced completion of any other session, a replay among them, changes nothing.\<close>

theorem outcome_reported_once:
  assumes "bridge_step\<^sup>*\<^sup>* idle_bridge b"
  shows "distinct (map fst (bg_outcomes b)) \<and>
    (\<forall>i. session_alive i b \<longrightarrow> i \<in> sp_id ` set (hb_issued (bg_hub b)) \<and> i \<notin> fst ` set (bg_outcomes b)) \<and>
    (\<forall>i outcome. \<not> session_alive i b \<longrightarrow> deliverResult i outcome b = b \<and> forceCompleteSession i b = b) \<and>
    (\<forall>i e outcome. map_of (bg_pending b) i = Some e \<longrightarrow>
       bg_outcomes (deliverResult i outcome b) = bg_outcomes b @ (if be_onRunComplete e then [(i, be_taskId e, outcome)] else []) \<and>
       \<not> session_alive i (deliverResult i outcome b))"
proof -
  note ok = bridge_reach_ok [OF assms, unfolded bridge_ok_def]
  have alive: "i \<in> fst ` set (bg_pending b)" if "session_alive i b" for i
    using that unfolding session_alive_def by (meson map_of_eq_None_iff)
  have dead: "complete_spawn i outcome b = b" if "\<not> session_alive i b" for i outcome
    using that by (cases "map_of (bg_pending b) i") (simp_all add: session_alive_def complete_spawn_def)
  have told: "bg_outcomes (complete_spawn i outcome b) = bg_outcomes b @ (if be_onRunComplete e then [(i, be_taskId e, outcome)] else []) \<and>
      \<not> session_alive i (complete_spawn i outcome b)" if "map_of (bg_pending b) i = Some e" for i e outcome
    using that by (simp add: complete_spawn_def session_alive_def delete_conv' Let_def)
  have "i \<in> sp_id ` set (hb_issued (bg_hub b)) \<and> i \<notin> fst ` set (bg_outcomes b)" if "session_alive i b" for i
    using alive [OF that] ok by blast
  moreover have "distinct (map fst (bg_outcomes b))" using ok by blast
  ultimately show ?thesis
    unfolding deliverResult_def forceCompleteSession_def using dead told by (intro conjI allI impI) simp_all
qed

text \<open>Fact: a forced completion does not take the request back. When the session of a request that no plugin has claimed yet is
  force-completed, its callback is told that the run was aborted; the next connection is sent the request all the same, and
  what the agent then reports is ignored.\<close>

theorem forced_request_still_sent:
  assumes "bridge_step\<^sup>*\<^sup>* idle_bridge b" "sq_pending (hb_queue (bg_hub b)) = (i, r) # rest" "session_alive i b"
    and "b1 = forceCompleteSession i b" "b2 = handleSpawnWait ''GET'' ts conn b1"
  shows "\<not> session_alive i b1 \<and> (conn, Sent r) \<in> set (hb_replies (bg_hub b2)) \<and> deliverResult i outcome b2 = b2"
proof -
  have hub: "bg_hub b1 = bg_hub b" and gone: "map_of (bg_pending b1) i = None"
    using assms(3,4) by (auto simp: forceCompleteSession_def complete_spawn_def Let_def delete_conv' split: option.split)
  have "hub_ok sq_ok sq_waiting sq_used (qo_id spawn_ops) (bg_hub b1)"
    using bridge_reach_ok [OF assms(1)] hub by (simp add: bridge_ok_def spawn_key)
  moreover have "sq_waiting (hb_queue (bg_hub b1)) = r # map snd rest" using hub assms(2) by (simp add: sq_waiting_def)
  ultimately have "(conn, Sent r) \<in> set (hb_replies (hub_wait spawn_ops conn (bg_hub b1)))" by (rule spawns.waiting_first)
  then show ?thesis
    using gone assms(5) by (simp add: handleSpawnWait_def wait_route_def session_alive_def deliverResult_def complete_spawn_def)
qed

subsection \<open>Chat messages\<close>

definition chat_ok :: "(chat_queue, chat_request) hub \<Rightarrow> bool" where
  "chat_ok h \<longleftrightarrow> hub_ok cq_ok cq_waiting cq_used cd_id h \<and>
     distinct (map fst (cq_waiters (hb_queue h))) \<and> distinct (map fst (cq_settled (hb_queue h))) \<and>
     fst ` set (cq_waiters (hb_queue h)) \<inter> fst ` set (cq_settled (hb_queue h)) = {} \<and>
     fst ` set (cq_waiters (hb_queue h)) \<union> fst ` set (cq_settled (hb_queue h)) = cd_id ` set (hb_issued h) \<and>
     fst ` set (cq_waiters (hb_queue h)) \<subseteq> cq_used (hb_queue h) \<and> set (hb_dropped h) \<subseteq> fst ` set (cq_settled (hb_queue h))"

lemma chat_claims [simp]:
  "cq_waiters (snd (cq_claim q)) = cq_waiters q" "cq_settled (snd (cq_claim q)) = cq_settled q"
  "cq_waiters (snd (cq_tryClaim i q)) = cq_waiters q" "cq_settled (snd (cq_tryClaim i q)) = cq_settled q"
  "cq_used q \<subseteq> cq_used (snd (cq_claim q))" "cq_used q \<subseteq> cq_used (snd (cq_tryClaim i q))"
  by (auto simp: cq_claim_def cq_tryClaim_def cq_used_def alist_delete split: option.split)

lemma chat_wait_queue:
  "cq_waiters (hb_queue (wait_route (chat_ops t) m conn h)) = cq_waiters (hb_queue h)"
  "cq_settled (hb_queue (wait_route (chat_ops t) m conn h)) = cq_settled (hb_queue h)"
  "cq_used (hb_queue h) \<subseteq> cq_used (hb_queue (wait_route (chat_ops t) m conn h))"
proof -
  obtain r q where q: "cq_claim (hb_queue h) = (r, q)" by (cases "cq_claim (hb_queue h)")
  have c: "cq_waiters q = cq_waiters (hb_queue h)" "cq_settled q = cq_settled (hb_queue h)" "cq_used (hb_queue h) \<subseteq> cq_used q"
    using chat_claims(1,2,5) [where q = "hb_queue h"] unfolding q by simp_all
  have "hb_queue (wait_route (chat_ops t) m conn h) = (if m = ''GET'' then q else hb_queue h)"
    using q by (simp add: wait_route_def hub_wait_def chat_ops_def split: option.split)
  then show "cq_waiters (hb_queue (wait_route (chat_ops t) m conn h)) = cq_waiters (hb_queue h)"
    "cq_settled (hb_queue (wait_route (chat_ops t) m conn h)) = cq_settled (hb_queue h)"
    "cq_used (hb_queue h) \<subseteq> cq_used (hb_queue (wait_route (chat_ops t) m conn h))"
    using c by simp_all
qed

lemma chat_enqueue_queue:
  "cq_waiters (hb_queue (hub_enqueue (chat_ops t) r h)) = cq_waiters (cq_enqueueAndAwait t r (hb_queue h)) \<and>
   cq_settled (hb_queue (hub_enqueue (chat_ops t) r h)) = cq_settled (hb_queue h) \<and>
   cq_used (cq_enqueueAndAwait t r (hb_queue h)) \<subseteq> cq_used (hb_queue (hub_enqueue (chat_ops t) r h))"
  (is "?P (hub_enqueue (chat_ops t) r h)")
  unfolding hub_enqueue_def
proof (rule fold_enqueue)
  fix conn k assume k: "?P k"
  show "?P (onEnqueue (chat_ops t) r conn k)"
  proof (cases "conn \<in> set (hb_listeners k)")
    case True
    obtain won q where q: "cq_tryClaim (cd_id r) (hb_queue k) = (won, q)" by (cases "cq_tryClaim (cd_id r) (hb_queue k)")
    have "cq_waiters q = cq_waiters (hb_queue k)" "cq_settled q = cq_settled (hb_queue k)" "cq_used (hb_queue k) \<subseteq> cq_used q"
      using chat_claims(3,4,6) [where q = "hb_queue k" and i = "cd_id r"] unfolding q by simp_all
    moreover have "hb_queue (onEnqueue (chat_ops t) r conn k) = q" using True q by (simp add: onEnqueue_def chat_ops_def)
    ultimately show ?thesis using k by (simp only:) blast
  next
    case False
    then show ?thesis using k by (simp only: onEnqueue_def if_True not_False_eq_True)
  qed
qed (simp add: chat_ops_def cq_enqueueAndAwait_def)

lemma chat_step_ok:
  assumes "chat_step h h'" "chat_ok h"
  shows "chat_ok h'"
  using assms
proof (induction rule: chat_step.induct)
  case (enqueue h req t)
  have new: "cd_id req \<notin> cd_id ` set (hb_issued h)" using enqueue.hyps by (simp add: new_id_def)
  have "hub_ok cq_ok cq_waiting cq_used cd_id (hub_enqueue (chat_ops t) req h)"
    using chats.enqueue_ok [where h = h and timeoutMs = t and r = req] enqueue.prems new by (simp add: chat_ok_def chat_key)
  moreover have w: "cd_id req \<notin> fst ` set (cq_waiters (hb_queue h))" "cd_id req \<notin> fst ` set (cq_settled (hb_queue h))"
    using enqueue.prems new by (auto simp: chat_ok_def)
  moreover have "cq_used (cq_enqueueAndAwait t req (hb_queue h)) = insert (cd_id req) (cq_used (hb_queue h))"
    by (simp add: cq_enqueueAndAwait_def cq_used_def update_keys_set)
  ultimately show ?case
    using enqueue.prems enqueue_frame [of "chat_ops t" req h] chat_enqueue_queue [where h = h and r = req and t = t]
    by (auto simp: chat_ok_def cq_enqueueAndAwait_def alist_update_new)
next
  case (wait h conn t m)
  then show ?case using chats.route_ok [where h = h and conn = conn and timeoutMs = t and httpMethod = m] chat_wait_queue [where h = h and conn = conn and t = t and m = m]
    by (auto simp: chat_ok_def chat_key new_connection_def)
next
  case (keepalive h conn)
  then show ?case using chats.keepalive_ok [of _ h conn] by (simp add: chat_ok_def chat_key)
next
  case (closed h conn)
  then show ?case using chats.close_ok [of _ h conn] by (simp add: chat_ok_def chat_key)
next
  case (result h i res)
  let ?q = "cq_deliverResult i res (hb_queue h)"
  have h: "hub_ok cq_ok cq_waiting cq_used (qo_id (chat_ops None)) h" using result.prems by (simp add: chat_ok_def chat_key)
  have "cq_ok ?q" "cq_waiting ?q = cq_waiting (hb_queue h)" "cq_used ?q \<subseteq> cq_used (hb_queue h)"
    using h by (auto simp: hub_ok_def cq_deliverResult_def cq_ok_def cq_waiting_def cq_used_def split: option.split intro: keyed_mono)
  then have "hub_ok cq_ok cq_waiting cq_used cd_id (h\<lparr>hb_queue := ?q\<rparr>)"
    using chats.quiet_ok [OF h] h by (auto simp: hub_ok_def chat_key)
  then show ?case
  proof (cases "map_of (cq_waiters (hb_queue h)) i")
    case (Some t)
    have "i \<in> fst ` set (cq_waiters (hb_queue h))" using Some by (metis map_of_eq_None_iff option.distinct(1))
    then show ?thesis using \<open>hub_ok cq_ok cq_waiting cq_used cd_id (h\<lparr>hb_queue := ?q\<rparr>)\<close> result.prems Some
      by (auto simp: chat_ok_def cq_deliverResult_def alist_delete cq_used_def)
  qed (use result.prems in \<open>simp add: cq_deliverResult_def\<close>)
next
  case (timeout h i)
  let ?q = "cq_timeout i (hb_queue h)"
  show ?case
  proof (cases "\<exists>t. map_of (cq_waiters (hb_queue h)) i = Some t \<and> t > 0")
    case True
    then obtain t where t: "map_of (cq_waiters (hb_queue h)) i = Some t" "t > 0" by blast
    have h: "hub_ok cq_ok cq_waiting cq_used (qo_id (chat_ops None)) h" using timeout.prems by (simp add: chat_ok_def chat_key)
    have k: "keyed cd_id (cq_pending (hb_queue h)) (cq_claimed (hb_queue h))" using h by (simp add: hub_ok_def cq_ok_def)
    have "map_of (cq_waiters ?q) i = None" using t by (simp add: cq_timeout_def delete_conv')
    then have "?q \<noteq> hb_queue h" using t(1) by force
    then have dropped: "(map_of (cq_pending (hb_queue h)) i \<noteq> None \<and> ?q \<noteq> hb_queue h) = (i \<in> qo_id (chat_ops None) ` set (cq_waiting (hb_queue h)))"
      using keyed_none [OF k, of i] by (simp add: cq_waiting_def chat_key)
    have "cq_ok ?q" using t keyed_delete(1) [OF k, of i] by (auto simp: cq_timeout_def cq_ok_def intro: keyed_mono)
    moreover have "cq_used ?q \<subseteq> cq_used (hb_queue h)" using t keyed_delete(3) [OF k, of i] by (auto simp: cq_timeout_def cq_used_def)
    moreover have "cq_waiting ?q = filter (\<lambda>r. qo_id (chat_ops None) r \<noteq> i) (cq_waiting (hb_queue h))"
      using t keyed_delete(2) [OF k, of i] by (simp add: cq_timeout_def cq_waiting_def chat_key)
    ultimately have "hub_ok cq_ok cq_waiting cq_used cd_id (h\<lparr>hb_queue := ?q, hb_dropped :=
        (if i \<in> qo_id (chat_ops None) ` set (cq_waiting (hb_queue h)) then i # hb_dropped h else hb_dropped h)\<rparr>)"
      using chats.drop_ok [OF h] by (simp add: chat_key)
    moreover have "i \<in> fst ` set (cq_waiters (hb_queue h))" using t(1) by (metis map_of_eq_None_iff option.distinct(1))
    ultimately show ?thesis using timeout.prems t keyed_delete(3) [OF k, of i] unfolding dropped
      by (auto simp: chat_ok_def cq_timeout_def alist_delete cq_used_def)
  next
    case False
    then have "?q = hb_queue h" by (auto simp: cq_timeout_def split: option.split)
    then show ?thesis using timeout.prems by simp
  qed
qed

lemma idle_chats_ok: "chat_ok idle_chats"
  by (simp add: chat_ok_def idle_chats_def idle_hub_def hub_ok_def cq_ok_def cq_waiting_def cq_used_def keyed_def sent_def)

lemma chat_reach_ok: "chat_step\<^sup>*\<^sup>* idle_chats h \<Longrightarrow> chat_ok h"
  by (induction rule: rtranclp_induct) (auto simp: idle_chats_ok intro: chat_step_ok)

text \<open>C29: no sender of a chat message is left hanging. In every reachable state every message issued either has its promise
  settled, once, or awaits it, and then the message is still queued or claimed by a plugin, and when its timer fires the
  promise is settled and the message leaves the queue. Messages reach connections once and in the order of issue, except
  those whose timer fired before they were claimed; and none waits while a connection does.\<close>

theorem chat_promises:
  assumes "chat_step\<^sup>*\<^sup>* idle_chats h"
  shows "distinct (map fst (cq_settled (hb_queue h))) \<and>
    (\<forall>r \<in> set (hb_issued h). (cd_id r \<in> fst ` set (cq_settled (hb_queue h))) \<noteq> (map_of (cq_waiters (hb_queue h)) (cd_id r) \<noteq> None)) \<and>
    (\<forall>i t. map_of (cq_waiters (hb_queue h)) i = Some t \<longrightarrow>
       (map_of (cq_pending (hb_queue h)) i \<noteq> None \<or> i \<in> cq_claimed (hb_queue h)) \<and>
       (t > 0 \<longrightarrow> i \<in> fst ` set (cq_settled (cq_timeout i (hb_queue h))) \<and> map_of (cq_pending (cq_timeout i (hb_queue h))) i = None)) \<and>
    sent h @ map snd (cq_pending (hb_queue h)) = filter (\<lambda>r. cd_id r \<notin> set (hb_dropped h)) (hb_issued h) \<and>
    set (hb_dropped h) \<subseteq> fst ` set (cq_settled (hb_queue h)) \<and> distinct (map fst (hb_replies h)) \<and>
    (cq_pending (hb_queue h) = [] \<or> hb_listeners h = [])"
proof -
  note ok = chat_reach_ok [OF assms, unfolded chat_ok_def hub_ok_def cq_waiting_def]
  have mem: "map_of xs i \<noteq> None \<longleftrightarrow> i \<in> fst ` set xs" for xs :: "(string \<times> 'x) list" and i
    by (metis map_of_eq_None_iff)
  have "\<forall>r \<in> set (hb_issued h). (cd_id r \<in> fst ` set (cq_settled (hb_queue h))) \<noteq> (map_of (cq_waiters (hb_queue h)) (cd_id r) \<noteq> None)"
    unfolding mem using ok by blast
  moreover have "map_of (cq_pending (hb_queue h)) i \<noteq> None \<or> i \<in> cq_claimed (hb_queue h)"
    if "map_of (cq_waiters (hb_queue h)) i = Some t" for i t
  proof -
    have "i \<in> fst ` set (cq_waiters (hb_queue h))" using that mem [of "cq_waiters (hb_queue h)" i] by simp
    then show ?thesis unfolding mem using ok by (auto simp: cq_used_def)
  qed
  moreover have "i \<in> fst ` set (cq_settled (cq_timeout i (hb_queue h))) \<and> map_of (cq_pending (cq_timeout i (hb_queue h))) i = None"
    if "map_of (cq_waiters (hb_queue h)) i = Some t" "t > 0" for i t
    using that by (simp add: cq_timeout_def delete_conv')
  ultimately show ?thesis using ok by auto
qed

subsection \<open>The theorems at concrete states\<close>

definition sample_context :: task_context where
  "sample_context = \<lparr>cx_taskId = ''t'', cx_taskPath = taskPath ''t'' InProgress, cx_agent = ''dev'', cx_priority = PNormal,
     cx_routing = \<lparr>rt_role = None, rt_team = None, rt_agent = None, rt_tags = [], rt_workflow = None\<rparr>, cx_projectId = None,
     cx_hopContext = None, cx_timeoutMs = None\<rparr>"

definition sample_spawn :: "string \<Rightarrow> bridge \<Rightarrow> bridge" where
  "sample_spawn uuid b = snd (spawnSession uuid sample_context 0 \<lparr>so_timeoutMs = None, so_correlationId = None, so_onRunComplete = True\<rparr> b)"

text \<open>One plugin waits and gets the first of two requests; the second stays queued.\<close>

definition busy_bridge :: bridge where
  "busy_bridge = sample_spawn ''u2'' (sample_spawn ''u1'' (handleSpawnWait ''GET'' 0 1 idle_bridge))"

lemma busy_reached: "bridge_step\<^sup>*\<^sup>* idle_bridge busy_bridge"
proof -
  have "bridge_step idle_bridge (handleSpawnWait ''GET'' 0 1 idle_bridge)"
    by (rule bridge_step.wait) (simp add: new_connection_def idle_bridge_def idle_hub_def)
  moreover have "bridge_step (handleSpawnWait ''GET'' 0 1 idle_bridge) (sample_spawn ''u1'' (handleSpawnWait ''GET'' 0 1 idle_bridge))"
    unfolding sample_spawn_def
    by (rule bridge_step.spawn) (simp add: new_id_def handleSpawnWait_def idle_bridge_def idle_hub_def)
  moreover have "new_id sp_id (bg_hub (sample_spawn ''u1'' (handleSpawnWait ''GET'' 0 1 idle_bridge))) ''u2''"
    unfolding new_id_def by code_simp
  then have "bridge_step (sample_spawn ''u1'' (handleSpawnWait ''GET'' 0 1 idle_bridge)) busy_bridge"
    unfolding busy_bridge_def sample_spawn_def [of "''u2''"] by (rule bridge_step.spawn)
  ultimately show ?thesis by (meson rtranclp.rtrancl_into_rtrancl rtranclp.rtrancl_refl)
qed

lemma busy_facts:
  "map sp_id (sent (bg_hub busy_bridge)) = [''u1'']" "map fst (sq_pending (hb_queue (bg_hub busy_bridge))) = [''u2'']"
  "map fst (hb_replies (bg_hub busy_bridge)) = [1]" "session_alive ''u2'' busy_bridge" "map_of (bg_pending busy_bridge) ''u1'' = Some \<lparr>be_taskId = ''t'', be_onRunComplete = True\<rparr>"
  "bg_outcomes busy_bridge = []"
  by code_simp+

theorem bridge_exactly_once_witness:
  "map sp_id (hb_issued (bg_hub busy_bridge)) = [''u1'', ''u2''] \<and> hb_listeners (bg_hub busy_bridge) = [] \<and>
   distinct (map fst (hb_replies (bg_hub busy_bridge)))"
proof -
  have p: "map sp_id (map snd (sq_pending (hb_queue (bg_hub busy_bridge)))) = [''u2'']" by code_simp
  have "sq_pending (hb_queue (bg_hub busy_bridge)) \<noteq> []" using busy_facts(2) by auto
  note b = bridge_exactly_once [OF busy_reached]
  have "map sp_id (hb_issued (bg_hub busy_bridge)) = map sp_id (sent (bg_hub busy_bridge) @ map snd (sq_pending (hb_queue (bg_hub busy_bridge))))"
    using b by simp
  also have "\<dots> = [''u1'', ''u2'']" unfolding map_append p busy_facts(1) by simp
  finally show ?thesis using b \<open>sq_pending _ \<noteq> []\<close> by blast
qed

definition sample_outcome :: run_outcome where
  "sample_outcome = \<lparr>ro_sessionId = ''s'', ro_success = True, ro_aborted = False, ro_error = None, ro_durationMs = 5\<rparr>"

theorem outcome_reported_once_witness:
  "bg_outcomes (deliverResult ''u1'' sample_outcome busy_bridge) = [(''u1'', ''t'', sample_outcome)] \<and>
   \<not> session_alive ''u1'' (deliverResult ''u1'' sample_outcome busy_bridge)"
proof -
  from outcome_reported_once [OF busy_reached]
  have "bg_outcomes (deliverResult ''u1'' sample_outcome busy_bridge) = bg_outcomes busy_bridge @ [(''u1'', ''t'', sample_outcome)] \<and>
    \<not> session_alive ''u1'' (deliverResult ''u1'' sample_outcome busy_bridge)"
    using busy_facts(5) by fastforce
  then show ?thesis by (simp add: busy_facts(6))
qed

theorem forced_request_still_sent_witness:
  "\<exists>r. sp_id r = ''u2'' \<and> (2, Sent r) \<in> set (hb_replies (bg_hub (handleSpawnWait ''GET'' 0 2 (forceCompleteSession ''u2'' busy_bridge))))"
proof -
  obtain r where "sq_pending (hb_queue (bg_hub busy_bridge)) = [(''u2'', r)]" "sp_id r = ''u2''"
    using busy_facts(2) bridge_reach_ok [OF busy_reached] by (auto simp: bridge_ok_def hub_ok_def sq_ok_def keyed_def)
  with forced_request_still_sent [OF busy_reached this(1) busy_facts(4) refl refl, of 2 0] show ?thesis by blast
qed

definition sample_message :: "string \<Rightarrow> chat_request" where
  "sample_message i = \<lparr>cd_id = i, cd_subscriptionId = ''s'', cd_taskId = ''t'', cd_toStatus = ''done'', cd_message = ''m'', cd_delivery = []\<rparr>"

definition busy_chats :: "(chat_queue, chat_request) hub" where
  "busy_chats = hub_enqueue (chat_ops None) (sample_message ''m1'') idle_chats"

theorem chat_promises_witness:
  "''m1'' \<in> fst ` set (cq_settled (cq_timeout ''m1'' (hb_queue busy_chats))) \<and> hb_listeners busy_chats = []"
proof -
  have "chat_step idle_chats busy_chats"
    unfolding busy_chats_def by (rule chat_step.enqueue) (simp add: new_id_def idle_chats_def idle_hub_def)
  then have "chat_step\<^sup>*\<^sup>* idle_chats busy_chats" by (rule r_into_rtranclp)
  note c = chat_promises [OF this]
  have "map_of (cq_waiters (hb_queue busy_chats)) ''m1'' = Some 60000" "cq_pending (hb_queue busy_chats) \<noteq> []" by code_simp+
  then show ?thesis using c by fastforce
qed

end
