(* ===== verification/OrgChart.thy ===== *)
theory OrgChart
  imports TaskDispatcher
begin

section \<open>The org chart (schemas/org-chart.ts) and its linter (org/linter.ts, linter-helpers.ts)\<close>

text \<open>
  The chart names who works for whom; the linter checks what the schema cannot: references, hierarchies and policies.
  It is a sequence of checks, each a list of issues, in the order of the source. Fields of the schema that no code
  here reads are left out. A record of the source with string keys is an association list.
\<close>

subsection \<open>The chart\<close>

record context_policy =
  cp_target :: int
  cp_warn :: int
  cp_critical :: int

record org_policies =
  op_memoryTiers :: "string list option"
  op_context :: "context_policy option"

record org_agent =
  oa_id :: string
  oa_openclawAgentId :: "string option"
  oa_team :: "string option"
  oa_reportsTo :: "string option"
  oa_policies :: "org_policies option"
  oa_active :: bool

record org_unit =
  ou_id :: string
  ou_parentId :: "string option"
  ou_leadId :: "string option"

record org_group =
  og_id :: string
  og_memberIds :: "string list"

record org_membership =
  om_agentId :: string
  om_orgUnitId :: string

datatype relationship_type = EscalatesTo | DelegatesTo | ConsultsWith | ReportsTo

record org_relationship =
  or_fromAgentId :: string
  or_toAgentId :: string
  or_type :: relationship_type
  or_active :: bool

record routing_rule =
  rr_targetTeam :: "string option"
  rr_targetAgent :: "string option"

record memory_pool =
  mp_id :: string
  mp_path :: string
  mp_roles :: "string list"

record memory_pools =
  pools_hotPath :: string
  pools_hotAgents :: "string list option"
  pools_warm :: "memory_pool list"
  pools_cold :: "string list"

record org_chart =
  oc_orgUnits :: "org_unit list"
  oc_groups :: "org_group list"
  oc_memberships :: "org_membership list"
  oc_relationships :: "org_relationship list"
  oc_defaults :: "org_policies option"
  oc_memoryPools :: "memory_pools option"
  oc_roles :: "(string \<times> string list) list"
  oc_teams :: "org_team list"
  oc_agents :: "org_agent list"
  oc_routing :: "routing_rule list"

subsection \<open>Issues\<close>

datatype severity = SevError | SevWarning

record lint_report =
  lr_severity :: severity
  lr_rule :: string
  lr_message :: string
  lr_path :: string

definition lint_error :: "string \<Rightarrow> string \<Rightarrow> string \<Rightarrow> lint_report" where
  "lint_error rule message path = \<lparr>lr_severity = SevError, lr_rule = rule, lr_message = message, lr_path = path\<rparr>"

definition lint_warning :: "string \<Rightarrow> string \<Rightarrow> string \<Rightarrow> lint_report" where
  "lint_warning rule message path = \<lparr>lr_severity = SevWarning, lr_rule = rule, lr_message = message, lr_path = path\<rparr>"

definition each :: "('a \<Rightarrow> lint_report list) \<Rightarrow> 'a list \<Rightarrow> lint_report list" where
  "each f xs = concat (map f xs)"

definition each_indexed :: "(nat \<Rightarrow> 'a \<Rightarrow> lint_report list) \<Rightarrow> 'a list \<Rightarrow> lint_report list" where
  "each_indexed f xs = concat (map (\<lambda>(i, x). f i x) (enumerate 0 xs))"

text \<open>A reference to something that is not there; an empty string counts as no reference.\<close>

definition dangling :: "string option \<Rightarrow> string list \<Rightarrow> bool" where
  "dangling x ids \<longleftrightarrow> truthy_str x \<and> the x \<notin> set ids"

definition quoted :: "string \<Rightarrow> string" where
  "quoted s = [CHR 0x27] @ s @ [CHR 0x27]"

text \<open>The loops over \<open>seen\<close> sets report every later occurrence.\<close>

fun duplicates :: "string list \<Rightarrow> string list \<Rightarrow> string list" where
  "duplicates seen [] = []"
| "duplicates seen (i # rest) = (if i \<in> set seen then [i] else []) @ duplicates (i # seen) rest"

definition unique_ids :: "string \<Rightarrow> string \<Rightarrow> string \<Rightarrow> string list \<Rightarrow> lint_report list" where
  "unique_ids rule what place ids = map (\<lambda>i. lint_error rule (''Duplicate '' @ what @ '' ID: '' @ quoted i) (place @ ''.'' @ i)) (duplicates [] ids)"

definition agent_ids :: "org_chart \<Rightarrow> string list" where
  "agent_ids c = map oa_id (oc_agents c)"

definition team_ids :: "org_chart \<Rightarrow> string list" where
  "team_ids c = map ot_id (oc_teams c)"

definition unit_ids :: "org_chart \<Rightarrow> string list" where
  "unit_ids c = map ou_id (oc_orgUnits c)"

subsection \<open>References\<close>

definition check_reports_to :: "org_chart \<Rightarrow> lint_report list" where
  "check_reports_to c = each (\<lambda>a. if dangling (oa_reportsTo a) (agent_ids c)
     then [lint_error ''valid-reports-to'' (''Agent '' @ quoted (oa_id a) @ '' reportsTo '' @ quoted (the (oa_reportsTo a)) @ '' which does not exist'')
             (''agents.'' @ oa_id a @ ''.reportsTo'')] else []) (oc_agents c)"

definition check_team_leads :: "org_chart \<Rightarrow> lint_report list" where
  "check_team_leads c = each (\<lambda>t. if dangling (ot_lead t) (agent_ids c)
     then [lint_error ''valid-team-lead'' (''Team '' @ quoted (ot_id t) @ '' lead '' @ quoted (the (ot_lead t)) @ '' does not exist as an agent'')
             (''teams.'' @ ot_id t @ ''.lead'')] else []) (oc_teams c)"

definition check_agent_teams :: "org_chart \<Rightarrow> lint_report list" where
  "check_agent_teams c = each (\<lambda>a. if dangling (oa_team a) (team_ids c)
     then [lint_error ''valid-agent-team'' (''Agent '' @ quoted (oa_id a) @ '' belongs to team '' @ quoted (the (oa_team a)) @ '' which does not exist'')
             (''agents.'' @ oa_id a @ ''.team'')] else []) (oc_agents c)"

definition check_orphans :: "org_chart \<Rightarrow> lint_report list" where
  "check_orphans c =
     (let agentsWithoutTeams = filter (\<lambda>a. \<not> truthy_str (oa_team a) \<and> \<not> truthy_str (oa_reportsTo a)) (oc_agents c) in
      if length agentsWithoutTeams > 1 then
        map (\<lambda>a. lint_warning ''orphaned-agent'' (''Agent '' @ quoted (oa_id a) @ '' has no team and no reportsTo (orphaned)'') (''agents.'' @ oa_id a))
          agentsWithoutTeams
      else [])"

definition routing_at :: "nat \<Rightarrow> string \<Rightarrow> string" where
  "routing_at i field = ''routing['' @ string_of_nat i @ ''].'' @ field"

definition check_routing :: "org_chart \<Rightarrow> lint_report list" where
  "check_routing c = each_indexed (\<lambda>i rule.
     (if dangling (rr_targetAgent rule) (agent_ids c)
      then [lint_error ''valid-routing-target'' (''Routing rule '' @ string_of_nat i @ '' targets agent '' @ quoted (the (rr_targetAgent rule)) @ '' which does not exist'')
              (routing_at i ''targetAgent'')] else []) @
     (if dangling (rr_targetTeam rule) (team_ids c)
      then [lint_error ''valid-routing-target'' (''Routing rule '' @ string_of_nat i @ '' targets team '' @ quoted (the (rr_targetTeam rule)) @ '' which does not exist'')
              (routing_at i ''targetTeam'')] else [])) (oc_routing c)"

definition check_roles :: "org_chart \<Rightarrow> lint_report list" where
  "check_roles c = each (\<lambda>(roleName, agents). each (\<lambda>agentId. if agentId \<notin> set (agent_ids c)
     then [lint_error ''valid-role-agent'' (''Role '' @ quoted roleName @ '' references missing agent '' @ quoted agentId) (''roles.'' @ roleName @ ''.agents'')]
     else []) agents) (oc_roles c)"

subsection \<open>Chains\<close>

text \<open>The walk along a chain of references, with the ids visited: whether it comes back to one. \<open>map_of\<close> is the first
  entry of an id, as \<open>find\<close> is.\<close>

function chain_loops :: "(string \<times> string option) list \<Rightarrow> string list \<Rightarrow> string option \<Rightarrow> bool" where
  "chain_loops links visited None = False"
| "chain_loops links visited (Some current) =
     (if current = [] then False else if current \<in> set visited then True
      else chain_loops links (current # visited) (case map_of links current of None \<Rightarrow> None | Some r \<Rightarrow> r))"
  by pat_completeness auto
termination
proof (relation "measure (\<lambda>(links, visited, cur). card (fst ` set links - set visited) + (if cur = None then 0 else 1))")
  fix links :: "(string \<times> string option) list" and visited :: "string list" and current :: string
  assume new: "current \<notin> set visited"
  let ?ids = "fst ` set links"
  have fin: "finite (?ids - set visited)" by simp
  show "((links, current # visited, case map_of links current of None \<Rightarrow> None | Some r \<Rightarrow> r), links, visited, Some current)
    \<in> measure (\<lambda>(links, visited, cur). card (fst ` set links - set visited) + (if cur = None then 0 else 1))"
  proof (cases "current \<in> ?ids")
    case True
    then have "card (?ids - set (current # visited)) < card (?ids - set visited)"
      using new by (intro psubset_card_mono [OF fin]) auto
    then show ?thesis by auto
  next
    case False
    then have "map_of links current = None" by (simp add: map_of_eq_None_iff)
    moreover have "?ids - set (current # visited) = ?ids - set visited" using False by auto
    ultimately show ?thesis by simp
  qed
qed simp

definition reports_links :: "org_chart \<Rightarrow> (string \<times> string option) list" where
  "reports_links c = map (\<lambda>a. (oa_id a, oa_reportsTo a)) (oc_agents c)"

definition check_circular_reports :: "org_chart \<Rightarrow> lint_report list" where
  "check_circular_reports c = each (\<lambda>a. if truthy_str (oa_reportsTo a) \<and> chain_loops (reports_links c) [] (Some (oa_id a))
     then [lint_error ''no-circular-reports'' (''Circular reporting chain detected starting from agent '' @ quoted (oa_id a))
             (''agents.'' @ oa_id a @ ''.reportsTo'')] else []) (oc_agents c)"

definition check_inactive_targets :: "org_chart \<Rightarrow> lint_report list" where
  "check_inactive_targets c =
     (let inactiveAgents = map oa_id (filter (\<lambda>a. \<not> oa_active a) (oc_agents c)) in
      each_indexed (\<lambda>i rule. if truthy_str (rr_targetAgent rule) \<and> the (rr_targetAgent rule) \<in> set inactiveAgents
        then [lint_warning ''inactive-routing-target'' (''Routing rule '' @ string_of_nat i @ '' targets inactive agent '' @ quoted (the (rr_targetAgent rule)))
                (routing_at i ''targetAgent'')] else []) (oc_routing c))"

definition check_self_reports :: "org_chart \<Rightarrow> lint_report list" where
  "check_self_reports c = each (\<lambda>a. if oa_reportsTo a = Some (oa_id a)
     then [lint_error ''no-self-report'' (''Agent '' @ quoted (oa_id a) @ '' reports to itself'') (''agents.'' @ oa_id a @ ''.reportsTo'')] else [])
     (oc_agents c)"

subsection \<open>Units, groups and memberships\<close>

definition check_single_root :: "org_chart \<Rightarrow> lint_report list" where
  "check_single_root c =
     (let rootUnits = filter (\<lambda>u. \<not> truthy_str (ou_parentId u)) (oc_orgUnits c) in
      if length rootUnits > 1
      then [lint_error ''single-root'' (''Org chart has '' @ string_of_nat (length rootUnits) @ '' root units, expected 1. Roots: '' @
              join_with '', '' (map ou_id rootUnits)) ''orgUnits'']
      else [])"

definition check_parents :: "org_chart \<Rightarrow> lint_report list" where
  "check_parents c = each (\<lambda>u. if dangling (ou_parentId u) (unit_ids c)
     then [lint_error ''valid-parent-id'' (''Org unit '' @ quoted (ou_id u) @ '' has parentId '' @ quoted (the (ou_parentId u)) @ '' which does not exist'')
             (''orgUnits.'' @ ou_id u @ ''.parentId'')] else []) (oc_orgUnits c)"

definition check_memberships :: "org_chart \<Rightarrow> lint_report list" where
  "check_memberships c = each_indexed (\<lambda>i m.
     (if om_agentId m \<notin> set (agent_ids c)
      then [lint_error ''valid-membership-agent'' (''Membership '' @ string_of_nat i @ '' references non-existent agent '' @ quoted (om_agentId m))
              (''memberships['' @ string_of_nat i @ ''].agentId'')] else []) @
     (if om_orgUnitId m \<notin> set (unit_ids c)
      then [lint_error ''valid-membership-unit'' (''Membership '' @ string_of_nat i @ '' references non-existent org unit '' @ quoted (om_orgUnitId m))
              (''memberships['' @ string_of_nat i @ ''].orgUnitId'')] else [])) (oc_memberships c)"

definition check_group_members :: "org_chart \<Rightarrow> lint_report list" where
  "check_group_members c = each (\<lambda>g. each (\<lambda>memberId. if memberId \<notin> set (agent_ids c)
     then [lint_error ''valid-group-members'' (''Group '' @ quoted (og_id g) @ '' contains non-existent member '' @ quoted memberId)
             (''groups.'' @ og_id g @ ''.memberIds'')] else []) (og_memberIds g)) (oc_groups c)"

definition check_openclaw_ids :: "org_chart \<Rightarrow> lint_report list" where
  "check_openclaw_ids c = each (\<lambda>a. if \<not> truthy_str (oa_openclawAgentId a) \<and> oa_active a
     then [lint_warning ''missing-openclaw-agent-id'' (''Active agent '' @ quoted (oa_id a) @ '' is missing openclawAgentId (needed for drift detection)'')
             (''agents.'' @ oa_id a @ ''.openclawAgentId'')] else []) (oc_agents c)"

subsection \<open>Relationships\<close>

definition check_relationships :: "org_chart \<Rightarrow> lint_report list" where
  "check_relationships c = each_indexed (\<lambda>i rel.
     (if or_fromAgentId rel \<notin> set (agent_ids c)
      then [lint_error ''valid-relationship-from'' (''Relationship '' @ string_of_nat i @ '' has invalid fromAgentId '' @ quoted (or_fromAgentId rel))
              (''relationships['' @ string_of_nat i @ ''].fromAgentId'')] else []) @
     (if or_toAgentId rel \<notin> set (agent_ids c)
      then [lint_error ''valid-relationship-to'' (''Relationship '' @ string_of_nat i @ '' has invalid toAgentId '' @ quoted (or_toAgentId rel))
              (''relationships['' @ string_of_nat i @ ''].toAgentId'')] else [])) (oc_relationships c)"

definition check_self_escalation :: "org_chart \<Rightarrow> lint_report list" where
  "check_self_escalation c = each (\<lambda>rel. if or_type rel = EscalatesTo \<and> or_fromAgentId rel = or_toAgentId rel
     then [lint_error ''no-self-escalation'' (''Agent '' @ quoted (or_fromAgentId rel) @ '' escalates to itself'') ''relationships''] else [])
     (oc_relationships c)"

text \<open>A later relationship of the same agent replaces the earlier one in the map.\<close>

definition escalation_map :: "org_chart \<Rightarrow> (string \<times> string option) list" where
  "escalation_map c = fold (\<lambda>rel m. if or_type rel = EscalatesTo \<and> or_active rel
     then AList.update (or_fromAgentId rel) (Some (or_toAgentId rel)) m else m) (oc_relationships c) []"

definition check_circular_escalation :: "org_chart \<Rightarrow> lint_report list" where
  "check_circular_escalation c = each (\<lambda>(startAgent, next). if chain_loops (escalation_map c) [] (Some startAgent)
     then [lint_error ''no-circular-escalation'' (''Circular escalation chain detected starting from agent '' @ quoted startAgent) ''relationships''] else [])
     (escalation_map c)"

subsection \<open>Policies\<close>

definition checkMemoryTiers :: "string list option \<Rightarrow> string \<Rightarrow> lint_report list" where
  "checkMemoryTiers tiers path = (case tiers of
     None \<Rightarrow> []
   | Some ts \<Rightarrow> if ''cold'' \<in> set ts \<and> (''warm'' \<in> set ts \<or> ''hot'' \<in> set ts)
       then [lint_error ''no-cold-in-warm'' ''Memory policy cannot mix cold tier with warm/hot tiers'' path] else [])"

definition checkContextBudgetPolicy :: "context_policy option \<Rightarrow> string \<Rightarrow> lint_report list" where
  "checkContextBudgetPolicy policy path = (case policy of
     None \<Rightarrow> []
   | Some p \<Rightarrow>
       (if cp_target p > cp_warn p
        then [lint_error ''valid-context-budget-thresholds'' (''Context budget policy target ('' @ string_of_int (cp_target p) @ '') must be <= warn ('' @ string_of_int (cp_warn p) @ '')'') path]
        else []) @
       (if cp_warn p > cp_critical p
        then [lint_error ''valid-context-budget-thresholds'' (''Context budget policy warn ('' @ string_of_int (cp_warn p) @ '') must be <= critical ('' @ string_of_int (cp_critical p) @ '')'') path]
        else []))"

definition check_policies :: "string \<Rightarrow> org_policies option \<Rightarrow> lint_report list" where
  "check_policies place policies = (case policies of
     None \<Rightarrow> []
   | Some p \<Rightarrow> checkMemoryTiers (op_memoryTiers p) (place @ ''.policies.memory.tiers'') @ checkContextBudgetPolicy (op_context p) (place @ ''.policies.context''))"

definition check_agent_policies :: "org_chart \<Rightarrow> lint_report list" where
  "check_agent_policies c = each (\<lambda>a. check_policies (''agents.'' @ oa_id a) (oa_policies a)) (oc_agents c)"

subsection \<open>Memory pools\<close>

text \<open>A path is registered for the first pool that has it; an empty pool id does not count as registered.\<close>

definition registerPath :: "(string \<times> string) list \<Rightarrow> string \<Rightarrow> string \<Rightarrow> string \<Rightarrow> lint_report list \<times> (string \<times> string) list" where
  "registerPath seen path poolId lintPath =
     (if truthy_str (map_of seen path)
      then ([lint_error ''unique-memory-pool-path'' (''Memory pool path '' @ quoted path @ '' is used by both '' @ quoted (the (map_of seen path)) @
               '' and '' @ quoted poolId) lintPath], seen)
      else ([], AList.update path poolId seen))"

definition warm_at :: "memory_pool \<Rightarrow> string \<Rightarrow> string" where
  "warm_at pool field = ''memoryPools.warm.'' @ mp_id pool @ ''.'' @ field"

fun check_warm :: "string list \<Rightarrow> (string \<times> string) list \<Rightarrow> memory_pool list \<Rightarrow> lint_report list" where
  "check_warm warmIds seen [] = []"
| "check_warm warmIds seen (pool # rest) =
     (let (issues, seen') = registerPath seen (mp_path pool) (mp_id pool) (warm_at pool ''path'') in
      (if mp_id pool \<in> set warmIds
       then [lint_error ''unique-memory-pool-id'' (''Duplicate memory pool id '' @ quoted (mp_id pool)) (warm_at pool ''id'')] else []) @
      issues @ check_warm (mp_id pool # warmIds) seen' rest)"

definition check_pool_paths :: "memory_pools \<Rightarrow> lint_report list" where
  "check_pool_paths p =
     (let (issues, seen) = registerPath [] (pools_hotPath p) ''hot'' ''memoryPools.hot.path'' in issues @ check_warm [] seen (pools_warm p))"

definition pool_paths :: "memory_pools \<Rightarrow> (string \<times> string \<times> string) list" where
  "pool_paths p = (pools_hotPath p, ''hot'', ''memoryPools.hot.path'') # map (\<lambda>pool. (mp_path pool, mp_id pool, warm_at pool ''path'')) (pools_warm p)"

definition check_cold_paths :: "memory_pools \<Rightarrow> lint_report list" where
  "check_cold_paths p = each (\<lambda>cold. each (\<lambda>(path, poolId, lintPath). if str_includes cold path
     then [lint_error ''no-cold-paths-in-pools'' (''Memory pool '' @ quoted poolId @ '' path '' @ quoted path @ '' contains cold substring '' @ quoted cold) lintPath]
     else []) (pool_paths p)) (pools_cold p)"

definition check_pool_roles :: "org_chart \<Rightarrow> string \<Rightarrow> string \<Rightarrow> string list \<Rightarrow> lint_report list" where
  "check_pool_roles c poolId path roles = each (\<lambda>role. if role = ''all'' \<or> str_includes ''*'' role \<or> role \<in> set (agent_ids c) then []
     else [lint_error ''valid-memory-pool-role'' (''Memory pool '' @ quoted poolId @ '' references unknown role '' @ quoted role) path]) roles"

definition check_memory_pools :: "org_chart \<Rightarrow> lint_report list" where
  "check_memory_pools c = (case oc_memoryPools c of
     None \<Rightarrow> []
   | Some p \<Rightarrow> check_pool_paths p @ check_cold_paths p @
       each (\<lambda>pool. check_pool_roles c (mp_id pool) (warm_at pool ''roles'') (mp_roles pool)) (pools_warm p) @
       (case pools_hotAgents p of None \<Rightarrow> [] | Some agents \<Rightarrow> check_pool_roles c ''hot'' ''memoryPools.hot.agents'' agents))"

subsection \<open>The linter\<close>

definition lintOrgChart :: "org_chart \<Rightarrow> lint_report list" where
  "lintOrgChart c = concat
     [check_reports_to c, check_team_leads c, check_agent_teams c, check_orphans c, check_routing c, check_roles c, check_circular_reports c,
      unique_ids ''unique-agent-id'' ''agent'' ''agents'' (agent_ids c), check_inactive_targets c, check_self_reports c,
      check_single_root c, check_parents c, unique_ids ''unique-org-unit-id'' ''org unit'' ''orgUnits'' (unit_ids c),
      unique_ids ''unique-group-id'' ''group'' ''groups'' (map og_id (oc_groups c)), check_memberships c, check_group_members c,
      check_openclaw_ids c, check_relationships c, check_self_escalation c, check_circular_escalation c, check_agent_policies c,
      check_policies ''defaults'' (oc_defaults c), check_memory_pools c]"

end
