(* ===== verification/OrgChartProps.thy ===== *)
theory OrgChartProps
  imports OrgChart
begin

section \<open>What the linter of the org chart accepts\<close>

text \<open>
  The walks along chains end and find a cycle exactly when one can be reached, so a chart without errors is
  described by its content alone. What it does not find: cycles of org units, and cycles of escalations of which
  one link was declared before another one of the same agent.
\<close>

subsection \<open>Chains\<close>

definition chain_edges :: "(string \<times> string option) list \<Rightarrow> (string \<times> string) set" where
  "chain_edges links = {(a, b). map_of links a = Some (Some b) \<and> a \<noteq> [] \<and> b \<noteq> []}"

lemma chain_edge: "(a, b) \<in> chain_edges links \<longleftrightarrow> map_of links a = Some (Some b) \<and> a \<noteq> [] \<and> b \<noteq> []"
  by (simp add: chain_edges_def)

lemma chain_end:
  assumes "\<And>b. (a, b) \<notin> E" "(a, x) \<in> E\<^sup>*" "(x, x) \<in> E\<^sup>+"
  shows False
  using assms by (metis converse_rtranclE tranclD)

lemma chain_next:
  assumes E: "(a, b) \<in> E" "\<And>c. (a, c) \<in> E \<Longrightarrow> c = b"
  shows "(\<exists>x. (a, x) \<in> E\<^sup>* \<and> (x, x) \<in> E\<^sup>+) \<longleftrightarrow> (\<exists>x. (b, x) \<in> E\<^sup>* \<and> (x, x) \<in> E\<^sup>+)"
proof
  assume "\<exists>x. (a, x) \<in> E\<^sup>* \<and> (x, x) \<in> E\<^sup>+"
  then obtain x where x: "(a, x) \<in> E\<^sup>*" "(x, x) \<in> E\<^sup>+" by blast
  have "(b, x) \<in> E\<^sup>*"
  proof (cases "a = x")
    case True
    then show ?thesis using x(2) E(2) by (metis tranclD)
  next
    case False
    then show ?thesis using x(1) E(2) by (metis converse_rtranclE)
  qed
  then show "\<exists>x. (b, x) \<in> E\<^sup>* \<and> (x, x) \<in> E\<^sup>+" using x(2) by blast
qed (use E(1) in \<open>meson converse_rtrancl_into_rtrancl\<close>)

lemma chain_loops_exact:
  assumes "\<And>v. v \<in> set visited \<Longrightarrow> (v, c) \<in> (chain_edges links)\<^sup>+"
  shows "chain_loops links visited (Some c) \<longleftrightarrow> (\<exists>x. (c, x) \<in> (chain_edges links)\<^sup>* \<and> (x, x) \<in> (chain_edges links)\<^sup>+)"
  using assms
proof (induction links visited "Some c" arbitrary: c rule: chain_loops.induct)
  case (2 links visited c)
  let ?E = "chain_edges links"
  let ?n = "case map_of links c of None \<Rightarrow> None | Some r \<Rightarrow> r"
  have fun_E: "d' = d" if "(c, d) \<in> ?E" "(c, d') \<in> ?E" for d d' using that by (simp add: chain_edge)
  consider (dead) "\<And>b. (c, b) \<notin> ?E" "c \<notin> set visited" "c = [] \<or> ?n = None \<or> ?n = Some []"
    | (seen) "c \<in> set visited" "c \<noteq> []"
    | (walk) b where "(c, b) \<in> ?E" "c \<notin> set visited" "c \<noteq> []" "?n = Some b"
  proof -
    have dead_seen: "c \<noteq> []" if "c \<in> set visited" using "2.prems" [OF that] by (auto dest: tranclD simp: chain_edge)
    show ?thesis
    proof (cases "\<exists>b. (c, b) \<in> ?E")
      case True
      then obtain b where "(c, b) \<in> ?E" by blast
      then show ?thesis using that(2) that(3) [of b] dead_seen by (cases "c \<in> set visited") (auto simp: chain_edge)
    next
      case False
      have "c = [] \<or> ?n = None \<or> ?n = Some []"
      proof (cases "map_of links c")
        case (Some r)
        then show ?thesis using False by (cases r) (auto simp: chain_edge)
      qed simp
      then show ?thesis using that(1,2) False dead_seen by blast
    qed
  qed
  then show ?case
  proof cases
    case dead
    then have "\<not> (\<exists>x. (c, x) \<in> ?E\<^sup>* \<and> (x, x) \<in> ?E\<^sup>+)" using chain_end by metis
    moreover have "\<not> chain_loops links visited (Some c)" using dead(2,3) by auto
    ultimately show ?thesis by blast
  next
    case seen
    then have "chain_loops links visited (Some c)" "(c, c) \<in> ?E\<^sup>+" using "2.prems" by simp_all
    then show ?thesis by blast
  next
    case walk
    have step: "(v, b) \<in> ?E\<^sup>+" if "v \<in> set (c # visited)" for v
      using that "2.prems" walk(1) by (auto intro: trancl_into_trancl)
    have "chain_loops links visited (Some c) = chain_loops links (c # visited) (Some b)" using walk(2-4) by simp
    also have "\<dots> \<longleftrightarrow> (\<exists>x. (b, x) \<in> ?E\<^sup>* \<and> (x, x) \<in> ?E\<^sup>+)"
      using "2.hyps" [OF walk(3,2) walk(4)] step by blast
    also have "\<dots> \<longleftrightarrow> (\<exists>x. (c, x) \<in> ?E\<^sup>* \<and> (x, x) \<in> ?E\<^sup>+)"
      by (rule chain_next [symmetric]) (use walk(1) fun_E in blast)+
    finally show ?thesis .
  qed
qed

lemma no_loops_acyclic:
  assumes "\<And>a b. (a, b) \<in> chain_edges links \<Longrightarrow> a \<in> set starts" "set starts \<subseteq> fst ` set links"
  shows "(\<forall>a \<in> set starts. \<not> chain_loops links [] (Some a)) \<longleftrightarrow> acyclic (chain_edges links)"
proof
  assume walk: "\<forall>a \<in> set starts. \<not> chain_loops links [] (Some a)"
  show "acyclic (chain_edges links)"
    unfolding acyclic_def
  proof (intro allI notI)
    fix x assume x: "(x, x) \<in> (chain_edges links)\<^sup>+"
    then have "x \<in> set starts" using assms(1) by (metis tranclD)
    then show False using walk x chain_loops_exact [of "[]" x links] by (auto simp del: chain_loops.simps)
  qed
next
  assume "acyclic (chain_edges links)"
  then show "\<forall>a \<in> set starts. \<not> chain_loops links [] (Some a)"
    using chain_loops_exact [of "[]" _ links] unfolding acyclic_def by (simp del: chain_loops.simps)
qed

subsection \<open>A chart without errors\<close>

definition errors :: "lint_report list \<Rightarrow> lint_report list" where
  "errors = filter (\<lambda>r. lr_severity r = SevError)"

lemma errors_simps [simp]:
  "errors [] = []" "errors (xs @ ys) = errors xs @ errors ys" "errors (lint_error rule m p # xs) = lint_error rule m p # errors xs"
  "errors (lint_warning rule m p # xs) = errors xs" "errors (if b then xs else ys) = (if b then errors xs else errors ys)"
  by (simp_all add: errors_def lint_error_def lint_warning_def)

lemma errors_each [simp]: "errors (each f xs) = [] \<longleftrightarrow> (\<forall>x \<in> set xs. errors (f x) = [])"
  by (auto simp: each_def errors_def filter_empty_conv)

lemma errors_each_indexed [simp]: "errors (each_indexed f xs) = [] \<longleftrightarrow> (\<forall>i < length xs. errors (f i (xs ! i)) = [])"
proof -
  have "errors (each_indexed f xs) = [] \<longleftrightarrow> (\<forall>(i, x) \<in> set (enumerate 0 xs). errors (f i x) = [])"
    by (auto simp: each_indexed_def errors_def filter_empty_conv)
  also have "\<dots> \<longleftrightarrow> (\<forall>i < length xs. errors (f i (xs ! i)) = [])" by (auto simp: in_set_enumerate_eq)
  finally show ?thesis .
qed

lemma errors_concat: "errors (concat xss) = [] \<longleftrightarrow> (\<forall>xs \<in> set xss. errors xs = [])"
  by (auto simp: errors_def filter_empty_conv)

lemma all_indexed: "(\<forall>i < length xs. P (xs ! i)) \<longleftrightarrow> (\<forall>x \<in> set xs. P x)"
  by (simp add: all_set_conv_all_nth)

lemma no_duplicates: "duplicates seen ids = [] \<longleftrightarrow> distinct ids \<and> set ids \<inter> set seen = {}"
  by (induction ids arbitrary: seen) auto

lemma errors_unique [simp]: "errors (unique_ids rule what place ids) = [] \<longleftrightarrow> distinct ids"
  using no_duplicates [of "[]" ids] by (auto simp: unique_ids_def errors_def lint_error_def filter_empty_conv)

definition resolved :: "string option \<Rightarrow> string list \<Rightarrow> bool" where
  "resolved x ids \<longleftrightarrow> (\<forall>i. x = Some i \<and> i \<noteq> [] \<longrightarrow> i \<in> set ids)"

lemma not_dangling: "\<not> dangling x ids \<longleftrightarrow> resolved x ids"
  by (cases x) (auto simp: dangling_def resolved_def truthy_str_def)

definition policies_ok :: "org_policies option \<Rightarrow> bool" where
  "policies_ok policies \<longleftrightarrow> (\<forall>p. policies = Some p \<longrightarrow>
     (\<forall>ts. op_memoryTiers p = Some ts \<and> ''cold'' \<in> set ts \<longrightarrow> ''warm'' \<notin> set ts \<and> ''hot'' \<notin> set ts) \<and>
     (\<forall>b. op_context p = Some b \<longrightarrow> cp_target b \<le> cp_warn b \<and> cp_warn b \<le> cp_critical b))"

lemma errors_policies [simp]: "errors (check_policies place policies) = [] \<longleftrightarrow> policies_ok policies"
  by (auto simp: check_policies_def checkMemoryTiers_def checkContextBudgetPolicy_def policies_ok_def split: option.splits if_splits)

definition pools_ok :: "org_chart \<Rightarrow> memory_pools \<Rightarrow> bool" where
  "pools_ok c p \<longleftrightarrow> distinct (map mp_id (pools_warm p)) \<and> distinct (pools_hotPath p # map mp_path (pools_warm p)) \<and>
     (\<forall>cold \<in> set (pools_cold p). \<forall>path \<in> set (pools_hotPath p # map mp_path (pools_warm p)). \<not> str_includes cold path) \<and>
     (\<forall>role \<in> \<Union> (set ` set (or_else (pools_hotAgents p) [] # map mp_roles (pools_warm p))).
        role = ''all'' \<or> str_includes ''*'' role \<or> role \<in> set (agent_ids c))"

lemma check_warm_ok:
  assumes "\<forall>pool \<in> set pools. mp_id pool \<noteq> []" "\<forall>i \<in> ran (map_of seen). i \<noteq> []"
  shows "errors (check_warm warmIds seen pools) = [] \<longleftrightarrow>
    distinct (map mp_id pools) \<and> set (map mp_id pools) \<inter> set warmIds = {} \<and>
    distinct (map mp_path pools) \<and> set (map mp_path pools) \<inter> fst ` set seen = {}"
  using assms
proof (induction pools arbitrary: warmIds seen)
  case (Cons pool pools)
  have mem: "truthy_str (map_of seen (mp_path pool)) \<longleftrightarrow> mp_path pool \<in> fst ` set seen"
  proof (cases "map_of seen (mp_path pool)")
    case None
    then have "mp_path pool \<notin> fst ` set seen" by (rule map_of_eq_None_iff [THEN iffD1])
    then show ?thesis using None by (simp add: truthy_str_def)
  next
    case (Some i)
    then have "i \<noteq> []" "mp_path pool \<in> fst ` set seen" using Cons.prems(2) by (auto intro: ranI dest: map_of_SomeD simp: rev_image_eqI)
    then show ?thesis using Some by (simp add: truthy_str_def)
  qed
  show ?case
  proof (cases "mp_path pool \<in> fst ` set seen")
    case True
    then show ?thesis using mem by (auto simp: registerPath_def)
  next
    case False
    let ?seen = "AList.update (mp_path pool) (mp_id pool) seen"
    have "\<forall>i \<in> ran (map_of ?seen). i \<noteq> []" using Cons.prems by (auto simp: ran_def update_conv')
    moreover have "\<forall>pool \<in> set pools. mp_id pool \<noteq> []" using Cons.prems(1) by simp
    ultimately have IH: "errors (check_warm (mp_id pool # warmIds) ?seen pools) = [] \<longleftrightarrow>
        distinct (map mp_id pools) \<and> set (map mp_id pools) \<inter> set (mp_id pool # warmIds) = {} \<and>
        distinct (map mp_path pools) \<and> set (map mp_path pools) \<inter> fst ` set ?seen = {}"
      by (intro Cons.IH)
    have "errors (check_warm warmIds seen (pool # pools)) = [] \<longleftrightarrow>
        mp_id pool \<notin> set warmIds \<and> errors (check_warm (mp_id pool # warmIds) ?seen pools) = []"
      using False mem by (simp add: registerPath_def)
    then show ?thesis unfolding IH using False by (auto simp: dom_update)
  qed
qed simp

lemma errors_pools:
  assumes "\<forall>pool \<in> set (pools_warm p). mp_id pool \<noteq> []" "oc_memoryPools c = Some p"
  shows "errors (check_memory_pools c) = [] \<longleftrightarrow> pools_ok c p"
proof -
  have paths: "errors (check_pool_paths p) = [] \<longleftrightarrow> distinct (map mp_id (pools_warm p)) \<and> distinct (pools_hotPath p # map mp_path (pools_warm p))"
    using check_warm_ok [OF assms(1), of "[(pools_hotPath p, ''hot'')]" "[]"]
    by (auto simp: check_pool_paths_def registerPath_def truthy_str_def)
  have cold: "errors (check_cold_paths p) = [] \<longleftrightarrow>
      (\<forall>cold \<in> set (pools_cold p). \<forall>path \<in> set (pools_hotPath p # map mp_path (pools_warm p)). \<not> str_includes cold path)"
    by (auto simp: check_cold_paths_def pool_paths_def split: if_splits)
  have roles: "errors (check_pool_roles c poolId path roles) = [] \<longleftrightarrow>
      (\<forall>role \<in> set roles. role = ''all'' \<or> str_includes ''*'' role \<or> role \<in> set (agent_ids c))" for poolId path roles
    by (auto simp: check_pool_roles_def split: if_splits)
  have hot: "errors (case pools_hotAgents p of None \<Rightarrow> [] | Some agents \<Rightarrow> check_pool_roles c ''hot'' ''memoryPools.hot.agents'' agents) = [] \<longleftrightarrow>
      (\<forall>role \<in> set (or_else (pools_hotAgents p) []). role = ''all'' \<or> str_includes ''*'' role \<or> role \<in> set (agent_ids c))"
    by (cases "pools_hotAgents p") (simp_all add: roles or_else_def)
  show ?thesis
    unfolding check_memory_pools_def assms(2) pools_ok_def by (simp add: paths cold roles hot) blast
qed

definition chart_ok :: "org_chart \<Rightarrow> bool" where
  "chart_ok c \<longleftrightarrow>
     distinct (agent_ids c) \<and> distinct (unit_ids c) \<and> distinct (map og_id (oc_groups c)) \<and>
     (\<forall>a \<in> set (oc_agents c). resolved (oa_reportsTo a) (agent_ids c) \<and> resolved (oa_team a) (team_ids c) \<and> policies_ok (oa_policies a)) \<and>
     (\<forall>t \<in> set (oc_teams c). resolved (ot_lead t) (agent_ids c)) \<and>
     (\<forall>r \<in> set (oc_routing c). resolved (rr_targetAgent r) (agent_ids c) \<and> resolved (rr_targetTeam r) (team_ids c)) \<and>
     (\<forall>(role, agents) \<in> set (oc_roles c). set agents \<subseteq> set (agent_ids c)) \<and>
     (\<forall>a \<in> set (oc_agents c). oa_reportsTo a \<noteq> Some (oa_id a)) \<and> acyclic (chain_edges (reports_links c)) \<and>
     length (filter (\<lambda>u. \<not> truthy_str (ou_parentId u)) (oc_orgUnits c)) \<le> 1 \<and>
     (\<forall>u \<in> set (oc_orgUnits c). resolved (ou_parentId u) (unit_ids c)) \<and>
     (\<forall>m \<in> set (oc_memberships c). om_agentId m \<in> set (agent_ids c) \<and> om_orgUnitId m \<in> set (unit_ids c)) \<and>
     (\<forall>g \<in> set (oc_groups c). set (og_memberIds g) \<subseteq> set (agent_ids c)) \<and>
     (\<forall>r \<in> set (oc_relationships c). or_fromAgentId r \<in> set (agent_ids c) \<and> or_toAgentId r \<in> set (agent_ids c) \<and>
        \<not> (or_type r = EscalatesTo \<and> or_fromAgentId r = or_toAgentId r)) \<and>
     acyclic (chain_edges (escalation_map c)) \<and> policies_ok (oc_defaults c) \<and>
     (\<forall>p. oc_memoryPools c = Some p \<longrightarrow> pools_ok c p)"

lemma reports_acyclic:
  assumes "distinct (agent_ids c)"
  shows "errors (check_circular_reports c) = [] \<longleftrightarrow> acyclic (chain_edges (reports_links c))"
proof -
  let ?starts = "map oa_id (filter (\<lambda>a. truthy_str (oa_reportsTo a)) (oc_agents c))"
  have "errors (check_circular_reports c) = [] \<longleftrightarrow> (\<forall>i \<in> set ?starts. \<not> chain_loops (reports_links c) [] (Some i))"
    by (auto simp: check_circular_reports_def simp del: chain_loops.simps split: if_splits)
  also have "\<dots> \<longleftrightarrow> acyclic (chain_edges (reports_links c))"
  proof (rule no_loops_acyclic)
    fix a b assume "(a, b) \<in> chain_edges (reports_links c)"
    then have "(a, Some b) \<in> set (reports_links c)" "b \<noteq> []" by (auto simp: chain_edge dest: map_of_SomeD)
    then obtain ag where "ag \<in> set (oc_agents c)" "oa_id ag = a" "oa_reportsTo ag = Some b" "b \<noteq> []"
      by (auto simp: reports_links_def)
    then show "a \<in> set ?starts" by (auto simp: truthy_str_def)
  qed (auto simp: reports_links_def image_iff)
  finally show ?thesis .
qed

lemma escalation_acyclic: "errors (check_circular_escalation c) = [] \<longleftrightarrow> acyclic (chain_edges (escalation_map c))"
proof -
  have "errors (check_circular_escalation c) = [] \<longleftrightarrow> (\<forall>i \<in> set (map fst (escalation_map c)). \<not> chain_loops (escalation_map c) [] (Some i))"
    by (auto simp: check_circular_escalation_def simp del: chain_loops.simps split: if_splits)
  also have "\<dots> \<longleftrightarrow> acyclic (chain_edges (escalation_map c))"
  proof (rule no_loops_acyclic)
    fix a b assume "(a, b) \<in> chain_edges (escalation_map c)"
    then have "(a, Some b) \<in> set (escalation_map c)" by (auto simp: chain_edge dest: map_of_SomeD)
    then show "a \<in> set (map fst (escalation_map c))" by force
  qed simp
  finally show ?thesis .
qed

lemma errors_each_nth:
  assumes "\<And>i x. errors (f i x) = [] \<longleftrightarrow> P x"
  shows "errors (each_indexed f xs) = [] \<longleftrightarrow> (\<forall>x \<in> set xs. P x)"
  by (simp add: assms all_indexed)

lemma errors_warnings [simp]: "errors (map (\<lambda>a. lint_warning rule (m a) (p a)) xs) = []"
  by (induction xs) simp_all

lemma errors_references:
  "errors (check_reports_to c) = [] \<longleftrightarrow> (\<forall>a \<in> set (oc_agents c). resolved (oa_reportsTo a) (agent_ids c))"
  "errors (check_team_leads c) = [] \<longleftrightarrow> (\<forall>t \<in> set (oc_teams c). resolved (ot_lead t) (agent_ids c))"
  "errors (check_agent_teams c) = [] \<longleftrightarrow> (\<forall>a \<in> set (oc_agents c). resolved (oa_team a) (team_ids c))"
  "errors (check_roles c) = [] \<longleftrightarrow> (\<forall>(role, agents) \<in> set (oc_roles c). set agents \<subseteq> set (agent_ids c))"
  "errors (check_self_reports c) = [] \<longleftrightarrow> (\<forall>a \<in> set (oc_agents c). oa_reportsTo a \<noteq> Some (oa_id a))"
  "errors (check_parents c) = [] \<longleftrightarrow> (\<forall>u \<in> set (oc_orgUnits c). resolved (ou_parentId u) (unit_ids c))"
  by (auto simp: check_reports_to_def check_team_leads_def check_agent_teams_def check_roles_def check_self_reports_def
      check_parents_def not_dangling [symmetric] split: if_splits prod.splits)

lemma errors_indexed:
  "errors (check_routing c) = [] \<longleftrightarrow> (\<forall>r \<in> set (oc_routing c). resolved (rr_targetAgent r) (agent_ids c) \<and> resolved (rr_targetTeam r) (team_ids c))"
  "errors (check_memberships c) = [] \<longleftrightarrow> (\<forall>m \<in> set (oc_memberships c). om_agentId m \<in> set (agent_ids c) \<and> om_orgUnitId m \<in> set (unit_ids c))"
  "errors (check_relationships c) = [] \<longleftrightarrow> (\<forall>r \<in> set (oc_relationships c). or_fromAgentId r \<in> set (agent_ids c) \<and> or_toAgentId r \<in> set (agent_ids c))"
  unfolding check_routing_def check_memberships_def check_relationships_def
  subgoal by (rule errors_each_nth) (simp add: not_dangling [symmetric])
  subgoal by (rule errors_each_nth) simp
  subgoal by (rule errors_each_nth) simp
  done

lemma errors_structure:
  "errors (check_single_root c) = [] \<longleftrightarrow> length (filter (\<lambda>u. \<not> truthy_str (ou_parentId u)) (oc_orgUnits c)) \<le> 1"
  "errors (check_group_members c) = [] \<longleftrightarrow> (\<forall>g \<in> set (oc_groups c). set (og_memberIds g) \<subseteq> set (agent_ids c))"
  "errors (check_self_escalation c) = [] \<longleftrightarrow> (\<forall>r \<in> set (oc_relationships c). \<not> (or_type r = EscalatesTo \<and> or_fromAgentId r = or_toAgentId r))"
  "errors (check_agent_policies c) = [] \<longleftrightarrow> (\<forall>a \<in> set (oc_agents c). policies_ok (oa_policies a))"
  "errors (check_orphans c) = []" "errors (check_inactive_targets c) = []" "errors (check_openclaw_ids c) = []"
  by (auto simp: check_single_root_def check_group_members_def check_self_escalation_def
      check_agent_policies_def check_orphans_def check_inactive_targets_def check_openclaw_ids_def Let_def split: if_splits)


subsection \<open>What is not found\<close>

definition empty_chart :: org_chart where
  "empty_chart = \<lparr>oc_orgUnits = [], oc_groups = [], oc_memberships = [], oc_relationships = [], oc_defaults = None, oc_memoryPools = None,
     oc_roles = [], oc_teams = [], oc_agents = [], oc_routing = []\<rparr>"

definition plain_agent :: "string \<Rightarrow> org_agent" where
  "plain_agent i = \<lparr>oa_id = i, oa_openclawAgentId = Some i, oa_team = None, oa_reportsTo = None, oa_policies = None, oa_active = True\<rparr>"

definition plain_unit :: "string \<Rightarrow> string option \<Rightarrow> org_unit" where
  "plain_unit i parent = \<lparr>ou_id = i, ou_parentId = parent, ou_leadId = None\<rparr>"

definition escalates :: "string \<Rightarrow> string \<Rightarrow> org_relationship" where
  "escalates a b = \<lparr>or_fromAgentId = a, or_toAgentId = b, or_type = EscalatesTo, or_active = True\<rparr>"

text \<open>Fact: cycles the linter misses. Two org units that are each other's parents have no root and pass; and of two agents that
  escalate to each other the cycle is missed as soon as one of them also escalates to somebody else, declared later.\<close>

theorem lint_misses_cycles:
  "lintOrgChart (empty_chart\<lparr>oc_orgUnits := [plain_unit ''a'' (Some ''b''), plain_unit ''b'' (Some ''a'')]\<rparr>) = [] \<and>
   map lr_rule (errors (lintOrgChart (empty_chart\<lparr>oc_agents := map plain_agent [''a'', ''b'', ''c''],
     oc_relationships := [escalates ''a'' ''b'', escalates ''b'' ''a'']\<rparr>))) = [''no-circular-escalation'', ''no-circular-escalation''] \<and>
   errors (lintOrgChart (empty_chart\<lparr>oc_agents := map plain_agent [''a'', ''b'', ''c''],
     oc_relationships := [escalates ''a'' ''b'', escalates ''b'' ''a'', escalates ''a'' ''c'']\<rparr>)) = []"
  by code_simp


end
