(* ===== verification/Tools.thy ===== *)
theory Tools
  imports CallbackDelivery Completion TaskDeps TaskParser OrgChart
begin

section \<open>The task tools (tools/task-crud-tools.ts, task-workflow-tools.ts, query-tools.ts, project-tools.ts, task-linter.ts)\<close>

text \<open>
  What agents and users call. A tool works on whatever implements \<open>ITaskStore\<close>, so the store is a record of operations:
  \<open>file_store\<close> is the store of \<open>TaskStore\<close>, \<open>TaskOps\<close> and \<open>TaskDeps\<close>; the store with permissions is in \<open>Permissions\<close>. The
  Zod parse of a tool's input is represented by the input records; project.yaml and the org chart are values.
\<close>

subsection \<open>ITaskStore (store/interfaces.ts)\<close>

record store_ops =
  st_create :: "create_opts \<Rightarrow> task m"
  st_get :: "string \<Rightarrow> task option m"
  st_getByPrefix :: "string \<Rightarrow> task option m"
  st_list :: "list_filters \<Rightarrow> task list m"
  st_countByStatus :: "(task_status \<times> nat) list m"
  st_transition :: "string \<Rightarrow> task_status \<Rightarrow> transition_opts \<Rightarrow> task m"
  st_cancel :: "string \<Rightarrow> string option \<Rightarrow> task m"
  st_updateBody :: "string \<Rightarrow> string \<Rightarrow> task m"
  st_update :: "string \<Rightarrow> update_patch \<Rightarrow> task m"
  st_delete :: "string \<Rightarrow> bool m"
  st_lint :: "lint_issue list m"
  st_getTaskInputs :: "string \<Rightarrow> string list m"
  st_getTaskOutputs :: "string \<Rightarrow> string list m"
  st_writeTaskOutput :: "string \<Rightarrow> string \<Rightarrow> string \<Rightarrow> unit m"
  st_addDep :: "string \<Rightarrow> string \<Rightarrow> task m"
  st_removeDep :: "string \<Rightarrow> string \<Rightarrow> task m"
  st_block :: "string \<Rightarrow> string \<Rightarrow> task m"
  st_unblock :: "string \<Rightarrow> task m"
  st_save :: "task \<Rightarrow> unit m"
  st_saveToPath :: "task \<Rightarrow> task_path \<Rightarrow> unit m"

text \<open>The file store with the parameters of its hash and its id generator.\<close>

record store_env =
  se_hash :: "string \<Rightarrow> string"
  se_projectId :: "string option"
  se_day :: "int \<Rightarrow> string"
  se_suffix :: "nat \<Rightarrow> string"

definition file_store :: "store_env \<Rightarrow> store_ops" where
  "file_store se =
     \<lparr>st_create = create_task (se_hash se) (se_projectId se) (se_day se) (se_suffix se), st_get = get_task, st_getByPrefix = getByPrefix,
      st_list = list_tasks, st_countByStatus = gets countByStatus, st_transition = transition_task, st_cancel = cancel_task,
      st_updateBody = update_body (se_hash se), st_update = update_task (se_hash se), st_delete = delete_task, st_lint = gets lintTasks,
      st_getTaskInputs = getTaskInputs, st_getTaskOutputs = getTaskOutputs, st_writeTaskOutput = writeTaskOutput,
      st_addDep = add_dependency, st_removeDep = remove_dependency, st_block = block_task, st_unblock = unblock_task,
      st_save = save_task, st_saveToPath = (\<lambda>t p. write_task p t)\<rparr>"

subsection \<open>Envelopes (tools/envelope.ts)\<close>

record tool_response =
  en_summary :: string
  en_details :: "string option"
  en_warnings :: "string list option"
  en_meta :: "(string \<times> json) list option"

definition wrapResponse :: "string \<Rightarrow> string option \<Rightarrow> (string \<times> json) list option \<Rightarrow> string list option \<Rightarrow> tool_response" where
  "wrapResponse summary details meta warnings =
     \<lparr>en_summary = summary, en_details = details, en_warnings = (case warnings of Some (x # xs) \<Rightarrow> Some (x # xs) | _ \<Rightarrow> None), en_meta = meta\<rparr>"

definition compactResponse :: "string \<Rightarrow> (string \<times> json) list option \<Rightarrow> tool_response" where
  "compactResponse summary meta = wrapResponse summary None meta None"

record tool_ctx =
  ct_store :: store_ops
  ct_projectId :: "string option"
  ct_chart :: org_agents

definition tool_task :: "tool_ctx \<Rightarrow> string \<Rightarrow> task m" where
  "tool_task ctx i = bind (st_get (ct_store ctx) i) (\<lambda>t. case t of
     Some task \<Rightarrow> ret task
   | None \<Rightarrow> bind (st_getByPrefix (ct_store ctx) i) (\<lambda>p. from_option (OtherError (''Task not found: '' @ i)) p))"

definition task_id :: "task \<Rightarrow> string" where
  "task_id t = fm_id (t_fm t)"

definition task_status_of :: "task \<Rightarrow> task_status" where
  "task_status_of t = fm_status (t_fm t)"

definition id_status :: "task \<Rightarrow> (string \<times> json) list option" where
  "id_status t = Some [(''taskId'', JStr (task_id t)), (''status'', JStr (status_str (task_status_of t)))]"

definition actor_of :: "string option \<Rightarrow> string" where
  "actor_of a = or_else a ''unknown''"

subsection \<open>Update, edit, cancel\<close>

record task_answer =
  an_envelope :: tool_response
  an_taskId :: string
  an_status :: task_status

record update_input =
  ui_taskId :: string
  ui_body :: "string option"
  ui_status :: "task_status option"
  ui_actor :: "string option"
  ui_reason :: "string option"

record update_answer = task_answer +
  an_updatedAt :: int
  an_bodyUpdated :: bool
  an_transitioned :: bool

text \<open>The arrow of the summary, in UTF-8.\<close>

definition arrow :: string where
  "arrow = [CHR 0xE2, CHR 0x86, CHR 0x92]"

definition aofTaskUpdate :: "tool_ctx \<Rightarrow> update_input \<Rightarrow> update_answer m" where
  "aofTaskUpdate ctx inp = (let actor = actor_of (ui_actor inp) in
     bind (tool_task ctx (ui_taskId inp)) (\<lambda>task.
     bind (case ui_body inp of None \<Rightarrow> ret task | Some body \<Rightarrow> st_updateBody (ct_store ctx) (task_id task) body) (\<lambda>t1.
     bind (case ui_status inp of
             None \<Rightarrow> ret (t1, False)
           | Some s \<Rightarrow>
               if s = task_status_of t1 then ret (t1, False)
               else bind (st_transition (ct_store ctx) (task_id t1) s (no_opts\<lparr>to_reason := ui_reason inp, to_agent := Some actor\<rparr>)) (\<lambda>t2.
                 andThen (logTransition (task_id t2) (task_status_of t1) s actor (ui_reason inp)) (ret (t2, True)))) (\<lambda>(t2, transitioned).
     let actions = (if ui_body inp \<noteq> None then [''body updated''] else []) @
                   (if transitioned then [arrow @ '' '' @ status_str (task_status_of t2)] else []);
         e = compactResponse (''Task '' @ task_id t2 @ '' '' @ join_with '', '' actions) (id_status t2) in
     ret \<lparr>an_envelope = e, an_taskId = task_id t2, an_status = task_status_of t2, an_updatedAt = fm_updatedAt (t_fm t2),
        an_bodyUpdated = (ui_body inp \<noteq> None), an_transitioned = transitioned\<rparr>))))"

record edit_input =
  ei_taskId :: string
  ei_patch :: update_patch
  ei_actor :: "string option"

record edit_answer =
  ed_envelope :: tool_response
  ed_taskId :: string
  ed_updatedFields :: "string list"
  ed_title :: string
  ed_status :: task_status
  ed_priority :: task_priority

definition updated_fields :: "update_patch \<Rightarrow> string list" where
  "updated_fields p = (if up_title p \<noteq> None then [''title''] else []) @ (if up_description p \<noteq> None then [''description''] else []) @
     (if up_priority p \<noteq> None then [''priority''] else []) @ (if up_routing p \<noteq> None then [''routing''] else [])"

definition aofTaskEdit :: "tool_ctx \<Rightarrow> edit_input \<Rightarrow> edit_answer m" where
  "aofTaskEdit ctx inp = bind (tool_task ctx (ei_taskId inp)) (\<lambda>task.
     let fields = updated_fields (ei_patch inp) in
     if length fields = 0 then throw (OtherError ''No fields to update. Provide at least one of: title, description, priority, routing'')
     else bind (st_update (ct_store ctx) (task_id task) (ei_patch inp)) (\<lambda>t1.
       ret \<lparr>ed_envelope = compactResponse (''Task '' @ task_id t1 @ '' updated: '' @ join_with '', '' fields)
           (Some [(''taskId'', JStr (task_id t1)), (''updatedFields'', JArr (map JStr fields))]), ed_taskId = task_id t1, ed_updatedFields = fields, ed_title = fm_title (t_fm t1), ed_status = task_status_of t1,
          ed_priority = fm_priority (t_fm t1)\<rparr>))"

record cancel_input =
  ca_taskId :: string
  ca_reason :: "string option"
  ca_actor :: "string option"

record reason_answer = task_answer +
  an_reason :: "string option"

definition aofTaskCancel :: "tool_ctx \<Rightarrow> cancel_input \<Rightarrow> reason_answer m" where
  "aofTaskCancel ctx inp = bind (tool_task ctx (ca_taskId inp)) (\<lambda>task.
     bind (st_cancel (ct_store ctx) (task_id task) (ca_reason inp)) (\<lambda>t1.
     andThen (log_event ''task.cancelled'' (actor_of (ca_actor inp)) (Some (task_id t1)) (opt_str ''reason'' (ca_reason inp)))
     (ret \<lparr>an_envelope = compactResponse (''Task '' @ task_id t1 @ '' cancelled'' @
         (if truthy_str (ca_reason inp) then '': '' @ the (ca_reason inp) else [])) (id_status t1),
       an_taskId = task_id t1, an_status = task_status_of t1, an_reason = ca_reason inp\<rparr>)))"

subsection \<open>Completion\<close>

record complete_input =
  ci_taskId :: string
  ci_actor :: "string option"
  ci_summary :: "string option"

definition completion_body :: "task \<Rightarrow> string \<Rightarrow> string" where
  "completion_body t summary =
     (if t_body t \<noteq> [] then t_body t @ [nl, nl] @ ''## Completion Summary'' @ [nl] @ summary else ''## Completion Summary'' @ [nl] @ summary)"

text \<open>One step of the lifecycle: the transition and its event. \<open>from\<close> is what the tool takes the status to be.\<close>

definition complete_step :: "tool_ctx \<Rightarrow> string \<Rightarrow> task \<Rightarrow> task_status \<Rightarrow> task_status \<Rightarrow> string \<Rightarrow> string \<Rightarrow> task m" where
  "complete_step ctx actor t from to reason note =
     bind (st_transition (ct_store ctx) (task_id t) to (no_opts\<lparr>to_reason := Some reason, to_agent := Some actor\<rparr>)) (\<lambda>t'.
       andThen (logTransition (task_id t') from to actor (Some note)) (ret t'))"

definition to_in_progress :: "tool_ctx \<Rightarrow> string \<Rightarrow> task \<Rightarrow> task m" where
  "to_in_progress ctx actor t =
     (let from = task_status_of t in
      if from \<noteq> InProgress \<and> from \<noteq> Review then
        bind (if from = Blocked
              then complete_step ctx actor t from Ready ''manual_completion_unblock'' ''Manual completion: unblocking task''
              else ret t) (\<lambda>t'.
          complete_step ctx actor t' (task_status_of t') InProgress ''manual_completion_lifecycle_guard''
            ''Manual completion: enforcing lifecycle consistency'')
      else ret t)"

definition complete_lifecycle :: "tool_ctx \<Rightarrow> string \<Rightarrow> task \<Rightarrow> task m" where
  "complete_lifecycle ctx actor t =
     bind (to_in_progress ctx actor t) (\<lambda>t1.
     bind (if task_status_of t1 = InProgress
           then complete_step ctx actor t1 InProgress Review ''manual_completion_review'' ''Manual completion: moving to review''
           else ret t1) (\<lambda>t2.
     complete_step ctx actor t2 Review Done ''task_complete'' ''task_complete''))"

definition aofTaskComplete :: "tool_ctx \<Rightarrow> complete_input \<Rightarrow> task_answer m" where
  "aofTaskComplete ctx inp = (let actor = actor_of (ci_actor inp) in
     bind (tool_task ctx (ci_taskId inp)) (\<lambda>task.
     if task_status_of task = Done
     then throw (OtherError (''Task '' @ task_id task @ '' is already done and cannot be re-transitioned. '' @
       ''If you need to re-open this task, contact an administrator.''))
     else
     bind (if truthy_str (ci_summary inp)
           then st_updateBody (ct_store ctx) (task_id task) (completion_body task (the (ci_summary inp))) else ret task) (\<lambda>t1.
     bind (if task_status_of t1 \<noteq> Done then complete_lifecycle ctx actor t1 else ret t1) (\<lambda>t2.
     andThen (log_event ''task.completed'' actor (Some (task_id t2)) [])
     (ret \<lparr>an_envelope = compactResponse (''Task '' @ task_id t2 @ '' completed successfully'') (id_status t2),
           an_taskId = task_id t2, an_status = task_status_of t2\<rparr>)))))"

subsection \<open>Dependencies, block, unblock\<close>

record dep_input =
  dp_taskId :: string
  dp_blockerId :: string
  dp_actor :: "string option"

record dep_answer =
  da_envelope :: tool_response
  da_taskId :: string
  da_blockerId :: string
  da_dependsOn :: "string list"

definition dep_answer_of :: "task \<Rightarrow> string \<Rightarrow> string \<Rightarrow> dep_answer" where
  "dep_answer_of t blockerId what =
     \<lparr>da_envelope = compactResponse (''Task '' @ task_id t @ what @ blockerId) (Some [(''taskId'', JStr (task_id t)), (''blockerId'', JStr blockerId)]),
      da_taskId = task_id t, da_blockerId = blockerId, da_dependsOn = fm_dependsOn (t_fm t)\<rparr>"

definition aofTaskDepAdd :: "tool_ctx \<Rightarrow> dep_input \<Rightarrow> dep_answer m" where
  "aofTaskDepAdd ctx inp =
     bind (tool_task ctx (dp_taskId inp)) (\<lambda>task.
     bind (tool_task ctx (dp_blockerId inp)) (\<lambda>blocker.
     bind (st_addDep (ct_store ctx) (task_id task) (task_id blocker)) (\<lambda>t1.
     andThen (log_event ''task.dep.added'' (actor_of (dp_actor inp)) (Some (task_id t1)) [(''blockerId'', JStr (task_id blocker))])
     (ret (dep_answer_of t1 (task_id blocker) '' now depends on '')))))"

text \<open>A blocker that does not resolve is removed under the id it was given by.\<close>

definition blocker_id :: "tool_ctx \<Rightarrow> string \<Rightarrow> string m" where
  "blocker_id ctx i =
     bind (catch (st_get (ct_store ctx) i) (\<lambda>_. ret None)) (\<lambda>b. case b of
       Some t \<Rightarrow> ret (task_id t)
     | None \<Rightarrow> bind (catch (st_getByPrefix (ct_store ctx) i) (\<lambda>_. ret None)) (\<lambda>p. case p of Some t \<Rightarrow> ret (task_id t) | None \<Rightarrow> ret i))"

definition aofTaskDepRemove :: "tool_ctx \<Rightarrow> dep_input \<Rightarrow> dep_answer m" where
  "aofTaskDepRemove ctx inp =
     bind (tool_task ctx (dp_taskId inp)) (\<lambda>task.
     bind (blocker_id ctx (dp_blockerId inp)) (\<lambda>b.
     bind (st_removeDep (ct_store ctx) (task_id task) b) (\<lambda>t1.
     andThen (log_event ''task.dep.removed'' (actor_of (dp_actor inp)) (Some (task_id t1)) [(''blockerId'', JStr b)])
     (ret (dep_answer_of t1 b '' no longer depends on '')))))"

record block_input =
  bi_taskId :: string
  bi_reason :: string
  bi_actor :: "string option"

definition aofTaskBlock :: "tool_ctx \<Rightarrow> block_input \<Rightarrow> reason_answer m" where
  "aofTaskBlock ctx inp =
     bind (tool_task ctx (bi_taskId inp)) (\<lambda>task.
     if js_trim (bi_reason inp) = []
     then throw (OtherError (''Block reason is required. Provide a clear explanation of what'' @ [CHR 0x27] @ ''s blocking progress.''))
     else
     bind (st_block (ct_store ctx) (task_id task) (bi_reason inp)) (\<lambda>t1.
     andThen (log_event ''task.blocked'' (actor_of (bi_actor inp)) (Some (task_id t1)) [(''reason'', JStr (bi_reason inp))])
     (ret \<lparr>an_envelope = compactResponse (''Task '' @ task_id t1 @ '' blocked: '' @ bi_reason inp) (id_status t1),
           an_taskId = task_id t1, an_status = task_status_of t1, an_reason = Some (bi_reason inp)\<rparr>)))"

record unblock_input =
  bu_taskId :: string
  bu_actor :: "string option"

definition aofTaskUnblock :: "tool_ctx \<Rightarrow> unblock_input \<Rightarrow> task_answer m" where
  "aofTaskUnblock ctx inp =
     bind (tool_task ctx (bu_taskId inp)) (\<lambda>task.
     bind (st_unblock (ct_store ctx) (task_id task)) (\<lambda>t1.
     andThen (log_event ''task.unblocked'' (actor_of (bu_actor inp)) (Some (task_id t1)) [])
     (ret \<lparr>an_envelope = compactResponse (''Task '' @ task_id t1 @ '' unblocked and moved to ready'') (id_status t1),
           an_taskId = task_id t1, an_status = task_status_of t1\<rparr>)))"

subsection \<open>Status reports\<close>

record report_input =
  ri_actor :: "string option"
  ri_agent :: "string option"
  ri_status :: "task_status option"
  ri_compact :: bool
  ri_limit :: "nat option"

record report_line =
  rl_id :: string
  rl_title :: string
  rl_status :: task_status
  rl_agent :: "string option"

record status_report =
  rp_envelope :: tool_response
  rp_total :: nat
  rp_byStatus :: "(task_status \<times> nat) list"
  rp_tasks :: "report_line list"

definition report_line_of :: "task \<Rightarrow> report_line" where
  "report_line_of t =
     \<lparr>rl_id = task_id t, rl_title = fm_title (t_fm t), rl_status = task_status_of t,
      rl_agent = (case fm_lease (t_fm t) of Some l \<Rightarrow> Some (tl_agent l) | None \<Rightarrow> rt_agent (fm_routing (t_fm t)))\<rparr>"

definition count_by_status :: "task list \<Rightarrow> (task_status \<times> nat) list" where
  "count_by_status ts = fold (\<lambda>t m. AList.update (task_status_of t) (or_else (map_of m (task_status_of t)) 0 + 1) m) ts
     (map (\<lambda>s. (s, 0)) [Backlog, Ready, InProgress, Blocked, Review, Done, Cancelled, Deadletter])"

definition report_text :: "report_line \<Rightarrow> string" where
  "report_text l = ''- '' @ rl_id l @ '': '' @ rl_title l @ '' ['' @ status_str (rl_status l) @ '']'' @
     (if truthy_str (rl_agent l) then '' @'' @ the (rl_agent l) else [])"

definition summary_text :: "nat \<Rightarrow> (task_status \<times> nat) list \<Rightarrow> string" where
  "summary_text n counts =
     (let statusCounts = join_with '', '' (map (\<lambda>(s, k). status_str s @ '': '' @ string_of_nat k) (filter (\<lambda>(s, k). k > 0) counts)) in
      if n = 0 then ''0 tasks''
      else string_of_nat n @ '' '' @ (if n = 1 then ''task'' else ''tasks'') @
        (if statusCounts \<noteq> [] then '' ('' @ statusCounts @ '')'' else []))"

definition aofStatusReport :: "tool_ctx \<Rightarrow> report_input \<Rightarrow> status_report m" where
  "aofStatusReport ctx inp =
     bind (st_list (ct_store ctx) \<lparr>lf_status = ri_status inp, lf_agent = ri_agent inp, lf_team = None\<rparr>) (\<lambda>tasks.
     let byStatus = count_by_status tasks; lines = map report_line_of tasks in
     andThen (log_event ''knowledge.shared'' (or_else (ri_actor inp) ''system'') None
       [(''type'', JStr ''status_report''), (''total'', JNum (of_nat (length tasks)))])
     (let summaryText = summary_text (length tasks) byStatus;
          limited = (case ri_limit inp of Some n \<Rightarrow> if n \<noteq> 0 then take n lines else lines | None \<Rightarrow> lines);
          details = join_with [nl] (map report_text limited);
          e = (if ri_compact inp then compactResponse summaryText None
               else wrapResponse summaryText (Some (if details \<noteq> [] then details else ''(no tasks)'')) None None) in
      ret \<lparr>rp_envelope = e, rp_total = length tasks, rp_byStatus = byStatus, rp_tasks = lines\<rparr>))"

subsection \<open>Creating a task for dispatch\<close>

definition MAX_DISPATCH_TIMEOUT_MS :: int where
  "MAX_DISPATCH_TIMEOUT_MS = 4 * 60 * 60 * 1000"

text \<open>\<open>di_notify\<close> is the object of \<open>notifyOnCompletion\<close>; a boolean there has no effect in the core.\<close>

record dispatch_input =
  di_title :: string
  di_brief :: string
  di_description :: "string option"
  di_agent :: "string option"
  di_team :: "string option"
  di_role :: "string option"
  di_priority :: "string option"
  di_dependsOn :: "string list option"
  di_parentId :: "string option"
  di_metadata :: "metadata option"
  di_tags :: "string list option"
  di_actor :: "string option"
  di_project :: "string option"
  di_subscribe :: "sub_granularity option"
  di_notify :: "(string \<times> json) list option"
  di_timeoutMs :: "rat option"

record dispatch_answer =
  ds_envelope :: tool_response
  ds_taskId :: string
  ds_status :: task_status
  ds_filePath :: task_path
  ds_subscriptionId :: "string option"
  ds_notificationId :: "string option"

definition normalizePriority :: "string option \<Rightarrow> task_priority" where
  "normalizePriority p = (let s = to_lower (or_else p []) in
     if s = ''critical'' then PCritical else if s = ''high'' then PHigh else if s = ''low'' then PLow else PNormal)"

definition str_field :: "string \<Rightarrow> (string \<times> json) list \<Rightarrow> string" where
  "str_field k raw = (case map_of raw k of Some (JStr s) \<Rightarrow> js_trim s | _ \<Rightarrow> [])"

text \<open>The delivery and the subscriber it names, if any.\<close>

definition normalizeCompletionDelivery :: "(string \<times> json) list \<Rightarrow> error + sub_delivery \<times> string option" where
  "normalizeCompletionDelivery raw =
     (let kind = str_field ''kind'' raw; subscriberId = str_field ''subscriberId'' raw;
          rest = filter (\<lambda>(k, v). k \<noteq> ''kind'' \<and> k \<noteq> ''subscriberId'') raw in
      if length kind = 0 then Inl (OtherError ''notifyOnCompletion.kind must be a non-empty string'')
      else if length subscriberId > 0
      then Inr (\<lparr>sd_kind = kind, sd_payload = rest @ [(''subscriberId'', JStr subscriberId)]\<rparr>, Some subscriberId)
      else Inr (\<lparr>sd_kind = kind, sd_payload = rest\<rparr>, None))"

text \<open>Lead and team of the owner in the manifest of a project; \<open>None\<close> when it cannot be loaded.\<close>

type_synonym owners = "string \<Rightarrow> (string option \<times> string option) option"

definition real_owner :: "string option \<Rightarrow> bool" where
  "real_owner x \<longleftrightarrow> truthy_str x \<and> to_lower (the x) \<noteq> ''system''"

definition routing_target :: "owners \<Rightarrow> string option \<Rightarrow> dispatch_input \<Rightarrow> string option \<times> string option \<times> string option" where
  "routing_target owners projectId inp =
     (let agent = di_agent inp; team = di_team inp; role = di_role inp;
          project = (if di_project inp \<noteq> None then di_project inp else projectId) in
      if truthy_str agent \<or> truthy_str team \<or> truthy_str role \<or> \<not> truthy_str project then (agent, team, role)
      else (case owners (the project) of
        None \<Rightarrow> (agent, team, role)
      | Some (lead, ownerTeam) \<Rightarrow>
          if real_owner lead then (lead, team, role) else if real_owner ownerTeam then (agent, ownerTeam, role) else (agent, team, role)))"

definition missing_blockers :: "tool_ctx \<Rightarrow> string list \<Rightarrow> string list m" where
  "missing_blockers ctx ids =
     fold_m (\<lambda>i missing. bind (st_get (ct_store ctx) i) (\<lambda>t. ret (if t = None then missing @ [i] else missing))) ids []"

text \<open>Empty metadata and no metadata are the same to \<open>create\<close>.\<close>

definition dispatch_metadata :: "dispatch_input \<Rightarrow> metadata" where
  "dispatch_metadata inp =
     (let m = or_else (di_metadata inp) Map.empty;
          m1 = (case di_tags inp of None \<Rightarrow> m | Some tags \<Rightarrow> m(''tags'' \<mapsto> JArr (map JStr tags))) in
      case di_timeoutMs inp of
        None \<Rightarrow> m1
      | Some n \<Rightarrow> if n > 0 then m1(''timeoutMs'' \<mapsto> JNum (of_int (min \<lfloor>n\<rfloor> MAX_DISPATCH_TIMEOUT_MS))) else m1)"

definition dispatch_opts :: "dispatch_input \<Rightarrow> string \<Rightarrow> string option \<times> string option \<times> string option \<Rightarrow> create_opts" where
  "dispatch_opts inp brief target = (case target of (agent, team, role) \<Rightarrow>
     \<lparr>cr_title = js_trim (di_title inp), cr_body = Some (js_trim brief), cr_priority = Some (normalizePriority (di_priority inp)),
      cr_routing = Some (role, team, agent, None), cr_sla = None, cr_metadata = Some (dispatch_metadata inp),
      cr_createdBy = actor_of (di_actor inp), cr_parentId = di_parentId inp, cr_dependsOn = di_dependsOn inp, cr_workflow = None,
      cr_contextTier = None, cr_callbackDepth = None, cr_initialStatus = Some Ready\<rparr>)"

text \<open>The subscriptions made at dispatch; \<open>uuid1\<close> and \<open>uuid2\<close> are what \<open>randomUUID\<close> draws for them. The subscription store
  resolves tasks through \<open>get\<close>, which every caller may use.\<close>

definition subscribe_dispatched :: "tool_ctx \<Rightarrow> string \<Rightarrow> dispatch_input \<Rightarrow> string \<Rightarrow> string option m" where
  "subscribe_dispatched ctx uuid1 inp taskId = (case di_subscribe inp of
     None \<Rightarrow> ret None
   | Some g \<Rightarrow> (let subscriberId = actor_of (di_actor inp) in
       andThen (validateSubscriberAgent (ct_chart ctx) subscriberId)
       (bind (list_subs taskId (Some SubActive)) (\<lambda>existing.
          case find (\<lambda>s. sb_subscriberId s = subscriberId \<and> sb_granularity s = g) existing of
            Some duplicate \<Rightarrow> ret (Some (sb_id duplicate))
          | None \<Rightarrow> bind (create_sub uuid1 taskId subscriberId g None) (\<lambda>s. ret (Some (sb_id s)))))))"

definition notify_dispatched :: "string \<Rightarrow> (sub_delivery \<times> string option) option \<Rightarrow> string \<Rightarrow> string option m" where
  "notify_dispatched uuid2 delivery taskId = (case delivery of
     None \<Rightarrow> ret None
   | Some (d, subscriber) \<Rightarrow>
       bind (create_sub uuid2 taskId (or_else subscriber (''notify:'' @ sd_kind d)) OnCompletion (Some d)) (\<lambda>s. ret (Some (sb_id s))))"

definition dispatch_brief :: "dispatch_input \<Rightarrow> string" where
  "dispatch_brief inp = (if di_brief inp \<noteq> [] then di_brief inp else or_else (di_description inp) [])"

definition missing_error :: "string list \<Rightarrow> error" where
  "missing_error missing = OtherError (''dependsOn references nonexistent task'' @ (if length missing = 1 then [] else ''s'') @ '': '' @
     join_with '', '' missing)"

definition no_target_error :: error where
  "no_target_error = OtherError (''Task creation requires a routing target. Provide one of: agent, team, role. '' @
     ''Tags-only routing is not supported (would never dispatch '' @ em_dash @ '' see Phase 46 / Bug 2B).'')"

text \<open>The checks before the task is created; what they let through is the delivery and the target.\<close>

definition dispatch_checks :: "tool_ctx \<Rightarrow> owners \<Rightarrow> dispatch_input \<Rightarrow>
    ((string option \<times> string option \<times> string option) \<times> (sub_delivery \<times> string option) option) m" where
  "dispatch_checks ctx owners inp =
     (if js_trim (di_title inp) = [] then throw (OtherError ''Task title is required'')
      else if js_trim (dispatch_brief inp) = [] then throw (OtherError ''Task brief/description is required'')
      else case routing_target owners (ct_projectId ctx) inp of (agent, team, role) \<Rightarrow>
        if \<not> truthy_str agent \<and> \<not> truthy_str team \<and> \<not> truthy_str role then throw no_target_error
        else bind (missing_blockers ctx (or_else (di_dependsOn inp) [])) (\<lambda>missing.
          if length missing > 0 then throw (missing_error missing)
          else case di_notify inp of
            None \<Rightarrow> ret ((agent, team, role), None)
          | Some raw \<Rightarrow> (case normalizeCompletionDelivery raw of Inl e \<Rightarrow> throw e | Inr d \<Rightarrow> ret ((agent, team, role), Some d))))"

definition finish_dispatch :: "tool_ctx \<Rightarrow> string \<Rightarrow> string \<Rightarrow> dispatch_input \<Rightarrow> (sub_delivery \<times> string option) option \<Rightarrow> task \<Rightarrow>
    dispatch_answer m" where
  "finish_dispatch ctx uuid1 uuid2 inp delivery t =
     andThen (log_event ''task.created'' (actor_of (di_actor inp)) (Some (task_id t))
       [(''title'', JStr (fm_title (t_fm t))), (''priority'', JStr (priority_str (fm_priority (t_fm t)))),
        (''routing'', routing_json (fm_routing (t_fm t)))])
     (bind (subscribe_dispatched ctx uuid1 inp (task_id t)) (\<lambda>sub.
      bind (notify_dispatched uuid2 delivery (task_id t)) (\<lambda>notification.
      ret \<lparr>ds_envelope = compactResponse (''Task '' @ task_id t @ '' created and ready for assignment'') (id_status t),
           ds_taskId = task_id t, ds_status = task_status_of t, ds_filePath = path_or t (taskPath (task_id t) (task_status_of t)),
           ds_subscriptionId = sub, ds_notificationId = notification\<rparr>)))"

definition aofDispatch :: "tool_ctx \<Rightarrow> owners \<Rightarrow> string \<Rightarrow> string \<Rightarrow> dispatch_input \<Rightarrow> dispatch_answer m" where
  "aofDispatch ctx owners uuid1 uuid2 inp =
     bind (dispatch_checks ctx owners inp) (\<lambda>(target, delivery).
     bind (st_create (ct_store ctx) (dispatch_opts inp (dispatch_brief inp) target)) (finish_dispatch ctx uuid1 uuid2 inp delivery))"

subsection \<open>Task cards (tools/task-linter.ts)\<close>

definition lintTaskCard :: "bool \<Rightarrow> task \<Rightarrow> lint_report list" where
  "lintTaskCard strict t =
     (let sections = extractTaskSections (t_body t); fm = t_fm t;
          isRunbookTask = (''runbook'' \<in> set (rt_tags (fm_routing fm)) \<or> truthy_str (fm_requiredRunbook fm));
          no_guidance = (sec_guidance sections = None) in
      (case sec_instructions sections of
         None \<Rightarrow> [lint_warning ''instructions-section-present''
           (''Task body should include an '' @ quoted ''## Instructions'' @ '' section for clarity'') ''body'']
       | Some c \<Rightarrow> if length c = 0 then [lint_warning ''instructions-section-not-empty'' ''Instructions section is present but empty'' ''body''] else []) @
      (if truthy_str (fm_instructionsRef fm) \<and> sec_instructions sections = None
       then [lint_warning ''instructions-ref-has-section''
         (''instructionsRef is set to '' @ quoted (the (fm_instructionsRef fm)) @ '' but Instructions section is missing'') ''frontmatter.instructionsRef'']
       else []) @
      (if truthy_str (fm_guidanceRef fm) \<and> no_guidance
       then [lint_warning ''guidance-ref-has-section''
               (''guidanceRef is set to '' @ quoted (the (fm_guidanceRef fm)) @ '' but Guidance section is missing'') ''frontmatter.guidanceRef'',
             lint_warning ''guidance-section-present'' ''guidanceRef is set but Guidance section is missing from body'' ''body'']
       else if truthy_str (fm_guidanceRef fm) \<and> sec_guidance sections = Some []
       then [lint_warning ''guidance-section-not-empty'' ''Guidance section is present but empty'' ''body''] else []) @
      (if strict \<and> isRunbookTask \<and> no_guidance
       then [lint_error ''guidance-section-required'' (''Runbook-tagged tasks must include a '' @ quoted ''## Guidance'' @ '' section (strict mode)'') ''body'']
       else []))"

subsection \<open>Tool calls\<close>

text \<open>The tools of the registry that work on tasks, each with its input (tools/tool-registry.ts).\<close>

datatype tool_call =
    CallDispatch string string dispatch_input
  | CallUpdate update_input
  | CallComplete complete_input
  | CallReport report_input
  | CallEdit edit_input
  | CallCancel cancel_input
  | CallDepAdd dep_input
  | CallDepRemove dep_input
  | CallBlock block_input
  | CallUnblock unblock_input

definition discard :: "'a m \<Rightarrow> unit m" where
  "discard f = bind f (\<lambda>_. ret ())"

definition call_tool :: "tool_ctx \<Rightarrow> owners \<Rightarrow> tool_call \<Rightarrow> unit m" where
  "call_tool ctx owners call = (case call of
     CallDispatch uuid1 uuid2 inp \<Rightarrow> discard (aofDispatch ctx owners uuid1 uuid2 inp)
   | CallUpdate inp \<Rightarrow> discard (aofTaskUpdate ctx inp)
   | CallComplete inp \<Rightarrow> discard (aofTaskComplete ctx inp)
   | CallReport inp \<Rightarrow> discard (aofStatusReport ctx inp)
   | CallEdit inp \<Rightarrow> discard (aofTaskEdit ctx inp)
   | CallCancel inp \<Rightarrow> discard (aofTaskCancel ctx inp)
   | CallDepAdd inp \<Rightarrow> discard (aofTaskDepAdd ctx inp)
   | CallDepRemove inp \<Rightarrow> discard (aofTaskDepRemove ctx inp)
   | CallBlock inp \<Rightarrow> discard (aofTaskBlock ctx inp)
   | CallUnblock inp \<Rightarrow> discard (aofTaskUnblock ctx inp))"

text \<open>Requests one after another; a failed one leaves what it did.\<close>

definition run_calls :: "tool_ctx \<Rightarrow> owners \<Rightarrow> tool_call list \<Rightarrow> world \<Rightarrow> world" where
  "run_calls ctx owners calls w = fold (\<lambda>call w. snd (call_tool ctx owners call w)) calls w"

end
