(* ===== verification/Permissions.thy ===== *)
theory Permissions
  imports Tools
begin

section \<open>Who may do what (permissions/task-permissions.ts, ipc/store-resolver.ts, ipc/routes/invoke-tool.ts)\<close>

text \<open>
  The store an agent works on when an org chart is configured: every operation determines the role of the agent, looks the
  task up, checks and then calls the wrapped store. A refusal throws its reason. The route of the daemon picks the store
  for the actor of a request, calls the tool and answers with a status.
\<close>

subsection \<open>Roles\<close>

datatype agent_role = Admin | Orchestrator | Worker | UnknownAgent

record role_info =
  rf_role :: agent_role
  rf_team :: "string option"
  rf_orchestratorTeams :: "string list"

definition determineRole :: "string \<Rightarrow> org_chart \<Rightarrow> role_info" where
  "determineRole agentId c =
     (if agentId = ''main'' \<or> str_includes ''human'' (to_lower agentId)
      then \<lparr>rf_role = Admin, rf_team = None, rf_orchestratorTeams = []\<rparr>
      else (case find (\<lambda>a. oa_id a = agentId) (oc_agents c) of
        None \<Rightarrow> \<lparr>rf_role = UnknownAgent, rf_team = None, rf_orchestratorTeams = []\<rparr>
      | Some agent \<Rightarrow>
          let teams = map ot_id (filter (\<lambda>t. ot_lead t = Some agentId) (oc_teams c)) @
                map ou_id (filter (\<lambda>u. ou_leadId u = Some agentId) (oc_orgUnits c)) in
          if length teams > 0 then \<lparr>rf_role = Orchestrator, rf_team = oa_team agent, rf_orchestratorTeams = teams\<rparr>
          else \<lparr>rf_role = Worker, rf_team = oa_team agent, rf_orchestratorTeams = []\<rparr>))"

text \<open>\<open>routing.agent || lease?.agent\<close>\<close>

definition assignee :: "frontmatter \<Rightarrow> string option" where
  "assignee fm = (if truthy_str (rt_agent (fm_routing fm)) then rt_agent (fm_routing fm) else map_option tl_agent (fm_lease fm))"

definition shown :: "string option \<Rightarrow> string \<Rightarrow> string" where
  "shown x alt = (if truthy_str x then the x else alt)"

text \<open>\<open>Inr ()\<close> is \<open>allowed: true\<close>, \<open>Inl\<close> the reason of a refusal.\<close>

definition checkPermission :: "string \<Rightarrow> string \<Rightarrow> task option \<Rightarrow> role_info \<Rightarrow> string + unit" where
  "checkPermission operation agentId t ri =
     (if rf_role ri = Admin then Inr ()
      else if rf_role ri = UnknownAgent then
        (if operation = ''list'' \<or> operation = ''get'' then Inr () else Inl (''Agent '' @ agentId @ '' is not found in the org chart''))
      else if operation = ''list'' then Inr ()
      else if operation = ''create'' then
        (if rf_role ri = Orchestrator then Inr ()
         else Inl (''Agent '' @ agentId @ '' cannot create tasks: only team orchestrators can create tasks''))
      else (case t of
        None \<Rightarrow> Inl ''Task not found''
      | Some task \<Rightarrow>
          let fm = t_fm task; taskTeam = rt_team (fm_routing fm); taskAssignee = assignee fm;
              cannot = ''Agent '' @ agentId @ '' cannot '' @ operation @ '' task '' @ fm_id fm @ '': '' in
          if operation = ''get'' then Inr ()
          else if rf_role ri = Worker then
            (if operation \<in> {''close'', ''update'', ''updateBody''} then
               (if taskAssignee = Some agentId then Inr () else Inl (cannot @ ''task is assigned to '' @ shown taskAssignee ''no one''))
             else Inl (cannot @ ''workers can only close or update their own tasks''))
          else if truthy_str taskTeam \<and> the taskTeam \<in> set (rf_orchestratorTeams ri) then Inr ()
          else if \<not> truthy_str taskTeam \<and> truthy_str taskAssignee then Inr ()
          else Inl (cannot @ ''not the orchestrator for team '' @ shown taskTeam ''unassigned'')))"

subsection \<open>The store with permissions\<close>

definition demand :: "string + unit \<Rightarrow> 'a m \<Rightarrow> 'a m" where
  "demand check f = (case check of Inl reason \<Rightarrow> throw (OtherError reason) | Inr u \<Rightarrow> f)"

definition checked :: "store_ops \<Rightarrow> org_chart \<Rightarrow> string \<Rightarrow> string \<Rightarrow> string \<Rightarrow> 'a m \<Rightarrow> 'a m" where
  "checked st c agentId operation i f = bind (st_get st i) (\<lambda>t. demand (checkPermission operation agentId t (determineRole agentId c)) f)"

definition checked_read :: "org_chart \<Rightarrow> string \<Rightarrow> task option m \<Rightarrow> task option m" where
  "checked_read c agentId f = bind f (\<lambda>t. case t of
     None \<Rightarrow> ret None | Some task \<Rightarrow> demand (checkPermission ''get'' agentId (Some task) (determineRole agentId c)) (ret (Some task)))"

definition permission_store :: "org_chart \<Rightarrow> string \<Rightarrow> store_ops \<Rightarrow> store_ops" where
  "permission_store c a st = (let global = (\<lambda>operation. checkPermission operation a None (determineRole a c)) in
     \<lparr>st_create = (\<lambda>opts. demand (global ''create'') (st_create st opts)),
      st_get = (\<lambda>i. checked_read c a (st_get st i)),
      st_getByPrefix = (\<lambda>p. checked_read c a (st_getByPrefix st p)),
      st_list = (\<lambda>lf. demand (global ''list'') (st_list st lf)),
      st_countByStatus = demand (global ''list'') (st_countByStatus st),
      st_transition = (\<lambda>i s opts. checked st c a (if s = Done then ''close'' else ''transition'') i (st_transition st i s opts)),
      st_cancel = (\<lambda>i reason. checked st c a ''cancel'' i (st_cancel st i reason)),
      st_updateBody = (\<lambda>i body. checked st c a ''updateBody'' i (st_updateBody st i body)),
      st_update = (\<lambda>i p. checked st c a ''update'' i (st_update st i p)),
      st_delete = (\<lambda>i. checked st c a ''delete'' i (st_delete st i)),
      st_lint = st_lint st,
      st_getTaskInputs = (\<lambda>i. checked st c a ''get'' i (st_getTaskInputs st i)),
      st_getTaskOutputs = (\<lambda>i. checked st c a ''get'' i (st_getTaskOutputs st i)),
      st_writeTaskOutput = (\<lambda>i name content. checked st c a ''update'' i (st_writeTaskOutput st i name content)),
      st_addDep = (\<lambda>i b. checked st c a ''addDep'' i (st_addDep st i b)),
      st_removeDep = (\<lambda>i b. checked st c a ''removeDep'' i (st_removeDep st i b)),
      st_block = (\<lambda>i reason. checked st c a ''block'' i (st_block st i reason)),
      st_unblock = (\<lambda>i. checked st c a ''unblock'' i (st_unblock st i)),
      st_save = st_save st,
      st_saveToPath = st_saveToPath st\<rparr>)"

text \<open>The store of a request: with permissions when a chart could be loaded and the actor is known.\<close>

definition resolve_store :: "org_chart option \<Rightarrow> string option \<Rightarrow> store_ops \<Rightarrow> store_ops" where
  "resolve_store chart actor base = (case chart of
     None \<Rightarrow> base
   | Some c \<Rightarrow> if \<not> truthy_str actor \<or> actor = Some ''unknown'' then base else permission_store c (the actor) base)"

subsection \<open>The answer of the daemon\<close>

datatype ipc_kind = KValidation | KNotFound | KPermission | KTimeout | KUnavailable | KInternal

fun httpStatusForKind :: "ipc_kind \<Rightarrow> nat" where
  "httpStatusForKind KValidation = 400"
| "httpStatusForKind KNotFound = 404"
| "httpStatusForKind KPermission = 403"
| "httpStatusForKind KTimeout = 504"
| "httpStatusForKind KUnavailable = 503"
| "httpStatusForKind KInternal = 500"

definition classifyError :: "string \<Rightarrow> ipc_kind" where
  "classifyError message = (let msg = to_lower message in
     if str_includes ''permission'' msg \<or> str_includes ''forbidden'' msg \<or> str_includes ''unauthorized'' msg then KPermission
     else if str_includes ''not found'' msg then KNotFound
     else if str_includes ''timeout'' msg \<or> str_includes ''timed out'' msg then KTimeout
     else KInternal)"

text \<open>\<open>show_error\<close> is the text of the errors of the store; the tools and the permission check throw texts of their own.\<close>

definition message_of :: "(error \<Rightarrow> string) \<Rightarrow> error \<Rightarrow> string" where
  "message_of show_error e = (case e of OtherError m \<Rightarrow> m | _ \<Rightarrow> show_error e)"

definition tool_status :: "(error \<Rightarrow> string) \<Rightarrow> error + 'a \<Rightarrow> nat" where
  "tool_status show_error r = (case r of
     Inr _ \<Rightarrow> 200
   | Inl e \<Rightarrow> (let kind = classifyError (message_of show_error e) in
       if kind = KPermission then httpStatusForKind KPermission
       else if kind = KNotFound then httpStatusForKind KNotFound
       else httpStatusForKind KInternal))"

end
