(* ===== verification/ToolProps.thy ===== *)
theory ToolProps
  imports Tools
begin

section \<open>What the tools do\<close>

text \<open>
  What every tool keeps of the store is proved once, over any store whose operations keep it: the locale \<open>keeping_store\<close>.
  It is interpreted here on the file store and in \<open>PermissionProps\<close> on the store with permissions.
\<close>

subsection \<open>Operations touch one task\<close>

definition touches :: "string \<Rightarrow> 'a m \<Rightarrow> bool" where
  "touches i f \<longleftrightarrow> (\<forall>w. consistent w \<longrightarrow> consistent (snd (f w)) \<and> (\<forall>j. j \<noteq> i \<longrightarrow> abs_store (snd (f w)) j = abs_store w j))"

lemma local_touches: "local_to {i} f \<Longrightarrow> touches i f"
  by (simp add: touches_def local_to_def local_at_def)

lemma local_write_back:
  assumes "consistent w" "abs_store w i = Some fb" "fm_id (t_fm t) = fm_id (fst fb)" "fm_status (t_fm t) = fm_status (fst fb)"
    "p = taskPath i (fm_status (fst fb))" "local_to {i} f"
  shows "local_at {i} w (andThen (write_task p t) f)"
  by (rule local_at_andThen [OF local_at_write [OF assms(1-4) _ assms(5)]]) (use assms(6) in \<open>auto intro: local_toD\<close>)

lemma local_update_body: "local_to {i} (update_body h i body)"
  unfolding local_to_def update_body_def
  by (auto intro!: local_write_back local_at_pure local_intros simp: local_at_get Let_def path_or_def split: option.split)

lemma local_update: "local_to {i} (update_task h i p)"
  unfolding local_to_def update_task_def
  by (auto intro!: local_write_back local_at_pure local_intros simp: local_at_get Let_def path_or_def split: option.split)

lemma local_block: "local_to {i} (block_task i reason)"
  unfolding local_to_def block_task_def
  by (auto intro!: local_write_back local_at_pure local_intros simp: local_at_get Let_def path_or_def split: option.split)

lemma local_unblock: "local_to {i} (unblock_task i)"
  unfolding local_to_def unblock_task_def
  by (auto intro!: local_write_back local_at_pure local_intros simp: local_at_get Let_def path_or_def split: option.split)

lemma local_remove_dependency: "local_to {i} (remove_dependency i b)"
  unfolding local_to_def remove_dependency_def
  by (auto intro!: local_write_back local_at_pure local_intros simp: local_at_get Let_def path_or_def split: option.split)

lemma local_add_dependency: "local_to {i} (add_dependency i b)"
  unfolding local_to_def
proof (intro allI impI)
  fix w assume w: "consistent w"
  show "local_at {i} w (add_dependency i b)"
    unfolding add_dependency_def
    using w hasCycle_spec [OF w, of i b]
    by (auto intro!: local_write_back local_at_pure local_intros
        simp: local_at_get local_at_bind_pure Let_def path_or_def split: option.split)
qed

lemma touches_cancel: "touches i (cancel_task i reason)"
  unfolding touches_def
proof (intro allI impI)
  fix w assume w: "consistent w"
  show "consistent (snd (cancel_task i reason w)) \<and> (\<forall>j. j \<noteq> i \<longrightarrow> abs_store (snd (cancel_task i reason w)) j = abs_store w j)"
  proof (cases "abs_store w i")
    case None
    then show ?thesis unfolding cancel_task_def with_task [OF w] using w by simp
  next
    case (Some fb)
    then obtain fm b where "abs_store w i = Some (fm, b)" by (cases fb) auto
    from cancel_refines [OF w this, of reason] show ?thesis using w by (auto split: if_splits)
  qed
qed

lemma touches_delete: "touches i (delete_task i)"
  unfolding touches_def
proof (intro allI impI)
  fix w assume "consistent w"
  then show "consistent (snd (delete_task i w)) \<and> (\<forall>j. j \<noteq> i \<longrightarrow> abs_store (snd (delete_task i w)) j = abs_store w j)"
    using delete_spec [of w i] by (auto split: option.splits)
qed

lemmas touches_intros = touches_cancel touches_delete local_to_transition [of i "{i}" for i, simplified, THEN local_touches]
  local_update_body [THEN local_touches] local_update [THEN local_touches] local_block [THEN local_touches]
  local_unblock [THEN local_touches] local_add_dependency [THEN local_touches] local_remove_dependency [THEN local_touches]

lemma reads_keep: "consistent w \<Longrightarrow> snd (get_task i w) = w" "consistent w \<Longrightarrow> snd (list_tasks lf w) = w"
  by (simp_all add: get_task_consistent list_tasks_run)

lemma collect_prefix_keeps:
  assumes "parses w"
  shows "preserves (\<lambda>v. v = w) (collect_prefix p s acc)"
proof -
  have "preserves (\<lambda>v. v = w) (read_task_at q)" for q
    using read_task_at_parses [OF assms, of "snd q" "fst q"] by (simp add: preserves_def taskPath_def)
  then show ?thesis unfolding collect_prefix_def by (intro wf_intros) auto
qed

lemma prefix_keeps: "consistent w \<Longrightarrow> snd (getByPrefix p w) = w"
proof -
  assume "consistent w"
  then have "preserves (\<lambda>v. v = w) (getByPrefix p)"
    unfolding getByPrefix_def by (intro wf_intros collect_prefix_keeps consistent_parses)
  then show ?thesis by (simp add: preserves_def)
qed

subsection \<open>Tools on any store\<close>

definition creates :: "tool_call \<Rightarrow> bool" where
  "creates call = (case call of CallDispatch _ _ _ \<Rightarrow> True | _ \<Rightarrow> False)"

locale keeping_store =
  fixes st :: store_ops and P :: "world \<Rightarrow> bool"
  assumes keeps_get: "preserves P (st_get st i)"
    and keeps_prefix: "preserves P (st_getByPrefix st i)"
    and keeps_list: "preserves P (st_list st lf)"
    and keeps_transition: "preserves P (st_transition st i s opts)"
    and keeps_cancel: "preserves P (st_cancel st i reason)"
    and keeps_updateBody: "preserves P (st_updateBody st i body)"
    and keeps_update: "preserves P (st_update st i p)"
    and keeps_addDep: "preserves P (st_addDep st i b)"
    and keeps_removeDep: "preserves P (st_removeDep st i b)"
    and keeps_block: "preserves P (st_block st i body)"
    and keeps_unblock: "preserves P (st_unblock st i)"
    and keeps_log: "preserves P (log_event ty actor k pl)"
begin

lemmas keeps = keeps_get keeps_prefix keeps_list keeps_transition keeps_cancel keeps_updateBody keeps_update keeps_addDep
  keeps_removeDep keeps_block keeps_unblock keeps_log

lemma keeps_task: "ct_store ctx = st \<Longrightarrow> preserves P (tool_task ctx i)"
  unfolding tool_task_def by (intro wf_intros) (simp_all add: keeps)

lemma keeps_step: "ct_store ctx = st \<Longrightarrow> preserves P (complete_step ctx actor t from to reason note)"
  unfolding complete_step_def logTransition_def by (intro wf_intros) (simp_all add: keeps)

lemma keeps_lifecycle: "ct_store ctx = st \<Longrightarrow> preserves P (complete_lifecycle ctx actor t)"
  unfolding complete_lifecycle_def to_in_progress_def Let_def by (intro wf_intros keeps_step)

lemma keeps_blocker: "ct_store ctx = st \<Longrightarrow> preserves P (blocker_id ctx i)"
  unfolding blocker_id_def by (intro wf_intros) (simp_all add: keeps)

lemma keeps_checks: "ct_store ctx = st \<Longrightarrow> preserves P (dispatch_checks ctx owners inp)"
  unfolding dispatch_checks_def missing_blockers_def by (intro wf_intros) (simp_all add: keeps)

lemma keeps_call:
  assumes "ct_store ctx = st" "\<not> creates call"
  shows "preserves P (call_tool ctx owners call)"
  using assms(2)
  by (cases call)
    (auto simp: call_tool_def creates_def discard_def Let_def aofTaskUpdate_def aofTaskComplete_def aofStatusReport_def aofTaskEdit_def
      aofTaskCancel_def aofTaskDepAdd_def aofTaskDepRemove_def aofTaskBlock_def aofTaskUnblock_def logTransition_def keeps assms(1)
      intro!: wf_intros keeps_task keeps_lifecycle keeps_blocker)

lemma keeps_calls:
  "ct_store ctx = st \<Longrightarrow> \<forall>call \<in> set calls. \<not> creates call \<Longrightarrow> P w \<Longrightarrow> P (run_calls ctx owners calls w)"
proof (induction calls arbitrary: w)
  case (Cons call calls)
  have "P (snd (call_tool ctx owners call w))" by (rule preservesD [OF keeps_call]) (use Cons.prems in auto)
  then show ?case using Cons by (simp add: run_calls_def)
qed (simp add: run_calls_def)

end

interpretation plain: keeping_store "file_store se" consistent for se
  by unfold_locales (auto simp: file_store_def preserves_def reads_keep prefix_keeps log_event_run touches_intros [unfolded touches_def])

subsection \<open>Completing a task\<close>

lemma file_store_simps [simp]:
  "st_get (file_store se) = get_task" "st_getByPrefix (file_store se) = getByPrefix" "st_transition (file_store se) = transition_task"
  "st_updateBody (file_store se) = update_body (se_hash se)" "st_list (file_store se) = list_tasks"
  "st_create (file_store se) = create_task (se_hash se) (se_projectId se) (se_day se) (se_suffix se)"
  by (simp_all add: file_store_def)

lemma found_task:
  assumes "tidy w" "abs_store w i = Some fb" "ct_store ctx = file_store se"
  shows "tool_task ctx i w = (Inr (loaded i fb), w)"
  using assms by (simp add: tool_task_def bind_run(1) [OF get_run] run_simps)

lemma found_bind:
  assumes "tidy w" "abs_store w i = Some fb" "ct_store ctx = file_store se"
  shows "bind (tool_task ctx i) k w = k (loaded i fb) w"
  using found_task [OF assms] by (simp add: bind_def)

lemma id_of: "tidy w \<Longrightarrow> abs_store w i = Some fb \<Longrightarrow> fm_id (fst fb) = i"
  using consistent_files(1) [OF tidy_consistent, of w i "fst fb" "snd fb"] by simp

text \<open>The frontmatter after the steps to \<open>done\<close>: intermediate steps leave no trace.\<close>

definition closed_fm :: "frontmatter \<Rightarrow> int \<Rightarrow> frontmatter" where
  "closed_fm fm ts = fm\<lparr>fm_status := Done, fm_updatedAt := ts, fm_lastTransitionAt := ts, fm_lease := None\<rparr>"

lemma closed_collapse: "closed_fm (transition_fm fm s None ts) ts = closed_fm fm ts" "transition_fm fm Done None ts = closed_fm fm ts"
  by (simp_all add: closed_fm_def transition_fm_def Let_def)

lemma closed_fm_simps [simp]:
  "fm_status (closed_fm fm ts) = Done" "fm_lease (closed_fm fm ts) = None" "fm_id (closed_fm fm ts) = fm_id fm"
  by (simp_all add: closed_fm_def)

text \<open>\<open>t\<close> stands for the task at \<open>i\<close>, as the tool sees it.\<close>

definition stands_for :: "world \<Rightarrow> string \<Rightarrow> frontmatter \<Rightarrow> task \<Rightarrow> bool" where
  "stands_for w i fm t \<longleftrightarrow> tidy w \<and> task_id t = i \<and> task_status_of t = fm_status fm"

lemma yields_step:
  assumes "stands_for w i fm t" "abs_store w i = Some (fm, b)" "ct_store ctx = file_store se" "isValidTransition (fm_status fm) to"
    and Q: "\<And>t' w'. updates w i (transition_fm fm to None (w_now w), js_trim b) w' \<Longrightarrow>
      stands_for w' i (transition_fm fm to None (w_now w)) t' \<Longrightarrow> Q t' w'"
  shows "yields (complete_step ctx actor t from to reason note) w Q"
proof -
  have w: "tidy w" "task_id t = i" using assms(1) by (simp_all add: stands_for_def)
  have i: "fm_id fm = i" using id_of [OF w(1) assms(2)] by simp
  show ?thesis
    unfolding complete_step_def assms(3) file_store_simps w(2) yields_bind
  proof (rule yields_transition [OF w(1) assms(2)])
    show "isValidTransition (fm_status (fst (fm, b))) to" using assms(4) by simp
    let ?o = "no_opts\<lparr>to_reason := Some reason, to_agent := Some actor\<rparr>"
    fix w' assume "updates w i (transition_fm (fst (fm, b)) to (to_metadataPatch ?o) (w_now w), js_trim (snd (fm, b))) w'"
    then have up: "updates w i (transition_fm fm to None (w_now w), js_trim b) w'" by (simp add: no_opts_def)
    have "Q (transition_result i to ?o (w_now w) (fm, b)) (w'\<lparr>w_events := e\<rparr>)" for e
      by (rule Q) (use up i updatesD(1) [OF up] in
        \<open>simp_all add: stands_for_def transition_result_def task_id_def task_status_of_def no_opts_def\<close>)
    then show "yields (andThen (logTransition (task_id (transition_result i to ?o (w_now w) (fm, b))) from to actor (Some note))
        (ret (transition_result i to ?o (w_now w) (fm, b)))) w' Q"
      unfolding yields_andThen logTransition_def by (intro yields_log) (simp add: yields_pure)
  qed
qed

definition closes :: "world \<Rightarrow> string \<Rightarrow> frontmatter \<times> string \<Rightarrow> task \<Rightarrow> world \<Rightarrow> bool" where
  "closes w i fb t' w' \<longleftrightarrow> updates w i (closed_fm (fst fb) (w_now w), js_trim (snd fb)) w' \<and> task_id t' = i \<and> task_status_of t' = Done"

lemma closes_after:
  assumes "updates w i (transition_fm fm s None (w_now w), js_trim b) w1"
    "closes w1 i (transition_fm fm s None (w_now w), js_trim b) t w2"
  shows "closes w i (fm, b) t w2"
  using assms updatesD(3) [OF assms(1)] by (auto simp: closes_def closed_collapse intro: updates_trans)

lemma close_review:
  assumes "stands_for w i fm t" "abs_store w i = Some (fm, b)" "ct_store ctx = file_store se" "fm_status fm = Review"
  shows "yields (complete_step ctx actor t Review Done reason note) w (closes w i (fm, b))"
  by (rule yields_step [OF assms(1-3)])
    (use assms(4) in \<open>auto simp: isValidTransition_def closes_def closed_collapse stands_for_def\<close>)

lemma close_progress:
  assumes "stands_for w i fm t" "abs_store w i = Some (fm, b)" "ct_store ctx = file_store se" "fm_status fm \<in> {InProgress, Review}"
  shows "yields (bind (if task_status_of t = InProgress then complete_step ctx actor t InProgress Review r n else ret t)
    (\<lambda>t2. complete_step ctx actor t2 Review Done r' n')) w (closes w i (fm, b))"
proof (cases "fm_status fm = InProgress")
  case False
  then show ?thesis using assms close_review [OF assms(1-3)] by (simp add: stands_for_def)
next
  case True
  then have "task_status_of t = InProgress" using assms(1) by (simp add: stands_for_def)
  then show ?thesis
    unfolding yields_bind
  proof (simp, intro yields_step [OF assms(1-3)])
    show "isValidTransition (fm_status fm) Review" using True by (simp add: isValidTransition_def)
    fix t1 w1 assume up: "updates w i (transition_fm fm Review None (w_now w), js_trim b) w1"
      and t1: "stands_for w1 i (transition_fm fm Review None (w_now w)) t1"
    show "yields (complete_step ctx actor t1 Review Done r' n') w1 (closes w i (fm, b))"
      by (rule yields_mono [OF close_review [OF t1 updatesD(4) [OF up] assms(3)] closes_after [OF up]]) simp_all
  qed
qed

lemma close_ready:
  assumes "stands_for w i fm t" "abs_store w i = Some (fm, b)" "ct_store ctx = file_store se" "fm_status fm = Ready"
    and rest: "\<And>t1 w1 fm1. stands_for w1 i fm1 t1 \<Longrightarrow> abs_store w1 i = Some (fm1, js_trim b) \<Longrightarrow> fm_status fm1 = InProgress \<Longrightarrow>
      yields (k t1) w1 (closes w1 i (fm1, js_trim b))"
  shows "yields (bind (complete_step ctx actor t from InProgress r n) k) w (closes w i (fm, b))"
  unfolding yields_bind
proof (rule yields_step [OF assms(1-3)])
  show "isValidTransition (fm_status fm) InProgress" using assms(4) by (simp add: isValidTransition_def)
  fix t1 w1 assume up: "updates w i (transition_fm fm InProgress None (w_now w), js_trim b) w1"
    and t1: "stands_for w1 i (transition_fm fm InProgress None (w_now w)) t1"
  show "yields (k t1) w1 (closes w i (fm, b))"
    by (rule yields_mono [OF rest [OF t1 updatesD(4) [OF up]] closes_after [OF up]]) simp_all
qed

lemma lifecycle_closes:
  assumes t: "stands_for w i fm t" and abs: "abs_store w i = Some (fm, b)" and ctx: "ct_store ctx = file_store se"
    and st: "fm_status fm \<in> {Ready, InProgress, Blocked, Review}"
  shows "yields (complete_lifecycle ctx actor t) w (closes w i (fm, b))"
proof -
  have status: "task_status_of t = fm_status fm" using t by (simp add: stands_for_def)
  note rest = close_progress [OF _ _ ctx]
  consider (running) "fm_status fm \<in> {InProgress, Review}" | (ready) "fm_status fm = Ready" | (blocked) "fm_status fm = Blocked"
    using st by auto
  then show ?thesis
  proof cases
    case running
    then show ?thesis
      unfolding complete_lifecycle_def to_in_progress_def Let_def using rest [OF t abs running] status by auto
  next
    case ready
    then show ?thesis
      unfolding complete_lifecycle_def to_in_progress_def Let_def status
      by (auto intro!: close_ready [OF t abs ctx ready] rest)
  next
    case blocked
    show ?thesis
      unfolding complete_lifecycle_def to_in_progress_def Let_def status blocked
    proof (simp add: bind_assoc, subst yields_bind, rule yields_step [OF t abs ctx])
      show "isValidTransition (fm_status fm) Ready" using blocked by (simp add: isValidTransition_def)
      fix t1 w1 assume up: "updates w i (transition_fm fm Ready None (w_now w), js_trim b) w1"
        and t1: "stands_for w1 i (transition_fm fm Ready None (w_now w)) t1"
      note after = close_ready [OF t1 updatesD(4) [OF up] ctx _ rest]
      show "yields (bind (complete_step ctx actor t1 (task_status_of t1) InProgress ''manual_completion_lifecycle_guard''
          ''Manual completion: enforcing lifecycle consistency'')
        (\<lambda>t1. bind (if task_status_of t1 = InProgress
           then complete_step ctx actor t1 InProgress Review ''manual_completion_review'' ''Manual completion: moving to review''
           else ret t1) (\<lambda>t2. complete_step ctx actor t2 Review Done ''task_complete'' ''task_complete''))) w1 (closes w i (fm, b))"
        by (rule yields_mono [OF after closes_after [OF up]]) simp_all
    qed
  qed
qed

lemma lifecycle_refused:
  assumes t: "stands_for w i fm t" and abs: "abs_store w i = Some (fm, b)" and ctx: "ct_store ctx = file_store se"
    and st: "fm_status fm \<in> {Backlog, Cancelled, Deadletter}"
  shows "complete_lifecycle ctx actor t w = (Inl (InvalidTransition (fm_status fm) InProgress i), w)"
proof -
  have w: "tidy w" "task_id t = i" "task_status_of t = fm_status fm" using t by (simp_all add: stands_for_def)
  have "transition_task i InProgress opts w = (Inl (InvalidTransition (fm_status fm) InProgress i), w)" for opts
    using transition_task_cases(3) [OF tidy_consistent [OF w(1)] abs, of InProgress opts] st by (auto simp: isValidTransition_def)
  then show ?thesis
    using st w by (auto simp: complete_lifecycle_def to_in_progress_def Let_def complete_step_def ctx bind_def run_simps)
qed

lemma update_body_run:
  assumes "tidy w" "abs_store w i = Some (fm, b)"
  shows "\<exists>t w'. update_body h i body w = (Inr t, w') \<and>
    updates w i (fm\<lparr>fm_contentHash := Some (h body), fm_updatedAt := w_now w\<rparr>, js_trim body) w' \<and> task_id t = i \<and> task_status_of t = fm_status fm"
proof -
  let ?t = "(loaded i (fm, b))\<lparr>t_body := body, t_fm := fm\<lparr>fm_contentHash := Some (h body), fm_updatedAt := w_now w\<rparr>\<rparr>"
  from write_task_tidy [OF assms, of ?t] obtain w' where
    "write_task (taskPath i (fm_status fm)) ?t w = (Inr (), w')" "updates w i (t_fm ?t, js_trim body) w'"
    by (auto simp: updates_def)
  then show ?thesis
    using assms id_of [OF assms]
    by (simp add: update_body_def get_run now_def bind_def Let_def path_or_def andThen_def run_simps
        task_id_def task_status_of_def)
qed

definition summarised :: "store_env \<Rightarrow> complete_input \<Rightarrow> frontmatter \<times> string \<Rightarrow> int \<Rightarrow> frontmatter \<times> string" where
  "summarised se inp fb ts =
     (if truthy_str (ci_summary inp) then
        let body = completion_body (loaded (ci_taskId inp) fb) (the (ci_summary inp)) in
        ((fst fb)\<lparr>fm_contentHash := Some (se_hash se body), fm_updatedAt := ts\<rparr>, body)
      else fb)"

lemma summary_written:
  assumes "tidy w" "abs_store w (ci_taskId inp) = Some (fm, b)" "ct_store ctx = file_store se"
    and t: "t = loaded (ci_taskId inp) (fm, b)"
  shows "\<exists>t1 w1 b1. (if truthy_str (ci_summary inp)
      then st_updateBody (ct_store ctx) (task_id t) (completion_body t (the (ci_summary inp))) else ret t) w = (Inr t1, w1) \<and>
    stands_for w1 (ci_taskId inp) (fst (summarised se inp (fm, b) (w_now w))) t1 \<and>
    abs_store w1 (ci_taskId inp) = Some (fst (summarised se inp (fm, b) (w_now w)), b1) \<and>
    js_trim b1 = js_trim (snd (summarised se inp (fm, b) (w_now w))) \<and> w_now w1 = w_now w \<and>
    fm_status (fst (summarised se inp (fm, b) (w_now w))) = fm_status fm \<and>
    (if truthy_str (ci_summary inp)
     then updates w (ci_taskId inp) (fst (summarised se inp (fm, b) (w_now w)), js_trim (snd (summarised se inp (fm, b) (w_now w)))) w1
     else w1 = w)"
proof (cases "truthy_str (ci_summary inp)")
  case True
  have "task_id t = ci_taskId inp" using id_of [OF assms(1,2)] by (simp add: t task_id_def)
  moreover from update_body_run [OF assms(1,2), of "se_hash se" "completion_body t (the (ci_summary inp))"] obtain t1 w1 where
    u: "update_body (se_hash se) (ci_taskId inp) (completion_body t (the (ci_summary inp))) w = (Inr t1, w1)"
    "updates w (ci_taskId inp) (fm\<lparr>fm_contentHash := Some (se_hash se (completion_body t (the (ci_summary inp)))), fm_updatedAt := w_now w\<rparr>,
       js_trim (completion_body t (the (ci_summary inp)))) w1" "task_id t1 = ci_taskId inp" "task_status_of t1 = fm_status fm" by blast
  ultimately show ?thesis
    using True updatesD [OF u(2)] by (simp add: assms(3) summarised_def Let_def t [symmetric] stands_for_def)
next
  case False
  then show ?thesis
    using assms(1,2) id_of [OF assms(1,2)]
    by (simp add: summarised_def run_simps stands_for_def t task_id_def task_status_of_def)
qed

text \<open>How the tool ends a call after the lifecycle, and the ways a call can go, for any store.\<close>

definition completed_answer :: "string \<Rightarrow> task \<Rightarrow> task_answer m" where
  "completed_answer actor t = andThen (log_event ''task.completed'' actor (Some (task_id t)) [])
     (ret \<lparr>an_envelope = compactResponse (''Task '' @ task_id t @ '' completed successfully'') (id_status t),
           an_taskId = task_id t, an_status = task_status_of t\<rparr>)"

lemma complete_run:
  assumes "\<And>k :: task \<Rightarrow> task_answer m. bind (tool_task ctx (ci_taskId inp)) k w = k t w"
  shows "task_status_of t = Done \<Longrightarrow> \<exists>e. aofTaskComplete ctx inp w = (Inl e, w)"
    and "task_status_of t \<noteq> Done \<Longrightarrow> task_status_of t1 = task_status_of t \<Longrightarrow>
      (if truthy_str (ci_summary inp)
       then st_updateBody (ct_store ctx) (task_id t) (completion_body t (the (ci_summary inp))) else ret t) w = (Inr t1, w1) \<Longrightarrow>
      aofTaskComplete ctx inp w = bind (complete_lifecycle ctx (actor_of (ci_actor inp)) t1) (completed_answer (actor_of (ci_actor inp))) w1"
  unfolding aofTaskComplete_def Let_def completed_answer_def by (auto simp: assms run_simps bind_run(1))

lemma complete_closed:
  assumes "aofTaskComplete ctx inp w = bind (complete_lifecycle ctx actor t1) (completed_answer actor) w1"
    "yields (complete_lifecycle ctx actor t1) w1 (closes w1 i (fm1, b1))" "w_now w1 = w_now w"
    "if c then updates w i (fm1, js_trim b1) w1 else w1 = w"
  shows "\<exists>ans w'. aofTaskComplete ctx inp w = (Inr ans, w') \<and> an_taskId ans = i \<and> an_status ans = Done \<and>
    updates w i (closed_fm fm1 (w_now w), js_trim b1) w'"
proof -
  obtain t2 w2 where l: "complete_lifecycle ctx actor t1 w1 = (Inr t2, w2)" "closes w1 i (fm1, b1) t2 w2"
    using assms(2) by (auto simp: yields_def)
  then have "updates w i (closed_fm fm1 (w_now w), js_trim b1) w2"
    using assms(3,4) by (auto simp: closes_def intro: updates_trans split: if_splits)
  moreover have "aofTaskComplete ctx inp w = completed_answer actor t2 w2" using assms(1) l(1) by (auto simp: bind_run(1))
  ultimately show ?thesis
    using l(2) by (auto simp: completed_answer_def andThen_def bind_def log_event_run run_simps closes_def)
qed


subsection \<open>Dispatching a new task\<close>

definition accepts :: "tool_ctx \<Rightarrow> owners \<Rightarrow> dispatch_input \<Rightarrow> world \<Rightarrow> bool" where
  "accepts ctx owners inp w \<longleftrightarrow> js_trim (di_title inp) \<noteq> [] \<and> js_trim (dispatch_brief inp) \<noteq> [] \<and>
     (case routing_target owners (ct_projectId ctx) inp of (agent, team, role) \<Rightarrow> truthy_str agent \<or> truthy_str team \<or> truthy_str role) \<and>
     (\<forall>d \<in> set (or_else (di_dependsOn inp) []). abs_store w d \<noteq> None) \<and>
     (case di_notify inp of None \<Rightarrow> True | Some raw \<Rightarrow> str_field ''kind'' raw \<noteq> [])"

lemma missing_run:
  assumes "consistent w" "ct_store ctx = file_store se"
  shows "missing_blockers ctx ids w = (Inr (filter (\<lambda>i. abs_store w i = None) ids), w)"
proof -
  have "fold_m (\<lambda>i missing. bind (get_task i) (\<lambda>t. ret (if t = None then missing @ [i] else missing))) ids acc w =
      (Inr (acc @ filter (\<lambda>i. abs_store w i = None) ids), w)" for acc
    by (induction ids arbitrary: acc) (simp_all add: bind_def run_simps get_task_consistent [OF assms(1)])
  from this [of "[]"] show ?thesis by (simp add: missing_blockers_def assms(2))
qed

definition delivery_of :: "dispatch_input \<Rightarrow> (sub_delivery \<times> string option) option" where
  "delivery_of inp = (case di_notify inp of None \<Rightarrow> None | Some raw \<Rightarrow> Some (projr (normalizeCompletionDelivery raw)))"

lemma checks_run:
  assumes "consistent w" "ct_store ctx = file_store se"
  shows "accepts ctx owners inp w \<Longrightarrow> dispatch_checks ctx owners inp w = (Inr (routing_target owners (ct_projectId ctx) inp, delivery_of inp), w)"
    and "\<not> accepts ctx owners inp w \<Longrightarrow> \<exists>e. dispatch_checks ctx owners inp w = (Inl e, w)"
proof -
  obtain agent team role where t: "routing_target owners (ct_projectId ctx) inp = (agent, team, role)" by (metis prod_cases3)
  note simps = dispatch_checks_def accepts_def t bind_def missing_run [OF assms] run_simps normalizeCompletionDelivery_def Let_def delivery_of_def
  show "accepts ctx owners inp w \<Longrightarrow> dispatch_checks ctx owners inp w = (Inr (routing_target owners (ct_projectId ctx) inp, delivery_of inp), w)"
    by (auto simp: simps filter_empty_conv split: option.splits)
  show "\<not> accepts ctx owners inp w \<Longrightarrow> \<exists>e. dispatch_checks ctx owners inp w = (Inl e, w)"
    by (auto simp: simps filter_empty_conv split: option.splits)
qed

lemma subs_frame: "consistent (put_subs d subs w) = consistent w" "abs_store (put_subs d subs w) = abs_store w"
  using files_frame [of "put_subs d subs w" w] by (simp_all add: put_subs_def)

lemma create_sub_ok:
  assumes "consistent w" "abs_store w i \<noteq> None"
  shows "\<exists>s w'. create_sub u i a g d w = (Inr s, w') \<and> consistent w' \<and> abs_store w' = abs_store w"
  using assms
  by (auto simp: create_sub_def taskDirResolver_def readSubscriptionsFile_def writeSubscriptionsFile_def bind_def run_simps
      get_task_consistent now_def Let_def andThen_def subs_frame)

lemma list_subs_ok:
  assumes "consistent w" "abs_store w i \<noteq> None"
  shows "\<exists>xs. list_subs i st w = (Inr xs, w)"
  using assms
  by (auto simp: list_subs_def taskDirResolver_def readSubscriptionsFile_def bind_def run_simps get_task_consistent split: option.split)

definition known_subscriber :: "tool_ctx \<Rightarrow> dispatch_input \<Rightarrow> bool" where
  "known_subscriber ctx inp \<longleftrightarrow> di_subscribe inp = None \<or>
     (case ct_chart ctx of NoChart \<Rightarrow> True | ChartUnreadable \<Rightarrow> False | ChartAgents agents \<Rightarrow> actor_of (di_actor inp) \<in> set agents)"

lemma subscribe_run:
  assumes "consistent w" "abs_store w i \<noteq> None"
  shows "known_subscriber ctx inp \<Longrightarrow> \<exists>s w'. subscribe_dispatched ctx u inp i w = (Inr s, w') \<and> consistent w' \<and> abs_store w' = abs_store w \<and>
      (s \<noteq> None \<longleftrightarrow> di_subscribe inp \<noteq> None)"
    and "\<not> known_subscriber ctx inp \<Longrightarrow> \<exists>e. subscribe_dispatched ctx u inp i w = (Inl e, w)"
proof -
  show "\<exists>e. subscribe_dispatched ctx u inp i w = (Inl e, w)" if "\<not> known_subscriber ctx inp"
    using that by (auto simp: known_subscriber_def subscribe_dispatched_def validateSubscriberAgent_def Let_def andThen_def bind_def run_simps
        split: option.splits org_agents.splits)
  show "\<exists>s w'. subscribe_dispatched ctx u inp i w = (Inr s, w') \<and> consistent w' \<and> abs_store w' = abs_store w \<and>
      (s \<noteq> None \<longleftrightarrow> di_subscribe inp \<noteq> None)" if k: "known_subscriber ctx inp"
  proof (cases "di_subscribe inp")
    case None
    then show ?thesis using assms by (simp add: subscribe_dispatched_def run_simps)
  next
    case (Some g)
    let ?a = "actor_of (di_actor inp)"
    have v: "validateSubscriberAgent (ct_chart ctx) ?a = ret ()"
      using k Some by (auto simp: known_subscriber_def validateSubscriberAgent_def split: org_agents.splits)
    obtain xs where xs: "list_subs i (Some SubActive) w = (Inr xs, w)" using list_subs_ok [OF assms] by blast
    obtain s w' where s: "create_sub u i ?a g None w = (Inr s, w')" "consistent w'" "abs_store w' = abs_store w"
      using create_sub_ok [OF assms] by blast
    show ?thesis
      using assms(1) s
      by (cases "find (\<lambda>s. sb_subscriberId s = ?a \<and> sb_granularity s = g) xs")
        (simp_all add: subscribe_dispatched_def Some v bind_def xs run_simps Let_def)
  qed
qed

lemma notify_run:
  assumes "consistent w" "abs_store w i \<noteq> None"
  shows "\<exists>s w'. notify_dispatched u delivery i w = (Inr s, w') \<and> consistent w' \<and> abs_store w' = abs_store w \<and> (s \<noteq> None \<longleftrightarrow> delivery \<noteq> None)"
proof (cases delivery)
  case None
  then show ?thesis using assms by (simp add: notify_dispatched_def run_simps)
next
  case (Some d)
  obtain s w' where "create_sub u i (or_else (snd d) (''notify:'' @ sd_kind (fst d))) OnCompletion (Some (fst d)) w = (Inr s, w')"
    "consistent w'" "abs_store w' = abs_store w"
    using create_sub_ok [OF assms] by blast
  then show ?thesis by (auto simp: notify_dispatched_def Some bind_def run_simps case_prod_beta)
qed

text \<open>The frontmatter of the task a dispatch asks for.\<close>

definition dispatched_fm :: "store_env \<Rightarrow> tool_ctx \<Rightarrow> owners \<Rightarrow> dispatch_input \<Rightarrow> int \<Rightarrow> frontmatter" where
  "dispatched_fm se ctx owners inp ts =
     new_frontmatter (se_hash se) (se_projectId se) (dispatch_opts inp (dispatch_brief inp) (routing_target owners (ct_projectId ctx) inp)) None
       (nextTaskId (se_day se) (se_suffix se 999) ts) ts"

lemma dispatched_fm_simps:
  "fm_status (dispatched_fm se ctx owners inp ts) = Ready" "fm_dependsOn (dispatched_fm se ctx owners inp ts) = or_else (di_dependsOn inp) []"
  "fm_id (dispatched_fm se ctx owners inp ts) = nextTaskId (se_day se) (se_suffix se 999) ts"
  by (simp_all add: dispatched_fm_def new_frontmatter_def dispatch_opts_def or_else_def case_prod_beta)

lemma accepted_target: "accepts ctx owners inp w \<Longrightarrow> has_target (fm_routing (dispatched_fm se ctx owners inp ts))"
  by (auto simp: accepts_def dispatched_fm_def new_frontmatter_def dispatch_opts_def create_routing_def has_target_def split: prod.splits)

lemma create_dispatched:
  assumes cons: "consistent w" and fm: "fm = dispatched_fm se ctx owners inp (w_now w)" and fresh: "abs_store w (fm_id fm) = None"
    and opts: "opts = dispatch_opts inp (dispatch_brief inp) (routing_target owners (ct_projectId ctx) inp)"
  shows "if schema_ok fm
    then \<exists>t w'. create_task (se_hash se) (se_projectId se) (se_day se) (se_suffix se) opts w = (Inr t, w') \<and> t_fm t = fm \<and> consistent w' \<and>
      abs_store w' = (abs_store w)(fm_id fm \<mapsto> (fm, js_trim (dispatch_brief inp)))
    else \<exists>e. create_task (se_hash se) (se_projectId se) (se_day se) (se_suffix se) opts w = (Inl e, w)"
proof -
  define n where "n = (999 :: nat)"
  let ?i = "nextTaskId (se_day se) (se_suffix se n) (w_now w)"
  let ?t = "\<lparr>t_fm = fm, t_body = js_trim (dispatch_brief inp), t_path = None\<rparr>" and ?p = "taskPath ?i Ready"
  have o: "cr_initialStatus opts = Some Ready" "cr_body opts = Some (js_trim (dispatch_brief inp))" "cr_workflow opts = None"
    by (simp_all add: opts dispatch_opts_def case_prod_beta)
  have fm': "new_frontmatter (se_hash se) (se_projectId se) opts None ?i (w_now w) = fm" by (simp add: fm dispatched_fm_def opts n_def)
  have i: "fm_id fm = ?i" "fm_status fm = Ready" by (simp_all add: fm dispatched_fm_simps n_def)
  have run: "create_task (se_hash se) (se_projectId se) (se_day se) (se_suffix se) opts =
      create_loop (se_hash se) (se_projectId se) (se_day se) (se_suffix se) opts None (Suc n)"
  proof -
    have thousand: "(1000 :: nat) = Suc n" by (simp add: n_def)
    show ?thesis unfolding create_task_def resolve_workflow_def o option.case sum.case by (subst thousand) (rule refl)
  qed
  have "abs_store w ?i = None" using fresh i(1) by simp
  then have none: "file_at w (taskPath ?i s) = None" for s using abs_store_None [OF cons] by blast
  show ?thesis
  proof (cases "schema_ok fm")
    case False
    then show ?thesis by (simp add: run Let_def now_def run_simps fm')
  next
    case True
    obtain d where d: "ensureTaskDirs ?i Ready (put_file ?p ?t w) = (Inr (), (put_file ?p ?t w)\<lparr>w_dirs := d\<rparr>)"
      using ensure_dirs_run by blast
    have "consistent (put_file ?p ?t w) \<and> abs_store (put_file ?p ?t w) = (abs_store w)(?i \<mapsto> (fm, js_trim (t_body ?t)))"
      by (rule consistent_replace [OF cons, where f = "\<lparr>fi_content = Parsed fm (js_trim (t_body ?t)), fi_mtime = w_now w\<rparr>"])
        (use cons none i in \<open>auto simp: consistent_def\<close>)
    then show ?thesis
      using True none [of Ready] d i
      by (simp add: run Let_def now_def run_simps fm' o or_else_def write_task_def andThen_def bind_def)
  qed
qed

lemma log_continues: "\<exists>ev. \<forall>k. andThen (log_event ty a i p) k w = k (w\<lparr>w_events := ev\<rparr>)"
  by (auto simp: log_event_def)

lemma finish_run:
  assumes "consistent w" "abs_store w (task_id t) \<noteq> None"
  shows "\<exists>r w'. finish_dispatch ctx u v inp delivery t w = (r, w') \<and> consistent w' \<and> abs_store w' = abs_store w \<and>
    (if known_subscriber ctx inp
     then \<exists>ans. r = Inr ans \<and> ds_taskId ans = task_id t \<and> ds_status ans = task_status_of t \<and>
       (ds_subscriptionId ans \<noteq> None \<longleftrightarrow> di_subscribe inp \<noteq> None) \<and> (ds_notificationId ans \<noteq> None \<longleftrightarrow> delivery \<noteq> None)
     else \<exists>e. r = Inl e)"
proof -
  obtain ev where ev: "\<And>k. andThen (log_event ''task.created'' (actor_of (di_actor inp)) (Some (task_id t))
     [(''title'', JStr (fm_title (t_fm t))), (''priority'', JStr (priority_str (fm_priority (t_fm t)))),
      (''routing'', routing_json (fm_routing (t_fm t)))]) (k :: dispatch_answer m) w = k (w\<lparr>w_events := ev\<rparr>)" using log_continues by blast
  let ?w2 = "w\<lparr>w_events := ev\<rparr>"
  have w2: "consistent ?w2" "abs_store ?w2 = abs_store w" "abs_store ?w2 (task_id t) \<noteq> None" using assms by simp_all
  note start = finish_dispatch_def ev
  show ?thesis
  proof (cases "known_subscriber ctx inp")
    case False
    from subscribe_run(2) [OF w2(1,3) False, of u] obtain e where "subscribe_dispatched ctx u inp (task_id t) ?w2 = (Inl e, ?w2)" by blast
    then have "finish_dispatch ctx u v inp delivery t w = (Inl e, ?w2)" unfolding start by (rule bind_run(2))
    then show ?thesis using False w2 by simp
  next
    case True
    from subscribe_run(1) [OF w2(1,3) True, of u] obtain s w3 where
      s: "subscribe_dispatched ctx u inp (task_id t) ?w2 = (Inr s, w3)" "consistent w3" "abs_store w3 = abs_store ?w2"
      "s \<noteq> None \<longleftrightarrow> di_subscribe inp \<noteq> None" by blast
    with w2(3) have "abs_store w3 (task_id t) \<noteq> None" by simp
    from notify_run [OF s(2) this, of v delivery] obtain n w4 where
      n: "notify_dispatched v delivery (task_id t) w3 = (Inr n, w4) \<and> consistent w4 \<and> abs_store w4 = abs_store w3 \<and>
        (n \<noteq> None \<longleftrightarrow> delivery \<noteq> None)" by (elim exE)
    have "finish_dispatch ctx u v inp delivery t w =
      (Inr \<lparr>ds_envelope = compactResponse (''Task '' @ task_id t @ '' created and ready for assignment'') (id_status t),
           ds_taskId = task_id t, ds_status = task_status_of t, ds_filePath = path_or t (taskPath (task_id t) (task_status_of t)),
           ds_subscriptionId = s, ds_notificationId = n\<rparr>, w4)"
      unfolding start by (simp only: bind_def s(1) n [THEN conjunct1] prod.case sum.case ret_def)
    then show ?thesis using True s n w2(2) by simp
  qed
qed


subsection \<open>Examples\<close>

definition sample_env :: store_env where
  "sample_env = \<lparr>se_hash = (\<lambda>s. ''h''), se_projectId = None, se_day = (\<lambda>ts. ''2026-02-03''), se_suffix = (\<lambda>n. ''aBcDeFgH'')\<rparr>"

definition plain_ctx :: tool_ctx where
  "plain_ctx = \<lparr>ct_store = file_store sample_env, ct_projectId = None, ct_chart = NoChart\<rparr>"

lemma plain_ctx_store: "ct_store plain_ctx = file_store sample_env" "ct_projectId plain_ctx = None" "ct_chart plain_ctx = NoChart"
  by (simp_all add: plain_ctx_def)

text \<open>A blocked task is closed with a summary; a task of the backlog keeps the summary although the call fails.\<close>

definition completion :: complete_input where
  "completion = \<lparr>ci_taskId = sample_id, ci_actor = None, ci_summary = Some ''ok''\<rparr>"


definition wanted :: dispatch_input where
  "wanted = \<lparr>di_title = ''title'', di_brief = ''brief'', di_description = None, di_agent = Some ''dev'', di_team = None, di_role = None,
     di_priority = None, di_dependsOn = None, di_parentId = None, di_metadata = None, di_tags = None, di_actor = None, di_project = None,
     di_subscribe = Some OnCompletion, di_notify = None, di_timeoutMs = None\<rparr>"


end
