(* ===== verification/PermissionProps.thy ===== *)
theory PermissionProps
  imports Permissions ToolProps
begin

section \<open>What permissions guarantee\<close>

text \<open>
  The wrapped operations touch a task only when the agent is in charge of it. So no sequence of tool calls changes a task the
  agent is not in charge of, and one that may not create tasks creates none.
\<close>

subsection \<open>Being in charge\<close>

definition in_charge :: "org_chart \<Rightarrow> string \<Rightarrow> frontmatter \<Rightarrow> bool" where
  "in_charge c a fm = (case rf_role (determineRole a c) of
     Admin \<Rightarrow> True
   | UnknownAgent \<Rightarrow> False
   | Worker \<Rightarrow> assignee fm = Some a
   | Orchestrator \<Rightarrow>
       (let team = rt_team (fm_routing fm) in
        if truthy_str team then the team \<in> set (rf_orchestratorTeams (determineRole a c)) else truthy_str (assignee fm)))"

lemma check_in_charge:
  assumes "checkPermission operation a t (determineRole a c) = Inr ()" "operation \<notin> {''list'', ''get'', ''create''}"
    "rf_role (determineRole a c) \<noteq> Admin"
  obtains task where "t = Some task" "in_charge c a (t_fm task)"
  using assms unfolding checkPermission_def in_charge_def
  by (cases "rf_role (determineRole a c)"; cases t) (auto simp: Let_def split: if_splits)

lemma create_needs_role:
  "checkPermission ''create'' a None (determineRole a c) = Inr () \<longleftrightarrow> rf_role (determineRole a c) \<in> {Admin, Orchestrator}"
  by (cases "rf_role (determineRole a c)") (auto simp: checkPermission_def)

text \<open>What is there at an id and is none of the agent's business.\<close>

definition outside :: "org_chart \<Rightarrow> string \<Rightarrow> (frontmatter \<times> string) option \<Rightarrow> bool" where
  "outside c a entry = (case entry of None \<Rightarrow> rf_role (determineRole a c) \<noteq> Admin | Some fb \<Rightarrow> \<not> in_charge c a (fst fb))"

definition confined :: "org_chart \<Rightarrow> string \<Rightarrow> world \<Rightarrow> world \<Rightarrow> bool" where
  "confined c a w0 w \<longleftrightarrow> consistent w \<and> (\<forall>j. outside c a (abs_store w0 j) \<longrightarrow> abs_store w j = abs_store w0 j)"

lemma confined_same: "confined c a w0 w \<Longrightarrow> consistent w' \<Longrightarrow> abs_store w' = abs_store w \<Longrightarrow> confined c a w0 w'"
  by (simp add: confined_def)

lemma confined_reads:
  "(\<And>w. consistent w \<Longrightarrow> snd (f w) = w) \<Longrightarrow> preserves (confined c a w0) f"
  by (simp add: preserves_def confined_def)

lemma confined_local: "local_to {} f \<Longrightarrow> preserves (confined c a w0) f"
  unfolding preserves_def
proof (intro allI impI)
  fix w assume l: "local_to {} f" and w: "confined c a w0 w"
  then have "local_at {} w f" by (auto simp: confined_def intro: local_toD)
  then show "confined c a w0 (snd (f w))" using w by (auto simp: confined_def local_at_def)
qed

lemma confined_log [wf_intros]: "preserves (confined c a w0) (log_event ty actor i p)"
  by (rule confined_local) (intro local_intros)

lemma confined_logTransition [wf_intros]: "preserves (confined c a w0) (logTransition i from to actor reason)"
  unfolding logTransition_def by (rule confined_log)

lemma confined_demand [wf_intros]:
  "(check = Inr () \<Longrightarrow> preserves P f) \<Longrightarrow> preserves P (demand check f)"
  by (auto simp: demand_def intro!: wf_intros split: sum.split)

lemma admin_in_charge: "rf_role (determineRole a c) = Admin \<Longrightarrow> \<not> outside c a entry"
  by (cases entry) (simp_all add: outside_def in_charge_def)

lemma confined_checked [wf_intros]:
  assumes operation: "operation \<notin> {''list'', ''get'', ''create''}" and f: "touches i f"
  shows "preserves (confined c a w0) (checked (file_store se) c a operation i f)"
  unfolding preserves_def
proof (intro allI impI)
  fix w assume w: "confined c a w0 w"
  then have cons: "consistent w" by (simp add: confined_def)
  let ?check = "checkPermission operation a (map_option (loaded i) (abs_store w i)) (determineRole a c)"
  have run: "checked (file_store se) c a operation i f w = demand ?check f w"
    by (simp add: checked_def file_store_def bind_def get_task_consistent [OF cons])
  show "confined c a w0 (snd (checked (file_store se) c a operation i f w))"
  proof (cases ?check)
    case (Inl reason)
    then show ?thesis unfolding run using w by (simp add: demand_def run_simps)
  next
    case (Inr u)
    have "\<not> outside c a (abs_store w0 i)"
    proof (cases "rf_role (determineRole a c) = Admin")
      case False
      have "?check = Inr ()" using Inr by simp
      from check_in_charge [OF this operation False] obtain task where
        "map_option (loaded i) (abs_store w i) = Some task" "in_charge c a (t_fm task)" by blast
      then have "\<not> outside c a (abs_store w i)" by (auto simp: outside_def)
      then show ?thesis using w by (auto simp: confined_def)
    qed (rule admin_in_charge)
    then have "j \<noteq> i" if "outside c a (abs_store w0 j)" for j using that by auto
    then show ?thesis
      unfolding run using Inr w cons f by (simp add: demand_def confined_def touches_def)
  qed
qed

lemma confined_checked_read [wf_intros]:
  "(\<And>w. consistent w \<Longrightarrow> snd (f w) = w) \<Longrightarrow> preserves (confined c a w0) (checked_read c a f)"
  unfolding checked_read_def by (intro wf_intros confined_reads)

interpretation permitted: keeping_store "permission_store c a (file_store se)" "confined c a w0" for c a se w0
proof unfold_locales
  note simps = permission_store_def Let_def file_store_def
  show "preserves (confined c a w0) (st_get (permission_store c a (file_store se)) i)" for i
    by (auto simp: simps reads_keep intro!: confined_checked_read)
  show "preserves (confined c a w0) (st_getByPrefix (permission_store c a (file_store se)) i)" for i
    by (auto simp: simps prefix_keeps intro!: confined_checked_read)
  show "preserves (confined c a w0) (st_list (permission_store c a (file_store se)) lf)" for lf
    by (auto simp: simps reads_keep demand_def run_simps intro!: confined_reads split: sum.split)
  show "preserves (confined c a w0) (log_event ty actor k pl)" for ty actor k pl by (rule confined_log)
qed (auto simp: permission_store_def Let_def intro!: confined_checked, simp_all add: file_store_def touches_intros)

text \<open>A tool that creates a task is stopped before it changes anything when the agent may not create tasks.\<close>

lemma dispatch_refused:
  assumes "ct_store ctx = permission_store c a (file_store se)" "rf_role (determineRole a c) \<in> {Worker, UnknownAgent}"
  shows "preserves (confined c a w0) (aofDispatch ctx owners u1 u2 inp)"
proof -
  obtain reason where refused: "checkPermission ''create'' a None (determineRole a c) = Inl reason"
    using create_needs_role [of a c] assms(2) by (cases "checkPermission ''create'' a None (determineRole a c)") auto
  have "aofDispatch ctx owners u1 u2 inp = bind (dispatch_checks ctx owners inp) (\<lambda>(target, delivery). throw (OtherError reason))"
    unfolding aofDispatch_def assms(1) by (simp add: permission_store_def Let_def demand_def refused)
  then show ?thesis using permitted.keeps_checks [OF assms(1)] by (auto intro!: wf_intros)
qed


subsection \<open>A worker completes a task\<close>

lemma checked_at:
  assumes "tidy w" "abs_store w i = Some fb"
  shows "checked (file_store se) c a operation i f w = demand (checkPermission operation a (Some (loaded i fb)) (determineRole a c)) f w"
  using assms by (simp add: checked_def bind_def get_run)

lemma worker_check:
  assumes "rf_role ri = Worker" "assignee (t_fm t) = Some a"
  shows "operation \<in> {''get'', ''close'', ''update'', ''updateBody''} \<Longrightarrow> checkPermission operation a (Some t) ri = Inr ()"
    and "\<exists>reason. checkPermission ''transition'' a (Some t) ri = Inl reason"
  using assms by (auto simp: checkPermission_def Let_def)

lemma permission_simps [simp]:
  "st_get (permission_store c a st) i = checked_read c a (st_get st i)"
  "st_updateBody (permission_store c a st) i body = checked st c a ''updateBody'' i (st_updateBody st i body)"
  "st_transition (permission_store c a st) i s opts =
     checked st c a (if s = Done then ''close'' else ''transition'') i (st_transition st i s opts)"
  by (simp_all add: permission_store_def Let_def)

text \<open>A worker at a task of his own.\<close>

definition own_task :: "org_chart \<Rightarrow> string \<Rightarrow> world \<Rightarrow> string \<Rightarrow> frontmatter \<times> string \<Rightarrow> bool" where
  "own_task c a w i fb \<longleftrightarrow> tidy w \<and> abs_store w i = Some fb \<and> rf_role (determineRole a c) = Worker \<and> assignee (fst fb) = Some a"

lemma own_check:
  assumes "own_task c a w i fb"
  shows "operation \<in> {''get'', ''close'', ''update'', ''updateBody''} \<Longrightarrow> checked (file_store se) c a operation i f w = f w"
    and "\<exists>reason. checked (file_store se) c a ''transition'' i f w = (Inl (OtherError reason), w)"
proof -
  have own: "tidy w" "abs_store w i = Some fb" "rf_role (determineRole a c) = Worker" "assignee (t_fm (loaded i fb)) = Some a"
    using assms by (simp_all add: own_task_def)
  show "operation \<in> {''get'', ''close'', ''update'', ''updateBody''} \<Longrightarrow> checked (file_store se) c a operation i f w = f w"
    using worker_check(1) [OF own(3,4), of operation] by (simp add: checked_at [OF own(1,2)] demand_def)
  show "\<exists>reason. checked (file_store se) c a ''transition'' i f w = (Inl (OtherError reason), w)"
    using worker_check(2) [OF own(3,4)] by (auto simp: checked_at [OF own(1,2)] demand_def run_simps)
qed

lemma own_found:
  assumes "own_task c a w i fb" "ct_store ctx = permission_store c a (file_store se)"
  shows "bind (tool_task ctx i) k w = k (loaded i fb) w"
proof -
  have own: "tidy w" "abs_store w i = Some fb" "rf_role (determineRole a c) = Worker" "assignee (t_fm (loaded i fb)) = Some a"
    using assms by (simp_all add: own_task_def)
  show ?thesis
    using worker_check(1) [OF own(3,4), of "''get''"]
    by (simp add: tool_task_def assms(2) checked_read_def bind_def get_run [OF own(1)] own(2) run_simps demand_def)
qed

lemma own_step_refused:
  assumes "own_task c a w i fb" "ct_store ctx = permission_store c a (file_store se)" "task_id t = i" "to \<noteq> Done"
  shows "\<exists>reason. complete_step ctx actor t from to r n w = (Inl (OtherError reason), w)"
  using own_check(2) [OF assms(1), where f = "transition_task i to (no_opts\<lparr>to_reason := Some r, to_agent := Some actor\<rparr>)" and se = se]
    assms(2-4) by (auto simp: complete_step_def bind_run(2))

lemma own_lifecycle:
  assumes own: "own_task c a w i (fm, b)" and t: "stands_for w i fm t" and ctx: "ct_store ctx = permission_store c a (file_store se)"
  shows "fm_status fm = Review \<Longrightarrow> yields (complete_lifecycle ctx actor t) w (closes w i (fm, b))"
    and "fm_status fm \<notin> {Review, Done} \<Longrightarrow> \<exists>reason. complete_lifecycle ctx actor t w = (Inl (OtherError reason), w)"
proof -
  have id: "task_id t = i" "task_status_of t = fm_status fm" using t by (simp_all add: stands_for_def)
  show "yields (complete_lifecycle ctx actor t) w (closes w i (fm, b))" if "fm_status fm = Review"
  proof -
    let ?ctx = "ctx\<lparr>ct_store := file_store se\<rparr>"
    have "complete_step ctx actor t Review Done r n w = complete_step ?ctx actor t Review Done r n w" for r n
      by (simp add: complete_step_def ctx id bind_def own_check(1) [OF own])
    moreover have "yields (complete_step ?ctx actor t Review Done r n) w (closes w i (fm, b))" for r n
      by (rule close_review [OF t _ _ that]) (use own in \<open>simp_all add: own_task_def\<close>)
    ultimately show ?thesis using that by (simp add: complete_lifecycle_def to_in_progress_def id yields_def)
  qed
  show "\<exists>reason. complete_lifecycle ctx actor t w = (Inl (OtherError reason), w)" if st: "fm_status fm \<notin> {Review, Done}"
  proof -
    note refused = own_step_refused [OF own ctx id(1)]
    consider "fm_status fm = InProgress" | "fm_status fm = Blocked" | "fm_status fm \<notin> {InProgress, Blocked, Review}" using st by auto
    then show ?thesis
    proof cases
      case 1
      then show ?thesis
        using refused [of Review actor InProgress "''manual_completion_review''" "''Manual completion: moving to review''"]
        by (auto simp: complete_lifecycle_def to_in_progress_def id bind_run(2))
    next
      case 2
      then show ?thesis
        using refused [of Ready actor Blocked "''manual_completion_unblock''" "''Manual completion: unblocking task''"]
        by (auto simp: complete_lifecycle_def to_in_progress_def id bind_run(2) bind_assoc)
    next
      case 3
      then show ?thesis
        using refused [of InProgress actor "fm_status fm" "''manual_completion_lifecycle_guard''"
            "''Manual completion: enforcing lifecycle consistency''"]
        by (auto simp: complete_lifecycle_def to_in_progress_def id bind_run(2) bind_assoc)
    qed
  qed
qed


subsection \<open>Examples\<close>

text \<open>A chart with one agent, who leads nothing; he owns one task, the other is nobody's.\<close>

definition dev_chart :: org_chart where
  "dev_chart = \<lparr>oc_orgUnits = [], oc_groups = [], oc_memberships = [], oc_relationships = [], oc_defaults = None, oc_memoryPools = None,
     oc_roles = [], oc_teams = [], oc_agents = [\<lparr>oa_id = ''dev'', oa_openclawAgentId = None, oa_team = None, oa_reportsTo = None,
       oa_policies = None, oa_active = True\<rparr>], oc_routing = []\<rparr>"

definition dev_ctx :: tool_ctx where
  "dev_ctx = plain_ctx\<lparr>ct_store := permission_store dev_chart ''dev'' (file_store sample_env)\<rparr>"

definition nobodys :: "task_status \<Rightarrow> frontmatter" where
  "nobodys s = (sample_fm ''other'' s)\<lparr>fm_routing := sample_routing\<lparr>rt_agent := None\<rparr>\<rparr>"

definition dev_world :: "task_status \<Rightarrow> world" where
  "dev_world s = tasks_world [sample_fm sample_id s, nobodys s]"

lemma dev_role: "rf_role (determineRole ''dev'' dev_chart) = Worker"
  by code_simp

lemma nobodys_simps [simp]: "fm_id (nobodys s) = ''other''" "fm_lease (nobodys s) = None" "fm_routing (nobodys s) = sample_routing\<lparr>rt_agent := None\<rparr>"
  by (simp_all add: nobodys_def)

lemma dev_distinct: "distinct (map fm_id [sample_fm sample_id s, nobodys s])"
  by (simp add: sample_id_def)

lemma dev_abs: "abs_store (dev_world s) sample_id = Some (sample_fm sample_id s, ''body'')"
  "abs_store (dev_world s) ''other'' = Some (nobodys s, ''body'')"
  using tasks_world_abs [OF dev_distinct [of s]] by (simp_all add: dev_world_def) (simp_all add: sample_id_def)

lemma dev_tidy: "tidy (dev_world s)"
  unfolding dev_world_def by (rule tasks_world_tidy) (rule dev_distinct)



end
