(* ===== verification/Projects.thy ===== *)
theory Projects
  imports OrgChart WorkflowDag TaskParser
begin

section \<open>Projects (projects/registry.ts, create.ts, manifest.ts, bootstrap.ts, store-factory.ts, lint.ts, lint-helpers.ts)\<close>

text \<open>
  The vault holds one directory per project under \<open>Projects/\<close>, with a manifest \<open>project.yaml\<close>. Modelled are the schema of the
  manifest, the creation of projects, their discovery with the hierarchy of parents, and the linter. What the YAML library
  makes of a file is \<open>Readable\<close> with the fields as written or \<open>Unreadable\<close> with the message of the failure.
\<close>

subsection \<open>The manifest (schemas/project.ts)\<close>

datatype project_status = PActive | PPaused | PArchived

datatype project_type = TypeSwe | TypeOps | TypeResearch | TypeAdmin | TypePersonal | TypeOther

record project_owner =
  po_team :: string
  po_lead :: string

record project_routing =
  pg_intakeDefault :: string
  pg_mailboxes :: bool

datatype memory_tier = TierCold | TierWarm

record project_memory =
  pm_bronze :: memory_tier
  pm_silver :: memory_tier
  pm_gold :: memory_tier
  pm_warmPaths :: "string list"
  pm_denyIndex :: "string list"

record project_links =
  pl_repo :: "string option"
  pl_dashboards :: "string list"
  pl_docs :: "string list"

record manifest =
  mf_id :: string
  mf_title :: string
  mf_status :: project_status
  mf_type :: project_type
  mf_owner :: project_owner
  mf_parentId :: "string option"
  mf_routing :: project_routing
  mf_memory :: project_memory
  mf_links :: project_links
  mf_workflowTemplates :: "(string \<times> workflow_definition) list option"

text \<open>\<open>/^(_inbox|[a-z0-9][a-z0-9-]{1,63})$/\<close>, \<open>/^[a-z0-9][a-z0-9-]*$/\<close> and \<open>/^[a-z0-9_-]+$/\<close>\<close>

definition lower_alnum :: "char \<Rightarrow> bool" where
  "lower_alnum c \<longleftrightarrow> (let n = of_char c :: nat in (97 \<le> n \<and> n \<le> 122) \<or> (48 \<le> n \<and> n \<le> 57))"

definition project_id_ok :: "string \<Rightarrow> bool" where
  "project_id_ok i \<longleftrightarrow> i = ''_inbox'' \<or>
     (case i of [] \<Rightarrow> False | c # rest \<Rightarrow> lower_alnum c \<and> 1 \<le> length rest \<and> length rest \<le> 63 \<and>
        list_all (\<lambda>x. lower_alnum x \<or> x = CHR 0x2D) rest)"

definition template_name_ok :: "string \<Rightarrow> bool" where
  "template_name_ok k = (case k of [] \<Rightarrow> False | c # rest \<Rightarrow> lower_alnum c \<and> list_all (\<lambda>x. lower_alnum x \<or> x = CHR 0x2D) rest)"

definition valid_id_pattern :: "string \<Rightarrow> bool" where
  "valid_id_pattern i \<longleftrightarrow> i \<noteq> [] \<and> list_all (\<lambda>x. lower_alnum x \<or> x = CHR 0x5F \<or> x = CHR 0x2D) i"

text \<open>\<open>ProjectManifest.parse\<close> on the fields that are there; types and enumerations hold by construction.\<close>

definition parse_manifest :: "manifest \<Rightarrow> string + manifest" where
  "parse_manifest m =
     (let bad_id = (if project_id_ok (mf_id m) then [] else [''id: Project ID must match [a-z0-9][a-z0-9-]{1,63} or be _inbox'']);
          bad_templates = map (\<lambda>(k, d). ''workflowTemplates.'' @ k @ '': Template name must be lowercase alphanumeric with hyphens'')
            (filter (\<lambda>(k, d). \<not> template_name_ok k) (or_else (mf_workflowTemplates m) [])) in
      if bad_id @ bad_templates = [] then Inr m else Inl (''Validation failed: '' @ join_with ''; '' (bad_id @ bad_templates)))"

subsection \<open>The vault\<close>

datatype manifest_file = Readable manifest | Unreadable string

text \<open>A file under \<open>tasks/\<close> as the linter reads it: status and project of its frontmatter.\<close>

datatype lint_file = LintNoFrontmatter | LintFrontmatter "string option" "string option" | LintUnreadable string

datatype tasks_entry = TasksDir string "(string \<times> lint_file) list" | TasksFile string

record project_dir =
  pd_manifest :: "manifest_file option"
  pd_dirs :: "string list"
  pd_tasks :: "tasks_entry list"
  pd_report :: "string option"

type_synonym vault = "(string \<times> project_dir) list"

record project_record =
  pj_id :: string
  pj_path :: string
  pj_manifest :: "manifest option"
  pj_error :: "string option"
  pj_parentId :: "string option"
  pj_children :: "string list option"

subsection \<open>Discovery (projects/registry.ts)\<close>

definition project_path :: "string \<Rightarrow> string" where
  "project_path i = ''Projects/'' @ i"

definition loadProject :: "string \<Rightarrow> project_dir \<Rightarrow> project_record" where
  "loadProject dirName d =
     (let failed = (\<lambda>e. \<lparr>pj_id = dirName, pj_path = project_path dirName, pj_manifest = None, pj_error = Some e, pj_parentId = None,
             pj_children = None\<rparr>) in
      case pd_manifest d of
        None \<Rightarrow> failed ''Missing project.yaml''
      | Some (Unreadable e) \<Rightarrow> failed e
      | Some (Readable raw) \<Rightarrow> (case parse_manifest raw of
          Inl e \<Rightarrow> failed e
        | Inr m \<Rightarrow>
            if mf_id m \<noteq> dirName
            then failed (''Manifest ID '' @ quoted (mf_id m) @ '' does not match directory name '' @ quoted dirName)
            else \<lparr>pj_id = mf_id m, pj_path = project_path dirName, pj_manifest = Some m, pj_error = None, pj_parentId = None,
                  pj_children = None\<rparr>))"

definition default_routing :: project_routing where
  "default_routing = \<lparr>pg_intakeDefault = ''Tasks/Backlog'', pg_mailboxes = True\<rparr>"

definition default_memory :: project_memory where
  "default_memory = \<lparr>pm_bronze = TierCold, pm_silver = TierWarm, pm_gold = TierWarm,
     pm_warmPaths = [''Artifacts/Silver'', ''Artifacts/Gold''], pm_denyIndex = [''Cold'', ''Artifacts/Bronze'', ''State'', ''Tasks'']\<rparr>"

definition no_links :: project_links where
  "no_links = \<lparr>pl_repo = None, pl_dashboards = [], pl_docs = []\<rparr>"

definition createInboxPlaceholder :: project_record where
  "createInboxPlaceholder =
     \<lparr>pj_id = ''_inbox'', pj_path = project_path ''_inbox'',
      pj_manifest = Some \<lparr>mf_id = ''_inbox'', mf_title = ''Inbox'', mf_status = PActive, mf_type = TypeAdmin,
        mf_owner = \<lparr>po_team = ''ops'', po_lead = ''system''\<rparr>, mf_parentId = None, mf_routing = default_routing, mf_memory = default_memory,
        mf_links = no_links, mf_workflowTemplates = None\<rparr>,
      pj_error = None, pj_parentId = None, pj_children = None\<rparr>"

definition manifest_parent :: "project_record \<Rightarrow> string option" where
  "manifest_parent r = (case pj_manifest r of None \<Rightarrow> None | Some m \<Rightarrow> mf_parentId m)"

definition with_parent :: "project_record \<Rightarrow> project_record" where
  "with_parent r = (if truthy_str (manifest_parent r) then r\<lparr>pj_parentId := manifest_parent r\<rparr> else r)"

definition children_map :: "project_record list \<Rightarrow> string list js_map" where
  "children_map rs = fold (\<lambda>r m. if truthy_str (pj_parentId r)
     then AList.update (the (pj_parentId r)) (or_else (map_of m (the (pj_parentId r))) [] @ [pj_id r]) m else m) rs []"

definition populateHierarchy :: "project_record list \<Rightarrow> project_record list" where
  "populateHierarchy records =
     (let withParents = map with_parent records; childrenMap = children_map withParents in
      map (\<lambda>r. case map_of childrenMap (pj_id r) of Some (c # cs) \<Rightarrow> r\<lparr>pj_children := Some (c # cs)\<rparr> | _ \<Rightarrow> r) withParents)"

definition archived :: "project_record \<Rightarrow> bool" where
  "archived r = (case pj_manifest r of None \<Rightarrow> False | Some m \<Rightarrow> mf_status m = PArchived)"

definition discoverProjects :: "vault \<Rightarrow> bool \<Rightarrow> project_record list" where
  "discoverProjects v includeArchived =
     (let loaded = map (\<lambda>(n, d). loadProject n d) v;
          records = populateHierarchy (if ''_inbox'' \<in> set (map fst v) then loaded else createInboxPlaceholder # loaded) in
      if includeArchived then records else filter (\<lambda>r. \<not> archived r) records)"

subsection \<open>Creation (projects/create.ts, manifest.ts, bootstrap.ts)\<close>

definition RESERVED_IDS :: "string list" where
  "RESERVED_IDS = [''_inbox'', ''.'', ''..'', ''_config'', ''_system'']"

definition double_quoted :: "string \<Rightarrow> string" where
  "double_quoted s = [CHR 0x22] @ s @ [CHR 0x22]"

definition validateProjectId :: "string \<Rightarrow> string + unit" where
  "validateProjectId i =
     (if i = [] \<or> js_trim i \<noteq> i then Inl ''Project ID cannot be empty or contain leading/trailing spaces''
      else if i \<in> set RESERVED_IDS then Inl (''Project ID '' @ double_quoted i @ '' is reserved'')
      else if \<not> valid_id_pattern i
      then Inl (''Project ID '' @ double_quoted i @ '' is invalid. Use only lowercase letters, numbers, hyphens, and underscores.'')
      else Inr ())"

definition REQUIRED_DIRS :: "string list" where
  "REQUIRED_DIRS = [''tasks'', ''artifacts'', ''state'', ''views'', ''cold'']"

definition ARTIFACT_TIERS :: "string list" where
  "ARTIFACT_TIERS = [''bronze'', ''silver'', ''gold'']"

definition mkdirs :: "string list \<Rightarrow> string list \<Rightarrow> string list" where
  "mkdirs new dirs = fold (\<lambda>d ds. if d \<in> set ds then ds else ds @ [d]) new dirs"

definition bootstrapProject :: "string list \<Rightarrow> string list" where
  "bootstrapProject dirs = mkdirs (map (\<lambda>tier. ''artifacts/'' @ tier) ARTIFACT_TIERS) (mkdirs REQUIRED_DIRS dirs)"

record manifest_opts =
  mo_title :: "string option"
  mo_status :: "project_status option"
  mo_type :: "project_type option"
  mo_owner :: "project_owner option"
  mo_parentId :: "string option"
  mo_routing :: "project_routing option"
  mo_memory :: "project_memory option"
  mo_links :: "project_links option"

definition buildProjectManifest :: "string \<Rightarrow> manifest_opts \<Rightarrow> string + manifest" where
  "buildProjectManifest i opts =
     (let build = (\<lambda>title type owner.
        \<lparr>mf_id = i, mf_title = title, mf_status = or_else (mo_status opts) PActive, mf_type = type, mf_owner = owner,
         mf_parentId = (if truthy_str (mo_parentId opts) then mo_parentId opts else None),
         mf_routing = or_else (mo_routing opts) default_routing, mf_memory = or_else (mo_memory opts) default_memory,
         mf_links = or_else (mo_links opts) no_links, mf_workflowTemplates = None\<rparr>) in
      if i = ''_inbox''
      then Inr (build (or_else (mo_title opts) ''_Inbox'') (or_else (mo_type opts) TypeAdmin)
             (or_else (mo_owner opts) \<lparr>po_team = ''system'', po_lead = ''system''\<rparr>))
      else if \<not> truthy_str (mo_title opts) \<or> mo_type opts = None \<or> mo_owner opts = None
      then Inl (''buildProjectManifest requires title, type, and owner for project '' @ double_quoted i)
      else Inr (build (the (mo_title opts)) (the (mo_type opts)) (the (mo_owner opts))))"

record create_project_opts =
  co_title :: "string option"
  co_type :: "project_type option"
  co_owner :: "project_owner option"
  co_parentId :: "string option"
  co_template :: bool

record created_project =
  cp_projectId :: string
  cp_manifest :: manifest
  cp_directoriesCreated :: "string list"

text \<open>The result and the vault; directories made before a failure stay.\<close>

definition createProject :: "string \<Rightarrow> create_project_opts \<Rightarrow> vault \<Rightarrow> (string + created_project) \<times> vault" where
  "createProject i opts v =
     (case validateProjectId i of
        Inl e \<Rightarrow> (Inl e, v)
      | Inr _ \<Rightarrow>
          if map_of v i \<noteq> None then (Inl (''Project '' @ double_quoted i @ '' already exists at '' @ project_path i), v)
          else
            let made = \<lparr>pd_manifest = None, pd_dirs = bootstrapProject [], pd_tasks = [], pd_report = None\<rparr>;
                mopts = \<lparr>mo_title = Some (or_else (co_title opts) i), mo_status = None, mo_type = Some (or_else (co_type opts) TypeOther),
                  mo_owner = Some (or_else (co_owner opts) \<lparr>po_team = ''system'', po_lead = ''system''\<rparr>), mo_parentId = co_parentId opts,
                  mo_routing = None, mo_memory = None, mo_links = None\<rparr> in
            (case buildProjectManifest i mopts of
               Inl e \<Rightarrow> (Inl e, v @ [(i, made)])
             | Inr m \<Rightarrow>
                 let extra = (if co_template opts then [''memory''] else []) in
                 (Inr \<lparr>cp_projectId = i, cp_manifest = m, cp_directoriesCreated = REQUIRED_DIRS @ extra\<rparr>,
                  v @ [(i, made\<lparr>pd_manifest := Some (Readable m), pd_dirs := mkdirs extra (pd_dirs made)\<rparr>)])))"

text \<open>The store of a project that was not created: scaffold and manifest are made on first use (projects/store-factory.ts).\<close>

definition ensureProjectBootstrapped :: "string \<Rightarrow> vault \<Rightarrow> (string + unit) \<times> vault" where
  "ensureProjectBootstrapped i v =
     (let old = or_else (map_of v i) \<lparr>pd_manifest = None, pd_dirs = [], pd_tasks = [], pd_report = None\<rparr> in
      if pd_manifest old \<noteq> None then (Inr (), v)
      else
        let made = old\<lparr>pd_dirs := bootstrapProject (pd_dirs old)\<rparr>;
            mopts = \<lparr>mo_title = (if i = ''_inbox'' then None else Some i), mo_status = None,
              mo_type = (if i = ''_inbox'' then None else Some TypeOther), mo_owner = Some \<lparr>po_team = ''system'', po_lead = ''system''\<rparr>,
              mo_parentId = None, mo_routing = None, mo_memory = None, mo_links = None\<rparr> in
        (case buildProjectManifest i mopts of
           Inl e \<Rightarrow> (Inl e, AList.update i made v)
         | Inr m \<Rightarrow> (Inr (), AList.update i (made\<lparr>pd_manifest := Some (Readable m)\<rparr>) v)))"

subsection \<open>The linter (projects/lint.ts, lint-helpers.ts)\<close>

record project_issue =
  is_severity :: severity
  is_category :: string
  is_message :: string
  is_path :: "string option"

record lint_outcome =
  lo_projectId :: string
  lo_issues :: "project_issue list"
  lo_passed :: bool

definition issue_error :: "string \<Rightarrow> string \<Rightarrow> string option \<Rightarrow> project_issue" where
  "issue_error category message path = \<lparr>is_severity = SevError, is_category = category, is_message = message, is_path = path\<rparr>"

definition issue_warning :: "string \<Rightarrow> string \<Rightarrow> string option \<Rightarrow> project_issue" where
  "issue_warning category message path = \<lparr>is_severity = SevWarning, is_category = category, is_message = message, is_path = path\<rparr>"

definition validateManifest :: "project_record \<Rightarrow> project_issue list" where
  "validateManifest r = (if truthy_str (pj_error r) then [issue_error ''manifest'' (''Invalid project.yaml: '' @ the (pj_error r)) None] else [])"

definition validateDirectories :: "string list \<Rightarrow> project_issue list" where
  "validateDirectories dirs = concat (map (\<lambda>d. if d \<in> set dirs then []
     else [issue_error ''structure'' (''Missing required directory: '' @ d) (Some d)]) REQUIRED_DIRS)"

definition validateArtifactTiers :: "string list \<Rightarrow> project_issue list" where
  "validateArtifactTiers dirs = (if ''artifacts'' \<in> set dirs
     then concat (map (\<lambda>tier. if ''artifacts/'' @ tier \<in> set dirs then []
       else [issue_error ''artifacts'' (''Missing artifact tier: artifacts/'' @ tier) (Some (''artifacts/'' @ tier))]) ARTIFACT_TIERS)
     else [])"

text \<open>The walk along the parents; \<open>path\<close> holds the ids visited, in order.\<close>

definition parent_links :: "project_record list \<Rightarrow> (string \<times> string option) list" where
  "parent_links rs = map (\<lambda>r. (pj_id r, manifest_parent r)) rs"

function parent_cycle :: "(string \<times> string option) list \<Rightarrow> string list \<Rightarrow> string option \<Rightarrow> string list option" where
  "parent_cycle links path None = None"
| "parent_cycle links path (Some current) =
     (if current = [] then None
      else if current \<in> set path then Some (dropWhile (\<lambda>x. x \<noteq> current) path @ [current])
      else parent_cycle links (path @ [current]) (case map_of links current of None \<Rightarrow> None | Some parent \<Rightarrow> parent))"
  by pat_completeness auto
termination
proof (relation "measure (\<lambda>(links, path, cur). card (fst ` set links - set path) + (if cur = None then 0 else 1))")
  fix links :: "(string \<times> string option) list" and path :: "string list" and current :: string
  assume new: "current \<notin> set path"
  let ?ids = "fst ` set links"
  have fin: "finite (?ids - set path)" by simp
  show "((links, path @ [current], case map_of links current of None \<Rightarrow> None | Some r \<Rightarrow> r), links, path, Some current)
    \<in> measure (\<lambda>(links, path, cur). card (fst ` set links - set path) + (if cur = None then 0 else 1))"
  proof (cases "current \<in> ?ids")
    case True
    then have "card (?ids - set (path @ [current])) < card (?ids - set path)"
      using new by (intro psubset_card_mono [OF fin]) auto
    then show ?thesis by auto
  next
    case False
    then have "map_of links current = None" by (simp add: map_of_eq_None_iff)
    moreover have "?ids - set (path @ [current]) = ?ids - set path" using False by auto
    ultimately show ?thesis by simp
  qed
qed simp

definition detectCircularParent :: "string \<Rightarrow> project_record list \<Rightarrow> string list option" where
  "detectCircularParent startId allProjects = parent_cycle (parent_links allProjects) [] (Some startId)"

text \<open>The arrow between the ids of a cycle, and the marks of the report, in UTF-8.\<close>

definition cycle_arrow :: string where
  "cycle_arrow = '' '' @ [CHR 0xE2, CHR 0x86, CHR 0x92] @ '' ''"

definition validateHierarchy :: "project_record \<Rightarrow> project_record list option \<Rightarrow> project_issue list" where
  "validateHierarchy r allProjects = (case (manifest_parent r, allProjects) of
     (Some parentId, Some ps) \<Rightarrow>
       if parentId = [] then []
       else if \<not> list_ex (\<lambda>p. pj_id p = parentId) ps
       then [issue_warning ''hierarchy'' (''Parent project '' @ quoted parentId @ '' does not exist'') (Some ''project.yaml'')]
       else (case detectCircularParent (pj_id r) ps of
          None \<Rightarrow> []
        | Some cycle \<Rightarrow> [issue_error ''hierarchy'' (''Circular parent reference detected: '' @ join_with cycle_arrow cycle) (Some ''project.yaml'')])
   | _ \<Rightarrow> [])"

text \<open>\<open>show_dag\<close> is the text of an error of \<open>validateDAG\<close>.\<close>

definition validateWorkflowTemplates :: "(dag_error \<Rightarrow> string) \<Rightarrow> project_record \<Rightarrow> project_issue list" where
  "validateWorkflowTemplates show_dag r = (case pj_manifest r of
     None \<Rightarrow> []
   | Some m \<Rightarrow> concat (map (\<lambda>(name, definition).
       map (\<lambda>e. issue_error ''workflow-templates'' (''Workflow template '' @ double_quoted name @ '': '' @ show_dag e) None) (validateDAG definition))
       (or_else (mf_workflowTemplates m) [])))"

definition lintTaskFile :: "string \<Rightarrow> string \<Rightarrow> string \<Rightarrow> lint_file \<Rightarrow> project_issue list" where
  "lintTaskFile projectId expectedStatus relPath f = (case f of
     LintUnreadable e \<Rightarrow> [issue_warning ''tasks'' (''Failed to read task file '' @ relPath @ '': '' @ e) (Some relPath)]
   | LintNoFrontmatter \<Rightarrow> [issue_warning ''tasks'' (''Task missing frontmatter: '' @ relPath) (Some relPath)]
   | LintFrontmatter status project \<Rightarrow>
       (if truthy_str status \<and> the status \<noteq> expectedStatus
        then [issue_error ''tasks'' (''Task status '' @ quoted (the status) @ '' does not match directory '' @ quoted expectedStatus @ '': '' @ relPath)
                (Some relPath)] else []) @
       (if truthy_str project \<and> the project \<noteq> projectId
        then [issue_error ''tasks'' (''Task project '' @ quoted (the project) @ '' does not match project id '' @ quoted projectId @ '': '' @ relPath)
                (Some relPath)] else []))"

definition VALID_STATUSES :: "string list" where
  "VALID_STATUSES = map status_str [Backlog, Ready, InProgress, Blocked, Review, Done, Cancelled, Deadletter]"

definition ends_md :: "string \<Rightarrow> bool" where
  "ends_md s \<longleftrightarrow> take 3 (rev s) = rev ''.md''"

definition lint_status_dir :: "string \<Rightarrow> tasks_entry \<Rightarrow> project_issue list" where
  "lint_status_dir projectId e = (case e of
     TasksFile _ \<Rightarrow> []
   | TasksDir statusName files \<Rightarrow>
       if statusName \<notin> set VALID_STATUSES
       then [issue_warning ''tasks'' (''Unknown task status directory: tasks/'' @ statusName) (Some (''tasks/'' @ statusName))]
       else concat (map (\<lambda>(n, f). lintTaskFile projectId statusName (statusName @ ''/'' @ n) f) (filter (\<lambda>(n, f). ends_md n) files)))"

definition validateTasks :: "string \<Rightarrow> project_dir \<Rightarrow> project_issue list" where
  "validateTasks projectId d = (if ''tasks'' \<in> set (pd_dirs d) then concat (map (lint_status_dir projectId) (pd_tasks d)) else [])"

definition issues_of :: "(dag_error \<Rightarrow> string) \<Rightarrow> project_record \<Rightarrow> project_dir \<Rightarrow> project_record list option \<Rightarrow> project_issue list" where
  "issues_of show_dag r d allProjects =
     validateManifest r @ validateDirectories (pd_dirs d) @ validateArtifactTiers (pd_dirs d) @ validateHierarchy r allProjects @
     validateWorkflowTemplates show_dag r @ validateTasks (pj_id r) d"

definition to_upper_char :: "char \<Rightarrow> char" where
  "to_upper_char c = (let n = of_char c :: nat in if 97 \<le> n \<and> n \<le> 122 then char_of (n - 32) else c)"

definition capitalize :: "string \<Rightarrow> string" where
  "capitalize s = (case s of [] \<Rightarrow> [] | c # rest \<Rightarrow> to_upper_char c # rest)"

definition by_category :: "project_issue list \<Rightarrow> project_issue list js_map" where
  "by_category issues = fold (\<lambda>i m. AList.update (is_category i) (or_else (map_of m (is_category i)) [] @ [i]) m) issues []"

definition issue_line :: "project_issue \<Rightarrow> string" where
  "issue_line i =
     (let icon = (if is_severity i = SevError then [CHR 0xE2, CHR 0x9D, CHR 0x8C] else [CHR 0xE2, CHR 0x9A, CHR 0xA0, CHR 0xEF, CHR 0xB8, CHR 0x8F]);
          word = (if is_severity i = SevError then ''ERROR'' else ''WARNING'') in
      ''- '' @ icon @ '' **'' @ word @ ''**: '' @ is_message i @ [nl] @
      (if truthy_str (is_path i) then ''  - Path: `'' @ the (is_path i) @ ''`'' @ [nl] else []))"

definition severity_count :: "severity \<Rightarrow> project_issue list \<Rightarrow> nat" where
  "severity_count s issues = length (filter (\<lambda>i. is_severity i = s) issues)"

definition formatLintReport :: "string \<Rightarrow> string \<Rightarrow> project_issue list \<Rightarrow> string" where
  "formatLintReport timestamp projectId issues =
     (let errorCount = severity_count SevError issues; warningCount = severity_count SevWarning issues;
          mark = (if errorCount = 0 then [CHR 0xE2, CHR 0x9C, CHR 0x93] @ '' PASSED'' else [CHR 0xE2, CHR 0x9C, CHR 0x97] @ '' FAILED'') in
      ''# Project Lint Report: '' @ projectId @ [nl, nl] @ ''**Generated:** '' @ timestamp @ [nl, nl] @
      ''**Status:** '' @ mark @ [nl, nl] @
      ''**Summary:** '' @ string_of_nat errorCount @ '' error(s), '' @ string_of_nat warningCount @ '' warning(s)'' @ [nl, nl] @
      (if length issues = 0 then ''No issues found.'' @ [nl]
       else concat (map (\<lambda>(category, is). ''## '' @ capitalize category @ [nl, nl] @ concat (map issue_line is) @ [nl]) (by_category issues))))"

text \<open>The report is written to \<open>state/lint-report.md\<close>, which fails when the directory is not there.\<close>

definition lintProject ::
  "(dag_error \<Rightarrow> string) \<Rightarrow> string \<Rightarrow> project_record \<Rightarrow> project_record list option \<Rightarrow> project_dir \<Rightarrow> (string + lint_outcome) \<times> project_dir" where
  "lintProject show_dag timestamp r allProjects d =
     (let issues = issues_of show_dag r d allProjects in
      if ''state'' \<notin> set (pd_dirs d) then (Inl ''ENOENT'', d)
      else (Inr \<lparr>lo_projectId = pj_id r, lo_issues = issues, lo_passed = (length (filter (\<lambda>i. is_severity i = SevError) issues) = 0)\<rparr>,
            d\<lparr>pd_report := Some (formatLintReport timestamp (pj_id r) issues)\<rparr>))"

end
