(* ===== verification/Service.thy ===== *)
theory Service
  imports SchedulerPoll ProtocolRouter Projects
begin

section \<open>The service (service/aof-service.ts)\<close>

text \<open>
  The daemon around the scheduler: it finds the projects of the vault, keeps a store for each beside the store of the data
  directory, reclaims what a crash left in progress, and polls all stores. The first part is sequential: what one step does to
  the stores. The second part is the promise chain on which polls wait for each other, with the timeout of a poll, as a step
  relation over interleaved events.
\<close>

subsection \<open>The stores\<close>

record service_env =
  sx_vault :: bool
  sx_poll :: "string option \<Rightarrow> poll_env"
  sx_router :: router_config
  sx_parser :: parser_lib

text \<open>\<open>sv_root\<close> is the store of the data directory, \<open>sv_disk p\<close> what lies under the directory of the project \<open>p\<close>, and
  \<open>sv_stores\<close> the keys of \<open>projectStores\<close>.\<close>

record service =
  sv_root :: world
  sv_vault :: vault
  sv_disk :: "string \<Rightarrow> world"
  sv_stores :: "string list"
  sv_running :: bool
  sv_lastPollAt :: "int option"
  sv_lastError :: "error option"
  sv_lastPollResult :: "poll_result option"

text \<open>The clock, the event log and the variables of modules are there once for all stores; they live in \<open>sv_root\<close>.\<close>

definition enter :: "world \<Rightarrow> world \<Rightarrow> world" where
  "enter g w = w\<lparr>w_now := w_now g, w_events := w_events g, w_lastDispatchAt := w_lastDispatchAt g,
     w_lastDispatchByTeam := w_lastDispatchByTeam g, w_renewals := w_renewals g, w_slaAlerts := w_slaAlerts g\<rparr>"

definition on_store :: "string option \<Rightarrow> 'a m \<Rightarrow> service \<Rightarrow> (error + 'a) \<times> service" where
  "on_store p f s = (case p of
     None \<Rightarrow> (case f (sv_root s) of (r, w) \<Rightarrow> (r, s\<lparr>sv_root := w\<rparr>))
   | Some i \<Rightarrow> (case f (enter (sv_root s) (sv_disk s i)) of
       (r, w) \<Rightarrow> (r, s\<lparr>sv_root := enter w (sv_root s), sv_disk := (sv_disk s)(i := w)\<rparr>)))"

text \<open>\<open>skip\<close> says which projects are passed over; a store that fails to initialise ends the loop.\<close>

definition with_project :: "string \<Rightarrow> service \<Rightarrow> service" where
  "with_project i s = (if i \<in> set (sv_stores s) then s else s\<lparr>sv_stores := sv_stores s @ [i]\<rparr>)"

fun register_projects :: "(service \<Rightarrow> project_record \<Rightarrow> bool) \<Rightarrow> project_record list \<Rightarrow> service \<Rightarrow> (error + unit) \<times> service" where
  "register_projects skip [] s = (Inr (), s)"
| "register_projects skip (p # ps) s =
     (if skip s p then register_projects skip ps s
      else case on_store (Some (pj_id p)) init_store s of
        (Inl e, s') \<Rightarrow> (Inl e, s')
      | (Inr _, s') \<Rightarrow> register_projects skip ps (with_project (pj_id p) s'))"

definition initializeProjects :: "service_env \<Rightarrow> service \<Rightarrow> (error + unit) \<times> service" where
  "initializeProjects env s = (if \<not> sx_vault env then (Inr (), s) 
      else register_projects (\<lambda>s p. truthy_str (pj_error p)) (discoverProjects (sv_vault s) False) s)"

definition rediscoverProjects :: "service_env \<Rightarrow> service \<Rightarrow> (error + unit) \<times> service" where
  "rediscoverProjects env s =
     (if \<not> sx_vault env then (Inr (), s)
      else let found = discoverProjects (sv_vault s) False in
        case register_projects (\<lambda>s p. pj_id p \<in> set (sv_stores s) \<or> truthy_str (pj_error p)) found s of
          (Inl e, s') \<Rightarrow> (Inl e, s')
        | (Inr _, s') \<Rightarrow> (Inr (), s'\<lparr>sv_stores := filter (\<lambda>i. i \<in> set (map pj_id found)) (sv_stores s')\<rparr>))"

subsection \<open>Orphans\<close>

definition reset_hop :: "hop_state \<Rightarrow> hop_state" where
  "reset_hop hs = (if hs_status hs = HDispatched
     then hs\<lparr>hs_status := HReady, hs_agent := None, hs_correlationId := None, hs_startedAt := None\<rparr> else hs)"

definition reset_hops :: "workflow_state \<Rightarrow> workflow_state" where
  "reset_hops st = st\<lparr>ws_hops := map (\<lambda>(h, hs). (h, reset_hop hs)) (ws_hops st)\<rparr>"

definition any_dispatched :: "workflow_state \<Rightarrow> bool" where
  "any_dispatched st = list_ex (\<lambda>(h, hs). hs_status hs = HDispatched) (ws_hops st)"

definition lease_agent :: "task \<Rightarrow> (string \<times> json) list" where
  "lease_agent t = (case fm_lease (t_fm t) of None \<Rightarrow> [] | Some l \<Rightarrow> [(''previousAgent'', JStr (tl_agent l))])"

definition reclaim_task :: "task \<Rightarrow> nat \<Rightarrow> nat m" where
  "reclaim_task t reclaimed = (case fm_workflow (t_fm t) of
     Some workflow \<Rightarrow>
       if any_dispatched (tw_state workflow) then
         bind now (\<lambda>ts.
         andThen (save_task (with_state workflow (reset_hops (tw_state workflow)) ts t))
         (andThen (best_effort (log_event ''task.reclaimed'' ''system'' (Some (fm_id (t_fm t)))
                    [(''reason'', JStr ''startup_reconciliation''), (''dagTask'', JBool True)]))
           (ret reclaimed)))
       else ret reclaimed
   | None \<Rightarrow>
       catch (bind (transition_task (fm_id (t_fm t)) Ready (no_opts\<lparr>to_reason := Some ''startup_reconciliation''\<rparr>)) (\<lambda>_.
              andThen (best_effort (log_event ''task.reclaimed'' ''system'' (Some (fm_id (t_fm t)))
                 ([(''previousStatus'', JStr ''in-progress'')] @ lease_agent t @ [(''reason'', JStr ''startup_reconciliation'')])))
               (ret (reclaimed + 1))))
         (\<lambda>_. ret reclaimed))"

definition reconcile_store :: "nat \<Rightarrow> nat m" where
  "reconcile_store reclaimed = bind (list_tasks (status_filter InProgress)) (\<lambda>inProgress. fold_m reclaim_task inProgress reclaimed)"

fun reconcile_stores :: "string option list \<Rightarrow> nat \<Rightarrow> service \<Rightarrow> (error + nat) \<times> service" where
  "reconcile_stores [] reclaimed s = (Inr reclaimed, s)"
| "reconcile_stores (p # ps) reclaimed s = (case on_store p (reconcile_store reclaimed) s of
     (Inl e, s') \<Rightarrow> (Inl e, s') | (Inr n, s') \<Rightarrow> reconcile_stores ps n s')"

definition stores_to_reconcile :: "service_env \<Rightarrow> service \<Rightarrow> string option list" where
  "stores_to_reconcile env s = (if sx_vault env \<and> length (sv_stores s) > 0 then map Some (sv_stores s) else [None])"

definition reconcileOrphans :: "service_env \<Rightarrow> service \<Rightarrow> (error + nat) \<times> service" where
  "reconcileOrphans env s = reconcile_stores (stores_to_reconcile env s) 0 s"

subsection \<open>Polls\<close>

text \<open>A poll that throws is left out of the results.\<close>

fun poll_stores :: "service_env \<Rightarrow> string option list \<Rightarrow> service \<Rightarrow> poll_result list \<times> service" where
  "poll_stores env [] s = ([], s)"
| "poll_stores env (p # ps) s = (case on_store p (poll (sx_poll env p)) s of
     (Inl e, s') \<Rightarrow> poll_stores env ps s'
   | (Inr r, s') \<Rightarrow> (case poll_stores env ps s' of (rs, s'') \<Rightarrow> (r # rs, s'')))"

definition all_statuses :: "task_status list" where
  "all_statuses = [Backlog, Ready, InProgress, Blocked, Review, Done, Cancelled, Deadletter]"

definition aggregate :: "bool \<Rightarrow> poll_result list \<Rightarrow> poll_result" where
  "aggregate dryRun rs =
     \<lparr>pr_dryRun = dryRun, pr_actions = concat (map pr_actions rs),
      pr_stats = (sum_list (map (\<lambda>r. fst (pr_stats r)) rs), map (\<lambda>st. (st, sum_list (map (\<lambda>r. stat (pr_stats r) st) rs))) all_statuses)\<rparr>"

definition pollAllProjects :: "service_env \<Rightarrow> service \<Rightarrow> poll_result \<times> service" where
  "pollAllProjects env s = (case poll_stores env (None # map Some (sv_stores s)) s of
     (rs, s') \<Rightarrow> (aggregate (ec_dryRun (pv_config (sx_poll env None))) rs, s'))"

definition poll_failed :: "error \<Rightarrow> service \<Rightarrow> service" where
  "poll_failed e s = s\<lparr>sv_lastError := Some e\<rparr>"

definition poll_done :: "poll_result \<Rightarrow> service \<Rightarrow> service" where
  "poll_done r s = s\<lparr>sv_lastPollResult := Some r, sv_lastPollAt := Some (w_now (sv_root s)), sv_lastError := None\<rparr>"

text \<open>A poll that ends before its timeout.\<close>

definition runPoll :: "service_env \<Rightarrow> service \<Rightarrow> service" where
  "runPoll env s = (case rediscoverProjects env s of
     (Inl e, s1) \<Rightarrow> poll_failed e s1
   | (Inr _, s1) \<Rightarrow>
       if sx_vault env \<and> length (sv_stores s1) > 0 then (case pollAllProjects env s1 of (r, s2) \<Rightarrow> poll_done r s2)
       else (case on_store None (poll (sx_poll env None)) s1 of (Inl e, s2) \<Rightarrow> poll_failed e s2 | (Inr r, s2) \<Rightarrow> poll_done r s2))"

definition triggerPoll :: "service_env \<Rightarrow> service \<Rightarrow> service" where
  "triggerPoll env s = (if \<not> sv_running s then s else runPoll env s)"

subsection \<open>Start, stop and events\<close>

definition log_system :: "string \<Rightarrow> (string \<times> json) list \<Rightarrow> unit m" where
  "log_system ty payload = log_event ty ''system'' None payload"

definition start :: "service_env \<Rightarrow> service \<Rightarrow> (error + unit) \<times> service" where
  "start env s =
     (if sv_running s then (Inr (), s)
      else case (if sx_vault env then initializeProjects env s else on_store None init_store s) of
        (Inl e, s1) \<Rightarrow> (Inl e, s1)
      | (Inr _, s1) \<Rightarrow> (case reconcileOrphans env s1 of
          (Inl e, s2) \<Rightarrow> (Inl e, s2)
        | (Inr _, s2) \<Rightarrow> (case on_store None (log_system ''system.startup'' []) (s2\<lparr>sv_running := True\<rparr>) of
            (Inl e, s3) \<Rightarrow> (Inl e, s3) | (Inr _, s3) \<Rightarrow> (Inr (), triggerPoll env s3))))"

definition DRAIN_TIMEOUT_MS :: int where
  "DRAIN_TIMEOUT_MS = 10000"

text \<open>The wait for the polls still queued is in the second part.\<close>

definition stop :: "service \<Rightarrow> service" where
  "stop s = (if \<not> sv_running s then s
     else snd (on_store None (best_effort (log_system ''system.shutdown''
       [(''drainTimeoutMs'', JNum (of_int DRAIN_TIMEOUT_MS)), (''reason'', JStr ''stop_signal'')])) (s\<lparr>sv_running := False\<rparr>)))"

text \<open>The router of the service finds stores by project: with a vault among the registered projects, otherwise the one store.\<close>

definition message_store :: "service_env \<Rightarrow> service \<Rightarrow> envelope \<Rightarrow> string option" where
  "message_store env s e = (if sx_vault env \<and> en_projectId e \<in> set (sv_stores s) then Some (en_projectId e) else None)"

definition router_for :: "service_env \<Rightarrow> service \<Rightarrow> router_config" where
  "router_for env s = (sx_router env)\<lparr>pc_known := (if sx_vault env then Some (\<lambda>i. i \<in> set (sv_stores s)) else None)\<rparr>"

definition handleMessageReceived :: "service_env \<Rightarrow> json \<Rightarrow> service \<Rightarrow> (error + unit) \<times> service" where
  "handleMessageReceived env event s = (case on_store None (parseProtocolMessage (sx_parser env) event) s of
     (Inl e, s1) \<Rightarrow> (Inl e, s1)
   | (Inr None, s1) \<Rightarrow> (Inr (), triggerPoll env s1)
   | (Inr (Some envelope), s1) \<Rightarrow> (case on_store (message_store env s1 envelope) (route (router_for env s1) envelope) s1 of
       (Inl e, s2) \<Rightarrow> (Inl e, s2) | (Inr _, s2) \<Rightarrow> (Inr (), triggerPoll env s2)))"

text \<open>The router looks at the tasks of its own store only, which is the one of the data directory.\<close>

definition handle_session_end :: "service_env \<Rightarrow> service \<Rightarrow> (error + unit) \<times> service" where
  "handle_session_end env s = (case on_store None (handleSessionEnd (router_for env s)) s of
     (Inl e, s1) \<Rightarrow> (Inl e, s1) | (Inr _, s1) \<Rightarrow> (Inr (), triggerPoll env s1))"

definition handleAgentEnd :: "service_env \<Rightarrow> service \<Rightarrow> service" where
  "handleAgentEnd env s = triggerPoll env s"

subsection \<open>Polls one after another\<close>

text \<open>
  \<open>triggerPoll\<close> appends a poll to the promise chain \<open>pollQueue\<close>. A poll is over for the chain when it ends or when its timeout
  fires; in the second case the work itself goes on, and what it returns is dropped. Polls are numbered by their triggers.
  \<open>pq_started\<close>, \<open>pq_recorded\<close> and \<open>pq_timedOut\<close> are the history.
\<close>

record poll_chain =
  pq_running :: bool
  pq_next :: nat
  pq_waiting :: "nat list"
  pq_current :: "nat option"
  pq_abandoned :: "nat list"
  pq_started :: "nat list"
  pq_recorded :: "nat list"
  pq_timedOut :: "nat list"

definition new_chain :: poll_chain where
  "new_chain = \<lparr>pq_running = False, pq_next = 0, pq_waiting = [], pq_current = None, pq_abandoned = [], pq_started = [],
     pq_recorded = [], pq_timedOut = []\<rparr>"

definition chain_trigger :: "poll_chain \<Rightarrow> poll_chain" where
  "chain_trigger c = (if \<not> pq_running c then c else c\<lparr>pq_next := pq_next c + 1, pq_waiting := pq_waiting c @ [pq_next c]\<rparr>)"

definition chain_start :: "poll_chain \<Rightarrow> poll_chain" where
  "chain_start c = (if pq_running c then c else chain_trigger (c\<lparr>pq_running := True\<rparr>))"

definition chain_stop :: "poll_chain \<Rightarrow> poll_chain" where
  "chain_stop c = c\<lparr>pq_running := False\<rparr>"

definition chain_begin :: "poll_chain \<Rightarrow> poll_chain option" where
  "chain_begin c = (case (pq_current c, pq_waiting c) of
     (None, i # rest) \<Rightarrow> Some (c\<lparr>pq_current := Some i, pq_waiting := rest, pq_started := pq_started c @ [i]\<rparr>)
   | _ \<Rightarrow> None)"

definition chain_finish :: "poll_chain \<Rightarrow> poll_chain option" where
  "chain_finish c = (case pq_current c of
     None \<Rightarrow> None | Some i \<Rightarrow> Some (c\<lparr>pq_current := None, pq_recorded := pq_recorded c @ [i]\<rparr>))"

definition chain_timeout :: "poll_chain \<Rightarrow> poll_chain option" where
  "chain_timeout c = (case pq_current c of
     None \<Rightarrow> None
   | Some i \<Rightarrow> Some (c\<lparr>pq_current := None, pq_abandoned := pq_abandoned c @ [i], pq_timedOut := pq_timedOut c @ [i]\<rparr>))"

definition chain_late :: "nat \<Rightarrow> poll_chain \<Rightarrow> poll_chain" where
  "chain_late i c = c\<lparr>pq_abandoned := remove1 i (pq_abandoned c)\<rparr>"

inductive chain_step :: "poll_chain \<Rightarrow> poll_chain \<Rightarrow> bool" where
  step_start: "chain_step c (chain_start c)"
| step_trigger: "chain_step c (chain_trigger c)"
| step_stop: "chain_step c (chain_stop c)"
| step_begin: "chain_begin c = Some c' \<Longrightarrow> chain_step c c'"
| step_finish: "chain_finish c = Some c' \<Longrightarrow> chain_step c c'"
| step_timeout: "chain_timeout c = Some c' \<Longrightarrow> chain_step c c'"
| step_late: "i \<in> set (pq_abandoned c) \<Longrightarrow> chain_step c (chain_late i c)"

end
