(* ===== verification/ProjectProps.thy ===== *)
theory ProjectProps
  imports Projects OrgChartProps
begin

section \<open>Hierarchies and new projects\<close>

text \<open>
  The walk of the linter along the parents decides whether it runs into a cycle, and what it reports is such a cycle. A project
  that was created is discovered, and is sound, exactly when its id is one the manifest schema accepts.
\<close>

subsection \<open>Circular parents\<close>

definition parent_edges :: "project_record list \<Rightarrow> (string \<times> string) set" where
  "parent_edges ps = chain_edges (parent_links ps)"

lemma parent_cycle_loops:
  "set path = set visited \<Longrightarrow> parent_cycle links path cur \<noteq> None \<longleftrightarrow> chain_loops links visited cur"
proof (induction links path cur arbitrary: visited rule: parent_cycle.induct)
  case (2 links path current)
  then show ?case using "2.IH" [of "current # visited"] by auto
qed simp

lemma successively_suffix: "successively R (xs @ ys) \<Longrightarrow> successively R ys"
  by (simp add: successively_append_iff)

lemma parent_cycle_shape:
  assumes "parent_cycle links path (Some cur) = Some cycle" "successively (\<lambda>a b. (a, b) \<in> chain_edges links) (path @ [cur])"
  shows "2 \<le> length cycle \<and> hd cycle = last cycle \<and> successively (\<lambda>a b. (a, b) \<in> chain_edges links) cycle \<and>
    hd cycle \<in> (chain_edges links)\<^sup>* `` {hd (path @ [cur])}"
  using assms
proof (induction links path "Some cur" arbitrary: cur rule: parent_cycle.induct)
  case (2 links path cur)
  let ?R = "\<lambda>a b. (a, b) \<in> chain_edges links"
  have c: "cur \<noteq> []" using "2.prems"(1) by (auto split: if_splits)
  show ?case
  proof (cases "cur \<in> set path")
    case True
    let ?d = "dropWhile (\<lambda>x. x \<noteq> cur) path" and ?t = "takeWhile (\<lambda>x. x \<noteq> cur) path"
    have cycle: "cycle = ?d @ [cur]" using "2.prems"(1) True c by simp
    have d: "?d \<noteq> []" "hd ?d = cur" using True hd_dropWhile [of "\<lambda>x. x \<noteq> cur" path] by (auto simp: dropWhile_eq_Nil_conv)
    have "successively ?R (?t @ (?d @ [cur]))"
      using "2.prems"(2) by (simp only: append_assoc [symmetric] takeWhile_dropWhile_id)
    then have s: "successively ?R (?d @ [cur])" by (rule successively_suffix)
    have reach: "(hd xs, last xs) \<in> (chain_edges links)\<^sup>*" if "successively ?R xs" "xs \<noteq> []" for xs
      using that by (induction xs rule: induct_list012) (auto intro: converse_rtrancl_into_rtrancl)
    have "(hd (path @ [cur]), cur) \<in> (chain_edges links)\<^sup>*" using reach [OF "2.prems"(2)] by simp
    then show ?thesis using cycle d s by (cases ?d) auto
  next
    case False
    let ?n = "case map_of links cur of None \<Rightarrow> None | Some parent \<Rightarrow> parent"
    from False c "2.prems"(1) obtain b where b: "?n = Some b" "parent_cycle links (path @ [cur]) (Some b) = Some cycle"
      by (cases ?n) auto
    have "b \<noteq> []" using b(2) by (auto split: if_splits)
    then have "(cur, b) \<in> chain_edges links" using b(1) c by (auto simp: chain_edge split: option.splits)
    then have "successively ?R ((path @ [cur]) @ [b])"
      using "2.prems"(2) by (subst successively_append_iff) auto
    from "2.hyps" [OF c False b(1) b(2) this] show ?thesis by (cases path) auto
  qed
qed

text \<open>C35: the search for circular parents is exact. It terminates on every set of projects; it reports a cycle for a project exactly
  when the chain of parents of the project runs into one, whether or not the project itself lies on it; and what it reports is a
  cycle: a chain of at least two ids, each the parent of the one before, that ends where it begins.\<close>

theorem circular_parent_exact:
  "(detectCircularParent i ps \<noteq> None \<longleftrightarrow> (\<exists>x. (i, x) \<in> (parent_edges ps)\<^sup>* \<and> (x, x) \<in> (parent_edges ps)\<^sup>+)) \<and>
   (\<forall>cycle. detectCircularParent i ps = Some cycle \<longrightarrow>
      2 \<le> length cycle \<and> hd cycle = last cycle \<and> successively (\<lambda>a b. (a, b) \<in> parent_edges ps) cycle \<and> (i, hd cycle) \<in> (parent_edges ps)\<^sup>*)"
proof -
  have "detectCircularParent i ps \<noteq> None \<longleftrightarrow> chain_loops (parent_links ps) [] (Some i)"
    unfolding detectCircularParent_def by (rule parent_cycle_loops) simp
  moreover have "chain_loops (parent_links ps) [] (Some i) \<longleftrightarrow> (\<exists>x. (i, x) \<in> (parent_edges ps)\<^sup>* \<and> (x, x) \<in> (parent_edges ps)\<^sup>+)"
    unfolding parent_edges_def by (rule chain_loops_exact) simp
  ultimately show ?thesis
    using parent_cycle_shape [of "parent_links ps" "[]" i] by (auto simp: detectCircularParent_def parent_edges_def)
qed

subsection \<open>A new project\<close>

definition same_project :: "project_record \<Rightarrow> project_record \<Rightarrow> bool" where
  "same_project r r' \<longleftrightarrow> pj_id r' = pj_id r \<and> pj_error r' = pj_error r \<and> pj_manifest r' = pj_manifest r"

lemma populate_in:
  assumes "r \<in> set rs"
  obtains r' where "r' \<in> set (populateHierarchy rs)" "same_project r r'"
proof -
  have "same_project r (with_parent r)" by (simp add: same_project_def with_parent_def)
  then have "\<exists>r' \<in> set (populateHierarchy rs). same_project r r'"
    using assms by (auto simp: populateHierarchy_def Let_def same_project_def split: option.splits list.splits intro!: rev_bexI [of r])
  then show ?thesis using that by blast
qed

lemma discovered:
  assumes "(i, d) \<in> set v" "\<not> archived (loadProject i d)"
  obtains r where "r \<in> set (discoverProjects v False)" "same_project (loadProject i d) r"
proof -
  have "loadProject i d \<in> set (if ''_inbox'' \<in> set (map fst v) then map (\<lambda>(n, d). loadProject n d) v
      else createInboxPlaceholder # map (\<lambda>(n, d). loadProject n d) v)" using assms(1) by force
  from populate_in [OF this] obtain r where
    "r \<in> set (discoverProjects v True)" "same_project (loadProject i d) r" by (auto simp: discoverProjects_def Let_def)
  then show ?thesis using assms(2) that [of r] by (auto simp: discoverProjects_def Let_def archived_def same_project_def)
qed

lemma created:
  assumes "createProject i opts v = (Inr c, v')"
  shows "map_of v i = None" "cp_projectId c = i" "mf_id (cp_manifest c) = i" "mf_status (cp_manifest c) = PActive"
    "mf_parentId (cp_manifest c) = (if truthy_str (co_parentId opts) then co_parentId opts else None)"
    "mf_workflowTemplates (cp_manifest c) = None"
    "v' = v @ [(i, \<lparr>pd_manifest = Some (Readable (cp_manifest c)),
       pd_dirs = mkdirs (if co_template opts then [''memory''] else []) (bootstrapProject []), pd_tasks = [], pd_report = None\<rparr>)]"
  using assms unfolding createProject_def buildProjectManifest_def
  by (auto simp: Let_def or_else_def split: sum.splits if_splits)

lemma fresh_dirs: "dirs = mkdirs (if b then [''memory''] else []) (bootstrapProject []) \<Longrightarrow>
  validateDirectories dirs = [] \<and> validateArtifactTiers dirs = [] \<and> ''state'' \<in> set dirs"
proof -
  have "validateDirectories (mkdirs [''memory''] (bootstrapProject [])) = [] \<and> validateArtifactTiers (mkdirs [''memory''] (bootstrapProject [])) = [] \<and>
    ''state'' \<in> set (mkdirs [''memory''] (bootstrapProject []))" by code_simp
  moreover have "validateDirectories (mkdirs [] (bootstrapProject [])) = [] \<and> validateArtifactTiers (mkdirs [] (bootstrapProject [])) = [] \<and>
    ''state'' \<in> set (mkdirs [] (bootstrapProject []))" by code_simp
  ultimately show "dirs = mkdirs (if b then [''memory''] else []) (bootstrapProject []) \<Longrightarrow> ?thesis" by (cases b) simp_all
qed

text \<open>C36: a project that was created is found again. If its id is one the manifest schema accepts, discovery gives it back with the
  manifest that was written and without an error, and without a parent the linter has nothing to say about it. But creation
  accepts ids the schema rejects (those of one character, with an underscore or a leading hyphen, or longer than 64 characters):
  such a project is created and then discovered with an error, so that the service never polls it.\<close>

theorem created_discovered:
  assumes "createProject i opts v = (Inr c, v')"
  shows "\<exists>r \<in> set (discoverProjects v' False). pj_id r = i \<and>
    (if project_id_ok i
     then pj_error r = None \<and> pj_manifest r = Some (cp_manifest c) \<and>
       (\<not> truthy_str (co_parentId opts) \<longrightarrow> (\<exists>d. map_of v' i = Some d \<and>
          fst (lintProject show_dag ts r ps d) = Inr \<lparr>lo_projectId = i, lo_issues = [], lo_passed = True\<rparr>))
     else pj_error r \<noteq> None)"
proof -
  let ?d = "\<lparr>pd_manifest = Some (Readable (cp_manifest c)),
       pd_dirs = mkdirs (if co_template opts then [''memory''] else []) (bootstrapProject []), pd_tasks = [], pd_report = None\<rparr>"
  note c = created [OF assms]
  have parse: "parse_manifest (cp_manifest c) = (if project_id_ok i then Inr (cp_manifest c) else
      Inl (''Validation failed: '' @ join_with ''; '' [''id: Project ID must match [a-z0-9][a-z0-9-]{1,63} or be _inbox'']))"
    using c(3,6) by (simp add: parse_manifest_def or_else_def)
  have "(i, ?d) \<in> set v'" using c(7) by simp
  moreover have "\<not> archived (loadProject i ?d)" using c(4) by (auto simp: loadProject_def archived_def parse Let_def split: if_splits)
  ultimately obtain r where r: "r \<in> set (discoverProjects v' False)" "same_project (loadProject i ?d) r" by (rule discovered)
  have "map_of v' i = Some ?d" using c(1,7) by (simp add: map_add_def)
  moreover have "issues_of show_dag r ?d ps = []" if "project_id_ok i" "\<not> truthy_str (co_parentId opts)"
    using fresh_dirs [OF refl, of "co_template opts"] c(3,5,6) r(2) that
    by (auto simp: issues_of_def validateManifest_def truthy_str_def validateHierarchy_def manifest_parent_def validateWorkflowTemplates_def
        validateTasks_def same_project_def loadProject_def parse Let_def or_else_def)
  ultimately show ?thesis
    using r c(3) fresh_dirs [OF refl, of "co_template opts"]
    by (intro bexI [OF _ r(1)]) (auto simp: same_project_def loadProject_def parse lintProject_def Let_def)
qed

subsection \<open>Examples\<close>

definition child_of :: "string \<Rightarrow> string \<Rightarrow> project_record" where
  "child_of i parent = createInboxPlaceholder\<lparr>pj_id := i,
     pj_manifest := map_option (\<lambda>m. m\<lparr>mf_id := i, mf_parentId := Some parent\<rparr>) (pj_manifest createInboxPlaceholder)\<rparr>"

theorem circular_parent_exact_witness:
  "detectCircularParent ''x'' [child_of ''x'' ''a'', child_of ''a'' ''b'', child_of ''b'' ''a''] = Some [''a'', ''b'', ''a''] \<and>
   (''x'', ''a'') \<in> (parent_edges [child_of ''x'' ''a'', child_of ''a'' ''b'', child_of ''b'' ''a''])\<^sup>*"
proof -
  have "detectCircularParent ''x'' [child_of ''x'' ''a'', child_of ''a'' ''b'', child_of ''b'' ''a''] = Some [''a'', ''b'', ''a'']" by code_simp
  then show ?thesis using circular_parent_exact [of "''x''" "[child_of ''x'' ''a'', child_of ''a'' ''b'', child_of ''b'' ''a'']"] by simp
qed

definition plain_project :: create_project_opts where
  "plain_project = \<lparr>co_title = None, co_type = None, co_owner = None, co_parentId = None, co_template = True\<rparr>"

theorem created_discovered_witness:
  "(\<exists>c v'. createProject ''my-app'' plain_project [] = (Inr c, v') \<and>
     (\<exists>r \<in> set (discoverProjects v' False). pj_id r = ''my-app'' \<and> pj_error r = None)) \<and>
   (\<exists>c v'. createProject ''my_app'' plain_project [] = (Inr c, v') \<and>
     (\<exists>r \<in> set (discoverProjects v' False). pj_id r = ''my_app'' \<and> pj_error r \<noteq> None))"
proof -
  have ok: "project_id_ok ''my-app''" "\<not> project_id_ok ''my_app''" by code_simp+
  have "isl (fst (createProject ''my-app'' plain_project [])) = False" "isl (fst (createProject ''my_app'' plain_project [])) = False" by code_simp+
  then obtain c1 v1 c2 v2 where made: "createProject ''my-app'' plain_project [] = (Inr c1, v1)" "createProject ''my_app'' plain_project [] = (Inr c2, v2)"
    by (metis (no_types, lifting) isl_def prod.collapse sum.collapse(2))
  from created_discovered [OF made(1), where show_dag = "\<lambda>_. []" and ts = "[]" and ps = None]
    created_discovered [OF made(2), where show_dag = "\<lambda>_. []" and ts = "[]" and ps = None] ok made
  show ?thesis by auto
qed

end
