(* ===== verification/ServiceProps.thy ===== *)
theory ServiceProps
  imports Service ProjectProps PollProps
begin

section \<open>What the service guarantees\<close>

text \<open>
  Startup reclaims exactly the orphans of the stores it goes through, a poll of the service ends and stays in the limits of every
  store, and polls follow each other in the order of their triggers.
\<close>

subsection \<open>Stores side by side\<close>

definition store_world :: "service \<Rightarrow> string option \<Rightarrow> world" where
  "store_world s p = (case p of None \<Rightarrow> sv_root s | Some i \<Rightarrow> sv_disk s i)"

lemma enter_frame [simp]:
  "w_files (enter g w) = w_files w" "w_dirs (enter g w) = w_dirs w" "w_now (enter g w) = w_now g" "enter w w = w"
  by (simp_all add: enter_def)

lemma enter_store [simp]: "abs_store (enter g w) = abs_store w" "tidy (enter g w) = tidy w" "consistent (enter g w) = consistent w"
  by (rule files_frame tidy_frame_eq; simp)+

lemma enter_unique [simp]: "unique_hops (enter g w) = unique_hops w"
  by (simp add: unique_hops_def)

lemma enter_listed [simp]: "all_listed (enter g w) = all_listed w"
proof -
  have "file_at (enter g w) = file_at w" by (rule ext) (simp add: file_at_def)
  then have "task_at (enter g w) = task_at w" by (intro ext) (simp add: task_at_def)
  moreover have "stems_in (enter g w) = stems_in w" by (rule ext) (simp add: stems_in_def)
  ultimately have "listed (enter g w) = listed w" by (intro ext) (simp add: listed_def)
  then show ?thesis by (simp add: all_listed_def)
qed

text \<open>The world an operation on the store \<open>p\<close> starts in, and what it leaves of the stores.\<close>

definition entered :: "service \<Rightarrow> string option \<Rightarrow> world" where
  "entered s p = enter (sv_root s) (store_world s p)"

lemma entered_simps [simp]:
  "abs_store (entered s p) = abs_store (store_world s p)" "tidy (entered s p) = tidy (store_world s p)"
  "unique_hops (entered s p) = unique_hops (store_world s p)" "all_listed (entered s p) = all_listed (store_world s p)"
  "w_now (entered s p) = w_now (sv_root s)"
  by (simp_all add: entered_def)

lemma on_store_run:
  assumes "f (entered s p) = (r, w)"
  shows "\<exists>s'. on_store p f s = (r, s') \<and> sv_stores s' = sv_stores s \<and> w_now (sv_root s') = w_now w \<and>
    abs_store (store_world s' p) = abs_store w \<and> tidy (store_world s' p) = tidy w \<and>
    (\<forall>q. q \<noteq> p \<longrightarrow> abs_store (store_world s' q) = abs_store (store_world s q) \<and> tidy (store_world s' q) = tidy (store_world s q) \<and>
      unique_hops (store_world s' q) = unique_hops (store_world s q) \<and> all_listed (store_world s' q) = all_listed (store_world s q))"
proof (cases p)
  case None
  then show ?thesis using assms by (auto simp: on_store_def entered_def store_world_def split: option.splits)
next
  case (Some i)
  then show ?thesis using assms by (auto simp: on_store_def entered_def store_world_def split: option.splits)
qed

subsection \<open>Orphans\<close>

text \<open>A loop over the tasks of one status, each round of which treats its own task.\<close>

lemma status_sweep:
  assumes w: "tidy w" and step: "\<And>w1 t acc i fb. tidy w1 \<Longrightarrow> w_now w1 = w_now w \<Longrightarrow> abs_store w1 i = Some fb \<Longrightarrow> t = loaded i fb \<Longrightarrow>
      fm_id (fst fb) = i \<Longrightarrow> fm_status (fst fb) = st \<Longrightarrow>
      yields (f t acc) w1 (\<lambda>acc' w'. acc' = g t acc \<and>
        (if sel (fst fb) then updates w1 i (h fb) w' else tidy w' \<and> w_now w' = w_now w \<and> abs_store w' = abs_store w1))"
  shows "yields (bind (list_tasks (status_filter st)) (\<lambda>ts. fold_m f ts acc)) w (\<lambda>acc' w'. tidy w' \<and> w_now w' = w_now w \<and>
    (\<forall>i. abs_store w' i = map_option (\<lambda>fb. if fm_status (fst fb) = st \<and> sel (fst fb) then h fb else fb) (abs_store w i)))"
proof -
  note cons = tidy_consistent [OF w] and list = listed_status_in [OF tidy_consistent [OF w], where s = st]
  let ?ts = "listed w (status_filter st) st" and ?h = "\<lambda>t. h (t_fm t, t_body t)"
  have run: "yields (fold_m f ?ts acc) w (\<lambda>acc' w'. acc' = fold g ?ts acc \<and> tidy w' \<and> w_now w' = w_now w \<and> True \<and>
    (\<forall>t \<in> set ?ts. sel (t_fm t) \<longrightarrow> abs_store w' (fm_id (t_fm t)) = Some (?h t)) \<and>
    (\<forall>i. \<not> selected (\<lambda>t. sel (t_fm t)) ?ts i \<longrightarrow> abs_store w' i = abs_store w i))"
  proof (rule fold_update)
    fix w1 t acc
    assume w1: "tidy w1" "w_now w1 = w_now w" "t \<in> set ?ts" "abs_store w1 (fm_id (t_fm t)) = Some (t_fm t, t_body t)"
    obtain i fb where t: "abs_store w i = Some fb" "fm_status (fst fb) = st" "t = loaded i fb" using w1(3) list(3) by blast
    have i: "fm_id (fst fb) = i" using stored_id [OF cons t(1)] by simp
    have eq: "(t_fm t, t_body t) = fb" "fm_id (t_fm t) = i" "t_fm t = fst fb" using t(3) i by simp_all
    show "yields (f t acc) w1 (\<lambda>acc' w'. acc' = g t acc \<and> True \<and>
      (if sel (t_fm t) then updates w1 (fm_id (t_fm t)) (?h t) w' else tidy w' \<and> w_now w' = w_now w \<and> abs_store w' = abs_store w1))"
      using step [OF w1(1,2) w1(4) [unfolded eq(1,2)] t(3) i t(2), of acc] unfolding eq(1,2) unfolding eq(3) simp_thms .
  qed (use w list in simp_all)
  have at: "abs_store w' i = map_option (\<lambda>fb. if fm_status (fst fb) = st \<and> sel (fst fb) then h fb else fb) (abs_store w i)"
    if due: "\<forall>t \<in> set ?ts. sel (t_fm t) \<longrightarrow> abs_store w' (fm_id (t_fm t)) = Some (?h t)"
      and rest: "\<forall>i. \<not> selected (\<lambda>t. sel (t_fm t)) ?ts i \<longrightarrow> abs_store w' i = abs_store w i" for w' i
  proof (cases "\<exists>fb. abs_store w i = Some fb \<and> fm_status (fst fb) = st \<and> sel (fst fb)")
    case True
    then obtain fb where fb: "abs_store w i = Some fb" "fm_status (fst fb) = st" "sel (fst fb)" by blast
    then have "loaded i fb \<in> set ?ts" using list(3) by blast
    then show ?thesis using due fb stored_id [OF cons fb(1)] by fastforce
  next
    case False
    then have "\<not> selected (\<lambda>t. sel (t_fm t)) ?ts i"
      unfolding selected_def using list(3) stored_id [OF cons] by fastforce
    then show ?thesis using rest False by (cases "abs_store w i") auto
  qed
  show ?thesis
    unfolding yields_bind yields_list_status [OF cons] by (rule yields_mono [OF run]) (use at in blast)
qed

definition orphan :: "frontmatter \<Rightarrow> bool" where
  "orphan fm \<longleftrightarrow> fm_status fm = InProgress \<and> (case fm_workflow fm of None \<Rightarrow> True | Some workflow \<Rightarrow> any_dispatched (tw_state workflow))"

definition reclaimed_fm :: "int \<Rightarrow> frontmatter \<Rightarrow> frontmatter" where
  "reclaimed_fm ts fm = (case fm_workflow fm of
     None \<Rightarrow> transition_fm fm Ready None ts
   | Some workflow \<Rightarrow> advanced workflow (reset_hops (tw_state workflow)) ts fm)"

lemma no_orphan_left: "fm_status fm = InProgress \<Longrightarrow> \<not> orphan (reclaimed_fm ts fm)"
  by (auto simp: orphan_def reclaimed_fm_def transition_fm_def Let_def any_dispatched_def reset_hops_def reset_hop_def list_ex_iff
      split: option.splits if_splits)

lemma reclaim_run:
  assumes "tidy w" "abs_store w i = Some fb" "t = loaded i fb" "fm_id (fst fb) = i" "fm_status (fst fb) = InProgress"
  shows "yields (reclaim_task t n) w (\<lambda>n' w'. n' = (if fm_workflow (t_fm t) = None then n + 1 else n) \<and>
    (if orphan (fst fb) then updates w i (reclaimed_fm (w_now w) (fst fb), js_trim (snd fb)) w'
     else tidy w' \<and> w_now w' = w_now w \<and> abs_store w' = abs_store w))"
proof (cases "fm_workflow (fst fb)")
  case None
  let ?o = "no_opts\<lparr>to_reason := Some ''startup_reconciliation''\<rparr>"
  have t: "t_fm t = fst fb" using assms(3) by simp
  have "isValidTransition (fm_status (fst fb)) Ready" using assms(5) by (simp add: isValidTransition_def)
  note step = yields_transition [OF assms(1,2) this]
  show ?thesis
    unfolding reclaim_task_def t None option.case assms(4)
    by (rule yields_catch, unfold yields_bind, rule step)
      (use None assms(5) in \<open>auto simp: yields_andThen yields_pure orphan_def reclaimed_fm_def no_opts_def intro!: yields_log_best\<close>)
next
  case (Some flow)
  show ?thesis
  proof (cases "any_dispatched (tw_state flow)")
    case False
    then show ?thesis using assms Some by (simp add: reclaim_task_def yields_pure orphan_def)
  next
    case True
    then have orphan: "orphan (fst fb)" using Some assms(5) by (simp add: orphan_def)
    show ?thesis
      unfolding reclaim_task_def
      by (simp add: assms(3) Some True orphan yields_simps, rule yields_save [OF assms(1,2)])
        (use assms(3,4) Some in \<open>auto simp: with_state_fm with_state_def reclaimed_fm_def advanced_def yields_pure intro!: yields_log_best\<close>)
  qed
qed

definition reclaimed_at :: "int \<Rightarrow> frontmatter \<times> string \<Rightarrow> frontmatter \<times> string" where
  "reclaimed_at ts fb = (if orphan (fst fb) then (reclaimed_fm ts (fst fb), js_trim (snd fb)) else fb)"

lemma reconcile_store_run:
  assumes "tidy w"
  shows "yields (reconcile_store n) w (\<lambda>n' w'. tidy w' \<and> w_now w' = w_now w \<and>
    (\<forall>i. abs_store w' i = map_option (reclaimed_at (w_now w)) (abs_store w i)))"
proof -
  have "yields (reconcile_store n) w (\<lambda>n' w'. tidy w' \<and> w_now w' = w_now w \<and>
    (\<forall>i. abs_store w' i = map_option (\<lambda>fb. if fm_status (fst fb) = InProgress \<and> orphan (fst fb)
       then (reclaimed_fm (w_now w) (fst fb), js_trim (snd fb)) else fb) (abs_store w i)))"
    unfolding reconcile_store_def
    by (rule status_sweep [OF assms, where g = "\<lambda>t n. if fm_workflow (t_fm t) = None then n + 1 else n" and
          h = "\<lambda>fb. (reclaimed_fm (w_now w) (fst fb), js_trim (snd fb))" and sel = orphan])
      (rule yields_mono [OF reclaim_run], auto)
  then show ?thesis
    by (rule yields_mono) (auto simp: reclaimed_at_def orphan_def fun_eq_iff intro!: option.map_cong)
qed

lemma reconcile_stores_run:
  assumes "distinct ps" "\<forall>p \<in> set ps. tidy (store_world s p)"
  shows "\<exists>n' s'. reconcile_stores ps n s = (Inr n', s') \<and> sv_stores s' = sv_stores s \<and> w_now (sv_root s') = w_now (sv_root s) \<and>
    (\<forall>p i. abs_store (store_world s' p) i =
      (if p \<in> set ps then map_option (reclaimed_at (w_now (sv_root s))) (abs_store (store_world s p) i) else abs_store (store_world s p) i))"
  using assms
proof (induction ps arbitrary: n s)
  case (Cons p ps)
  have "tidy (entered s p)" using Cons.prems by simp
  from reconcile_store_run [OF this, of n] obtain n1 w1 where one: "reconcile_store n (entered s p) = (Inr n1, w1)"
    "w_now w1 = w_now (sv_root s)" "\<And>i. abs_store w1 i = map_option (reclaimed_at (w_now (sv_root s))) (abs_store (store_world s p) i)"
    unfolding yields_def by auto
  from on_store_run [where f = "reconcile_store n" and s = s and p = p, OF one(1)] one(2,3) obtain s1 where s1: "on_store p (reconcile_store n) s = (Inr n1, s1)"
    "sv_stores s1 = sv_stores s" "w_now (sv_root s1) = w_now (sv_root s)"
    "\<And>i. abs_store (store_world s1 p) i = map_option (reclaimed_at (w_now (sv_root s))) (abs_store (store_world s p) i)"
    "\<And>q. q \<noteq> p \<Longrightarrow> abs_store (store_world s1 q) = abs_store (store_world s q) \<and> tidy (store_world s1 q) = tidy (store_world s q)"
    by auto
  have "\<forall>q \<in> set ps. tidy (store_world s1 q)" using Cons.prems s1(5) by (metis distinct.simps(2) list.set_intros(2))
  from Cons.IH [OF _ this, of n1] Cons.prems(1) obtain n' s' where
    s': "reconcile_stores ps n1 s1 = (Inr n', s')" "sv_stores s' = sv_stores s1" "w_now (sv_root s') = w_now (sv_root s1)"
    "\<And>q i. abs_store (store_world s' q) i = (if q \<in> set ps then map_option (reclaimed_at (w_now (sv_root s1))) (abs_store (store_world s1 q) i)
       else abs_store (store_world s1 q) i)" by auto
  have "abs_store (store_world s' q) i =
      (if q \<in> set (p # ps) then map_option (reclaimed_at (w_now (sv_root s))) (abs_store (store_world s q) i) else abs_store (store_world s q) i)" for q i
    using s'(4) [of q i] s1(3,4) s1(5) [of q] Cons.prems(1) by (cases "q = p") auto
  then show ?case using s1(1-3) s'(1-3) by auto
qed simp

text \<open>C37: what startup reclaims. Of every store it goes through, which are the project stores when there are some and the store of
  the data directory otherwise, exactly the tasks left in progress without a workflow go back to ready, without their lease,
  and exactly the hops left dispatched are made ready in their workflow, whose task stays in progress; no orphan is left and
  nothing else changes. With projects the store of the data directory, which is polled like the others, is not gone through,
  and its orphans stay as they are.\<close>

theorem orphans_reclaimed:
  assumes "distinct (sv_stores s)" "\<forall>p \<in> set (stores_to_reconcile env s). tidy (store_world s p)"
  shows "\<exists>n s'. reconcileOrphans env s = (Inr n, s') \<and>
    (\<forall>p i. abs_store (store_world s' p) i =
      (if p \<in> set (stores_to_reconcile env s) then map_option (reclaimed_at (w_now (sv_root s))) (abs_store (store_world s p) i)
       else abs_store (store_world s p) i)) \<and>
    (\<forall>p \<in> set (stores_to_reconcile env s). \<forall>i fb. abs_store (store_world s' p) i = Some fb \<longrightarrow> \<not> orphan (fst fb))"
proof -
  have "distinct (stores_to_reconcile env s)" using assms(1) by (simp add: stores_to_reconcile_def distinct_map)
  from reconcile_stores_run [OF this assms(2), of 0] obtain n s' where s': "reconcileOrphans env s = (Inr n, s')"
    "\<And>p i. abs_store (store_world s' p) i =
      (if p \<in> set (stores_to_reconcile env s) then map_option (reclaimed_at (w_now (sv_root s))) (abs_store (store_world s p) i)
       else abs_store (store_world s p) i)" by (auto simp: reconcileOrphans_def)
  moreover have "\<not> orphan (fst fc)" if "p \<in> set (stores_to_reconcile env s)" "abs_store (store_world s' p) i = Some fc" for p i fc
  proof -
    from that s'(2) obtain fb where fc: "reclaimed_at (w_now (sv_root s)) fb = fc" by (auto simp: map_option_eq_Some)
    then show ?thesis
      using no_orphan_left [of "fst fb" "w_now (sv_root s)"]
      by (cases "orphan (fst fb)") (auto simp: reclaimed_at_def, auto simp: orphan_def)
  qed
  ultimately show ?thesis by blast
qed

subsection \<open>Polling all stores\<close>

text \<open>What a poll of one store needs, and what it reports of the store.\<close>

definition pollable :: "service_env \<Rightarrow> service \<Rightarrow> string option \<Rightarrow> bool" where
  "pollable env s p \<longleftrightarrow> tidy (store_world s p) \<and> unique_hops (store_world s p) \<and> (\<exists>r. quiet_executor (pv_config (sx_poll env p)) r)"

definition polled_in_limits :: "service_env \<Rightarrow> service \<Rightarrow> string option \<Rightarrow> poll_result \<Rightarrow> bool" where
  "polled_in_limits env s p r \<longleftrightarrow> (\<exists>planned hops. pr_actions r = planned @ hops \<and>
     in_limits (sx_poll env p) (all_listed (store_world s p)) planned \<and> (\<forall>a \<in> set hops. ac_type a = Assign))"

lemma poll_stores_run:
  assumes "distinct ps" "\<forall>p \<in> set ps. pollable env s p"
  shows "\<exists>rs s'. poll_stores env ps s = (rs, s') \<and> list_all2 (polled_in_limits env s) ps rs \<and> sv_stores s' = sv_stores s"
  using assms
proof (induction ps arbitrary: s)
  case (Cons p ps)
  from Cons.prems(2) obtain r where "tidy (entered s p)" "unique_hops (entered s p)" "quiet_executor (pv_config (sx_poll env p)) r"
    by (auto simp: pollable_def)
  from poll_ends [OF this] obtain res w planned hops where poll: "poll (sx_poll env p) (entered s p) = (Inr res, w)"
    and res: "pr_actions res = planned @ hops" "in_limits (sx_poll env p) (all_listed (entered s p)) planned" "\<forall>a. a \<in> set hops \<longrightarrow> ac_type a = Assign"
    by blast
  from on_store_run [where f = "poll (sx_poll env p)" and s = s and p = p, OF poll] obtain s1 where
    s1: "on_store p (poll (sx_poll env p)) s = (Inr res, s1)" "sv_stores s1 = sv_stores s"
    and other: "\<And>q. q \<noteq> p \<Longrightarrow> tidy (store_world s1 q) = tidy (store_world s q) \<and> unique_hops (store_world s1 q) = unique_hops (store_world s q) \<and>
      all_listed (store_world s1 q) = all_listed (store_world s q)" by blast
  have p: "p \<notin> set ps" "distinct ps" using Cons.prems(1) by simp_all
  then have same: "pollable env s1 q = pollable env s q" "polled_in_limits env s1 q = polled_in_limits env s q" if "q \<in> set ps" for q
  proof -
    from p(1) that have "q \<noteq> p" by blast
    note other [OF this]
    then show "pollable env s1 q = pollable env s q" "polled_in_limits env s1 q = polled_in_limits env s q"
      by (simp_all add: pollable_def polled_in_limits_def fun_eq_iff)
  qed
  then have "\<forall>q \<in> set ps. pollable env s1 q" using Cons.prems(2) by simp
  from Cons.IH [OF p(2) this] obtain rs s' where rest: "poll_stores env ps s1 = (rs, s')" "list_all2 (polled_in_limits env s1) ps rs"
    "sv_stores s' = sv_stores s1" by blast
  have "list_all2 (polled_in_limits env s) ps rs"
    using rest(2) same(2) by (auto simp: list_all2_conv_all_nth)
  moreover have "polled_in_limits env s p res" using res by (auto simp: polled_in_limits_def)
  ultimately show ?case using s1 rest by auto
qed simp

definition polled_stores :: "service_env \<Rightarrow> service \<Rightarrow> string option list" where
  "polled_stores env s = (if sx_vault env \<and> length (sv_stores s) > 0 then None # map Some (sv_stores s) else [None])"


subsection \<open>The chain of polls\<close>

definition chain_reachable :: "poll_chain \<Rightarrow> bool" where
  "chain_reachable c \<longleftrightarrow> chain_step\<^sup>*\<^sup>* new_chain c"

text \<open>The polls whose work goes on: the one the chain waits for and those given up.\<close>

definition executing :: "poll_chain \<Rightarrow> nat" where
  "executing c = length (pq_abandoned c) + (if pq_current c = None then 0 else 1)"

lemmas chain_defs = chain_trigger_def chain_start_def chain_stop_def chain_begin_def chain_finish_def chain_timeout_def chain_late_def

definition current_poll :: "poll_chain \<Rightarrow> nat list" where
  "current_poll c = (case pq_current c of None \<Rightarrow> [] | Some i \<Rightarrow> [i])"

definition chain_inv :: "poll_chain \<Rightarrow> bool" where
  "chain_inv c \<longleftrightarrow> pq_started c @ pq_waiting c = [0..<pq_next c] \<and>
     mset (pq_started c) = mset (pq_recorded c) + mset (pq_timedOut c) + mset (current_poll c) \<and>
     length (pq_abandoned c) \<le> length (pq_timedOut c)"

lemma chain_step_inv: "chain_step c c' \<Longrightarrow> chain_inv c \<Longrightarrow> chain_inv c'"
  by (cases rule: chain_step.cases)
    (auto simp: chain_inv_def chain_defs current_poll_def length_remove1 split: option.splits list.splits if_splits)

lemma chain_reachable_inv: "chain_reachable c \<Longrightarrow> chain_inv c"
  unfolding chain_reachable_def
proof (induction rule: rtranclp_induct)
  case base
  then show ?case by (simp add: new_chain_def chain_inv_def current_poll_def)
qed (rule chain_step_inv)

lemma chain_idle: "\<exists>c'. chain_step\<^sup>*\<^sup>* c c' \<and> pq_current c' = None \<and> pq_waiting c' = pq_waiting c \<and> pq_next c' = pq_next c"
proof (cases "pq_current c")
  case (Some i)
  then have "chain_finish c = Some (c\<lparr>pq_current := None, pq_recorded := pq_recorded c @ [i]\<rparr>)" by (simp add: chain_finish_def)
  then show ?thesis by (auto intro!: exI r_into_rtranclp step_finish)
qed auto

lemma chain_drains: "\<exists>c'. chain_step\<^sup>*\<^sup>* c c' \<and> pq_current c' = None \<and> pq_waiting c' = [] \<and> pq_next c' = pq_next c"
proof (induction "length (pq_waiting c)" arbitrary: c)
  case 0
  then show ?case using chain_idle [of c] by simp
next
  case (Suc n)
  obtain c1 where c1: "chain_step\<^sup>*\<^sup>* c c1" "pq_current c1 = None" "pq_waiting c1 = pq_waiting c" "pq_next c1 = pq_next c"
    using chain_idle [of c] by blast
  with Suc(2) obtain i rest where rest: "pq_waiting c1 = i # rest" "length rest = n" by (cases "pq_waiting c") auto
  let ?c2 = "c1\<lparr>pq_current := Some i, pq_waiting := rest, pq_started := pq_started c1 @ [i]\<rparr>"
  have "chain_step c1 ?c2" by (rule step_begin) (simp add: chain_begin_def c1(2) rest(1))
  moreover obtain c' where "chain_step\<^sup>*\<^sup>* ?c2 c'" "pq_current c' = None" "pq_waiting c' = []" "pq_next c' = pq_next ?c2"
    using Suc(1) [of ?c2] rest by auto
  ultimately show ?case using c1(1,4) by (intro exI [of _ c']) (auto intro: rtranclp_trans converse_rtranclp_into_rtranclp)
qed


text \<open>Two polls execute at once after a timeout.\<close>

definition overlapping :: poll_chain where
  "overlapping = \<lparr>pq_running = True, pq_next = 2, pq_waiting = [], pq_current = Some 1, pq_abandoned = [0], pq_started = [0, 1],
     pq_recorded = [], pq_timedOut = [0]\<rparr>"

lemma overlapping_reachable: "chain_reachable overlapping"
proof -
  have "the (chain_begin (chain_trigger (the (chain_timeout (the (chain_begin (chain_start new_chain))))))) = overlapping" by code_simp
  moreover have "chain_step new_chain (chain_start new_chain)" by (rule step_start)
  moreover have "chain_step (chain_start new_chain) (the (chain_begin (chain_start new_chain)))"
    by (rule step_begin) (simp add: chain_defs new_chain_def)
  moreover have "chain_step (the (chain_begin (chain_start new_chain))) (the (chain_timeout (the (chain_begin (chain_start new_chain)))))"
    by (rule step_timeout) (simp add: chain_defs new_chain_def)
  moreover have "chain_step (the (chain_timeout (the (chain_begin (chain_start new_chain)))))
      (chain_trigger (the (chain_timeout (the (chain_begin (chain_start new_chain))))))" by (rule step_trigger)
  moreover have "chain_step (chain_trigger (the (chain_timeout (the (chain_begin (chain_start new_chain))))))
      (the (chain_begin (chain_trigger (the (chain_timeout (the (chain_begin (chain_start new_chain))))))))"
    by (rule step_begin) (simp add: chain_defs new_chain_def)
  ultimately show ?thesis unfolding chain_reachable_def by (metis (no_types, lifting) rtranclp.rtrancl_into_rtrancl rtranclp.rtrancl_refl)
qed


subsection \<open>Examples\<close>

text \<open>A service with a vault in which only the inbox exists; one task lies in the data directory and one in the inbox.\<close>

definition idle_router :: router_config where
  "idle_router = \<lparr>pc_notify = None, pc_known = None, pc_cascadeBlocks = False, pc_executor = None, pc_spawnTimeoutMs = 30000,
     pc_exists = \<lambda>p. False, pc_iso = \<lambda>t. [], pc_hash = \<lambda>s. [], pc_stringify = \<lambda>j. [], pc_uuid = \<lambda>i. i\<rparr>"

definition service_example :: "poll_env \<Rightarrow> service_env" where
  "service_example pe = \<lparr>sx_vault = True, sx_poll = \<lambda>p. pe, sx_router = idle_router,
     sx_parser = \<lparr>pl_parseJson = \<lambda>s. Inl [], pl_datetime = \<lambda>s. None, pl_issues = \<lambda>j. []\<rparr>\<rparr>"

definition two_stores :: "frontmatter \<Rightarrow> frontmatter \<Rightarrow> service" where
  "two_stores a b = \<lparr>sv_root = tasks_world [a], sv_vault = [], sv_disk = \<lambda>i. tasks_world [b], sv_stores = [''_inbox''], sv_running = True,
     sv_lastPollAt = None, sv_lastError = None, sv_lastPollResult = None\<rparr>"

lemma two_stores_simps [simp]:
  "store_world (two_stores a b) None = tasks_world [a]" "store_world (two_stores a b) (Some i) = tasks_world [b]"
  "sv_stores (two_stores a b) = [''_inbox'']"
  by (simp_all add: two_stores_def store_world_def)

lemma two_stores_rediscover: "rediscoverProjects (service_example pe) (two_stores a b) = (Inr (), two_stores a b)"
proof -
  have "discoverProjects [] False = [createInboxPlaceholder]" by code_simp
  then show ?thesis by (simp add: rediscoverProjects_def service_example_def two_stores_def createInboxPlaceholder_def)
qed

theorem orphans_reclaimed_witness:
  "\<exists>n s' fm b. reconcileOrphans (service_example sample_poll) (two_stores (sample_fm ''r'' InProgress) (sample_fm ''t'' InProgress)) = (Inr n, s') \<and>
     abs_store (sv_disk s' ''_inbox'') ''t'' = Some (fm, b) \<and> fm_status fm = Ready \<and>
     abs_store (sv_root s') ''r'' = Some (sample_fm ''r'' InProgress, ''body'')"
proof -
  let ?s = "two_stores (sample_fm ''r'' InProgress) (sample_fm ''t'' InProgress)"
  have ps: "stores_to_reconcile (service_example sample_poll) ?s = [Some ''_inbox'']"
    by (simp add: stores_to_reconcile_def service_example_def)
  from orphans_reclaimed [of ?s "service_example sample_poll"] obtain n s' where s':
    "reconcileOrphans (service_example sample_poll) ?s = (Inr n, s')"
    "\<forall>p i. abs_store (store_world s' p) i = (if p = Some ''_inbox'' then map_option (reclaimed_at (w_now (sv_root ?s))) (abs_store (store_world ?s p) i)
       else abs_store (store_world ?s p) i)" unfolding ps by auto
  from s'(2) [rule_format, of "Some ''_inbox''" "''t''"] s'(2) [rule_format, of None "''r''"]
  have "abs_store (sv_disk s' ''_inbox'') ''t'' = Some (reclaimed_at (w_now (sv_root ?s)) (sample_fm ''t'' InProgress, ''body''))"
    "abs_store (sv_root s') ''r'' = Some (sample_fm ''r'' InProgress, ''body'')" by (simp_all add: store_world_def two_stores_def)
  moreover have "fm_status (fst (reclaimed_at ts (sample_fm ''t'' InProgress, ''body''))) = Ready" for ts
    by (simp add: reclaimed_at_def orphan_def reclaimed_fm_def transition_fm_def Let_def)
  ultimately show ?thesis using s'(1) by (metis prod.collapse)
qed


text \<open>Fact: the limit on concurrent tasks is the limit of one store. With a limit of one, a single poll of the service puts a task of
  the data directory and a task of the inbox in progress.\<close>

definition one_at_a_time :: poll_env where
  "one_at_a_time = sample_poll\<lparr>pv_dispatch := (pv_dispatch sample_poll)\<lparr>dc_maxConcurrentDispatches := Some 1\<rparr>\<rparr>"

theorem limit_per_store:
  "let s = runPoll (service_example one_at_a_time) (two_stores (sample_fm sample_id Ready) (sample_fm sample_id Ready)) in
   map_option (\<lambda>fb. fm_status (fst fb)) (abs_store (sv_root s) sample_id) = Some InProgress \<and>
   map_option (\<lambda>fb. fm_status (fst fb)) (abs_store (sv_disk s ''_inbox'') sample_id) = Some InProgress"
  by code_simp

end
