(* ===== verification/Notifications.thy ===== *)
theory Notifications
  imports FailureTracker
begin

section \<open>Notifications (events/notification-policy/, events/notifier.ts)\<close>

text \<open>
  Every event of the log is offered to the policy engine, which finds the first rule that matches, suppresses repetitions and
  hands a message to an adapter. Beside it are the loader of rule files, the batcher of storms, the map from audiences to
  channels, and the older notification service with fixed channels and templates. Strings are UTF-8; console output is left out.
\<close>

subsection \<open>Rules (rules.ts, severity.ts)\<close>

datatype alert_severity = AInfo | AWarn | ACritical

datatype audience = ToAgent | ToTeamLead | ToOperator

record notification_rule =
  nr_eventType :: string
  nr_payload :: "(string \<times> json) list option"
  nr_severity :: alert_severity
  nr_audience :: "audience list"
  nr_channel :: string
  nr_template :: string
  nr_dedupeWindowMs :: "int option"
  nr_neverSuppress :: bool

definition rule_for ::
  "string \<Rightarrow> (string \<times> json) list option \<Rightarrow> alert_severity \<Rightarrow> audience list \<Rightarrow> string \<Rightarrow> string \<Rightarrow> int option \<Rightarrow> bool \<Rightarrow> notification_rule" where
  "rule_for eventType payload severity audience channel template dedupeWindowMs neverSuppress =
     \<lparr>nr_eventType = eventType, nr_payload = payload, nr_severity = severity, nr_audience = audience, nr_channel = channel,
      nr_template = template, nr_dedupeWindowMs = dedupeWindowMs, nr_neverSuppress = neverSuppress\<rparr>"

definition DEFAULT_RULES :: "notification_rule list" where
  "DEFAULT_RULES = [
   rule_for ''task.transitioned'' (Some [(''to'', JStr ''review'')]) AWarn [ToTeamLead, ToOperator] ''#aof-review''
     ([CHR 0xF0, CHR 0x9F, CHR 0x91, CHR 0x80] @ '' {taskId} ready for review (by {actor})'') (Some 0) False,
   rule_for ''task.transitioned'' (Some [(''to'', JStr ''blocked'')]) AWarn [ToTeamLead, ToOperator] ''#aof-alerts''
     ([CHR 0xF0, CHR 0x9F, CHR 0x9A, CHR 0xA7] @ '' {taskId} blocked: {payload.reason}'') None False,
   rule_for ''task.transitioned'' (Some [(''to'', JStr ''done'')]) AInfo [ToAgent, ToTeamLead] ''#aof-dispatch''
     ([CHR 0xE2, CHR 0x9C, CHR 0x85] @ '' {actor} completed {taskId}'') None False,
   rule_for ''task.transitioned'' (Some [(''to'', JStr ''in-progress'')]) AInfo [ToAgent] ''#aof-dispatch''
     ([CHR 0xE2, CHR 0x96, CHR 0xB6, CHR 0xEF, CHR 0xB8, CHR 0x8F] @ '' {actor} started {taskId}'') None False,
   rule_for ''task.transitioned'' None AInfo [ToAgent] ''#aof-dispatch''
     ([CHR 0xF0, CHR 0x9F, CHR 0x94, CHR 0x84] @ '' {taskId}: {payload.from} '' @ [CHR 0xE2, CHR 0x86, CHR 0x92] @ '' {payload.to}'') None False,
   rule_for ''task.created'' None AInfo [ToAgent] ''#aof-dispatch''
     ([CHR 0xF0, CHR 0x9F, CHR 0x93, CHR 0xAC] @ '' Task {taskId} created: {payload.title}'') None False,
   rule_for ''task.blocked'' None AWarn [ToTeamLead, ToOperator] ''#aof-alerts''
     ([CHR 0xF0, CHR 0x9F, CHR 0x9A, CHR 0xA7] @ '' {taskId} blocked: {payload.reason}'') None False,
   rule_for ''task.deadletter'' None ACritical [ToOperator] ''#aof-alerts''
     ([CHR 0xF0, CHR 0x9F, CHR 0xAA, CHR 0xA6] @ '' Task {taskId} moved to dead letter: {payload.reason}'') None True,
   rule_for ''task.abandoned'' None ACritical [ToOperator] ''#aof-alerts''
     ([CHR 0xF0, CHR 0x9F, CHR 0x92, CHR 0x80] @ '' Task {taskId} may be abandoned (check run.json)'') None True,
   rule_for ''task.resurrected'' None AInfo [ToTeamLead] ''#aof-dispatch''
     ([CHR 0xF0, CHR 0x9F, CHR 0x94, CHR 0x81] @ '' Task {taskId} resurrected'') None False,
   rule_for ''task.dep.added'' None AInfo [ToAgent] ''#aof-dispatch''
     ([CHR 0xF0, CHR 0x9F, CHR 0x94, CHR 0x97] @ '' Dependency added to {taskId}: {payload.depId}'') None False,
   rule_for ''task.dep.removed'' None AInfo [ToAgent] ''#aof-dispatch''
     ([CHR 0xE2, CHR 0x9C, CHR 0x82, CHR 0xEF, CHR 0xB8, CHR 0x8F] @ '' Dependency removed from {taskId}: {payload.depId}'') None False,
   rule_for ''dependency.cascaded'' (Some [(''action'', JStr ''promote'')]) AInfo [ToOperator] ''#aof-dispatch''
     ([CHR 0xF0, CHR 0x9F, CHR 0x94, CHR 0x97] @ '' Cascade: {payload.count} task(s) promoted after {payload.trigger} completed'') (Some 30000) False,
   rule_for ''dependency.cascaded'' (Some [(''action'', JStr ''block'')]) AWarn [ToTeamLead, ToOperator] ''#aof-alerts''
     ([CHR 0xF0, CHR 0x9F, CHR 0x9A, CHR 0xA7] @ '' Cascade block: {payload.count} task(s) blocked '' @ [CHR 0xE2, CHR 0x80, CHR 0x94] @ '' upstream {payload.trigger} is blocked'') (Some 0) False,
   rule_for ''lease.expired'' None AWarn [ToTeamLead] ''#aof-alerts''
     ([CHR 0xE2, CHR 0x8F, CHR 0xB0] @ '' Lease expired on {taskId} (agent: {actor})'') None False,
   rule_for ''sla.violation'' None AWarn [ToTeamLead] ''#aof-alerts''
     ([CHR 0xE2, CHR 0x9A, CHR 0xA0, CHR 0xEF, CHR 0xB8, CHR 0x8F] @ '' SLA violation: {taskId} in-progress {payload.durationHrs}h (limit: {payload.limitHrs}h)'') (Some 900000) False,
   rule_for ''gate_timeout'' None AWarn [ToTeamLead] ''#aof-alerts''
     ([CHR 0xE2, CHR 0x8F, CHR 0xB1, CHR 0xEF, CHR 0xB8, CHR 0x8F] @ '' Gate timeout: {taskId} ({payload.gate})'') None False,
   rule_for ''gate_timeout_escalation'' None ACritical [ToOperator] ''#aof-critical''
     ([CHR 0xF0, CHR 0x9F, CHR 0x94, CHR 0xB4] @ '' Gate escalation: {taskId} escalated after {payload.elapsed}h'') None True,
   rule_for ''system.drift-detected'' None AWarn [ToOperator] ''#aof-alerts''
     ([CHR 0xE2, CHR 0x9A, CHR 0xA0, CHR 0xEF, CHR 0xB8, CHR 0x8F] @ '' Org chart drift: {payload.summary}'') None False,
   rule_for ''system.config-changed'' None AInfo [ToOperator] ''#aof-alerts''
     ([CHR 0xF0, CHR 0x9F, CHR 0x94, CHR 0xA7] @ '' Config changed: {payload.key}'') None False,
   rule_for ''system.shutdown'' None ACritical [ToOperator] ''#aof-critical''
     ([CHR 0xF0, CHR 0x9F, CHR 0x94, CHR 0xB4] @ '' AOF system shutting down'') None True,
   rule_for ''system.recovery'' None AWarn [ToOperator] ''#aof-alerts''
     ([CHR 0xF0, CHR 0x9F, CHR 0x9F, CHR 0xA2] @ '' Scheduler recovered'') None False,
   rule_for ''system.startup'' None AInfo [ToOperator] ''#aof-alerts''
     ([CHR 0xF0, CHR 0x9F, CHR 0x9F, CHR 0xA2] @ '' AOF system started'') None False,
   rule_for ''scheduler_alert'' None AWarn [ToOperator] ''#aof-alerts''
     ([CHR 0xF0, CHR 0x9F, CHR 0x94, CHR 0x94] @ '' Scheduler alert: {payload.reason}'') None False,
   rule_for ''murmur.review.dispatched'' None AInfo [ToTeamLead] ''#aof-dispatch''
     ([CHR 0xF0, CHR 0x9F, CHR 0x94, CHR 0x8D] @ '' Murmur review dispatched: {payload.taskTitle}'') None False,
   rule_for ''murmur.review.dispatch_failed'' None AWarn [ToOperator] ''#aof-alerts''
     ([CHR 0xE2, CHR 0x9A, CHR 0xA0, CHR 0xEF, CHR 0xB8, CHR 0x8F] @ '' Murmur dispatch failed: {payload.error}'') None False,
   rule_for ''murmur.review.dispatch_error'' None AWarn [ToOperator] ''#aof-alerts''
     ([CHR 0xE2, CHR 0x9A, CHR 0xA0, CHR 0xEF, CHR 0xB8, CHR 0x8F] @ '' Murmur dispatch error: {payload.error}'') None False,
   rule_for ''murmur.evaluation.error'' None AWarn [ToOperator] ''#aof-alerts''
     ([CHR 0xE2, CHR 0x9A, CHR 0xA0, CHR 0xEF, CHR 0xB8, CHR 0x8F] @ '' Murmur evaluation error: {payload.error}'') None False,
   rule_for ''murmur.evaluation.failed'' None AWarn [ToOperator] ''#aof-alerts''
     ([CHR 0xE2, CHR 0x9A, CHR 0xA0, CHR 0xEF, CHR 0xB8, CHR 0x8F] @ '' Murmur evaluation failed: {payload.error}'') None False]"

definition ends_with :: "string \<Rightarrow> string \<Rightarrow> bool" where
  "ends_with suffix s = str_prefix (rev suffix) (rev s)"

definition matchesEventType :: "string \<Rightarrow> string \<Rightarrow> bool" where
  "matchesEventType pattern eventType =
     (if pattern = eventType then True
      else if ends_with ''.*'' pattern then str_prefix (take (length pattern - 2) pattern @ ''.'') eventType
      else False)"

definition ALWAYS_CRITICAL_EVENTS :: "string list" where
  "ALWAYS_CRITICAL_EVENTS =
     [''system.shutdown'', ''task.abandoned'', ''task.deadletter'', ''gate_timeout_escalation'', ''dag.hop_timeout_escalation'']"

definition isAlwaysCritical :: "string \<Rightarrow> bool" where
  "isAlwaysCritical eventType \<longleftrightarrow> eventType \<in> set ALWAYS_CRITICAL_EVENTS"

definition resolve_severity :: "alert_severity \<Rightarrow> string \<Rightarrow> alert_severity" where
  "resolve_severity ruleSeverity eventType = (if isAlwaysCritical eventType then ACritical else ruleSeverity)"

definition neverSuppress :: "string \<Rightarrow> bool \<Rightarrow> bool" where
  "neverSuppress eventType ruleNeverSuppress \<longleftrightarrow> ruleNeverSuppress \<or> isAlwaysCritical eventType"

subsection \<open>Messages (engine.ts)\<close>

text \<open>\<open>String(value)\<close>; numbers and dates are rendered by the two functions of the environment.\<close>

record text_env =
  tx_num :: "rat \<Rightarrow> string"
  tx_iso :: "int \<Rightarrow> string"

fun js_string :: "text_env \<Rightarrow> json \<Rightarrow> string" where
  "js_string env JNull = ''null''"
| "js_string env (JBool b) = (if b then ''true'' else ''false'')"
| "js_string env (JNum r) = tx_num env r"
| "js_string env (JStr s) = s"
| "js_string env (JTime t) = tx_iso env t"
| "js_string env (JArr vs) = join_with '','' (map (\<lambda>v. if v = JNull then [] else js_string env v) vs)"
| "js_string env (JObj kvs) = ''[object Object]''"

record base_event = event +
  be_eventId :: nat

definition event_object :: "base_event \<Rightarrow> json" where
  "event_object e = JObj
     ([(''eventId'', JNum (of_nat (be_eventId e))), (''type'', JStr (ev_type e)), (''timestamp'', JTime (ev_timestamp e)),
       (''actor'', JStr (ev_actor e))] @ opt_str ''taskId'' (ev_taskId e) @ [(''payload'', JObj (ev_payload e))])"

definition resolvePath :: "json \<Rightarrow> string \<Rightarrow> json option" where
  "resolvePath obj path = walk_path (Some obj) (split_on CHR ''.'' path)"

text \<open>The leftmost matches of \<open>/\{([^}]+)\}/g\<close>, each replaced by what \<open>subst\<close> makes of the path, or left as it is.\<close>

function replace_tokens :: "(string \<Rightarrow> string option) \<Rightarrow> string \<Rightarrow> string" where
  "replace_tokens subst [] = []"
| "replace_tokens subst (c # cs) =
     (let path = takeWhile (\<lambda>x. x \<noteq> CHR 0x7D) cs; rest = dropWhile (\<lambda>x. x \<noteq> CHR 0x7D) cs in
      if c = CHR 0x7B \<and> path \<noteq> [] \<and> rest \<noteq> []
      then or_else (subst path) ([c] @ path @ [CHR 0x7D]) @ replace_tokens subst (tl rest)
      else c # replace_tokens subst cs)"
  by pat_completeness auto
termination
  by (relation "measure (\<lambda>(subst, s). length s)") (auto simp: less_Suc_eq_le intro: le_trans [OF diff_le_self length_dropWhile_le])

definition renderTemplate :: "text_env \<Rightarrow> string \<Rightarrow> base_event \<Rightarrow> string" where
  "renderTemplate env template e = replace_tokens (\<lambda>path. case resolvePath (event_object e) path of
     None \<Rightarrow> None | Some JNull \<Rightarrow> None | Some v \<Rightarrow> Some (js_string env v)) template"

definition matchesPayload :: "(string \<times> json) list option \<Rightarrow> base_event \<Rightarrow> bool" where
  "matchesPayload rulePayload e = (case rulePayload of None \<Rightarrow> True
     | Some matchers \<Rightarrow> list_all (\<lambda>(key, expected). strict_eq (map_of (ev_payload e) key) (Some expected)) matchers)"

definition findMatchingRule :: "notification_rule list \<Rightarrow> base_event \<Rightarrow> notification_rule option" where
  "findMatchingRule rules e = find (\<lambda>r. matchesEventType (nr_eventType r) (ev_type e) \<and> matchesPayload (nr_payload r) e) rules"

subsection \<open>Suppression (deduper.ts)\<close>

record dedupe_entry =
  dd_lastSentAt :: int
  dd_windowMs :: int

record dedupe_store =
  dd_store :: "dedupe_entry js_map"
  dd_defaultWindowMs :: int

definition dedupe_key :: "string option \<Rightarrow> string \<Rightarrow> string" where
  "dedupe_key taskId eventType = or_else taskId ''global'' @ '':'' @ eventType"

definition shouldSend :: "int \<Rightarrow> string option \<Rightarrow> string \<Rightarrow> int option \<Rightarrow> dedupe_store \<Rightarrow> bool \<times> dedupe_store" where
  "shouldSend ts taskId eventType windowMs d =
     (let effectiveWindow = or_else windowMs (dd_defaultWindowMs d); key = dedupe_key taskId eventType in
      if effectiveWindow = 0 then (True, d)
      else if (case map_of (dd_store d) key of None \<Rightarrow> False | Some entry \<Rightarrow> ts - dd_lastSentAt entry < effectiveWindow)
      then (False, d)
      else (True, d\<lparr>dd_store := AList.update key \<lparr>dd_lastSentAt = ts, dd_windowMs = effectiveWindow\<rparr> (dd_store d)\<rparr>))"

definition clear_entry :: "string option \<Rightarrow> string \<Rightarrow> dedupe_store \<Rightarrow> dedupe_store" where
  "clear_entry taskId eventType d = d\<lparr>dd_store := AList.delete (dedupe_key taskId eventType) (dd_store d)\<rparr>"

definition clearAll :: "dedupe_store \<Rightarrow> dedupe_store" where
  "clearAll d = d\<lparr>dd_store := []\<rparr>"

subsection \<open>The engine (engine.ts)\<close>

record engine_stats =
  es_sent :: nat
  es_suppressed :: nat
  es_noMatch :: nat
  es_errors :: nat

record engine =
  ng_rules :: "notification_rule list"
  ng_deduper :: dedupe_store
  ng_enabled :: bool
  ng_stats :: engine_stats

definition no_stats :: engine_stats where
  "no_stats = \<lparr>es_sent = 0, es_suppressed = 0, es_noMatch = 0, es_errors = 0\<rparr>"

definition new_engine :: "notification_rule list \<Rightarrow> int option \<Rightarrow> bool option \<Rightarrow> engine" where
  "new_engine rules dedupeWindowMs enabled =
     \<lparr>ng_rules = rules, ng_deduper = \<lparr>dd_store = [], dd_defaultWindowMs = or_else dedupeWindowMs 300000\<rparr>,
      ng_enabled = or_else enabled True, ng_stats = no_stats\<rparr>"

text \<open>\<open>sends channel message\<close> says whether the adapter's \<open>send\<close> resolves. The result is what was handed to the adapter.\<close>

definition deliver :: "text_env \<Rightarrow> (string \<Rightarrow> string \<Rightarrow> bool) \<Rightarrow> notification_rule \<Rightarrow> base_event \<Rightarrow> engine \<Rightarrow> (string \<times> string) option \<times> engine" where
  "deliver env sends r e s =
     (let message = renderTemplate env (nr_template r) e; channel = nr_channel r in
      (Some (channel, message),
       if sends channel message then s\<lparr>ng_stats := (ng_stats s)\<lparr>es_sent := es_sent (ng_stats s) + 1\<rparr>\<rparr>
       else s\<lparr>ng_stats := (ng_stats s)\<lparr>es_errors := es_errors (ng_stats s) + 1\<rparr>\<rparr>))"

definition handleNotification ::
  "text_env \<Rightarrow> int \<Rightarrow> (string \<Rightarrow> string \<Rightarrow> bool) \<Rightarrow> base_event \<Rightarrow> engine \<Rightarrow> (string \<times> string) option \<times> engine" where
  "handleNotification env ts sends e s =
     (if \<not> ng_enabled s then (None, s)
      else case findMatchingRule (ng_rules s) e of
        None \<Rightarrow> (None, s\<lparr>ng_stats := (ng_stats s)\<lparr>es_noMatch := es_noMatch (ng_stats s) + 1\<rparr>\<rparr>)
      | Some r \<Rightarrow>
          if neverSuppress (ev_type e) (nr_neverSuppress r) then deliver env sends r e s
          else (case shouldSend ts (ev_taskId e) (ev_type e) (nr_dedupeWindowMs r) (ng_deduper s) of
            (False, d) \<Rightarrow> (None, s\<lparr>ng_stats := (ng_stats s)\<lparr>es_suppressed := es_suppressed (ng_stats s) + 1\<rparr>\<rparr>)
          | (True, d) \<Rightarrow> deliver env sends r e (s\<lparr>ng_deduper := d\<rparr>)))"

definition resetStats :: "engine \<Rightarrow> engine" where
  "resetStats s = s\<lparr>ng_stats := no_stats\<rparr>"

definition updateRules :: "notification_rule list \<Rightarrow> engine \<Rightarrow> engine" where
  "updateRules rules s = s\<lparr>ng_rules := rules\<rparr>"

subsection \<open>Rule files (loader.ts, watcher.ts)\<close>

record raw_rule =
  rw_eventType :: "string option"
  rw_payload :: "(string \<times> json) list option"
  rw_severity :: "string option"
  rw_audience :: "string list option"
  rw_channel :: "string option"
  rw_template :: "string option"
  rw_dedupeWindowMs :: "int option"
  rw_neverSuppress :: bool

text \<open>What reading the file and the YAML library make of it: nothing, a syntax error, or the array \<open>rules\<close> when there is one.\<close>

datatype rules_file = RulesMissing | RulesMalformed | RulesParsed "raw_rule list option"

definition severity_named :: "string \<Rightarrow> alert_severity" where
  "severity_named s = (if s = ''warn'' then AWarn else if s = ''critical'' then ACritical else AInfo)"

definition audience_named :: "string \<Rightarrow> audience option" where
  "audience_named s = (if s = ''agent'' then Some ToAgent else if s = ''team-lead'' then Some ToTeamLead
     else if s = ''operator'' then Some ToOperator else None)"

definition parseRule :: "raw_rule \<Rightarrow> notification_rule option" where
  "parseRule raw =
     (if \<not> truthy_str (rw_eventType raw) then None
      else if \<not> truthy_str (rw_channel raw) then None
      else if \<not> truthy_str (rw_template raw) then None
      else Some \<lparr>nr_eventType = the (rw_eventType raw), nr_payload = rw_payload raw, nr_severity = severity_named (or_else (rw_severity raw) []),
        nr_audience = List.map_filter audience_named (or_else (rw_audience raw) []), nr_channel = the (rw_channel raw),
        nr_template = the (rw_template raw), nr_dedupeWindowMs = rw_dedupeWindowMs raw, nr_neverSuppress = rw_neverSuppress raw\<rparr>)"

definition loadNotificationRules :: "rules_file \<Rightarrow> notification_rule list" where
  "loadNotificationRules f = (case f of
     RulesParsed (Some raws) \<Rightarrow> (let rules = List.map_filter parseRule raws in if length rules = 0 then DEFAULT_RULES else rules)
   | _ \<Rightarrow> DEFAULT_RULES)"

definition reload :: "rules_file \<Rightarrow> engine \<Rightarrow> engine" where
  "reload f s = updateRules (loadNotificationRules f) s"

subsection \<open>Audiences (audience.ts)\<close>

definition resolve_audience :: "(audience \<Rightarrow> string) \<Rightarrow> (audience \<times> string) list \<Rightarrow> audience list \<Rightarrow> string list" where
  "resolve_audience defaults overrides targets =
     fold (\<lambda>c cs. if c = [] \<or> c \<in> set cs then cs else cs @ [c])
       (map (\<lambda>t. or_else (map_of overrides t) (defaults t)) targets) []"

subsection \<open>Storms (batcher.ts)\<close>

record queued_notification =
  qn_eventType :: string
  qn_channel :: string
  qn_message :: string
  qn_critical :: bool

record storm_batcher =
  sb_threshold :: nat
  sb_pending :: "(string \<times> string list) js_map"
  sb_timer :: bool

text \<open>The results are the messages handed to the adapter, whose failures are only logged.\<close>

definition batch_enqueue :: "queued_notification \<Rightarrow> storm_batcher \<Rightarrow> (string \<times> string) list \<times> storm_batcher" where
  "batch_enqueue n b =
     (if qn_critical n then ([(qn_channel n, qn_message n)], b)
      else
        let group = (case map_of (sb_pending b) (qn_eventType n) of
              Some (channel, messages) \<Rightarrow> (channel, messages @ [qn_message n]) | None \<Rightarrow> (qn_channel n, [qn_message n])) in
        ([], b\<lparr>sb_pending := AList.update (qn_eventType n) group (sb_pending b), sb_timer := True\<rparr>))"

definition group_messages :: "nat \<Rightarrow> string \<times> string \<times> string list \<Rightarrow> (string \<times> string) list" where
  "group_messages threshold g = (case g of (eventType, channel, messages) \<Rightarrow>
     if length messages > threshold
     then [(channel, [CHR 0xF0, CHR 0x9F, CHR 0x8C, CHR 0x80] @ '' '' @ eventType @ '' storm: '' @ string_of_nat (length messages) @ '' events'')]
     else map (\<lambda>m. (channel, m)) messages)"

definition batch_flush :: "storm_batcher \<Rightarrow> (string \<times> string) list \<times> storm_batcher" where
  "batch_flush b = (concat (map (group_messages (sb_threshold b)) (sb_pending b)), b\<lparr>sb_pending := [], sb_timer := False\<rparr>)"

definition batch_stop :: "storm_batcher \<Rightarrow> (string \<times> string) list \<times> storm_batcher" where
  "batch_stop b = batch_flush (b\<lparr>sb_timer := False\<rparr>)"

subsection \<open>The notification service (events/notifier.ts)\<close>

definition CRITICAL_EVENTS :: "string list" where
  "CRITICAL_EVENTS = [''system.shutdown'', ''system.recovery'']"

definition EVENT_TO_CHANNEL :: "(string \<times> string) list" where
  "EVENT_TO_CHANNEL = [
     (''task.created'', ''#aof-dispatch''), (''task.transitioned'', ''#aof-dispatch''), (''lease.acquired'', ''#aof-dispatch''),
     (''lease.expired'', ''#aof-alerts''), (''lease.released'', ''#aof-dispatch''), (''system.startup'', ''#aof-alerts''),
     (''system.shutdown'', ''#aof-critical''), (''system.config-changed'', ''#aof-alerts''), (''system.drift-detected'', ''#aof-alerts''),
     (''system.recovery'', ''#aof-critical''), (''scheduler.poll'', ''#aof-dispatch'')]"

text \<open>\<open>shown_value\<close> is a value inside a template string; \<open>shown_or\<close> has the \<open>??\<close> of the source before it.\<close>

definition shown_value :: "text_env \<Rightarrow> json option \<Rightarrow> string" where
  "shown_value env v = (case v of None \<Rightarrow> ''undefined'' | Some j \<Rightarrow> js_string env j)"

definition shown_or :: "text_env \<Rightarrow> json option \<Rightarrow> string \<Rightarrow> string" where
  "shown_or env v alt = (case v of None \<Rightarrow> alt | Some JNull \<Rightarrow> alt | Some j \<Rightarrow> js_string env j)"

definition transitioned_text :: "text_env \<Rightarrow> base_event \<Rightarrow> string" where
  "transitioned_text env e =
     (let field = map_of (ev_payload e); to = field ''to''; i = or_else (ev_taskId e) ''undefined'' in
      if to = Some (JStr ''done'') then [CHR 0xE2, CHR 0x9C, CHR 0x85] @ '' '' @ ev_actor e @ '' completed '' @ i
      else if to = Some (JStr ''review'') then [CHR 0xF0, CHR 0x9F, CHR 0x91, CHR 0x80] @ '' '' @ i @ '' ready for review (by '' @ ev_actor e @ '')''
      else if to = Some (JStr ''blocked'') then [CHR 0xF0, CHR 0x9F, CHR 0x9A, CHR 0xA7] @ '' '' @ i @ '' blocked: '' @ shown_or env (field ''reason'') ''unknown reason''
      else if to = Some (JStr ''in-progress'') then [CHR 0xE2, CHR 0x96, CHR 0xB6, CHR 0xEF, CHR 0xB8, CHR 0x8F] @ '' '' @ ev_actor e @ '' started '' @ i
      else [CHR 0xF0, CHR 0x9F, CHR 0x94, CHR 0x84] @ '' '' @ i @ '': '' @ shown_value env (field ''from'') @ '' '' @ [CHR 0xE2, CHR 0x86, CHR 0x92] @ '' '' @ shown_value env to)"

definition poll_text :: "text_env \<Rightarrow> base_event \<Rightarrow> string" where
  "poll_text env e =
     (let actionsPlanned = or_else (map_of (ev_payload e) ''actionsPlanned'') (JNum 0) in
      if actionsPlanned = JNum 0 then [] else [CHR 0xF0, CHR 0x9F, CHR 0x94, CHR 0x84] @ '' Scheduler: '' @ js_string env actionsPlanned @ '' actions planned'')"

definition renderMessage :: "text_env \<Rightarrow> base_event \<Rightarrow> string" where
  "renderMessage env e =
     (let ty = ev_type e; i = or_else (ev_taskId e) ''undefined''; field = map_of (ev_payload e) in
      if ty = ''task.created'' then [CHR 0xF0, CHR 0x9F, CHR 0x93, CHR 0xAC] @ '' Task '' @ i @ '' created: '' @ shown_or env (field ''title'') ''Untitled''
      else if ty = ''task.transitioned'' then transitioned_text env e
      else if ty = ''lease.acquired'' then [CHR 0xE2, CHR 0x96, CHR 0xB6, CHR 0xEF, CHR 0xB8, CHR 0x8F] @ '' '' @ ev_actor e @ '' started '' @ i
      else if ty = ''lease.expired'' then [CHR 0xE2, CHR 0x8F, CHR 0xB0] @ '' Lease expired on '' @ i @ '' (agent: '' @ ev_actor e @ '')''
      else if ty = ''lease.released'' then [CHR 0xE2, CHR 0x8F, CHR 0xB8, CHR 0xEF, CHR 0xB8, CHR 0x8F] @ '' '' @ ev_actor e @ '' released '' @ i
      else if ty = ''system.startup'' then [CHR 0xF0, CHR 0x9F, CHR 0x9F, CHR 0xA2] @ '' AOF system started''
      else if ty = ''system.shutdown'' then [CHR 0xF0, CHR 0x9F, CHR 0x94, CHR 0xB4] @ '' AOF system shutting down''
      else if ty = ''system.drift-detected'' then [CHR 0xE2, CHR 0x9A, CHR 0xA0, CHR 0xEF, CHR 0xB8, CHR 0x8F] @ '' Org chart drift: '' @ shown_or env (field ''summary'') ''unknown''
      else if ty = ''system.recovery'' then [CHR 0xF0, CHR 0x9F, CHR 0x9F, CHR 0xA2] @ '' Scheduler recovered''
      else if ty = ''scheduler.poll'' then poll_text env e
      else ''['' @ ty @ ''] '' @ or_else (ev_taskId e) ''global'')"

record notification_service =
  ns_lastSent :: "int js_map"
  ns_ttlMs :: int
  ns_enabled :: bool

definition service_shouldSend :: "int \<Rightarrow> string option \<Rightarrow> string \<Rightarrow> notification_service \<Rightarrow> bool \<times> notification_service" where
  "service_shouldSend ts taskId eventType s =
     (if eventType \<in> set CRITICAL_EVENTS then (True, s)
      else
        let key = dedupe_key taskId eventType; last = or_else (map_of (ns_lastSent s) key) 0 in
        if ts - last < ns_ttlMs s then (False, s)
        else (True, s\<lparr>ns_lastSent := AList.update key ts (ns_lastSent s)\<rparr>))"

definition notify :: "text_env \<Rightarrow> int \<Rightarrow> base_event \<Rightarrow> notification_service \<Rightarrow> (string \<times> string) option \<times> notification_service" where
  "notify env ts e s =
     (if \<not> ns_enabled s then (None, s)
      else case service_shouldSend ts (ev_taskId e) (ev_type e) s of
        (False, s') \<Rightarrow> (None, s')
      | (True, s') \<Rightarrow>
          (let message = renderMessage env e in
           if message = [] then (None, s')
           else (Some (or_else (map_of EVENT_TO_CHANNEL (ev_type e)) ''#aof-dispatch'', message), s')))"

end
