(* ===== verification/NotificationProps.thy ===== *)
theory NotificationProps
  imports Notifications
begin

section \<open>What is notified, and what is suppressed\<close>

text \<open>
  The suppression of the policy engine is compared with the history of what it handed to its adapter. Then: which messages the
  default rules lose, and what the batcher makes of a storm.
\<close>

subsection \<open>Histories\<close>

datatype engine_call = Handle int "string \<Rightarrow> string \<Rightarrow> bool" base_event | UpdateRules "notification_rule list"

record handled =
  hd_time :: int
  hd_event :: base_event
  hd_rule :: "notification_rule option"
  hd_handed :: "(string \<times> string) option"

definition event_key :: "base_event \<Rightarrow> string" where
  "event_key e = dedupe_key (ev_taskId e) (ev_type e)"

fun engine_step :: "text_env \<Rightarrow> engine_call \<Rightarrow> handled list \<times> engine \<Rightarrow> handled list \<times> engine" where
  "engine_step env (Handle ts sends e) (tr, s) =
     (case handleNotification env ts sends e s of
        (out, s') \<Rightarrow> (tr @ [\<lparr>hd_time = ts, hd_event = e, hd_rule = findMatchingRule (ng_rules s) e, hd_handed = out\<rparr>], s'))"
| "engine_step env (UpdateRules rules) (tr, s) = (tr, updateRules rules s)"

definition engine_run :: "text_env \<Rightarrow> engine_call list \<Rightarrow> engine \<Rightarrow> handled list \<times> engine" where
  "engine_run env calls s = fold (engine_step env) calls ([], s)"

text \<open>A message is exempt when its event or rule is never suppressed, or the window of its rule is zero.\<close>

definition rule_window :: "int \<Rightarrow> notification_rule \<Rightarrow> int" where
  "rule_window w r = or_else (nr_dedupeWindowMs r) w"

definition exempt :: "int \<Rightarrow> notification_rule \<Rightarrow> base_event \<Rightarrow> bool" where
  "exempt w r e \<longleftrightarrow> neverSuppress (ev_type e) (nr_neverSuppress r) \<or> rule_window w r = 0"

definition counted :: "int \<Rightarrow> handled \<Rightarrow> bool" where
  "counted w h \<longleftrightarrow> hd_handed h \<noteq> None \<and> (case hd_rule h of None \<Rightarrow> False | Some r \<Rightarrow> \<not> exempt w r (hd_event h))"

definition last_counted :: "int \<Rightarrow> handled list \<Rightarrow> string \<Rightarrow> int option" where
  "last_counted w tr k = (let hs = filter (\<lambda>h. counted w h \<and> event_key (hd_event h) = k) tr in
     if hs = [] then None else Some (hd_time (last hs)))"

definition suppressed :: "int \<Rightarrow> handled list \<Rightarrow> notification_rule \<Rightarrow> int \<Rightarrow> base_event \<Rightarrow> bool" where
  "suppressed w tr r ts e \<longleftrightarrow> \<not> exempt w r e \<and>
     (case last_counted w tr (event_key e) of None \<Rightarrow> False | Some t \<Rightarrow> ts - t < rule_window w r)"

lemma last_counted_Nil [simp]: "last_counted w [] k = None"
  by (simp add: last_counted_def)

lemma last_counted_snoc [simp]:
  "last_counted w (tr @ [h]) k = (if counted w h \<and> event_key (hd_event h) = k then Some (hd_time h) else last_counted w tr k)"
  by (simp add: last_counted_def Let_def)

subsection \<open>The engine against its history\<close>

definition engine_inv :: "int \<Rightarrow> handled list \<times> engine \<Rightarrow> bool" where
  "engine_inv w c \<longleftrightarrow> (case c of (tr, s) \<Rightarrow>
     ng_enabled s \<and> dd_defaultWindowMs (ng_deduper s) = w \<and>
     (\<forall>k. map_option dd_lastSentAt (map_of (dd_store (ng_deduper s)) k) = last_counted w tr k) \<and>
     es_noMatch (ng_stats s) = length (filter (\<lambda>h. hd_rule h = None) tr) \<and>
     es_suppressed (ng_stats s) = length (filter (\<lambda>h. hd_rule h \<noteq> None \<and> hd_handed h = None) tr) \<and>
     es_sent (ng_stats s) + es_errors (ng_stats s) = length (filter (\<lambda>h. hd_handed h \<noteq> None) tr))"

lemma shouldSend_cases:
  assumes "dd_defaultWindowMs d = w" "\<And>k. map_option dd_lastSentAt (map_of (dd_store d) k) = last_counted w tr k"
    "\<not> neverSuppress (ev_type e) (nr_neverSuppress r)"
  shows "shouldSend ts (ev_taskId e) (ev_type e) (nr_dedupeWindowMs r) d =
    (\<not> suppressed w tr r ts e, if exempt w r e \<or> suppressed w tr r ts e then d
       else d\<lparr>dd_store := AList.update (event_key e) \<lparr>dd_lastSentAt = ts, dd_windowMs = rule_window w r\<rparr> (dd_store d)\<rparr>)"
  using assms(1,3) assms(2) [of "event_key e", symmetric]
  by (auto simp: shouldSend_def suppressed_def exempt_def rule_window_def event_key_def Let_def split: option.splits)

lemma handle_exact:
  assumes "engine_inv w (tr, s)"
  shows "fst (handleNotification env ts sends e s) = (case findMatchingRule (ng_rules s) e of
      None \<Rightarrow> None
    | Some r \<Rightarrow> if suppressed w tr r ts e then None else Some (nr_channel r, renderTemplate env (nr_template r) e))"
proof (cases "findMatchingRule (ng_rules s) e")
  case None
  then show ?thesis using assms by (simp add: handleNotification_def engine_inv_def)
next
  case (Some r)
  have inv: "ng_enabled s" "dd_defaultWindowMs (ng_deduper s) = w"
    "\<And>k. map_option dd_lastSentAt (map_of (dd_store (ng_deduper s)) k) = last_counted w tr k"
    using assms by (simp_all add: engine_inv_def)
  show ?thesis
  proof (cases "neverSuppress (ev_type e) (nr_neverSuppress r)")
    case True
    then have "\<not> suppressed w tr r ts e" by (simp add: suppressed_def exempt_def)
    with True Some inv(1) show ?thesis by (simp add: handleNotification_def deliver_def Let_def)
  next
    case False
    with Some inv(1) shouldSend_cases [OF inv(2,3) False, of ts] show ?thesis
      by (simp add: handleNotification_def deliver_def Let_def split: bool.splits)
  qed
qed

lemma handle_step:
  assumes "engine_inv w (tr, s)" "handleNotification env ts sends e s = (out, s')"
  shows "engine_inv w (tr @ [\<lparr>hd_time = ts, hd_event = e, hd_rule = findMatchingRule (ng_rules s) e, hd_handed = out\<rparr>], s')"
proof (cases "findMatchingRule (ng_rules s) e")
  case None
  then show ?thesis using assms by (auto simp: handleNotification_def engine_inv_def counted_def)
next
  case (Some r)
  have inv: "ng_enabled s" "dd_defaultWindowMs (ng_deduper s) = w"
    "\<And>k. map_option dd_lastSentAt (map_of (dd_store (ng_deduper s)) k) = last_counted w tr k"
    using assms(1) by (simp_all add: engine_inv_def)
  show ?thesis
  proof (cases "neverSuppress (ev_type e) (nr_neverSuppress r)")
    case True
    then show ?thesis using assms Some
      by (auto simp: handleNotification_def deliver_def engine_inv_def counted_def exempt_def Let_def split: if_splits)
  next
    case False
    show ?thesis using assms Some False shouldSend_cases [OF inv(2,3) False, of ts]
      by (auto simp: handleNotification_def deliver_def engine_inv_def counted_def suppressed_def update_conv Let_def split: if_splits)
  qed
qed

lemma engine_run_inv: "engine_inv (or_else dedupeWindowMs 300000) (engine_run env calls (new_engine rules dedupeWindowMs None))"
proof (induction calls rule: rev_induct)
  case Nil
  show ?case by (simp add: engine_run_def engine_inv_def new_engine_def no_stats_def or_else_def)
next
  case (snoc c calls)
  obtain tr s where run: "engine_run env calls (new_engine rules dedupeWindowMs None) = (tr, s)" by fastforce
  have now_run: "engine_run env (calls @ [c]) (new_engine rules dedupeWindowMs None) = engine_step env c (tr, s)"
    using run by (simp add: engine_run_def)
  show ?case
  proof (cases c)
    case (Handle ts sends e)
    obtain out s' where "handleNotification env ts sends e s = (out, s')" by fastforce
    with handle_step [OF snoc.IH [unfolded run]] Handle show ?thesis unfolding now_run by simp
  next
    case (UpdateRules rs)
    with snoc.IH [unfolded run] show ?thesis unfolding now_run by (simp add: engine_inv_def updateRules_def)
  qed
qed

text \<open>C40: the suppression of notifications, against the history. Whatever events were handled before and however the rules were
  replaced in between, an event is handed to the adapter with the channel and the filled template of the first rule that matches,
  unless a message for the same task and type of event was handed over less than the window of that rule ago. Events and rules
  marked as never suppressed and rules with a window of zero are exempt, and neither suppress nor are suppressed. The counters
  add up to the history. It does not matter which rule the earlier message came from, what it said, or whether it was delivered:
  a message about a start silences the message about a block that follows.\<close>

theorem suppression_exact:
  assumes "engine_run env calls (new_engine rules dedupeWindowMs None) = (tr, s)" "w = or_else dedupeWindowMs 300000"
  shows "fst (handleNotification env ts sends e s) = (case findMatchingRule (ng_rules s) e of
      None \<Rightarrow> None
    | Some r \<Rightarrow> if suppressed w tr r ts e then None else Some (nr_channel r, renderTemplate env (nr_template r) e)) \<and>
    es_sent (ng_stats s) + es_errors (ng_stats s) = length (filter (\<lambda>h. hd_handed h \<noteq> None) tr) \<and>
    es_suppressed (ng_stats s) = length (filter (\<lambda>h. hd_rule h \<noteq> None \<and> hd_handed h = None) tr) \<and>
    es_noMatch (ng_stats s) = length (filter (\<lambda>h. hd_rule h = None) tr)"
proof -
  have inv: "engine_inv w (tr, s)" using engine_run_inv [of dedupeWindowMs env calls rules] by (simp add: assms)
  show ?thesis by (rule conjI [OF handle_exact [OF inv]]) (use inv in \<open>simp add: engine_inv_def\<close>)
qed

subsection \<open>What the default rules lose\<close>

definition plain_text :: text_env where
  "plain_text = \<lparr>tx_num = \<lambda>r. string_of_int \<lfloor>r\<rfloor>, tx_iso = \<lambda>t. []\<rparr>"

definition moved :: "string \<Rightarrow> base_event" where
  "moved to = \<lparr>ev_type = ''task.transitioned'', ev_actor = ''bot'', ev_taskId = Some ''TASK-1'', ev_timestamp = 0,
     ev_payload = [(''from'', JStr ''ready''), (''to'', JStr to)], be_eventId = 1\<rparr>"

definition handed :: "(int \<times> base_event) list \<Rightarrow> (string \<times> string) option list" where
  "handed calls = map hd_handed (fst (engine_run plain_text (map (\<lambda>(ts, e). Handle ts (\<lambda>c m. True) e) calls) (new_engine DEFAULT_RULES None None)))"

theorem suppression_exact_witness:
  "\<exists>tr s. engine_run plain_text [Handle 1000 (\<lambda>c m. True) (moved ''in-progress'')] (new_engine DEFAULT_RULES None None) = (tr, s) \<and>
     fst (handleNotification plain_text 300999 (\<lambda>c m. True) (moved ''blocked'') s) = None \<and>
     fst (handleNotification plain_text 301000 (\<lambda>c m. True) (moved ''blocked'') s) \<noteq> None"
proof -
  obtain tr s where run: "engine_run plain_text [Handle 1000 (\<lambda>c m. True) (moved ''in-progress'')] (new_engine DEFAULT_RULES None None) = (tr, s)"
    by fastforce
  have w: "(300000 :: int) = or_else None 300000" by (simp add: or_else_def)
  have tr: "tr = fst (engine_run plain_text [Handle 1000 (\<lambda>c m. True) (moved ''in-progress'')] (new_engine DEFAULT_RULES None None))"
    "s = snd (engine_run plain_text [Handle 1000 (\<lambda>c m. True) (moved ''in-progress'')] (new_engine DEFAULT_RULES None None))" by (simp_all add: run)
  have r: "findMatchingRule (ng_rules s) (moved ''blocked'') = Some (DEFAULT_RULES ! 1)" unfolding tr by code_simp
  have "suppressed 300000 tr (DEFAULT_RULES ! 1) 300999 (moved ''blocked'') \<and> \<not> suppressed 300000 tr (DEFAULT_RULES ! 1) 301000 (moved ''blocked'')"
    unfolding tr by code_simp
  with r suppression_exact [OF run w, of 300999 "\<lambda>c m. True" "moved ''blocked''"]
    suppression_exact [OF run w, of 301000 "\<lambda>c m. True" "moved ''blocked''"]
  have "fst (handleNotification plain_text 300999 (\<lambda>c m. True) (moved ''blocked'') s) = None"
    "fst (handleNotification plain_text 301000 (\<lambda>c m. True) (moved ''blocked'') s) \<noteq> None" by simp_all
  with run show ?thesis by blast
qed

text \<open>Fact: no default rule matches the event that a dead-lettered task logs, nor the one of an escalated hop, although the events
  that are always critical name the second and an older spelling of the first.\<close>

lemma default_rules_miss:
  "list_all (\<lambda>r. \<not> matchesEventType (nr_eventType r) ''task.deadlettered'' \<and> \<not> matchesEventType (nr_eventType r) ''dag.hop_timeout_escalation'')
     DEFAULT_RULES"
  by code_simp

theorem dead_letters_unmatched:
  assumes "ev_type e = ''task.deadlettered'' \<or> ev_type e = ''dag.hop_timeout_escalation''"
  shows "findMatchingRule DEFAULT_RULES e = None"
  using assms default_rules_miss by (auto simp: findMatchingRule_def find_None_iff list_all_iff)

text \<open>Fact: a review is announced twice when its transition is logged twice, as the hook of the service and the router do; the
  other transitions are announced once.\<close>

theorem review_announced_twice:
  "map (\<lambda>h. h = None) (handed [(0, moved ''review''), (1, moved ''review''), (2, moved ''done''), (3, moved ''done'')]) = [False, False, False, True]"
  by code_simp

subsection \<open>Storms\<close>

definition batched :: "queued_notification list \<Rightarrow> storm_batcher \<Rightarrow> storm_batcher" where
  "batched ns b = fold (\<lambda>n b. snd (batch_enqueue n b)) ns b"

definition grouped :: "queued_notification list \<Rightarrow> string \<Rightarrow> (string \<times> string list) option" where
  "grouped ns ty = (let same = filter (\<lambda>n. \<not> qn_critical n \<and> qn_eventType n = ty) ns in
     if same = [] then None else Some (qn_channel (hd same), map qn_message same))"

text \<open>Fact: between two flushes every message that is not critical waits in the group of its type of event, in order, and a flush
  sends each group as it is or, above the threshold, as one line with their number. The channel of a group is that of its first message.\<close>

theorem storm_groups:
  "map_of (sb_pending (batched ns \<lparr>sb_threshold = k, sb_pending = [], sb_timer = False\<rparr>)) = grouped ns \<and>
   distinct (map fst (sb_pending (batched ns \<lparr>sb_threshold = k, sb_pending = [], sb_timer = False\<rparr>)))"
proof (induction ns rule: rev_induct)
  case Nil
  show ?case by (auto simp: batched_def grouped_def)
next
  case (snoc n ns)
  then show ?case
    by (auto simp: batched_def batch_enqueue_def grouped_def update_conv distinct_update Let_def fun_eq_iff split: if_splits)
qed

end
