(* ===== verification/Spec2Isabelle.thy ===== *)
theory Spec2Isabelle
  imports DagEvalProps DagValidation DagCondition StoreExamples TaskDeps TaskLock TaskParser TaskDispatcher
    SchedulerHelperProps AssignProps ProtocolExamples ActionProps CircularDeps
    ChatProps PollProps BridgeProps OrgChartProps PermissionProps ServiceProps ProjectProps
    NotificationProps
begin

text \<open>
  This library models the core of AOF, an orchestration fabric for agents written in TypeScript
  (src/src/). A task is a Markdown file with YAML frontmatter that lies in the directory of its
  status; a scheduler leases ready tasks to agents and spawns them through a gateway adapter; agents
  report through protocol messages; a task may carry a workflow, a DAG of hops run one after another.

  \<^bold>\<open>Data.\<close> \<open>AofPrelude\<close> and \<open>JsValue\<close> hold insertion-ordered maps, the JavaScript string functions and
  JSON values (numbers are rationals, ISO dates are their instant). \<open>TaskSchema\<close> is schemas/task.ts with
  the status machine \<open>VALID_TRANSITIONS\<close>; \<open>WorkflowDag\<close> is schemas/workflow-dag.ts with \<open>validateDAG\<close>;
  \<open>ProtocolSchema\<close> is schemas/protocol.ts and protocol/parsers.ts.

  \<^bold>\<open>State.\<close> \<open>World\<close> is the state of the system: the task files with their modification times, companion
  directories, run artifacts, lease timers, event log, and the clock. An operation is a function from a
  world to an error or a result, and a world (\<open>'a m\<close>); a thrown exception is \<open>Inl\<close> of the source's error,
  and the world it leaves behind is the one at the throw, so partial effects are visible. Code under one
  per-task lock is one such function; \<open>TaskLock\<close> models both locks (store/task-lock.ts,
  protocol/task-lock.ts) as a step relation and shows that they give exactly this exclusion.

  \<^bold>\<open>Components\<close>, in the order of the code's layers:
  \<^item> Workflows: \<open>DagCondition\<close> and \<open>DagEvaluator\<close> (dispatch/dag-condition-evaluator.ts, dag-evaluator.ts),
    with \<open>DagValidation\<close> (\<open>validateDAG\<close> accepts exactly the well-formed DAGs) and \<open>DagEvalProps\<close> (exact change log,
    exact skip cascade, completion, no deadlock with all-joins, what rejections and mixed joins do).
  \<^item> Store: \<open>TaskStore\<close>, \<open>TaskOps\<close> (store/task-store.ts, task-mutations.ts, task-lifecycle.ts,
    task-validation.ts, task-file-ops.ts), \<open>TaskParser\<close>, \<open>TaskDeps\<close>. \<open>StoreProps\<close>, \<open>StoreOpsProps\<close> and \<open>StoreRecovery\<close>
    refine the file operations to an abstract map of tasks and treat duplicates, crashes and repair;
    \<open>StoreInterface\<close> states the store's contract as a locale and interprets it; \<open>StoreFrame\<close> and \<open>StoreRun\<close> hold
    the frame rules and the calculus (\<open>yields\<close>) the proofs of the clients use.
  \<^item> Runs and leases: \<open>RunArtifacts\<close> (recovery/run-artifacts.ts), \<open>Lease\<close> and \<open>LeaseProps\<close> (store/lease.ts,
    dispatch/lease-manager.ts).
  \<^item> Planning: \<open>Throttle\<close>, \<open>SchedulerHelpers\<close>, \<open>SchedulerHelperProps\<close>, \<open>TaskDispatcher\<close>.
  \<^item> Execution: \<open>FailureTracker\<close>, \<open>AssignExecutor\<close>, \<open>AssignProps\<close>, \<open>DepCascader\<close>, \<open>HopContext\<close>, \<open>DagTransition\<close>,
    \<open>Escalation\<close> (overdue hops), \<open>ActionHandlers\<close> and \<open>ActionProps\<close> (the actions of a poll).
  \<^item> Reviews: \<open>Murmur\<close> (murmur/state-manager.ts, trigger-evaluator.ts, cleanup.ts, context-builder.ts,
    dispatch/murmur-integration.ts, murmur-hooks.ts) and \<open>MurmurProps\<close> (when a trigger fires, one review at a time).
  \<^item> Poll: \<open>CircularDeps\<close> (the search for circular dependencies), \<open>SchedulerPoll\<close> (\<open>poll\<close> of dispatch/scheduler.ts,
    which composes planning, execution, ready hops, callback retries and reviews) and \<open>PollProps\<close>: a poll never throws,
    keeps the limits, changes nothing in a dry run; what the dispatch of ready hops depends on.
  \<^item> Protocol: \<open>Completion\<close>, \<open>ProtocolRouter\<close>, \<open>ProtocolProps\<close>, \<open>SessionEnd\<close>, \<open>ProtocolExamples\<close>.

  \<^item> Notification: \<open>Subscriptions\<close> (store/subscription-store.ts, with the file as a locale that is interpreted on the
    world), \<open>CallbackDelivery\<close> and \<open>CallbackProps\<close> (dispatch/callback-delivery.ts, tools/subscription-tools.ts),
    \<open>ChatDelivery\<close> and \<open>ChatProps\<close> (openclaw/openclaw-chat-delivery.ts).
  \<^item> Notification policy: \<open>Notifications\<close> (events/notification-policy/ and events/notifier.ts) and \<open>NotificationProps\<close>: when the
    engine announces an event, compared with the history of what it announced; which events the default rules lose.
  \<^item> Plugin bridge: \<open>ClaimQueue\<close> (ipc/spawn-queue.ts, chat-delivery-queue.ts and the long-polls of ipc/routes/), \<open>SpawnBridge\<close>
    (ipc/plugin-registry.ts, dispatch/plugin-bridge-adapter.ts, selecting-adapter.ts), the daemon as step relations over its
    events. \<open>ClaimQueueProps\<close> states what the hub of connections needs of a queue as the locale \<open>claim_queue\<close>, proves the hub
    once and interprets it on both queues; \<open>BridgeProps\<close> shows that requests are handed out and answered once.
  \<^item> Org chart: \<open>OrgChart\<close> (schemas/org-chart.ts, org/linter.ts) and \<open>OrgChartProps\<close>: what a chart without errors is.
  \<^item> Tools: \<open>Tools\<close> (tools/task-crud-tools.ts, task-workflow-tools.ts, query-tools.ts, project-tools.ts, task-linter.ts) over a
    record of the store's operations (store/interfaces.ts), and \<open>ToolProps\<close>: exactly what completing and dispatching do.
    \<open>Permissions\<close> (permissions/task-permissions.ts, ipc/store-resolver.ts and the answers of ipc/routes/invoke-tool.ts) is the
    store that checks the role of the agent. What every tool keeps is proved once in the locale \<open>keeping_store\<close>; it is
    interpreted on the file store and, in \<open>PermissionProps\<close>, on the store with permissions, which confines agents.
  \<^item> Projects: \<open>Projects\<close> (schemas/project.ts, projects/registry.ts, create.ts, manifest.ts, bootstrap.ts, store-factory.ts,
    lint.ts, lint-helpers.ts) over the vault as a list of directories, and \<open>ProjectProps\<close>: the search for circular parents is
    exact, and which created projects are found again.
  \<^item> Service: \<open>Service\<close> (service/aof-service.ts) puts one store per project beside the store of the data directory: startup
    with the reclaiming of orphans, polls of all stores, messages and shutdown, each as one function of the stores. These assume
    that a poll ends before its timeout; the promise chain of polls with timeouts is a step relation of its own.
    \<open>ServiceProps\<close>: what startup reclaims, that a poll reaches every store, and that polls keep the order of their triggers.
    The hook on transitions that feeds reviews is the operation \<open>murmurHook\<close> of \<open>Murmur\<close>; \<open>transition_task\<close> does not call it.

  \<^bold>\<open>Loops.\<close> Every loop is structural or has a termination proof: Kahn's loop and the breadth-first search of
  \<open>validateDAG\<close>, the skip cascade, the depth-first search of \<open>hasCycle\<close>, the walk along the parents of a project and the
  search for a fresh task id carry measures; none needs fuel.

  \<^bold>\<open>Parameters.\<close> Code outside src/ is an argument: the YAML and JSON libraries, the content hash,
  \<open>randomUUID\<close>, \<open>Math.random\<close>, the rendering of dates and numbers, the gateway adapter that spawns agents (it
  may change the world), the tool that sends chat messages, notification, trace capture, and the hook of a
  finished run that calls the delivery of callbacks. Hypotheses on them are
  documented at the theorem that uses them and are satisfied by its witness. Configuration files (the org chart, project.yaml)
  are values, as loaded by the code that reads them.

  \<^bold>\<open>Not modelled.\<close> Command line, MCP and HTTP wrappers, memory search, views, packaging, and console
  logging: they parse, format or call out. Metrics and the rotation of the event log are
  output only. IEEE rounding, the order of concurrent file operations of different processes and
  the content of prompts are outside the model.
\<close>

end
